(* ===== verification/Prelude.thy ===== *)
theory Prelude
  imports Main "HOL-Library.Word"
begin

text \<open>
  Shared vocabulary of the development: bytes, the error codes of \<^verbatim>\<open>tipy/lib/errno.py\<close> and the Python exceptions
  the stack can raise,
  Python slices and 32-bit masks, and the generic arithmetic lemmas the components share.

  Python integers are \<open>int\<close>; a byte of a \<^verbatim>\<open>memoryview\<close> is an \<open>8 word\<close>.
  A function that can raise returns \<open>exn + 'a\<close>, with \<open>Inl\<close> for the exception.
\<close>

unbundle bit_operations_syntax

section \<open>Types\<close>

type_synonym byte = "8 word"
type_synonym bytes = "byte list"

text \<open>The field \<^verbatim>\<open>error\<close> of a socket: \<open>NoErr\<close> is 0.\<close>

datatype errno = NoErr | ECONNREFUSED | ECONNRESET | EPIPE | EADDRNOTAVAIL | EADDRINUSE
  | ENOPROTOOPT | EOPNOTSUPP | EINVAL | ETIMEDOUT | EDESTADDRREQ | ENOTCONN | EAI_NONAME

text \<open>\<open>SocketError\<close> is the exception \<^verbatim>\<open>tipy/lib/errno.py\<close> raises for an error code.\<close>

datatype exn = StructError | IndexError | KeyError | TypeError | AttributeError | NameError
  | ValueError | OSError | IPFormatError | MACFormatError | IPBadOptionError | SystemExit | SocketError errno

type_synonym 'a result = "exn + 'a"

section \<open>Python slices\<close>

text \<open>
  \<open>py_upto xs n\<close> is \<^verbatim>\<open>xs[:n]\<close>, \<open>py_from xs n\<close> is \<^verbatim>\<open>xs[n:]\<close> and \<open>py_slice xs a b\<close> is
  \<^verbatim>\<open>xs[a:b]\<close>, for every integer index: a negative one counts from the end, one out of
  range is clamped. \<open>slice_assign xs a b ys\<close> is the sequence after \<^verbatim>\<open>xs[a:b] = ys\<close>.
\<close>

definition py_index :: "'a list \<Rightarrow> int \<Rightarrow> nat" where
  "py_index xs i = (if i < 0 then nat (int (length xs) + i) else min (nat i) (length xs))"

definition py_upto :: "'a list \<Rightarrow> int \<Rightarrow> 'a list" where
  "py_upto xs n = take (py_index xs n) xs"

definition py_from :: "'a list \<Rightarrow> int \<Rightarrow> 'a list" where
  "py_from xs n = drop (py_index xs n) xs"

definition py_slice :: "'a list \<Rightarrow> int \<Rightarrow> int \<Rightarrow> 'a list" where
  "py_slice xs a b = take (py_index xs b - py_index xs a) (drop (py_index xs a) xs)"

definition slice :: "'a list \<Rightarrow> nat \<Rightarrow> nat \<Rightarrow> 'a list" where
  "slice xs a b = take (b - a) (drop a xs)"

definition slice_assign :: "'a list \<Rightarrow> nat \<Rightarrow> nat \<Rightarrow> 'a list \<Rightarrow> 'a list" where
  "slice_assign xs a b ys = take a xs @ ys @ drop b xs"

section \<open>Masks and sums of flags\<close>

abbreviation mask32 :: "int \<Rightarrow> int" where
  "mask32 x \<equiv> x AND 0xFFFFFFFF"

named_theorems seq_simps \<open>sequence-number masks as arithmetic modulo 2 ^ 32\<close>
named_theorems slice_simps \<open>Python slices as take and drop\<close>

lemma mask32_mod [seq_simps]: "mask32 x = x mod 4294967296"
proof -
  have "mask32 x = x AND mask 32" by (simp add: mask_eq_exp_minus_1)
  also have "\<dots> = take_bit 32 x" by (simp add: take_bit_eq_mask)
  finally show ?thesis by (simp add: take_bit_eq_mod)
qed

lemma mask32_range [simp]: "0 \<le> mask32 x" "mask32 x < 4294967296"
  by (simp_all add: mask32_mod)

lemma py_upto_nonneg [slice_simps]: "0 \<le> n \<Longrightarrow> py_upto xs n = take (nat n) xs"
  by (simp add: py_upto_def py_index_def min_def)

lemma py_from_nonneg [slice_simps]: "0 \<le> n \<Longrightarrow> py_from xs n = drop (nat n) xs"
  by (simp add: py_from_def py_index_def min_def)

lemma py_slice_nonneg [slice_simps]:
  "0 \<le> a \<Longrightarrow> 0 \<le> b \<Longrightarrow> py_slice xs a b = slice xs (nat a) (nat b)"
  by (auto simp add: py_slice_def py_index_def slice_def min_def)

lemma length_slice_assign:
  "a \<le> b \<Longrightarrow> b \<le> length xs \<Longrightarrow> length ys = b - a \<Longrightarrow> length (slice_assign xs a b ys) = length xs"
  by (simp add: slice_assign_def)

end
