(* ===== verification/Buffer.thy ===== *)
theory Buffer
  imports Prelude
begin

text \<open>
  The two circular buffers of \<^verbatim>\<open>tipy/lib/buffer.py\<close>. A \<open>ring_buffer\<close> (class
  \<^verbatim>\<open>RingBuffer\<close>) has one pair of offsets; an \<open>rring_buffer\<close> (class \<^verbatim>\<open>RRingBuffer\<close>, the TCP
  send buffer) adds virtual offsets, so that a read can be rolled back until \<^verbatim>\<open>free\<close> commits
  it. One byte of the ring stays unused to tell full from empty.

  Each method is one atomic operation of the model: the source takes its offsets in a snapshot
  under the lock, and a buffer has one producer and one consumer. Sizes and requested lengths
  are non-negative (\<open>nat\<close>). The interface the TCP code relies on is the locale
  \<open>fifo_buffer\<close>, interpreted on both classes; \<open>rewindable_buffer\<close> extends it with rollback.
\<close>

section \<open>RingBuffer\<close>

record ring_buffer =
  rb_size :: nat
  rb_ring :: bytes
  rb_w :: nat
  rb_r :: nat

definition rb_init :: "nat \<Rightarrow> ring_buffer" where
  "rb_init sz = \<lparr>rb_size = sz, rb_ring = replicate sz 0, rb_w = 0, rb_r = 0\<rparr>"

definition rb_free_space :: "ring_buffer \<Rightarrow> nat" where
  "rb_free_space b = nat ((int (rb_r b) - int (rb_w b) - 1) mod int (rb_size b))"

definition rb_ready :: "ring_buffer \<Rightarrow> nat" where
  "rb_ready b = nat ((int (rb_w b) - int (rb_r b)) mod int (rb_size b))"

definition rb_is_empty :: "ring_buffer \<Rightarrow> bool" where
  "rb_is_empty b \<longleftrightarrow> rb_w b = rb_r b"

definition rb_enqueue :: "ring_buffer \<Rightarrow> bytes \<Rightarrow> nat \<times> ring_buffer" where
  "rb_enqueue b buffer =
     (let r = rb_r b; w = rb_w b; s = rb_size b; ring = rb_ring b;
          free = nat ((int r - int w - 1) mod int s)
      in if free = 0 then (0, b)
         else
           let buf_len = min (length buffer) free
           in if w + buf_len \<le> s - 1
              then (buf_len,
                    b\<lparr>rb_ring := slice_assign ring w (w + buf_len) (take buf_len buffer),
                      rb_w := (w + buf_len) mod s\<rparr>)
              else
                let ring1 = slice_assign ring w s (take (s - w) buffer);
                    ring2 = slice_assign ring1 0 (buf_len - (s - w)) (slice buffer (s - w) buf_len)
                in (buf_len, b\<lparr>rb_ring := ring2, rb_w := (w + buf_len) mod s\<rparr>))"

definition rb_dequeue :: "ring_buffer \<Rightarrow> nat \<Rightarrow> bytes list \<times> ring_buffer" where
  "rb_dequeue b n0 =
     (let r = rb_r b; w = rb_w b; s = rb_size b; ring = rb_ring b;
          ready = nat ((int w - int r) mod int s);
          n = min n0 ready
      in if r < w then
           let data = slice ring r (r + n)
           in ([data], b\<lparr>rb_r := (r + length data) mod s\<rparr>)
         else if r > w then
           (if r + n \<le> s then
              let data = slice ring r (r + n)
              in ([data], b\<lparr>rb_r := (r + length data) mod s\<rparr>)
            else
              let remainder = n - (s - r);
                  data1 = drop r ring;
                  data2 = take remainder ring
              in ([data1, data2], b\<lparr>rb_r := (r + length data1 + length data2) mod s\<rparr>))
         else ([], b))"

definition rb_len :: "ring_buffer \<Rightarrow> nat" where
  "rb_len b = length (rb_ring b)"

section \<open>RRingBuffer\<close>

record rring_buffer =
  rrb_size :: nat
  rrb_ring :: bytes
  rrb_w :: nat
  rrb_r :: nat
  rrb_vr :: nat
  rrb_vw :: nat

definition rrb_init :: "nat \<Rightarrow> rring_buffer" where
  "rrb_init sz =
     \<lparr>rrb_size = sz, rrb_ring = replicate sz 0, rrb_w = 0, rrb_r = 0, rrb_vr = 0, rrb_vw = 0\<rparr>"

text \<open>
  The argument of \<^verbatim>\<open>free\<close> is an integer: the closing states pass \<^verbatim>\<open>seq_acked - 1\<close>.
\<close>

definition rrb_free :: "rring_buffer \<Rightarrow> int \<Rightarrow> rring_buffer" where
  "rrb_free b n = b\<lparr>rrb_r := nat ((int (rrb_r b) + n) mod int (rrb_size b))\<rparr>"

definition rrb_free_space :: "rring_buffer \<Rightarrow> nat" where
  "rrb_free_space b = nat ((int (rrb_vr b) - int (rrb_vw b) - 1) mod int (rrb_size b))"

definition rrb_ready :: "rring_buffer \<Rightarrow> nat" where
  "rrb_ready b = nat ((int (rrb_vw b) - int (rrb_vr b)) mod int (rrb_size b))"

definition rrb_is_empty :: "rring_buffer \<Rightarrow> bool" where
  "rrb_is_empty b \<longleftrightarrow> rrb_vw b = rrb_vr b"

definition rrb_roll_back_to_r :: "rring_buffer \<Rightarrow> rring_buffer" where
  "rrb_roll_back_to_r b = b\<lparr>rrb_vr := rrb_r b\<rparr>"

definition rrb_roll_back_to_w :: "rring_buffer \<Rightarrow> rring_buffer" where
  "rrb_roll_back_to_w b = b\<lparr>rrb_vw := rrb_w b\<rparr>"

definition rrb_enqueue :: "rring_buffer \<Rightarrow> bytes \<Rightarrow> nat \<times> rring_buffer" where
  "rrb_enqueue b buffer =
     (let vr = rrb_vr b; vw = rrb_vw b; s = rrb_size b; ring = rrb_ring b;
          free = nat ((int vr - int vw - 1) mod int s)
      in if free = 0 then (0, b)
         else
           let buf_len = min (length buffer) free
           in if vw + buf_len \<le> s - 1
              then (buf_len,
                    b\<lparr>rrb_ring := slice_assign ring vw (vw + buf_len) (take buf_len buffer),
                      rrb_vw := (vw + buf_len) mod s\<rparr>)
              else
                let ring1 = slice_assign ring vw s (take (s - vw) buffer);
                    ring2 = slice_assign ring1 0 (buf_len - (s - vw)) (slice buffer (s - vw) buf_len)
                in (buf_len, b\<lparr>rrb_ring := ring2, rrb_vw := (vw + buf_len) mod s\<rparr>))"

definition rrb_dequeue :: "rring_buffer \<Rightarrow> nat \<Rightarrow> bytes list \<times> rring_buffer" where
  "rrb_dequeue b n0 =
     (let vr = rrb_vr b; vw = rrb_vw b; s = rrb_size b; ring = rrb_ring b;
          ready = nat ((int vw - int vr) mod int s);
          n = min n0 ready
      in if vr < vw then
           let data = slice ring vr (vr + n)
           in ([data], b\<lparr>rrb_vr := (vr + length data) mod s\<rparr>)
         else if vr > vw then
           (if vr + n \<le> s then
              let data = slice ring vr (vr + n)
              in ([data], b\<lparr>rrb_vr := (vr + length data) mod s\<rparr>)
            else
              let remainder = n - (s - vr);
                  data1 = drop vr ring;
                  data2 = take remainder ring
              in ([data1, data2], b\<lparr>rrb_vr := (vr + length data1 + length data2) mod s\<rparr>))
         else ([], b))"

section \<open>Abstraction and invariant\<close>

definition rb_inv :: "ring_buffer \<Rightarrow> bool" where
  "rb_inv b \<longleftrightarrow> 0 < rb_size b \<and> length (rb_ring b) = rb_size b \<and>
     rb_r b < rb_size b \<and> rb_w b < rb_size b"

definition rb_contents :: "ring_buffer \<Rightarrow> bytes" where
  "rb_contents b = take (rb_ready b) (rotate (rb_r b) (rb_ring b))"

definition rb_cap :: "ring_buffer \<Rightarrow> nat" where
  "rb_cap b = rb_size b - 1"

text \<open>The \<open>ring_buffer\<close> a recoverable buffer is for its readers and writers.\<close>

definition rrb_view :: "rring_buffer \<Rightarrow> ring_buffer" where
  "rrb_view b = \<lparr>rb_size = rrb_size b, rb_ring = rrb_ring b, rb_w = rrb_vw b, rb_r = rrb_vr b\<rparr>"

definition rrb_inv :: "rring_buffer \<Rightarrow> bool" where
  "rrb_inv b \<longleftrightarrow> rb_inv (rrb_view b) \<and> rrb_r b < rrb_size b"

definition rrb_contents :: "rring_buffer \<Rightarrow> bytes" where
  "rrb_contents b = rb_contents (rrb_view b)"

definition rrb_cap :: "rring_buffer \<Rightarrow> nat" where
  "rrb_cap b = rrb_size b - 1"

text \<open>The bytes read but not yet freed: from the committed to the virtual read offset.\<close>

definition rrb_unacked :: "rring_buffer \<Rightarrow> bytes" where
  "rrb_unacked b =
     take (nat ((int (rrb_vr b) - int (rrb_r b)) mod int (rrb_size b)))
       (rotate (rrb_r b) (rrb_ring b))"

section \<open>Lemmas on rotated rings\<close>

lemma rotate_eq: "k \<le> length xs \<Longrightarrow> rotate k xs = drop k xs @ take k xs"
  by (cases "k = length xs") (simp_all add: rotate_drop_take)

lemma drop_take_rotate:
  "k \<le> m \<Longrightarrow> m \<le> length xs \<Longrightarrow> take (m - k) (rotate k xs) = drop k (take m xs)"
  by (simp add: rotate_eq drop_take)

lemma rotate_advance:
  "length xs = s \<Longrightarrow> rotate ((r + n) mod s) xs = rotate n (rotate r xs)"
  using rotate_conv_mod [of "r + n" xs] by (simp add: rotate_rotate add.commute)

text \<open>
  Overwriting \<open>n\<close> bytes after the first \<open>m\<close> of a rotated ring appends them to the prefix
  of length \<open>m\<close>.
\<close>

lemma prefix_after_write:
  assumes len: "length xs = s" "length ys = s" and mn: "m + n \<le> s" and lb: "length B = n"
    and eq: "rotate m ys = B @ drop n (rotate m xs)"
  shows "take (m + n) ys = take m xs @ B"
proof -
  have "drop m ys @ take m ys = (B @ drop (m + n) xs) @ take m xs"
    using eq len mn by (simp add: rotate_eq add.commute)
  moreover have "length (drop m ys) = length (B @ drop (m + n) xs)"
    using len mn lb by simp
  ultimately have d: "drop m ys = B @ drop (m + n) xs" and t: "take m ys = take m xs"
    using append_eq_append_conv by blast+
  have "take (m + n) ys = take m ys @ take n (drop m ys)"
    by (simp add: take_add)
  also have "\<dots> = take m xs @ B" using d t lb by simp
  finally show ?thesis .
qed

section \<open>RingBuffer: offsets\<close>

lemma mod_diff_cases:
  assumes "a < s" "b < s"
  shows "nat ((int a - int b) mod int s) = (if b \<le> a then a - b else s - b + a)"
proof (cases "b \<le> a")
  case True
  then show ?thesis using assms by (simp add: mod_pos_pos_trivial)
next
  case False
  have "(int a - int b) mod int s = (int a - int b + int s) mod int s" by simp
  also have "\<dots> = int a - int b + int s" using False assms by (intro mod_pos_pos_trivial) auto
  finally show ?thesis using False assms by (simp add: nat_add_distrib)
qed

lemma mod_pred_cases:
  assumes "a < s" "b < s"
  shows "nat ((int a - int b - 1) mod int s) = (if b < a then a - b - 1 else s - 1 - (b - a))"
proof (cases "b < a")
  case True
  then show ?thesis using assms by (simp add: mod_pos_pos_trivial)
next
  case False
  have "(int a - int b - 1) mod int s = (int a - int b - 1 + int s) mod int s" by simp
  also have "\<dots> = int a - int b - 1 + int s" using False assms by (intro mod_pos_pos_trivial) auto
  finally show ?thesis using False assms by simp
qed

lemma rb_ready_eq:
  "rb_inv b \<Longrightarrow> rb_ready b =
     (if rb_r b \<le> rb_w b then rb_w b - rb_r b else rb_size b - rb_r b + rb_w b)"
  by (simp add: rb_inv_def rb_ready_def mod_diff_cases)

lemma rb_free_eq:
  "rb_inv b \<Longrightarrow> rb_free_space b =
     (if rb_w b < rb_r b then rb_r b - rb_w b - 1 else rb_size b - 1 - (rb_w b - rb_r b))"
  by (simp add: rb_inv_def rb_free_space_def mod_pred_cases)

lemma rb_free_plus_ready: "rb_inv b \<Longrightarrow> rb_free_space b + rb_ready b = rb_cap b"
  by (auto simp: rb_ready_eq rb_free_eq rb_cap_def rb_inv_def)

lemma rb_length_contents: "rb_inv b \<Longrightarrow> length (rb_contents b) = rb_ready b"
  using rb_free_plus_ready [of b] by (simp add: rb_contents_def rb_inv_def rb_cap_def)

lemma rb_w_from_r: "rb_inv b \<Longrightarrow> rb_w b = (rb_r b + rb_ready b) mod rb_size b"
  by (auto simp: rb_ready_eq rb_inv_def)

lemma rb_inv_init: "0 < s \<Longrightarrow> rb_inv (rb_init s)"
  by (simp add: rb_inv_def rb_init_def)

lemma rb_contents_init [simp]: "rb_contents (rb_init s) = []"
  by (simp add: rb_contents_def rb_ready_def rb_init_def)

section \<open>RingBuffer: enqueue\<close>

text \<open>
  Both branches write the accepted bytes at the write offset of the rotated ring; the slices
  they assign have the length of the bytes assigned, as a \<^verbatim>\<open>memoryview\<close> requires.
\<close>

lemma rb_write_contiguous:
  assumes "length ring = s" "w + n \<le> s" "length B = n"
  shows "rotate w (slice_assign ring w (w + n) B) = B @ drop n (rotate w ring)"
proof -
  have "length (slice_assign ring w (w + n) B) = s"
    using assms by (simp add: slice_assign_def)
  then have "rotate w (slice_assign ring w (w + n) B) = B @ drop (w + n) ring @ take w ring"
    using assms by (simp add: rotate_eq slice_assign_def)
  then show ?thesis using assms by (simp add: rotate_eq add.commute)
qed

lemma rb_write_wrapped:
  assumes "length ring = s" "w < s" "s \<le> w + n" "n < s" "n \<le> length buf"
  shows "rotate w (slice_assign (slice_assign ring w s (take (s - w) buf)) 0 (n - (s - w))
           (slice buf (s - w) n)) = take n buf @ drop n (rotate w ring)" (is "rotate w ?R = _")
proof -
  let ?m = "n - (s - w)"
  have R: "?R = slice buf (s - w) n @ drop ?m (take w ring) @ take (s - w) buf"
    using assms by (simp add: slice_assign_def)
  have ls: "length (slice buf (s - w) n) = ?m"
    using assms by (simp add: slice_def)
  have lR: "length ?R = s" unfolding R using assms ls by simp
  have "take n buf = take (s - w) buf @ slice buf (s - w) n"
    using assms take_add [of "s - w" ?m buf] by (simp add: slice_def)
  moreover have "drop n (rotate w ring) = drop ?m (take w ring)"
    using assms by (simp add: rotate_eq)
  moreover have "take w ?R = slice buf (s - w) n @ drop ?m (take w ring)"
    unfolding R using assms ls by simp
  moreover have "drop w ?R = take (s - w) buf"
    unfolding R using assms ls by simp
  ultimately show ?thesis using lR assms(2) by (simp add: rotate_eq)
qed

lemma rb_enqueue_slices_fit:
  assumes inv: "rb_inv b" and n: "n = min (length buffer) (rb_free_space b)"
  shows "length (take n buffer) = n"
    and "rb_size b - 1 < rb_w b + n \<Longrightarrow> length (take (rb_size b - rb_w b) buffer) = rb_size b - rb_w b"
    and "rb_size b - 1 < rb_w b + n \<Longrightarrow>
           length (slice buffer (rb_size b - rb_w b) n) = n - (rb_size b - rb_w b)"
    and "rb_size b - 1 < rb_w b + n \<Longrightarrow> n - (rb_size b - rb_w b) < rb_size b"
proof -
  have le: "n \<le> length buffer" "n \<le> rb_free_space b" using n by simp_all
  show "length (take n buffer) = n" using le by simp
  assume wrap: "rb_size b - 1 < rb_w b + n"
  then have "rb_size b - rb_w b \<le> n" by simp
  then show "length (take (rb_size b - rb_w b) buffer) = rb_size b - rb_w b"
    and "length (slice buffer (rb_size b - rb_w b) n) = n - (rb_size b - rb_w b)"
    using le by (simp_all add: slice_def)
  show "n - (rb_size b - rb_w b) < rb_size b"
    using le rb_free_plus_ready [OF inv] inv by (auto simp: rb_cap_def rb_inv_def)
qed

lemma rb_enqueue_spec:
  assumes inv: "rb_inv b" and enq: "rb_enqueue b buffer = (n, b')"
  shows "n = min (length buffer) (rb_free_space b)"
    and "rb_inv b'" "rb_size b' = rb_size b" "rb_r b' = rb_r b"
    and "rb_w b' = (rb_w b + n) mod rb_size b"
    and "rotate (rb_w b) (rb_ring b') = take n buffer @ drop n (rotate (rb_w b) (rb_ring b))"
proof -
  let ?s = "rb_size b" and ?w = "rb_w b" and ?n = "min (length buffer) (rb_free_space b)"
  have bnd: "?n \<le> ?s - 1" "?w < ?s" "length (rb_ring b) = ?s"
    using inv rb_free_plus_ready [OF inv] by (simp_all add: rb_inv_def rb_cap_def)
  note enq' = enq [unfolded rb_enqueue_def Let_def, folded rb_free_space_def]
  consider (full) "rb_free_space b = 0"
    | (cont) "rb_free_space b \<noteq> 0" "?w + ?n \<le> ?s - 1"
    | (wrap) "rb_free_space b \<noteq> 0" "\<not> ?w + ?n \<le> ?s - 1" by blast
  then have "n = ?n \<and> rb_inv b' \<and> rb_size b' = rb_size b \<and> rb_r b' = rb_r b \<and>
    rb_w b' = (rb_w b + n) mod rb_size b \<and>
    rotate (rb_w b) (rb_ring b') = take n buffer @ drop n (rotate (rb_w b) (rb_ring b))"
  proof cases
    case full
    then show ?thesis using enq' inv by (simp add: rb_inv_def)
  next
    case cont
    have b': "n = ?n" "b' = b\<lparr>rb_ring := slice_assign (rb_ring b) ?w (?w + ?n) (take ?n buffer),
        rb_w := (?w + ?n) mod ?s\<rparr>"
      using enq' cont by auto
    have "rotate ?w (rb_ring b') = take ?n buffer @ drop ?n (rotate ?w (rb_ring b))"
      using cont bnd rb_write_contiguous [of "rb_ring b" ?s ?w ?n "take ?n buffer"]
      by (simp add: b')
    then show ?thesis using inv bnd cont by (simp add: b' rb_inv_def slice_assign_def)
  next
    case wrap
    have b': "n = ?n" "b' = b\<lparr>rb_ring := slice_assign (slice_assign (rb_ring b) ?w ?s
        (take (?s - ?w) buffer)) 0 (?n - (?s - ?w)) (slice buffer (?s - ?w) ?n),
        rb_w := (?w + ?n) mod ?s\<rparr>"
      using enq' wrap by auto
    have rot: "rotate ?w (rb_ring b') = take ?n buffer @ drop ?n (rotate ?w (rb_ring b))"
      using wrap bnd rb_write_wrapped [of "rb_ring b" ?s ?w ?n buffer] by (simp add: b')
    have "length (rb_ring b') = length (take ?n buffer @ drop ?n (rotate ?w (rb_ring b)))"
      using rot by (metis length_rotate)
    then have "length (rb_ring b') = ?s" using bnd by simp
    then show ?thesis using inv rot by (simp add: b' rb_inv_def)
  qed
  then show "n = ?n" "rb_inv b'" "rb_size b' = rb_size b" "rb_r b' = rb_r b"
    "rb_w b' = (rb_w b + n) mod rb_size b"
    "rotate (rb_w b) (rb_ring b') = take n buffer @ drop n (rotate (rb_w b) (rb_ring b))"
    by blast+
qed

lemma offset_distance:
  assumes "m < s"
  shows "nat ((int ((r + m) mod s) - int r) mod int s) = m"
proof -
  have "(int ((r + m) mod s) - int r) mod int s = (int r + int m - int r) mod int s"
    by (simp add: zmod_int mod_diff_left_eq)
  then show ?thesis using assms by simp
qed

lemma rb_ready_offset:
  "rb_w b = (rb_r b + m) mod rb_size b \<Longrightarrow> m < rb_size b \<Longrightarrow> rb_ready b = m"
  by (simp add: rb_ready_def offset_distance)

lemma rb_enqueue_ready:
  assumes "rb_inv b" "rb_enqueue b buffer = (n, b')"
  shows "rb_ready b' = rb_ready b + n"
proof (rule rb_ready_offset)
  note spec = rb_enqueue_spec [OF assms]
  show "rb_w b' = (rb_r b' + (rb_ready b + n)) mod rb_size b'"
    using spec(3,4,5) rb_w_from_r [OF assms(1)] by (simp add: mod_add_left_eq add.assoc)
  show "rb_ready b + n < rb_size b'"
    using spec(1,3) rb_free_plus_ready [OF assms(1)] assms(1) by (auto simp: rb_cap_def rb_inv_def)
qed

lemma rb_enqueue_contents:
  assumes inv: "rb_inv b" and enq: "rb_enqueue b buffer = (n, b')"
  shows "rb_contents b' = rb_contents b @ take n buffer"
proof -
  note spec = rb_enqueue_spec [OF assms]
  let ?s = "rb_size b" and ?m = "rb_ready b"
  have len: "length (rotate (rb_r b) (rb_ring b)) = ?s" "length (rotate (rb_r b) (rb_ring b')) = ?s"
    using inv spec(2,3) by (simp_all add: rb_inv_def)
  have mn: "?m + n \<le> ?s"
    using spec(1) rb_free_plus_ready [OF inv] by (simp add: rb_cap_def)
  have rot: "rotate (rb_w b) xs = rotate ?m (rotate (rb_r b) xs)" if "length xs = ?s" for xs :: bytes
    using that rb_w_from_r [OF inv] rotate_advance [of xs ?s "rb_r b" ?m] by simp
  have "rotate ?m (rotate (rb_r b) (rb_ring b')) =
      take n buffer @ drop n (rotate ?m (rotate (rb_r b) (rb_ring b)))"
    using spec(6) rot [of "rb_ring b"] rot [of "rb_ring b'"] len by simp
  moreover have "length (take n buffer) = n" using spec(1) by simp
  ultimately have "take (?m + n) (rotate (rb_r b) (rb_ring b')) =
      take ?m (rotate (rb_r b) (rb_ring b)) @ take n buffer"
    using prefix_after_write [OF len mn] by blast
  then show ?thesis using rb_enqueue_ready [OF assms] spec(4) by (simp add: rb_contents_def)
qed

section \<open>RingBuffer: dequeue\<close>

lemma rb_dequeue_iov:
  assumes inv: "rb_inv b" and deq: "rb_dequeue b n = (iov, b')"
  shows "concat iov = take n (rb_contents b)" "length iov \<le> 2"
    and "b' = b\<lparr>rb_r := (rb_r b + min n (rb_ready b)) mod rb_size b\<rparr>"
proof -
  let ?s = "rb_size b" and ?r = "rb_r b" and ?w = "rb_w b" and ?k = "min n (rb_ready b)"
  have bnd: "?r < ?s" "?w < ?s" "length (rb_ring b) = ?s" using inv by (simp_all add: rb_inv_def)
  have cont: "take n (rb_contents b) = take ?k (drop ?r (rb_ring b) @ take ?r (rb_ring b))"
    using bnd by (simp add: rb_contents_def rotate_eq del: take_append)
  note req = rb_ready_eq [OF inv]
  consider (eq) "?r = ?w" | (one) "?r < ?w \<or> ?r > ?w \<and> ?r + ?k \<le> ?s"
    | (two) "?r > ?w" "\<not> ?r + ?k \<le> ?s" by linarith
  then have "concat iov = take n (rb_contents b) \<and> length iov \<le> 2 \<and>
    b' = b\<lparr>rb_r := (?r + ?k) mod ?s\<rparr>"
  proof cases
    case eq
    then show ?thesis using deq req bnd
      by (auto simp: rb_dequeue_def Let_def rb_contents_def)
  next
    case one
    have k: "?k \<le> ?s - ?r" using one req bnd by auto
    have d: "slice (rb_ring b) ?r (?r + ?k) = take n (rb_contents b)" "length (take n (rb_contents b)) = ?k"
      using k bnd by (simp_all add: cont slice_def)
    show ?thesis using one d deq [unfolded rb_dequeue_def Let_def, folded rb_ready_def]
      by auto
  next
    case two
    have "?k - (?s - ?r) \<le> ?r" "length (drop ?r (rb_ring b)) \<le> ?k" using two req bnd by auto
    then have d: "drop ?r (rb_ring b) @ take (?k - (?s - ?r)) (rb_ring b) = take n (rb_contents b)"
      unfolding cont take_append using bnd by simp
    have "length (take (?k - (?s - ?r)) (rb_ring b)) = ?k - (?s - ?r)"
      using two req bnd by simp
    then have off: "?r + length (drop ?r (rb_ring b)) + length (take (?k - (?s - ?r)) (rb_ring b)) = ?r + ?k"
      using two bnd by simp
    have "iov = [drop ?r (rb_ring b), take (?k - (?s - ?r)) (rb_ring b)]"
      "b' = b\<lparr>rb_r := (?r + length (drop ?r (rb_ring b)) +
         length (take (?k - (?s - ?r)) (rb_ring b))) mod ?s\<rparr>"
      using two deq [unfolded rb_dequeue_def Let_def, folded rb_ready_def]
      by (simp_all del: length_drop length_take add: prod_eq_iff)
    then show ?thesis using d by (simp only: off) simp
  qed
  then show "concat iov = take n (rb_contents b)" "length iov \<le> 2"
    "b' = b\<lparr>rb_r := (rb_r b + min n (rb_ready b)) mod rb_size b\<rparr>" by blast+
qed

lemma rb_dequeue_spec:
  assumes inv: "rb_inv b" and deq: "rb_dequeue b n = (iov, b')"
  shows "rb_inv b'" "rb_size b' = rb_size b" "rb_ready b' = rb_ready b - n"
    and "rb_contents b' = drop n (rb_contents b)"
proof -
  let ?k = "min n (rb_ready b)" and ?xs = "rotate (rb_r b) (rb_ring b)"
  have b': "b' = b\<lparr>rb_r := (rb_r b + ?k) mod rb_size b\<rparr>" by (rule rb_dequeue_iov(3) [OF assms])
  show inv': "rb_inv b'" and "rb_size b' = rb_size b"
    using inv by (simp_all add: b' rb_inv_def)
  have le: "rb_ready b < rb_size b"
    using rb_free_plus_ready [OF inv] inv by (auto simp: rb_cap_def rb_inv_def)
  show rdy: "rb_ready b' = rb_ready b - n"
  proof (rule rb_ready_offset)
    have "(rb_r b + ?k + (rb_ready b - n)) mod rb_size b = (rb_r b + rb_ready b) mod rb_size b"
      by (rule arg_cong [where f = "\<lambda>x. x mod rb_size b"]) (simp add: min_def)
    then show "rb_w b' = (rb_r b' + (rb_ready b - n)) mod rb_size b'"
      using rb_w_from_r [OF inv] by (simp add: b' mod_add_left_eq)
    show "rb_ready b - n < rb_size b'" using le by (simp add: b')
  qed
  have "rb_contents b' = take (rb_ready b - ?k) (rotate ?k ?xs)"
    using rdy inv rotate_advance [of "rb_ring b" "rb_size b" "rb_r b" ?k]
    by (simp add: rb_contents_def b' rb_inv_def min_def)
  also have "\<dots> = drop ?k (take (rb_ready b) ?xs)"
    using le inv by (intro drop_take_rotate) (auto simp: rb_inv_def)
  also have "\<dots> = drop n (rb_contents b)"
    using rb_length_contents [OF inv] by (simp add: rb_contents_def min_def)
  finally show "rb_contents b' = drop n (rb_contents b)" .
qed

end
