(* ===== verification/Buffer_Spec.thy ===== *)
theory Buffer_Spec
  imports Buffer
begin

text \<open>
  What the users of \<^verbatim>\<open>tipy/lib/buffer.py\<close> rely on: \<open>fifo_buffer\<close> is the contract of a bounded
  byte queue, \<open>rewindable_buffer\<close> adds the read rollback of the TCP send buffer. Both classes
  meet the first, the recoverable class meets the second as long as its writers leave the
  unacknowledged bytes alone; \<^verbatim>\<open>RRingBuffer.enqueue\<close> itself does not enforce that.
\<close>

section \<open>The contracts\<close>

datatype buf_op = Enq bytes | Deq nat

text \<open>
  A run of operations: the bytes accepted by the enqueues, the bytes delivered by the
  dequeues, and the final buffer.
\<close>

fun run_ops :: "('q \<Rightarrow> bytes \<Rightarrow> nat \<times> 'q) \<Rightarrow> ('q \<Rightarrow> nat \<Rightarrow> bytes list \<times> 'q) \<Rightarrow>
    buf_op list \<Rightarrow> 'q \<Rightarrow> bytes \<times> bytes \<times> 'q" where
  "run_ops enq deq [] q = ([], [], q)"
| "run_ops enq deq (Enq xs # ops) q =
     (let (n, q1) = enq q xs; (acc, del, q2) = run_ops enq deq ops q1
      in (take n xs @ acc, del, q2))"
| "run_ops enq deq (Deq n # ops) q =
     (let (iov, q1) = deq q n; (acc, del, q2) = run_ops enq deq ops q1
      in (acc, concat iov @ del, q2))"

locale fifo_buffer =
  fixes inv :: "'q \<Rightarrow> bool"
    and cap :: "'q \<Rightarrow> nat"
    and contents :: "'q \<Rightarrow> bytes"
    and free_space :: "'q \<Rightarrow> nat"
    and ready :: "'q \<Rightarrow> nat"
    and is_empty :: "'q \<Rightarrow> bool"
    and enq :: "'q \<Rightarrow> bytes \<Rightarrow> nat \<times> 'q"
    and deq :: "'q \<Rightarrow> nat \<Rightarrow> bytes list \<times> 'q"
  assumes enq_inv: "inv q \<Longrightarrow> enq q xs = (n, q') \<Longrightarrow> inv q'"
    and enq_count: "inv q \<Longrightarrow> enq q xs = (n, q') \<Longrightarrow> n = min (length xs) (free_space q)"
    and enq_contents: "inv q \<Longrightarrow> enq q xs = (n, q') \<Longrightarrow> contents q' = contents q @ take n xs"
    and enq_cap: "inv q \<Longrightarrow> enq q xs = (n, q') \<Longrightarrow> cap q' = cap q"
    and deq_inv: "inv q \<Longrightarrow> deq q n = (iov, q') \<Longrightarrow> inv q'"
    and deq_data: "inv q \<Longrightarrow> deq q n = (iov, q') \<Longrightarrow> concat iov = take n (contents q)"
    and deq_contents: "inv q \<Longrightarrow> deq q n = (iov, q') \<Longrightarrow> contents q' = drop n (contents q)"
    and deq_cap: "inv q \<Longrightarrow> deq q n = (iov, q') \<Longrightarrow> cap q' = cap q"
    and ready_length: "inv q \<Longrightarrow> ready q = length (contents q)"
    and free_ready: "inv q \<Longrightarrow> free_space q + ready q = cap q"
    and empty_iff: "inv q \<Longrightarrow> is_empty q \<longleftrightarrow> contents q = []"
begin

lemma run_ops_stream:
  "inv q \<Longrightarrow> run_ops enq deq ops q = (acc, del, q') \<Longrightarrow>
     inv q' \<and> cap q' = cap q \<and> contents q @ acc = del @ contents q'"
proof (induction ops arbitrary: q acc del)
  case Nil
  then show ?case by simp
next
  case (Cons op ops)
  show ?case
  proof (cases op)
    case (Enq xs)
    obtain n q1 where e: "enq q xs = (n, q1)" by (cases "enq q xs")
    obtain acc1 where r: "run_ops enq deq ops q1 = (acc1, del, q')" and acc: "acc = take n xs @ acc1"
      using Cons.prems(2) Enq e by (auto split: prod.splits)
    have "inv q1" by (rule enq_inv [OF Cons.prems(1) e])
    from Cons.IH [OF this r] show ?thesis
      using enq_contents [OF Cons.prems(1) e] enq_cap [OF Cons.prems(1) e] acc by simp
  next
    case (Deq n)
    obtain iov q1 where d: "deq q n = (iov, q1)" by (cases "deq q n")
    obtain del1 where r: "run_ops enq deq ops q1 = (acc, del1, q')" and del: "del = concat iov @ del1"
      using Cons.prems(2) Deq d by (auto split: prod.splits)
    have "inv q1" by (rule deq_inv [OF Cons.prems(1) d])
    from Cons.IH [OF this r] have IH: "inv q'" "cap q' = cap q1" "drop n (contents q) @ acc = del1 @ contents q'"
      using deq_contents [OF Cons.prems(1) d] by simp_all
    have "contents q @ acc = take n (contents q) @ (drop n (contents q) @ acc)" by simp
    then show ?thesis
      using IH deq_data [OF Cons.prems(1) d] deq_cap [OF Cons.prems(1) d] del by simp
  qed
qed

lemma enq_all: "inv q \<Longrightarrow> enq q xs = (n, q') \<Longrightarrow> length xs \<le> free_space q \<Longrightarrow> n = length xs"
  using enq_count by fastforce

lemma deq_count: "inv q \<Longrightarrow> deq q n = (iov, q') \<Longrightarrow> length (concat iov) = min n (ready q)"
  by (simp add: deq_data ready_length)

lemma free_space_enq:
  "inv q \<Longrightarrow> enq q xs = (n, q') \<Longrightarrow> free_space q' = free_space q - n"
  using enq_inv [of q xs n q'] enq_count [of q xs n q'] enq_contents [of q xs n q'] enq_cap [of q xs n q']
    free_ready [of q] free_ready [of q'] ready_length [of q] ready_length [of q'] by simp

end

text \<open>
  \<open>safe\<close> says that no writer has run into the unacknowledged bytes. An enqueue keeps it when
  the bytes fit beside them; \<open>ack\<close> releases acknowledged bytes; \<open>rollback\<close> makes the next
  dequeue start at the first unacknowledged byte again.
\<close>

locale rewindable_buffer = fifo_buffer inv cap contents free_space ready is_empty enq deq
  for inv :: "'q \<Rightarrow> bool" and cap contents free_space ready is_empty enq deq +
  fixes safe :: "'q \<Rightarrow> bool"
    and unacked :: "'q \<Rightarrow> bytes"
    and ack :: "'q \<Rightarrow> int \<Rightarrow> 'q"
    and rollback :: "'q \<Rightarrow> 'q"
  assumes safe_inv: "safe q \<Longrightarrow> inv q"
    and safe_room: "safe q \<Longrightarrow> length (unacked q) + length (contents q) \<le> cap q"
    and enq_safe: "safe q \<Longrightarrow> length (unacked q) + length (contents q) + length xs \<le> cap q \<Longrightarrow>
           enq q xs = (n, q') \<Longrightarrow> safe q' \<and> unacked q' = unacked q"
    and deq_safe: "safe q \<Longrightarrow> deq q n = (iov, q') \<Longrightarrow> safe q' \<and> unacked q' = unacked q @ concat iov"
    and ack_safe: "safe q \<Longrightarrow> k \<le> length (unacked q) \<Longrightarrow>
           safe (ack q (int k)) \<and> unacked (ack q (int k)) = drop k (unacked q) \<and>
           contents (ack q (int k)) = contents q"
    and rollback_safe: "safe q \<Longrightarrow> safe (rollback q) \<and> unacked (rollback q) = [] \<and>
           contents (rollback q) = unacked q @ contents q"
begin

lemma retransmit_same_bytes:
  assumes "safe q" "deq q n = (iov, q1)" "deq (rollback q1) m = (iov2, q2)"
    and "length (unacked q) + length (concat iov) \<le> m"
  shows "take (length (unacked q) + length (concat iov)) (concat iov2) = unacked q @ concat iov"
proof -
  have q1: "safe q1" "unacked q1 = unacked q @ concat iov"
    using deq_safe [OF assms(1,2)] by blast+
  then have rb: "safe (rollback q1)" "contents (rollback q1) = unacked q1 @ contents q1"
    using rollback_safe by blast+
  have "concat iov2 = take m (unacked q1 @ contents q1)"
    using deq_data [OF safe_inv [OF rb(1)] assms(3)] rb(2) by simp
  then show ?thesis using q1 assms(4) by simp
qed

end

section \<open>RingBuffer meets the contract\<close>

interpretation rb: fifo_buffer rb_inv rb_cap rb_contents rb_free_space rb_ready rb_is_empty
  rb_enqueue rb_dequeue
proof unfold_locales
  fix q xs n q' assume "rb_inv q" "rb_enqueue q xs = (n, q')"
  note spec = rb_enqueue_spec [OF this] rb_enqueue_contents [OF this]
  show "rb_inv q'" "n = min (length xs) (rb_free_space q)" "rb_cap q' = rb_cap q"
    "rb_contents q' = rb_contents q @ take n xs"
    using spec by (simp_all add: rb_cap_def)
next
  fix q n iov q' assume "rb_inv q" "rb_dequeue q n = (iov, q')"
  note spec = rb_dequeue_spec [OF this] rb_dequeue_iov [OF this]
  show "rb_inv q'" "rb_cap q' = rb_cap q" "concat iov = take n (rb_contents q)"
    "rb_contents q' = drop n (rb_contents q)"
    using spec by (simp_all add: rb_cap_def)
next
  fix q assume inv: "rb_inv q"
  show "rb_ready q = length (rb_contents q)" by (simp add: rb_length_contents [OF inv])
  show "rb_free_space q + rb_ready q = rb_cap q" by (rule rb_free_plus_ready [OF inv])
  have "rb_contents q = [] \<longleftrightarrow> rb_ready q = 0"
    using rb_length_contents [OF inv] by (metis length_0_conv)
  then show "rb_is_empty q \<longleftrightarrow> rb_contents q = []"
    using inv by (auto simp: rb_is_empty_def rb_ready_eq rb_inv_def split: if_splits)
qed

section \<open>RRingBuffer meets the contract\<close>

lemma rrb_view_upd:
  "rrb_view (q\<lparr>rrb_ring := x, rrb_vw := y\<rparr>) = (rrb_view q)\<lparr>rb_ring := x, rb_w := y\<rparr>"
  "rrb_view (q\<lparr>rrb_vr := y\<rparr>) = (rrb_view q)\<lparr>rb_r := y\<rparr>"
  "rb_size (rrb_view q) = rrb_size q" "rb_ring (rrb_view q) = rrb_ring q"
  "rb_w (rrb_view q) = rrb_vw q" "rb_r (rrb_view q) = rrb_vr q"
  by (simp_all add: rrb_view_def)

lemma rrb_enqueue_view:
  "rb_enqueue (rrb_view q) xs = map_prod id rrb_view (rrb_enqueue q xs)"
  unfolding rb_enqueue_def rrb_enqueue_def Let_def rrb_view_upd(3-6)
  by (simp only: if_distrib [of "map_prod id rrb_view"] map_prod_simp id_apply rrb_view_upd(1,2))
lemma rrb_dequeue_view:
  "rb_dequeue (rrb_view q) n = map_prod id rrb_view (rrb_dequeue q n)"
  unfolding rb_dequeue_def rrb_dequeue_def Let_def rrb_view_upd(3-6)
  by (simp only: if_distrib [of "map_prod id rrb_view"] map_prod_simp id_apply rrb_view_upd(1,2))

lemma rrb_enqueue_frame:
  "rrb_size (snd (rrb_enqueue q xs)) = rrb_size q" "rrb_r (snd (rrb_enqueue q xs)) = rrb_r q"
  "rrb_vr (snd (rrb_enqueue q xs)) = rrb_vr q" "rrb_w (snd (rrb_enqueue q xs)) = rrb_w q"
  by (simp_all add: rrb_enqueue_def Let_def)
lemma rrb_dequeue_frame:
  "rrb_size (snd (rrb_dequeue q n)) = rrb_size q" "rrb_r (snd (rrb_dequeue q n)) = rrb_r q"
  "rrb_vw (snd (rrb_dequeue q n)) = rrb_vw q" "rrb_w (snd (rrb_dequeue q n)) = rrb_w q"
  "rrb_ring (snd (rrb_dequeue q n)) = rrb_ring q"
  by (simp_all add: rrb_dequeue_def Let_def)

lemma rrb_enqueueD:
  assumes "rrb_enqueue q xs = (n, q')"
  shows "rb_enqueue (rrb_view q) xs = (n, rrb_view q')"
    and "rrb_size q' = rrb_size q" "rrb_r q' = rrb_r q" "rrb_vr q' = rrb_vr q" "rrb_w q' = rrb_w q"
  using rrb_enqueue_view [of q xs] rrb_enqueue_frame [of q xs] assms by simp_all

lemma rrb_dequeueD:
  assumes "rrb_dequeue q n = (iov, q')"
  shows "rb_dequeue (rrb_view q) n = (iov, rrb_view q')"
    and "rrb_size q' = rrb_size q" "rrb_r q' = rrb_r q" "rrb_vw q' = rrb_vw q" "rrb_w q' = rrb_w q"
    and "rrb_ring q' = rrb_ring q"
  using rrb_dequeue_view [of q n] rrb_dequeue_frame [of q n] assms by simp_all

lemma rrb_view_simps [simp]:
  "rb_free_space (rrb_view q) = rrb_free_space q" "rb_ready (rrb_view q) = rrb_ready q"
  "rb_is_empty (rrb_view q) = rrb_is_empty q" "rb_cap (rrb_view q) = rrb_cap q"
  by (simp_all add: rrb_view_def rb_free_space_def rrb_free_space_def rb_ready_def rrb_ready_def
      rb_is_empty_def rrb_is_empty_def rb_cap_def rrb_cap_def)

interpretation rrb: fifo_buffer rrb_inv rrb_cap rrb_contents rrb_free_space rrb_ready rrb_is_empty
  rrb_enqueue rrb_dequeue
proof unfold_locales
  fix q xs n q' assume "rrb_inv q" and e: "rrb_enqueue q xs = (n, q')"
  then have inv: "rb_inv (rrb_view q)" "rrb_r q < rrb_size q" by (simp_all add: rrb_inv_def)
  note v = rrb_enqueueD [OF e]
  show "rrb_inv q'" using rb.enq_inv [OF inv(1) v(1)] inv(2) v by (simp add: rrb_inv_def)
  show "n = min (length xs) (rrb_free_space q)" using rb.enq_count [OF inv(1) v(1)] by simp
  show "rrb_contents q' = rrb_contents q @ take n xs"
    using rb.enq_contents [OF inv(1) v(1)] by (simp add: rrb_contents_def)
  show "rrb_cap q' = rrb_cap q" using v by (simp add: rrb_cap_def)
next
  fix q n iov q' assume "rrb_inv q" and d: "rrb_dequeue q n = (iov, q')"
  then have inv: "rb_inv (rrb_view q)" "rrb_r q < rrb_size q" by (simp_all add: rrb_inv_def)
  note v = rrb_dequeueD [OF d]
  show "rrb_inv q'" using rb.deq_inv [OF inv(1) v(1)] inv(2) v by (simp add: rrb_inv_def)
  show "concat iov = take n (rrb_contents q)" "rrb_contents q' = drop n (rrb_contents q)"
    using rb.deq_data [OF inv(1) v(1)] rb.deq_contents [OF inv(1) v(1)]
    by (simp_all add: rrb_contents_def)
  show "rrb_cap q' = rrb_cap q" using v by (simp add: rrb_cap_def)
next
  fix q assume "rrb_inv q"
  then have inv: "rb_inv (rrb_view q)" by (simp add: rrb_inv_def)
  show "rrb_ready q = length (rrb_contents q)" "rrb_free_space q + rrb_ready q = rrb_cap q"
    "rrb_is_empty q \<longleftrightarrow> rrb_contents q = []"
    using rb.ready_length [OF inv] rb.free_ready [OF inv] rb.empty_iff [OF inv]
    by (simp_all add: rrb_contents_def)
qed

section \<open>Rollback\<close>

text \<open>
  Unacknowledged and unread bytes together are one stretch of the ring, from the committed read
  offset to the virtual write offset, unless the writer has overrun the former.
\<close>

definition rrb_in_flight :: "rring_buffer \<Rightarrow> nat" where
  "rrb_in_flight q = nat ((int (rrb_vr q) - int (rrb_r q)) mod int (rrb_size q))"

definition rrb_safe :: "rring_buffer \<Rightarrow> bool" where
  "rrb_safe q \<longleftrightarrow> rrb_inv q \<and> rrb_in_flight q + rrb_ready q \<le> rrb_cap q"

lemma rrb_in_flight_bound: "rrb_inv q \<Longrightarrow> rrb_in_flight q < rrb_size q"
  unfolding rrb_in_flight_def rrb_inv_def rb_inv_def
  by (metis nat_less_iff of_nat_0_less_iff pos_mod_bound pos_mod_sign rrb_view_upd(3))

lemma rrb_vr_from_r: "rrb_inv q \<Longrightarrow> rrb_vr q = (rrb_r q + rrb_in_flight q) mod rrb_size q"
  by (auto simp: rrb_in_flight_def rrb_inv_def rb_inv_def rrb_view_upd mod_diff_cases)

lemma rrb_unacked_eq: "rrb_unacked q = take (rrb_in_flight q) (rotate (rrb_r q) (rrb_ring q))"
  by (simp add: rrb_unacked_def rrb_in_flight_def)

lemma rrb_invD:
  "rrb_inv q \<Longrightarrow> length (rrb_ring q) = rrb_size q \<and> 0 < rrb_size q \<and> rrb_vr q < rrb_size q \<and>
     rrb_vw q < rrb_size q \<and> rrb_r q < rrb_size q"
  by (simp add: rrb_inv_def rb_inv_def rrb_view_upd)

lemma length_rrb_unacked: "rrb_inv q \<Longrightarrow> length (rrb_unacked q) = rrb_in_flight q"
  using rrb_in_flight_bound [of q] by (auto simp: rrb_unacked_eq rrb_invD)

lemma rotate_vr:
  assumes "rrb_inv q" "length xs = rrb_size q"
  shows "rotate (rrb_vr q) xs = rotate (rrb_in_flight q) (rotate (rrb_r q) xs)"
  using rotate_advance [OF assms(2)] rrb_vr_from_r [OF assms(1)] by simp

lemma rrb_stream:
  assumes "rrb_safe q"
  shows "rrb_unacked q @ rrb_contents q =
           take (rrb_in_flight q + rrb_ready q) (rotate (rrb_r q) (rrb_ring q))"
proof -
  have inv: "rrb_inv q" and le: "rrb_in_flight q + rrb_ready q \<le> rrb_size q"
    using assms by (auto simp: rrb_safe_def rrb_cap_def)
  let ?xs = "rotate (rrb_r q) (rrb_ring q)"
  have "rrb_contents q = take (rrb_ready q) (rotate (rrb_in_flight q) ?xs)"
    using rotate_vr [OF inv, of "rrb_ring q"] rrb_invD [OF inv]
    by (simp add: rrb_contents_def rb_contents_def rrb_view_upd)
  also have "\<dots> = drop (rrb_in_flight q) (take (rrb_in_flight q + rrb_ready q) ?xs)"
    using le rrb_invD [OF inv] drop_take_rotate [of "rrb_in_flight q" "rrb_in_flight q + rrb_ready q" ?xs]
    by simp
  finally have c: "rrb_contents q = drop (rrb_in_flight q) (take (rrb_in_flight q + rrb_ready q) ?xs)" .
  have "rrb_unacked q = take (rrb_in_flight q) (take (rrb_in_flight q + rrb_ready q) ?xs)"
    by (simp add: rrb_unacked_eq)
  then show ?thesis using c append_take_drop_id by metis
qed

lemma rrb_enqueue_safe:
  assumes safe: "rrb_safe q" and fit: "rrb_in_flight q + rrb_ready q + length xs \<le> rrb_cap q"
    and e: "rrb_enqueue q xs = (n, q')"
  shows "rrb_safe q' \<and> rrb_unacked q' = rrb_unacked q"
proof -
  have inv: "rrb_inv q" using safe by (simp add: rrb_safe_def)
  then have vinv: "rb_inv (rrb_view q)" by (simp add: rrb_inv_def)
  note v = rrb_enqueueD [OF e]
  note spec = rb_enqueue_spec [OF vinv v(1), unfolded rrb_view_upd rrb_view_simps]
  have inv': "rrb_inv q'" by (rule rrb.enq_inv [OF inv e])
  have fl: "rrb_in_flight q' = rrb_in_flight q" using v by (simp add: rrb_in_flight_def)
  have n: "n = length xs" using spec(1) fit rrb.free_ready [OF inv] by simp
  have rdy: "rrb_ready q' = rrb_ready q + n"
    using rrb.ready_length [OF inv] rrb.ready_length [OF inv'] rrb.enq_contents [OF inv e] n by simp
  let ?m = "rrb_in_flight q + rrb_ready q"
  have len: "length (rotate (rrb_r q) (rrb_ring q)) = rrb_size q"
    "length (rotate (rrb_r q) (rrb_ring q')) = rrb_size q"
    using rrb_invD [OF inv] rrb_invD [OF inv'] v by simp_all
  have vw: "rotate (rrb_vw q) ys = rotate ?m (rotate (rrb_r q) ys)" if l: "length ys = rrb_size q"
    for ys :: bytes
  proof -
    have "rrb_vw q = (rrb_vr q + rrb_ready q) mod rrb_size q"
      using rb_w_from_r [OF vinv] by (simp add: rrb_view_upd)
    then have "rotate (rrb_vw q) ys = rotate (rrb_ready q) (rotate (rrb_vr q) ys)"
      using rotate_advance [OF l] by simp
    then show ?thesis using rotate_vr [OF inv l] by (simp add: rotate_rotate add_ac)
  qed
  have "rotate ?m (rotate (rrb_r q) (rrb_ring q')) =
      take n xs @ drop n (rotate ?m (rotate (rrb_r q) (rrb_ring q)))"
    using spec(6) vw [of "rrb_ring q"] vw [of "rrb_ring q'"] len by simp
  then have "take (?m + n) (rotate (rrb_r q) (rrb_ring q')) =
      take ?m (rotate (rrb_r q) (rrb_ring q)) @ take n xs"
    using prefix_after_write [OF len, of ?m n "take n xs"] n fit by (simp add: rrb_cap_def)
  then have "take (rrb_in_flight q) (take (?m + n) (rotate (rrb_r q) (rrb_ring q'))) =
      take (rrb_in_flight q) (take ?m (rotate (rrb_r q) (rrb_ring q)) @ take n xs)"
    by simp
  then have "rrb_unacked q' = rrb_unacked q"
    using len fit rrb_in_flight_bound [OF inv] v(3) fl
    by (simp add: rrb_unacked_eq take_append rrb_cap_def)
  then show ?thesis using inv' rdy n fit v fl by (simp add: rrb_safe_def rrb_cap_def)
qed

lemma rrb_dequeue_safe:
  assumes safe: "rrb_safe q" and d: "rrb_dequeue q n = (iov, q')"
  shows "rrb_safe q' \<and> rrb_unacked q' = rrb_unacked q @ concat iov"
proof -
  have inv: "rrb_inv q" and le: "rrb_in_flight q + rrb_ready q \<le> rrb_cap q"
    using safe by (auto simp: rrb_safe_def)
  then have vinv: "rb_inv (rrb_view q)" by (simp add: rrb_inv_def)
  note v = rrb_dequeueD [OF d]
  let ?k = "min n (rrb_ready q)"
  have inv': "rrb_inv q'" by (rule rrb.deq_inv [OF inv d])
  have "rrb_vr q' = (rrb_vr q + ?k) mod rrb_size q"
    using arg_cong [OF rb_dequeue_iov(3) [OF vinv v(1)], of rb_r] by (simp add: rrb_view_upd)
  then have "rrb_vr q' = (rrb_r q + (rrb_in_flight q + ?k)) mod rrb_size q"
    using rrb_vr_from_r [OF inv] by (simp add: mod_add_left_eq add.assoc)
  moreover have "rrb_in_flight q + ?k < rrb_size q"
    using le rrb_invD [OF inv] by (auto simp: rrb_cap_def)
  ultimately have fl: "rrb_in_flight q' = rrb_in_flight q + ?k"
    using v offset_distance by (simp add: rrb_in_flight_def)
  have rdy: "rrb_ready q' = rrb_ready q - n"
    using rb_dequeue_spec(3) [OF vinv v(1)] by simp
  have "rrb_unacked q' = take (rrb_in_flight q + ?k) (rrb_unacked q @ rrb_contents q)"
    using fl v rrb_stream [OF safe] by (simp add: rrb_unacked_eq)
  also have "\<dots> = rrb_unacked q @ take n (rrb_contents q)"
    using length_rrb_unacked [OF inv] rrb.ready_length [OF inv] by (simp add: min_def)
  finally have "rrb_unacked q' = rrb_unacked q @ concat iov"
    using rrb.deq_data [OF inv d] by simp
  then show ?thesis using inv' fl rdy le v by (simp add: rrb_safe_def rrb_cap_def min_def)
qed

lemma rrb_free_safe:
  assumes safe: "rrb_safe q" and k: "k \<le> length (rrb_unacked q)"
  shows "rrb_safe (rrb_free q (int k)) \<and> rrb_unacked (rrb_free q (int k)) = drop k (rrb_unacked q) \<and>
    rrb_contents (rrb_free q (int k)) = rrb_contents q"
proof -
  have inv: "rrb_inv q" and le: "rrb_in_flight q + rrb_ready q \<le> rrb_cap q"
    using safe by (auto simp: rrb_safe_def)
  let ?q = "rrb_free q (int k)"
  have kf: "k \<le> rrb_in_flight q" using k length_rrb_unacked [OF inv] by simp
  have r: "rrb_r ?q = (rrb_r q + k) mod rrb_size q"
    by (simp add: rrb_free_def nat_mod_as_int flip: of_nat_add)
  have same: "rrb_size ?q = rrb_size q" "rrb_vr ?q = rrb_vr q" "rrb_ring ?q = rrb_ring q"
    "rrb_view ?q = rrb_view q"
    by (simp_all add: rrb_free_def rrb_view_def)
  have inv': "rrb_inv ?q" using inv rrb_invD [OF inv] r same by (simp add: rrb_inv_def)
  have "rrb_r q + k + (rrb_in_flight q - k) = rrb_r q + rrb_in_flight q" using kf by simp
  then have "rrb_vr q = (rrb_r ?q + (rrb_in_flight q - k)) mod rrb_size q"
    using rrb_vr_from_r [OF inv] unfolding r by (simp only: mod_add_left_eq)
  moreover have "rrb_in_flight q - k < rrb_size q" using rrb_in_flight_bound [OF inv] by simp
  ultimately have fl: "rrb_in_flight ?q = rrb_in_flight q - k"
    using same offset_distance [of "rrb_in_flight q - k" "rrb_size q" "rrb_r ?q"]
    by (simp add: rrb_in_flight_def)
  have "rrb_unacked ?q = take (rrb_in_flight q - k) (rotate k (rotate (rrb_r q) (rrb_ring q)))"
    using rotate_advance [of "rrb_ring q" "rrb_size q" "rrb_r q" k] rrb_invD [OF inv]
    by (simp add: rrb_unacked_eq fl same r)
  also have "\<dots> = drop k (rrb_unacked q)"
    using kf rrb_in_flight_bound [OF inv] rrb_invD [OF inv] unfolding rrb_unacked_eq
    by (intro drop_take_rotate) simp_all
  finally have ua: "rrb_unacked ?q = drop k (rrb_unacked q)" .
  have rdy: "rrb_ready ?q = rrb_ready q" using rrb_view_simps(2) [of ?q] same by simp
  show ?thesis using ua inv' fl rdy le same by (simp add: rrb_safe_def rrb_contents_def rrb_cap_def)
qed

lemma rrb_rollback_safe:
  assumes safe: "rrb_safe q"
  shows "rrb_safe (rrb_roll_back_to_r q) \<and> rrb_unacked (rrb_roll_back_to_r q) = [] \<and>
    rrb_contents (rrb_roll_back_to_r q) = rrb_unacked q @ rrb_contents q"
proof -
  have inv: "rrb_inv q" and le: "rrb_in_flight q + rrb_ready q \<le> rrb_cap q"
    using safe by (auto simp: rrb_safe_def)
  let ?q = "rrb_roll_back_to_r q"
  have vinv: "rb_inv (rrb_view q)" using inv by (simp add: rrb_inv_def)
  have inv': "rrb_inv ?q" using rrb_invD [OF inv]
    by (simp add: rrb_inv_def rb_inv_def rrb_view_upd rrb_roll_back_to_r_def)
  have fl: "rrb_in_flight ?q = 0" by (simp add: rrb_in_flight_def rrb_roll_back_to_r_def)
  have "rrb_vw q = (rrb_vr q + rrb_ready q) mod rrb_size q"
    using rb_w_from_r [OF vinv] by (simp add: rrb_view_upd)
  then have "rrb_vw q = (rrb_r q + (rrb_in_flight q + rrb_ready q)) mod rrb_size q"
    using rrb_vr_from_r [OF inv] by (simp add: mod_add_left_eq add.assoc)
  moreover have "rrb_in_flight q + rrb_ready q < rrb_size q"
    using le rrb_invD [OF inv] by (auto simp: rrb_cap_def)
  ultimately have rdy: "rrb_ready ?q = rrb_in_flight q + rrb_ready q"
    unfolding rrb_ready_def [of ?q] by (simp add: rrb_roll_back_to_r_def offset_distance)
  have "rrb_contents ?q = take (rrb_ready ?q) (rotate (rrb_r q) (rrb_ring q))"
    by (simp add: rrb_contents_def rb_contents_def rrb_view_upd) (simp add: rrb_roll_back_to_r_def)
  then have "rrb_contents ?q = rrb_unacked q @ rrb_contents q"
    using rrb_stream [OF safe] rdy by simp
  then show ?thesis
    using inv' fl rdy le by (simp add: rrb_safe_def rrb_cap_def rrb_unacked_eq rrb_roll_back_to_r_def)
qed

interpretation rrbr: rewindable_buffer rrb_inv rrb_cap rrb_contents rrb_free_space rrb_ready
  rrb_is_empty rrb_enqueue rrb_dequeue rrb_safe rrb_unacked rrb_free rrb_roll_back_to_r
proof unfold_locales
  fix q assume s: "rrb_safe q"
  show inv: "rrb_inv q" using s by (simp add: rrb_safe_def)
  show "length (rrb_unacked q) + length (rrb_contents q) \<le> rrb_cap q"
    using s length_rrb_unacked [OF inv] rrb.ready_length [OF inv] by (simp add: rrb_safe_def)
  show "rrb_safe (rrb_roll_back_to_r q) \<and> rrb_unacked (rrb_roll_back_to_r q) = [] \<and>
    rrb_contents (rrb_roll_back_to_r q) = rrb_unacked q @ rrb_contents q"
    by (rule rrb_rollback_safe [OF s])
next
  fix q xs n q'
  assume s: "rrb_safe q" and e: "rrb_enqueue q xs = (n, q')"
    and fit: "length (rrb_unacked q) + length (rrb_contents q) + length xs \<le> rrb_cap q"
  have inv: "rrb_inv q" using s by (simp add: rrb_safe_def)
  show "rrb_safe q' \<and> rrb_unacked q' = rrb_unacked q"
    using rrb_enqueue_safe [OF s _ e] fit length_rrb_unacked [OF inv] rrb.ready_length [OF inv] by simp
next
  fix q n iov q' assume "rrb_safe q" "rrb_dequeue q n = (iov, q')"
  then show "rrb_safe q' \<and> rrb_unacked q' = rrb_unacked q @ concat iov" by (rule rrb_dequeue_safe)
next
  fix q k assume "rrb_safe q" "k \<le> length (rrb_unacked q)"
  then show "rrb_safe (rrb_free q (int k)) \<and> rrb_unacked (rrb_free q (int k)) = drop k (rrb_unacked q) \<and>
    rrb_contents (rrb_free q (int k)) = rrb_contents q" by (rule rrb_free_safe)
qed

end
