(* ===== verification/Buffer_Props.thy ===== *)
theory Buffer_Props
  imports Buffer_Spec
begin

text \<open>The properties of the two ring buffers, from the contracts they meet.\<close>

text \<open>C28. A receive buffer is a FIFO queue of bytes: after any sequence of enqueues and dequeues, the
  bytes accepted are, in order, the bytes delivered followed by the bytes still buffered, across
  every wrap-around of the ring, and the buffer never holds more than its size minus one.\<close>

theorem ring_buffer_fifo:
  assumes "0 < s" and "run_ops rb_enqueue rb_dequeue ops (rb_init s) = (acc, del, q)"
  shows "acc = del @ rb_contents q \<and> rb_ready q = length (rb_contents q) \<and> rb_ready q \<le> s - 1"
proof -
  have inv: "rb_inv q" and c: "rb_cap q = rb_cap (rb_init s)" and "acc = del @ rb_contents q"
    using rb.run_ops_stream [OF rb_inv_init [OF assms(1)] assms(2)] by simp_all
  moreover have "rb_cap (rb_init s) = s - 1" by (simp add: rb_cap_def rb_init_def)
  ultimately show ?thesis using rb.free_ready [OF inv] rb.ready_length [OF inv] by simp
qed

theorem ring_buffer_fifo_witness:
  "run_ops rb_enqueue rb_dequeue [Enq [1, 2], Deq 1, Enq [3, 4, 5], Deq 2] (rb_init 4) =
     ([1, 2, 3, 4], [1, 2, 3], \<lparr>rb_size = 4, rb_ring = [1, 2, 3, 4], rb_w = 0, rb_r = 3\<rparr>) \<and>
   ([1, 2, 3, 4] :: bytes) = [1, 2, 3] @ rb_contents \<lparr>rb_size = 4, rb_ring = [1, 2, 3, 4], rb_w = 0, rb_r = 3\<rparr>"
proof -
  have r: "run_ops rb_enqueue rb_dequeue [Enq [1, 2], Deq 1, Enq [3, 4, 5], Deq 2] (rb_init 4) =
     ([1, 2, 3, 4], [1, 2, 3], \<lparr>rb_size = 4, rb_ring = [1, 2, 3, 4], rb_w = 0, rb_r = 3\<rparr>)"
    by code_simp
  then show ?thesis using ring_buffer_fifo [OF _ r] by simp
qed

text \<open>C29. The send buffer supports retransmission: bytes that were read and not yet freed come out
  again, the same and first, when the read position is rolled back; freeing the acknowledged
  prefix drops exactly that prefix from what would be read again.\<close>

theorem rring_buffer_retransmit:
  assumes "rrb_safe q" and "rrb_dequeue q n = (iov, q1)" and "k \<le> length (rrb_unacked q1)"
    and "rrb_dequeue (rrb_roll_back_to_r (rrb_free q1 (int k))) m = (iov2, q2)"
  shows "concat iov2 = take m (drop k (rrb_unacked q @ concat iov) @ rrb_contents q1)"
proof -
  have q1: "rrb_safe q1" "rrb_unacked q1 = rrb_unacked q @ concat iov"
    using rrbr.deq_safe [OF assms(1,2)] by blast+
  have f: "rrb_safe (rrb_free q1 (int k))" "rrb_unacked (rrb_free q1 (int k)) = drop k (rrb_unacked q1)"
    "rrb_contents (rrb_free q1 (int k)) = rrb_contents q1"
    using rrbr.ack_safe [OF q1(1) assms(3)] by blast+
  have r: "rrb_safe (rrb_roll_back_to_r (rrb_free q1 (int k)))"
    "rrb_contents (rrb_roll_back_to_r (rrb_free q1 (int k))) = drop k (rrb_unacked q1) @ rrb_contents q1"
    using rrbr.rollback_safe [OF f(1)] f by simp_all
  show ?thesis using rrb.deq_data [OF rrbr.safe_inv [OF r(1)] assms(4)] r(2) q1(2) by simp
qed

theorem rring_buffer_retransmit_witness:
  "concat (fst (rrb_dequeue (rrb_roll_back_to_r (rrb_free
      (snd (rrb_dequeue (snd (rrb_enqueue (rrb_init 6) [1, 2, 3, 4])) 3)) (int 1))) 9)) = [2, 3, 4]"
proof -
  let ?q = "snd (rrb_enqueue (rrb_init 6) [1, 2, 3, 4])"
  let ?q1 = "snd (rrb_dequeue ?q 3)"
  have s: "rrb_safe ?q" and d: "rrb_dequeue ?q 3 = ([[1, 2, 3]], ?q1)"
    and k: "1 \<le> length (rrb_unacked ?q1)" and u: "rrb_unacked ?q = []" and c: "rrb_contents ?q1 = [4]"
    by code_simp+
  show ?thesis
    using rring_buffer_retransmit [OF s d k prod.collapse [symmetric], of 9] u c by simp
qed

text \<open>\<^verbatim>\<open>RRingBuffer.enqueue\<close> bounds a write by the virtual read offset and not by the first
  unacknowledged byte: bytes that fit only by overwriting unacknowledged ones are all accepted,
  and the buffer can no longer give back what was sent.\<close>

lemma rring_enqueue_overwrites_unacked:
  assumes "rrb_safe q" and "length xs \<le> rrb_free_space q"
    and "rrb_cap q < length (rrb_unacked q) + length (rrb_contents q) + length xs"
    and "rrb_enqueue q xs = (n, q')"
  shows "n = length xs \<and> \<not> rrb_safe q'"
proof -
  have inv: "rrb_inv q" by (rule rrbr.safe_inv [OF assms(1)])
  have n: "n = length xs" using rrb.enq_all [OF inv assms(4,2)] .
  have inv': "rrb_inv q'" by (rule rrb.enq_inv [OF inv assms(4)])
  note v = rrb_enqueueD [OF assms(4)]
  have vinv: "rb_inv (rrb_view q)" using inv by (simp add: rrb_inv_def)
  have "rrb_vr q' = rrb_vr q"
    using rb_enqueue_spec(4) [OF vinv v(1)] by (simp add: rrb_view_def)
  then have "rrb_in_flight q' = rrb_in_flight q" using v by (simp add: rrb_in_flight_def)
  moreover have "rrb_ready q' = rrb_ready q + length xs"
    using rrb.enq_contents [OF inv assms(4)] rrb.ready_length [OF inv] rrb.ready_length [OF inv'] n by simp
  moreover have "rrb_cap q' = rrb_cap q" by (rule rrb.enq_cap [OF inv assms(4)])
  ultimately show ?thesis
    using n assms(3) length_rrb_unacked [OF inv] rrb.ready_length [OF inv] by (simp add: rrb_safe_def)
qed

lemma rring_enqueue_overwrites_unacked_witness:
  "let q = snd (rrb_dequeue (snd (rrb_enqueue (rrb_init 4) [1, 2, 3])) 3); q' = snd (rrb_enqueue q [7, 8])
   in \<not> rrb_safe q' \<and> rrb_unacked q = [1, 2, 3] \<and> rrb_unacked q' = [8, 2, 3]"
proof -
  let ?q = "snd (rrb_dequeue (snd (rrb_enqueue (rrb_init 4) [1, 2, 3])) 3)"
  let ?q' = "snd (rrb_enqueue ?q [7, 8])"
  have a: "rrb_safe ?q" "length [7, 8 :: byte] \<le> rrb_free_space ?q"
    "rrb_cap ?q < length (rrb_unacked ?q) + length (rrb_contents ?q) + length [7, 8 :: byte]"
    and e: "rrb_unacked ?q = [1, 2, 3]" "rrb_unacked ?q' = [8, 2, 3]"
    by code_simp+
  show ?thesis
    using rring_enqueue_overwrites_unacked [OF a prod.collapse [symmetric]] e by (simp add: Let_def)
qed

end
