(* ===== verification/Csum.thy ===== *)
theory Csum
  imports Prelude
begin

text \<open>
  The Internet checksum of \<^verbatim>\<open>tipy/lib/csum.py\<close>. The source sums native 64-bit words, then
  16-bit words, then an odd last byte, folds the carries and (on a little-endian host) swaps the
  bytes. The reference is RFC 1071: the complement of the one's complement sum of the
  big-endian 16-bit words, the last byte padded with zero.
\<close>

section \<open>Definitions\<close>

primrec le_val :: "bytes \<Rightarrow> nat" where
  "le_val [] = 0"
| "le_val (b # bs) = unat b + 256 * le_val bs"

definition be_val :: "bytes \<Rightarrow> nat" where
  "be_val bs = le_val (rev bs)"

text \<open>The items of \<^verbatim>\<open>memoryview.cast\<close>: consecutive chunks of \<open>k\<close> bytes.\<close>

function chunks :: "nat \<Rightarrow> 'a list \<Rightarrow> 'a list list" where
  "chunks k xs = (if k = 0 \<or> length xs < k then [] else take k xs # chunks k (drop k xs))"
  by pat_completeness auto
termination by (relation "measure (\<lambda>(k, xs). length xs)") auto

declare chunks.simps [simp del]

definition cast_sum :: "(bytes \<Rightarrow> nat) \<Rightarrow> nat \<Rightarrow> bytes \<Rightarrow> nat" where
  "cast_sum val k xs = sum_list (map val (chunks k xs))"

text \<open>\<^verbatim>\<open>while s >> 16: s = (s >> 16) + (s & 0xFFFF)\<close>\<close>

function fold16 :: "nat \<Rightarrow> nat" where
  "fold16 s = (if drop_bit 16 s \<noteq> 0 then fold16 (drop_bit 16 s + (s AND 0xFFFF)) else s)"
  by pat_completeness auto

lemma and_ffff: "(s::nat) AND 0xFFFF = s mod 65536"
proof -
  have "s AND 0xFFFF = s AND mask 16" by (simp add: mask_eq_exp_minus_1)
  also have "\<dots> = take_bit 16 s" by (simp add: take_bit_eq_mask)
  finally show ?thesis by (simp add: take_bit_eq_mod)
qed

lemma drop16: "drop_bit 16 (s::nat) = s div 65536"
  by (simp add: drop_bit_eq_div)

termination fold16
proof (relation "measure id")
  fix s :: nat
  assume "drop_bit 16 s \<noteq> 0"
  then have "0 < s div 65536" by (simp add: drop16)
  moreover have "s = 65536 * (s div 65536) + s mod 65536" by simp
  ultimately have "s div 65536 + s mod 65536 < s" by linarith
  then show "(drop_bit 16 s + (s AND 0xFFFF), s) \<in> measure id" by (simp add: drop16 and_ffff)
qed simp

declare fold16.simps [simp del]

definition sum_native :: "(bytes \<Rightarrow> nat) \<Rightarrow> bytes \<Rightarrow> nat \<Rightarrow> nat" where
  "sum_native val data inited_sum =
     (let n = length data;
          dwords = n div 8;
          s1 = inited_sum + cast_sum val 8 (take (dwords * 8) data);
          i1 = dwords * 8;
          hwords = (n - i1) div 2;
          (s2, i2) = (if hwords \<noteq> 0
                      then (s1 + cast_sum val 2 (slice data i1 (i1 + hwords * 2)), i1 + hwords * 2)
                      else (s1, i1))
      in if i2 < n then s2 + unat (last data) else s2)"

definition swap16 :: "nat \<Rightarrow> nat" where
  "swap16 s = (push_bit 8 s AND 0xFF00) OR drop_bit 8 s"

definition inet_csum_little :: "bytes \<Rightarrow> nat \<Rightarrow> int" where
  "inet_csum_little data inited_sum =
     (let s = fold16 (sum_native le_val data inited_sum)
      in NOT (int (swap16 s)) AND 0xFFFF)"

definition inet_csum_big :: "bytes \<Rightarrow> nat \<Rightarrow> int" where
  "inet_csum_big data inited_sum =
     (let s = fold16 (sum_native be_val data inited_sum)
      in NOT (int s) AND 0xFFFF)"

section \<open>The reference\<close>

fun be16_sum :: "bytes \<Rightarrow> nat" where
  "be16_sum [] = 0"
| "be16_sum [b] = 256 * unat b"
| "be16_sum (a # b # bs) = 256 * unat a + unat b + be16_sum bs"

text \<open>The one's complement sum of 16-bit words with plain sum \<open>s\<close>.\<close>

definition ones_norm :: "nat \<Rightarrow> nat" where
  "ones_norm s = (if s = 0 then 0 else (s - 1) mod 65535 + 1)"

definition rfc1071 :: "bytes \<Rightarrow> int" where
  "rfc1071 bs = 65535 - int (ones_norm (be16_sum bs))"

fun le16_sum :: "bytes \<Rightarrow> nat" where
  "le16_sum [] = 0"
| "le16_sum [b] = unat b"
| "le16_sum (a # b # bs) = unat a + 256 * unat b + le16_sum bs"

definition be16 :: "int \<Rightarrow> bytes" where
  "be16 x = [word_of_int (x div 256), word_of_int x]"

section \<open>One's complement arithmetic\<close>

lemma ones_norm_unique:
  assumes "v \<le> 65535" "v mod 65535 = t mod 65535" "v = 0 \<longleftrightarrow> t = 0"
  shows "v = ones_norm t"
proof (cases "t = 0")
  case True
  then show ?thesis using assms by (simp add: ones_norm_def)
next
  case False
  then obtain u where u: "t = Suc u" by (cases t) auto
  obtain w where w: "v = Suc w" using False assms(3) by (cases v) auto
  have "w mod 65535 = u mod 65535"
    using assms(2) by (simp add: u w mod_Suc split: if_splits)
  moreover have "w < 65535" using assms(1) w by simp
  ultimately show ?thesis by (simp add: ones_norm_def u w)
qed

lemma ones_norm_range: "ones_norm t \<le> 65535"
  using mod_less_divisor [of 65535 "t - 1"] by (auto simp: ones_norm_def simp del: mod_less_divisor)

lemma ones_norm_mod: "ones_norm t mod 65535 = t mod 65535"
  by (cases t) (simp_all add: ones_norm_def mod_Suc)

lemma ones_norm_zero [simp]: "ones_norm t = 0 \<longleftrightarrow> t = 0"
  by (simp add: ones_norm_def)

lemma ones_norm_cong:
  "a mod 65535 = b mod 65535 \<Longrightarrow> (a = 0 \<longleftrightarrow> b = 0) \<Longrightarrow> ones_norm a = ones_norm b"
  by (rule ones_norm_unique) (simp_all add: ones_norm_range ones_norm_mod)

lemma fold16_ones: "fold16 s = ones_norm s"
proof (induction s rule: fold16.induct)
  case (1 s)
  show ?case
  proof (cases "drop_bit 16 s = 0")
    case True
    then have "s < 65536" by (simp add: drop16)
    then have "s = ones_norm s" by (intro ones_norm_unique) auto
    then show ?thesis using True by (simp add: fold16.simps)
  next
    case False
    let ?t = "s div 65536 + s mod 65536"
    have s: "s = ?t + s div 65536 * 65535" using div_mult_mod_eq [of s 65536] by linarith
    have "?t mod 65535 = s mod 65535" by (subst (3) s) (rule mod_mult_self1 [symmetric])
    then have "ones_norm ?t = ones_norm s"
      using False by (intro ones_norm_cong) (auto simp: drop16)
    then show ?thesis using False 1 by (simp add: fold16.simps [of s] drop16 and_ffff)
  qed
qed

section \<open>Native words against 16-bit words\<close>

lemma le_val_mod: "le_val xs mod 65535 = le16_sum xs mod 65535"
proof (induction xs rule: le16_sum.induct)
  case (3 a b bs)
  have "le_val (a # b # bs) = (unat a + 256 * unat b + le_val bs) + le_val bs * 65535"
    by simp
  then have "le_val (a # b # bs) mod 65535 = (unat a + 256 * unat b + le_val bs) mod 65535"
    by (simp only: mod_mult_self1)
  also have "\<dots> = (unat a + 256 * unat b + le16_sum bs) mod 65535"
    using 3 by (rule mod_add_cong [OF refl])
  finally show ?case by simp
qed simp_all

lemma le16_sum_zero: "le16_sum xs = 0 \<longleftrightarrow> (\<forall>b\<in>set xs. b = 0)"
  by (induction xs rule: le16_sum.induct) (auto simp: unat_0_iff)

lemma be16_sum_zero: "be16_sum xs = 0 \<longleftrightarrow> (\<forall>b\<in>set xs. b = 0)"
  by (induction xs rule: be16_sum.induct) (auto simp: unat_0_iff)

lemma le_val_zero: "le_val xs = 0 \<longleftrightarrow> (\<forall>b\<in>set xs. b = 0)"
  by (induction xs) (auto simp: unat_0_iff)

lemma le16_sum_append: "even (length xs) \<Longrightarrow> le16_sum (xs @ ys) = le16_sum xs + le16_sum ys"
  by (induction xs rule: le16_sum.induct) (auto simp: unat_0_iff)

lemma be16_sum_append: "even (length xs) \<Longrightarrow> be16_sum (xs @ ys) = be16_sum xs + be16_sum ys"
  by (induction xs rule: be16_sum.induct) (auto simp: unat_0_iff)

lemma be16_le16_mod: "be16_sum xs mod 65535 = 256 * le16_sum xs mod 65535"
proof (induction xs rule: be16_sum.induct)
  case (3 a b bs)
  have "256 * le16_sum (a # b # bs) = (256 * unat a + unat b + 256 * le16_sum bs) + unat b * 65535"
    by simp
  then have "256 * le16_sum (a # b # bs) mod 65535 = (256 * unat a + unat b + 256 * le16_sum bs) mod 65535"
    by (simp only: mod_mult_self1)
  also have "\<dots> = (256 * unat a + unat b + be16_sum bs) mod 65535"
    using 3 by (intro mod_add_cong) simp_all
  finally show ?case by simp
qed simp_all

text \<open>
  \<open>val\<close> reads a chunk as a number congruent to its sum of 16-bit words; then so does the
  sum over all chunks of an even size.
\<close>

definition word_reader :: "(bytes \<Rightarrow> nat) \<Rightarrow> (bytes \<Rightarrow> nat) \<Rightarrow> bool" where
  "word_reader val ws \<longleftrightarrow>
     (\<forall>xs. even (length xs) \<longrightarrow> val xs mod 65535 = ws xs mod 65535 \<and> (val xs = 0 \<longleftrightarrow> ws xs = 0)) \<and>
     (\<forall>xs ys. even (length xs) \<longrightarrow> ws (xs @ ys) = ws xs + ws ys) \<and> ws [] = 0"

definition same_ones :: "nat \<Rightarrow> nat \<Rightarrow> bool" where
  "same_ones a b \<longleftrightarrow> a mod 65535 = b mod 65535 \<and> (a = 0 \<longleftrightarrow> b = 0)"

lemma same_ones_add: "same_ones a b \<Longrightarrow> same_ones c d \<Longrightarrow> same_ones (a + c) (b + d)"
  by (auto simp: same_ones_def intro: mod_add_cong)

lemma same_ones_refl [simp]: "same_ones a a"
  by (simp add: same_ones_def)

lemma cast_sum_ones:
  assumes r: "word_reader val ws" and k: "even k" "0 < k"
  shows "length xs = k * m \<Longrightarrow> same_ones (cast_sum val k xs) (ws xs)"
proof (induction m arbitrary: xs)
  case 0
  then show ?case using r by (simp add: cast_sum_def chunks.simps same_ones_def word_reader_def)
next
  case (Suc m)
  have l: "k \<le> length xs" "length (drop k xs) = k * m" using Suc.prems by simp_all
  have "cast_sum val k xs = val (take k xs) + cast_sum val k (drop k xs)"
    using l k by (simp add: cast_sum_def chunks.simps [of k xs])
  moreover have "same_ones (val (take k xs)) (ws (take k xs))"
    using r l k by (simp add: word_reader_def same_ones_def)
  moreover have "ws xs = ws (take k xs) + ws (drop k xs)"
    using r l k append_take_drop_id [of k xs] by (metis length_take min.absorb2 word_reader_def)
  ultimately show ?case using Suc.IH [OF l(2)] by (simp add: same_ones_add)
qed

lemma le_reader: "word_reader le_val le16_sum"
  by (simp add: word_reader_def le_val_mod le16_sum_append le16_sum_zero le_val_zero)

lemma sum_native_eq:
  fixes data :: bytes
  defines "m \<equiv> length data mod 8"
  defines "i1 \<equiv> length data - m" and "i2 \<equiv> length data - length data mod 2"
  shows "sum_native val data i = i + cast_sum val 8 (take i1 data) +
    cast_sum val 2 (take (i2 - i1) (drop i1 data)) +
    (if odd (length data) then unat (last data) else 0)"
    and "length (take i1 data) = 8 * (length data div 8)"
    and "length (take (i2 - i1) (drop i1 data)) = 2 * (m div 2)"
    and "i1 \<le> i2" "i2 \<le> length data"
proof -
  let ?n = "length data"
  have n: "?n = ?n div 8 * 8 + m" by (simp add: m_def)
  have par: "m mod 2 = ?n mod 2" by (simp add: m_def mod_mod_cancel)
  have m2: "m = m div 2 * 2 + m mod 2" by simp
  have i1: "?n div 8 * 8 = i1" using n by (simp add: i1_def)
  have sub: "?n - ?n div 8 * 8 = m" using n by linarith
  have i2: "i1 + m div 2 * 2 = i2" using n m2 par i1 unfolding i2_def by linarith
  have last: "i2 < ?n \<longleftrightarrow> odd ?n" by (auto simp: i2_def odd_iff_mod_2_eq_one even_iff_mod_2_eq_zero)
  have "cast_sum val 2 [] = 0" by (simp add: cast_sum_def chunks.simps)
  then show "sum_native val data i = i + cast_sum val 8 (take i1 data) +
    cast_sum val 2 (take (i2 - i1) (drop i1 data)) + (if odd ?n then unat (last data) else 0)"
    using i1 i2 last sub unfolding sum_native_def Let_def slice_def
    by (auto simp del: mult.commute)
  show "length (take i1 data) = 8 * (?n div 8)" using i1 n by simp
  show "length (take (i2 - i1) (drop i1 data)) = 2 * (m div 2)" using i1 i2 n m2 by simp
  show "i1 \<le> i2" "i2 \<le> ?n" using i2 by (simp_all add: i2_def)
qed

lemma sum_native_ones:
  assumes r: "word_reader val ws" and i: "same_ones i j"
    and odd: "odd (length data) \<Longrightarrow> ws [last data] = unat (last data)"
  shows "same_ones (sum_native val data i) (j + ws data)"
proof -
  let ?n = "length data"
  let ?i1 = "?n - ?n mod 8" and ?i2 = "?n - ?n mod 2"
  let ?d1 = "take ?i1 data" and ?d2 = "take (?i2 - ?i1) (drop ?i1 data)" and ?d3 = "drop ?i2 data"
  note eq = sum_native_eq [where data = data]
  have d3: "?d3 = (if odd ?n then [last data] else [])"
  proof (cases "odd ?n")
    case True
    then have "?i2 = ?n - 1" "data \<noteq> []" by (auto simp: odd_iff_mod_2_eq_one)
    then show ?thesis using True by (metis append_butlast_last_id append_eq_conv_conj length_butlast)
  qed (simp add: even_iff_mod_2_eq_zero)
  have "drop ?i1 data = ?d2 @ drop (?i2 - ?i1) (drop ?i1 data)"
    by (rule append_take_drop_id [symmetric])
  then have "data = ?d1 @ ?d2 @ ?d3"
    using eq(4) by (metis append_take_drop_id drop_drop le_add_diff_inverse2)
  then have "ws data = ws (?d1 @ ?d2 @ ?d3)" by (rule arg_cong)
  moreover have "even (length ?d1)" "even (length ?d2)" unfolding eq(2,3) by simp_all
  ultimately have ws: "ws data = ws ?d1 + ws ?d2 + ws ?d3"
    using r unfolding word_reader_def by (simp only: add.assoc)
  have 1: "same_ones (cast_sum val 8 ?d1) (ws ?d1)"
    by (rule cast_sum_ones [OF r _ _ eq(2)]) simp_all
  have 2: "same_ones (cast_sum val 2 ?d2) (ws ?d2)"
    by (rule cast_sum_ones [OF r _ _ eq(3)]) simp_all
  have 3: "ws ?d3 = (if odd ?n then unat (last data) else 0)"
    using odd r by (simp add: d3 word_reader_def)
  show ?thesis
    unfolding eq(1) [of val i] ws add.assoc [symmetric] 3 by (intro same_ones_add i 1 2 same_ones_refl)
qed

section \<open>Correctness\<close>

lemma swap16_eq: "s \<le> 65535 \<Longrightarrow> swap16 s = 256 * (s mod 256) + s div 256"
proof -
  assume s: "s \<le> 65535"
  have "push_bit 8 s AND 0xFF00 = push_bit 8 (s AND 0xFF)"
    by (simp add: push_bit_and)
  also have "s AND 0xFF = take_bit 8 s"
    using take_bit_eq_mask [of 8 s] by (simp add: mask_eq_exp_minus_1)
  finally have hi: "push_bit 8 s AND 0xFF00 = 256 * (s mod 256)"
    by (simp add: push_bit_eq_mult take_bit_eq_mod)
  have lo: "drop_bit 8 s = s div 256" by (simp add: drop_bit_eq_div)
  have "256 * (s mod 256) AND s div 256 = 0"
  proof -
    have "s div 256 = take_bit 8 (s div 256)" using s by (simp add: take_bit_eq_mod)
    moreover have "256 * (s mod 256) = push_bit 8 (s mod 256)" by (simp add: push_bit_eq_mult)
    moreover have "push_bit 8 a AND take_bit 8 b = 0" for a b :: nat
      by (auto simp: bit_eq_iff bit_simps)
    ultimately show ?thesis by metis
  qed
  then show ?thesis unfolding swap16_def hi lo
    by (simp add: disjunctive_add_eq_or)
qed

lemma complement16: "0 \<le> x \<Longrightarrow> x \<le> 65535 \<Longrightarrow> NOT x AND 0xFFFF = 65535 - (x::int)"
proof -
  assume x: "0 \<le> x" "x \<le> 65535"
  have "NOT x AND 0xFFFF = take_bit 16 (NOT x)"
    using take_bit_eq_mask [of 16 "NOT x"] by (simp add: mask_eq_exp_minus_1)
  also have "\<dots> = (- x - 1) mod 65536" by (simp add: take_bit_eq_mod not_eq_complement)
  also have "\<dots> = (- x - 1 + 65536) mod 65536" by (simp only: mod_add_self2)
  also have "\<dots> = 65535 - x" using x by (subst mod_pos_pos_trivial) auto
  finally show ?thesis .
qed

lemma swap16_ones:
  assumes "same_ones a b"
  shows "swap16 (ones_norm a) = ones_norm (256 * b)"
proof (rule ones_norm_unique)
  let ?x = "ones_norm a"
  have x: "?x \<le> 65535" by (rule ones_norm_range)
  then have sw: "swap16 ?x = 256 * (?x mod 256) + ?x div 256" by (rule swap16_eq)
  have "?x div 256 \<le> 255" using x by auto
  moreover have "?x mod 256 \<le> 255" using mod_less_divisor [of 256 ?x] by linarith
  ultimately show "swap16 ?x \<le> 65535" unfolding sw by linarith
  have "256 * ?x = swap16 ?x + ?x div 256 * 65535"
    using div_mult_mod_eq [of ?x 256] unfolding sw by linarith
  then have "swap16 ?x mod 65535 = 256 * ?x mod 65535" by (simp only: mod_mult_self1)
  also have "\<dots> = 256 * a mod 65535" by (rule mod_mult_cong [OF refl ones_norm_mod])
  also have "\<dots> = 256 * b mod 65535"
    using assms by (intro mod_mult_cong) (simp_all add: same_ones_def)
  finally show "swap16 ?x mod 65535 = 256 * b mod 65535" .
  have "256 * (y mod 256) + y div 256 = 0 \<longleftrightarrow> y = 0" for y :: nat
    using div_mult_mod_eq [of y 256] by auto
  then have "swap16 ?x = 0 \<longleftrightarrow> ?x = 0" unfolding sw .
  then show "swap16 ?x = 0 \<longleftrightarrow> 256 * b = 0" using assms by (simp add: same_ones_def)
qed

lemma csum_little_eq:
  assumes "same_ones i (le16_sum ph)" "even (length ph)"
  shows "inet_csum_little data i = rfc1071 (ph @ data)"
proof -
  have "same_ones (sum_native le_val data i) (le16_sum ph + le16_sum data)"
    by (rule sum_native_ones [OF le_reader assms(1)]) simp
  then have "same_ones (sum_native le_val data i) (le16_sum (ph @ data))"
    using assms(2) by (simp add: le16_sum_append)
  then have "swap16 (fold16 (sum_native le_val data i)) = ones_norm (256 * le16_sum (ph @ data))"
    unfolding fold16_ones by (rule swap16_ones)
  also have "\<dots> = ones_norm (be16_sum (ph @ data))"
    by (rule ones_norm_cong) (simp_all add: be16_le16_mod le16_sum_zero be16_sum_zero)
  finally show ?thesis
    using ones_norm_range [of "be16_sum (ph @ data)"]
    by (simp add: inet_csum_little_def rfc1071_def complement16)
qed

lemma cast_sum_phdr:
  assumes "4 dvd length ph"
  shows "same_ones (cast_sum le_val 4 ph) (le16_sum ph)"
proof -
  obtain m where "length ph = 4 * m" using assms by (auto simp: dvd_def)
  then show ?thesis by (intro cast_sum_ones [OF le_reader]) simp_all
qed

lemma csum_little_phdr:
  "4 dvd length ph \<Longrightarrow> inet_csum_little data (cast_sum le_val 4 ph) = rfc1071 (ph @ data)"
  by (rule csum_little_eq) (simp_all add: cast_sum_phdr dvd_trans [of 2 4])

lemma be16_sum_be16: "0 \<le> c \<Longrightarrow> c \<le> 65535 \<Longrightarrow> be16_sum (be16 c) = nat c"
proof -
  assume c: "0 \<le> c" "c \<le> 65535"
  have "uint (word_of_int (c div 256) :: byte) = c div 256"
    using c by (simp add: uint_word_of_int mod_pos_pos_trivial)
  moreover have "uint (word_of_int c :: byte) = c mod 256" by (simp add: uint_word_of_int)
  ultimately have "be16_sum (be16 c) = 256 * nat (c div 256) + nat (c mod 256)"
    using c by (simp add: be16_def unat_eq_nat_uint)
  also have "\<dots> = nat (256 * (c div 256) + c mod 256)"
    using c by (subst nat_add_distrib) (simp_all add: nat_mult_distrib)
  finally show ?thesis by (simp only: mult_div_mod_eq)
qed

lemma length_be16 [simp]: "length (be16 c) = 2"
  by (simp add: be16_def)

lemma rfc1071_insert:
  assumes "even (length pre)"
  shows "rfc1071 (pre @ be16 (rfc1071 (pre @ [0, 0] @ post)) @ post) = 0"
proof -
  let ?S = "be16_sum pre + be16_sum post" and ?c = "rfc1071 (pre @ [0, 0] @ post)"
  have c: "?c = 65535 - int (ones_norm ?S)"
    using assms by (simp add: rfc1071_def be16_sum_append)
  have "be16_sum (be16 ?c @ post) = nat ?c + be16_sum post"
    using c ones_norm_range [of ?S]
    by (simp add: be16_sum_append be16_sum_be16)
  then have "be16_sum (pre @ be16 ?c @ post) = ?S + (65535 - ones_norm ?S)"
    using assms c ones_norm_range [of ?S] by (simp add: be16_sum_append nat_diff_distrib')
  moreover have "ones_norm (?S + (65535 - ones_norm ?S)) = 65535"
  proof (rule ones_norm_unique [symmetric])
    have "(?S + (65535 - ones_norm ?S)) mod 65535 = (ones_norm ?S + (65535 - ones_norm ?S)) mod 65535"
      by (rule mod_add_cong [OF ones_norm_mod [symmetric] refl])
    then show "65535 mod 65535 = (?S + (65535 - ones_norm ?S)) mod (65535::nat)"
      using ones_norm_range [of ?S] by simp
    show "65535 = (0::nat) \<longleftrightarrow> ?S + (65535 - ones_norm ?S) = 0"
      by (cases "?S = 0") (auto simp: ones_norm_def)
  qed simp
  ultimately show ?thesis by (simp add: rfc1071_def)
qed

lemma be16_sum_zeros: "be16_sum (xs @ replicate k 0) = be16_sum xs"
proof (induction xs rule: be16_sum.induct)
  case 1
  have "be16_sum (replicate k 0) = 0" by (simp add: be16_sum_zero)
  then show ?case by simp
next
  case (2 b)
  have "be16_sum (replicate (k - 1) 0) = 0" by (simp add: be16_sum_zero)
  then show ?case by (cases k) simp_all
qed simp_all


lemma le16_sum_rev: "even (length xs) \<Longrightarrow> le16_sum (rev xs) = be16_sum xs"
  by (induction xs rule: be16_sum.induct) (simp_all add: le16_sum_append)

lemma be_reader: "word_reader be_val be16_sum"
proof -
  have "be_val xs = 0 \<longleftrightarrow> be16_sum xs = 0" for xs
    by (simp add: be_val_def le_val_zero be16_sum_zero)
  moreover have "be_val xs mod 65535 = be16_sum xs mod 65535" if "even (length xs)" for xs
    using that by (simp add: be_val_def le_val_mod le16_sum_rev)
  ultimately show ?thesis by (simp add: word_reader_def be16_sum_append)
qed

lemma csum_big_eq:
  assumes "same_ones i (be16_sum ph)" "even (length ph)" "even (length data)"
  shows "inet_csum_big data i = rfc1071 (ph @ data)"
proof -
  have "same_ones (sum_native be_val data i) (be16_sum ph + be16_sum data)"
    by (rule sum_native_ones [OF be_reader assms(1)]) (use assms(3) in simp)
  then have "ones_norm (sum_native be_val data i) = ones_norm (be16_sum (ph @ data))"
    using assms(2) by (intro ones_norm_cong) (simp_all add: same_ones_def be16_sum_append)
  then show ?thesis
    using ones_norm_range [of "be16_sum (ph @ data)"]
    by (simp add: inet_csum_big_def rfc1071_def complement16 fold16_ones)
qed

lemmas csum_eval = inet_csum_little_def inet_csum_big_def sum_native_def cast_sum_def chunks.simps
  fold16.simps be_val_def slice_def rfc1071_def ones_norm_def swap16_def be16_def

section \<open>Properties\<close>

text \<open>C30. The checksum a little-endian host computes, with the pseudo-header's native 32-bit
  words as the initial sum, is the RFC 1071 checksum of pseudo-header and data, for every length
  of the data. The sum of 64-bit words, the fold of the carries and the final byte swap are an
  optimisation of the byte-order independent definition.\<close>

theorem csum_little_rfc1071:
  "4 dvd length ph \<Longrightarrow> inet_csum_little data (cast_sum le_val 4 ph) = rfc1071 (ph @ data)"
  by (rule csum_little_phdr)

theorem csum_little_rfc1071_witness:
  "4 dvd length [192, 168, 2, 199 :: byte] \<and>
   inet_csum_little [1, 2, 3] (cast_sum le_val 4 [192, 168, 2, 199]) = rfc1071 [192, 168, 2, 199, 1, 2, 3]"
  using csum_little_rfc1071 [of "[192, 168, 2, 199]" "[1, 2, 3]"] by (simp add: eval_nat_numeral)

text \<open>A sender that stores the checksum of a packet into its zeroed 16-bit field, at an even
  offset and in network byte order, produces a packet that the receiver's check accepts: its
  checksum, with the same pseudo-header sum, is zero.\<close>

lemma csum_sender_receiver:
  assumes "even (length pre)" and "4 dvd length ph"
  shows "inet_csum_little
     (pre @ be16 (inet_csum_little (pre @ [0, 0] @ post) (cast_sum le_val 4 ph)) @ post)
     (cast_sum le_val 4 ph) = 0"
  using assms rfc1071_insert [of "ph @ pre" post]
  by (simp add: csum_little_phdr dvd_trans [of 2 4])

lemma csum_sender_receiver_witness:
  "even (length [8, 0 :: byte]) \<and> 4 dvd length ([] :: bytes) \<and>
   inet_csum_little ([8, 0] @ be16 (inet_csum_little ([8, 0] @ [0, 0] @ [7, 9, 1]) (cast_sum le_val 4 []))
     @ [7, 9, 1]) (cast_sum le_val 4 []) = 0"
  using csum_sender_receiver [of "[8, 0]" "[]" "[7, 9, 1]"] by simp

text \<open>Bytes a frame holds beyond its packet do not matter while they are zero: the checksum
  over the packet followed by zeros, which is what \<^verbatim>\<open>build\<close> computes on the preallocated frame,
  is the checksum of the packet.\<close>

lemma csum_zero_padding:
  assumes "4 dvd length ph"
  shows "inet_csum_little (data @ replicate k 0) (cast_sum le_val 4 ph) =
         inet_csum_little data (cast_sum le_val 4 ph)"
  using be16_sum_zeros [of "ph @ data" k] assms
  by (simp add: csum_little_phdr rfc1071_def)

lemma csum_zero_padding_witness:
  "4 dvd length ([] :: bytes) \<and>
   inet_csum_little ([69, 0, 7] @ replicate 6 0) (cast_sum le_val 4 []) =
   inet_csum_little [69, 0, 7] (cast_sum le_val 4 [])"
  using csum_zero_padding [of "[]" "[69, 0, 7]" 6] by simp

text \<open>The big-endian variant agrees with RFC 1071 on data of even length. On odd length it
  adds the last byte as the low half of a word, where RFC 1071 pads it to the high half: the
  single byte 1 gets checksum \<open>0xFFFE\<close> instead of \<open>0xFEFF\<close>.\<close>

lemma csum_big_even_only:
  "(\<forall>data. even (length data) \<longrightarrow> inet_csum_big data 0 = rfc1071 data) \<and>
   inet_csum_big [1] 0 = 0xFFFE \<and> rfc1071 [1] = 0xFEFF"
  using csum_big_eq [of 0 "[]"] by (simp add: csum_eval)

lemma csum_big_even_only_witness:
  "even (length [18, 52 :: byte]) \<and> inet_csum_big [18, 52] 0 = rfc1071 [18, 52]"
  using csum_big_even_only by simp

end
