(* ===== verification/Pack.thy ===== *)
theory Pack
  imports Csum
begin

text \<open>
  The parts of Python's \<^verbatim>\<open>struct\<close> module and of indexing a \<^verbatim>\<open>memoryview\<close> that the parsers and
  builders use: network-order unsigned fields of 1, 2 or 4 bytes, with the exceptions they raise.
\<close>

section \<open>Sequencing of results\<close>

definition bind_r :: "'a result \<Rightarrow> ('a \<Rightarrow> 'b result) \<Rightarrow> 'b result" where
  "bind_r r f = (case r of Inl e \<Rightarrow> Inl e | Inr x \<Rightarrow> f x)"

lemma bind_r_simps [simp]: "bind_r (Inl e) f = Inl e" "bind_r (Inr x) f = f x"
  by (simp_all add: bind_r_def)

lemma bind_r_Inr_iff: "bind_r r f = Inr y \<longleftrightarrow> (\<exists>x. r = Inr x \<and> f x = Inr y)"
  by (cases r) simp_all

section \<open>Reading\<close>

definition unpack_be :: "nat \<Rightarrow> bytes \<Rightarrow> nat \<Rightarrow> int result" where
  "unpack_be k frame off =
     (if off + k \<le> length frame then Inr (int (be_val (slice frame off (off + k)))) else Inl StructError)"

definition byte_at :: "bytes \<Rightarrow> nat \<Rightarrow> int result" where
  "byte_at frame i = (if i < length frame then Inr (uint (frame ! i)) else Inl IndexError)"

section \<open>Writing\<close>

text \<open>The \<open>k\<close> bytes of a value, most significant first.\<close>

primrec be_bytes :: "nat \<Rightarrow> int \<Rightarrow> bytes" where
  "be_bytes 0 v = []"
| "be_bytes (Suc k) v = be_bytes k (v div 256) @ [word_of_int v]"

definition pack_be :: "nat \<Rightarrow> int \<Rightarrow> bytes result" where
  "pack_be k v = (if 0 \<le> v \<and> v < 256 ^ k then Inr (be_bytes k v) else Inl StructError)"

fun pack_fields :: "(nat \<times> int) list \<Rightarrow> bytes result" where
  "pack_fields [] = Inr []"
| "pack_fields ((k, v) # fs) = bind_r (pack_be k v) (\<lambda>b. bind_r (pack_fields fs) (\<lambda>bs. Inr (b @ bs)))"

definition pack_into :: "(nat \<times> int) list \<Rightarrow> bytes \<Rightarrow> nat \<Rightarrow> bytes result" where
  "pack_into fs frame off = bind_r (pack_fields fs) (\<lambda>bs.
     if off + length bs \<le> length frame then Inr (slice_assign frame off (off + length bs) bs)
     else Inl StructError)"

section \<open>Lemmas\<close>

lemma length_be_bytes [simp]: "length (be_bytes k v) = k"
  by (induction k arbitrary: v) simp_all

lemma le_val_bound: "le_val bs < 256 ^ length bs"
proof (induction bs)
  case Nil
  then show ?case by simp
next
  case (Cons b bs)
  have "unat b < 256" using unsigned_less [where w = b] by simp
  then show ?case using Cons by simp
qed

lemma be_val_bound: "be_val bs < 256 ^ length bs"
  using le_val_bound [of "rev bs"] by (simp add: be_val_def)

lemma unat_byte: "unat (word_of_int v :: byte) = nat (v mod 256)"
  by (simp add: unat_eq_nat_uint uint_word_of_int)

lemma be_val_be_bytes: "0 \<le> v \<Longrightarrow> v < 256 ^ k \<Longrightarrow> int (be_val (be_bytes k v)) = v"
proof (induction k arbitrary: v)
  case 0
  then show ?case by (simp add: be_val_def)
next
  case (Suc k)
  have "v div 256 < 256 ^ k" using Suc.prems by (simp add: div_less_iff_less_mult mult.commute)
  then have "int (be_val (be_bytes k (v div 256))) = v div 256" using Suc by simp
  then show ?case by (simp add: be_val_def unat_byte)
qed

lemma be_bytes_be_val: "be_bytes (length bs) (int (be_val bs)) = bs"
proof (induction bs rule: rev_induct)
  case Nil
  then show ?case by simp
next
  case (snoc b bs)
  have b: "unat b < 256" using unsigned_less [where w = b] by simp
  have v: "be_val (bs @ [b]) = unat b + 256 * be_val bs" by (simp add: be_val_def)
  have "word_of_int (int (unat b + 256 * be_val bs)) = b"
  proof -
    have "unat (word_of_int (int n) :: byte) = n mod 256" for n
      by (simp add: unat_of_nat take_bit_eq_mod)
    then have "unat (word_of_int (int (unat b + 256 * be_val bs)) :: byte) = unat b"
      using b by (simp only: mod_mult_self2 mod_less)
    then show ?thesis by (simp add: word_unat_eq_iff)
  qed
  moreover have "(unat b + 256 * be_val bs) div 256 = be_val bs" using b by simp
  then have "int (unat b + 256 * be_val bs) div 256 = int (be_val bs)"
    by (metis of_nat_div of_nat_numeral)
  ultimately show ?case using snoc v by simp
qed

lemma unpack_be_range: "unpack_be k frame off = Inr v \<Longrightarrow> 0 \<le> v \<and> v < 256 ^ k"
proof -
  assume "unpack_be k frame off = Inr v"
  then have l: "off + k \<le> length frame" and v: "v = int (be_val (slice frame off (off + k)))"
    by (simp_all add: unpack_be_def split: if_splits)
  have "length (slice frame off (off + k)) = k" using l by (simp add: slice_def)
  then have "be_val (slice frame off (off + k)) < 256 ^ k" using be_val_bound by metis
  then have "int (be_val (slice frame off (off + k))) < int (256 ^ k)" by (simp only: of_nat_less_iff)
  then show ?thesis using v by simp
qed

lemma pack_be_Inr: "0 \<le> v \<Longrightarrow> v < 256 ^ k \<Longrightarrow> pack_be k v = Inr (be_bytes k v)"
  by (simp add: pack_be_def)

text \<open>A packed field is read back at its place.\<close>

lemma slice_append_mid: "length xs = a \<Longrightarrow> length ys = k \<Longrightarrow> slice (xs @ ys @ zs) a (a + k) = ys"
  by (simp add: slice_def)

lemma unpack_packed:
  "0 \<le> v \<Longrightarrow> v < 256 ^ k \<Longrightarrow> length xs = off \<Longrightarrow> unpack_be k (xs @ be_bytes k v @ zs) off = Inr v"
  by (simp add: unpack_be_def slice_append_mid be_val_be_bytes)

end
