(* ===== verification/Wire.thy ===== *)
theory Wire
  imports Pack
begin

text \<open>
  Headers on the wire: the remaining operations on frames the builders use (copying bytes into a
  \<^verbatim>\<open>memoryview\<close>, \<^verbatim>\<open>struct\<close>'s byte-string fields), and the encoding of a list of fixed-width fields,
  with the facts that every header shares: what is packed is read back at its offset, and a checksum
  written over its placeholder makes the whole header verify.
\<close>

section \<open>Definitions\<close>

text \<open>\<^verbatim>\<open>frame[off:off+len(data)] = data\<close>: a \<^verbatim>\<open>memoryview\<close> does not change its length.\<close>

definition mv_assign :: "bytes \<Rightarrow> nat \<Rightarrow> bytes \<Rightarrow> bytes result" where
  "mv_assign frame off data =
     (if off + length data \<le> length frame then Inr (slice_assign frame off (off + length data) data)
      else Inl ValueError)"

text \<open>\<^verbatim>\<open>pack_into(f'!{n}s', frame, off, data)\<close>: the data is cut or padded with zeros to \<open>n\<close> bytes.\<close>

definition pack_str_into :: "nat \<Rightarrow> bytes \<Rightarrow> bytes \<Rightarrow> nat \<Rightarrow> bytes result" where
  "pack_str_into n data frame off =
     (if off + n \<le> length frame
      then Inr (slice_assign frame off (off + n) (take n data @ replicate (n - length data) 0))
      else Inl StructError)"

text \<open>The bytes of a list of fields, as a pair of a width and a value.\<close>

definition enc :: "(nat \<times> int) list \<Rightarrow> bytes" where
  "enc fs = concat (map (\<lambda>(k, v). be_bytes k v) fs)"

definition field_ok :: "nat \<times> int \<Rightarrow> bool" where
  "field_ok f \<longleftrightarrow> 0 \<le> snd f \<and> snd f < 256 ^ fst f"

section \<open>Lemmas\<close>

lemma enc_simps [simp]:
  "enc [] = []" "enc ((k, v) # fs) = be_bytes k v @ enc fs" "enc (fs @ gs) = enc fs @ enc gs"
  by (simp_all add: enc_def)

lemma length_enc: "length (enc fs) = sum_list (map fst fs)"
  by (induction fs) (auto simp: enc_def)

lemma pack_fields_ok: "list_all field_ok fs \<Longrightarrow> pack_fields fs = Inr (enc fs)"
  by (induction fs rule: pack_fields.induct) (simp_all add: field_ok_def pack_be_def)

lemma pack_fields_Inl: "\<not> list_all field_ok fs \<Longrightarrow> pack_fields fs = Inl StructError"
  by (induction fs rule: pack_fields.induct) (auto simp: field_ok_def pack_be_def pack_fields_ok)

lemma pack_into_front:
  "list_all field_ok fs \<Longrightarrow> length (enc fs) \<le> length frame \<Longrightarrow>
    pack_into fs frame 0 = Inr (enc fs @ drop (length (enc fs)) frame)"
  by (simp add: pack_into_def pack_fields_ok slice_assign_def)

lemma pack_into_at:
  "field_ok (k, v) \<Longrightarrow> length xs = off \<Longrightarrow> length ys = k \<Longrightarrow>
    pack_into [(k, v)] (xs @ ys @ zs) off = Inr (xs @ be_bytes k v @ zs)"
  by (simp add: pack_into_def field_ok_def pack_be_def slice_assign_def)

lemma mv_assign_at:
  "length xs = off \<Longrightarrow> length ys = length data \<Longrightarrow> mv_assign (xs @ ys @ zs) off data = Inr (xs @ data @ zs)"
  by (simp add: mv_assign_def slice_assign_def)

text \<open>Reading a field back.\<close>

lemma unpack_enc:
  "field_ok (k, v) \<Longrightarrow> off = sum_list (map fst pre) \<Longrightarrow>
    unpack_be k (enc pre @ be_bytes k v @ zs) off = Inr v"
  by (rule unpack_packed) (simp_all add: field_ok_def length_enc)

lemma byte_unpack: "byte_at frame i = Inr v \<longleftrightarrow> unpack_be 1 frame i = Inr v"
proof (cases "i < length frame")
  case True
  have "take 1 (drop i frame) = [frame ! i]" using True by (simp add: take_Suc_conv_app_nth)
  then show ?thesis using True by (simp add: byte_at_def unpack_be_def slice_def be_val_def)
qed (simp add: byte_at_def unpack_be_def)

lemma byte_enc:
  "field_ok (1, v) \<Longrightarrow> off = sum_list (map fst pre) \<Longrightarrow> byte_at (enc pre @ be_bytes 1 v @ zs) off = Inr v"
  unfolding byte_unpack by (rule unpack_enc)

lemma be_bytes_2: "be_bytes 2 c = be16 c"
  by (simp add: be16_def eval_nat_numeral)

lemma inet_csum_range: "0 \<le> inet_csum_little data s \<and> inet_csum_little data s < 65536"
proof -
  have "x AND 0xFFFF = x mod 65536" for x :: int
  proof -
    have "x AND 0xFFFF = take_bit 16 x" by (simp add: take_bit_eq_mask mask_eq_exp_minus_1)
    then show ?thesis by (simp add: take_bit_eq_mod)
  qed
  then show ?thesis by (simp add: inet_csum_little_def Let_def)
qed

lemma csum_field_ok: "field_ok (2, inet_csum_little data s)"
  using inet_csum_range [of data s] by (simp add: field_ok_def)

text \<open>The checksum over a zero placeholder makes the frame verify, also without trailing zeros.\<close>

lemma csum_verifies:
  assumes "even (length pre)" "4 dvd length ph"
  shows "inet_csum_little (pre @ be_bytes 2 (inet_csum_little (pre @ be_bytes 2 0 @ post @ replicate k 0)
      (cast_sum le_val 4 ph)) @ post) (cast_sum le_val 4 ph) = 0"
proof -
  have z: "be_bytes 2 0 = [0, 0 :: byte]" by (simp add: eval_nat_numeral)
  have "inet_csum_little (pre @ be_bytes 2 0 @ post @ replicate k 0) (cast_sum le_val 4 ph) =
      inet_csum_little (pre @ [0, 0] @ post) (cast_sum le_val 4 ph)"
    using be16_sum_zeros [of "ph @ pre @ [0, 0] @ post" k] assms(2)
    by (simp add: z csum_little_phdr rfc1071_def)
  then show ?thesis
    using assms rfc1071_insert [of "ph @ pre" post]
    by (simp add: be_bytes_2 csum_little_phdr dvd_trans [of 2 4])
qed

end
