(* ===== verification/Transport.thy ===== *)
theory Transport
  imports Wire
begin

text \<open>
  The builders and parsers of the transport protocols: \<^verbatim>\<open>udp/builder.py\<close>, \<^verbatim>\<open>udp/parser.py\<close>,
  \<^verbatim>\<open>icmp/builder.py\<close>, \<^verbatim>\<open>icmp/parser.py\<close>, \<^verbatim>\<open>raw/builder.py\<close> and \<^verbatim>\<open>tcp/builder.py\<close> (the TCP parser is in
  theory \<open>Tcp_Types\<close>). A builder writes into the frame it is given, whose bytes beyond the packet
  are zero. \<open>phsum\<close> is the sum of the pseudo header in native words; the host is little-endian.
  Trackers and the strings for the log are not modelled.
\<close>

section \<open>UDP\<close>

definition UDP_HEADER_LEN :: nat where "UDP_HEADER_LEN = 8"

record udp_builder =
  ub_src :: int
  ub_dst :: int
  ub_data :: bytes

definition udp_len :: "udp_builder \<Rightarrow> nat" where
  "udp_len u = length (ub_data u) + UDP_HEADER_LEN"

definition udp_build :: "udp_builder \<Rightarrow> nat \<Rightarrow> bytes \<Rightarrow> bytes result" where
  "udp_build u phsum frame =
     bind_r (pack_into [(2, ub_src u), (2, ub_dst u), (2, int (udp_len u)), (2, 0)] frame 0) (\<lambda>f1.
     bind_r (pack_str_into (length (ub_data u)) (ub_data u) f1 8) (\<lambda>f2.
       pack_into [(2, inet_csum_little f2 phsum)] f2 6))"

definition udp_to_bytes :: "udp_builder \<Rightarrow> nat \<Rightarrow> bytes result" where
  "udp_to_bytes u ps_hdr_sum = udp_build u ps_hdr_sum (replicate (udp_len u) 0)"

text \<open>Note that \<^verbatim>\<open>len(packet_rx.udp)\<close> is the length of the header.\<close>

record udp_hdr =
  uh_frame :: bytes
  uh_src :: int
  uh_dst :: int
  uh_len :: int
  uh_chksum :: int

definition udp_parse :: "bytes \<Rightarrow> udp_hdr result" where
  "udp_parse frame =
     bind_r (unpack_be 2 frame 0) (\<lambda>s.
     bind_r (unpack_be 2 frame 2) (\<lambda>d.
     bind_r (unpack_be 2 frame 4) (\<lambda>l.
     bind_r (unpack_be 2 frame 6) (\<lambda>c.
       Inr \<lparr>uh_frame = frame, uh_src = s, uh_dst = d, uh_len = l, uh_chksum = c\<rparr>))))"

definition uh_data :: "udp_hdr \<Rightarrow> bytes" where
  "uh_data u = drop UDP_HEADER_LEN (uh_frame u)"

section \<open>ICMP\<close>

definition ICM_HEADER_LEN :: nat where "ICM_HEADER_LEN = 8"
definition DESTINATION_UNREACHABLE :: int where "DESTINATION_UNREACHABLE = 3"
definition TIME_EXCEEDED :: int where "TIME_EXCEEDED = 11"
definition ECHO_REQUEST :: int where "ECHO_REQUEST = 8"
definition ECHO_REPLY :: int where "ECHO_REPLY = 0"
definition PROTOCOL_UNREACHABLE :: int where "PROTOCOL_UNREACHABLE = 2"
definition PORT_UNREACHABLE :: int where "PORT_UNREACHABLE = 3"
definition TTL_EXCEEDED :: int where "TTL_EXCEEDED = 0"
definition REASSEMBLY_TIME_EXCEEDED :: int where "REASSEMBLY_TIME_EXCEEDED = 1"
definition ECHO_REQ_REP :: int where "ECHO_REQ_REP = 0"

text \<open>\<open>None\<close> is Python's \<^verbatim>\<open>None\<close>: packing it raises \<^verbatim>\<open>struct.error\<close>.\<close>

record icmp_builder =
  ib_type :: int
  ib_code :: int
  ib_data :: bytes
  ib_echo_id :: "int option"
  ib_echo_seq :: "int option"

definition icmp_len :: "icmp_builder \<Rightarrow> nat" where
  "icmp_len b = length (ib_data b) + 8"

definition icmp_finish :: "icmp_builder \<Rightarrow> bytes \<Rightarrow> bytes result" where
  "icmp_finish b f1 =
     bind_r (mv_assign f1 8 (ib_data b)) (\<lambda>f2. pack_into [(2, inet_csum_little f2 0)] f2 2)"

definition icmp_build :: "icmp_builder \<Rightarrow> bytes \<Rightarrow> bytes result" where
  "icmp_build b frame =
     (if ib_type b \<in> {DESTINATION_UNREACHABLE, TIME_EXCEEDED} then
        bind_r (pack_into [(1, ib_type b), (1, ib_code b), (2, 0), (4, 0)] frame 0) (icmp_finish b)
      else if ib_type b \<in> {ECHO_REQUEST, ECHO_REPLY} then
        (case (ib_echo_id b, ib_echo_seq b) of
           (Some i, Some s) \<Rightarrow>
             bind_r (pack_into [(1, ib_type b), (1, ib_code b), (2, 0), (2, i), (2, s)] frame 0) (icmp_finish b)
         | _ \<Rightarrow> Inl StructError)
      else Inr frame)"

record icmp_hdr =
  ih_frame :: bytes
  ih_type :: int
  ih_code :: int
  ih_echo_id :: int
  ih_echo_seq :: int

definition icmp_parse :: "bytes \<Rightarrow> icmp_hdr result" where
  "icmp_parse frame =
     bind_r (byte_at frame 0) (\<lambda>t.
     bind_r (byte_at frame 1) (\<lambda>c.
     bind_r (unpack_be 2 frame 4) (\<lambda>i.
     bind_r (unpack_be 2 frame 6) (\<lambda>s.
       Inr \<lparr>ih_frame = frame, ih_type = t, ih_code = c, ih_echo_id = i, ih_echo_seq = s\<rparr>))))"

definition ih_data :: "icmp_hdr \<Rightarrow> bytes" where
  "ih_data h = drop ICM_HEADER_LEN (ih_frame h)"

section \<open>Raw\<close>

definition raw_build :: "bytes \<Rightarrow> bytes \<Rightarrow> bytes result" where
  "raw_build data frame = mv_assign frame 0 data"

section \<open>TCP\<close>

definition MSS :: int where "MSS = 1460"
definition TCP_DOFF :: nat where "TCP_DOFF = 5"

datatype tcp_opt = TCPOptEOL nat | TCPOptNOP | TCPOptMSS

fun tcp_opt_len :: "tcp_opt \<Rightarrow> nat" where
  "tcp_opt_len (TCPOptEOL count) = count"
| "tcp_opt_len TCPOptNOP = 1"
| "tcp_opt_len TCPOptMSS = 4"

definition tcp_opts_len :: "tcp_opt list \<Rightarrow> nat" where
  "tcp_opts_len opts = sum_list (map tcp_opt_len opts)"

text \<open>\<^verbatim>\<open>pack_into(f'! {count}B', frame, offset, 0)\<close> has one argument for \<^verbatim>\<open>count\<close> fields.\<close>

fun tcp_opt_build :: "tcp_opt \<Rightarrow> bytes \<Rightarrow> nat \<Rightarrow> bytes result" where
  "tcp_opt_build (TCPOptEOL count) frame offset =
     (if count = 1 then pack_into [(1, 0)] frame offset else Inl StructError)"
| "tcp_opt_build TCPOptNOP frame offset = pack_into [(1, 1)] frame offset"
| "tcp_opt_build TCPOptMSS frame offset = pack_into [(1, 2), (1, 4), (2, MSS)] frame offset"

definition tcp_opt_padding :: "tcp_opt list \<Rightarrow> tcp_opt list" where
  "tcp_opt_padding opts =
     (let pad = nat ((- int (tcp_opts_len opts)) mod 4)
      in if pad \<noteq> 0 then opts @ [TCPOptEOL pad] else opts)"

definition tcp_opt_builder :: "tcp_opt list \<Rightarrow> tcp_opt list result" where
  "tcp_opt_builder opts = (if tcp_opts_len opts > 40 then Inl ValueError else Inr (tcp_opt_padding opts))"

fun tcp_opts_build :: "tcp_opt list \<Rightarrow> bytes \<Rightarrow> nat \<Rightarrow> bytes result" where
  "tcp_opts_build [] frame offset = Inr frame"
| "tcp_opts_build (opt # opts) frame offset =
     bind_r (tcp_opt_build opt frame offset) (\<lambda>f. tcp_opts_build opts f (offset + tcp_opt_len opt))"

text \<open>
  \<^verbatim>\<open>TCPBuilder\<close>. \<open>tb_data\<close> are the bytes that \<^verbatim>\<open>data\<close> shows when the builder is made. The source keeps a
  \<^verbatim>\<open>memoryview\<close> of the send ring there and copies it in \<^verbatim>\<open>build\<close>, in the sending thread; the two differ where the ring has been
  written at that place in between.
\<close>

record tcp_builder =
  tb_src :: int
  tb_dst :: int
  tb_seq :: int
  tb_ack_seq :: int
  tb_cwr :: bool
  tb_ece :: bool
  tb_urg :: bool
  tb_ack :: bool
  tb_psh :: bool
  tb_rst :: bool
  tb_syn :: bool
  tb_fin :: bool
  tb_window :: int
  tb_urg_ptr :: int
  tb_options :: "tcp_opt list"
  tb_data :: bytes

definition tcp_doff :: "tcp_builder \<Rightarrow> nat" where
  "tcp_doff b = tcp_opts_len (tb_options b) div 4 + TCP_DOFF"

definition tcp_len :: "tcp_builder \<Rightarrow> nat" where
  "tcp_len b = tcp_doff b * 4 + length (tb_data b)"

definition tcp_flag_word :: "tcp_builder \<Rightarrow> int" where
  "tcp_flag_word b = push_bit 12 (int (tcp_doff b)) OR push_bit 7 (of_bool (tb_cwr b)) OR
     push_bit 6 (of_bool (tb_ece b)) OR push_bit 5 (of_bool (tb_urg b)) OR push_bit 4 (of_bool (tb_ack b)) OR
     push_bit 3 (of_bool (tb_psh b)) OR push_bit 2 (of_bool (tb_rst b)) OR push_bit 1 (of_bool (tb_syn b)) OR
     of_bool (tb_fin b)"

definition tcp_build :: "tcp_builder \<Rightarrow> nat \<Rightarrow> bytes \<Rightarrow> bytes result" where
  "tcp_build b phsum frame =
     bind_r (pack_into [(2, tb_src b), (2, tb_dst b), (4, tb_seq b), (4, tb_ack_seq b), (2, tcp_flag_word b),
                        (2, tb_window b), (2, 0), (2, tb_urg_ptr b)] frame 0) (\<lambda>f1.
     bind_r (if tcp_opts_len (tb_options b) \<noteq> 0 then tcp_opts_build (tb_options b) f1 20 else Inr f1) (\<lambda>f2.
     bind_r (mv_assign f2 (20 + tcp_opts_len (tb_options b)) (tb_data b)) (\<lambda>f3.
       pack_into [(2, inet_csum_little f3 phsum)] f3 16)))"

definition tcp_to_bytes :: "tcp_builder \<Rightarrow> nat \<Rightarrow> bytes result" where
  "tcp_to_bytes b ps_hdr_sum = tcp_build b ps_hdr_sum (replicate (tcp_len b) 0)"

section \<open>A payload of IP\<close>

datatype payload = PUdp udp_builder | PIcmp icmp_builder | PRaw bytes | PTcp tcp_builder

fun payload_len :: "payload \<Rightarrow> nat" where
  "payload_len (PUdp u) = udp_len u"
| "payload_len (PIcmp b) = icmp_len b"
| "payload_len (PRaw d) = length d"
| "payload_len (PTcp b) = tcp_len b"

text \<open>
  \<^verbatim>\<open>payload.build(frame=..., phsum=...)\<close> and, for \<open>None\<close>, \<^verbatim>\<open>payload.build(frame=...)\<close>: UDP and TCP
  require the argument, the raw builder has no parameter of that name.
\<close>

fun payload_build :: "payload \<Rightarrow> nat option \<Rightarrow> bytes \<Rightarrow> bytes result" where
  "payload_build (PUdp u) (Some s) frame = udp_build u s frame"
| "payload_build (PTcp b) (Some s) frame = tcp_build b s frame"
| "payload_build (PIcmp b) _ frame = icmp_build b frame"
| "payload_build (PRaw d) None frame = raw_build d frame"
| "payload_build _ _ frame = Inl TypeError"

text \<open>\<^verbatim>\<open>payload.to_bytes(ps_hdr_sum=...)\<close>\<close>

fun payload_to_bytes :: "payload \<Rightarrow> nat \<Rightarrow> bytes result" where
  "payload_to_bytes (PUdp u) s = udp_to_bytes u s"
| "payload_to_bytes (PTcp b) s = tcp_to_bytes b s"
| "payload_to_bytes (PIcmp b) s = Inl AttributeError"
| "payload_to_bytes (PRaw d) s = Inl TypeError"

end
