(* ===== verification/Tcp_Seq.thy ===== *)
theory Tcp_Seq
  imports Prelude
begin

text \<open>
  TCP sequence numbers (\<^verbatim>\<open>tipy/protocols/tcp/tcp_seq.py\<close>): Python integers, compared through
  their difference masked to 32 bits. The lemmas relate the comparisons to the C macros the
  source cites and to distances on the circle of sequence numbers.
\<close>

section \<open>Definitions\<close>

definition seq_lt :: "int \<Rightarrow> int \<Rightarrow> bool" where
  "seq_lt a b \<longleftrightarrow> mask32 (a - b) > 0x7FFFFFFF"

definition seq_leq :: "int \<Rightarrow> int \<Rightarrow> bool" where
  "seq_leq a b \<longleftrightarrow> a = b \<or> seq_lt a b"

definition seq_gt :: "int \<Rightarrow> int \<Rightarrow> bool" where
  "seq_gt a b \<longleftrightarrow> a \<noteq> b \<and> mask32 (a - b) < 0x80000000"

definition seq_geq :: "int \<Rightarrow> int \<Rightarrow> bool" where
  "seq_geq a b \<longleftrightarrow> a = b \<or> seq_gt a b"

definition seq_diff :: "int \<Rightarrow> int \<Rightarrow> int" where
  "seq_diff a b = mask32 (a - b)"

text \<open>The range of a sequence number taken from a header or masked by the code.\<close>

definition seq_num :: "int \<Rightarrow> bool" where
  "seq_num a \<longleftrightarrow> 0 \<le> a \<and> a < 4294967296"

section \<open>Distances\<close>

lemma seq_num_mask [simp]: "seq_num (mask32 x)"
  by (simp add: seq_num_def)

lemma seq_diff_mod: "seq_diff a b = (a - b) mod 4294967296"
  by (simp add: seq_diff_def mask32_mod)

lemma seq_diff_range [simp]: "0 \<le> seq_diff a b" "seq_diff a b < 4294967296"
  by (simp_all add: seq_diff_def)

lemma seq_diff_self [simp]: "seq_diff a a = 0"
  by (simp add: seq_diff_def)

lemma seq_diff_zero_iff: "seq_num a \<Longrightarrow> seq_num b \<Longrightarrow> seq_diff a b = 0 \<longleftrightarrow> a = b"
proof -
  assume r: "seq_num a" "seq_num b"
  have "a = b" if "(a - b) mod 4294967296 = 0"
  proof -
    have "a mod 4294967296 = b mod 4294967296" using that by (simp add: mod_eq_dvd_iff dvd_eq_mod_eq_0)
    then show ?thesis using r by (simp add: seq_num_def)
  qed
  then show ?thesis by (auto simp: seq_diff_mod)
qed

lemma seq_lt_diff: "seq_lt a b \<longleftrightarrow> 2147483648 \<le> seq_diff a b"
  by (auto simp: seq_lt_def seq_diff_def)

lemma seq_gt_diff: "seq_gt a b \<longleftrightarrow> a \<noteq> b \<and> seq_diff a b < 2147483648"
  by (simp add: seq_gt_def seq_diff_def)

text \<open>Distances from a common base \<open>u\<close>.\<close>

lemma seq_diff_base:
  "seq_diff a b =
     (if seq_diff b u \<le> seq_diff a u then seq_diff a u - seq_diff b u
      else seq_diff a u - seq_diff b u + 4294967296)"
proof -
  have "seq_diff a b = (seq_diff a u - seq_diff b u) mod 4294967296"
    by (simp add: seq_diff_mod mod_simps)
  also have "\<dots> = (if seq_diff b u \<le> seq_diff a u then seq_diff a u - seq_diff b u
      else seq_diff a u - seq_diff b u + 4294967296)"
  proof (cases "seq_diff b u \<le> seq_diff a u")
    case True
    have "seq_diff a u - seq_diff b u < 4294967296"
      using seq_diff_range [of a u] seq_diff_range [of b u] by linarith
    then show ?thesis using True by (simp add: mod_pos_pos_trivial)
  next
    case False
    have "(seq_diff a u - seq_diff b u) mod 4294967296 =
        (seq_diff a u - seq_diff b u + 4294967296) mod 4294967296" by (simp only: mod_add_self2)
    also have "\<dots> = seq_diff a u - seq_diff b u + 4294967296"
      using False seq_diff_range [of a u] seq_diff_range [of b u]
      by (intro mod_pos_pos_trivial) linarith+
    finally show ?thesis using False by simp
  qed
  finally show ?thesis .
qed

lemma seq_diff_mask [simp]: "seq_diff (mask32 a) b = seq_diff a b" "seq_diff a (mask32 b) = seq_diff a b"
  by (simp_all add: seq_diff_mod mask32_mod mod_simps)

lemma seq_diff_add: "0 \<le> k \<Longrightarrow> k < 4294967296 \<Longrightarrow> seq_diff (mask32 (a + k)) a = k"
  by (simp add: seq_diff_mod mask32_mod mod_simps)

lemma mask32_id: "seq_num a \<Longrightarrow> mask32 a = a"
  by (simp add: mask32_mod seq_num_def)

lemma mask32_add_diff: "seq_num a \<Longrightarrow> mask32 (b + seq_diff a b) = a"
  by (simp add: seq_diff_mod mask32_mod mod_simps seq_num_def)

text \<open>
  An acknowledgment is in \<open>(una, nxt]\<close>: what \<^verbatim>\<open>not (seq_leq(a, una) or seq_gt(a, nxt))\<close>
  decides while less than half of the sequence space is in flight.
\<close>

lemma seq_window_open:
  assumes "seq_num a" "seq_num una" "seq_num nxt" and "seq_diff nxt una < 2147483648"
  shows "\<not> (seq_leq a una \<or> seq_gt a nxt) \<longleftrightarrow>
           0 < seq_diff a una \<and> seq_diff a una \<le> seq_diff nxt una"
proof -
  have z: "a = una \<longleftrightarrow> seq_diff a una = 0" "a = nxt \<longleftrightarrow> seq_diff a nxt = 0"
    using assms seq_diff_zero_iff by simp_all
  note base = seq_diff_base [of a nxt una]
  show ?thesis
    unfolding seq_leq_def seq_lt_diff seq_gt_diff z
    using base assms(4) seq_diff_range [of a una] seq_diff_range [of nxt una]
    by (auto split: if_splits simp del: seq_diff_range)
qed

text \<open>A sequence number is in the open window \<open>[nxt, adv)\<close>.\<close>

lemma seq_window_closed:
  assumes "seq_num a" "seq_num nxt" and "seq_diff adv nxt < 2147483648" and "0 < seq_diff adv nxt"
  shows "seq_leq nxt a \<and> seq_lt a adv \<longleftrightarrow> seq_diff a nxt < seq_diff adv nxt"
proof -
  have z: "nxt = a \<longleftrightarrow> seq_diff a nxt = 0" using assms seq_diff_zero_iff by auto
  note base = seq_diff_base [of a adv nxt] seq_diff_base [of nxt a nxt]
  show ?thesis
    unfolding seq_leq_def seq_lt_diff z
    using base assms(3,4) seq_diff_range [of a nxt] seq_diff_range [of adv nxt]
    by (auto split: if_splits simp del: seq_diff_range)
qed

section \<open>Properties\<close>

lemma signed32: "sint (word_of_int x :: 32 word) = (if x mod 4294967296 < 2147483648
    then x mod 4294967296 else x mod 4294967296 - 4294967296)"
proof -
  let ?d = "x mod 4294967296"
  have "sint (word_of_int x :: 32 word) = signed_take_bit 31 x" by (simp add: sint_sbintrunc')
  also have "\<dots> = (x + 2147483648) mod 4294967296 - 2147483648"
    by (simp add: signed_take_bit_eq_take_bit_shift take_bit_eq_mod)
  also have "(x + 2147483648) mod 4294967296 = (?d + 2147483648) mod 4294967296"
    by (simp add: mod_simps)
  also have "\<dots> = (if ?d < 2147483648 then ?d + 2147483648 else ?d - 2147483648)"
  proof (cases "?d < 2147483648")
    case True
    then show ?thesis by (simp add: mod_pos_pos_trivial)
  next
    case False
    have "(?d + 2147483648) mod 4294967296 = (?d - 2147483648 + 4294967296) mod 4294967296"
      by (rule arg_cong [where f = "\<lambda>y. y mod 4294967296"]) simp
    also have "\<dots> = (?d - 2147483648) mod 4294967296" by (simp only: mod_add_self2)
    also have "\<dots> = ?d - 2147483648"
      using False pos_mod_bound [of 4294967296 x] by (intro mod_pos_pos_trivial) linarith+
    finally show ?thesis using False by simp
  qed
  finally show ?thesis by (simp split: if_splits)
qed

text \<open>On sequence numbers of 32 bits the four comparisons are the signed tests of the BSD
  macros quoted in the source: \<^verbatim>\<open>(int)(a-b) < 0\<close>, \<^verbatim>\<open><= 0\<close>, \<^verbatim>\<open>> 0\<close> and \<^verbatim>\<open>>= 0\<close> on the 32-bit
  difference.\<close>

lemma seq_macros:
  assumes "seq_num a" "seq_num b"
  shows "(seq_lt a b \<longleftrightarrow> sint (word_of_int (a - b) :: 32 word) < 0) \<and>
    (seq_leq a b \<longleftrightarrow> sint (word_of_int (a - b) :: 32 word) \<le> 0) \<and>
    (seq_gt a b \<longleftrightarrow> sint (word_of_int (a - b) :: 32 word) > 0) \<and>
    (seq_geq a b \<longleftrightarrow> sint (word_of_int (a - b) :: 32 word) \<ge> 0)"
proof -
  have z: "a = b \<longleftrightarrow> seq_diff a b = 0" using assms by (simp add: seq_diff_zero_iff)
  have s: "sint (word_of_int (a - b) :: 32 word) =
    (if seq_diff a b < 2147483648 then seq_diff a b else seq_diff a b - 4294967296)"
    by (simp only: signed32 seq_diff_mod)
  show ?thesis
    unfolding s seq_leq_def seq_lt_diff seq_geq_def seq_gt_diff z
    using seq_diff_range [of a b] by (auto split: if_splits simp del: seq_diff_range)
qed

lemma seq_macros_witness:
  "seq_num 4294967290 \<and> seq_num 5 \<and>
   seq_lt 4294967290 5 = (sint (word_of_int (4294967290 - 5) :: 32 word) < 0) \<and> seq_lt 4294967290 5"
  using seq_macros [of 4294967290 5] by (simp add: seq_num_def seq_lt_def)

text \<open>Inside a window smaller than half the sequence space the comparisons are the order of
  the distances from the window's start, also where the numbers wrap around: a number advanced
  further compares greater, and \<^verbatim>\<open>seq_diff\<close> returns the distance.\<close>

lemma seq_order_in_window:
  assumes "0 \<le> i" "i < 2147483648" "0 \<le> j" "j < 2147483648"
  shows "(seq_lt (mask32 (u + i)) (mask32 (u + j)) \<longleftrightarrow> i < j) \<and>
    (seq_leq (mask32 (u + i)) (mask32 (u + j)) \<longleftrightarrow> i \<le> j) \<and>
    (seq_gt (mask32 (u + i)) (mask32 (u + j)) \<longleftrightarrow> j < i) \<and>
    (seq_geq (mask32 (u + i)) (mask32 (u + j)) \<longleftrightarrow> j \<le> i) \<and>
    (i \<le> j \<longrightarrow> seq_diff (mask32 (u + j)) (mask32 (u + i)) = j - i)"
proof -
  define x where "x = mask32 (u + i)"
  define y where "y = mask32 (u + j)"
  have d: "seq_diff x u = i" "seq_diff y u = j"
    unfolding x_def y_def using assms by (simp_all only: seq_diff_add)
  have z: "x = y \<longleftrightarrow> seq_diff x y = 0"
    by (rule seq_diff_zero_iff [symmetric]) (simp_all add: x_def y_def)
  note base = seq_diff_base [of x y u] seq_diff_base [of y x u]
  show ?thesis
    unfolding x_def [symmetric] y_def [symmetric] seq_leq_def seq_lt_diff seq_geq_def seq_gt_diff z
    using base assms(1-4) unfolding d by (auto split: if_splits)
qed

lemma seq_order_in_window_witness:
  "seq_lt (mask32 (4294967295 + 0)) (mask32 (4294967295 + 10)) \<and> mask32 (4294967295 + 10) = 9 \<and>
   seq_diff (mask32 (4294967295 + 10)) (mask32 (4294967295 + 0)) = 10"
  using seq_order_in_window [of 0 10 4294967295] by simp

end
