(* ===== verification/Tcp_Types.thy ===== *)
theory Tcp_Types
  imports Pack Tcp_Seq
begin

text \<open>
  The constants of \<^verbatim>\<open>tipy/protocols/tcp/tcp.py\<close> and the segment parser \<^verbatim>\<open>tipy/protocols/tcp/parser.py\<close>. A parsed segment is a record: the handlers of
  the state machine overwrite its \<^verbatim>\<open>seq\<close>, \<^verbatim>\<open>dlen\<close> and \<^verbatim>\<open>flags\<close>, while \<^verbatim>\<open>data\<close> stays the slice of
  the frame it was.
\<close>

section \<open>States and events\<close>

datatype tcp_state = LISTEN | SYN_SENT | SYN_RECV | ESTAB | FIN_WAIT_1 | FIN_WAIT_2
  | CLOSE_WAIT | CLOSING | LAST_ACK | TIME_WAIT | CLOSED

datatype event_type = RX_SEGMENT | CONNECT | SEND | RTX

definition NON_RECEIVABLE_STATES :: "tcp_state set" where
  "NON_RECEIVABLE_STATES = {CLOSE_WAIT, LAST_ACK, CLOSED, CLOSING, TIME_WAIT}"

definition RECEIVABLE_STATES :: "tcp_state set" where
  "RECEIVABLE_STATES = {ESTAB, FIN_WAIT_1, FIN_WAIT_2}"

section \<open>Segments\<close>

record tcp_seg =
  sg_frame :: bytes
  sg_src :: int
  sg_dst :: int
  sg_seq :: int
  sg_ack_seq :: int
  sg_doff :: int
  sg_flags :: int
  sg_window :: int
  sg_dlen :: int

definition sg_ack :: "tcp_seg \<Rightarrow> bool" where "sg_ack p \<longleftrightarrow> sg_flags p AND 0x10 \<noteq> 0"
definition sg_psh :: "tcp_seg \<Rightarrow> bool" where "sg_psh p \<longleftrightarrow> sg_flags p AND 0x08 \<noteq> 0"
definition sg_rst :: "tcp_seg \<Rightarrow> bool" where "sg_rst p \<longleftrightarrow> sg_flags p AND 0x04 \<noteq> 0"
definition sg_syn :: "tcp_seg \<Rightarrow> bool" where "sg_syn p \<longleftrightarrow> sg_flags p AND 0x02 \<noteq> 0"
definition sg_fin :: "tcp_seg \<Rightarrow> bool" where "sg_fin p \<longleftrightarrow> sg_flags p AND 0x01 \<noteq> 0"

text \<open>The other flags of the header and the two fields that nothing in the stack reads.\<close>

definition sg_cwr :: "tcp_seg \<Rightarrow> bool" where "sg_cwr p \<longleftrightarrow> sg_flags p AND 0x80 \<noteq> 0"
definition sg_ece :: "tcp_seg \<Rightarrow> bool" where "sg_ece p \<longleftrightarrow> sg_flags p AND 0x40 \<noteq> 0"
definition sg_urg :: "tcp_seg \<Rightarrow> bool" where "sg_urg p \<longleftrightarrow> sg_flags p AND 0x20 \<noteq> 0"

definition sg_checksum :: "tcp_seg \<Rightarrow> int result" where "sg_checksum p = unpack_be 2 (sg_frame p) 16"
definition sg_urg_ptr :: "tcp_seg \<Rightarrow> int result" where "sg_urg_ptr p = unpack_be 2 (sg_frame p) 18"

definition sg_data :: "tcp_seg \<Rightarrow> bytes" where
  "sg_data p = py_from (sg_frame p) (sg_doff p)"

text \<open>
  \<^verbatim>\<open>TCPParser\<close>: every field is read when \<^verbatim>\<open>rx_tcp\<close> logs the segment, so that the model reads
  them at once.
\<close>

definition tcp_parse :: "bytes \<Rightarrow> tcp_seg result" where
  "tcp_parse frame =
     bind_r (unpack_be 2 frame 0) (\<lambda>src.
     bind_r (unpack_be 2 frame 2) (\<lambda>dst.
     bind_r (unpack_be 4 frame 4) (\<lambda>seq.
     bind_r (unpack_be 4 frame 8) (\<lambda>ack_seq.
     bind_r (byte_at frame 12) (\<lambda>off.
     bind_r (byte_at frame 13) (\<lambda>flags.
     bind_r (unpack_be 2 frame 14) (\<lambda>window.
       let doff = drop_bit 4 off * 4
       in Inr \<lparr>sg_frame = frame, sg_src = src, sg_dst = dst, sg_seq = seq, sg_ack_seq = ack_seq,
               sg_doff = doff, sg_flags = flags, sg_window = window,
               sg_dlen = int (length frame) - doff\<rparr>)))))))"

text \<open>
  The option list: \<^verbatim>\<open>options\<close> is a dictionary whose only possible key is \<^verbatim>\<open>TCP_MSS_KIND\<close>, so that its
  value there, if any, says all of it.
\<close>

definition TCP_MSS_KIND :: int where "TCP_MSS_KIND = 2"
definition TCP_NOP_KIND :: int where "TCP_NOP_KIND = 1"
definition TCP_EOL_KIND :: int where "TCP_EOL_KIND = 0"
definition TCP_MSS_LEN :: nat where "TCP_MSS_LEN = 4"
definition TCP_NOP_LEN :: nat where "TCP_NOP_LEN = 1"

function parse_opts :: "bytes \<Rightarrow> nat \<Rightarrow> nat \<Rightarrow> int option \<Rightarrow> int option result" where
  "parse_opts frame doff ptr opts =
     (if ptr < doff then
        bind_r (byte_at frame ptr) (\<lambda>kind.
          if kind = TCP_MSS_KIND then
            bind_r (unpack_be 2 frame (ptr + 2)) (\<lambda>mss. parse_opts frame doff (ptr + TCP_MSS_LEN) (Some mss))
          else if kind = TCP_NOP_KIND then parse_opts frame doff (ptr + TCP_NOP_LEN) opts
          else if kind = TCP_EOL_KIND then Inr opts
          else parse_opts frame doff (ptr + 1) opts)
      else Inr opts)"
  by pat_completeness auto
termination
  by (relation "measure (\<lambda>(frame, doff, ptr, opts). doff - ptr)") (auto simp: TCP_MSS_LEN_def TCP_NOP_LEN_def)

declare parse_opts.simps [simp del]

definition sg_options :: "tcp_seg \<Rightarrow> int option result" where
  "sg_options p = parse_opts (sg_frame p) (nat (sg_doff p)) 20 None"

text \<open>\<^verbatim>\<open>last_seq\<close> of \<^verbatim>\<open>tcp_seq.py\<close>: the last sequence number of the segment, not reduced to 32 bits.\<close>

definition last_seq :: "tcp_seg \<Rightarrow> int" where
  "last_seq p = (of_bool (sg_syn p) + of_bool (sg_fin p) + sg_seq p + sg_dlen p) -
     of_bool (sg_syn p \<or> sg_fin p \<or> sg_dlen p \<noteq> 0)"

section \<open>Lemmas\<close>

definition seg_ok :: "tcp_seg \<Rightarrow> bool" where
  "seg_ok p \<longleftrightarrow> seq_num (sg_seq p) \<and> seq_num (sg_ack_seq p) \<and> 0 \<le> sg_window p \<and> sg_window p < 65536 \<and>
     0 \<le> sg_doff p \<and> sg_doff p < 64 \<and> 0 \<le> sg_flags p \<and> sg_flags p < 256"

lemma and_pow2_bit: "(x::int) AND 2 ^ n \<noteq> 0 \<longleftrightarrow> bit x n"
  by (simp add: and_exp_eq_0_iff_not_bit)

lemma flag_bits:
  "sg_fin p \<longleftrightarrow> bit (sg_flags p) 0" "sg_syn p \<longleftrightarrow> bit (sg_flags p) 1"
  "sg_rst p \<longleftrightarrow> bit (sg_flags p) 2" "sg_psh p \<longleftrightarrow> bit (sg_flags p) 3"
  "sg_ack p \<longleftrightarrow> bit (sg_flags p) 4" "sg_urg p \<longleftrightarrow> bit (sg_flags p) 5"
  "sg_ece p \<longleftrightarrow> bit (sg_flags p) 6" "sg_cwr p \<longleftrightarrow> bit (sg_flags p) 7"
  using and_pow2_bit [of "sg_flags p" 0] and_pow2_bit [of "sg_flags p" 1]
    and_pow2_bit [of "sg_flags p" 2] and_pow2_bit [of "sg_flags p" 3] and_pow2_bit [of "sg_flags p" 4]
    and_pow2_bit [of "sg_flags p" 5] and_pow2_bit [of "sg_flags p" 6] and_pow2_bit [of "sg_flags p" 7]
  by (simp_all add: sg_fin_def sg_syn_def sg_rst_def sg_psh_def sg_ack_def sg_urg_def sg_ece_def sg_cwr_def)

lemma tcp_parse_ok:
  assumes "tcp_parse frame = Inr p"
  shows "seg_ok p \<and> sg_frame p = frame \<and> sg_dlen p = int (length frame) - sg_doff p"
proof -
  have b: "0 \<le> v \<and> v < 256" if "byte_at frame i = Inr v" for i v
    using that uint_lt2p [of "frame ! i"] by (auto simp: byte_at_def split: if_splits)
  obtain off flags seq ack window where
    f: "unpack_be 4 frame 4 = Inr seq" "unpack_be 4 frame 8 = Inr ack" "byte_at frame 12 = Inr off"
      "byte_at frame 13 = Inr flags" "unpack_be 2 frame 14 = Inr window"
    and p: "sg_frame p = frame" "sg_seq p = seq" "sg_ack_seq p = ack" "sg_doff p = drop_bit 4 off * 4"
      "sg_flags p = flags" "sg_window p = window" "sg_dlen p = int (length frame) - drop_bit 4 off * 4"
    using assms by (auto simp: tcp_parse_def bind_r_Inr_iff Let_def)
  have "0 \<le> drop_bit 4 off" "drop_bit 4 off < 16"
    using b [OF f(3)] by (simp_all add: drop_bit_eq_div pos_imp_zdiv_nonneg_iff) presburger
  then show ?thesis
    using unpack_be_range [OF f(1)] unpack_be_range [OF f(2)] b [OF f(4)] unpack_be_range [OF f(5)]
    by (simp add: seg_ok_def seq_num_def p)
qed

text \<open>A frame of at least 20 bytes, the guard of \<^verbatim>\<open>rx_tcp\<close>, always parses.\<close>

lemma tcp_parse_total: "20 \<le> length frame \<Longrightarrow> \<exists>p. tcp_parse frame = Inr p"
  by (simp add: tcp_parse_def unpack_be_def byte_at_def Let_def)

end
