(* ===== verification/Timer.thy ===== *)
theory Timer
  imports Prelude Complex_Main
begin

text \<open>
  The timer of \<^verbatim>\<open>tipy/components/timer.py\<close>. Tasks are ordered by their due time in
  milliseconds and then by a counter; a removed task stays in the queue, marked, and is skipped
  when it comes up. The callback of a task is a value of a parameter type \<open>'c\<close>.

  \<^verbatim>\<open>heapq\<close> is the priority queue it is: the model keeps the entries \<open>(due time, counter)\<close> sorted,
  so that the head is what \<^verbatim>\<open>heappop\<close> returns. The counter identifies the task object. Due times
  are rationals, because a TCP timeout is a fraction of a second. One pass of the timer thread
  reads the clock once.
\<close>

section \<open>Definitions\<close>

record 'c timer_task =
  tt_expire_after_sec :: rat
  tt_start_time_ms :: int
  tt_call :: 'c
  tt_deleted :: bool

type_synonym entry = "rat \<times> nat"

record 'c timer =
  tm_tasks :: "entry list"
  tm_counter :: nat
  tm_store :: "nat \<Rightarrow> 'c timer_task option"

definition timer_init :: "'c timer" where
  "timer_init = \<lparr>tm_tasks = [], tm_counter = 0, tm_store = Map.empty\<rparr>"

definition timer_task_init :: "int \<Rightarrow> rat \<Rightarrow> 'c \<Rightarrow> 'c timer_task" where
  "timer_task_init now_ns expire_after call =
     \<lparr>tt_expire_after_sec = expire_after, tt_start_time_ms = now_ns div 1000000,
      tt_call = call, tt_deleted = False\<rparr>"

definition execute_at_ms :: "'c timer_task \<Rightarrow> rat" where
  "execute_at_ms t = of_int (tt_start_time_ms t) + tt_expire_after_sec t * 1000"

definition entry_le :: "entry \<Rightarrow> entry \<Rightarrow> bool" where
  "entry_le a b \<longleftrightarrow> fst a < fst b \<or> fst a = fst b \<and> snd a \<le> snd b"

fun heappush :: "entry \<Rightarrow> entry list \<Rightarrow> entry list" where
  "heappush e [] = [e]"
| "heappush e (x # xs) = (if entry_le e x then e # x # xs else x # heappush e xs)"

definition schedule_timer :: "int \<Rightarrow> rat \<Rightarrow> 'c \<Rightarrow> 'c timer \<Rightarrow> nat \<times> 'c timer" where
  "schedule_timer now_ns expire_after call tm =
     (let task = timer_task_init now_ns expire_after call; k = tm_counter tm
      in (k, tm\<lparr>tm_tasks := heappush (execute_at_ms task, k) (tm_tasks tm),
                tm_counter := Suc k,
                tm_store := (tm_store tm)(k \<mapsto> task)\<rparr>))"

definition timer_remove :: "nat \<Rightarrow> 'c timer \<Rightarrow> 'c timer" where
  "timer_remove k tm =
     tm\<lparr>tm_store := (tm_store tm)(k := map_option (tt_deleted_update (\<lambda>_. True)) (tm_store tm k))\<rparr>"

text \<open>The inner loop of \<^verbatim>\<open>_timer_loop\<close>: pop every entry that is due.\<close>

fun pop_ready :: "rat \<Rightarrow> entry list \<Rightarrow> nat list \<times> entry list" where
  "pop_ready now [] = ([], [])"
| "pop_ready now (e # es) =
     (if fst e \<le> now then let (r, rest) = pop_ready now es in (snd e # r, rest) else ([], e # es))"

text \<open>\<^verbatim>\<open>TimerTask.execute\<close>: the callback that runs, if any.\<close>

definition task_execute :: "'c timer \<Rightarrow> nat \<Rightarrow> 'c option" where
  "task_execute tm k =
     (case tm_store tm k of None \<Rightarrow> None
      | Some t \<Rightarrow> if tt_deleted t then None else Some (tt_call t))"

definition timer_pass :: "int \<Rightarrow> 'c timer \<Rightarrow> nat list \<times> 'c timer" where
  "timer_pass now_ns tm =
     (let (ready, rest) = pop_ready (of_int (now_ns div 1000000)) (tm_tasks tm)
      in (ready, tm\<lparr>tm_tasks := rest\<rparr>))"

section \<open>Invariant\<close>

definition timer_inv :: "'c timer \<Rightarrow> bool" where
  "timer_inv tm \<longleftrightarrow> sorted_wrt entry_le (tm_tasks tm) \<and> distinct (map snd (tm_tasks tm)) \<and>
     (\<forall>(d, k)\<in>set (tm_tasks tm). k < tm_counter tm \<and>
        (\<exists>t. tm_store tm k = Some t \<and> execute_at_ms t = d))"

lemma entry_le_total: "\<not> entry_le a b \<Longrightarrow> entry_le b a"
  by (auto simp: entry_le_def)

lemma entry_le_trans: "entry_le a b \<Longrightarrow> entry_le b c \<Longrightarrow> entry_le a c"
  by (auto simp: entry_le_def)

lemma set_heappush [simp]: "set (heappush e xs) = insert e (set xs)"
  by (induction xs) auto

lemma sorted_heappush: "sorted_wrt entry_le xs \<Longrightarrow> sorted_wrt entry_le (heappush e xs)"
  by (induction xs) (auto intro: entry_le_trans dest: entry_le_total)

lemma distinct_heappush:
  "distinct (map snd (heappush e xs)) \<longleftrightarrow> distinct (map snd xs) \<and> snd e \<notin> snd ` set xs"
  by (induction xs) (auto simp: image_iff)

lemma timer_inv_init [simp]: "timer_inv timer_init"
  by (simp add: timer_inv_def timer_init_def)

lemma timer_inv_schedule:
  assumes inv: "timer_inv tm" and s: "schedule_timer now e c tm = (k, tm')"
  shows "timer_inv tm'" "k = tm_counter tm" "task_execute tm' k = Some c"
    "tm_counter tm' = Suc (tm_counter tm)"
proof -
  have fresh: "tm_counter tm \<notin> snd ` set (tm_tasks tm)"
    using inv by (force simp: timer_inv_def)
  show "timer_inv tm'" "k = tm_counter tm" "task_execute tm' k = Some c"
    "tm_counter tm' = Suc (tm_counter tm)"
    using s inv fresh less_SucI
    by (fastforce simp: schedule_timer_def Let_def timer_inv_def sorted_heappush distinct_heappush
        task_execute_def timer_task_init_def)+
qed

lemma timer_inv_remove [simp]: "timer_inv tm \<Longrightarrow> timer_inv (timer_remove k tm)"
  by (fastforce simp: timer_inv_def timer_remove_def execute_at_ms_def)

lemma task_execute_remove [simp]:
  "task_execute (timer_remove k tm) j = (if j = k then None else task_execute tm j)"
  by (auto simp: task_execute_def timer_remove_def split: option.splits)

lemma pop_ready_filter:
  "sorted_wrt entry_le es \<Longrightarrow>
     pop_ready now es = (map snd (filter (\<lambda>e. fst e \<le> now) es), filter (\<lambda>e. \<not> fst e \<le> now) es)"
proof (induction es)
  case Nil
  then show ?case by simp
next
  case (Cons e es)
  show ?case
  proof (cases "fst e \<le> now")
    case True
    then show ?thesis using Cons by simp
  next
    case False
    then have "\<forall>x\<in>set es. \<not> fst x \<le> now" using Cons.prems by (force simp: entry_le_def)
    then show ?thesis using False by simp
  qed
qed

lemma timer_inv_pass:
  "timer_inv tm \<Longrightarrow> timer_inv (snd (timer_pass now tm))"
  by (auto simp: timer_inv_def timer_pass_def Let_def pop_ready_filter sorted_wrt_filter
      distinct_map_filter)

section \<open>Properties\<close>

definition due :: "int \<Rightarrow> 'c timer \<Rightarrow> nat \<Rightarrow> bool" where
  "due now_ns tm k \<longleftrightarrow> (\<exists>d. (d, k) \<in> set (tm_tasks tm) \<and> d \<le> of_int (now_ns div 1000000))"

text \<open>C38. One pass of the timer thread takes out of the queue exactly the tasks whose due time
  has passed, each once and ordered by due time, first scheduled first among equals; the later
  ones stay, and the queue keeps its invariant.\<close>

theorem timer_pass_due:
  assumes "timer_inv tm"
  shows "set (fst (timer_pass now tm)) = {k. due now tm k} \<and> distinct (fst (timer_pass now tm)) \<and>
    (\<exists>es. fst (timer_pass now tm) = map snd es \<and> sorted_wrt entry_le es \<and> set es \<subseteq> set (tm_tasks tm)) \<and>
    set (tm_tasks (snd (timer_pass now tm))) =
      {(d, k) \<in> set (tm_tasks tm). of_int (now div 1000000) < d} \<and>
    timer_inv (snd (timer_pass now tm))"
proof -
  let ?due = "filter (\<lambda>e. fst e \<le> of_int (now div 1000000)) (tm_tasks tm)"
  have s: "sorted_wrt entry_le (tm_tasks tm)" and d: "distinct (map snd (tm_tasks tm))"
    using assms by (simp_all add: timer_inv_def)
  have p: "fst (timer_pass now tm) = map snd ?due"
    "tm_tasks (snd (timer_pass now tm)) = filter (\<lambda>e. \<not> fst e \<le> of_int (now div 1000000)) (tm_tasks tm)"
    by (simp_all add: timer_pass_def pop_ready_filter [OF s])
  have "\<exists>es. fst (timer_pass now tm) = map snd es \<and> sorted_wrt entry_le es \<and> set es \<subseteq> set (tm_tasks tm)"
    using p(1) s by (intro exI [of _ ?due]) (auto simp: sorted_wrt_filter)
  moreover have "set (fst (timer_pass now tm)) = {k. due now tm k}"
    unfolding p due_def by force
  moreover have "set (tm_tasks (snd (timer_pass now tm))) =
      {(d, k) \<in> set (tm_tasks tm). of_int (now div 1000000) < d}"
    unfolding p by auto
  moreover have "distinct (fst (timer_pass now tm))"
    unfolding p using d by (simp add: distinct_map_filter)
  ultimately show ?thesis using timer_inv_pass [OF assms] by blast
qed

theorem timer_pass_due_witness:
  "timer_inv (timer_init :: nat timer) \<and>
   fst (timer_pass 2000000000 (snd (schedule_timer 0 1 (7::nat) timer_init))) = [0] \<and>
   set (fst (timer_pass 2000000000 (snd (schedule_timer 0 1 (7::nat) timer_init)))) =
     {k. due 2000000000 (snd (schedule_timer 0 1 (7::nat) timer_init)) k}"
proof -
  let ?tm = "snd (schedule_timer 0 1 (7::nat) timer_init)"
  have "timer_inv ?tm"
    by (rule timer_inv_schedule(1) [of timer_init 0 1 7 0]) (simp_all add: schedule_timer_def timer_init_def timer_inv_def Let_def)
  then have "set (fst (timer_pass 2000000000 ?tm)) = {k. due 2000000000 ?tm k}"
    using timer_pass_due [of ?tm 2000000000] by blast
  then show ?thesis using timer_inv_init
    by (simp add: timer_pass_def schedule_timer_def timer_init_def Let_def execute_at_ms_def timer_task_init_def)
qed

text \<open>A task that was removed never runs its callback, however often it is scheduled to come
  up later; removing it leaves every other task alone; and a task that was scheduled and not
  removed runs the callback it was given.\<close>

lemma removed_task_never_runs:
  assumes "timer_inv tm" and "schedule_timer now e c tm = (k, tm')"
  shows "task_execute tm' k = Some c \<and> task_execute (timer_remove k tm') k = None \<and>
    (\<forall>j. j \<noteq> k \<longrightarrow> task_execute (timer_remove k tm') j = task_execute tm j)"
proof -
  have "task_execute tm' j = task_execute tm j" if "j \<noteq> k" for j
    using that assms(2) by (auto simp: schedule_timer_def Let_def task_execute_def)
  then show ?thesis using timer_inv_schedule [OF assms] by simp
qed

lemma removed_task_never_runs_witness:
  "task_execute (timer_remove 0 (snd (schedule_timer 5 1 True timer_init))) 0 = None"
  using removed_task_never_runs [of timer_init 5 1 True 0 "snd (schedule_timer 5 1 True timer_init)"]
  by (simp add: schedule_timer_def timer_init_def Let_def timer_inv_def)

end
