(* ===== verification/Sockets_Table.thy ===== *)
theory Sockets_Table
  imports Prelude
begin

text \<open>
  The socket tables of \<^verbatim>\<open>tipy/components/sockets_table.py\<close>: dictionaries from socket ids to
  sockets (and TCP control blocks), the bound addresses and the pool of ephemeral ports. The
  values are references; their type is a parameter. A UDP or TCP socket id is
  \<open>(local ip, local port, remote ip, remote port)\<close>, a raw one \<open>(local ip, protocol, remote ip)\<close>.

  \<^verbatim>\<open>set.pop\<close> removes an arbitrary element: the element it picks is the parameter \<open>pick\<close>, of
  which the laws only assume that it picks a member of the set it is given.
\<close>

section \<open>Definitions\<close>

type_synonym sock_id = "int \<times> int \<times> int \<times> int"
type_synonym rip_id = "int \<times> int \<times> int"

definition EPHEMERAL_PORTS :: "int set" where
  "EPHEMERAL_PORTS = {32768..<60999}"

record ('so, 'err) udp_table =
  udp_sockets :: "sock_id \<Rightarrow> 'so option"
  udp_bound_sockets :: "(int \<times> int) set"
  udp_err_msg :: "sock_id \<Rightarrow> 'err option"
  udp_ephemeral_ports :: "int set"
  udp_used_ports :: "int set"

definition udp_table_init :: "('so, 'err) udp_table" where
  "udp_table_init = \<lparr>udp_sockets = Map.empty, udp_bound_sockets = {}, udp_err_msg = Map.empty,
     udp_ephemeral_ports = EPHEMERAL_PORTS, udp_used_ports = {}\<rparr>"

definition udp_register_socket :: "sock_id \<Rightarrow> 'so \<Rightarrow> ('so, 'err) udp_table \<Rightarrow> ('so, 'err) udp_table" where
  "udp_register_socket sid so t = t\<lparr>udp_sockets := (udp_sockets t)(sid \<mapsto> so)\<rparr>"

definition udp_remove_socket :: "sock_id \<Rightarrow> ('so, 'err) udp_table \<Rightarrow> ('so, 'err) udp_table" where
  "udp_remove_socket sid t = t\<lparr>udp_sockets := (udp_sockets t)(sid := None)\<rparr>"

definition udp_update_socket ::
    "sock_id \<Rightarrow> sock_id \<Rightarrow> 'so \<Rightarrow> ('so, 'err) udp_table \<Rightarrow> ('so, 'err) udp_table" where
  "udp_update_socket old new so t = udp_register_socket new so (udp_remove_socket old t)"

definition udp_register_bound_socket :: "int \<times> int \<Rightarrow> ('so, 'err) udp_table \<Rightarrow> ('so, 'err) udp_table" where
  "udp_register_bound_socket b t = t\<lparr>udp_bound_sockets := insert b (udp_bound_sockets t)\<rparr>"

definition udp_add_used_port :: "int \<Rightarrow> ('so, 'err) udp_table \<Rightarrow> ('so, 'err) udp_table" where
  "udp_add_used_port port t =
     (if port \<notin> udp_ephemeral_ports t then t\<lparr>udp_used_ports := insert port (udp_used_ports t)\<rparr> else t)"

definition pick_ephemeral_udp_port ::
    "(int set \<Rightarrow> int) \<Rightarrow> ('so, 'err) udp_table \<Rightarrow> (int \<times> ('so, 'err) udp_table) result" where
  "pick_ephemeral_udp_port pick t =
     (if udp_ephemeral_ports t = {} then Inl KeyError
      else let port = pick (udp_ephemeral_ports t)
           in Inr (port, udp_add_used_port port
                           (t\<lparr>udp_ephemeral_ports := udp_ephemeral_ports t - {port}\<rparr>)))"

definition udp_check_bound :: "int \<times> int \<Rightarrow> ('so, 'err) udp_table \<Rightarrow> bool" where
  "udp_check_bound b t \<longleftrightarrow> b \<in> udp_bound_sockets t"

record ('so, 'cb) tcp_table =
  tcp_sockets :: "sock_id \<Rightarrow> 'so option"
  tcp_tcpcbs :: "sock_id \<Rightarrow> 'cb option"
  tcp_bound_sockets :: "(int \<times> int) set"
  tcp_ephemeral_ports :: "int set"
  tcp_used_ports :: "int set"

definition tcp_table_init :: "('so, 'cb) tcp_table" where
  "tcp_table_init = \<lparr>tcp_sockets = Map.empty, tcp_tcpcbs = Map.empty, tcp_bound_sockets = {},
     tcp_ephemeral_ports = EPHEMERAL_PORTS, tcp_used_ports = {}\<rparr>"

definition tcp_register_socket :: "sock_id \<Rightarrow> 'so \<Rightarrow> ('so, 'cb) tcp_table \<Rightarrow> ('so, 'cb) tcp_table" where
  "tcp_register_socket sid so t = t\<lparr>tcp_sockets := (tcp_sockets t)(sid \<mapsto> so)\<rparr>"

definition tcp_remove_socket :: "sock_id \<Rightarrow> ('so, 'cb) tcp_table \<Rightarrow> ('so, 'cb) tcp_table" where
  "tcp_remove_socket sid t = t\<lparr>tcp_sockets := (tcp_sockets t)(sid := None)\<rparr>"

definition tcp_update_socket ::
    "sock_id \<Rightarrow> sock_id \<Rightarrow> 'so \<Rightarrow> ('so, 'cb) tcp_table \<Rightarrow> ('so, 'cb) tcp_table" where
  "tcp_update_socket old new so t = tcp_register_socket new so (tcp_remove_socket old t)"

definition tcp_register_bound_socket :: "int \<times> int \<Rightarrow> ('so, 'cb) tcp_table \<Rightarrow> ('so, 'cb) tcp_table" where
  "tcp_register_bound_socket b t = t\<lparr>tcp_bound_sockets := insert b (tcp_bound_sockets t)\<rparr>"

definition tcp_add_used_port :: "int \<Rightarrow> ('so, 'cb) tcp_table \<Rightarrow> ('so, 'cb) tcp_table" where
  "tcp_add_used_port port t =
     (if port \<notin> tcp_ephemeral_ports t then t\<lparr>tcp_used_ports := insert port (tcp_used_ports t)\<rparr> else t)"

definition pick_ephemeral_tcp_port ::
    "(int set \<Rightarrow> int) \<Rightarrow> ('so, 'cb) tcp_table \<Rightarrow> (int \<times> ('so, 'cb) tcp_table) result" where
  "pick_ephemeral_tcp_port pick t =
     (if tcp_ephemeral_ports t = {} then Inl KeyError
      else let port = pick (tcp_ephemeral_ports t)
           in Inr (port, tcp_add_used_port port
                           (t\<lparr>tcp_ephemeral_ports := tcp_ephemeral_ports t - {port}\<rparr>)))"

definition tcp_check_bound :: "int \<times> int \<Rightarrow> ('so, 'cb) tcp_table \<Rightarrow> bool" where
  "tcp_check_bound b t \<longleftrightarrow> b \<in> tcp_bound_sockets t"

definition register_tcpcb :: "sock_id \<Rightarrow> 'cb \<Rightarrow> ('so, 'cb) tcp_table \<Rightarrow> ('so, 'cb) tcp_table" where
  "register_tcpcb sid cb t = t\<lparr>tcp_tcpcbs := (tcp_tcpcbs t)(sid \<mapsto> cb)\<rparr>"

definition table_remove_tcpcb :: "sock_id \<Rightarrow> ('so, 'cb) tcp_table \<Rightarrow> ('so, 'cb) tcp_table" where
  "table_remove_tcpcb sid t = t\<lparr>tcp_tcpcbs := (tcp_tcpcbs t)(sid := None)\<rparr>"

record 'so rip_table =
  rip_sockets :: "rip_id \<Rightarrow> 'so option"

definition rip_register_socket :: "rip_id \<Rightarrow> 'so \<Rightarrow> 'so rip_table \<Rightarrow> 'so rip_table" where
  "rip_register_socket sid so t = t\<lparr>rip_sockets := (rip_sockets t)(sid \<mapsto> so)\<rparr>"

definition rip_remove_socket :: "rip_id \<Rightarrow> 'so rip_table \<Rightarrow> 'so rip_table" where
  "rip_remove_socket sid t = t\<lparr>rip_sockets := (rip_sockets t)(sid := None)\<rparr>"

definition rip_update_socket :: "rip_id \<Rightarrow> rip_id \<Rightarrow> 'so \<Rightarrow> 'so rip_table \<Rightarrow> 'so rip_table" where
  "rip_update_socket old new so t = rip_register_socket new so (rip_remove_socket old t)"

section \<open>The contract of a socket table\<close>

locale socket_table =
  fixes lookup :: "'t \<Rightarrow> 'id \<Rightarrow> 'so option"
    and register :: "'id \<Rightarrow> 'so \<Rightarrow> 't \<Rightarrow> 't"
    and remove :: "'id \<Rightarrow> 't \<Rightarrow> 't"
    and update :: "'id \<Rightarrow> 'id \<Rightarrow> 'so \<Rightarrow> 't \<Rightarrow> 't"
  assumes lookup_register: "lookup (register i so t) = (lookup t)(i \<mapsto> so)"
    and lookup_remove: "lookup (remove i t) = (lookup t)(i := None)"
    and update_eq: "update old new so t = register new so (remove old t)"
begin

lemma update_moves:
  "lookup (update old new so t) new = Some so"
  "old \<noteq> new \<Longrightarrow> lookup (update old new so t) old = None"
  "i \<noteq> old \<Longrightarrow> i \<noteq> new \<Longrightarrow> lookup (update old new so t) i = lookup t i"
  by (simp_all add: update_eq lookup_register lookup_remove)

lemma register_remove: "lookup t i = None \<Longrightarrow> lookup (remove i (register i so t)) = lookup t"
  by (auto simp: lookup_register lookup_remove)

end

interpretation udpt: socket_table udp_sockets udp_register_socket udp_remove_socket udp_update_socket
  by unfold_locales (simp_all add: udp_register_socket_def udp_remove_socket_def udp_update_socket_def)

interpretation tcpt: socket_table tcp_sockets tcp_register_socket tcp_remove_socket tcp_update_socket
  by unfold_locales (simp_all add: tcp_register_socket_def tcp_remove_socket_def tcp_update_socket_def)

interpretation ript: socket_table rip_sockets rip_register_socket rip_remove_socket rip_update_socket
  by unfold_locales (simp_all add: rip_register_socket_def rip_remove_socket_def rip_update_socket_def)

interpretation tcbt: socket_table tcp_tcpcbs register_tcpcb table_remove_tcpcb
  "\<lambda>old new cb t. register_tcpcb new cb (table_remove_tcpcb old t)"
  by unfold_locales (simp_all add: register_tcpcb_def table_remove_tcpcb_def)

section \<open>Ephemeral ports\<close>

definition tcp_ports_ok :: "('so, 'cb) tcp_table \<Rightarrow> bool" where
  "tcp_ports_ok t \<longleftrightarrow> tcp_ephemeral_ports t \<inter> tcp_used_ports t = {} \<and>
     tcp_ephemeral_ports t \<union> tcp_used_ports t = EPHEMERAL_PORTS"

lemma pick_ephemeral_tcp_port_ok:
  assumes "tcp_ports_ok t" and "\<And>S. S \<noteq> {} \<Longrightarrow> pick S \<in> S"
    and "pick_ephemeral_tcp_port pick t = Inr (p, t')"
  shows "tcp_ports_ok t' \<and> p \<in> EPHEMERAL_PORTS \<and> p \<notin> tcp_used_ports t \<and>
    tcp_used_ports t' = insert p (tcp_used_ports t) \<and> p \<notin> tcp_ephemeral_ports t'"
proof -
  have ne: "tcp_ephemeral_ports t \<noteq> {}" and p: "p = pick (tcp_ephemeral_ports t)"
    and t': "t' = tcp_add_used_port p (t\<lparr>tcp_ephemeral_ports := tcp_ephemeral_ports t - {p}\<rparr>)"
    using assms(3) by (auto simp: pick_ephemeral_tcp_port_def Let_def split: if_splits)
  have "p \<in> tcp_ephemeral_ports t" using assms(2) ne p by simp
  then show ?thesis using assms(1) unfolding t' tcp_ports_ok_def tcp_add_used_port_def by auto
qed

end
