(* ===== verification/Tcpcb.thy ===== *)
theory Tcpcb
  imports Tcp_Types Buffer_Spec Timer Sockets_Table
begin

text \<open>
  The TCP control block (\<^verbatim>\<open>tipy/protocols/tcp/tcpcb.py\<close>) and the parts of the core its handlers
  reach: the socket table, the timer, the queue of TCP events, the segments handed to
  \<^verbatim>\<open>core.tx_tcp\<close> and the error fields and condition variables of the sockets.

  A handler runs on an \<open>fsm\<close>: the fields of the control block followed by those of the core. Python
  objects that are shared (control blocks, sockets, timer tasks) are referred to by numbers.
  \<open>now_ns\<close> is what \<^verbatim>\<open>monotonic_ns\<close> returns while the handler runs. The round-trip times are
  floats in the source and rationals here: rounding is not modelled.
\<close>

section \<open>Definitions\<close>

datatype sockopt = OptInt int | OptBytes bytes

record tcpcb =
  cb_ref :: nat
  so :: nat
  lip :: int
  lp :: int
  rip :: int
  rp :: int
  rcv_buf :: ring_buffer
  snd_buf :: rring_buffer
  tcp_data_start :: int
  tcp_data_len :: int
  snd_una :: int
  snd_nxt :: int
  snd_wnd :: int
  snd_max :: int
  snd_wl1 :: int
  snd_wl2 :: int
  rcv_nxt :: int
  rcv_wnd :: int
  rcv_adv :: int
  iss :: int
  irs :: int
  remote_mss :: int
  ack_now :: bool
  sent_fin :: bool
  rtx_timer :: "nat option"
  time_wait_timer :: "nat option"
  rto :: rat
  rtt :: "rat option"
  srtt :: "rat option"
  rttvar :: "rat option"
  challenge_ack_limit :: int
  last_challenge_ack_timestamp :: int
  close_requested :: bool
  shutdown_requested :: bool
  sock_opt :: "int \<times> int \<Rightarrow> sockopt option"
  state :: tcp_state
  prev_state :: tcp_state

text \<open>
  A segment given to \<^verbatim>\<open>core.tx_tcp\<close>; \<open>os_mss\<close> says that the option list is \<^verbatim>\<open>[TCPOptMSS()]\<close>. \<open>os_data\<close> are the bytes
  that the \<^verbatim>\<open>memoryview\<close> of the call shows at the call.
\<close>

record out_seg =
  os_src :: "int \<times> int"
  os_dst :: "int \<times> int"
  os_seq :: int
  os_ack_seq :: int
  os_ack :: bool
  os_psh :: bool
  os_rst :: bool
  os_syn :: bool
  os_fin :: bool
  os_window :: int
  os_mss :: bool
  os_data :: bytes

datatype tcp_event = TCPEvent (ev_type: event_type) (ev_tcpcb: "nat option") (ev_packet: "tcp_seg option")

text \<open>
  The callbacks given to the timer: the two lambdas of \<^verbatim>\<open>tcp_timer.py\<close>, those of \<^verbatim>\<open>arp/rx.py\<close> and
  \<^verbatim>\<open>arp_cache.py\<close>, with an address, and that of \<^verbatim>\<open>ip/rx.py\<close>, with the IP frame of \<^verbatim>\<open>packet_rx\<close> and the
  \<^verbatim>\<open>buffer_id\<close>.
\<close>

datatype timer_call = ScheduleRtx nat | RemoveTcpcb nat
  | ArpFlush int | ProbeDone int | ArpWaitRemove int
  | ReassTimerExceeded bytes "int \<times> int \<times> int \<times> int"

text \<open>
  The condition variables that are notified: those of a TCP socket, \<^verbatim>\<open>cond\<close> of a UDP or raw socket and
  \<^verbatim>\<open>arp_prob_cond\<close> of the ARP cache.
\<close>

datatype cond = ConnectEvents nat | RecvEvents nat | SendEvents nat | SockCond nat | ArpProbCond

record fsm = tcpcb +
  so_error :: "nat \<Rightarrow> errno"
  now_ns :: int
  tcp_tbl :: "(nat, nat) tcp_table"
  timer :: "timer_call timer"
  events :: "tcp_event list"
  tx_log :: "out_seg list"
  notified :: "cond list"

definition DEFAULT_RECV_BUFF :: nat where "DEFAULT_RECV_BUFF = 0xFFFF"
definition DEFAULT_SEND_BUFF :: nat where "DEFAULT_SEND_BUFF = 0xFFFF"
definition DEFAULT_RCV_WND :: int where "DEFAULT_RCV_WND = 0xFFFF"
definition MAX_TCP_CHALLENGE_ACK_LIMIT :: int where "MAX_TCP_CHALLENGE_ACK_LIMIT = 100"
definition TCP_CHALLENGE_ACK_RATE_HZ :: int where "TCP_CHALLENGE_ACK_RATE_HZ = 5"

text \<open>The constructor; \<open>iss0\<close> is the value of \<^verbatim>\<open>randint\<close> and \<open>now\<close> the clock.\<close>

definition tcpcb_init ::
    "nat \<Rightarrow> int \<Rightarrow> int \<Rightarrow> int \<Rightarrow> int \<Rightarrow> nat \<Rightarrow> (int \<times> int \<Rightarrow> sockopt option) \<Rightarrow> int \<Rightarrow> int \<Rightarrow> tcpcb" where
  "tcpcb_init ref local_ip local_port remote_ip remote_port so0 opts iss0 now =
     \<lparr>cb_ref = ref, so = so0, lip = local_ip, lp = local_port, rip = remote_ip, rp = remote_port,
      rcv_buf = rb_init DEFAULT_RECV_BUFF, snd_buf = rrb_init DEFAULT_SEND_BUFF,
      tcp_data_start = 0, tcp_data_len = 0,
      snd_una = 0, snd_nxt = 0, snd_wnd = 0, snd_max = 0, snd_wl1 = 0, snd_wl2 = 0,
      rcv_nxt = 0, rcv_wnd = DEFAULT_RCV_WND, rcv_adv = 0, iss = iss0, irs = 0, remote_mss = 0,
      ack_now = False, sent_fin = False, rtx_timer = None, time_wait_timer = None,
      rto = 1, rtt = None, srtt = None, rttvar = None,
      challenge_ack_limit = MAX_TCP_CHALLENGE_ACK_LIMIT, last_challenge_ack_timestamp = now,
      close_requested = False, shutdown_requested = False, sock_opt = opts,
      state = CLOSED, prev_state = CLOSED\<rparr>"

definition socket_id :: "'a tcpcb_scheme \<Rightarrow> sock_id" where
  "socket_id w = (lip w, lp w, rip w, rp w)"

definition remove_tcpcb :: "fsm \<Rightarrow> fsm" where
  "remove_tcpcb w =
     w\<lparr>tcp_tbl := table_remove_tcpcb (socket_id w) (tcp_remove_socket (socket_id w) (tcp_tbl w))\<rparr>"

definition schedule_event :: "tcp_event \<Rightarrow> fsm \<Rightarrow> fsm" where
  "schedule_event e w = w\<lparr>events := events w @ [e]\<rparr>"

definition notify :: "cond \<Rightarrow> fsm \<Rightarrow> fsm" where
  "notify c w = w\<lparr>notified := notified w @ [c]\<rparr>"

definition set_so_error :: "errno \<Rightarrow> fsm \<Rightarrow> fsm" where
  "set_so_error e w = w\<lparr>so_error := (so_error w)(so w := e)\<rparr>"

text \<open>
  The calls of \<^verbatim>\<open>core.tx_tcp\<close>: addresses and ports are those of the control block. The defaults of
  the keyword arguments are the record \<open>seg0\<close>. \<open>tx_tcp\<close> hands a segment over; the call returns if the
  segment makes a datagram within the MTU, with 20 bytes each for the two headers and 4 for the option, and
  raises \<^verbatim>\<open>AttributeError\<close> otherwise, as theory \<open>Core_Paths\<close> shows. A segment without data always fits.
\<close>

definition seg0 :: "fsm \<Rightarrow> out_seg" where
  "seg0 w = \<lparr>os_src = (lip w, lp w), os_dst = (rip w, rp w), os_seq = 0, os_ack_seq = 0,
     os_ack = False, os_psh = False, os_rst = False, os_syn = False, os_fin = False,
     os_window = 65535, os_mss = False, os_data = []\<rparr>"

definition tx_tcp :: "out_seg \<Rightarrow> fsm \<Rightarrow> fsm" where
  "tx_tcp s w = w\<lparr>tx_log := tx_log w @ [s]\<rparr>"

definition MTU :: nat where "MTU = 1500"

definition seg_fits :: "out_seg \<Rightarrow> bool" where
  "seg_fits s \<longleftrightarrow> 40 + (if os_mss s then 4 else 0) + length (os_data s) \<le> MTU"

text \<open>
  How a handler ends: it returns, or it raises an exception and leaves the state it has reached. What it changed before
  it raised stays changed.
\<close>

type_synonym outcome = "(exn \<times> fsm) + fsm"

section \<open>A fresh connection\<close>

text \<open>A control block beside an idle core: nothing scheduled, nothing sent, empty tables.\<close>

definition fsm_start :: "tcpcb \<Rightarrow> int \<Rightarrow> fsm" where
  "fsm_start cb now =
     tcpcb.extend cb (fsm.fields (\<lambda>_. NoErr) now tcp_table_init timer_init [] [] [])"

text \<open>The connection and the segments the concrete examples of the other theories use.\<close>

definition conn_example :: "int \<Rightarrow> fsm" where
  "conn_example iss0 = fsm_start (tcpcb_init 0 10 40000 20 80 0 Map.empty iss0 0) 0"

definition seg_example :: "int \<Rightarrow> int \<Rightarrow> tcp_seg" where
  "seg_example sq ak =
     \<lparr>sg_frame = replicate 20 0, sg_src = 80, sg_dst = 40000, sg_seq = sq, sg_ack_seq = ak, sg_doff = 20,
      sg_flags = 0x10, sg_window = 1000, sg_dlen = 0\<rparr>"

lemmas conn_defs = conn_example_def fsm_start_def tcpcb_init_def tcpcb.defs fsm.defs

end
