(* ===== verification/Ip_Header.thy ===== *)
theory Ip_Header
  imports Transport Tcpcb
begin

text \<open>
  \<^verbatim>\<open>ip/builder.py\<close> and \<^verbatim>\<open>ip/parser.py\<close>: the IP header, its options and the datagram builder. A builder
  writes into a frame that is zero beyond what is built; addresses are integers. The properties of
  the parser are read when they are used, so that each is a function of the frame with its own error.
\<close>

section \<open>Constants\<close>

definition IP_VERSION :: int where "IP_VERSION = 4"
definition IP_TTL :: int where "IP_TTL = 64"
definition IP_IHL :: nat where "IP_IHL = 5"
definition IP_OPT_NOP_LEN :: nat where "IP_OPT_NOP_LEN = 1"
definition IP_PROTO_TCP :: int where "IP_PROTO_TCP = 6"
definition IP_PROTO_UDP :: int where "IP_PROTO_UDP = 17"

definition NEED_P_HDR_SUM :: "int set" where
  "NEED_P_HDR_SUM = {IP_PROTO_TCP, IP_PROTO_UDP}"

section \<open>Options\<close>

text \<open>
  The argument of \<^verbatim>\<open>IPOptEOL\<close> and \<^verbatim>\<open>IPOptNOP\<close> is an integer in the calls of \<^verbatim>\<open>_ip_opt_padding\<close> and the
  whole option buffer in that of \<^verbatim>\<open>IPOptBuilder._parse\<close>.
\<close>

datatype opt_arg = ArgInt nat | ArgBuf bytes

datatype ip_opt = IPOptEOL opt_arg | IPOptNOP opt_arg | IPOptLSRR bytes nat nat | IPOptUnknown bytes nat nat

text \<open>\<^verbatim>\<open>len(opt)\<close>: a \<^verbatim>\<open>__len__\<close> that does not return an integer is a \<^verbatim>\<open>TypeError\<close>.\<close>

fun ip_opt_len :: "ip_opt \<Rightarrow> nat result" where
  "ip_opt_len (IPOptEOL (ArgInt n)) = Inr n"
| "ip_opt_len (IPOptEOL (ArgBuf b)) = Inl TypeError"
| "ip_opt_len (IPOptNOP a) = Inr IP_OPT_NOP_LEN"
| "ip_opt_len (IPOptLSRR opt start stop) = Inr (length opt)"
| "ip_opt_len (IPOptUnknown opt start stop) = Inr (length (drop start opt))"

fun ip_opt_build :: "ip_opt \<Rightarrow> bytes \<Rightarrow> nat \<Rightarrow> bytes result" where
  "ip_opt_build (IPOptEOL (ArgInt n)) frame offset = pack_str_into n [] frame offset"
| "ip_opt_build (IPOptEOL (ArgBuf b)) frame offset = Inl StructError"
| "ip_opt_build (IPOptNOP (ArgInt v)) frame offset = pack_into [(1, int v)] frame offset"
| "ip_opt_build (IPOptNOP (ArgBuf b)) frame offset = Inl StructError"
| "ip_opt_build (IPOptLSRR opt start stop) frame offset =
     pack_str_into (length (slice opt start (start + stop))) opt frame offset"
| "ip_opt_build (IPOptUnknown opt start stop) frame offset = Inr frame"

fun ip_opts_len :: "ip_opt list \<Rightarrow> nat result" where
  "ip_opts_len [] = Inr 0"
| "ip_opts_len (o1 # os) = bind_r (ip_opt_len o1) (\<lambda>l. bind_r (ip_opts_len os) (\<lambda>n. Inr (l + n)))"

definition ip_opt_padding :: "ip_opt list \<Rightarrow> ip_opt list result" where
  "ip_opt_padding opt =
     bind_r (ip_opts_len opt) (\<lambda>l.
       let r = l mod 4 in Inr (if r \<noteq> 0 then opt @ [IPOptEOL (ArgInt (4 - r))] else opt))"

text \<open>
  The loop of \<^verbatim>\<open>IPOptBuilder._parse\<close>. An option whose length field is 0 does not move the pointer: the
  outer option is \<open>None\<close> when the loop does not end.
\<close>

partial_function (option) ip_opt_parse :: "bytes \<Rightarrow> nat \<Rightarrow> ip_opt list \<Rightarrow> ip_opt list result option" where
  "ip_opt_parse raw_opts ptr opts =
     (if ptr < length raw_opts then
        (if raw_opts ! ptr = 0 then ip_opt_parse raw_opts (ptr + 1) (opts @ [IPOptEOL (ArgBuf raw_opts)])
         else if raw_opts ! ptr = 1 then ip_opt_parse raw_opts (ptr + 1) (opts @ [IPOptNOP (ArgBuf raw_opts)])
         else if raw_opts ! ptr = 131 then
           (if ptr + 1 \<ge> length raw_opts then Some (Inl IPBadOptionError)
            else let len_fld = unat (raw_opts ! (ptr + 1))
                 in ip_opt_parse raw_opts (ptr + len_fld) (opts @ [IPOptLSRR raw_opts ptr len_fld]))
         else Some (Inr (opts @ [IPOptUnknown (drop ptr raw_opts) ptr (length raw_opts)])))
      else Some (Inr opts))"

definition ip_opt_builder :: "bytes \<Rightarrow> ip_opt list option result option" where
  "ip_opt_builder raw_opts =
     (if raw_opts = [] then Some (Inr None)
      else if length raw_opts > 40 then Some (Inr None)
      else map_option (\<lambda>r. bind_r r (\<lambda>opts. bind_r (ip_opt_padding opts) (\<lambda>os. Inr (Some os))))
             (ip_opt_parse raw_opts 0 []))"

section \<open>IPBuilder\<close>

record ip_builder =
  ipb_payload :: payload
  ipb_id :: int
  ipb_offset :: int
  ipb_df :: bool
  ipb_mf :: bool
  ipb_ttl :: sockopt
  ipb_protocol :: int
  ipb_options :: "ip_opt list"
  ipb_ihl :: nat
  ipb_total_len :: nat
  ipb_src :: int
  ipb_dst :: int

text \<open>\<open>[]\<close> stands for \<^verbatim>\<open>None\<close> and for the empty list: the code only tests the truth of the field.\<close>

definition ip_ihl_of :: "ip_opt list \<Rightarrow> nat result" where
  "ip_ihl_of options =
     (if options = [] then Inr IP_IHL else bind_r (ip_opts_len options) (\<lambda>l. Inr (l div 4 + IP_IHL)))"

definition ip_builder_init ::
    "payload \<Rightarrow> int \<Rightarrow> sockopt \<Rightarrow> int \<Rightarrow> int \<Rightarrow> int \<Rightarrow> ip_opt list \<Rightarrow> ip_builder result" where
  "ip_builder_init pl ident ttl protocol src dst options =
     bind_r (ip_ihl_of options) (\<lambda>ihl.
       Inr \<lparr>ipb_payload = pl, ipb_id = ident, ipb_offset = 0, ipb_df = False, ipb_mf = False, ipb_ttl = ttl,
            ipb_protocol = protocol, ipb_options = options, ipb_ihl = ihl,
            ipb_total_len = ihl * 4 + payload_len pl, ipb_src = src, ipb_dst = dst\<rparr>)"

definition ip_len :: "ip_builder \<Rightarrow> nat" where
  "ip_len b = ipb_ihl b * 4 + payload_len (ipb_payload b)"

text \<open>The pseudo header, in network order, and its sum in native words (\<^verbatim>\<open>sum(phdr.cast("I"))\<close>).\<close>

definition phdr :: "int \<Rightarrow> int \<Rightarrow> int \<Rightarrow> int \<Rightarrow> bytes result" where
  "phdr src dst protocol len = pack_fields [(4, src), (4, dst), (1, 0), (1, protocol), (2, len)]"

definition phdr_sum :: "int \<Rightarrow> int \<Rightarrow> int \<Rightarrow> int \<Rightarrow> nat result" where
  "phdr_sum src dst protocol len =
     bind_r (phdr src dst protocol len) (\<lambda>ph. Inr (cast_sum le_val 4 ph))"

definition ip_psum :: "ip_builder \<Rightarrow> nat result" where
  "ip_psum b = phdr_sum (ipb_src b) (ipb_dst b) (ipb_protocol b) (int (ipb_total_len b) - int (ipb_ihl b) * 4)"

definition ip_flags_word :: "ip_builder \<Rightarrow> int" where
  "ip_flags_word b = push_bit 14 (of_bool (ipb_df b)) OR push_bit 13 (of_bool (ipb_mf b)) OR ipb_offset b"

definition ip_fields :: "ip_builder \<Rightarrow> int \<Rightarrow> (nat \<times> int) list" where
  "ip_fields b ttl =
     [(1, push_bit 4 IP_VERSION OR int (ipb_ihl b)), (1, 0), (2, int (ipb_total_len b)), (2, ipb_id b),
      (2, ip_flags_word b), (1, ttl), (1, ipb_protocol b), (2, 0), (4, ipb_src b), (4, ipb_dst b)]"

fun ip_opts_build :: "ip_opt list \<Rightarrow> bytes \<Rightarrow> nat \<Rightarrow> bytes result" where
  "ip_opts_build [] frame offset = Inr frame"
| "ip_opts_build (opt # opts) frame offset =
     bind_r (ip_opt_build opt frame offset) (\<lambda>f.
     bind_r (ip_opt_len opt) (\<lambda>l. ip_opts_build opts f (offset + l)))"

text \<open>The payload is built in the \<^verbatim>\<open>memoryview\<close> \<^verbatim>\<open>frame[ihl * 4:]\<close>, which shares the bytes of the frame.\<close>

definition build_at :: "nat \<Rightarrow> bytes \<Rightarrow> (bytes \<Rightarrow> bytes result) \<Rightarrow> bytes result" where
  "build_at off frame build = bind_r (build (drop off frame)) (\<lambda>f. Inr (take off frame @ f))"

definition ip_build :: "ip_builder \<Rightarrow> bytes \<Rightarrow> bytes result" where
  "ip_build b frame =
     (case ipb_ttl b of
        OptBytes _ \<Rightarrow> Inl StructError
      | OptInt ttl \<Rightarrow>
          bind_r (pack_into (ip_fields b ttl) frame 0) (\<lambda>f1.
          bind_r (ip_opts_build (ipb_options b) f1 20) (\<lambda>f2.
          bind_r (pack_into [(2, inet_csum_little f2 0)] f2 10) (\<lambda>f3.
            if ipb_protocol b \<in> NEED_P_HDR_SUM then
              bind_r (ip_psum b) (\<lambda>s. build_at (ipb_ihl b * 4) f3 (payload_build (ipb_payload b) (Some s)))
            else build_at (ipb_ihl b * 4) f3 (payload_build (ipb_payload b) None)))))"

section \<open>IPFragBuilder\<close>

text \<open>
  The constructor of \<^verbatim>\<open>IPFragBuilder\<close> reads \<^verbatim>\<open>self.__ihl\<close>, that is \<^verbatim>\<open>_IPFragBuilder__ihl\<close>, an attribute no
  line sets before; what it returns is therefore never reached, and neither are the methods of the class.
\<close>

definition ip_frag_builder_init :: "ip_opt list \<Rightarrow> 'a result" where
  "ip_frag_builder_init options = bind_r (ip_ihl_of options) (\<lambda>ihl. Inl AttributeError)"

section \<open>IPParser\<close>

definition ip_ver :: "bytes \<Rightarrow> int result" where
  "ip_ver frame = bind_r (byte_at frame 0) (\<lambda>b. Inr (drop_bit 4 b))"

definition ip_ihl :: "bytes \<Rightarrow> nat result" where
  "ip_ihl frame = bind_r (byte_at frame 0) (\<lambda>b. Inr (nat (b AND 0xF) * 4))"

definition ip_total_len :: "bytes \<Rightarrow> nat result" where
  "ip_total_len frame = bind_r (unpack_be 2 frame 2) (\<lambda>n. Inr (nat n))"

definition ip_id :: "bytes \<Rightarrow> int result" where
  "ip_id frame = unpack_be 2 frame 4"

definition ip_flags_fragoff :: "bytes \<Rightarrow> int result" where
  "ip_flags_fragoff frame = unpack_be 2 frame 6"

definition ip_flag_df :: "bytes \<Rightarrow> bool result" where
  "ip_flag_df frame = bind_r (ip_flags_fragoff frame) (\<lambda>w. Inr (w AND 0x4000 \<noteq> 0))"

definition ip_flag_mf :: "bytes \<Rightarrow> bool result" where
  "ip_flag_mf frame = bind_r (ip_flags_fragoff frame) (\<lambda>w. Inr (w AND 0x2000 \<noteq> 0))"

definition ip_offset :: "bytes \<Rightarrow> nat result" where
  "ip_offset frame = bind_r (ip_flags_fragoff frame) (\<lambda>w. Inr (nat (w AND 0x1FFF)))"

definition ip_ttl :: "bytes \<Rightarrow> int result" where
  "ip_ttl frame = byte_at frame 8"

definition ip_protocol :: "bytes \<Rightarrow> int result" where
  "ip_protocol frame = byte_at frame 9"

definition ip_src :: "bytes \<Rightarrow> int result" where
  "ip_src frame = unpack_be 4 frame 12"

definition ip_dst :: "bytes \<Rightarrow> int result" where
  "ip_dst frame = unpack_be 4 frame 16"

definition ip_data :: "bytes \<Rightarrow> bytes result" where
  "ip_data frame =
     bind_r (ip_ihl frame) (\<lambda>ihl. bind_r (ip_total_len frame) (\<lambda>t. Inr (slice frame ihl (ihl + t))))"

definition ip_header :: "bytes \<Rightarrow> bytes result" where
  "ip_header frame = bind_r (ip_ihl frame) (\<lambda>ihl. Inr (take ihl frame))"

end
