(* ===== verification/Inet.thy ===== *)
theory Inet
  imports Pack
begin

text \<open>
  \<^verbatim>\<open>tipy/lib/inet.py\<close> and \<^verbatim>\<open>tipy/lib/ethernet.py\<close>: IPv4 and MAC addresses, their construction from
  strings and integers, their printing and their classification.

  Python strings are \<open>string\<close>s, that is, code points below 256. The string an address object caches is a
  field of its record, \<^verbatim>\<open>''\<close> meaning that there is none yet.
\<close>

section \<open>Python strings\<close>

text \<open>\<^verbatim>\<open>s.split(c)\<close>, \<^verbatim>\<open>s.replace(c, d)\<close> for a replacement \<open>d\<close> of any length and \<^verbatim>\<open>c.join(ss)\<close>.\<close>

fun py_split :: "char \<Rightarrow> string \<Rightarrow> string list" where
  "py_split c [] = [[]]"
| "py_split c (x # xs) =
     (if x = c then [] # py_split c xs
      else case py_split c xs of [] \<Rightarrow> [[x]] | w # ws \<Rightarrow> (x # w) # ws)"

definition py_replace :: "char \<Rightarrow> string \<Rightarrow> string \<Rightarrow> string" where
  "py_replace c d s = concat (map (\<lambda>x. if x = c then d else [x]) s)"

fun py_join :: "char \<Rightarrow> string list \<Rightarrow> string" where
  "py_join c [] = []"
| "py_join c [w] = w"
| "py_join c (w # ws) = w @ c # py_join c ws"

text \<open>\<^verbatim>\<open>s.isascii() and s.isdigit()\<close>\<close>

definition char_code :: "char \<Rightarrow> nat" where
  "char_code c = of_char c"

definition is_dec :: "char \<Rightarrow> bool" where
  "is_dec c \<longleftrightarrow> 48 \<le> char_code c \<and> char_code c \<le> 57"

definition ascii_digits :: "string \<Rightarrow> bool" where
  "ascii_digits s \<longleftrightarrow> s \<noteq> [] \<and> list_all is_dec s"

text \<open>\<^verbatim>\<open>int(s, 10)\<close> on digits, and the decimal printing of \<^verbatim>\<open>f"{n}"\<close>.\<close>

definition dec_val :: "string \<Rightarrow> nat" where
  "dec_val s = foldl (\<lambda>a c. 10 * a + (char_code c - 48)) 0 s"

fun dec_str :: "nat \<Rightarrow> string" where
  "dec_str n = (if n < 10 then [char_of (48 + n)] else dec_str (n div 10) @ [char_of (48 + n mod 10)])"

declare dec_str.simps [simp del]

text \<open>
  \<^verbatim>\<open>int(s, 16)\<close>: surrounding white space, a sign, the prefix \<^verbatim>\<open>0x\<close> and single underscores between
  digits are accepted; \<open>None\<close> is \<^verbatim>\<open>ValueError\<close>.
\<close>

definition is_space :: "char \<Rightarrow> bool" where
  "is_space c \<longleftrightarrow> char_code c \<in> {9, 10, 11, 12, 13, 32, 133, 160}"

definition hex_digit :: "char \<Rightarrow> nat option" where
  "hex_digit c =
     (let n = char_code c
      in if 48 \<le> n \<and> n \<le> 57 then Some (n - 48)
         else if 97 \<le> n \<and> n \<le> 102 then Some (n - 87)
         else if 65 \<le> n \<and> n \<le> 70 then Some (n - 55) else None)"

fun hex_digits :: "nat \<Rightarrow> string \<Rightarrow> nat option" where
  "hex_digits acc [] = Some acc"
| "hex_digits acc (c # cs) =
     (case hex_digit c of
        Some d \<Rightarrow> hex_digits (16 * acc + d) cs
      | None \<Rightarrow>
          if c = CHR ''_'' then
            (case cs of [] \<Rightarrow> None
             | e # es \<Rightarrow> (case hex_digit e of None \<Rightarrow> None | Some d \<Rightarrow> hex_digits (16 * acc + d) es))
          else None)"

definition hex_body :: "string \<Rightarrow> nat option" where
  "hex_body s =
     (let s1 = (case s of a # x # r \<Rightarrow>
                  if a = CHR ''0'' \<and> (x = CHR ''x'' \<or> x = CHR ''X'')
                  then (case r of u # r' \<Rightarrow> if u = CHR ''_'' then r' else r | [] \<Rightarrow> r) else s
                | _ \<Rightarrow> s)
      in case s1 of [] \<Rightarrow> None
         | c # cs \<Rightarrow> (case hex_digit c of None \<Rightarrow> None | Some d \<Rightarrow> hex_digits d cs))"

definition py_strip :: "string \<Rightarrow> string" where
  "py_strip s = rev (dropWhile is_space (rev (dropWhile is_space s)))"

definition py_int16 :: "string \<Rightarrow> int option" where
  "py_int16 s =
     (case py_strip s of
        [] \<Rightarrow> None
      | c # cs \<Rightarrow>
          if c = CHR ''-'' then map_option (\<lambda>n. - int n) (hex_body cs)
          else if c = CHR ''+'' then map_option int (hex_body cs)
          else map_option int (hex_body (c # cs)))"

section \<open>IPAddress\<close>

record ipaddress =
  ipadd_int :: int
  ipadd_str :: string

fun ip_octets :: "nat \<Rightarrow> string list \<Rightarrow> int \<Rightarrow> int result" where
  "ip_octets i [] acc = Inr acc"
| "ip_octets i (o1 # os) acc =
     (if \<not> ascii_digits o1 then Inl IPFormatError
      else if length o1 > 1 \<and> hd o1 = CHR ''0'' then Inl IPFormatError
      else let octet = int (dec_val o1)
           in if \<not> (0 \<le> octet \<and> octet \<le> 0xFF) then Inl IPFormatError
              else ip_octets (i + 1) os (push_bit (24 - i * 8) octet OR acc))"

definition ip_init_str :: "string \<Rightarrow> ipaddress result" where
  "ip_init_str s =
     (if CHR ''.'' \<notin> set s then Inl IPFormatError
      else let octs = py_split (CHR ''.'') s
           in if length octs \<noteq> 4 then Inl IPFormatError
              else bind_r (ip_octets 0 octs 0) (\<lambda>n. Inr \<lparr>ipadd_int = n, ipadd_str = s\<rparr>))"

definition ip_init_int :: "int \<Rightarrow> ipaddress" where
  "ip_init_int n = \<lparr>ipadd_int = n, ipadd_str = []\<rparr>"

definition dotted :: "int \<Rightarrow> string" where
  "dotted n = dec_str (nat (drop_bit 24 n AND 0xFF)) @ CHR ''.'' # dec_str (nat (drop_bit 16 n AND 0xFF)) @
     CHR ''.'' # dec_str (nat (drop_bit 8 n AND 0xFF)) @ CHR ''.'' # dec_str (nat (n AND 0xFF))"

definition str_ip :: "ipaddress \<Rightarrow> string \<times> ipaddress" where
  "str_ip a = (let s = (if ipadd_str a = [] then dotted (ipadd_int a) else ipadd_str a)
               in (s, a\<lparr>ipadd_str := s\<rparr>))"

definition ip_is_private :: "int \<Rightarrow> bool" where
  "ip_is_private n \<longleftrightarrow> n AND 0xFF000000 = 0x0A000000 \<or> n AND 0xFFF00000 = 0xAC100000 \<or>
     n AND 0xFFFF0000 = 0xC0A80000"

definition ip_is_public :: "int \<Rightarrow> bool" where "ip_is_public n \<longleftrightarrow> \<not> ip_is_private n"
definition ip_is_loopback :: "int \<Rightarrow> bool" where "ip_is_loopback n \<longleftrightarrow> n AND 0xFF000000 = 0x7F000000"
definition ip_is_multicast :: "int \<Rightarrow> bool" where "ip_is_multicast n \<longleftrightarrow> n AND 0xF0000000 = 0xE0000000"
definition ip_is_unicast :: "int \<Rightarrow> bool" where "ip_is_unicast n \<longleftrightarrow> \<not> ip_is_multicast n \<and> n \<noteq> 0xFFFFFFFF"
definition ip_is_broadcast :: "int \<Rightarrow> bool" where "ip_is_broadcast n \<longleftrightarrow> n = 0xFFFFFFFF"

definition is_in_subnet :: "int \<Rightarrow> int \<Rightarrow> int \<Rightarrow> bool" where
  "is_in_subnet n network msk \<longleftrightarrow> n AND msk = network"

section \<open>MACAddress\<close>

record macaddress =
  macadd_int :: int
  macadd_int_high :: int
  macadd_int_low :: int
  macadd_str :: string

definition mac_init_str :: "string \<Rightarrow> macaddress result" where
  "mac_init_str s0 =
     (if CHR '':'' \<in> set s0 \<and> CHR ''-'' \<in> set s0 then Inl MACFormatError
      else
        let s = py_replace (CHR ''-'') '':'' s0
        in if length (py_split (CHR '':'') s) \<noteq> 6 then Inl MACFormatError
           else
             let m = py_replace (CHR '':'') '''' s
             in if length m \<noteq> 12 then Inl MACFormatError
                else case py_int16 m of None \<Rightarrow> Inl MACFormatError
                     | Some v \<Rightarrow> Inr \<lparr>macadd_int = v, macadd_int_high = drop_bit 16 v,
                                     macadd_int_low = v AND 0xFFFF, macadd_str = s\<rparr>)"

definition mac_init_int :: "int \<Rightarrow> macaddress" where
  "mac_init_int v = \<lparr>macadd_int = v, macadd_int_high = drop_bit 16 v, macadd_int_low = v AND 0xFFFF,
     macadd_str = []\<rparr>"

definition hex_char :: "nat \<Rightarrow> char" where
  "hex_char d = char_of (if d < 10 then 48 + d else 87 + d)"

text \<open>\<^verbatim>\<open>f"{b:02x}"\<close> of a byte.\<close>

definition hex2 :: "byte \<Rightarrow> string" where
  "hex2 b = [hex_char (unat b div 16), hex_char (unat b mod 16)]"

definition mac_str :: "macaddress \<Rightarrow> (string \<times> macaddress) result" where
  "mac_str a =
     (if macadd_str a = [] then
        bind_r (pack_fields [(4, macadd_int_high a), (2, macadd_int_low a)])
          (\<lambda>m. let s = py_join (CHR '':'') (map hex2 m) in Inr (s, a\<lparr>macadd_str := s\<rparr>))
      else Inr (macadd_str a, a))"

definition mac_is_broadcast :: "int \<Rightarrow> bool" where "mac_is_broadcast m \<longleftrightarrow> m = 0xFFFFFFFFFFFF"
definition mac_is_multicast :: "int \<Rightarrow> bool" where "mac_is_multicast m \<longleftrightarrow> drop_bit 40 m AND 1 = 1"
definition mac_is_unicast :: "int \<Rightarrow> bool" where "mac_is_unicast m \<longleftrightarrow> drop_bit 40 m AND 1 = 0"
definition mac_is_global :: "int \<Rightarrow> bool" where "mac_is_global m \<longleftrightarrow> drop_bit 40 m AND 2 = 0"
definition mac_is_local :: "int \<Rightarrow> bool" where "mac_is_local m \<longleftrightarrow> drop_bit 40 m AND 2 \<noteq> 0"

section \<open>Lemmas\<close>

lemma char_code_of [simp]: "n < 256 \<Longrightarrow> char_code (char_of n) = n"
  by (simp add: char_code_def)

lemma char_of_code [simp]: "char_of (char_code c) = c"
  by (simp add: char_code_def)

lemma char_code_inj: "char_code c = char_code d \<longleftrightarrow> c = d"
  by (simp add: char_code_def)

subsection \<open>Decimal numbers\<close>

lemma dec_val_snoc [simp]: "dec_val (s @ [c]) = 10 * dec_val s + (char_code c - 48)"
  by (simp add: dec_val_def)

lemma dec_str_digits: "ascii_digits (dec_str n)"
proof (induction n rule: dec_str.induct)
  case (1 n)
  have d: "m < 10 \<Longrightarrow> is_dec (char_of (48 + m))" for m :: nat by (simp add: is_dec_def)
  show ?case
    using 1 by (subst dec_str.simps) (simp add: ascii_digits_def d)
qed

lemma dec_val_str: "dec_val (dec_str n) = n"
proof (induction n rule: dec_str.induct)
  case (1 n)
  show ?case
  proof (cases "n < 10")
    case True
    then show ?thesis by (simp add: dec_str.simps [of n] dec_val_def)
  next
    case False
    then have "dec_val (dec_str n) = 10 * dec_val (dec_str (n div 10)) + n mod 10"
      by (subst dec_str.simps) simp
    then show ?thesis using 1 False by simp
  qed
qed

lemma hd_dec_str: "length (dec_str n) > 1 \<Longrightarrow> hd (dec_str n) \<noteq> CHR ''0'' \<and> 10 \<le> n"
proof (induction n rule: dec_str.induct)
  case (1 n)
  show ?case
  proof (cases "n < 10")
    case True
    then show ?thesis using "1.prems" by (simp add: dec_str.simps [of n])
  next
    case False
    have ne: "dec_str (n div 10) \<noteq> []" using dec_str_digits [of "n div 10"] by (simp add: ascii_digits_def)
    have h: "hd (dec_str n) = hd (dec_str (n div 10))" using False ne by (subst dec_str.simps) simp
    show ?thesis
    proof (cases "n div 10 < 10")
      case True
      then have "hd (dec_str n) = char_of (48 + n div 10)" using h by (simp add: dec_str.simps [of "n div 10"])
      moreover have "char_of (48 + n div 10) \<noteq> CHR ''0''"
      proof
        assume "char_of (48 + n div 10) = CHR ''0''"
        then have "char_code (char_of (48 + n div 10)) = char_code (CHR ''0'')" by simp
        then have "n div 10 = 0" using True by (simp add: char_code_def)
        then show False using False by simp
      qed
      ultimately show ?thesis using False by simp
    next
      case big: False
      have "dec_str (n div 10) = dec_str (n div 10 div 10) @ [char_of (48 + n div 10 mod 10)]"
        using big by (subst dec_str.simps) simp
      moreover have "dec_str (n div 10 div 10) \<noteq> []"
        using dec_str_digits [of "n div 10 div 10"] by (simp add: ascii_digits_def)
      ultimately have "length (dec_str (n div 10)) > 1" by (cases "dec_str (n div 10 div 10)") simp_all
      then show ?thesis using "1.IH" False h by simp
    qed
  qed
qed

lemma dec_val_bound: "list_all is_dec s \<Longrightarrow> dec_val s < 10 ^ length s"
proof (induction s rule: rev_induct)
  case (snoc c s)
  then show ?case by (auto simp: is_dec_def)
qed (simp add: dec_val_def)

lemma dec_str_val:
  "ascii_digits s \<Longrightarrow> length s = 1 \<or> hd s \<noteq> CHR ''0'' \<Longrightarrow> dec_str (dec_val s) = s"
proof (induction s rule: rev_induct)
  case Nil
  then show ?case by (simp add: ascii_digits_def)
next
  case (snoc c s)
  have c: "is_dec c" using snoc.prems by (simp add: ascii_digits_def)
  then have cc: "char_of (48 + (char_code c - 48)) = c" by (simp add: is_dec_def)
  show ?case
  proof (cases "s = []")
    case True
    moreover have "char_code c - 48 < 10" using c by (auto simp: is_dec_def)
    ultimately show ?thesis using cc by (simp add: dec_val_def dec_str.simps [of "char_code c - 48"])
  next
    case False
    then have s: "ascii_digits s" "hd s \<noteq> CHR ''0''" using snoc.prems by (auto simp: ascii_digits_def)
    then have IH: "dec_str (dec_val s) = s" using snoc.IH by simp
    have "dec_val s \<noteq> 0"
    proof
      assume "dec_val s = 0"
      moreover have "dec_str 0 = [CHR ''0'']" by code_simp
      ultimately have "s = [CHR ''0'']" using IH by simp
      then show False using s(2) by simp
    qed
    moreover have "char_code c - 48 < 10" using c by (auto simp: is_dec_def)
    ultimately have "dec_str (dec_val (s @ [c])) = dec_str (dec_val s) @ [char_of (48 + (char_code c - 48))]"
      by (subst dec_str.simps) simp
    then show ?thesis using IH cc by simp
  qed
qed

subsection \<open>Splitting\<close>

lemma py_split_ne [simp]: "py_split c s \<noteq> []"
  by (induction s) (auto split: list.splits)

lemma py_split_plain: "c \<notin> set w \<Longrightarrow> py_split c w = [w]"
  by (induction w) auto

lemma py_split_append: "c \<notin> set w \<Longrightarrow> py_split c (w @ c # s) = w # py_split c s"
  by (induction w) auto

lemma py_join_split: "py_join c (py_split c s) = s"
proof (induction s)
  case (Cons x s)
  obtain w ws where w: "py_split c s = w # ws" by (cases "py_split c s") auto
  show ?case using Cons w by (cases ws) auto
qed simp

lemma py_split_words: "w \<in> set (py_split c s) \<Longrightarrow> c \<notin> set w"
proof (induction s arbitrary: w)
  case (Cons x s)
  obtain v vs where v: "py_split c s = v # vs" by (cases "py_split c s") auto
  show ?case using Cons v by (auto split: if_splits)
qed simp

lemma digits_no_dot: "ascii_digits s \<Longrightarrow> c = CHR ''.'' \<or> c = CHR '':'' \<Longrightarrow> c \<notin> set s"
  unfolding ascii_digits_def list_all_iff by (auto simp: is_dec_def char_code_def)

subsection \<open>Octets of an address\<close>

lemma octet_and: "0xFF AND (n :: int) = n mod 256" "n AND 0xFF = n mod 256"
proof -
  have "n AND 0xFF = take_bit 8 n" by (simp add: take_bit_eq_mask mask_eq_exp_minus_1)
  then show "n AND 0xFF = n mod 256" by (simp add: take_bit_eq_mod)
  then show "0xFF AND n = n mod 256" by (simp add: and.commute)
qed

lemma dotted_octets:
  "dotted n = dec_str (nat (n div 16777216 mod 256)) @ CHR ''.'' # dec_str (nat (n div 65536 mod 256)) @
     CHR ''.'' # dec_str (nat (n div 256 mod 256)) @ CHR ''.'' # dec_str (nat (n mod 256))"
  by (simp add: dotted_def octet_and drop_bit_eq_div)

lemma push_or: "0 \<le> b \<Longrightarrow> b < 2 ^ k \<Longrightarrow> push_bit k a OR b = a * 2 ^ k + b" for a b :: int
proof -
  assume b: "0 \<le> b" "b < 2 ^ k"
  have "push_bit k a + b = push_bit k a OR b"
  proof (rule disjunctive_add)
    fix m
    have "take_bit k b = b" using b by (simp add: take_bit_int_eq_self_iff)
    then have "bit b m \<Longrightarrow> m < k" by (metis bit_take_bit_iff)
    then show "\<not> bit (push_bit k a) m \<or> \<not> bit b m" by (auto simp: bit_push_bit_iff)
  qed
  then show ?thesis by (simp add: push_bit_eq_mult)
qed

definition octet_ok :: "string \<Rightarrow> bool" where
  "octet_ok s \<longleftrightarrow> ascii_digits s \<and> (length s = 1 \<or> hd s \<noteq> CHR ''0'') \<and> dec_val s \<le> 255"

lemma octet_ok_dec_str: "n \<le> 255 \<Longrightarrow> octet_ok (dec_str n)"
  using dec_str_digits [of n] hd_dec_str [of n] dec_val_str [of n]
  by (cases "dec_str n"; cases "tl (dec_str n)") (auto simp: octet_ok_def ascii_digits_def)

lemma ip_octets_ok:
  assumes "octet_ok a" "octet_ok b" "octet_ok c" "octet_ok d"
  shows "ip_octets 0 [a, b, c, d] 0 =
    Inr (int (dec_val a) * 16777216 + int (dec_val b) * 65536 + int (dec_val c) * 256 + int (dec_val d))"
proof -
  have o: "ascii_digits x" "\<not> (length x > 1 \<and> hd x = CHR ''0'')" "int (dec_val x) \<le> 255" if "octet_ok x" for x
    using that by (auto simp: octet_ok_def)
  have c: "push_bit 8 z OR y OR v = z * 256 + (y OR v)" if "0 \<le> y OR v" "y OR v < 256" for y z v :: int
    using push_or [of "y OR v" 8 z] that by simp
  have "push_bit 24 A OR 0 = A * 2 ^ 24" for A :: int by (simp add: push_bit_eq_mult)
  moreover have "push_bit 16 B OR A * 2 ^ 24 = A * 2 ^ 24 + B * 2 ^ 16" if "0 \<le> B" "B \<le> 255" for A B :: int
    using push_or [of "B * 2 ^ 16" 24 A] that by (simp add: push_bit_eq_mult or.commute)
  moreover have "push_bit 8 C OR (A * 2 ^ 24 + B * 2 ^ 16) = A * 2 ^ 24 + B * 2 ^ 16 + C * 2 ^ 8"
    if "0 \<le> C" "C \<le> 255" for A B C :: int
    using push_or [of "C * 2 ^ 8" 16 "A * 256 + B"] that by (simp add: push_bit_eq_mult or.commute algebra_simps)
  moreover have "D OR (A * 2 ^ 24 + B * 2 ^ 16 + C * 2 ^ 8) = A * 2 ^ 24 + B * 2 ^ 16 + C * 2 ^ 8 + D"
    if "0 \<le> D" "D \<le> 255" for A B C D :: int
    using push_or [of D 8 "A * 65536 + B * 256 + C"] that by (simp add: push_bit_eq_mult or.commute algebra_simps)
  ultimately show ?thesis
    using o [OF assms(1)] o [OF assms(2)] o [OF assms(3)] o [OF assms(4)] by simp
qed

lemma ip_octets_Inr:
  assumes "ip_octets i os acc = Inr n"
  shows "list_all octet_ok os"
  using assms
proof (induction os arbitrary: i acc)
  case (Cons x os)
  then have "ascii_digits x" "\<not> (length x > 1 \<and> hd x = CHR ''0'')" "dec_val x \<le> 255" "list_all octet_ok os"
    by (auto simp: Let_def split: if_splits)
  moreover from this(1) have "x \<noteq> []" by (simp add: ascii_digits_def)
  ultimately have "octet_ok x" by (cases x; cases "tl x") (auto simp: octet_ok_def)
  then show ?case using \<open>list_all octet_ok os\<close> by simp
qed simp

lemma octet_digit_cases: "0 \<le> x \<Longrightarrow> x < 256 \<Longrightarrow> octet_ok (dec_str (nat x)) \<and> int (dec_val (dec_str (nat x))) = x" for x :: int
  using octet_ok_dec_str [of "nat x"] by (simp add: dec_val_str)

lemma octets_value:
  fixes A B C D :: int
  assumes "0 \<le> A" "A \<le> 255" "0 \<le> B" "B \<le> 255" "0 \<le> C" "C \<le> 255" "0 \<le> D" "D \<le> 255"
  defines "n \<equiv> A * 16777216 + B * 65536 + C * 256 + D"
  shows "n div 16777216 mod 256 = A" "n div 65536 mod 256 = B" "n div 256 mod 256 = C" "n mod 256 = D"
proof -
  have "n div 16777216 = A"
    using assms(1-8) unfolding n_def by (intro int_div_pos_eq [where r = "B * 65536 + C * 256 + D"]) simp_all
  then show "n div 16777216 mod 256 = A" using assms(1,2) by simp
  have "n div 65536 = A * 256 + B"
    using assms(1-8) unfolding n_def by (intro int_div_pos_eq [where r = "C * 256 + D"]) simp_all
  then show "n div 65536 mod 256 = B" using assms(3,4) by simp
  have "n div 256 = A * 65536 + B * 256 + C"
    using assms(1-8) unfolding n_def by (intro int_div_pos_eq [where r = D]) simp_all
  moreover have "(A * 65536 + B * 256 + C) mod 256 = C"
    using assms(5,6) by (intro int_mod_pos_eq [where q = "A * 256 + B"]) simp_all
  ultimately show "n div 256 mod 256 = C" by simp
  show "n mod 256 = D"
    using assms(7,8) unfolding n_def by (intro int_mod_pos_eq [where q = "A * 65536 + B * 256 + C"]) simp_all
qed

subsection \<open>Hexadecimal bytes\<close>

lemma hex_char_digit: "d < 16 \<Longrightarrow> hex_digit (hex_char d) = Some d"
  by (auto simp: hex_digit_def hex_char_def Let_def)

lemma hex_digits_append:
  "hex_digits acc (concat (map hex2 bs)) = Some (foldl (\<lambda>a b. 256 * a + unat b) acc bs)"
proof (induction bs arbitrary: acc)
  case (Cons b bs)
  have "unat b < 256" using unsigned_less [of b] by simp
  then have "hex_digit (hex_char (unat b div 16)) = Some (unat b div 16)"
    "hex_digit (hex_char (unat b mod 16)) = Some (unat b mod 16)"
    by (simp_all add: hex_char_digit)
  then show ?case using Cons by (simp add: hex2_def add.commute)
qed simp

lemma be_val_foldl: "be_val bs = foldl (\<lambda>a b. 256 * a + unat b) 0 bs"
  by (induction bs rule: rev_induct) (simp_all add: be_val_def)

lemma be_val_append: "be_val (xs @ ys) = be_val xs * 256 ^ length ys + be_val ys"
proof (induction ys rule: rev_induct)
  case (snoc y ys)
  have "be_val (xs @ ys @ [y]) = 256 * be_val (xs @ ys) + unat y" by (simp add: be_val_foldl)
  moreover have "be_val (ys @ [y]) = 256 * be_val ys + unat y" by (simp add: be_val_foldl)
  ultimately show ?case using snoc by (simp add: algebra_simps)
qed (simp add: be_val_def)

lemma py_split_join: "ws \<noteq> [] \<Longrightarrow> \<forall>w\<in>set ws. c \<notin> set w \<Longrightarrow> py_split c (py_join c ws) = ws"
  by (induction c ws rule: py_join.induct) (simp_all add: py_split_plain py_split_append)

lemma py_replace_plain: "c \<notin> set s \<Longrightarrow> py_replace c d s = s"
proof (induction s)
  case (Cons x s)
  then have "py_replace c d s = s" "x \<noteq> c" by auto
  then show ?case by (simp add: py_replace_def)
qed (simp add: py_replace_def)

lemma py_replace_append: "py_replace c d (s @ t) = py_replace c d s @ py_replace c d t"
  by (simp add: py_replace_def)

lemma py_replace_join: "\<forall>w\<in>set ws. c \<notin> set w \<Longrightarrow> py_replace c [] (py_join c ws) = concat ws"
proof (induction c ws rule: py_join.induct)
  case (1 c)
  then show ?case by (simp add: py_replace_def)
next
  case (2 c w)
  then show ?case by (simp add: py_replace_plain)
next
  case (3 c w v vs)
  have "py_replace c [] (c # py_join c (v # vs)) = py_replace c [] (py_join c (v # vs))"
    by (simp add: py_replace_def)
  then show ?case using 3 by (simp add: py_replace_append py_replace_plain)
qed

lemma set_py_join: "set (py_join c ws) \<subseteq> insert c (\<Union>(set ` set ws))"
  by (induction c ws rule: py_join.induct) auto

lemma hex_chars:
  assumes "d < 16"
  shows "hex_char d \<noteq> CHR '':''" "hex_char d \<noteq> CHR ''-''" "hex_char d \<noteq> CHR ''+''" "hex_char d \<noteq> CHR ''x''"
    "hex_char d \<noteq> CHR ''X''" "\<not> is_space (hex_char d)"
proof -
  have "hex_digit (CHR '':'') = None" "hex_digit (CHR ''-'') = None" "hex_digit (CHR ''+'') = None"
    "hex_digit (CHR ''x'') = None" "hex_digit (CHR ''X'') = None"
    by (simp_all add: hex_digit_def char_code_def)
  then show "hex_char d \<noteq> CHR '':''" "hex_char d \<noteq> CHR ''-''" "hex_char d \<noteq> CHR ''+''" "hex_char d \<noteq> CHR ''x''"
    "hex_char d \<noteq> CHR ''X''"
    using hex_char_digit [OF assms] by auto
  show "\<not> is_space (hex_char d)" using assms by (auto simp: is_space_def hex_char_def)
qed

lemma byte_nibbles: "unat b div 16 < 16" "unat b mod 16 < 16" for b :: byte
proof -
  have "unat b < 256" using unsigned_less [of b] by simp
  then show "unat b div 16 < 16" by (simp add: less_mult_imp_div_less)
qed simp

lemma hex2_chars:
  "c \<in> set (hex2 b) \<Longrightarrow> c \<noteq> CHR '':'' \<and> c \<noteq> CHR ''-'' \<and> \<not> is_space c"
  using hex_chars byte_nibbles by (auto simp: hex2_def)

lemma py_int16_hex:
  assumes "bs \<noteq> []"
  shows "py_int16 (concat (map hex2 bs)) = Some (int (be_val bs))"
proof -
  let ?s = "concat (map hex2 bs)"
  obtain b r where b: "bs = b # r" using assms by (cases bs) auto
  obtain x y t where s: "?s = x # y # t" "x = hex_char (unat b div 16)" "y = hex_char (unat b mod 16)"
    by (simp add: b hex2_def)
  have sp: "\<forall>c\<in>set ?s. \<not> is_space c" using hex2_chars by fastforce
  have dw: "dropWhile is_space u = u" if "\<forall>c\<in>set u. \<not> is_space c" for u
    using that by (cases u) simp_all
  have strip: "py_strip ?s = ?s" unfolding py_strip_def using sp dw [of ?s] dw [of "rev ?s"] by simp
  have x: "hex_digit x = Some (unat b div 16)" "x \<noteq> CHR ''-''" "x \<noteq> CHR ''+''"
    using hex_char_digit hex_chars byte_nibbles [of b] s(2) by simp_all
  have y: "y \<noteq> CHR ''x''" "y \<noteq> CHR ''X''" using hex_chars byte_nibbles [of b] s(3) by simp_all
  have "hex_body ?s = hex_digits 0 ?s" unfolding s(1) using x(1) y by (simp add: hex_body_def)
  also have "\<dots> = Some (be_val bs)" by (simp add: hex_digits_append be_val_foldl)
  finally have "hex_body (x # y # t) = Some (be_val bs)" unfolding s(1) .
  then show ?thesis using strip x(2,3) unfolding s(1) by (simp add: py_int16_def)
qed

section \<open>Properties\<close>

text \<open>C33. Printing and parsing of IPv4 addresses are inverse to each other: every 32-bit address prints as a
  string that the constructor accepts and reads back as that address, and every string the
  constructor accepts is the printed form of its address, a 32-bit number.\<close>

theorem ip_string_roundtrip:
  "(0 \<le> n \<and> n < 2 ^ 32 \<longrightarrow> map_sum id ipadd_int (ip_init_str (fst (str_ip (ip_init_int n)))) = Inr n) \<and>
   (ip_init_str s = Inr a \<longrightarrow> 0 \<le> ipadd_int a \<and> ipadd_int a < 2 ^ 32 \<and>
      fst (str_ip (ip_init_int (ipadd_int a))) = s \<and> fst (str_ip a) = s)"
proof (intro conjI impI)
  assume n: "0 \<le> n \<and> n < 2 ^ 32"
  define A B C D where d: "A = n div 16777216 mod 256" "B = n div 65536 mod 256" "C = n div 256 mod 256" "D = n mod 256"
  let ?a = "dec_str (nat A)" and ?b = "dec_str (nat B)" and ?c = "dec_str (nat C)" and ?d = "dec_str (nat D)"
  have k: "octet_ok ?a" "octet_ok ?b" "octet_ok ?c" "octet_ok ?d"
    by (simp_all add: d octet_digit_cases)
  have v: "int (dec_val ?a) = A" "int (dec_val ?b) = B" "int (dec_val ?c) = C" "int (dec_val ?d) = D"
    by (simp_all add: d dec_val_str)
  have nd: "CHR ''.'' \<notin> set x" if "octet_ok x" for x
    using that digits_no_dot by (simp add: octet_ok_def)
  have sp: "py_split (CHR ''.'') (dotted n) = [?a, ?b, ?c, ?d]"
    unfolding dotted_octets d [symmetric]
    using k by (simp add: py_split_append py_split_plain nd)
  have "n < 4294967296" using n by simp
  then have "n div 16777216 < 256" by linarith
  then have "A = n div 16777216" using n by (simp add: d pos_imp_zdiv_nonneg_iff)
  moreover have "n = n div 16777216 * 16777216 + B * 65536 + C * 256 + D"
  proof -
    have "n div 65536 = n div 256 div 256" "n div 16777216 = n div 65536 div 256"
      using zdiv_zmult2_eq [of 256 n 256] zdiv_zmult2_eq [of 256 n 65536] by simp_all
    then have "n div 256 = n div 65536 * 256 + C" "n div 65536 = n div 16777216 * 256 + B" "n = n div 256 * 256 + D"
      unfolding d by simp_all
    then show ?thesis by linarith
  qed
  ultimately have "A * 16777216 + B * 65536 + C * 256 + D = n" by simp
  then have "ip_octets 0 [?a, ?b, ?c, ?d] 0 = Inr n" using ip_octets_ok [OF k] v by simp
  moreover have "CHR ''.'' \<in> set (dotted n)" by (simp add: dotted_def)
  ultimately show "map_sum id ipadd_int (ip_init_str (fst (str_ip (ip_init_int n)))) = Inr n"
    using sp by (simp add: str_ip_def ip_init_int_def ip_init_str_def Let_def)
next
  assume "ip_init_str s = Inr a"
  then obtain v where l: "length (py_split (CHR ''.'') s) = 4" and
      o: "ip_octets 0 (py_split (CHR ''.'') s) 0 = Inr v" and a: "a = \<lparr>ipadd_int = v, ipadd_str = s\<rparr>" and dot: "CHR ''.'' \<in> set s"
    by (auto simp: ip_init_str_def Let_def bind_r_Inr_iff split: if_splits)
  have ne: "s \<noteq> []" using dot by auto
  from l obtain w x y z where q: "py_split (CHR ''.'') s = [w, x, y, z]"
    by (auto simp: eval_nat_numeral length_Suc_conv)
  have k: "octet_ok w" "octet_ok x" "octet_ok y" "octet_ok z" using ip_octets_Inr [OF o] q by simp_all
  define A B C D where d: "A = int (dec_val w)" "B = int (dec_val x)" "C = int (dec_val y)" "D = int (dec_val z)"
  have r: "0 \<le> A" "A \<le> 255" "0 \<le> B" "B \<le> 255" "0 \<le> C" "C \<le> 255" "0 \<le> D" "D \<le> 255"
    using k by (simp_all add: d octet_ok_def)
  have v: "v = A * 16777216 + B * 65536 + C * 256 + D" using o ip_octets_ok [OF k] q by (simp add: d)
  note oct = octets_value [OF r, folded v]
  have canon: "dec_str (dec_val u) = u" if "octet_ok u" for u
    using that dec_str_val by (simp add: octet_ok_def)
  have "dotted v = py_join (CHR ''.'') [w, x, y, z]"
    unfolding dotted_octets oct using k by (simp add: d canon)
  then have "dotted v = s" using py_join_split [of "CHR ''.''" s] q by simp
  then show "0 \<le> ipadd_int a" "ipadd_int a < 2 ^ 32" "fst (str_ip (ip_init_int (ipadd_int a))) = s" "fst (str_ip a) = s"
    using r ne v by (simp_all add: a str_ip_def ip_init_int_def Let_def)
qed

theorem ip_string_roundtrip_witness:
  "map_sum id ipadd_int (ip_init_str (fst (str_ip (ip_init_int 0xC0A80001)))) = Inr 0xC0A80001"
  using ip_string_roundtrip [of "0xC0A80001"] by simp

text \<open>Every 48-bit MAC address prints as a string that the constructor accepts and reads back as that
  address.\<close>

lemma mac_string_roundtrip:
  assumes "0 \<le> n" "n < 2 ^ 48"
  shows "\<exists>s a. mac_str (mac_init_int n) = Inr (s, a) \<and> map_sum id macadd_int (mac_init_str s) = Inr n"
proof -
  let ?h = "n div 65536" and ?l = "n mod 65536"
  let ?m = "be_bytes 4 ?h @ be_bytes 2 ?l"
  let ?s = "py_join (CHR '':'') (map hex2 ?m)"
  have l16: "n AND 0xFFFF = ?l"
  proof -
    have "n AND 0xFFFF = take_bit 16 n" by (simp add: take_bit_eq_mask mask_eq_exp_minus_1)
    then show ?thesis by (simp add: take_bit_eq_mod)
  qed
  have h: "0 \<le> ?h" "?h < 256 ^ 4" using assms by (simp_all add: pos_imp_zdiv_nonneg_iff div_less_iff_less_mult)
  have l: "0 \<le> ?l" "?l < 256 ^ 2" by simp_all
  have ne: "?m \<noteq> []" by (metis append_is_Nil_conv length_0_conv length_be_bytes zero_neq_numeral)
  have "pack_fields [(4, ?h), (2, ?l)] = Inr ?m" using h l by (simp add: pack_be_def)
  then have p: "mac_str (mac_init_int n) = Inr (?s, (mac_init_int n)\<lparr>macadd_str := ?s\<rparr>)"
    by (simp add: mac_str_def mac_init_int_def l16 drop_bit_eq_div Let_def)
  have colon: "\<forall>w\<in>set (map hex2 ?m). CHR '':'' \<notin> set w" using hex2_chars by auto
  have dash: "CHR ''-'' \<notin> set ?s" using set_py_join [of "CHR '':''" "map hex2 ?m"] hex2_chars by fastforce
  have v: "int (be_val ?m) = n"
    using be_val_be_bytes [OF h] be_val_be_bytes [OF l] by (simp add: be_val_append)
  have "length (concat (map hex2 ?m)) = 12" by (simp add: length_concat hex2_def comp_def sum_list_triv)
  moreover have "py_int16 (concat (map hex2 ?m)) = Some n" using py_int16_hex [OF ne] v by simp
  moreover have "py_split (CHR '':'') ?s = map hex2 ?m" by (rule py_split_join [OF _ colon]) (use ne in simp)
  moreover have "py_replace (CHR '':'') [] ?s = concat (map hex2 ?m)" by (rule py_replace_join [OF colon])
  ultimately have "map_sum id macadd_int (mac_init_str ?s) = Inr n"
    using dash py_replace_plain [OF dash] by (simp add: mac_init_str_def Let_def)
  then show ?thesis using p by blast
qed

lemma mac_string_roundtrip_witness:
  "\<exists>s a. mac_str (mac_init_int 0x0242AC110002) = Inr (s, a) \<and> map_sum id macadd_int (mac_init_str s) = Inr 0x0242AC110002"
  using mac_string_roundtrip [of "0x0242AC110002"] by simp

text \<open>The constructor accepts strings that are not six pairs of hexadecimal digits: the digits may be
  grouped unevenly, and \<^verbatim>\<open>int(m, 16)\<close> takes a prefix, a sign and underscores.\<close>

lemma mac_accepts_malformed:
  "map_sum id macadd_int (mac_init_str ''0x:11:22:33:44:55'') = Inr 0x1122334455 \<and>
   map_sum id macadd_int (mac_init_str ''1:222:33:44:55:66'') = Inr 0x122233445566 \<and>
   map_sum id macadd_int (mac_init_str ''+1:22:33:4_:55:66'') = Inr 0x1223345566"
  by (intro conjI) (simp_all add: mac_init_str_def py_replace_def py_int16_def py_strip_def is_space_def
      char_code_def hex_body_def hex_digit_def)

end
