(* ===== verification/Ether_Arp.thy ===== *)
theory Ether_Arp
  imports Ip_Header Inet
begin

text \<open>
  The builders and parsers of Ethernet frames and ARP packets: \<^verbatim>\<open>ether/builder.py\<close>, \<^verbatim>\<open>ether/parser.py\<close>,
  \<^verbatim>\<open>arp/builder.py\<close>, \<^verbatim>\<open>arp/parser.py\<close>, and what \<^verbatim>\<open>TXRing._tx_loop\<close> writes to the interface for a frame.
  A MAC address is its integer; \<^verbatim>\<open>mac_high\<close> and \<^verbatim>\<open>mac_low\<close> are those of theory \<open>Inet\<close>.
\<close>

section \<open>ARP\<close>

definition ARP_HEADER_LEN :: nat where "ARP_HEADER_LEN = 28"
definition ARP_OP_REQUEST :: int where "ARP_OP_REQUEST = 1"
definition ARP_OP_REPLY :: int where "ARP_OP_REPLY = 2"

definition mac_high :: "int \<Rightarrow> int" where "mac_high m = macadd_int_high (mac_init_int m)"
definition mac_low :: "int \<Rightarrow> int" where "mac_low m = macadd_int_low (mac_init_int m)"

record arp_builder =
  ab_sha :: int
  ab_spa :: int
  ab_tha :: int
  ab_tpa :: int
  ab_op :: int

definition arp_fields :: "arp_builder \<Rightarrow> (nat \<times> int) list" where
  "arp_fields b =
     [(2, 1), (2, 0x0800), (1, 6), (1, 4), (2, ab_op b), (4, mac_high (ab_sha b)), (2, mac_low (ab_sha b)),
      (4, ab_spa b), (4, mac_high (ab_tha b)), (2, mac_low (ab_tha b)), (4, ab_tpa b)]"

definition arp_build :: "arp_builder \<Rightarrow> bytes \<Rightarrow> bytes result" where
  "arp_build b frame = pack_into (arp_fields b) frame 0"

text \<open>\<^verbatim>\<open>unpack_from('! I H', frame[off:off+6])\<close> as an address.\<close>

definition unpack_mac :: "bytes \<Rightarrow> nat \<Rightarrow> int result" where
  "unpack_mac frame off =
     bind_r (unpack_be 4 frame off) (\<lambda>i. bind_r (unpack_be 2 frame (off + 4)) (\<lambda>h. Inr (push_bit 16 i OR h)))"

definition arp_hwtype :: "bytes \<Rightarrow> int result" where "arp_hwtype frame = unpack_be 2 frame 0"
definition arp_ptype :: "bytes \<Rightarrow> int result" where "arp_ptype frame = unpack_be 2 frame 2"
definition arp_hwlen :: "bytes \<Rightarrow> int result" where "arp_hwlen frame = byte_at frame 4"
definition arp_plen :: "bytes \<Rightarrow> int result" where "arp_plen frame = byte_at frame 5"
definition arp_op :: "bytes \<Rightarrow> int result" where "arp_op frame = unpack_be 2 frame 6"
definition arp_sha :: "bytes \<Rightarrow> int result" where "arp_sha frame = unpack_mac frame 8"
definition arp_spa :: "bytes \<Rightarrow> int result" where "arp_spa frame = unpack_be 4 frame 14"
definition arp_tha :: "bytes \<Rightarrow> int result" where "arp_tha frame = unpack_mac frame 18"
definition arp_tpa :: "bytes \<Rightarrow> int result" where "arp_tpa frame = unpack_be 4 frame 24"

section \<open>Ethernet\<close>

definition ETHER_LEN :: nat where "ETHER_LEN = 14"

datatype ether_payload = EtherIp ip_builder | EtherArp arp_builder

fun ether_payload_len :: "ether_payload \<Rightarrow> nat" where
  "ether_payload_len (EtherIp b) = ip_len b"
| "ether_payload_len (EtherArp b) = ARP_HEADER_LEN"

fun ether_payload_build :: "ether_payload \<Rightarrow> bytes \<Rightarrow> bytes result" where
  "ether_payload_build (EtherIp b) frame = ip_build b frame"
| "ether_payload_build (EtherArp b) frame = arp_build b frame"

record ether_builder =
  eb_dst :: int
  eb_src :: int
  eb_type :: int
  eb_payload :: ether_payload

definition ether_len :: "ether_builder \<Rightarrow> nat" where
  "ether_len b = ETHER_LEN + ether_payload_len (eb_payload b)"

definition ether_fields :: "ether_builder \<Rightarrow> (nat \<times> int) list" where
  "ether_fields b =
     [(4, mac_high (eb_dst b)), (2, mac_low (eb_dst b)), (4, mac_high (eb_src b)), (2, mac_low (eb_src b)),
      (2, eb_type b)]"

definition ether_build :: "ether_builder \<Rightarrow> bytes \<Rightarrow> bytes result" where
  "ether_build b frame =
     bind_r (pack_into (ether_fields b) frame 0)
       (\<lambda>f. build_at 14 f (ether_payload_build (eb_payload b)))"

definition ether_dst :: "bytes \<Rightarrow> int result" where "ether_dst frame = unpack_mac frame 0"
definition ether_src :: "bytes \<Rightarrow> int result" where "ether_src frame = unpack_mac frame 6"
definition ether_type :: "bytes \<Rightarrow> int result" where "ether_type frame = unpack_be 2 frame 12"

text \<open>The bytes \<^verbatim>\<open>_tx_loop\<close> writes for a frame it takes from the ring.\<close>

definition tx_frame_bytes :: "ether_builder \<Rightarrow> bytes result" where
  "tx_frame_bytes packet =
     bind_r (ether_build packet (replicate (MTU + 14) 0)) (\<lambda>frame. Inr (take (ether_len packet) frame))"

end
