(* ===== verification/Packet_Props.thy ===== *)
theory Packet_Props
  imports Ether_Arp
begin

text \<open>
  Round trips of the builders and parsers: what a builder writes into a zeroed frame, that the parser
  reads the fields back, and that the checksum verifies at the receiver.
\<close>

section \<open>Building into a zeroed frame\<close>

named_theorems build_simps \<open>the bytes the builders write\<close>

text \<open>Reading the field at a position of an encoded list.\<close>

lemma read_field:
  assumes "i < length fs" "fs ! i = (k, v)" "field_ok (k, v)" "off = sum_list (map fst (take i fs))"
  shows "unpack_be k (enc fs @ zs) off = Inr v"
proof -
  have "enc fs = enc (take i fs) @ be_bytes k v @ enc (drop (Suc i) fs)"
    using assms(1,2) by (metis enc_simps(2,3) id_take_nth_drop)
  then show ?thesis using unpack_enc [OF assms(3,4)] by simp
qed

lemma read_byte:
  "i < length fs \<Longrightarrow> fs ! i = (1, v) \<Longrightarrow> field_ok (1, v) \<Longrightarrow> off = sum_list (map fst (take i fs)) \<Longrightarrow>
    byte_at (enc fs @ zs) off = Inr v"
  unfolding byte_unpack by (rule read_field)

lemma field_ok_simps [simp]:
  "field_ok (k, v) \<longleftrightarrow> 0 \<le> v \<and> v < 256 ^ k"
  by (simp add: field_ok_def)

lemma inet_csum_bounds [simp]:
  "0 \<le> inet_csum_little data s" "inet_csum_little data s < 65536"
  using inet_csum_range [of data s] by simp_all

lemma pack_front_zeros:
  "list_all field_ok fs \<Longrightarrow> length (enc fs) = k \<Longrightarrow> k \<le> n \<Longrightarrow>
    pack_into fs (replicate n 0) 0 = Inr (enc fs @ replicate (n - k) 0)"
  by (simp add: pack_into_front)

lemma pack_str_zeros:
  "length xs = off \<Longrightarrow> length data \<le> n \<Longrightarrow>
    pack_str_into (length data) data (xs @ replicate n 0) off = Inr (xs @ data @ replicate (n - length data) 0)"
  by (simp add: pack_str_into_def slice_assign_def)

lemma mv_assign_zeros:
  "length xs = off \<Longrightarrow> length data \<le> n \<Longrightarrow>
    mv_assign (xs @ replicate n 0) off data = Inr (xs @ data @ replicate (n - length data) 0)"
  by (simp add: mv_assign_def slice_assign_def)

lemma pack_csum:
  "length xs = off \<Longrightarrow> pack_into [(2, inet_csum_little d s)] (xs @ be_bytes 2 v @ zs) off =
    Inr (xs @ be_bytes 2 (inet_csum_little d s) @ zs)"
  by (rule pack_into_at) simp_all

text \<open>A header with its checksum, computed over the packet with a zero in its place.\<close>

definition seal :: "bytes \<Rightarrow> bytes \<Rightarrow> nat \<Rightarrow> bytes" where
  "seal pre post s = pre @ be_bytes 2 (inet_csum_little (pre @ be_bytes 2 0 @ post) s) @ post"

lemma length_seal [simp]: "length (seal pre post s) = length pre + 2 + length post"
  by (simp add: seal_def)

lemma csum_zeros:
  "4 dvd length ph \<Longrightarrow>
    inet_csum_little (xs @ replicate k 0) (cast_sum le_val 4 ph) = inet_csum_little xs (cast_sum le_val 4 ph)"
  using be16_sum_zeros [of "ph @ xs" k] by (simp add: csum_little_phdr rfc1071_def)

lemma cast_sum_Nil [simp]: "cast_sum le_val 4 [] = 0"
  by (simp add: cast_sum_def chunks.simps)

lemma seal_verifies:
  "even (length pre) \<Longrightarrow> 4 dvd length ph \<Longrightarrow>
    inet_csum_little (seal pre post (cast_sum le_val 4 ph)) (cast_sum le_val 4 ph) = 0"
  using csum_verifies [of pre ph post 0] by (simp add: seal_def)

lemma pack_seal:
  assumes "length pre = off" "4 dvd length ph"
  shows "pack_into [(2, inet_csum_little (pre @ be_bytes 2 0 @ post @ replicate k 0) (cast_sum le_val 4 ph))]
      (pre @ be_bytes 2 0 @ post @ replicate k 0) off =
    Inr (seal pre post (cast_sum le_val 4 ph) @ replicate k 0)"
  using csum_zeros [OF assms(2), of "pre @ be_bytes 2 0 @ post" k] assms(1) by (simp add: pack_csum seal_def)

section \<open>UDP\<close>

definition udp_ok :: "udp_builder \<Rightarrow> bool" where
  "udp_ok u \<longleftrightarrow> 0 \<le> ub_src u \<and> ub_src u < 65536 \<and> 0 \<le> ub_dst u \<and> ub_dst u < 65536 \<and> udp_len u < 65536"

definition udp_bytes :: "udp_builder \<Rightarrow> nat \<Rightarrow> bytes" where
  "udp_bytes u s = seal (enc [(2, ub_src u), (2, ub_dst u), (2, int (udp_len u))]) (ub_data u) s"

lemma length_udp_bytes [simp]: "length (udp_bytes u s) = udp_len u"
  by (simp add: udp_bytes_def udp_len_def UDP_HEADER_LEN_def)

lemma udp_build_eq [build_simps]:
  assumes "udp_ok u" "udp_len u \<le> n" "4 dvd length ph"
  shows "udp_build u (cast_sum le_val 4 ph) (replicate n 0) =
    Inr (udp_bytes u (cast_sum le_val 4 ph) @ replicate (n - udp_len u) 0)"
proof -
  let ?pre = "enc [(2, ub_src u), (2, ub_dst u), (2, int (udp_len u))]"
  have n: "8 + length (ub_data u) \<le> n" using assms(2) by (simp add: udp_len_def UDP_HEADER_LEN_def)
  have 1: "pack_into [(2, ub_src u), (2, ub_dst u), (2, int (udp_len u)), (2, 0)] (replicate n 0) 0 =
      Inr ((?pre @ be_bytes 2 0) @ replicate (n - 8) 0)"
    using assms(1) n by (subst pack_front_zeros [of _ 8]) (simp_all add: udp_ok_def)
  have 2: "pack_str_into (length (ub_data u)) (ub_data u) ((?pre @ be_bytes 2 0) @ replicate (n - 8) 0) 8 =
      Inr (?pre @ be_bytes 2 0 @ ub_data u @ replicate (n - udp_len u) 0)"
    using n by (subst pack_str_zeros) (simp_all add: udp_len_def UDP_HEADER_LEN_def)
  show ?thesis
    unfolding udp_build_def 1 2 bind_r_simps udp_bytes_def
    by (rule pack_seal) (simp_all add: assms(3))
qed

lemma udp_parse_bytes:
  assumes "udp_ok u"
  shows "\<exists>h. udp_parse (udp_bytes u s) = Inr h \<and> uh_src h = ub_src u \<and> uh_dst h = ub_dst u \<and>
    uh_len h = int (udp_len u) \<and> uh_data h = ub_data u"
proof -
  let ?f = "udp_bytes u s" and ?c = "inet_csum_little (enc [(2, ub_src u), (2, ub_dst u), (2, int (udp_len u))] @
      be_bytes 2 0 @ ub_data u) s"
  have r: "unpack_be 2 ?f 0 = Inr (ub_src u)" "unpack_be 2 ?f 2 = Inr (ub_dst u)"
    "unpack_be 2 ?f 4 = Inr (int (udp_len u))" "unpack_be 2 ?f 6 = Inr ?c"
    using assms unpack_enc [of 2 "ub_src u" 0 "[]"] unpack_enc [of 2 "ub_dst u" 2 "[(2, ub_src u)]"]
      unpack_enc [of 2 "int (udp_len u)" 4 "[(2, ub_src u), (2, ub_dst u)]"]
      unpack_enc [of 2 ?c 6 "[(2, ub_src u), (2, ub_dst u), (2, int (udp_len u))]"]
    by (simp_all add: udp_bytes_def seal_def udp_ok_def)
  have "drop 8 ?f = ub_data u" by (simp add: udp_bytes_def seal_def)
  then show ?thesis by (simp add: udp_parse_def r uh_data_def UDP_HEADER_LEN_def)
qed

section \<open>ICMP\<close>

definition icmp_rest :: "icmp_builder \<Rightarrow> (nat \<times> int) list" where
  "icmp_rest b =
     (if ib_type b \<in> {DESTINATION_UNREACHABLE, TIME_EXCEEDED} then [(4, 0)]
      else [(2, the (ib_echo_id b)), (2, the (ib_echo_seq b))])"

definition icmp_ok :: "icmp_builder \<Rightarrow> bool" where
  "icmp_ok b \<longleftrightarrow> 0 \<le> ib_code b \<and> ib_code b < 256 \<and>
     (ib_type b \<in> {DESTINATION_UNREACHABLE, TIME_EXCEEDED} \<or>
      ib_type b \<in> {ECHO_REQUEST, ECHO_REPLY} \<and>
        (\<exists>i s. ib_echo_id b = Some i \<and> ib_echo_seq b = Some s \<and> 0 \<le> i \<and> i < 65536 \<and> 0 \<le> s \<and> s < 65536))"

definition icmp_bytes :: "icmp_builder \<Rightarrow> bytes" where
  "icmp_bytes b = seal (enc [(1, ib_type b), (1, ib_code b)]) (enc (icmp_rest b) @ ib_data b) 0"

lemmas icmp_consts = DESTINATION_UNREACHABLE_def TIME_EXCEEDED_def ECHO_REQUEST_def ECHO_REPLY_def

lemma length_icmp_rest [simp]: "length (enc (icmp_rest b)) = 4"
  by (simp add: icmp_rest_def)

lemma length_icmp_bytes [simp]: "length (icmp_bytes b) = icmp_len b"
  by (simp add: icmp_bytes_def icmp_len_def)

lemma icmp_finish_eq:
  assumes "icmp_len b \<le> n"
  shows "icmp_finish b (enc ([(1, ib_type b), (1, ib_code b), (2, 0)] @ icmp_rest b) @ replicate (n - 8) 0) =
    Inr (icmp_bytes b @ replicate (n - icmp_len b) 0)"
proof -
  let ?pre = "enc [(1, ib_type b), (1, ib_code b)]"
  have 1: "mv_assign (enc ([(1, ib_type b), (1, ib_code b), (2, 0)] @ icmp_rest b) @ replicate (n - 8) 0) 8 (ib_data b) =
      Inr (?pre @ be_bytes 2 0 @ (enc (icmp_rest b) @ ib_data b) @ replicate (n - icmp_len b) 0)"
    using assms by (subst mv_assign_zeros) (simp_all add: icmp_len_def)
  show ?thesis
    unfolding icmp_finish_def 1 bind_r_simps icmp_bytes_def
    using pack_seal [of ?pre 2 "[]" "enc (icmp_rest b) @ ib_data b" "n - icmp_len b"] by simp
qed

lemma icmp_build_eq [build_simps]:
  assumes "icmp_ok b" "icmp_len b \<le> n"
  shows "icmp_build b (replicate n 0) = Inr (icmp_bytes b @ replicate (n - icmp_len b) 0)"
proof -
  have 1: "pack_into ([(1, ib_type b), (1, ib_code b), (2, 0)] @ icmp_rest b) (replicate n 0) 0 =
      Inr (enc ([(1, ib_type b), (1, ib_code b), (2, 0)] @ icmp_rest b) @ replicate (n - 8) 0)"
    using assms by (subst pack_front_zeros [of _ 8]) (auto simp: icmp_ok_def icmp_rest_def icmp_len_def icmp_consts)
  show ?thesis
  proof (cases "ib_type b \<in> {DESTINATION_UNREACHABLE, TIME_EXCEEDED}")
    case True
    then show ?thesis using 1 icmp_finish_eq [OF assms(2)] by (simp add: icmp_build_def icmp_rest_def)
  next
    case False
    then obtain i s where "ib_type b \<in> {ECHO_REQUEST, ECHO_REPLY}" "ib_echo_id b = Some i" "ib_echo_seq b = Some s"
      using assms(1) by (auto simp: icmp_ok_def)
    then show ?thesis
      using False 1 icmp_finish_eq [OF assms(2)] unfolding icmp_build_def by (simp add: icmp_rest_def)
  qed
qed

lemma icmp_verifies: "inet_csum_little (icmp_bytes b) 0 = 0"
  using seal_verifies [of "enc [(1, ib_type b), (1, ib_code b)]" "[]" "enc (icmp_rest b) @ ib_data b"]
  by (simp add: icmp_bytes_def)

lemma icmp_parse_bytes:
  assumes "icmp_ok b" "ib_type b \<in> {ECHO_REQUEST, ECHO_REPLY}"
  shows "\<exists>h. icmp_parse (icmp_bytes b) = Inr h \<and> ih_type h = ib_type b \<and> ih_code h = ib_code b \<and>
    Some (ih_echo_id h) = ib_echo_id b \<and> Some (ih_echo_seq h) = ib_echo_seq b \<and> ih_data h = ib_data b"
proof -
  have t: "ib_type b \<noteq> DESTINATION_UNREACHABLE" "ib_type b \<noteq> TIME_EXCEEDED" "0 \<le> ib_type b" "ib_type b < 256"
    using assms(2) by (auto simp: icmp_consts)
  then obtain i s where ids: "ib_echo_id b = Some i" "ib_echo_seq b = Some s" "0 \<le> i" "i < 65536" "0 \<le> s" "s < 65536"
    using assms(1) by (auto simp: icmp_ok_def)
  have c: "0 \<le> ib_code b" "ib_code b < 256" using assms(1) by (auto simp: icmp_ok_def)
  let ?f = "icmp_bytes b" and ?c = "inet_csum_little (enc [(1, ib_type b), (1, ib_code b)] @
      be_bytes 2 0 @ enc (icmp_rest b) @ ib_data b) 0"
  have f: "?f = enc [(1, ib_type b), (1, ib_code b), (2, ?c), (2, i), (2, s)] @ ib_data b"
    using t by (simp add: icmp_bytes_def seal_def icmp_rest_def ids(1,2))
  have "byte_at ?f 0 = Inr (ib_type b)" unfolding f
    using byte_enc [of "ib_type b" 0 "[]"] t by simp
  moreover have "byte_at ?f 1 = Inr (ib_code b)" unfolding f
    using byte_enc [of "ib_code b" 1 "[(1, ib_type b)]"] c by simp
  moreover have "unpack_be 2 ?f 4 = Inr i" unfolding f
    using unpack_enc [of 2 i 4 "[(1, ib_type b), (1, ib_code b), (2, ?c)]"] ids(3,4) by simp
  moreover have "unpack_be 2 ?f 6 = Inr s" unfolding f
    using unpack_enc [of 2 s 6 "[(1, ib_type b), (1, ib_code b), (2, ?c), (2, i)]"] ids(5,6) by simp
  moreover have "drop 8 ?f = ib_data b" unfolding f by simp
  ultimately show ?thesis using ids(1,2) by (simp add: icmp_parse_def ih_data_def ICM_HEADER_LEN_def)
qed

section \<open>TCP\<close>

fun tcp_opt_bytes :: "tcp_opt \<Rightarrow> bytes" where
  "tcp_opt_bytes (TCPOptEOL n) = enc [(1, 0)]"
| "tcp_opt_bytes TCPOptNOP = enc [(1, 1)]"
| "tcp_opt_bytes TCPOptMSS = enc [(1, 2), (1, 4), (2, MSS)]"

definition tcp_opt_ok :: "tcp_opt \<Rightarrow> bool" where
  "tcp_opt_ok opt \<longleftrightarrow> (\<forall>n. opt = TCPOptEOL n \<longrightarrow> n = 1)"

lemma length_tcp_opt_bytes: "tcp_opt_ok opt \<Longrightarrow> length (tcp_opt_bytes opt) = tcp_opt_len opt"
  by (cases opt) (simp_all add: tcp_opt_ok_def)

lemma tcp_opt_build_eq:
  "tcp_opt_ok opt \<Longrightarrow> length xs = off \<Longrightarrow> tcp_opt_len opt \<le> n \<Longrightarrow>
    tcp_opt_build opt (xs @ replicate n 0) off = Inr (xs @ tcp_opt_bytes opt @ replicate (n - tcp_opt_len opt) 0)"
  by (cases opt)
    (simp_all add: tcp_opt_ok_def pack_into_def pack_be_def slice_assign_def MSS_def)

lemma tcp_opts_build_eq:
  "list_all tcp_opt_ok opts \<Longrightarrow> length xs = off \<Longrightarrow> tcp_opts_len opts \<le> n \<Longrightarrow>
    tcp_opts_build opts (xs @ replicate n 0) off =
      Inr (xs @ concat (map tcp_opt_bytes opts) @ replicate (n - tcp_opts_len opts) 0)"
proof (induction opts arbitrary: xs off n)
  case Nil
  then show ?case by (simp add: tcp_opts_len_def)
next
  case (Cons opt opts)
  have l: "length (xs @ tcp_opt_bytes opt) = off + tcp_opt_len opt" "tcp_opts_len opts \<le> n - tcp_opt_len opt"
    using Cons.prems by (simp_all add: length_tcp_opt_bytes tcp_opts_len_def)
  show ?case
    using Cons.prems Cons.IH [OF _ l] by (simp add: tcp_opt_build_eq tcp_opts_len_def diff_diff_add)
qed

lemma length_tcp_opts_bytes:
  "list_all tcp_opt_ok opts \<Longrightarrow> length (concat (map tcp_opt_bytes opts)) = tcp_opts_len opts"
  by (induction opts) (simp_all add: tcp_opts_len_def length_tcp_opt_bytes)

definition tcp_ok :: "tcp_builder \<Rightarrow> bool" where
  "tcp_ok b \<longleftrightarrow> 0 \<le> tb_src b \<and> tb_src b < 65536 \<and> 0 \<le> tb_dst b \<and> tb_dst b < 65536 \<and>
     0 \<le> tb_seq b \<and> tb_seq b < 4294967296 \<and> 0 \<le> tb_ack_seq b \<and> tb_ack_seq b < 4294967296 \<and>
     0 \<le> tb_window b \<and> tb_window b < 65536 \<and> 0 \<le> tb_urg_ptr b \<and> tb_urg_ptr b < 65536 \<and>
     list_all tcp_opt_ok (tb_options b) \<and> 4 dvd tcp_opts_len (tb_options b) \<and> tcp_opts_len (tb_options b) \<le> 40"

lemma tcp_doff_range: "tcp_ok b \<Longrightarrow> tcp_doff b \<le> 15"
  by (auto simp: tcp_ok_def tcp_doff_def TCP_DOFF_def)

lemma tcp_flag_word_bits:
  assumes "tcp_ok b"
  shows "drop_bit 12 (tcp_flag_word b) = int (tcp_doff b)"
    "bit (tcp_flag_word b) 0 = tb_fin b" "bit (tcp_flag_word b) 1 = tb_syn b" "bit (tcp_flag_word b) 2 = tb_rst b"
    "bit (tcp_flag_word b) 3 = tb_psh b" "bit (tcp_flag_word b) 4 = tb_ack b"
    "bit (tcp_flag_word b) 5 = tb_urg b" "bit (tcp_flag_word b) 6 = tb_ece b" "bit (tcp_flag_word b) 7 = tb_cwr b"
    "0 \<le> tcp_flag_word b" "tcp_flag_word b < 65536"
proof -
  show 1: "drop_bit 12 (tcp_flag_word b) = int (tcp_doff b)"
    by (rule bit_eqI) (auto simp: tcp_flag_word_def bit_simps of_bool_def)
  show "bit (tcp_flag_word b) 0 = tb_fin b" "bit (tcp_flag_word b) 1 = tb_syn b"
    "bit (tcp_flag_word b) 2 = tb_rst b" "bit (tcp_flag_word b) 3 = tb_psh b" "bit (tcp_flag_word b) 4 = tb_ack b"
    "bit (tcp_flag_word b) 5 = tb_urg b" "bit (tcp_flag_word b) 6 = tb_ece b" "bit (tcp_flag_word b) 7 = tb_cwr b"
    by (simp_all add: tcp_flag_word_def bit_simps)
  show "0 \<le> tcp_flag_word b" by (simp add: tcp_flag_word_def)
  have "tcp_flag_word b div 4096 \<le> 15" using 1 tcp_doff_range [OF assms] by (simp add: drop_bit_eq_div)
  then show "tcp_flag_word b < 65536" by linarith
qed

definition tcp_pre :: "tcp_builder \<Rightarrow> (nat \<times> int) list" where
  "tcp_pre b = [(2, tb_src b), (2, tb_dst b), (4, tb_seq b), (4, tb_ack_seq b),
     (1, tcp_flag_word b div 256), (1, tcp_flag_word b mod 256), (2, tb_window b)]"

definition tcp_rest :: "tcp_builder \<Rightarrow> bytes" where
  "tcp_rest b = be_bytes 2 (tb_urg_ptr b) @ concat (map tcp_opt_bytes (tb_options b)) @ tb_data b"

definition tcp_bytes :: "tcp_builder \<Rightarrow> nat \<Rightarrow> bytes" where
  "tcp_bytes b s = seal (enc (tcp_pre b)) (tcp_rest b) s"

lemma be_bytes_2_split: "be_bytes 2 v = be_bytes 1 (v div 256) @ be_bytes 1 (v mod 256)"
proof -
  have "word_of_int (v mod 256) = (word_of_int v :: byte)"
    by (rule word_unat_eq_iff [THEN iffD2]) (simp only: unat_byte mod_mod_trivial)
  then show ?thesis by (simp add: eval_nat_numeral)
qed

lemma tcp_opts_dvd: "tcp_ok b \<Longrightarrow> tcp_opts_len (tb_options b) div 4 * 4 = tcp_opts_len (tb_options b)"
  by (simp add: tcp_ok_def)

lemma tcp_len_eq: "tcp_ok b \<Longrightarrow> tcp_len b = 20 + tcp_opts_len (tb_options b) + length (tb_data b)"
  using tcp_opts_dvd [of b] by (simp add: tcp_len_def tcp_doff_def TCP_DOFF_def)

lemma length_tcp_bytes: "tcp_ok b \<Longrightarrow> length (tcp_bytes b s) = tcp_len b"
  using length_tcp_opts_bytes [of "tb_options b"]
  by (simp add: tcp_bytes_def tcp_pre_def tcp_rest_def tcp_len_eq tcp_ok_def del: length_concat)

lemma tcp_build_eq [build_simps]:
  assumes "tcp_ok b" "tcp_len b \<le> n" "4 dvd length ph"
  shows "tcp_build b (cast_sum le_val 4 ph) (replicate n 0) =
    Inr (tcp_bytes b (cast_sum le_val 4 ph) @ replicate (n - tcp_len b) 0)"
proof -
  let ?o = "tcp_opts_len (tb_options b)" and ?ob = "concat (map tcp_opt_bytes (tb_options b))"
  let ?h = "enc (tcp_pre b) @ be_bytes 2 0 @ be_bytes 2 (tb_urg_ptr b)"
  have n: "20 + ?o + length (tb_data b) \<le> n" using assms(2) tcp_len_eq [OF assms(1)] by simp
  have oks: "list_all tcp_opt_ok (tb_options b)" using assms(1) by (simp add: tcp_ok_def)
  have lh: "length ?h = 20" by (simp add: tcp_pre_def)
  have 1: "pack_into [(2, tb_src b), (2, tb_dst b), (4, tb_seq b), (4, tb_ack_seq b), (2, tcp_flag_word b),
      (2, tb_window b), (2, 0), (2, tb_urg_ptr b)] (replicate n 0) 0 = Inr (?h @ replicate (n - 20) 0)"
    using assms(1) n tcp_flag_word_bits(10,11) [OF assms(1)]
    by (subst pack_front_zeros [of _ 20]) (simp_all add: tcp_ok_def tcp_pre_def be_bytes_2_split [of "tcp_flag_word b"])
  have 2: "(if ?o \<noteq> 0 then tcp_opts_build (tb_options b) (?h @ replicate (n - 20) 0) 20
      else Inr (?h @ replicate (n - 20) 0)) = Inr ((?h @ ?ob) @ replicate (n - 20 - ?o) 0)"
    using n lh tcp_opts_build_eq [OF oks lh, of "n - 20"] length_tcp_opts_bytes [OF oks]
    by (auto simp del: length_concat)
  have 3: "mv_assign ((?h @ ?ob) @ replicate (n - 20 - ?o) 0) (20 + ?o) (tb_data b) =
      Inr (enc (tcp_pre b) @ be_bytes 2 0 @ tcp_rest b @ replicate (n - tcp_len b) 0)"
    using n lh length_tcp_opts_bytes [OF oks]
    by (subst mv_assign_zeros) (simp_all add: tcp_rest_def tcp_len_eq [OF assms(1)] del: length_concat)
  show ?thesis
    unfolding tcp_build_def 1 2 3 bind_r_simps tcp_bytes_def
    by (rule pack_seal) (simp_all add: tcp_pre_def assms(3))
qed

lemma tcp_bytes_fields:
  assumes "tcp_ok b"
  shows "\<exists>c. 0 \<le> c \<and> c < 65536 \<and> tcp_bytes b s = enc (tcp_pre b @ [(2, c), (2, tb_urg_ptr b)]) @
    concat (map tcp_opt_bytes (tb_options b)) @ tb_data b"
  by (rule exI [of _ "inet_csum_little (enc (tcp_pre b) @ be_bytes 2 0 @ tcp_rest b) s"])
    (simp add: tcp_bytes_def seal_def tcp_rest_def)

definition seg_of :: "tcp_builder \<Rightarrow> nat \<Rightarrow> tcp_seg" where
  "seg_of b s =
     \<lparr>sg_frame = tcp_bytes b s, sg_src = tb_src b, sg_dst = tb_dst b, sg_seq = tb_seq b, sg_ack_seq = tb_ack_seq b,
      sg_doff = int (tcp_doff b * 4), sg_flags = tcp_flag_word b mod 256, sg_window = tb_window b,
      sg_dlen = int (length (tb_data b))\<rparr>"

lemma tcp_parse_bytes:
  assumes "tcp_ok b"
  shows "tcp_parse (tcp_bytes b s) = Inr (seg_of b s)"
proof -
  obtain c where f: "tcp_bytes b s = enc (tcp_pre b @ [(2, c), (2, tb_urg_ptr b)]) @
      concat (map tcp_opt_bytes (tb_options b)) @ tb_data b"
    using tcp_bytes_fields [OF assms] by blast
  let ?w = "tcp_flag_word b"
  have w: "0 \<le> ?w div 256" "?w div 256 < 256" "0 \<le> ?w mod 256" "?w mod 256 < 256"
    using tcp_flag_word_bits(10,11) [OF assms] by simp_all
  note ok = assms [unfolded tcp_ok_def]
  have r: "unpack_be 2 (tcp_bytes b s) 0 = Inr (tb_src b)" "unpack_be 2 (tcp_bytes b s) 2 = Inr (tb_dst b)"
    "unpack_be 4 (tcp_bytes b s) 4 = Inr (tb_seq b)" "unpack_be 4 (tcp_bytes b s) 8 = Inr (tb_ack_seq b)"
    "byte_at (tcp_bytes b s) 12 = Inr (?w div 256)" "byte_at (tcp_bytes b s) 13 = Inr (?w mod 256)"
    "unpack_be 2 (tcp_bytes b s) 14 = Inr (tb_window b)"
    unfolding f using ok w
    by (simp_all add: tcp_pre_def read_field [of 0] read_field [of 1] read_field [of 2] read_field [of 3]
        read_byte [of 4] read_byte [of 5] read_field [of 6] del: enc_simps)
  have "drop_bit 4 (?w div 256) = drop_bit 12 ?w"
    by (simp add: drop_bit_eq_div zdiv_zmult2_eq [symmetric])
  then have "drop_bit 4 (?w div 256) * 4 = int (tcp_doff b * 4)" using tcp_flag_word_bits(1) [OF assms] by simp
  moreover have "length (tcp_bytes b s) = tcp_doff b * 4 + length (tb_data b)"
    using length_tcp_bytes [OF assms] by (simp add: tcp_len_def)
  ultimately show ?thesis by (simp add: tcp_parse_def r seg_of_def Let_def)
qed

lemma seg_of_flags:
  assumes "tcp_ok b"
  shows "sg_fin (seg_of b s) = tb_fin b" "sg_syn (seg_of b s) = tb_syn b" "sg_rst (seg_of b s) = tb_rst b"
    "sg_psh (seg_of b s) = tb_psh b" "sg_ack (seg_of b s) = tb_ack b"
    "sg_urg (seg_of b s) = tb_urg b" "sg_ece (seg_of b s) = tb_ece b" "sg_cwr (seg_of b s) = tb_cwr b"
proof -
  have "tcp_flag_word b mod 256 = take_bit 8 (tcp_flag_word b)" by (simp add: take_bit_eq_mod)
  then show "sg_fin (seg_of b s) = tb_fin b" "sg_syn (seg_of b s) = tb_syn b" "sg_rst (seg_of b s) = tb_rst b"
    "sg_psh (seg_of b s) = tb_psh b" "sg_ack (seg_of b s) = tb_ack b"
    "sg_urg (seg_of b s) = tb_urg b" "sg_ece (seg_of b s) = tb_ece b" "sg_cwr (seg_of b s) = tb_cwr b"
    using tcp_flag_word_bits(2-9) [OF assms] by (simp_all add: flag_bits seg_of_def bit_take_bit_iff)
qed

lemma seg_of_data:
  assumes "tcp_ok b"
  shows "sg_data (seg_of b s) = tb_data b"
proof -
  obtain c where f: "tcp_bytes b s = enc (tcp_pre b @ [(2, c), (2, tb_urg_ptr b)]) @
      concat (map tcp_opt_bytes (tb_options b)) @ tb_data b"
    using tcp_bytes_fields [OF assms] by blast
  have "length (enc (tcp_pre b @ [(2, c), (2, tb_urg_ptr b)]) @ concat (map tcp_opt_bytes (tb_options b))) = tcp_doff b * 4"
    using length_tcp_opts_bytes [of "tb_options b"] assms tcp_opts_dvd [OF assms]
    by (simp add: tcp_pre_def tcp_ok_def tcp_doff_def TCP_DOFF_def del: length_concat)
  then have "drop (tcp_doff b * 4) (tcp_bytes b s) = tb_data b"
    unfolding f by (simp del: length_concat)
  then show ?thesis by (simp add: sg_data_def seg_of_def slice_simps nat_mult_distrib)
qed

lemma seg_of_urg_ptr:
  assumes "tcp_ok b"
  shows "sg_urg_ptr (seg_of b s) = Inr (tb_urg_ptr b)"
proof -
  obtain c where f: "tcp_bytes b s = enc (tcp_pre b @ [(2, c), (2, tb_urg_ptr b)]) @
      concat (map tcp_opt_bytes (tb_options b)) @ tb_data b"
    using tcp_bytes_fields [OF assms] by blast
  show ?thesis
    unfolding sg_urg_ptr_def seg_of_def f using assms
    by (simp add: tcp_pre_def tcp_ok_def read_field [of 8] del: enc_simps)
qed

text \<open>What the parser makes of a list of options: it stops at the first EOL.\<close>

fun opts_read :: "tcp_opt list \<Rightarrow> int option \<Rightarrow> int option" where
  "opts_read [] m = m"
| "opts_read (TCPOptNOP # opts) m = opts_read opts m"
| "opts_read (TCPOptMSS # opts) m = opts_read opts (Some MSS)"
| "opts_read (TCPOptEOL n # opts) m = m"

lemma opts_read_eq:
  "opts_read opts m =
     (if TCPOptMSS \<in> set (takeWhile (\<lambda>opt. opt \<noteq> TCPOptEOL 1) opts) then Some MSS else m)"
  if "list_all tcp_opt_ok opts"
  using that by (induction opts m rule: opts_read.induct) (auto simp: tcp_opt_ok_def)

lemma parse_opts_bytes:
  assumes "list_all tcp_opt_ok opts" "doff = length xs + tcp_opts_len opts"
  shows "parse_opts (xs @ concat (map tcp_opt_bytes opts) @ zs) doff (length xs) m = Inr (opts_read opts m)"
  using assms
proof (induction opts arbitrary: xs m)
  case Nil
  then show ?case by (subst parse_opts.simps) (simp add: tcp_opts_len_def)
next
  case (Cons opt opts)
  let ?xs = "xs @ tcp_opt_bytes opt" and ?zs = "concat (map tcp_opt_bytes opts) @ zs"
  have ok: "tcp_opt_ok opt" "doff = length ?xs + tcp_opts_len opts"
    using Cons.prems by (simp_all add: tcp_opts_len_def length_tcp_opt_bytes)
  have ih: "parse_opts (xs @ tcp_opt_bytes opt @ ?zs) doff (length ?xs) m = Inr (opts_read opts m)" for m
    using Cons.IH [of ?xs m] Cons.prems(1) ok(2) by simp
  have mss: "int (be_val (be_bytes 2 MSS)) = MSS" by (rule be_val_be_bytes) (simp_all add: MSS_def)
  have lt: "length xs < doff" using ok by (cases opt) (simp_all add: tcp_opt_ok_def)
  show ?case
    using ih lt ok(1)
    by (subst parse_opts.simps, cases opt)
      (simp_all add: byte_at_def unpack_be_def slice_def TCP_MSS_KIND_def TCP_NOP_KIND_def TCP_EOL_KIND_def
        TCP_MSS_LEN_def TCP_NOP_LEN_def tcp_opt_ok_def mss)
qed

lemma seg_of_options:
  assumes "tcp_ok b"
  shows "sg_options (seg_of b s) = Inr (opts_read (tb_options b) None)"
proof -
  obtain c where f: "tcp_bytes b s = enc (tcp_pre b @ [(2, c), (2, tb_urg_ptr b)]) @
      concat (map tcp_opt_bytes (tb_options b)) @ tb_data b"
    using tcp_bytes_fields [OF assms] by blast
  let ?h = "enc (tcp_pre b @ [(2, c), (2, tb_urg_ptr b)])"
  have l: "length ?h = 20" by (simp add: tcp_pre_def)
  have ok: "list_all tcp_opt_ok (tb_options b)" using assms by (simp add: tcp_ok_def)
  have d: "tcp_doff b * 4 = length ?h + tcp_opts_len (tb_options b)"
    using tcp_opts_dvd [OF assms] l by (simp add: tcp_doff_def TCP_DOFF_def)
  have n: "nat (sg_doff (seg_of b s)) = tcp_doff b * 4" by (simp add: seg_of_def nat_mult_distrib)
  show ?thesis
    unfolding sg_options_def n using parse_opts_bytes [OF ok d, of "tb_data b" None] l
    by (simp add: seg_of_def f)
qed

lemma seg_of_mss:
  "tcp_ok b \<Longrightarrow> tb_options b = [TCPOptMSS] \<Longrightarrow> sg_options (seg_of b s) = Inr (Some MSS)"
  by (simp add: seg_of_options)

section \<open>IP\<close>

fun payload_ok :: "payload \<Rightarrow> int \<Rightarrow> bool" where
  "payload_ok (PUdp u) p \<longleftrightarrow> udp_ok u \<and> p = IP_PROTO_UDP"
| "payload_ok (PTcp b) p \<longleftrightarrow> tcp_ok b \<and> p = IP_PROTO_TCP"
| "payload_ok (PIcmp b) p \<longleftrightarrow> icmp_ok b \<and> p \<notin> NEED_P_HDR_SUM"
| "payload_ok (PRaw d) p \<longleftrightarrow> p \<notin> NEED_P_HDR_SUM"

fun payload_bytes :: "payload \<Rightarrow> nat \<Rightarrow> bytes" where
  "payload_bytes (PUdp u) s = udp_bytes u s"
| "payload_bytes (PTcp b) s = tcp_bytes b s"
| "payload_bytes (PIcmp b) s = icmp_bytes b"
| "payload_bytes (PRaw d) s = d"

lemmas proto_consts = NEED_P_HDR_SUM_def IP_PROTO_UDP_def IP_PROTO_TCP_def

lemma length_payload_bytes: "payload_ok pl p \<Longrightarrow> length (payload_bytes pl s) = payload_len pl"
  by (cases pl) (simp_all add: length_tcp_bytes)

lemma payload_build_eq:
  assumes "payload_ok pl p" "payload_len pl \<le> n" "4 dvd length ph"
  shows "payload_build pl (if p \<in> NEED_P_HDR_SUM then Some (cast_sum le_val 4 ph) else None) (replicate n 0) =
    Inr (payload_bytes pl (cast_sum le_val 4 ph) @ replicate (n - payload_len pl) 0)"
  using assms mv_assign_zeros [of "[]" 0]
  by (cases pl) (simp_all add: proto_consts build_simps raw_build_def)

definition ip_ttl_of :: "ip_builder \<Rightarrow> int" where
  "ip_ttl_of b = (case ipb_ttl b of OptInt t \<Rightarrow> t | OptBytes _ \<Rightarrow> 0)"

text \<open>A datagram without options whose fields fit: what \<^verbatim>\<open>tx_ip\<close> builds when no socket option is set.\<close>

definition ip_ok :: "ip_builder \<Rightarrow> bool" where
  "ip_ok b \<longleftrightarrow> ipb_options b = [] \<and> ipb_ihl b = IP_IHL \<and> ipb_total_len b = 20 + payload_len (ipb_payload b) \<and>
     ipb_total_len b < 65536 \<and> 0 \<le> ipb_id b \<and> ipb_id b < 65536 \<and> 0 \<le> ipb_offset b \<and> ipb_offset b < 8192 \<and>
     (\<exists>t. ipb_ttl b = OptInt t \<and> 0 \<le> t \<and> t < 256) \<and> 0 \<le> ipb_protocol b \<and> ipb_protocol b < 256 \<and>
     0 \<le> ipb_src b \<and> ipb_src b < 4294967296 \<and> 0 \<le> ipb_dst b \<and> ipb_dst b < 4294967296 \<and>
     payload_ok (ipb_payload b) (ipb_protocol b)"

definition ph_bytes :: "int \<Rightarrow> int \<Rightarrow> int \<Rightarrow> int \<Rightarrow> bytes" where
  "ph_bytes src dst protocol len = enc [(4, src), (4, dst), (1, 0), (1, protocol), (2, len)]"

lemma length_ph_bytes [simp]: "length (ph_bytes src dst protocol len) = 12"
  by (simp add: ph_bytes_def)

lemma phdr_sum_eq:
  "0 \<le> src \<Longrightarrow> src < 4294967296 \<Longrightarrow> 0 \<le> dst \<Longrightarrow> dst < 4294967296 \<Longrightarrow> 0 \<le> protocol \<Longrightarrow> protocol < 256 \<Longrightarrow>
    0 \<le> len \<Longrightarrow> len < 65536 \<Longrightarrow> phdr_sum src dst protocol len = Inr (cast_sum le_val 4 (ph_bytes src dst protocol len))"
  by (simp add: phdr_sum_def phdr_def pack_fields_ok ph_bytes_def del: enc_simps pack_fields.simps)

definition ip_ph :: "ip_builder \<Rightarrow> bytes" where
  "ip_ph b = ph_bytes (ipb_src b) (ipb_dst b) (ipb_protocol b) (int (payload_len (ipb_payload b)))"

lemma ip_psum_eq: "ip_ok b \<Longrightarrow> ip_psum b = Inr (cast_sum le_val 4 (ip_ph b))"
  by (simp add: ip_psum_def ip_ok_def ip_ph_def IP_IHL_def phdr_sum_eq)

definition ip_pre :: "ip_builder \<Rightarrow> (nat \<times> int) list" where
  "ip_pre b = [(1, 0x45), (1, 0), (2, int (ipb_total_len b)), (2, ipb_id b), (2, ip_flags_word b),
     (1, ip_ttl_of b), (1, ipb_protocol b)]"

definition ip_hdr_bytes :: "ip_builder \<Rightarrow> bytes" where
  "ip_hdr_bytes b = seal (enc (ip_pre b)) (enc [(4, ipb_src b), (4, ipb_dst b)]) 0"

definition ip_bytes :: "ip_builder \<Rightarrow> bytes" where
  "ip_bytes b = ip_hdr_bytes b @ payload_bytes (ipb_payload b) (cast_sum le_val 4 (ip_ph b))"

lemma length_ip_hdr_bytes [simp]: "length (ip_hdr_bytes b) = 20"
  by (simp add: ip_hdr_bytes_def ip_pre_def)

lemma length_ip_bytes: "ip_ok b \<Longrightarrow> length (ip_bytes b) = ip_len b"
  by (auto simp: ip_bytes_def ip_ok_def length_payload_bytes ip_len_def IP_IHL_def)

lemma ip_hdr_verifies: "inet_csum_little (ip_hdr_bytes b) 0 = 0"
  using seal_verifies [of "enc (ip_pre b)" "[]"] by (simp add: ip_hdr_bytes_def ip_pre_def)

lemma ip_flags_word_bits:
  assumes "0 \<le> ipb_offset b" "ipb_offset b < 8192"
  shows "ip_flags_word b AND 0x1FFF = ipb_offset b" "ip_flags_word b AND 0x2000 \<noteq> 0 \<longleftrightarrow> ipb_mf b"
    "ip_flags_word b AND 0x4000 \<noteq> 0 \<longleftrightarrow> ipb_df b" "0 \<le> ip_flags_word b" "ip_flags_word b < 65536"
proof -
  have t: "take_bit 13 (ipb_offset b) = ipb_offset b" using assms by (simp add: take_bit_int_eq_self_iff)
  have o: "\<not> bit (ipb_offset b) n" if "13 \<le> n" for n
    using that t by (metis bit_take_bit_iff linorder_not_le)
  have "ip_flags_word b AND 0x1FFF = take_bit 13 (ip_flags_word b)"
    by (simp add: take_bit_eq_mask mask_eq_exp_minus_1)
  also have "\<dots> = ipb_offset b"
    by (subst t [symmetric], rule bit_eqI) (auto simp: ip_flags_word_def bit_simps)
  finally show "ip_flags_word b AND 0x1FFF = ipb_offset b" .
  show "ip_flags_word b AND 0x2000 \<noteq> 0 \<longleftrightarrow> ipb_mf b"
    using and_pow2_bit [of "ip_flags_word b" 13] o [of 13] by (simp add: ip_flags_word_def bit_simps)
  show "ip_flags_word b AND 0x4000 \<noteq> 0 \<longleftrightarrow> ipb_df b"
    using and_pow2_bit [of "ip_flags_word b" 14] o [of 14] by (simp add: ip_flags_word_def bit_simps)
  show "0 \<le> ip_flags_word b" using assms by (simp add: ip_flags_word_def)
  have "take_bit 16 (ip_flags_word b) = ip_flags_word b"
  proof (rule bit_eqI)
    fix m :: nat
    show "bit (take_bit 16 (ip_flags_word b)) m = bit (ip_flags_word b) m"
      using o [of m] by (cases "m < 16") (auto simp: ip_flags_word_def bit_simps)
  qed
  then show "ip_flags_word b < 65536" by (simp add: take_bit_int_eq_self_iff)
qed

lemma ip_build_eq:
  assumes ok: "ip_ok b" and n: "ip_len b \<le> n"
  shows "ip_build b (replicate n 0) = Inr (ip_bytes b @ replicate (n - ip_len b) 0)"
proof -
  obtain t where t: "ipb_ttl b = OptInt t" "0 \<le> t" "t < 256" using ok by (auto simp: ip_ok_def)
  let ?pl = "ipb_payload b" and ?post = "enc [(4, ipb_src b), (4, ipb_dst b)]"
  have o: "ipb_options b = []" and ihl: "ipb_ihl b * 4 = 20" and n20: "20 \<le> n"
    and n': "n - ip_len b = n - 20 - payload_len ?pl" "payload_len ?pl \<le> n - 20"
    using ok n by (simp_all add: ip_ok_def IP_IHL_def ip_len_def)
  have fl: "ip_fields b t = ip_pre b @ [(2, 0), (4, ipb_src b), (4, ipb_dst b)]"
    using ok by (simp add: ip_fields_def ip_pre_def ip_ok_def IP_VERSION_def IP_IHL_def ip_ttl_of_def t(1))
  have "0 \<le> ipb_offset b" "ipb_offset b < 8192" using ok by (simp_all add: ip_ok_def)
  note w = ip_flags_word_bits(4,5) [OF this]
  have 1: "pack_into (ip_fields b t) (replicate n 0) 0 =
      Inr (enc (ip_pre b) @ be_bytes 2 0 @ ?post @ replicate (n - 20) 0)"
    unfolding fl using ok n20 w t
    by (subst pack_front_zeros [of _ 20]) (simp_all add: ip_ok_def ip_pre_def ip_ttl_of_def)
  have 2: "pack_into [(2, inet_csum_little (enc (ip_pre b) @ be_bytes 2 0 @ ?post @ replicate (n - 20) 0) 0)]
      (enc (ip_pre b) @ be_bytes 2 0 @ ?post @ replicate (n - 20) 0) 10 = Inr (ip_hdr_bytes b @ replicate (n - 20) 0)"
    using pack_seal [of "enc (ip_pre b)" 10 "[]" ?post "n - 20"] by (simp add: ip_hdr_bytes_def ip_pre_def)
  have p: "payload_build ?pl (if ipb_protocol b \<in> NEED_P_HDR_SUM then Some (cast_sum le_val 4 (ip_ph b)) else None)
      (replicate (n - 20) 0) =
      Inr (payload_bytes ?pl (cast_sum le_val 4 (ip_ph b)) @ replicate (n - 20 - payload_len ?pl) 0)"
    using ok n'(2) by (intro payload_build_eq) (simp_all add: ip_ok_def ip_ph_def)
  show ?thesis
    using p by (simp add: ip_build_def t(1) 1 o 2 ip_psum_eq [OF ok] build_at_def ihl ip_bytes_def n'(1)
        split: if_splits del: enc_simps)
qed

lemma ip_bytes_fields:
  "\<exists>c. 0 \<le> c \<and> c < 65536 \<and> ip_bytes b = enc (ip_pre b @ [(2, c), (4, ipb_src b), (4, ipb_dst b)]) @
    payload_bytes (ipb_payload b) (cast_sum le_val 4 (ip_ph b))"
  by (rule exI [of _ "inet_csum_little (enc (ip_pre b) @ be_bytes 2 0 @ enc [(4, ipb_src b), (4, ipb_dst b)]) 0"])
    (simp add: ip_bytes_def ip_hdr_bytes_def seal_def)

lemma ip_parse_bytes:
  assumes "ip_ok b" "f = ip_bytes b @ zs"
  shows "ip_ver f = Inr 4" "ip_ihl f = Inr 20" "ip_total_len f = Inr (ip_len b)" "ip_id f = Inr (ipb_id b)"
    "ip_flags_fragoff f = Inr (ip_flags_word b)"
    "ip_ttl f = Inr (ip_ttl_of b)" "ip_protocol f = Inr (ipb_protocol b)" "ip_src f = Inr (ipb_src b)"
    "ip_dst f = Inr (ipb_dst b)"
proof -
  obtain c where c: "0 \<le> c" "c < 65536" and e: "ip_bytes b = enc (ip_pre b @ [(2, c), (4, ipb_src b), (4, ipb_dst b)]) @
      payload_bytes (ipb_payload b) (cast_sum le_val 4 (ip_ph b))"
    using ip_bytes_fields by blast
  let ?fs = "ip_pre b @ [(2, c), (4, ipb_src b), (4, ipb_dst b)]"
  note ok = assms(1) [unfolded ip_ok_def]
  have "0 \<le> ipb_offset b" "ipb_offset b < 8192" using ok by simp_all
  note w = ip_flags_word_bits(4,5) [OF this]
  have t: "0 \<le> ip_ttl_of b" "ip_ttl_of b < 256" using ok by (auto simp: ip_ttl_of_def)
  have l: "ipb_total_len b = ip_len b" using ok by (simp add: ip_len_def IP_IHL_def)
  obtain r where f: "f = enc ?fs @ r" using assms(2) e by simp
  have b0: "byte_at f 0 = Inr 0x45" "unpack_be 2 f 2 = Inr (int (ip_len b))"
    unfolding f using ok l by (simp_all add: ip_pre_def read_field [of 2] read_byte [of 0] del: enc_simps)
  show "ip_ver f = Inr 4" "ip_ihl f = Inr 20" "ip_total_len f = Inr (ip_len b)"
    by (simp_all add: ip_ver_def ip_ihl_def ip_total_len_def b0 drop_bit_eq_div)
  show "ip_id f = Inr (ipb_id b)" "ip_flags_fragoff f = Inr (ip_flags_word b)"
    "ip_ttl f = Inr (ip_ttl_of b)" "ip_protocol f = Inr (ipb_protocol b)" "ip_src f = Inr (ipb_src b)"
    "ip_dst f = Inr (ipb_dst b)"
    unfolding f ip_id_def ip_flags_fragoff_def ip_ttl_def ip_protocol_def ip_src_def ip_dst_def using ok w t
    by (simp_all add: ip_pre_def read_field [of 3] read_field [of 4] read_byte [of 5] read_byte [of 6]
        read_field [of 8] read_field [of 9] del: enc_simps)
qed

lemma ip_parse_frag:
  assumes "ip_ok b" "f = ip_bytes b @ zs"
  shows "ip_offset f = Inr (nat (ipb_offset b))" "ip_flag_mf f = Inr (ipb_mf b)" "ip_flag_df f = Inr (ipb_df b)"
proof -
  have "0 \<le> ipb_offset b" "ipb_offset b < 8192" using assms(1) by (simp_all add: ip_ok_def)
  note w = ip_flags_word_bits [OF this]
  show "ip_offset f = Inr (nat (ipb_offset b))" "ip_flag_mf f = Inr (ipb_mf b)" "ip_flag_df f = Inr (ipb_df b)"
    using w(2,3) by (auto simp: ip_offset_def ip_flag_mf_def ip_flag_df_def ip_parse_bytes(5) [OF assms] w(1))
qed

lemma ip_payload_slice:
  assumes "ip_ok b"
  shows "slice (ip_bytes b @ zs) 20 (ip_len b) = payload_bytes (ipb_payload b) (cast_sum le_val 4 (ip_ph b))"
proof -
  have "length (payload_bytes (ipb_payload b) (cast_sum le_val 4 (ip_ph b))) = ip_len b - 20"
    using length_ip_bytes [OF assms] by (simp add: ip_bytes_def)
  then show ?thesis by (simp add: slice_def ip_bytes_def)
qed

section \<open>ARP and Ethernet\<close>

definition mac_ok :: "int \<Rightarrow> bool" where
  "mac_ok m \<longleftrightarrow> 0 \<le> m \<and> m < 2 ^ 48"

lemma mac_parts:
  assumes "mac_ok m"
  shows "0 \<le> mac_high m" "mac_high m < 4294967296" "0 \<le> mac_low m" "mac_low m < 65536"
    "push_bit 16 (mac_high m) OR mac_low m = m"
proof -
  have h: "mac_high m = drop_bit 16 m" "mac_low m = take_bit 16 m"
    by (simp_all add: mac_high_def mac_low_def mac_init_int_def take_bit_eq_mask mask_eq_exp_minus_1)
  show "0 \<le> mac_high m" "mac_high m < 4294967296" "0 \<le> mac_low m" "mac_low m < 65536"
    using assms by (auto simp: h mac_ok_def drop_bit_eq_div take_bit_eq_mod)
  show "push_bit 16 (mac_high m) OR mac_low m = m"
    unfolding h by (rule bit_eqI) (auto simp: bit_simps)
qed

lemma unpack_mac_fields:
  assumes "Suc i < length fs" "fs ! i = (4, mac_high m)" "fs ! Suc i = (2, mac_low m)" "mac_ok m"
    "off = sum_list (map fst (take i fs))"
  shows "unpack_mac (enc fs @ zs) off = Inr m"
proof -
  have "unpack_be 4 (enc fs @ zs) off = Inr (mac_high m)"
    using assms mac_parts [OF assms(4)] by (intro read_field [of i]) simp_all
  moreover have "unpack_be 2 (enc fs @ zs) (off + 4) = Inr (mac_low m)"
    using assms mac_parts [OF assms(4)] by (intro read_field [of "Suc i"]) (simp_all add: take_Suc_conv_app_nth)
  ultimately show ?thesis by (simp add: unpack_mac_def mac_parts(5) [OF assms(4)])
qed

definition arp_ok :: "arp_builder \<Rightarrow> bool" where
  "arp_ok b \<longleftrightarrow> mac_ok (ab_sha b) \<and> mac_ok (ab_tha b) \<and> 0 \<le> ab_op b \<and> ab_op b < 65536 \<and>
     0 \<le> ab_spa b \<and> ab_spa b < 4294967296 \<and> 0 \<le> ab_tpa b \<and> ab_tpa b < 4294967296"

lemma length_arp_fields [simp]: "length (enc (arp_fields b)) = 28"
  by (simp add: arp_fields_def)

lemma arp_build_eq:
  "arp_ok b \<Longrightarrow> 28 \<le> n \<Longrightarrow> arp_build b (replicate n 0) = Inr (enc (arp_fields b) @ replicate (n - 28) 0)"
  unfolding arp_build_def
  by (rule pack_front_zeros) (simp_all add: arp_fields_def arp_ok_def mac_parts)

lemma arp_parse_bytes:
  assumes "arp_ok b" "f = enc (arp_fields b) @ zs"
  shows "arp_op f = Inr (ab_op b)" "arp_sha f = Inr (ab_sha b)" "arp_spa f = Inr (ab_spa b)"
    "arp_tha f = Inr (ab_tha b)" "arp_tpa f = Inr (ab_tpa b)"
proof -
  note ok = assms(1) [unfolded arp_ok_def]
  show "arp_op f = Inr (ab_op b)" "arp_spa f = Inr (ab_spa b)" "arp_tpa f = Inr (ab_tpa b)"
    unfolding assms(2) arp_op_def arp_spa_def arp_tpa_def using ok
    by (simp_all add: arp_fields_def read_field [of 4] read_field [of 7] read_field [of 10] del: enc_simps)
  show "arp_sha f = Inr (ab_sha b)" "arp_tha f = Inr (ab_tha b)"
    unfolding assms(2) arp_sha_def arp_tha_def using ok
    by (simp_all add: arp_fields_def unpack_mac_fields [of 5] unpack_mac_fields [of 8] del: enc_simps)
qed

definition ether_ok :: "ether_builder \<Rightarrow> bool" where
  "ether_ok b \<longleftrightarrow> mac_ok (eb_dst b) \<and> mac_ok (eb_src b) \<and> 0 \<le> eb_type b \<and> eb_type b < 65536 \<and>
     (case eb_payload b of EtherIp i \<Rightarrow> ip_ok i \<and> ip_len i \<le> MTU | EtherArp a \<Rightarrow> arp_ok a)"

definition ether_payload_bytes :: "ether_payload \<Rightarrow> bytes" where
  "ether_payload_bytes p = (case p of EtherIp i \<Rightarrow> ip_bytes i | EtherArp a \<Rightarrow> enc (arp_fields a))"

lemma length_ether_fields [simp]: "length (enc (ether_fields b)) = 14"
  by (simp add: ether_fields_def)

lemma tx_frame_bytes_eq:
  assumes "ether_ok b"
  shows "tx_frame_bytes b = Inr (enc (ether_fields b) @ ether_payload_bytes (eb_payload b))"
proof -
  have 1: "pack_into (ether_fields b) (replicate (MTU + 14) 0) 0 = Inr (enc (ether_fields b) @ replicate MTU 0)"
    using assms by (subst pack_front_zeros [of _ 14]) (simp_all add: ether_fields_def ether_ok_def mac_parts)
  have l: "length (enc (ether_fields b)) = 14" by (simp add: ether_fields_def)
  have p: "ether_payload_build (eb_payload b) (replicate MTU 0) =
      Inr (ether_payload_bytes (eb_payload b) @ replicate (MTU - ether_payload_len (eb_payload b)) 0)"
    "length (ether_payload_bytes (eb_payload b)) = ether_payload_len (eb_payload b)"
    using assms by (auto simp: ether_ok_def ether_payload_bytes_def ip_build_eq arp_build_eq length_ip_bytes
        ARP_HEADER_LEN_def MTU_def split: ether_payload.splits)
  show ?thesis
    by (simp add: tx_frame_bytes_def ether_build_def 1 build_at_def l p ether_len_def ETHER_LEN_def)
qed

lemma ether_parse_bytes:
  assumes "ether_ok b" "f = enc (ether_fields b) @ zs"
  shows "ether_dst f = Inr (eb_dst b)" "ether_src f = Inr (eb_src b)" "ether_type f = Inr (eb_type b)"
    "drop 14 f = zs"
proof -
  note ok = assms(1) [unfolded ether_ok_def]
  show "ether_dst f = Inr (eb_dst b)" "ether_src f = Inr (eb_src b)" "ether_type f = Inr (eb_type b)"
    unfolding assms(2) ether_dst_def ether_src_def ether_type_def using ok
    by (simp_all add: ether_fields_def unpack_mac_fields [of 0] unpack_mac_fields [of 2] read_field [of 4] del: enc_simps)
  show "drop 14 f = zs" by (simp add: assms(2) ether_fields_def)
qed

section \<open>Properties\<close>

text \<open>C31. A TCP segment built into a zeroed frame is read back by the parser as it was: ports, sequence and
  acknowledgment numbers, header length, window, each of the eight flags, the urgent pointer and the payload. Of the
  options, which may be any list of NOP, MSS and one-byte EOL options padded to a multiple of four and to 40 bytes at
  most, the parser reads the MSS if and only if one stands before the first EOL. The checksum verifies at a
  receiver that sums the same pseudo header.\<close>

theorem tcp_segment_roundtrip:
  assumes "tcp_ok b" "tcp_len b \<le> n" "4 dvd length ph"
  shows "\<exists>f p. tcp_build b (cast_sum le_val 4 ph) (replicate n 0) = Inr (f @ replicate (n - tcp_len b) 0) \<and>
    tcp_parse f = Inr p \<and> inet_csum_little f (cast_sum le_val 4 ph) = 0 \<and>
    sg_src p = tb_src b \<and> sg_dst p = tb_dst b \<and> sg_seq p = tb_seq b \<and> sg_ack_seq p = tb_ack_seq b \<and>
    sg_window p = tb_window b \<and> sg_fin p = tb_fin b \<and> sg_syn p = tb_syn b \<and> sg_rst p = tb_rst b \<and>
    sg_psh p = tb_psh b \<and> sg_ack p = tb_ack b \<and> sg_urg p = tb_urg b \<and> sg_ece p = tb_ece b \<and> sg_cwr p = tb_cwr b \<and>
    sg_doff p = 20 + int (tcp_opts_len (tb_options b)) \<and> sg_urg_ptr p = Inr (tb_urg_ptr b) \<and>
    sg_data p = tb_data b \<and> sg_dlen p = int (length (tb_data b)) \<and>
    sg_options p =
      Inr (if TCPOptMSS \<in> set (takeWhile (\<lambda>opt. opt \<noteq> TCPOptEOL 1) (tb_options b)) then Some MSS else None)"
proof -
  let ?s = "cast_sum le_val 4 ph"
  have v: "inet_csum_little (tcp_bytes b ?s) ?s = 0"
    unfolding tcp_bytes_def by (rule seal_verifies) (simp_all add: tcp_pre_def assms(3))
  have "sg_src (seg_of b ?s) = tb_src b \<and> sg_dst (seg_of b ?s) = tb_dst b \<and> sg_seq (seg_of b ?s) = tb_seq b \<and>
      sg_ack_seq (seg_of b ?s) = tb_ack_seq b \<and> sg_window (seg_of b ?s) = tb_window b \<and>
      sg_dlen (seg_of b ?s) = int (length (tb_data b)) \<and>
      sg_doff (seg_of b ?s) = 20 + int (tcp_opts_len (tb_options b))"
    using tcp_opts_dvd [OF assms(1)] by (simp add: seg_of_def tcp_doff_def TCP_DOFF_def)
  moreover have "sg_options (seg_of b ?s) =
      Inr (if TCPOptMSS \<in> set (takeWhile (\<lambda>opt. opt \<noteq> TCPOptEOL 1) (tb_options b)) then Some MSS else None)"
    using seg_of_options [OF assms(1)] opts_read_eq [of "tb_options b" None] assms(1) by (simp add: tcp_ok_def)
  ultimately show ?thesis
    using tcp_build_eq [OF assms] tcp_parse_bytes [OF assms(1)] v seg_of_flags [OF assms(1)] seg_of_data [OF assms(1)]
      seg_of_urg_ptr [OF assms(1)]
    by - (rule exI [of _ "tcp_bytes b ?s"], rule exI [of _ "seg_of b ?s"], simp)
qed

definition tcp_example :: tcp_builder where
  "tcp_example =
     \<lparr>tb_src = 40000, tb_dst = 80, tb_seq = 0xFFFFFFFF, tb_ack_seq = 7, tb_cwr = False, tb_ece = False,
      tb_urg = True, tb_ack = True, tb_psh = True, tb_rst = False, tb_syn = True, tb_fin = False,
      tb_window = 65535, tb_urg_ptr = 2,
      tb_options = [TCPOptNOP, TCPOptMSS, TCPOptNOP, TCPOptNOP, TCPOptEOL 1], tb_data = [1, 2, 3]\<rparr>"

lemma tcp_example_ok: "tcp_ok tcp_example" "tcp_len tcp_example = 31"
  by (simp_all add: tcp_ok_def tcp_example_def tcp_opt_ok_def tcp_opts_len_def tcp_len_def tcp_doff_def TCP_DOFF_def)

theorem tcp_segment_roundtrip_witness:
  "\<exists>f p. tcp_build tcp_example (cast_sum le_val 4 [0, 6, 0, 31]) (replicate 40 0) = Inr (f @ replicate 9 0) \<and>
    tcp_parse f = Inr p \<and> sg_data p = [1, 2, 3] \<and> sg_urg p \<and> \<not> sg_ece p \<and> sg_urg_ptr p = Inr 2 \<and> sg_options p = Inr (Some 1460)"
proof -
  obtain f p where "tcp_build tcp_example (cast_sum le_val 4 [0, 6, 0, 31]) (replicate 40 0) =
        Inr (f @ replicate (40 - tcp_len tcp_example) 0)" "tcp_parse f = Inr p" "sg_data p = tb_data tcp_example"
      "sg_urg p = tb_urg tcp_example" "sg_ece p = tb_ece tcp_example" "sg_urg_ptr p = Inr (tb_urg_ptr tcp_example)"
      "sg_options p = Inr (if TCPOptMSS \<in> set (takeWhile (\<lambda>opt. opt \<noteq> TCPOptEOL 1) (tb_options tcp_example))
         then Some MSS else None)"
    using tcp_segment_roundtrip [OF tcp_example_ok(1), of 40 "[0, 6, 0, 31]"] tcp_example_ok(2)
    by (auto simp: numeral_eq_Suc)
  then show ?thesis unfolding tcp_example_ok(2) by (auto simp: tcp_example_def MSS_def)
qed

text \<open>C32. The frame the transmit ring writes for an IP datagram that fits in the MTU has exactly its length; the
  parsers of the receiver read back the Ethernet addresses and type and every field of the IP header, the header
  checksum verifies, and the bytes between the header length and the total length are the payload.\<close>

theorem ip_frame_roundtrip:
  assumes "ether_ok b" "eb_payload b = EtherIp d"
  shows "\<exists>f ipf. tx_frame_bytes b = Inr f \<and> ipf = drop 14 f \<and> length f = 14 + ip_len d \<and>
    ether_dst f = Inr (eb_dst b) \<and> ether_src f = Inr (eb_src b) \<and> ether_type f = Inr (eb_type b) \<and>
    ip_ver ipf = Inr 4 \<and> ip_ihl ipf = Inr 20 \<and> ip_total_len ipf = Inr (ip_len d) \<and> ip_id ipf = Inr (ipb_id d) \<and>
    ip_offset ipf = Inr (nat (ipb_offset d)) \<and> ip_flag_mf ipf = Inr (ipb_mf d) \<and> ip_flag_df ipf = Inr (ipb_df d) \<and>
    ip_ttl ipf = Inr (ip_ttl_of d) \<and> ip_protocol ipf = Inr (ipb_protocol d) \<and>
    ip_src ipf = Inr (ipb_src d) \<and> ip_dst ipf = Inr (ipb_dst d) \<and>
    inet_csum_little (take 20 ipf) 0 = 0 \<and>
    slice ipf 20 (ip_len d) = payload_bytes (ipb_payload d) (cast_sum le_val 4 (ip_ph d))"
proof -
  let ?f = "enc (ether_fields b) @ ip_bytes d"
  have ok: "ip_ok d" using assms by (simp add: ether_ok_def)
  have t: "tx_frame_bytes b = Inr ?f" using tx_frame_bytes_eq [OF assms(1)] by (simp add: assms(2) ether_payload_bytes_def)
  note e = ether_parse_bytes [OF assms(1) refl, of "ip_bytes d"]
  have ipf: "ip_bytes d = ip_bytes d @ []" by simp
  have "length ?f = 14 + ip_len d" by (simp add: length_ip_bytes [OF ok] ether_fields_def)
  moreover have "inet_csum_little (take 20 (ip_bytes d)) 0 = 0" by (simp add: ip_bytes_def ip_hdr_verifies)
  ultimately show ?thesis
    using ip_parse_bytes [OF ok ipf] ip_parse_frag [OF ok ipf] ip_payload_slice [OF ok, of "[]"]
    by - (rule exI [of _ ?f], rule exI [of _ "ip_bytes d"], simp add: t e)
qed

definition ip_example :: ip_builder where
  "ip_example =
     \<lparr>ipb_payload = PUdp \<lparr>ub_src = 5000, ub_dst = 53, ub_data = [1, 2]\<rparr>, ipb_id = 77, ipb_offset = 0, ipb_df = False,
      ipb_mf = False, ipb_ttl = OptInt 64, ipb_protocol = 17, ipb_options = [], ipb_ihl = 5, ipb_total_len = 30,
      ipb_src = 0xC0A802C8, ipb_dst = 0xC0A80201\<rparr>"

definition ether_example :: ether_builder where
  "ether_example = \<lparr>eb_dst = 0x020000000001, eb_src = 0x001122334455, eb_type = 0x0800, eb_payload = EtherIp ip_example\<rparr>"

lemma ether_example_ok: "ether_ok ether_example"
  by (simp add: ether_ok_def ether_example_def mac_ok_def ip_ok_def ip_example_def IP_IHL_def udp_len_def udp_ok_def
      UDP_HEADER_LEN_def IP_PROTO_UDP_def ip_len_def MTU_def)

theorem ip_frame_roundtrip_witness:
  "\<exists>f. tx_frame_bytes ether_example = Inr f \<and> length f = 44 \<and> ip_src (drop 14 f) = Inr 0xC0A802C8"
  using ip_frame_roundtrip [OF ether_example_ok, of ip_example]
  by (auto simp: ether_example_def ip_example_def ip_len_def udp_len_def UDP_HEADER_LEN_def)

text \<open>The frame written for an ARP packet is 42 bytes long and is read back as it was: the Ethernet addresses,
  the operation and the four addresses.\<close>

lemma arp_frame_roundtrip:
  assumes "ether_ok b" "eb_payload b = EtherArp a"
  shows "\<exists>f p. tx_frame_bytes b = Inr f \<and> p = drop 14 f \<and> length f = 42 \<and>
    ether_dst f = Inr (eb_dst b) \<and> ether_src f = Inr (eb_src b) \<and> ether_type f = Inr (eb_type b) \<and>
    arp_op p = Inr (ab_op a) \<and> arp_sha p = Inr (ab_sha a) \<and> arp_spa p = Inr (ab_spa a) \<and>
    arp_tha p = Inr (ab_tha a) \<and> arp_tpa p = Inr (ab_tpa a)"
proof -
  let ?f = "enc (ether_fields b) @ enc (arp_fields a)"
  have ok: "arp_ok a" using assms by (simp add: ether_ok_def)
  have t: "tx_frame_bytes b = Inr ?f" using tx_frame_bytes_eq [OF assms(1)] by (simp add: assms(2) ether_payload_bytes_def)
  note e = ether_parse_bytes [OF assms(1) refl, of "enc (arp_fields a)"]
  have p: "enc (arp_fields a) = enc (arp_fields a) @ []" by simp
  have "length ?f = 42" by (simp add: ether_fields_def arp_fields_def)
  then show ?thesis
    using arp_parse_bytes [OF ok p] by - (rule exI [of _ ?f], rule exI [of _ "enc (arp_fields a)"], simp add: t e)
qed

lemma arp_frame_roundtrip_witness:
  "\<exists>f. tx_frame_bytes \<lparr>eb_dst = 0xFFFFFFFFFFFF, eb_src = 0x001122334455, eb_type = 0x0806,
       eb_payload = EtherArp \<lparr>ab_sha = 0x001122334455, ab_spa = 0xC0A802C8, ab_tha = 0, ab_tpa = 0xC0A80201, ab_op = 1\<rparr>\<rparr> = Inr f \<and>
     arp_tpa (drop 14 f) = Inr 0xC0A80201"
  using arp_frame_roundtrip [of "\<lparr>eb_dst = 0xFFFFFFFFFFFF, eb_src = 0x001122334455, eb_type = 0x0806,
       eb_payload = EtherArp \<lparr>ab_sha = 0x001122334455, ab_spa = 0xC0A802C8, ab_tha = 0, ab_tpa = 0xC0A80201, ab_op = 1\<rparr>\<rparr>"]
  by (auto simp: ether_ok_def mac_ok_def arp_ok_def)

end
