(* ===== verification/Core_State.thy ===== *)
theory Core_State
  imports Ether_Arp
begin

text \<open>
  The core (\<^verbatim>\<open>components/core.py\<close>) as a record: the socket tables, the ARP cache
  (\<^verbatim>\<open>components/arp_cache.py\<close>), the IP caches (\<^verbatim>\<open>components/ip_cache.py\<close>), the timer, the queue of TCP
  events, the ring of frames to send and the socket objects, which the tables refer to by number.

  An operation of the core maps a state to \<open>None\<close>, when it does not return, or to a result and the
  state it leaves, also when it raises. Each handler runs without interruption: the locks of the source
  and the interleaving of its threads inside a handler are not modelled. \<^verbatim>\<open>randint\<close> draws from a stream
  that is part of the state.
\<close>

section \<open>The state\<close>

record arp_cache_entry =
  ae_mac_address :: int
  ae_flush_after :: rat

text \<open>The resources of one reassembly; \<open>r_temporary\<close> is \<open>None\<close> once the key has been deleted.\<close>

record reass =
  r_data_buffer :: bytes
  r_header_buffer :: bytes
  r_block_count :: int
  r_total_data_len :: int
  r_temporary :: "(nat \<times> bytes) list option"
  r_last :: bool
  r_timer :: nat

datatype sock_kind = UDPSocket | TCPSocket | RIPSocket

record sock =
  s_kind :: sock_kind
  s_proto :: int
  s_local_ip :: int
  s_local_port :: int
  s_remote_ip :: int
  s_remote_port :: int
  s_queue :: "bytes list"
  s_timeout :: "int option"
  s_sock_opt :: "int \<times> int \<Rightarrow> sockopt option"
  s_sock_id :: sock_id
  s_rip_id :: rip_id

type_synonym buffer_id = "int \<times> int \<times> int \<times> int"

record core =
  c_udp :: "(nat, errno) udp_table"
  c_tcp :: "(nat, nat) tcp_table"
  c_rip :: "nat rip_table"
  c_arp_cache :: "int \<Rightarrow> arp_cache_entry option"
  c_arp_wait_list :: "int set"
  c_arp_wait_prob_list :: "int set"
  c_fragments_cache :: "buffer_id \<Rightarrow> reass option"
  c_pending :: "int \<Rightarrow> ip_builder list option"
  c_timer :: "timer_call timer"
  c_events :: "tcp_event list"
  c_tx_ring :: "ether_builder list"
  c_conflict_ips :: "int list"
  c_unicast_ip :: "int option"
  c_router :: int
  c_network :: int
  c_mask :: int
  c_unicast_mac :: int
  c_rx_ip_enabled :: bool
  c_socks :: "nat \<Rightarrow> sock option"
  c_tcpcbs :: "nat \<Rightarrow> tcpcb option"
  c_so_error :: "nat \<Rightarrow> errno"
  c_notified :: "cond list"
  c_now_ns :: int
  c_random :: "nat \<Rightarrow> int"
  c_drawn :: nat
  c_next_ref :: nat

section \<open>Operations and their sequencing\<close>

type_synonym 'a op = "core \<Rightarrow> ('a result \<times> core) option"

definition ret :: "'a \<Rightarrow> 'a op" where
  "ret x c = Some (Inr x, c)"

definition raise :: "exn \<Rightarrow> 'a op" where
  "raise e c = Some (Inl e, c)"

definition lift :: "'a result \<Rightarrow> 'a op" where
  "lift r c = Some (r, c)"

definition bind_op :: "'a op \<Rightarrow> ('a \<Rightarrow> 'b op) \<Rightarrow> 'b op" where
  "bind_op m f c =
     (case m c of None \<Rightarrow> None | Some (r, c1) \<Rightarrow> (case r of Inl e \<Rightarrow> Some (Inl e, c1) | Inr x \<Rightarrow> f x c1))"

definition upd :: "(core \<Rightarrow> core) \<Rightarrow> unit op" where
  "upd f c = Some (Inr (), f c)"

definition get :: "(core \<Rightarrow> 'a) \<Rightarrow> 'a op" where
  "get f c = Some (Inr (f c), c)"

definition then_op :: "unit op \<Rightarrow> 'b op \<Rightarrow> 'b op" where
  "then_op m n = bind_op m (\<lambda>_. n)"

fun for_op :: "'a list \<Rightarrow> ('a \<Rightarrow> unit op) \<Rightarrow> unit op" where
  "for_op [] f = ret ()"
| "for_op (x # xs) f = then_op (f x) (for_op xs f)"

lemma op_simps [simp]:
  "ret x c = Some (Inr x, c)" "raise e c = Some (Inl e, c)" "lift r c = Some (r, c)"
  "upd f c = Some (Inr (), f c)" "get h c = Some (Inr (h c), c)"
  by (simp_all add: ret_def raise_def lift_def upd_def get_def)

lemma bind_op_simps:
  "m c = None \<Longrightarrow> bind_op m f c = None"
  "m c = Some (Inl e, c1) \<Longrightarrow> bind_op m f c = Some (Inl e, c1)"
  "m c = Some (Inr x, c1) \<Longrightarrow> bind_op m f c = f x c1"
  by (simp_all add: bind_op_def)

lemma bind_op_basic [simp]:
  "bind_op (ret x) f c = f x c" "bind_op (raise e) f c = Some (Inl e, c)"
  "bind_op (lift (Inr x)) f c = f x c" "bind_op (lift (Inl e)) f c = Some (Inl e, c)"
  "bind_op (upd h) g c = g () (h c)" "bind_op (get k) f c = f (k c) c"
  by (simp_all add: bind_op_def)

lemma then_op_basic [simp]:
  "then_op (ret ()) n c = n c" "then_op (upd h) n c = n (h c)"
  by (simp_all add: then_op_def)

section \<open>Random numbers and timers\<close>

definition randint :: "int \<Rightarrow> int \<Rightarrow> int op" where
  "randint lo hi c =
     Some (Inr (lo + c_random c (c_drawn c) mod (hi - lo + 1)), c\<lparr>c_drawn := Suc (c_drawn c)\<rparr>)"

definition core_schedule_timer :: "rat \<Rightarrow> timer_call \<Rightarrow> nat op" where
  "core_schedule_timer expire_after call c =
     (let (k, tm) = schedule_timer (c_now_ns c) expire_after call (c_timer c)
      in Some (Inr k, c\<lparr>c_timer := tm\<rparr>))"

section \<open>TX ring and Ethernet output\<close>

definition tx_ring_enqueue :: "ether_builder \<Rightarrow> unit op" where
  "tx_ring_enqueue frame = upd (\<lambda>c. c\<lparr>c_tx_ring := c_tx_ring c @ [frame]\<rparr>)"

definition tx_ether :: "ether_payload \<Rightarrow> int \<Rightarrow> int \<Rightarrow> int \<Rightarrow> unit op" where
  "tx_ether pl dst src ty =
     tx_ring_enqueue \<lparr>eb_dst = dst, eb_src = src, eb_type = ty, eb_payload = pl\<rparr>"

section \<open>ARP cache\<close>

definition ARP_REPLY_TIMEOUT :: rat where "ARP_REPLY_TIMEOUT = 3"
definition ARP_CACHE_TTL :: rat where "ARP_CACHE_TTL = 300"

definition flush_entry :: "int \<Rightarrow> unit op" where
  "flush_entry ip = upd (\<lambda>c. c\<lparr>c_arp_cache := (c_arp_cache c)(ip := None)\<rparr>)"

definition find_entry :: "int \<Rightarrow> core \<Rightarrow> int option" where
  "find_entry ip c = map_option ae_mac_address (c_arp_cache c ip)"

definition update_arp_cache :: "int \<Rightarrow> int \<Rightarrow> unit op" where
  "update_arp_cache ip mac =
     upd (\<lambda>c. if c_arp_cache c ip = None
              then c\<lparr>c_arp_cache := (c_arp_cache c)(ip \<mapsto>
                       \<lparr>ae_mac_address = mac, ae_flush_after = of_int (c_now_ns c) / 1000000000 + ARP_CACHE_TTL\<rparr>)\<rparr>
              else c)"

definition arp_probe_add :: "int \<Rightarrow> unit op" where
  "arp_probe_add ip =
     bind_op (get (\<lambda>c. ip \<in> c_arp_wait_prob_list c)) (\<lambda>pending.
       if pending then ret ()
       else then_op (upd (\<lambda>c. c\<lparr>c_arp_wait_prob_list := insert ip (c_arp_wait_prob_list c)\<rparr>))
              (bind_op (core_schedule_timer ARP_REPLY_TIMEOUT (ProbeDone ip)) (\<lambda>_. ret ())))"

definition arp_probe_test :: "int \<Rightarrow> core \<Rightarrow> bool" where
  "arp_probe_test ip c \<longleftrightarrow> ip \<in> c_arp_wait_prob_list c"

definition core_notify :: "cond \<Rightarrow> unit op" where
  "core_notify e = upd (\<lambda>c. c\<lparr>c_notified := c_notified c @ [e]\<rparr>)"

definition probe_done :: "int \<Rightarrow> unit op" where
  "probe_done ip =
     bind_op (get (\<lambda>c. ip \<in> c_arp_wait_prob_list c)) (\<lambda>pending.
       if pending
       then then_op (upd (\<lambda>c. c\<lparr>c_arp_wait_prob_list := c_arp_wait_prob_list c - {ip}\<rparr>)) (core_notify ArpProbCond)
       else raise KeyError)"

definition arp_wait_test :: "int \<Rightarrow> core \<Rightarrow> bool" where
  "arp_wait_test ip c \<longleftrightarrow> ip \<in> c_arp_wait_list c"

definition arp_wait_add :: "int \<Rightarrow> unit op" where
  "arp_wait_add ip =
     bind_op (get (arp_wait_test ip)) (\<lambda>waiting.
       if waiting then ret ()
       else then_op (upd (\<lambda>c. c\<lparr>c_arp_wait_list := insert ip (c_arp_wait_list c)\<rparr>))
              (bind_op (core_schedule_timer ARP_REPLY_TIMEOUT (ArpWaitRemove ip)) (\<lambda>_. ret ())))"

definition arp_wait_remove :: "int \<Rightarrow> unit op" where
  "arp_wait_remove ip =
     bind_op (get (arp_wait_test ip)) (\<lambda>waiting.
       if waiting then upd (\<lambda>c. c\<lparr>c_arp_wait_list := c_arp_wait_list c - {ip}\<rparr>) else raise KeyError)"

section \<open>ARP output\<close>

definition BROADCAST_MAC :: int where "BROADCAST_MAC = 0xFFFFFFFFFFFF"

definition tx_arp :: "int \<Rightarrow> int \<Rightarrow> int \<Rightarrow> int \<Rightarrow> int \<Rightarrow> bool \<Rightarrow> unit op" where
  "tx_arp sha spa tha tpa op prob =
     (let b = EtherArp \<lparr>ab_sha = sha, ab_spa = spa, ab_tha = tha, ab_tpa = tpa, ab_op = op\<rparr>
      in if op = ARP_OP_REQUEST then
           then_op (if prob then arp_probe_add tpa else arp_wait_add tpa) (tx_ether b BROADCAST_MAC sha 0x0806)
         else if op = ARP_OP_REPLY then tx_ether b tha sha 0x0806
         else ret ())"

section \<open>Datagrams that wait for an ARP reply\<close>

definition is_enqueued :: "int \<Rightarrow> core \<Rightarrow> bool" where
  "is_enqueued ip c \<longleftrightarrow> c_pending c ip \<noteq> None"

definition enqueue_pending :: "int \<Rightarrow> ip_builder \<Rightarrow> unit op" where
  "enqueue_pending ip datagram =
     upd (\<lambda>c. c\<lparr>c_pending := (c_pending c)(ip \<mapsto>
                (case c_pending c ip of None \<Rightarrow> [datagram] | Some ds \<Rightarrow> ds @ [datagram]))\<rparr>)"

definition dequeue_pending :: "int \<Rightarrow> int \<Rightarrow> unit op" where
  "dequeue_pending ip mac =
     bind_op (get (\<lambda>c. (c_pending c ip, c_unicast_mac c))) (\<lambda>(q, own).
       case q of
         None \<Rightarrow> raise KeyError
       | Some ds \<Rightarrow>
           then_op (for_op ds (\<lambda>d. tx_ether (EtherIp d) mac own 0x0800))
             (upd (\<lambda>c. c\<lparr>c_pending := (c_pending c)(ip := None)\<rparr>)))"

section \<open>IP output\<close>

definition IPPROTO_IP :: int where "IPPROTO_IP = 0"
definition IPPROTO_TTL :: int where "IPPROTO_TTL = 0"
definition IPPROTO_OPTIONS :: int where "IPPROTO_OPTIONS = 1"

definition h_unresolved_mac_datagrams :: "int \<Rightarrow> int \<Rightarrow> ip_builder \<Rightarrow> unit op" where
  "h_unresolved_mac_datagrams src dst datagram =
     then_op
       (bind_op (get (\<lambda>c. (is_enqueued dst c, c_unicast_mac c))) (\<lambda>(queued, own).
          if queued then ret () else tx_arp own src 0 dst ARP_OP_REQUEST False))
       (enqueue_pending dst datagram)"

text \<open>\<^verbatim>\<open>bytearray(opts)\<close>: of an integer, that many zeros.\<close>

fun py_bytearray :: "sockopt \<Rightarrow> bytes result" where
  "py_bytearray (OptBytes b) = Inr b"
| "py_bytearray (OptInt n) = (if n < 0 then Inl ValueError else Inr (replicate (nat n) 0))"

definition prep_ip_options :: "sockopt \<Rightarrow> ip_opt list op" where
  "prep_ip_options opts =
     bind_op (lift (py_bytearray opts)) (\<lambda>raw c.
       map_option (\<lambda>r. (bind_r r (\<lambda>os. Inr (case os of None \<Rightarrow> [] | Some l \<Rightarrow> l)), c)) (ip_opt_builder raw))"

definition ip_route :: "int \<Rightarrow> core \<Rightarrow> int option \<times> int" where
  "ip_route dst c =
     (if ip_is_broadcast dst then (Some BROADCAST_MAC, dst)
      else if is_in_subnet dst (c_network c) (c_mask c) then (find_entry dst c, dst)
      else (find_entry (c_router c) c, c_router c))"

definition tx_ip :: "payload \<Rightarrow> int \<Rightarrow> int \<Rightarrow> int \<Rightarrow> (int \<times> int \<Rightarrow> sockopt option) \<Rightarrow> unit op" where
  "tx_ip pl src dst protocol opts =
     (let ttl = (case opts (IPPROTO_IP, IPPROTO_TTL) of Some v \<Rightarrow> v | None \<Rightarrow> OptInt 64)
      in bind_op (case opts (IPPROTO_IP, IPPROTO_OPTIONS) of Some v \<Rightarrow> prep_ip_options v | None \<Rightarrow> ret []) (\<lambda>options.
         bind_op (get (ip_route dst)) (\<lambda>(mac_address, tpa).
         bind_op (randint 1 0xffff) (\<lambda>ident.
         bind_op (lift (ip_builder_init pl ident ttl protocol src dst options)) (\<lambda>b.
           if ip_len b \<le> MTU then
             (case mac_address of
                Some mac \<Rightarrow> bind_op (get c_unicast_mac) (\<lambda>own. tx_ether (EtherIp b) mac own 0x0800)
              | None \<Rightarrow> h_unresolved_mac_datagrams src tpa b)
           else
             bind_op (lift (ip_psum b)) (\<lambda>s.
             bind_op (lift (payload_to_bytes pl s)) (\<lambda>bs.
             bind_op (randint 1 0xffff) (\<lambda>ident2. lift (ip_frag_builder_init options)))))))))"

section \<open>Transport output\<close>

definition tx_icmp :: "int \<Rightarrow> int \<Rightarrow> int \<Rightarrow> int \<Rightarrow> bytes \<Rightarrow> int option \<Rightarrow> int option \<Rightarrow> unit op" where
  "tx_icmp src dst ty code data echo_id echo_seq =
     tx_ip (PIcmp \<lparr>ib_type = ty, ib_code = code, ib_data = data, ib_echo_id = echo_id, ib_echo_seq = echo_seq\<rparr>)
       src dst 1 Map.empty"

definition tx_udp ::
    "int \<Rightarrow> int \<Rightarrow> int \<Rightarrow> int \<Rightarrow> bytes \<Rightarrow> (int \<times> int \<Rightarrow> sockopt option) \<Rightarrow> unit op" where
  "tx_udp local_ip remote_ip local_port remote_port data opts =
     tx_ip (PUdp \<lparr>ub_src = local_port, ub_dst = remote_port, ub_data = data\<rparr>) local_ip remote_ip 17 opts"

definition tx_raw :: "bytes \<Rightarrow> int \<Rightarrow> int \<Rightarrow> int \<Rightarrow> unit op" where
  "tx_raw pl protocol src dst = tx_ip (PRaw pl) src dst protocol Map.empty"

text \<open>\<^verbatim>\<open>tx_tcp\<close>: no caller passes the flags CWR, ECE, URG, an urgent pointer or socket options.\<close>

definition tcp_builder_of :: "out_seg \<Rightarrow> tcp_opt list \<Rightarrow> tcp_builder" where
  "tcp_builder_of s opts =
     \<lparr>tb_src = snd (os_src s), tb_dst = snd (os_dst s), tb_seq = os_seq s, tb_ack_seq = os_ack_seq s,
      tb_cwr = False, tb_ece = False, tb_urg = False, tb_ack = os_ack s, tb_psh = os_psh s, tb_rst = os_rst s,
      tb_syn = os_syn s, tb_fin = os_fin s, tb_window = os_window s, tb_urg_ptr = 0, tb_options = opts,
      tb_data = os_data s\<rparr>"

definition core_tx_tcp :: "out_seg \<Rightarrow> unit op" where
  "core_tx_tcp s =
     bind_op (lift (if os_mss s then tcp_opt_builder [TCPOptMSS] else Inr [])) (\<lambda>opts.
       tx_ip (PTcp (tcp_builder_of s opts)) (fst (os_src s)) (fst (os_dst s)) IP_PROTO_TCP Map.empty)"

end
