(* ===== verification/Core_Rx.thy ===== *)
theory Core_Rx
  imports Core_State
begin

text \<open>
  The input path: \<^verbatim>\<open>ether/rx.py\<close>, \<^verbatim>\<open>arp/rx.py\<close>, \<^verbatim>\<open>ip/rx.py\<close> with the reassembly of fragments,
  \<^verbatim>\<open>icmp/rx.py\<close>, \<^verbatim>\<open>udp/rx.py\<close>, \<^verbatim>\<open>raw/rx.py\<close> and \<^verbatim>\<open>tcp/rx.py\<close>, and the callbacks of the timer. A received
  packet is the frame each layer sees: \<open>ef\<close> the whole Ethernet frame, \<open>ipf\<close> what the IP parser keeps,
  \<open>frame\<close> what is left for the layer above.
\<close>

section \<open>Sockets\<close>

definition get_data :: "nat \<Rightarrow> bytes \<Rightarrow> unit op" where
  "get_data ref packet =
     then_op (upd (\<lambda>c. c\<lparr>c_socks := (c_socks c)(ref :=
                   map_option (\<lambda>s. s\<lparr>s_queue := s_queue s @ [packet]\<rparr>) (c_socks c ref))\<rparr>))
       (core_notify (SockCond ref))"

section \<open>ARP\<close>

definition rx_arp_reply :: "bytes \<Rightarrow> bytes \<Rightarrow> unit op" where
  "rx_arp_reply ef frame =
     bind_op (lift (ether_dst ef)) (\<lambda>edst.
     bind_op (lift (arp_spa frame)) (\<lambda>spa.
     bind_op (lift (arp_sha frame)) (\<lambda>sha.
     bind_op (get (\<lambda>c. (edst = c_unicast_mac c, arp_wait_test spa c, arp_probe_test spa c))) (\<lambda>(mine, waiting, probing).
       if mine \<and> waiting then
         then_op (update_arp_cache spa sha)
           (bind_op (core_schedule_timer ARP_CACHE_TTL (ArpFlush spa)) (\<lambda>_. dequeue_pending spa sha))
       else if mine \<and> probing then
         then_op (upd (\<lambda>c. c\<lparr>c_conflict_ips := c_conflict_ips c @ [spa]\<rparr>)) (core_notify ArpProbCond)
       else ret ()))))"

definition rx_arp_request :: "bytes \<Rightarrow> bytes \<Rightarrow> unit op" where
  "rx_arp_request ef frame =
     bind_op (lift (arp_tpa frame)) (\<lambda>tpa.
     bind_op (lift (arp_spa frame)) (\<lambda>spa.
     bind_op (lift (ether_src ef)) (\<lambda>esrc.
     bind_op (get (\<lambda>c. (c_unicast_ip c, c_unicast_mac c))) (\<lambda>(ip, own).
       if ip = Some tpa then
         then_op (tx_arp own tpa esrc spa ARP_OP_REPLY False) (update_arp_cache spa esrc)
       else ret ()))))"

definition rx_arp :: "bytes \<Rightarrow> bytes \<Rightarrow> unit op" where
  "rx_arp ef frame =
     (if length frame < 28 then ret ()
      else bind_op (lift (arp_op frame)) (\<lambda>op.
        if op = ARP_OP_REPLY then rx_arp_reply ef frame
        else if op = ARP_OP_REQUEST then rx_arp_request ef frame
        else ret ()))"

section \<open>ICMP\<close>

text \<open>
  \<^verbatim>\<open>IPAddress\<close> is imported by \<^verbatim>\<open>icmp/rx.py\<close> for type checking only: the handlers of the two destination
  unreachable messages raise \<^verbatim>\<open>NameError\<close> at their first use of it.
\<close>

definition h_icmp_dest_unreach :: "bytes \<Rightarrow> unit op" where
  "h_icmp_dest_unreach err_data =
     bind_op (lift (byte_at err_data 0)) (\<lambda>b. raise NameError)"

definition h_icmp_echo_req :: "bytes \<Rightarrow> icmp_hdr \<Rightarrow> unit op" where
  "h_icmp_echo_req ipf h =
     bind_op (lift (ip_dst ipf)) (\<lambda>dst.
     bind_op (lift (ip_src ipf)) (\<lambda>src.
       tx_icmp dst src ECHO_REPLY ECHO_REQ_REP (ih_data h) (Some (ih_echo_id h)) (Some (ih_echo_seq h))))"

definition h_icmp_echo_rep :: "bytes \<Rightarrow> bytes \<Rightarrow> unit op" where
  "h_icmp_echo_rep ipf frame =
     bind_op (lift (ip_dst ipf)) (\<lambda>dst.
     bind_op (lift (ip_protocol ipf)) (\<lambda>protocol.
     bind_op (lift (ip_src ipf)) (\<lambda>src.
     bind_op (get (\<lambda>c. rip_sockets (c_rip c) (dst, protocol, src))) (\<lambda>s.
       case s of Some ref \<Rightarrow> get_data ref frame | None \<Rightarrow> ret ()))))"

definition rx_icmp :: "bytes \<Rightarrow> bytes \<Rightarrow> unit op" where
  "rx_icmp ipf frame =
     (if length frame < 8 then ret ()
      else bind_op (lift (icmp_parse frame)) (\<lambda>h.
        if inet_csum_little frame 0 \<noteq> 0 then ret ()
        else if (ih_type h, ih_code h) = (DESTINATION_UNREACHABLE, PORT_UNREACHABLE) then
          h_icmp_dest_unreach (ih_data h)
        else if (ih_type h, ih_code h) = (DESTINATION_UNREACHABLE, PROTOCOL_UNREACHABLE) then
          h_icmp_dest_unreach (ih_data h)
        else if (ih_type h, ih_code h) = (ECHO_REQUEST, 0) then h_icmp_echo_req ipf h
        else if (ih_type h, ih_code h) = (ECHO_REPLY, 0) then h_icmp_echo_rep ipf frame
        else ret ()))"

section \<open>ICMP errors\<close>

text \<open>\<^verbatim>\<open>_icmp_proto_unreach\<close>, \<^verbatim>\<open>_icmp_defragment_exceeded\<close> and \<^verbatim>\<open>_icmp_ttl_exceeded\<close>.\<close>

definition tx_icmp_error :: "bytes \<Rightarrow> int \<Rightarrow> int \<Rightarrow> unit op" where
  "tx_icmp_error ipf ty code =
     bind_op (lift (ip_dst ipf)) (\<lambda>dst.
     bind_op (lift (ip_src ipf)) (\<lambda>src.
     bind_op (lift (ip_header ipf)) (\<lambda>hdr.
     bind_op (lift (ip_data ipf)) (\<lambda>data.
       tx_icmp dst src ty code (hdr @ take 8 data) None None))))"

definition icmp_proto_unreach :: "bytes \<Rightarrow> unit op" where
  "icmp_proto_unreach ipf = tx_icmp_error ipf DESTINATION_UNREACHABLE PROTOCOL_UNREACHABLE"

definition icmp_defragment_exceeded :: "bytes \<Rightarrow> unit op" where
  "icmp_defragment_exceeded ipf = tx_icmp_error ipf TIME_EXCEEDED REASSEMBLY_TIME_EXCEEDED"

definition icmp_ttl_exceeded :: "bytes \<Rightarrow> unit op" where
  "icmp_ttl_exceeded ipf = tx_icmp_error ipf TIME_EXCEEDED TTL_EXCEEDED"

section \<open>UDP\<close>

definition rx_udp :: "bytes \<Rightarrow> bytes \<Rightarrow> unit op" where
  "rx_udp ipf frame =
     (if length frame < 8 then ret ()
      else
        bind_op (lift (udp_parse frame)) (\<lambda>u.
        bind_op (lift (ip_dst ipf)) (\<lambda>dst_ip.
        bind_op (lift (ip_src ipf)) (\<lambda>src_ip.
        bind_op (lift (ip_protocol ipf)) (\<lambda>protocol.
        bind_op (lift (phdr_sum src_ip dst_ip protocol (int UDP_HEADER_LEN))) (\<lambda>ps.
          if inet_csum_little frame ps \<noteq> 0 then ret ()
          else
            bind_op (get (\<lambda>c. udp_sockets (c_udp c) (dst_ip, uh_dst u, src_ip, uh_src u))) (\<lambda>s.
              case s of
                Some ref \<Rightarrow> get_data ref (uh_data u)
              | None \<Rightarrow> tx_icmp_error ipf DESTINATION_UNREACHABLE PORT_UNREACHABLE)))))))"

section \<open>Raw\<close>

definition rx_raw :: "bytes \<Rightarrow> unit op" where
  "rx_raw frame = ret ()"

section \<open>TCP\<close>

definition rst_for_closed :: "int \<Rightarrow> int \<Rightarrow> tcp_seg \<Rightarrow> out_seg" where
  "rst_for_closed dst_ip src_ip p =
     (let s0 = \<lparr>os_src = (dst_ip, sg_dst p), os_dst = (src_ip, sg_src p), os_seq = 0, os_ack_seq = 0,
                os_ack = False, os_psh = False, os_rst = True, os_syn = False, os_fin = False,
                os_window = 0, os_mss = False, os_data = []\<rparr>
      in if sg_ack p then s0\<lparr>os_seq := sg_ack_seq p\<rparr>
         else s0\<lparr>os_ack_seq := mask32 (sg_seq p + sg_dlen p + of_bool (sg_syn p) + of_bool (sg_fin p)),
                 os_ack := True\<rparr>)"

definition rx_tcp :: "bytes \<Rightarrow> bytes \<Rightarrow> unit op" where
  "rx_tcp ipf frame =
     (if length frame < 20 then ret ()
      else
        bind_op (lift (tcp_parse frame)) (\<lambda>p.
        bind_op (lift (ip_dst ipf)) (\<lambda>dst_ip.
        bind_op (lift (ip_src ipf)) (\<lambda>src_ip.
        bind_op (lift (ip_protocol ipf)) (\<lambda>protocol.
        bind_op (lift (phdr_sum src_ip dst_ip protocol (int (length frame)))) (\<lambda>ps.
          if inet_csum_little frame ps \<noteq> 0 then ret ()
          else
            bind_op (get c_tcp) (\<lambda>t.
              let sid = (dst_ip, sg_dst p, src_ip, sg_src p)
              in if tcp_sockets t sid \<noteq> None then
                   upd (\<lambda>c. c\<lparr>c_events := c_events c @ [TCPEvent RX_SEGMENT (tcp_tcpcbs t sid) (Some p)]\<rparr>)
                 else core_tx_tcp (rst_for_closed dst_ip src_ip p))))))))"

section \<open>Reassembly\<close>

definition DEFRAGMENTATION_TIMEOUT :: rat where "DEFRAGMENTATION_TIMEOUT = 10"

definition get_reass :: "buffer_id \<Rightarrow> reass op" where
  "get_reass bid =
     bind_op (get (\<lambda>c. c_fragments_cache c bid)) (\<lambda>r. case r of Some x \<Rightarrow> ret x | None \<Rightarrow> raise KeyError)"

definition upd_reass :: "buffer_id \<Rightarrow> (reass \<Rightarrow> reass) \<Rightarrow> unit op" where
  "upd_reass bid f =
     upd (\<lambda>c. c\<lparr>c_fragments_cache := (c_fragments_cache c)(bid := map_option f (c_fragments_cache c bid))\<rparr>)"

definition reass_timer_exceeded :: "bytes \<Rightarrow> buffer_id \<Rightarrow> unit op" where
  "reass_timer_exceeded ipf bid =
     bind_op (get (\<lambda>c. c_fragments_cache c bid)) (\<lambda>r.
       if r = None then ret ()
       else then_op (upd (\<lambda>c. c\<lparr>c_fragments_cache := (c_fragments_cache c)(bid := None)\<rparr>))
              (icmp_defragment_exceeded ipf))"

definition dealloc_ip_reass_mem :: "buffer_id \<Rightarrow> unit op" where
  "dealloc_ip_reass_mem bid = upd (\<lambda>c. c\<lparr>c_fragments_cache := (c_fragments_cache c)(bid := None)\<rparr>)"

definition ip_reass_timer :: "bytes \<Rightarrow> buffer_id \<Rightarrow> unit op" where
  "ip_reass_timer ipf bid =
     bind_op (core_schedule_timer DEFRAGMENTATION_TIMEOUT (ReassTimerExceeded ipf bid)) (\<lambda>t.
     bind_op (get_reass bid) (\<lambda>_. upd_reass bid (r_timer_update (\<lambda>_. t))))"

definition reass_init :: reass where
  "reass_init = \<lparr>r_data_buffer = [], r_header_buffer = [], r_block_count = 0, r_total_data_len = 0,
     r_temporary = Some [], r_last = False, r_timer = 0\<rparr>"

definition alloc_ip_reass_mem :: "bytes \<Rightarrow> buffer_id \<Rightarrow> unit op" where
  "alloc_ip_reass_mem ipf bid =
     bind_op (get (\<lambda>c. c_fragments_cache c bid)) (\<lambda>r.
       if r \<noteq> None then ret ()
       else then_op (upd (\<lambda>c. c\<lparr>c_fragments_cache := (c_fragments_cache c)(bid \<mapsto> reass_init)\<rparr>))
              (ip_reass_timer ipf bid))"

definition is_reassembled :: "bool \<Rightarrow> int \<Rightarrow> int \<Rightarrow> bool" where
  "is_reassembled got_last block_count total_data_len \<longleftrightarrow> got_last \<and> block_count = (total_data_len + 7) div 8"

text \<open>\<^verbatim>\<open>t.remove()\<close>, and the same followed by a new timer.\<close>

definition remove_timer :: "buffer_id \<Rightarrow> unit op" where
  "remove_timer bid =
     bind_op (get_reass bid) (\<lambda>r. upd (\<lambda>c. c\<lparr>c_timer := timer_remove (r_timer r) (c_timer c)\<rparr>))"

definition restart_timer :: "bytes \<Rightarrow> buffer_id \<Rightarrow> unit op" where
  "restart_timer ipf bid = then_op (remove_timer bid) (ip_reass_timer ipf bid)"

definition fragment_blocks :: "nat \<Rightarrow> nat \<Rightarrow> nat \<Rightarrow> int" where
  "fragment_blocks offset total_len ihl = (int offset * 8 + int total_len - int ihl + 7) div 8 - int offset"

text \<open>A key that is assigned again keeps its place in the dictionary.\<close>

fun dict_set :: "'k \<Rightarrow> 'v \<Rightarrow> ('k \<times> 'v) list \<Rightarrow> ('k \<times> 'v) list" where
  "dict_set k v [] = [(k, v)]"
| "dict_set k v ((k1, v1) # d) = (if k1 = k then (k, v) # d else (k1, v1) # dict_set k v d)"

text \<open>\<^verbatim>\<open>struct.pack_into(f'!{len(data)}s', data_buffer, offset * 8, data)\<close>\<close>

definition put_data :: "buffer_id \<Rightarrow> nat \<Rightarrow> bytes \<Rightarrow> unit op" where
  "put_data bid offset data =
     bind_op (get_reass bid) (\<lambda>r.
     bind_op (lift (pack_str_into (length data) data (r_data_buffer r) (offset * 8))) (\<lambda>b.
       upd_reass bid (r_data_buffer_update (\<lambda>_. b))))"

text \<open>The end of two of the three branches: the datagram is complete, or the timer starts again.\<close>

definition reass_check :: "bytes \<Rightarrow> buffer_id \<Rightarrow> bytes option op" where
  "reass_check ipf bid =
     bind_op (get_reass bid) (\<lambda>r.
       if is_reassembled True (r_block_count r) (r_total_data_len r) then
         then_op (remove_timer bid)
           (then_op (dealloc_ip_reass_mem bid) (ret (Some (r_header_buffer r @ r_data_buffer r))))
       else then_op (restart_timer ipf bid) (ret None))"

definition init_data_buffer :: "buffer_id \<Rightarrow> unit op" where
  "init_data_buffer bid =
     bind_op (get_reass bid) (\<lambda>r.
       if r_total_data_len r < 0 then raise ValueError
       else upd_reass bid (r_data_buffer_update (\<lambda>_. replicate (nat (r_total_data_len r)) 0)))"

definition put_temporary :: "buffer_id \<Rightarrow> unit op" where
  "put_temporary bid =
     bind_op (get_reass bid) (\<lambda>r.
       case r_temporary r of
         None \<Rightarrow> raise KeyError
       | Some d \<Rightarrow> then_op (for_op d (\<lambda>(o1, data). put_data bid o1 data))
                    (upd_reass bid (r_temporary_update (\<lambda>_. None))))"

definition add_blocks :: "buffer_id \<Rightarrow> int \<Rightarrow> unit op" where
  "add_blocks bid n = upd_reass bid (r_block_count_update (\<lambda>k. k + n))"

definition fix_total_len :: "buffer_id \<Rightarrow> unit op" where
  "fix_total_len bid =
     bind_op (get_reass bid) (\<lambda>r.
       if r_header_buffer r = [] then ret ()
       else bind_op (lift (pack_fields [(2, int (length (r_header_buffer r)) + r_total_data_len r)])) (\<lambda>b.
         upd_reass bid (r_header_buffer_update (\<lambda>h. slice_assign h 2 4 b))))"

definition reass_last_fragment :: "bytes \<Rightarrow> buffer_id \<Rightarrow> nat \<Rightarrow> nat \<Rightarrow> nat \<Rightarrow> bytes \<Rightarrow> bytes option op" where
  "reass_last_fragment ipf bid offset total_len ihl data =
     then_op (upd_reass bid (\<lambda>r. r\<lparr>r_total_data_len := int total_len - int ihl + int offset * 8, r_last := True\<rparr>))
    (then_op (init_data_buffer bid)
    (then_op (put_data bid offset data)
    (then_op (put_temporary bid)
    (then_op (add_blocks bid (fragment_blocks offset total_len ihl))
    (then_op (fix_total_len bid)
       (reass_check ipf bid))))))"

definition first_header_late :: "buffer_id \<Rightarrow> bytes \<Rightarrow> nat \<Rightarrow> unit op" where
  "first_header_late bid hdr ihl =
     then_op (upd_reass bid (r_header_buffer_update (\<lambda>_. hdr)))
       (bind_op (get_reass bid) (\<lambda>r.
        bind_op (lift (pack_into [(2, int ihl + r_total_data_len r)] (r_header_buffer r) 4)) (\<lambda>h.
          upd_reass bid (r_header_buffer_update (\<lambda>_. h)))))"

definition reass_after_last ::
    "bytes \<Rightarrow> buffer_id \<Rightarrow> nat \<Rightarrow> nat \<Rightarrow> nat \<Rightarrow> bytes \<Rightarrow> bytes \<Rightarrow> bytes option op" where
  "reass_after_last ipf bid offset total_len ihl hdr data =
     then_op (if offset = 0 then first_header_late bid hdr ihl else ret ())
    (then_op (add_blocks bid (fragment_blocks offset total_len ihl))
    (then_op (put_data bid offset data)
       (reass_check ipf bid)))"

definition reass_before_last ::
    "bytes \<Rightarrow> buffer_id \<Rightarrow> nat \<Rightarrow> nat \<Rightarrow> nat \<Rightarrow> bytes \<Rightarrow> bytes \<Rightarrow> bytes option op" where
  "reass_before_last ipf bid offset total_len ihl hdr data =
     then_op (if offset = 0 then upd_reass bid (r_header_buffer_update (\<lambda>_. hdr)) else ret ())
    (then_op (add_blocks bid (fragment_blocks offset total_len ihl))
    (then_op (upd_reass bid (r_temporary_update (map_option (dict_set offset data))))
    (then_op (restart_timer ipf bid) (ret None))))"

text \<open>\<open>None\<close> is \<^verbatim>\<open>False\<close>.\<close>

definition ip_reass :: "bytes \<Rightarrow> bytes option op" where
  "ip_reass ipf =
     bind_op (lift (ip_src ipf)) (\<lambda>src.
     bind_op (lift (ip_dst ipf)) (\<lambda>dst.
     bind_op (lift (ip_id ipf)) (\<lambda>ident.
     bind_op (lift (ip_protocol ipf)) (\<lambda>protocol.
       let bid = (src, dst, ident, protocol)
       in then_op (alloc_ip_reass_mem ipf bid)
         (bind_op (lift (ip_offset ipf)) (\<lambda>offset.
          bind_op (lift (ip_flag_mf ipf)) (\<lambda>flag_mf.
          bind_op (lift (ip_total_len ipf)) (\<lambda>total_len.
          bind_op (lift (ip_ihl ipf)) (\<lambda>ihl.
          bind_op (lift (ip_header ipf)) (\<lambda>hdr.
          bind_op (lift (ip_data ipf)) (\<lambda>data.
          bind_op (get_reass bid) (\<lambda>r.
            if \<not> flag_mf then reass_last_fragment ipf bid offset total_len ihl data
            else if r_last r then reass_after_last ipf bid offset total_len ihl hdr data
            else reass_before_last ipf bid offset total_len ihl hdr data))))))))))))"

section \<open>IP\<close>

definition ENABLE_IP_OPTION :: bool where "ENABLE_IP_OPTION = False"

definition ip_protocol_map :: "int \<Rightarrow> (bytes \<Rightarrow> bytes \<Rightarrow> unit op) option" where
  "ip_protocol_map p =
     (if p = 255 then Some (\<lambda>ipf frame. rx_raw frame)
      else if p = 1 then Some rx_icmp
      else if p = 17 then Some rx_udp
      else if p = 6 then Some rx_tcp
      else None)"

text \<open>
  The delivery of a complete datagram, written twice in \<^verbatim>\<open>rx_ip\<close>. The result says whether it was put into
  the queue of a raw socket: the first time, \<^verbatim>\<open>rx_ip\<close> then goes on.
\<close>

definition ip_deliver :: "bytes \<Rightarrow> bool op" where
  "ip_deliver ipf =
     bind_op (lift (ip_ihl ipf)) (\<lambda>ihl.
     bind_op (lift (ip_total_len ipf)) (\<lambda>total_len.
     bind_op (lift (ip_protocol ipf)) (\<lambda>protocol.
       case ip_protocol_map protocol of
         Some next_layer \<Rightarrow> then_op (next_layer ipf (slice ipf ihl total_len)) (ret False)
       | None \<Rightarrow>
           bind_op (lift (ip_dst ipf)) (\<lambda>dst.
           bind_op (lift (ip_src ipf)) (\<lambda>src.
           bind_op (get (\<lambda>c. rip_sockets (c_rip c) (dst, protocol, src))) (\<lambda>s.
             case s of
               None \<Rightarrow> then_op (icmp_proto_unreach ipf) (ret False)
             | Some ref \<Rightarrow>
                 bind_op (lift (ip_data ipf)) (\<lambda>data. then_op (get_data ref data) (ret True))))))))"

definition ip_fragment_input :: "bytes \<Rightarrow> unit op" where
  "ip_fragment_input ipf =
     bind_op (ip_reass ipf) (\<lambda>d.
       case d of
         None \<Rightarrow> ret ()
       | Some dgram \<Rightarrow> if dgram = [] then ret () else bind_op (ip_deliver dgram) (\<lambda>_. ret ()))"

definition rx_ip :: "bytes \<Rightarrow> unit op" where
  "rx_ip ipf =
     (if length ipf < 20 then ret ()
      else
        bind_op (lift (ip_ihl ipf)) (\<lambda>ihl.
        if inet_csum_little (take ihl ipf) 0 \<noteq> 0 then ret ()
        else if ihl > 20 \<and> \<not> ENABLE_IP_OPTION then ret ()
        else
          bind_op (lift (ip_src ipf)) (\<lambda>src.
          bind_op (lift (ip_dst ipf)) (\<lambda>dst.
          if ip_is_broadcast src \<or> ip_is_multicast src then ret ()
          else
            bind_op (get c_unicast_ip) (\<lambda>own.
            if own = None then raise AttributeError
            else if Some dst \<noteq> own then ret ()
            else
              bind_op (lift (ip_ttl ipf)) (\<lambda>ttl.
              if ttl = 0 then icmp_ttl_exceeded ipf
              else
                bind_op (lift (ip_offset ipf)) (\<lambda>offset.
                bind_op (lift (ip_flag_mf ipf)) (\<lambda>flag_mf.
                if offset = 0 \<and> \<not> flag_mf then
                  bind_op (ip_deliver ipf) (\<lambda>raw. if raw then ip_fragment_input ipf else ret ())
                else ip_fragment_input ipf))))))))"

section \<open>Ethernet\<close>

definition rx_ether :: "bytes \<Rightarrow> unit op" where
  "rx_ether ef =
     bind_op (lift (ether_dst ef)) (\<lambda>_.
     bind_op (lift (ether_src ef)) (\<lambda>_.
     bind_op (lift (ether_type ef)) (\<lambda>ty.
     bind_op (get c_rx_ip_enabled) (\<lambda>ip_on.
       if ty = 0x0806 then rx_arp ef (drop 14 ef)
       else if ty = 0x0800 \<and> ip_on then rx_ip (drop 14 ef)
       else ret ()))))"

definition handle_packet :: "bytes \<Rightarrow> unit op" where
  "handle_packet ef = rx_ether ef"

text \<open>\<^verbatim>\<open>_deque_batch\<close>: the frames of a batch, in order.\<close>

definition deque_batch :: "bytes list \<Rightarrow> unit op" where
  "deque_batch b = for_op b handle_packet"

section \<open>Timers\<close>

definition core_remove_tcpcb :: "nat \<Rightarrow> unit op" where
  "core_remove_tcpcb ref =
     upd (\<lambda>c. case c_tcpcbs c ref of
                None \<Rightarrow> c
              | Some cb \<Rightarrow>
                  c\<lparr>c_tcp := table_remove_tcpcb (socket_id cb) (tcp_remove_socket (socket_id cb) (c_tcp c))\<rparr>)"

fun run_call :: "timer_call \<Rightarrow> unit op" where
  "run_call (ScheduleRtx ref) =
     upd (\<lambda>c. c\<lparr>c_events := c_events c @ [TCPEvent RTX (Some ref) None]\<rparr>)"
| "run_call (RemoveTcpcb ref) = core_remove_tcpcb ref"
| "run_call (ArpFlush ip) = flush_entry ip"
| "run_call (ProbeDone ip) = probe_done ip"
| "run_call (ArpWaitRemove ip) = arp_wait_remove ip"
| "run_call (ReassTimerExceeded ipf bid) = reass_timer_exceeded ipf bid"

text \<open>One pass of \<^verbatim>\<open>_timer_loop\<close>: a task that is removed by one before it does not run.\<close>

definition execute_task :: "nat \<Rightarrow> unit op" where
  "execute_task k =
     bind_op (get (\<lambda>c. task_execute (c_timer c) k)) (\<lambda>t. case t of None \<Rightarrow> ret () | Some call \<Rightarrow> run_call call)"

definition timer_loop_pass :: "unit op" where
  "timer_loop_pass =
     bind_op (get (\<lambda>c. timer_pass (c_now_ns c) (c_timer c))) (\<lambda>(ready, tm).
       then_op (upd (\<lambda>c. c\<lparr>c_timer := tm\<rparr>)) (for_op ready execute_task))"

end
