(* ===== verification/Core_Frame.thy ===== *)
theory Core_Frame
  imports Core_Rx
begin

text \<open>
  What a received frame can do to the core. A relation between the state before and after that every
  elementary change of the input path satisfies, and that is reflexive and transitive, holds across the whole
  of \<^verbatim>\<open>handle_packet\<close>, also when it raises: the locale \<open>packet_frame\<close> states this once, and its
  interpretations give the invariants. The input path always returns.
\<close>

section \<open>Operations that keep a relation\<close>

definition keeps :: "(core \<Rightarrow> core \<Rightarrow> bool) \<Rightarrow> 'a op \<Rightarrow> bool" where
  "keeps R m \<longleftrightarrow> (\<forall>c r c'. m c = Some (r, c') \<longrightarrow> R c c')"

definition total_op :: "'a op \<Rightarrow> bool" where
  "total_op m \<longleftrightarrow> (\<forall>c. m c \<noteq> None)"

lemma bind_op_Some:
  "bind_op m f c = Some (r, c') \<Longrightarrow>
    (\<exists>e. m c = Some (Inl e, c') \<and> r = Inl e) \<or> (\<exists>x c1. m c = Some (Inr x, c1) \<and> f x c1 = Some (r, c'))"
  by (auto simp: bind_op_def split: option.splits sum.splits)

locale op_relation =
  fixes R :: "core \<Rightarrow> core \<Rightarrow> bool"
  assumes R_refl: "R c c"
    and R_trans: "R a b \<Longrightarrow> R b c \<Longrightarrow> R a c"
begin

lemma keeps_pure: "keeps R (ret x)" "keeps R (raise e)" "keeps R (lift r)" "keeps R (get h)"
  by (simp_all add: keeps_def R_refl)

lemma keeps_upd: "(\<And>c. R c (f c)) \<Longrightarrow> keeps R (upd f)"
  by (simp add: keeps_def)

lemma keeps_bind: "keeps R m \<Longrightarrow> (\<And>x. keeps R (f x)) \<Longrightarrow> keeps R (bind_op m f)"
  unfolding keeps_def by (blast dest: bind_op_Some intro: R_trans)

lemma keeps_then: "keeps R m \<Longrightarrow> keeps R n \<Longrightarrow> keeps R (then_op m n)"
  unfolding then_op_def by (rule keeps_bind)

lemma keeps_for: "(\<And>x. keeps R (f x)) \<Longrightarrow> keeps R (for_op xs f)"
  by (induction xs) (simp_all add: keeps_pure keeps_then)

lemma keeps_if: "keeps R m \<Longrightarrow> keeps R n \<Longrightarrow> keeps R (if b then m else n)"
  by simp

lemma keeps_lift: "(\<And>x. r = Inr x \<Longrightarrow> keeps R (f x)) \<Longrightarrow> keeps R (bind_op (lift r) f)"
  by (cases r) (simp_all add: keeps_def R_refl)

lemma keeps_get: "(\<And>c r c'. f (h c) c = Some (r, c') \<Longrightarrow> R c c') \<Longrightarrow> keeps R (bind_op (get h) f)"
  by (simp add: keeps_def)

lemma keepsD: "keeps R m \<Longrightarrow> m c = Some (r, c') \<Longrightarrow> R c c'"
  by (simp add: keeps_def)

lemmas keeps_intros = keeps_pure keeps_bind keeps_then keeps_for keeps_if

end

text \<open>The calls the input path schedules, and the events it queues.\<close>

fun net_call :: "timer_call \<Rightarrow> bool" where
  "net_call (ScheduleRtx ref) \<longleftrightarrow> False"
| "net_call (RemoveTcpcb ref) \<longleftrightarrow> False"
| "net_call _ \<longleftrightarrow> True"

lemma net_calls: "net_call (ArpFlush ip)" "net_call (ProbeDone ip)" "net_call (ArpWaitRemove ip)"
  "net_call (ReassTimerExceeded ipf bid)"
  by simp_all

definition rx_event :: "core \<Rightarrow> tcp_event \<Rightarrow> bool" where
  "rx_event c ev \<longleftrightarrow> (\<exists>l r p frame. tcp_parse frame = Inr p \<and> tcp_sockets (c_tcp c) (l, sg_dst p, r, sg_src p) \<noteq> None \<and>
     ev = TCPEvent RX_SEGMENT (tcp_tcpcbs (c_tcp c) (l, sg_dst p, r, sg_src p)) (Some p))"

section \<open>The output path\<close>

locale output_frame = op_relation +
  assumes R_schedule: "net_call call \<Longrightarrow> R c (c\<lparr>c_timer := snd (schedule_timer (c_now_ns c) e call (c_timer c))\<rparr>)"
    and R_drawn: "R c (c\<lparr>c_drawn := n\<rparr>)"
    and R_ring: "R c (c\<lparr>c_tx_ring := c_tx_ring c @ [f]\<rparr>)"
    and R_wait: "R c (c\<lparr>c_arp_wait_list := insert ip (c_arp_wait_list c)\<rparr>)"
    and R_pending: "R c (c\<lparr>c_pending := q\<rparr>)"
begin

lemma keeps_schedule: "net_call call \<Longrightarrow> keeps R (core_schedule_timer e call)"
  using R_schedule [of call _ e] by (auto simp: keeps_def core_schedule_timer_def split_def Let_def)

lemma keeps_tx_primitives:
  "keeps R (randint lo hi)" "keeps R (tx_ring_enqueue fb)" "keeps R (enqueue_pending ip dg)"
  "keeps R (upd (\<lambda>c. c\<lparr>c_pending := h2 c\<rparr>))"
  "keeps R (upd (\<lambda>c. c\<lparr>c_arp_wait_list := insert ip (c_arp_wait_list c)\<rparr>))"
proof -
  show "keeps R (randint lo hi)" by (simp add: keeps_def randint_def R_drawn)
qed (unfold tx_ring_enqueue_def enqueue_pending_def, (intro keeps_upd R_ring R_pending R_wait)+)

lemmas keeps_tx = keeps_intros keeps_schedule keeps_tx_primitives net_calls

lemma keeps_tx_ether: "keeps R (tx_ether pl dst src ty)"
  unfolding tx_ether_def by (rule keeps_tx)

lemma keeps_arp_out: "op = ARP_OP_REPLY \<or> \<not> prob \<Longrightarrow> keeps R (tx_arp sha spa tha tpa op prob)"
  by (auto simp: tx_arp_def Let_def arp_wait_add_def ARP_OP_REPLY_def ARP_OP_REQUEST_def
      intro!: keeps_tx keeps_tx_ether)

lemma keeps_pending_out:
  "keeps R (h_unresolved_mac_datagrams src dst dg)" "keeps R (dequeue_pending ip mac)"
  unfolding h_unresolved_mac_datagrams_def dequeue_pending_def
  by (auto intro!: keeps_tx keeps_arp_out keeps_tx_ether split: option.split prod.split)

lemma keeps_options: "keeps R (prep_ip_options v)"
  unfolding prep_ip_options_def by (intro keeps_bind keeps_pure) (auto simp: keeps_def R_refl)

lemma keeps_tx_ip: "keeps R (tx_ip pl src dst protocol opts)"
  unfolding tx_ip_def Let_def
  by (auto intro!: keeps_tx keeps_options keeps_tx_ether keeps_pending_out split: option.split prod.split)

lemma keeps_out:
  "keeps R (tx_icmp src dst ty code data i s)" "keeps R (core_tx_tcp seg)" "keeps R (tx_icmp_error ipf ty code)"
  "keeps R (tx_udp local_ip remote_ip local_port remote_port data opts)" "keeps R (tx_raw pl protocol src dst)"
  unfolding tx_icmp_error_def tx_icmp_def core_tx_tcp_def tx_udp_def tx_raw_def by (intro keeps_tx keeps_tx_ip)+

end

section \<open>The input path\<close>

locale packet_frame = output_frame +
  assumes R_remove: "R c (c\<lparr>c_timer := timer_remove k (c_timer c)\<rparr>)"
    and R_arp: "c_arp_cache c ip = None \<Longrightarrow> R c (c\<lparr>c_arp_cache := (c_arp_cache c)(ip \<mapsto> ae)\<rparr>)"
    and R_conflict: "R c (c\<lparr>c_conflict_ips := c_conflict_ips c @ [ip]\<rparr>)"
    and R_notified: "R c (c\<lparr>c_notified := c_notified c @ [cv]\<rparr>)"
    and R_socks: "R c (c\<lparr>c_socks := (c_socks c)(ref :=
        map_option (\<lambda>s. s\<lparr>s_queue := s_queue s @ [packet]\<rparr>) (c_socks c ref))\<rparr>)"
    and R_events: "rx_event c ev \<Longrightarrow> R c (c\<lparr>c_events := c_events c @ [ev]\<rparr>)"
    and R_frags: "R c (c\<lparr>c_fragments_cache := fr\<rparr>)"
begin

lemma keeps_primitives:
  "keeps R (update_arp_cache ip mac)" "keeps R (core_notify cv)" "keeps R (upd_reass bid g1)"
  "keeps R (get_data ref packet)"
proof -
  show "keeps R (update_arp_cache ip mac)"
    unfolding update_arp_cache_def by (intro keeps_upd) (simp add: R_arp R_refl)
  show "keeps R (core_notify cv)" unfolding core_notify_def by (intro keeps_upd R_notified)
  then show "keeps R (get_data ref packet)" for cv
    unfolding get_data_def core_notify_def by (intro keeps_intros keeps_upd R_socks R_notified)
  show "keeps R (upd_reass bid g1)" unfolding upd_reass_def by (intro keeps_upd R_frags)
qed

lemma keeps_upds:
  "keeps R (upd (\<lambda>c. c\<lparr>c_fragments_cache := h1 c\<rparr>))"
  "keeps R (upd (\<lambda>c. c\<lparr>c_timer := timer_remove k (c_timer c)\<rparr>))"
  "keeps R (upd (\<lambda>c. c\<lparr>c_conflict_ips := c_conflict_ips c @ [ip]\<rparr>))"
  by (intro keeps_upd R_frags R_remove R_conflict)+

lemmas keeps_core = keeps_tx keeps_primitives keeps_upds

lemma keeps_rx_arp: "keeps R (rx_arp ef frame)"
  unfolding rx_arp_def rx_arp_reply_def rx_arp_request_def
  by (auto intro!: keeps_core keeps_arp_out keeps_pending_out split: prod.split)

lemma keeps_tcp_dispatch:
  assumes "tcp_parse frame = Inr p"
  shows "keeps R (bind_op (get c_tcp) (\<lambda>t.
    let sid = (dst_ip, sg_dst p, src_ip, sg_src p)
    in if tcp_sockets t sid \<noteq> None then
         upd (\<lambda>c. c\<lparr>c_events := c_events c @ [TCPEvent RX_SEGMENT (tcp_tcpcbs t sid) (Some p)]\<rparr>)
       else core_tx_tcp (rst_for_closed dst_ip src_ip p)))"
proof (rule keeps_get)
  fix c r c'
  let ?sid = "(dst_ip, sg_dst p, src_ip, sg_src p)"
  assume a: "(let sid = ?sid
    in if tcp_sockets (c_tcp c) sid \<noteq> None then
         upd (\<lambda>c1. c1\<lparr>c_events := c_events c1 @ [TCPEvent RX_SEGMENT (tcp_tcpcbs (c_tcp c) sid) (Some p)]\<rparr>)
       else core_tx_tcp (rst_for_closed dst_ip src_ip p)) c = Some (r, c')"
  show "R c c'"
  proof (cases "tcp_sockets (c_tcp c) ?sid")
    case None
    with a show ?thesis using keepsD [OF keeps_out(2)] by (simp add: Let_def)
  next
    case (Some so)
    then have "rx_event c (TCPEvent RX_SEGMENT (tcp_tcpcbs (c_tcp c) ?sid) (Some p))"
      using assms unfolding rx_event_def by blast
    with a Some show ?thesis using R_events by (auto simp: Let_def)
  qed
qed

lemma keeps_rx_transport: "keeps R (rx_icmp ipf frame)" "keeps R (rx_udp ipf frame)" "keeps R (rx_tcp ipf frame)"
  "keeps R (rx_raw frame)"
proof -
  show "keeps R (rx_tcp ipf frame)"
    unfolding rx_tcp_def by (rule keeps_if, rule keeps_pure, rule keeps_lift) (intro keeps_core keeps_tcp_dispatch)
qed (unfold rx_icmp_def rx_udp_def rx_raw_def h_icmp_dest_unreach_def h_icmp_echo_req_def
    h_icmp_echo_rep_def Let_def, auto intro!: keeps_core keeps_out split: option.split)

lemma keeps_reass_parts:
  "keeps R (get_reass bid)" "keeps R (ip_reass_timer ipf bid)" "keeps R (remove_timer bid)"
  "keeps R (put_data bid offset data)" "keeps R (alloc_ip_reass_mem ipf bid)"
  unfolding get_reass_def ip_reass_timer_def remove_timer_def put_data_def alloc_ip_reass_mem_def
  by (auto intro!: keeps_core split: option.split)

lemma keeps_reass_check: "keeps R (reass_check ipf bid)"
  unfolding reass_check_def restart_timer_def dealloc_ip_reass_mem_def
  by (intro keeps_core keeps_reass_parts)

lemma keeps_reass_branches:
  "keeps R (reass_last_fragment ipf bid offset total_len ihl data)"
  "keeps R (reass_after_last ipf bid offset total_len ihl hdr data)"
  "keeps R (reass_before_last ipf bid offset total_len ihl hdr data)"
proof -
  have t: "keeps R (put_temporary bid)"
    unfolding put_temporary_def
    by (auto intro!: keeps_core keeps_reass_parts split: option.split prod.split)
  show "keeps R (reass_last_fragment ipf bid offset total_len ihl data)"
    "keeps R (reass_after_last ipf bid offset total_len ihl hdr data)"
    "keeps R (reass_before_last ipf bid offset total_len ihl hdr data)"
    unfolding reass_last_fragment_def reass_after_last_def reass_before_last_def init_data_buffer_def
      add_blocks_def fix_total_len_def first_header_late_def restart_timer_def
    by (intro keeps_core keeps_reass_parts keeps_reass_check t)+
qed

lemma keeps_ip_reass: "keeps R (ip_reass ipf)"
  unfolding ip_reass_def Let_def by (intro keeps_core keeps_reass_parts keeps_reass_branches)

lemma keeps_ip_deliver: "keeps R (ip_deliver ipf)"
  unfolding ip_deliver_def icmp_proto_unreach_def ip_protocol_map_def
  by (auto intro!: keeps_core keeps_rx_transport keeps_out split: option.split)

lemma keeps_rx_ip: "keeps R (rx_ip ipf)"
proof -
  have f: "keeps R (ip_fragment_input ipf)"
    unfolding ip_fragment_input_def
    by (auto intro!: keeps_core keeps_ip_reass keeps_ip_deliver split: option.split)
  show ?thesis
    unfolding rx_ip_def icmp_ttl_exceeded_def by (intro keeps_core keeps_ip_deliver keeps_out f)
qed

lemma keeps_handle_packet: "keeps R (handle_packet ef)"
  unfolding handle_packet_def rx_ether_def by (intro keeps_core keeps_rx_arp keeps_rx_ip)

lemma handle_packet_R: "handle_packet ef c = Some (r, c') \<Longrightarrow> R c c'"
  using keeps_handle_packet by (simp add: keeps_def)

lemma deque_batch_R: "deque_batch b c = Some (r, c') \<Longrightarrow> R c c'"
proof -
  have "keeps R (deque_batch b)" unfolding deque_batch_def by (intro keeps_for keeps_handle_packet)
  then show "deque_batch b c = Some (r, c') \<Longrightarrow> R c c'" by (simp add: keeps_def)
qed

end

section \<open>The input path returns\<close>

named_theorems total_intros \<open>operations of the core that return\<close>

lemma total_pure [total_intros]:
  "total_op (ret x)" "total_op (raise e)" "total_op (lift r)" "total_op (get h)" "total_op (upd f)"
  by (simp_all add: total_op_def)

lemma total_bind [total_intros]: "total_op m \<Longrightarrow> (\<And>x. total_op (f x)) \<Longrightarrow> total_op (bind_op m f)"
  by (auto simp: total_op_def bind_op_def split: option.splits sum.splits)

lemma total_then [total_intros]: "total_op m \<Longrightarrow> total_op n \<Longrightarrow> total_op (then_op m n)"
  unfolding then_op_def by (rule total_bind)

lemma total_if [total_intros]: "total_op m \<Longrightarrow> total_op n \<Longrightarrow> total_op (if b then m else n)"
  by simp

lemma total_for [total_intros]: "(\<And>x. total_op (f x)) \<Longrightarrow> total_op (for_op xs f)"
  by (induction xs) (auto intro!: total_intros)

lemma total_primitives [total_intros]: "total_op (core_schedule_timer e call)" "total_op (randint lo hi)"
  by (auto simp: total_op_def core_schedule_timer_def randint_def split: prod.splits)

lemma total_tx_arp [total_intros]: "total_op (tx_arp sha spa tha tpa op prob)"
  unfolding tx_arp_def Let_def arp_probe_add_def arp_wait_add_def tx_ether_def tx_ring_enqueue_def
  by (intro total_intros)

lemma total_pending [total_intros]:
  "total_op (h_unresolved_mac_datagrams src dst dg)" "total_op (dequeue_pending ip mac)"
  unfolding h_unresolved_mac_datagrams_def dequeue_pending_def enqueue_pending_def tx_ether_def tx_ring_enqueue_def
  by (auto intro!: total_intros split: option.split prod.split)

lemma total_tx_ip [total_intros]: "total_op (tx_ip pl src dst protocol Map.empty)"
  unfolding tx_ip_def Let_def tx_ether_def tx_ring_enqueue_def
  by (auto intro!: total_intros split: option.split prod.split)

lemma total_out [total_intros]:
  "total_op (tx_icmp src dst ty code data i s)" "total_op (core_tx_tcp seg)" "total_op (tx_icmp_error ipf ty code)"
  unfolding tx_icmp_error_def tx_icmp_def core_tx_tcp_def by (intro total_intros)+

lemma total_rx_arp [total_intros]: "total_op (rx_arp ef frame)"
  unfolding rx_arp_def rx_arp_reply_def rx_arp_request_def update_arp_cache_def core_notify_def
  by (auto intro!: total_intros split: prod.split)

lemma total_get_data [total_intros]: "total_op (get_data ref packet)"
  unfolding get_data_def core_notify_def by (intro total_intros)

lemma total_rx_transport [total_intros]:
  "total_op (rx_icmp ipf frame)" "total_op (rx_udp ipf frame)" "total_op (rx_tcp ipf frame)" "total_op (rx_raw frame)"
  unfolding rx_icmp_def rx_udp_def rx_tcp_def rx_raw_def h_icmp_dest_unreach_def h_icmp_echo_req_def
    h_icmp_echo_rep_def Let_def
  by (auto intro!: total_intros split: option.split)

lemma total_reass_parts [total_intros]:
  "total_op (get_reass bid)" "total_op (ip_reass_timer ipf bid)" "total_op (remove_timer bid)"
  "total_op (put_data bid offset data)" "total_op (upd_reass bid f)"
  "total_op (alloc_ip_reass_mem ipf bid)"
  unfolding get_reass_def ip_reass_timer_def remove_timer_def put_data_def alloc_ip_reass_mem_def upd_reass_def
  by (auto intro!: total_intros split: option.split)

lemma total_put_temporary [total_intros]: "total_op (put_temporary bid)"
  unfolding put_temporary_def by (auto intro!: total_intros split: option.split prod.split)

lemma total_ip_reass [total_intros]: "total_op (ip_reass ipf)"
  unfolding ip_reass_def Let_def reass_last_fragment_def reass_after_last_def reass_before_last_def
    init_data_buffer_def add_blocks_def fix_total_len_def first_header_late_def restart_timer_def reass_check_def
    dealloc_ip_reass_mem_def
  by (intro total_intros)

lemma total_ip_deliver [total_intros]: "total_op (ip_deliver ipf)"
  unfolding ip_deliver_def icmp_proto_unreach_def ip_protocol_map_def
  by (auto intro!: total_intros split: option.split)

lemma total_rx_ip [total_intros]: "total_op (rx_ip ipf)"
proof -
  have "total_op (ip_fragment_input ipf)"
    unfolding ip_fragment_input_def by (auto intro!: total_intros split: option.split)
  then show ?thesis unfolding rx_ip_def icmp_ttl_exceeded_def by (intro total_intros)
qed

lemma total_handle_packet [total_intros]: "total_op (handle_packet ef)"
  unfolding handle_packet_def rx_ether_def by (intro total_intros)

section \<open>What no frame can do\<close>

definition arp_kept :: "core \<Rightarrow> core \<Rightarrow> bool" where
  "arp_kept c c' \<longleftrightarrow> (\<forall>ip e. c_arp_cache c ip = Some e \<longrightarrow> c_arp_cache c' ip = Some e)"

definition config_kept :: "core \<Rightarrow> core \<Rightarrow> bool" where
  "config_kept c c' \<longleftrightarrow> c_udp c' = c_udp c \<and> c_tcp c' = c_tcp c \<and> c_rip c' = c_rip c \<and> c_tcpcbs c' = c_tcpcbs c \<and>
     c_so_error c' = c_so_error c \<and> c_unicast_ip c' = c_unicast_ip c \<and> c_unicast_mac c' = c_unicast_mac c \<and>
     c_router c' = c_router c \<and> c_network c' = c_network c \<and> c_mask c' = c_mask c \<and>
     c_rx_ip_enabled c' = c_rx_ip_enabled c \<and> c_arp_wait_prob_list c' = c_arp_wait_prob_list c \<and>
     c_arp_wait_list c \<subseteq> c_arp_wait_list c' \<and> dom (c_socks c') = dom (c_socks c)"

definition queues_grow :: "core \<Rightarrow> core \<Rightarrow> bool" where
  "queues_grow c c' \<longleftrightarrow> (\<exists>fs. c_tx_ring c' = c_tx_ring c @ fs) \<and> (\<exists>es. c_events c' = c_events c @ es) \<and>
     (\<exists>ns. c_notified c' = c_notified c @ ns)"

definition timer_kept :: "core \<Rightarrow> core \<Rightarrow> bool" where
  "timer_kept c c' \<longleftrightarrow> (timer_inv (c_timer c) \<longrightarrow> timer_inv (c_timer c'))"

interpretation pf_arp: packet_frame arp_kept
  by unfold_locales (auto simp: arp_kept_def)

interpretation pf_config: packet_frame config_kept
  by unfold_locales (auto simp: config_kept_def split: if_splits)

interpretation pf_queues: packet_frame queues_grow
  by unfold_locales (auto simp: queues_grow_def)

interpretation pf_timer: packet_frame timer_kept
proof unfold_locales
  show "timer_kept c (c\<lparr>c_timer := snd (schedule_timer (c_now_ns c) e call (c_timer c))\<rparr>)" for c e call
    using timer_inv_schedule(1) [of "c_timer c" "c_now_ns c" e call] by (simp add: timer_kept_def prod_eq_iff)
qed (auto simp: timer_kept_def)

text \<open>C15. Handling a batch of received frames, whatever they are, returns. It changes no entry of the ARP
  cache that exists (entries are only added), none of the socket tables, control blocks and addresses, and no
  frame, event or notification that is already queued: these queues only grow at their end; and the queue
  of the timer stays well formed. This holds also of the state that is left when a frame makes a handler raise.\<close>

theorem frames_keep_state:
  shows "\<exists>r c'. deque_batch b c = Some (r, c') \<and> arp_kept c c' \<and> config_kept c c' \<and> queues_grow c c' \<and>
    timer_kept c c'"
proof -
  have "total_op (deque_batch b)" unfolding deque_batch_def by (intro total_intros)
  then obtain r c' where "deque_batch b c = Some (r, c')" by (fastforce simp: total_op_def)
  then show ?thesis
    using pf_arp.deque_batch_R pf_config.deque_batch_R pf_queues.deque_batch_R pf_timer.deque_batch_R by blast
qed

end
