(* ===== verification/Core_Paths.thy ===== *)
theory Core_Paths
  imports Packet_Props Core_Frame
begin

text \<open>
  The paths of a packet through the layers: from a transport's output to the bytes on the interface, and from
  the bytes to the handler of the transport; the resolution of addresses; and the datagrams that do not get
  through.
\<close>

section \<open>IP output\<close>

text \<open>The datagram \<^verbatim>\<open>tx_ip\<close> builds when no socket option is set.\<close>

definition dgram :: "payload \<Rightarrow> int \<Rightarrow> int \<Rightarrow> int \<Rightarrow> int \<Rightarrow> ip_builder" where
  "dgram pl ident protocol src dst =
     \<lparr>ipb_payload = pl, ipb_id = ident, ipb_offset = 0, ipb_df = False, ipb_mf = False, ipb_ttl = OptInt 64,
      ipb_protocol = protocol, ipb_options = [], ipb_ihl = IP_IHL, ipb_total_len = IP_IHL * 4 + payload_len pl,
      ipb_src = src, ipb_dst = dst\<rparr>"

definition next_ident :: "core \<Rightarrow> int" where
  "next_ident c = 1 + c_random c (c_drawn c) mod 65535"

lemma next_ident_range: "0 \<le> next_ident c" "next_ident c < 65536"
proof -
  have "c_random c (c_drawn c) mod 65535 < 65535" by simp
  then show "next_ident c < 65536" unfolding next_ident_def by linarith
qed (simp add: next_ident_def)

lemma dgram_simps [simp]:
  "ip_len (dgram pl ident protocol src dst) = 20 + payload_len pl"
  "ipb_payload (dgram pl ident protocol src dst) = pl" "ipb_src (dgram pl ident protocol src dst) = src"
  "ipb_dst (dgram pl ident protocol src dst) = dst" "ipb_protocol (dgram pl ident protocol src dst) = protocol"
  by (simp_all add: dgram_def ip_len_def IP_IHL_def)

definition ip_frame :: "core \<Rightarrow> int \<Rightarrow> ip_builder \<Rightarrow> ether_builder" where
  "ip_frame c mac d = \<lparr>eb_dst = mac, eb_src = c_unicast_mac c, eb_type = 0x0800, eb_payload = EtherIp d\<rparr>"

lemma tx_ip_eq:
  "tx_ip pl src dst protocol Map.empty c =
    (let d = dgram pl (next_ident c) protocol src dst; c1 = c\<lparr>c_drawn := Suc (c_drawn c)\<rparr>
     in if payload_len pl \<le> 1480 then
          (case ip_route dst c of
             (Some mac, _) \<Rightarrow> Some (Inr (), c1\<lparr>c_tx_ring := c_tx_ring c @ [ip_frame c mac d]\<rparr>)
           | (None, tpa) \<Rightarrow> h_unresolved_mac_datagrams src tpa d c1)
        else
          bind_op (lift (ip_psum d)) (\<lambda>s. bind_op (lift (payload_to_bytes pl s)) (\<lambda>bs.
            bind_op (randint 1 0xffff) (\<lambda>_. raise AttributeError))) c1)"
proof -
  have init: "ip_builder_init pl i (OptInt 64) protocol src dst [] = Inr (dgram pl i protocol src dst)" for i
    by (simp add: ip_builder_init_def ip_ihl_of_def dgram_def)
  have rnd: "randint 1 0xffff c = Some (Inr (next_ident c), c\<lparr>c_drawn := Suc (c_drawn c)\<rparr>)"
    by (simp add: randint_def next_ident_def)
  have frag: "lift (ip_frag_builder_init []) = raise AttributeError"
    by (rule ext) (simp add: ip_frag_builder_init_def ip_ihl_of_def)
  have b: "bind_op (randint 1 0xffff) f c = f (next_ident c) (c\<lparr>c_drawn := Suc (c_drawn c)\<rparr>)" for f :: "int \<Rightarrow> 'a op"
    using rnd by (rule bind_op_simps)
  show ?thesis
    by (auto simp: tx_ip_def Let_def b init frag MTU_def tx_ether_def tx_ring_enqueue_def ip_frame_def
        split: option.split prod.split)
qed

lemma phdr_dgram:
  "ip_psum (dgram pl ident protocol src dst) = phdr_sum src dst protocol (int (payload_len pl))"
  by (simp add: ip_psum_def dgram_def IP_IHL_def)

definition addr_ok :: "int \<Rightarrow> bool" where
  "addr_ok a \<longleftrightarrow> 0 \<le> a \<and> a < 4294967296"

lemma dgram_ok:
  assumes "payload_ok pl protocol" "payload_len pl \<le> 1480" "0 \<le> protocol" "protocol < 256" "addr_ok src" "addr_ok dst"
    "0 \<le> ident" "ident < 65536"
  shows "ip_ok (dgram pl ident protocol src dst)"
  using assms by (auto simp: ip_ok_def dgram_def IP_IHL_def addr_ok_def)

text \<open>The core of the configuration, with its address acquired, that the examples use.\<close>

definition core_example :: core where
  "core_example =
     \<lparr>c_udp = udp_table_init, c_tcp = tcp_table_init, c_rip = \<lparr>rip_sockets = Map.empty\<rparr>,
      c_arp_cache = Map.empty, c_arp_wait_list = {}, c_arp_wait_prob_list = {}, c_fragments_cache = Map.empty,
      c_pending = Map.empty, c_timer = timer_init, c_events = [], c_tx_ring = [], c_conflict_ips = [],
      c_unicast_ip = Some 0xC0A802C8, c_router = 0xC0A80201, c_network = 0xC0A80200, c_mask = 0xFFFFFF00,
      c_unicast_mac = 0x001122334455, c_rx_ip_enabled = True, c_socks = Map.empty, c_tcpcbs = Map.empty,
      c_so_error = (\<lambda>_. NoErr), c_notified = [], c_now_ns = 0, c_random = (\<lambda>n. int n), c_drawn = 0, c_next_ref = 0\<rparr>"

text \<open>A datagram that does not fit in the MTU is never sent: the constructor of \<^verbatim>\<open>IPFragBuilder\<close> reads
  an attribute that does not exist. The call raises an exception for every payload of more than 1480 bytes,
  and neither queues a frame nor keeps the datagram.\<close>

lemma fragmentation_raises:
  assumes "1480 < payload_len pl"
  shows "\<exists>e c'. tx_ip pl src dst protocol Map.empty c = Some (Inl e, c') \<and>
    c_tx_ring c' = c_tx_ring c \<and> c_pending c' = c_pending c \<and>
    (payload_ok pl protocol \<and> (\<forall>d. pl \<noteq> PRaw d) \<and> addr_ok src \<and> addr_ok dst \<and> 0 \<le> protocol \<and>
       protocol < 256 \<and> payload_len pl < 65536 \<longrightarrow> e = AttributeError)"
proof -
  let ?d = "dgram pl (next_ident c) protocol src dst"
  have ps: "ip_psum ?d = Inr (cast_sum le_val 4 (ph_bytes src dst protocol (int (payload_len pl))))"
    if "addr_ok src" "addr_ok dst" "0 \<le> protocol" "protocol < 256" "payload_len pl < 65536"
    using that by (simp add: phdr_dgram phdr_sum_eq addr_ok_def)
  have tb: "\<exists>bs. payload_to_bytes pl (cast_sum le_val 4 (ph_bytes src dst protocol (int (payload_len pl)))) = Inr bs \<or>
      payload_to_bytes pl (cast_sum le_val 4 (ph_bytes src dst protocol (int (payload_len pl)))) = Inl AttributeError"
    if "payload_ok pl protocol" "(\<forall>d. pl \<noteq> PRaw d)"
    using that by (cases pl) (auto simp: udp_to_bytes_def tcp_to_bytes_def build_simps)
  show ?thesis
  proof (cases "ip_psum ?d")
    case (Inl e)
    then show ?thesis using assms ps by (auto simp: tx_ip_eq Let_def)
  next
    case s: (Inr s)
    show ?thesis
    proof (cases "payload_to_bytes pl s")
      case (Inl e)
      then show ?thesis using assms s ps tb by (auto simp: tx_ip_eq Let_def)
    next
      case (Inr bs)
      then show ?thesis using assms s by (simp add: tx_ip_eq Let_def randint_def bind_op_def)
    qed
  qed
qed

lemma fragmentation_raises_witness:
  "\<exists>e c'. tx_ip (PUdp \<lparr>ub_src = 5000, ub_dst = 53, ub_data = replicate 2000 0\<rparr>) 0xC0A802C8 0xC0A80201 17 Map.empty
     core_example = Some (Inl e, c') \<and> c_tx_ring c' = [] \<and> e = AttributeError"
  using fragmentation_raises [of "PUdp \<lparr>ub_src = 5000, ub_dst = 53, ub_data = replicate 2000 0\<rparr>" "0xC0A802C8"
      "0xC0A80201" 17 core_example]
  by (auto simp: udp_len_def UDP_HEADER_LEN_def udp_ok_def IP_PROTO_UDP_def addr_ok_def core_example_def)

section \<open>IP input\<close>

definition deliverable :: "core \<Rightarrow> ip_builder \<Rightarrow> bool" where
  "deliverable c d \<longleftrightarrow> ip_ok d \<and> ipb_offset d = 0 \<and> \<not> ipb_mf d \<and> ip_ttl_of d \<noteq> 0 \<and>
     c_unicast_ip c = Some (ipb_dst d) \<and> \<not> ip_is_broadcast (ipb_src d) \<and> \<not> ip_is_multicast (ipb_src d)"

lemma rx_ip_deliver:
  assumes "deliverable c d"
  shows "rx_ip (ip_bytes d @ zs) c =
    bind_op (ip_deliver (ip_bytes d @ zs)) (\<lambda>raw. if raw then ip_fragment_input (ip_bytes d @ zs) else ret ()) c"
proof -
  have ok: "ip_ok d" using assms by (simp add: deliverable_def)
  note p = ip_parse_bytes [OF ok refl, of zs] ip_parse_frag [OF ok refl, of zs]
  have l: "\<not> length (ip_bytes d @ zs) < 20" by (simp add: ip_bytes_def)
  have v: "inet_csum_little (take 20 (ip_bytes d @ zs)) 0 = 0" by (simp add: ip_bytes_def ip_hdr_verifies)
  show ?thesis using assms l v unfolding rx_ip_def by (simp add: p deliverable_def)
qed

lemma rx_ip_next_layer:
  assumes "deliverable c d" "ip_protocol_map (ipb_protocol d) = Some next_layer"
  shows "rx_ip (ip_bytes d @ zs) c =
    then_op (next_layer (ip_bytes d @ zs) (payload_bytes (ipb_payload d) (cast_sum le_val 4 (ip_ph d)))) (ret ()) c"
proof -
  have ok: "ip_ok d" using assms by (simp add: deliverable_def)
  note p = ip_parse_bytes [OF ok refl, of zs] ip_payload_slice [OF ok, of zs]
  have "ip_deliver (ip_bytes d @ zs) c =
      then_op (next_layer (ip_bytes d @ zs) (payload_bytes (ipb_payload d) (cast_sum le_val 4 (ip_ph d)))) (ret False) c"
    by (simp add: ip_deliver_def p assms(2))
  then show ?thesis unfolding rx_ip_deliver [OF assms(1)]
    by (simp add: bind_op_def then_op_def split: option.splits sum.splits)
qed

text \<open>From the bytes of a frame to the handler of its transport.\<close>

lemma handle_packet_next_layer:
  assumes "ether_ok b" "eb_payload b = EtherIp d" "eb_type b = 0x0800" "deliverable c d" "c_rx_ip_enabled c"
    "ip_protocol_map (ipb_protocol d) = Some next_layer" "tx_frame_bytes b = Inr f"
  shows "handle_packet f c =
    then_op (next_layer (ip_bytes d) (payload_bytes (ipb_payload d) (cast_sum le_val 4 (ip_ph d)))) (ret ()) c"
proof -
  have f: "f = enc (ether_fields b) @ ip_bytes d"
    using tx_frame_bytes_eq [OF assms(1)] assms(2,7) by (simp add: ether_payload_bytes_def)
  show ?thesis
    using rx_ip_next_layer [OF assms(4,6), of "[]"] assms(3,5)
    by (simp add: handle_packet_def rx_ether_def ether_parse_bytes [OF assms(1) f])
qed

lemma then_ret [simp]: "then_op m (ret ()) = m"
  by (rule ext) (auto simp: then_op_def bind_op_def split: option.splits sum.splits)

section \<open>A TCP segment from one stack to another\<close>

lemma phdr_sum_dgram:
  assumes "ip_ok d"
  shows "phdr_sum (ipb_src d) (ipb_dst d) (ipb_protocol d) (int (payload_len (ipb_payload d))) =
    Inr (cast_sum le_val 4 (ip_ph d))"
  using assms unfolding ip_ok_def ip_ph_def by (intro phdr_sum_eq) simp_all

lemma rx_tcp_bytes:
  assumes "ip_ok d" "ipb_payload d = PTcp b" "ipb_protocol d = 6"
  shows "rx_tcp (ip_bytes d) (tcp_bytes b (cast_sum le_val 4 (ip_ph d))) c =
    (let p = seg_of b (cast_sum le_val 4 (ip_ph d)); sid = (ipb_dst d, tb_dst b, ipb_src d, tb_src b)
     in if tcp_sockets (c_tcp c) sid \<noteq> None then
          Some (Inr (), c\<lparr>c_events := c_events c @ [TCPEvent RX_SEGMENT (tcp_tcpcbs (c_tcp c) sid) (Some p)]\<rparr>)
        else core_tx_tcp (rst_for_closed (ipb_dst d) (ipb_src d) p) c)"
proof -
  have b: "tcp_ok b" using assms by (simp add: ip_ok_def)
  note p = ip_parse_bytes [OF assms(1), of _ "[]", simplified, OF refl]
  let ?s = "cast_sum le_val 4 (ip_ph d)"
  have v: "inet_csum_little (tcp_bytes b ?s) ?s = 0"
    unfolding tcp_bytes_def by (rule seal_verifies) (simp_all add: tcp_pre_def ip_ph_def)
  have l: "20 \<le> tcp_len b" by (simp add: tcp_len_eq [OF b])
  have ps: "phdr_sum (ipb_src d) (ipb_dst d) 6 (int (tcp_len b)) = Inr ?s"
    using phdr_sum_dgram [OF assms(1)] by (simp add: assms(2,3))
  have s: "sg_src (seg_of b ?s) = tb_src b" "sg_dst (seg_of b ?s) = tb_dst b" by (simp_all add: seg_of_def)
  show ?thesis
    using l v by (simp add: rx_tcp_def length_tcp_bytes [OF b] tcp_parse_bytes [OF b] p assms(3) ps Let_def s)
qed

text \<open>A segment that fits into one frame, and the options \<^verbatim>\<open>tx_tcp\<close> gives it.\<close>

definition seg_opts :: "out_seg \<Rightarrow> tcp_opt list" where
  "seg_opts s = (if os_mss s then [TCPOptMSS] else [])"

definition out_seg_ok :: "out_seg \<Rightarrow> bool" where
  "out_seg_ok s \<longleftrightarrow> addr_ok (fst (os_src s)) \<and> addr_ok (fst (os_dst s)) \<and>
     0 \<le> snd (os_src s) \<and> snd (os_src s) < 65536 \<and> 0 \<le> snd (os_dst s) \<and> snd (os_dst s) < 65536 \<and>
     seq_num (os_seq s) \<and> seq_num (os_ack_seq s) \<and> 0 \<le> os_window s \<and> os_window s < 65536 \<and>
     tcp_opts_len (seg_opts s) + length (os_data s) \<le> 1460"

lemma seg_opts_facts: "list_all tcp_opt_ok (seg_opts s)" "4 dvd tcp_opts_len (seg_opts s)" "tcp_opts_len (seg_opts s) \<le> 4"
  by (simp_all add: seg_opts_def tcp_opt_ok_def tcp_opts_len_def)

lemma out_seg_tcp_ok:
  assumes "out_seg_ok s"
  shows "tcp_ok (tcp_builder_of s (seg_opts s))" "tcp_len (tcp_builder_of s (seg_opts s)) \<le> 1480"
proof -
  show t: "tcp_ok (tcp_builder_of s (seg_opts s))"
    using assms seg_opts_facts [of s] by (simp add: tcp_ok_def tcp_builder_of_def out_seg_ok_def seq_num_def)
  show "tcp_len (tcp_builder_of s (seg_opts s)) \<le> 1480"
    using assms by (simp add: tcp_len_eq [OF t]) (simp add: tcp_builder_of_def out_seg_ok_def)
qed

definition seg_dgram :: "out_seg \<Rightarrow> int \<Rightarrow> ip_builder" where
  "seg_dgram s ident = dgram (PTcp (tcp_builder_of s (seg_opts s))) ident 6 (fst (os_src s)) (fst (os_dst s))"

lemma seg_dgram_simps:
  "ipb_payload (seg_dgram s ident) = PTcp (tcp_builder_of s (seg_opts s))" "ipb_protocol (seg_dgram s ident) = 6"
  "ipb_src (seg_dgram s ident) = fst (os_src s)" "ipb_dst (seg_dgram s ident) = fst (os_dst s)"
  "tb_src (tcp_builder_of s opts) = snd (os_src s)" "tb_dst (tcp_builder_of s opts) = snd (os_dst s)"
  by (simp_all add: seg_dgram_def tcp_builder_of_def)

lemma core_tx_tcp_eq:
  "core_tx_tcp s = tx_ip (PTcp (tcp_builder_of s (seg_opts s))) (fst (os_src s)) (fst (os_dst s)) IP_PROTO_TCP Map.empty"
proof -
  have "(if os_mss s then tcp_opt_builder [TCPOptMSS] else Inr []) = Inr (seg_opts s)"
    by (simp add: seg_opts_def tcp_opt_builder_def tcp_opt_padding_def tcp_opts_len_def)
  then show ?thesis by (simp add: core_tx_tcp_def fun_eq_iff)
qed

text \<open>
  \<^verbatim>\<open>core.tx_tcp\<close> returns if and only if the segment fits in the MTU; otherwise it raises \<^verbatim>\<open>AttributeError\<close>. This is what
  the handlers of theory \<open>Tcp_Fsm\<close> rely on.
\<close>

lemma seg_payload_len: "payload_len (PTcp (tcp_builder_of s (seg_opts s))) = 20 + (if os_mss s then 4 else 0) + length (os_data s)"
  by (simp add: tcp_builder_of_def seg_opts_def tcp_len_def tcp_doff_def TCP_DOFF_def tcp_opts_len_def)

lemma core_tx_tcp_returns: "(\<exists>c'. core_tx_tcp s c = Some (Inr (), c')) \<longleftrightarrow> seg_fits s"
proof -
  let ?pl = "PTcp (tcp_builder_of s (seg_opts s))"
  have len: "payload_len ?pl \<le> 1480 \<longleftrightarrow> seg_fits s"
    unfolding seg_payload_len by (auto simp: seg_fits_def MTU_def)
  show ?thesis
  proof (cases "seg_fits s")
    case True
    have "\<exists>c'. h_unresolved_mac_datagrams src tpa d c1 = Some (Inr (), c')" for src tpa d c1
      by (simp add: h_unresolved_mac_datagrams_def tx_arp_def arp_wait_add_def core_schedule_timer_def enqueue_pending_def
          tx_ether_def tx_ring_enqueue_def ARP_OP_REQUEST_def then_op_def bind_op_def Let_def split_def)
    then show ?thesis using True len by (simp add: core_tx_tcp_eq tx_ip_eq Let_def split: option.split prod.split)
  next
    case False
    then have "1480 < payload_len ?pl" using len by simp
    then obtain e c' where "core_tx_tcp s c = Some (Inl e, c')"
      unfolding core_tx_tcp_eq using fragmentation_raises [of ?pl] by blast
    then show ?thesis using False by simp
  qed
qed

lemma core_tx_tcp_raises:
  assumes "\<not> seg_fits s" "tcp_ok (tcp_builder_of s (seg_opts s))" "addr_ok (fst (os_src s))" "addr_ok (fst (os_dst s))"
    "length (os_data s) < 65000"
  shows "\<exists>c'. core_tx_tcp s c = Some (Inl AttributeError, c')"
proof -
  let ?pl = "PTcp (tcp_builder_of s (seg_opts s))"
  have len: "1480 < payload_len ?pl" "payload_len ?pl < 65536"
    using assms(1,5) unfolding seg_payload_len by (auto simp: seg_fits_def MTU_def split: if_splits)
  have "payload_ok ?pl IP_PROTO_TCP" using assms(2) by (simp add: IP_PROTO_TCP_def)
  then show ?thesis
    unfolding core_tx_tcp_eq
    using fragmentation_raises [OF len(1), of "fst (os_src s)" "fst (os_dst s)" IP_PROTO_TCP c] len(2) assms(3,4)
    by (auto simp: IP_PROTO_TCP_def)
qed

lemma core_tx_tcp_resolved:
  assumes "out_seg_ok s" "ip_route (fst (os_dst s)) c = (Some mac, nh)"
  shows "core_tx_tcp s c = Some (Inr (), c\<lparr>c_drawn := Suc (c_drawn c),
    c_tx_ring := c_tx_ring c @ [ip_frame c mac (seg_dgram s (next_ident c))]\<rparr>)"
  using out_seg_tcp_ok(2) [OF assms(1)]
  by (simp add: core_tx_tcp_eq tx_ip_eq Let_def assms(2) seg_dgram_def IP_PROTO_TCP_def)

lemma seg_dgram_ok: "out_seg_ok s \<Longrightarrow> 0 \<le> ident \<Longrightarrow> ident < 65536 \<Longrightarrow> ip_ok (seg_dgram s ident)"
  unfolding seg_dgram_def using out_seg_tcp_ok [of s]
  by (intro dgram_ok) (simp_all add: out_seg_ok_def IP_PROTO_TCP_def)

lemma ip_frame_ok: "ip_ok d \<Longrightarrow> ip_len d \<le> MTU \<Longrightarrow> mac_ok mac \<Longrightarrow> mac_ok (c_unicast_mac c) \<Longrightarrow> ether_ok (ip_frame c mac d)"
  by (simp add: ether_ok_def ip_frame_def)

text \<open>What the receiver's parser makes of a segment.\<close>

definition seg_received :: "out_seg \<Rightarrow> tcp_seg \<Rightarrow> bool" where
  "seg_received s p \<longleftrightarrow> sg_src p = snd (os_src s) \<and> sg_dst p = snd (os_dst s) \<and> sg_seq p = os_seq s \<and>
     sg_ack_seq p = os_ack_seq s \<and> sg_window p = os_window s \<and> sg_ack p = os_ack s \<and> sg_psh p = os_psh s \<and>
     sg_rst p = os_rst s \<and> sg_syn p = os_syn s \<and> sg_fin p = os_fin s \<and> sg_data p = os_data s \<and>
     sg_dlen p = int (length (os_data s)) \<and> seg_ok p \<and> sg_dlen p = int (length (sg_frame p)) - sg_doff p \<and> (os_mss s \<longrightarrow> sg_options p = Inr (Some MSS))"

lemma seg_of_wf:
  assumes "tcp_ok b"
  shows "seg_ok (seg_of b k)" "sg_dlen (seg_of b k) = int (length (sg_frame (seg_of b k))) - sg_doff (seg_of b k)"
proof -
  have "0 \<le> tcp_flag_word b mod 256" "tcp_flag_word b mod 256 < 256" by simp_all
  then show "seg_ok (seg_of b k)"
    using assms tcp_doff_range [OF assms] by (simp add: seg_ok_def seg_of_def tcp_ok_def seq_num_def del: pos_mod_bound)
  show "sg_dlen (seg_of b k) = int (length (sg_frame (seg_of b k))) - sg_doff (seg_of b k)"
    using length_tcp_bytes [OF assms] by (simp add: seg_of_def tcp_len_def)
qed

lemma seg_of_received: "out_seg_ok s \<Longrightarrow> seg_received s (seg_of (tcp_builder_of s (seg_opts s)) k)"
  using seg_of_flags [OF out_seg_tcp_ok(1), of s k] seg_of_data [OF out_seg_tcp_ok(1), of s k]
    seg_of_mss [OF out_seg_tcp_ok(1), of s k] seg_of_wf [OF out_seg_tcp_ok(1), of s k]
  by (simp add: seg_received_def) (simp add: seg_of_def tcp_builder_of_def seg_opts_def)

text \<open>The frame of a segment that arrives at a stack whose address it carries.\<close>

definition accepts :: "core \<Rightarrow> out_seg \<Rightarrow> bool" where
  "accepts c s \<longleftrightarrow> c_unicast_ip c = Some (fst (os_dst s)) \<and> c_rx_ip_enabled c \<and>
     \<not> ip_is_broadcast (fst (os_src s)) \<and> \<not> ip_is_multicast (fst (os_src s))"

lemma segment_frame_received:
  assumes s: "out_seg_ok s" and i: "0 \<le> ident" "ident < 65536" and m: "mac_ok mac" "mac_ok (c_unicast_mac c)"
    and r: "accepts c2 s"
  shows "\<exists>f p. tx_frame_bytes (ip_frame c mac (seg_dgram s ident)) = Inr f \<and> seg_received s p \<and>
    handle_packet f c2 =
      (let sid = (fst (os_dst s), snd (os_dst s), fst (os_src s), snd (os_src s))
       in if tcp_sockets (c_tcp c2) sid \<noteq> None then
            Some (Inr (), c2\<lparr>c_events := c_events c2 @ [TCPEvent RX_SEGMENT (tcp_tcpcbs (c_tcp c2) sid) (Some p)]\<rparr>)
          else core_tx_tcp (rst_for_closed (fst (os_dst s)) (fst (os_src s)) p) c2)"
proof -
  let ?d = "seg_dgram s ident" and ?b = "tcp_builder_of s (seg_opts s)"
  let ?ps = "cast_sum le_val 4 (ip_ph ?d)"
  have ok: "ip_ok ?d" by (rule seg_dgram_ok [OF s i])
  have e: "ether_ok (ip_frame c mac ?d)"
    using out_seg_tcp_ok(2) [OF s] by (intro ip_frame_ok ok m) (simp add: seg_dgram_def MTU_def)
  obtain f where f: "tx_frame_bytes (ip_frame c mac ?d) = Inr f" using tx_frame_bytes_eq [OF e] by blast
  have del: "deliverable c2 ?d"
    using r ok by (simp add: deliverable_def accepts_def seg_dgram_def dgram_def ip_ttl_of_def)
  have "handle_packet f c2 = rx_tcp (ip_bytes ?d) (tcp_bytes ?b ?ps) c2"
    using handle_packet_next_layer [OF e _ _ del _ _ f, of rx_tcp] r
    by (simp add: ip_frame_def accepts_def seg_dgram_def ip_protocol_map_def)
  then show ?thesis
    using f seg_of_received [OF s, of ?ps] rx_tcp_bytes [OF ok, of ?b c2]
    by - (rule exI [of _ f], rule exI [of _ "seg_of ?b ?ps"], simp only: seg_dgram_simps simp_thms, simp add: Let_def)
qed

text \<open>C10. A segment from one stack to another: \<^verbatim>\<open>tx_tcp\<close> puts one frame into the transmit ring of the
  sender, addressed to the resolved next hop; and when the bytes of this frame reach a stack with a socket
  for the connection, through the checks of Ethernet, IP and TCP, a single event is queued there, for the
  control block of the connection and with a parsed segment that has the sequence and acknowledgment
  numbers, window, flags, options and data of the segment that was sent. Nothing else changes.\<close>

theorem tcp_segment_crosses:
  assumes "out_seg_ok s" "ip_route (fst (os_dst s)) c = (Some mac, nh)" "mac_ok mac" "mac_ok (c_unicast_mac c)"
    "accepts c2 s" "sid = (fst (os_dst s), snd (os_dst s), fst (os_src s), snd (os_src s))"
    "tcp_sockets (c_tcp c2) sid = Some ref"
  shows "\<exists>fb f p. core_tx_tcp s c = Some (Inr (), c\<lparr>c_drawn := Suc (c_drawn c), c_tx_ring := c_tx_ring c @ [fb]\<rparr>) \<and>
    eb_dst fb = mac \<and> tx_frame_bytes fb = Inr f \<and> seg_received s p \<and>
    handle_packet f c2 =
      Some (Inr (), c2\<lparr>c_events := c_events c2 @ [TCPEvent RX_SEGMENT (tcp_tcpcbs (c_tcp c2) sid) (Some p)]\<rparr>)"
  using segment_frame_received [OF assms(1) next_ident_range assms(3,4,5)] core_tx_tcp_resolved [OF assms(1,2)] assms(6,7)
  by (auto simp: Let_def ip_frame_def)

definition seg_out_example :: out_seg where
  "seg_out_example =
     \<lparr>os_src = (0xC0A80205, 40000), os_dst = (0xC0A802C8, 80), os_seq = 0xFFFFFFFF, os_ack_seq = 5, os_ack = True,
      os_psh = True, os_rst = False, os_syn = False, os_fin = False, os_window = 1000, os_mss = False, os_data = [1, 2, 3]\<rparr>"

lemma seg_out_example_ok: "out_seg_ok seg_out_example"
  by (simp add: out_seg_ok_def seg_out_example_def addr_ok_def seq_num_def seg_opts_def tcp_opts_len_def)

lemmas route_eval = ip_route_def find_entry_def ip_is_broadcast_def ip_is_multicast_def is_in_subnet_def

text \<open>The example core with one resolved neighbour, and with a socket of a TCP connection.\<close>

definition arp_example :: "int \<Rightarrow> core" where
  "arp_example ip =
     core_example\<lparr>c_arp_cache := [ip \<mapsto> \<lparr>ae_mac_address = 0x020000000005, ae_flush_after = 300\<rparr>]\<rparr>"

definition sock_example :: core where
  "sock_example =
     core_example\<lparr>c_tcp := tcp_register_socket (0xC0A802C8, 80, 0xC0A80205, 40000) 0 (tcp_table_init)\<rparr>"

lemma example_routes:
  "ip_route 0xC0A802C8 (arp_example 0xC0A802C8) = (Some 0x020000000005, 0xC0A802C8)"
  "ip_route 0xC0A80205 (arp_example 0xC0A80205) = (Some 0x020000000005, 0xC0A80205)"
  by (simp_all add: route_eval arp_example_def core_example_def)

lemma example_facts:
  "mac_ok 0x020000000005" "mac_ok (c_unicast_mac (arp_example ip))" "accepts sock_example seg_out_example"
  "accepts (arp_example ip) seg_out_example"
  by (simp_all add: mac_ok_def arp_example_def core_example_def accepts_def sock_example_def seg_out_example_def route_eval)

theorem tcp_segment_crosses_witness:
  "\<exists>fb f p. tx_frame_bytes fb = Inr f \<and> seg_received seg_out_example p \<and>
     handle_packet f sock_example = Some (Inr (), sock_example\<lparr>c_events := [TCPEvent RX_SEGMENT None (Some p)]\<rparr>)"
proof -
  have sock: "tcp_sockets (c_tcp sock_example) (0xC0A802C8, 80, 0xC0A80205, 40000) = Some 0"
    and cb: "tcp_tcpcbs (c_tcp sock_example) = Map.empty" and ev: "c_events sock_example = []"
    by (simp_all add: sock_example_def core_example_def tcp_register_socket_def tcp_table_init_def)
  have sid: "(0xC0A802C8, 80, 0xC0A80205, 40000) = (fst (os_dst seg_out_example), snd (os_dst seg_out_example),
      fst (os_src seg_out_example), snd (os_src seg_out_example))" by (simp add: seg_out_example_def)
  have "ip_route (fst (os_dst seg_out_example)) (arp_example 0xC0A802C8) = (Some 0x020000000005, 0xC0A802C8)"
    using example_routes(1) by (simp add: seg_out_example_def)
  from tcp_segment_crosses [OF seg_out_example_ok this example_facts(1,2,3) sid sock]
  show ?thesis by (auto simp: cb ev)
qed

text \<open>C36. A segment for a connection that does not exist is answered with one reset, as RFC 9293, 3.5.2 asks:
  with the acknowledgment number of the segment as its sequence number when the segment has one, and
  otherwise with sequence number 0 and an acknowledgment of everything the segment occupies. This is so
  also when the segment is itself a reset, which RFC 9293, 3.10.7.1 says to discard: two such
  stacks answer each other's resets for ever.\<close>

theorem closed_port_reset:
  assumes "out_seg_ok s" "0 \<le> ident" "ident < 65536" "mac_ok mac" "mac_ok (c_unicast_mac c)" "accepts c2 s"
    "tcp_sockets (c_tcp c2) (fst (os_dst s), snd (os_dst s), fst (os_src s), snd (os_src s)) = None"
    "ip_route (fst (os_src s)) c2 = (Some mac2, nh)"
  shows "\<exists>f rst. tx_frame_bytes (ip_frame c mac (seg_dgram s ident)) = Inr f \<and>
    handle_packet f c2 = Some (Inr (), c2\<lparr>c_drawn := Suc (c_drawn c2),
      c_tx_ring := c_tx_ring c2 @ [ip_frame c2 mac2 (seg_dgram rst (next_ident c2))]\<rparr>) \<and>
    os_rst rst \<and> \<not> os_syn rst \<and> \<not> os_fin rst \<and> os_data rst = [] \<and> os_src rst = os_dst s \<and> os_dst rst = os_src s \<and>
    (os_ack s \<longrightarrow> os_seq rst = os_ack_seq s \<and> \<not> os_ack rst) \<and>
    (\<not> os_ack s \<longrightarrow> os_seq rst = 0 \<and> os_ack rst \<and>
       os_ack_seq rst = (os_seq s + int (length (os_data s)) + of_bool (os_syn s) + of_bool (os_fin s)) mod 2 ^ 32)"
proof -
  obtain f p where f: "tx_frame_bytes (ip_frame c mac (seg_dgram s ident)) = Inr f" and p: "seg_received s p"
    and h: "handle_packet f c2 = core_tx_tcp (rst_for_closed (fst (os_dst s)) (fst (os_src s)) p) c2"
    using segment_frame_received [OF assms(1-6)] assms(7) by (auto simp: Let_def)
  let ?r = "rst_for_closed (fst (os_dst s)) (fst (os_src s)) p"
  have ok: "out_seg_ok ?r"
    using assms(1) p by (auto simp: out_seg_ok_def rst_for_closed_def seg_received_def Let_def seq_num_def
        seg_opts_def tcp_opts_len_def)
  have "fst (os_dst ?r) = fst (os_src s)" by (simp add: rst_for_closed_def Let_def)
  then have "handle_packet f c2 = Some (Inr (), c2\<lparr>c_drawn := Suc (c_drawn c2),
      c_tx_ring := c_tx_ring c2 @ [ip_frame c2 mac2 (seg_dgram ?r (next_ident c2))]\<rparr>)"
    using h core_tx_tcp_resolved [OF ok, of c2 mac2 nh] assms(8) by simp
  then show ?thesis
    using f p
    by - (rule exI [of _ f], rule exI [of _ ?r],
        simp add: rst_for_closed_def Let_def seg_received_def mask32_mod)
qed

theorem closed_port_reset_witness:
  "\<exists>f rst. tx_frame_bytes (ip_frame core_example 0x001122334455 (seg_dgram seg_out_example 9)) = Inr f \<and>
     handle_packet f (arp_example 0xC0A80205) = Some (Inr (), (arp_example 0xC0A80205)\<lparr>c_drawn := 1,
       c_tx_ring := [ip_frame (arp_example 0xC0A80205) 0x020000000005 (seg_dgram rst (next_ident (arp_example 0xC0A80205)))]\<rparr>) \<and>
     os_rst rst \<and> os_seq rst = 5"
proof -
  have m: "mac_ok 0x001122334455" "mac_ok (c_unicast_mac core_example)" by (simp_all add: mac_ok_def core_example_def)
  have n: "tcp_sockets (c_tcp (arp_example 0xC0A80205)) (fst (os_dst seg_out_example), snd (os_dst seg_out_example),
      fst (os_src seg_out_example), snd (os_src seg_out_example)) = None"
    by (simp add: arp_example_def core_example_def tcp_table_init_def)
  have r: "ip_route (fst (os_src seg_out_example)) (arp_example 0xC0A80205) = (Some 0x020000000005, 0xC0A80205)"
    using example_routes(2) by (simp add: seg_out_example_def)
  have d: "c_drawn (arp_example 0xC0A80205) = 0" "c_tx_ring (arp_example 0xC0A80205) = []" "os_ack seg_out_example"
    "os_ack_seq seg_out_example = 5" by (simp_all add: arp_example_def core_example_def seg_out_example_def)
  from closed_port_reset [OF seg_out_example_ok _ _ m example_facts(4) n r, of 9]
  show ?thesis by (auto simp: d)
qed

section \<open>ICMP echo\<close>

text \<open>An echo request that arrives for the address of the stack, from a neighbour whose address is
  resolved, is answered with exactly one frame: an echo reply with the identifier, the sequence number and
  the data of the request, from the address the request was sent to and to its source.\<close>

lemma echo_reply:
  assumes "ether_ok b" "eb_payload b = EtherIp d" "eb_type b = 0x0800" "deliverable c d" "c_rx_ip_enabled c"
    "ipb_protocol d = 1" "ipb_payload d = PIcmp q" "ib_type q = ECHO_REQUEST" "ib_code q = 0"
    "ip_route (ipb_src d) c = (Some mac, nh)" "tx_frame_bytes b = Inr f"
  shows "handle_packet f c = Some (Inr (), c\<lparr>c_drawn := Suc (c_drawn c),
    c_tx_ring := c_tx_ring c @ [ip_frame c mac
      (dgram (PIcmp (q\<lparr>ib_type := ECHO_REPLY\<rparr>)) (next_ident c) 1 (ipb_dst d) (ipb_src d))]\<rparr>)"
proof -
  have ok: "ip_ok d" "icmp_ok q" "ip_len d \<le> MTU" using assms(1,2,4,7) by (simp_all add: ether_ok_def ip_ok_def)
  obtain h where h: "icmp_parse (icmp_bytes q) = Inr h" "ih_type h = ECHO_REQUEST" "ih_code h = 0"
      "Some (ih_echo_id h) = ib_echo_id q" "Some (ih_echo_seq h) = ib_echo_seq q" "ih_data h = ib_data q"
    using icmp_parse_bytes [OF ok(2)] assms(8,9) by auto
  note p = ip_parse_bytes [OF ok(1), of _ "[]", simplified, OF refl]
  have "handle_packet f c = rx_icmp (ip_bytes d) (icmp_bytes q) c"
    using handle_packet_next_layer [OF assms(1-5) _ assms(11), of rx_icmp] assms(6,7) by (simp add: ip_protocol_map_def)
  also have "\<dots> = h_icmp_echo_req (ip_bytes d) h c"
    using h(2,3) by (simp add: rx_icmp_def icmp_len_def h(1) icmp_verifies icmp_consts)
  also have "\<dots> = tx_ip (PIcmp (q\<lparr>ib_type := ECHO_REPLY\<rparr>)) (ipb_dst d) (ipb_src d) 1 Map.empty c"
    using assms(9) by (cases q) (simp add: h_icmp_echo_req_def p tx_icmp_def h(4-6) ECHO_REQ_REP_def)
  finally show ?thesis
    using ok(3) assms(7,10) by (simp add: tx_ip_eq Let_def ip_len_def MTU_def icmp_len_def ok(1) [unfolded ip_ok_def] IP_IHL_def)
qed

definition echo_example :: icmp_builder where
  "echo_example = \<lparr>ib_type = ECHO_REQUEST, ib_code = 0, ib_data = [1, 2, 3], ib_echo_id = Some 7, ib_echo_seq = Some 1\<rparr>"

definition echo_frame :: ether_builder where
  "echo_frame = ip_frame core_example 0x001122334455 (dgram (PIcmp echo_example) 9 1 0xC0A80205 0xC0A802C8)"

lemma echo_frame_ok: "ip_ok (dgram (PIcmp echo_example) 9 1 0xC0A80205 0xC0A802C8)" "ether_ok echo_frame"
proof -
  show d: "ip_ok (dgram (PIcmp echo_example) 9 1 0xC0A80205 0xC0A802C8)"
    by (rule dgram_ok) (simp_all add: echo_example_def icmp_ok_def icmp_consts proto_consts addr_ok_def icmp_len_def)
  show "ether_ok echo_frame"
    unfolding echo_frame_def
    by (rule ip_frame_ok [OF d]) (simp_all add: mac_ok_def core_example_def MTU_def icmp_len_def echo_example_def)
qed

lemma echo_reply_witness:
  "\<exists>f. tx_frame_bytes echo_frame = Inr f \<and>
     handle_packet f (arp_example 0xC0A80205) = Some (Inr (), (arp_example 0xC0A80205)\<lparr>c_drawn := 1,
       c_tx_ring := [ip_frame (arp_example 0xC0A80205) 0x020000000005
         (dgram (PIcmp (echo_example\<lparr>ib_type := ECHO_REPLY\<rparr>)) 1 1 0xC0A802C8 0xC0A80205)]\<rparr>)"
proof -
  let ?c = "arp_example 0xC0A80205" and ?d = "dgram (PIcmp echo_example) 9 1 0xC0A80205 0xC0A802C8"
  obtain f where f: "tx_frame_bytes echo_frame = Inr f" using tx_frame_bytes_eq [OF echo_frame_ok(2)] by blast
  have a: "eb_payload echo_frame = EtherIp ?d" "eb_type echo_frame = 0x0800" "c_rx_ip_enabled ?c" "next_ident ?c = 1"
    "c_drawn ?c = 0" "c_tx_ring ?c = []" "ib_type echo_example = ECHO_REQUEST" "ib_code echo_example = 0"
    by (simp_all add: echo_frame_def ip_frame_def arp_example_def core_example_def next_ident_def echo_example_def)
  have d: "deliverable ?c ?d"
    using echo_frame_ok(1) by (simp add: deliverable_def dgram_def ip_ttl_of_def arp_example_def core_example_def route_eval)
  have r: "ip_route (ipb_src ?d) ?c = (Some 0x020000000005, 0xC0A80205)" using example_routes(2) by simp
  show ?thesis using f echo_reply [OF echo_frame_ok(2) a(1,2) d a(3) _ _ a(7,8) r f] by (simp add: a)
qed

text \<open>A destination-unreachable message about a port or a protocol with a non-empty quotation makes the
  receiving thread raise \<^verbatim>\<open>NameError\<close>: no error is recorded for the socket the message is about, and the state
  is left as it was.\<close>

lemma unreachable_raises:
  assumes "8 < length frame" "inet_csum_little frame 0 = 0" "icmp_parse frame = Inr h"
    "ih_type h = DESTINATION_UNREACHABLE" "ih_code h \<in> {PORT_UNREACHABLE, PROTOCOL_UNREACHABLE}"
  shows "rx_icmp ipf frame c = Some (Inl NameError, c)"
proof -
  have "ih_frame h = frame" using assms(3) by (auto simp: icmp_parse_def bind_r_Inr_iff)
  then have "byte_at (ih_data h) 0 = Inr (uint (frame ! 8))"
    using assms(1) by (simp add: ih_data_def ICM_HEADER_LEN_def byte_at_def)
  then show ?thesis
    using assms by (auto simp: rx_icmp_def h_icmp_dest_unreach_def PORT_UNREACHABLE_def PROTOCOL_UNREACHABLE_def)
qed

definition unreachable_example :: icmp_builder where
  "unreachable_example = \<lparr>ib_type = 3, ib_code = 3, ib_data = [0x45], ib_echo_id = None, ib_echo_seq = None\<rparr>"

lemma unreachable_icmp: "rx_icmp ipf (icmp_bytes unreachable_example) c = Some (Inl NameError, c)"
proof -
  have f: "icmp_bytes unreachable_example = enc [(1, 3), (1, 3)] @ be_bytes 2 (inet_csum_little (enc [(1, 3), (1, 3)] @ be_bytes 2 0 @
      enc [(4, 0)] @ [0x45]) 0) @ enc [(4, 0)] @ [0x45]"
    by (simp add: unreachable_example_def icmp_bytes_def seal_def icmp_rest_def icmp_consts)
  obtain h where h: "icmp_parse (icmp_bytes unreachable_example) = Inr h"
    by (auto simp: icmp_parse_def byte_at_def unpack_be_def icmp_len_def)
  have "byte_at (icmp_bytes unreachable_example) 0 = Inr 3" "byte_at (icmp_bytes unreachable_example) 1 = Inr 3"
    unfolding f by (simp_all add: byte_at_def)
  then have "ih_type h = 3" "ih_code h = 3" using h by (auto simp: icmp_parse_def bind_r_Inr_iff)
  then show ?thesis
    using unreachable_raises [of "icmp_bytes unreachable_example" h ipf c] h icmp_verifies
    by (simp add: icmp_len_def icmp_consts PORT_UNREACHABLE_def unreachable_example_def)
qed

section \<open>UDP input\<close>

lemma rfc1071_zero_iff: "rfc1071 xs = 0 \<longleftrightarrow> be16_sum xs \<noteq> 0 \<and> be16_sum xs mod 65535 = 0"
  by (cases "be16_sum xs") (auto simp: rfc1071_def ones_norm_def mod_Suc)

lemma be16_sum_ph:
  assumes "0 \<le> len" "len < 65536"
  shows "be16_sum (ph_bytes src dst protocol len @ xs) = be16_sum (enc [(4, src), (4, dst), (1, 0), (1, protocol)]) + nat len + be16_sum xs"
proof -
  have "ph_bytes src dst protocol len = enc [(4, src), (4, dst), (1, 0), (1, protocol)] @ be16 len"
    by (simp add: ph_bytes_def be_bytes_2)
  moreover have "length (be16 len) = 2" by (simp flip: be_bytes_2)
  moreover have "even (length (enc [(4, src), (4, dst), (1, 0), (1, protocol)]))" by simp
  ultimately show ?thesis using assms be16_sum_be16 [of len] by (simp add: be16_sum_append del: enc_simps)
qed

lemma udp_csum_short_ph:
  assumes "ip_ok d" "ipb_payload d = PUdp u" "ub_data u \<noteq> []"
  shows "inet_csum_little (udp_bytes u (cast_sum le_val 4 (ip_ph d)))
    (cast_sum le_val 4 (ph_bytes (ipb_src d) (ipb_dst d) (ipb_protocol d) 8)) \<noteq> 0"
proof -
  let ?f = "udp_bytes u (cast_sum le_val 4 (ip_ph d))" and ?n = "length (ub_data u)"
  let ?K = "be16_sum (enc [(4, ipb_src d), (4, ipb_dst d), (1, 0), (1, ipb_protocol d)]) + be16_sum ?f"
  have u: "udp_len u = 8 + ?n" "udp_len u < 65536" "0 < ?n"
    using assms by (auto simp: ip_ok_def udp_ok_def udp_len_def UDP_HEADER_LEN_def)
  have "inet_csum_little ?f (cast_sum le_val 4 (ip_ph d)) = 0"
    unfolding udp_bytes_def by (rule seal_verifies) (simp_all add: ip_ph_def)
  then have "rfc1071 (ip_ph d @ ?f) = 0" by (simp add: csum_little_phdr ip_ph_def)
  moreover have "be16_sum (ip_ph d @ ?f) = ?K + udp_len u"
    using be16_sum_ph [of "int (udp_len u)" "ipb_src d" "ipb_dst d" "ipb_protocol d" ?f] u(2)
    by (simp add: ip_ph_def assms(2) del: enc_simps)
  ultimately have "(?K + 8 + ?n) mod 65535 = 0"
    unfolding rfc1071_zero_iff u(1) by (simp only: add.assoc)
  moreover have "rfc1071 (ph_bytes (ipb_src d) (ipb_dst d) (ipb_protocol d) 8 @ ?f) = 0 \<Longrightarrow> (?K + 8) mod 65535 = 0"
    by (simp add: rfc1071_zero_iff be16_sum_ph add_ac del: enc_simps)
  moreover have "?n mod 65535 = 0" if "(?K + 8) mod 65535 = 0" "(?K + 8 + ?n) mod 65535 = 0"
    using that by (metis add_0 mod_add_left_eq)
  moreover have "?n mod 65535 \<noteq> 0" using u by simp
  ultimately show ?thesis by (auto simp: csum_little_phdr)
qed

text \<open>The two outcomes of a datagram that the sender built correctly.\<close>

lemma rx_udp_bytes:
  assumes "ip_ok d" "ipb_payload d = PUdp u" "ipb_protocol d = 17"
  shows "rx_udp (ip_bytes d) (udp_bytes u (cast_sum le_val 4 (ip_ph d))) c =
    (if ub_data u \<noteq> [] then Some (Inr (), c)
     else case udp_sockets (c_udp c) (ipb_dst d, ub_dst u, ipb_src d, ub_src u) of
            Some ref \<Rightarrow> get_data ref [] c
          | None \<Rightarrow> tx_icmp_error (ip_bytes d) DESTINATION_UNREACHABLE PORT_UNREACHABLE c)"
proof -
  let ?s = "cast_sum le_val 4 (ip_ph d)"
  note p = ip_parse_bytes [OF assms(1), of _ "[]", simplified, OF refl]
  have u: "udp_ok u" using assms by (simp add: ip_ok_def)
  obtain h where h: "udp_parse (udp_bytes u ?s) = Inr h" "uh_src h = ub_src u" "uh_dst h = ub_dst u" "uh_data h = ub_data u"
    using udp_parse_bytes [OF u] by blast
  have l: "\<not> udp_len u < 8" by (simp add: udp_len_def UDP_HEADER_LEN_def)
  have ps: "phdr_sum (ipb_src d) (ipb_dst d) 17 8 = Inr (cast_sum le_val 4 (ph_bytes (ipb_src d) (ipb_dst d) 17 8))"
    using assms(1,3) by (intro phdr_sum_eq) (simp_all add: ip_ok_def)
  have e: "inet_csum_little (udp_bytes u ?s) (cast_sum le_val 4 (ph_bytes (ipb_src d) (ipb_dst d) 17 8)) = 0"
    if "ub_data u = []"
  proof -
    have "ip_ph d = ph_bytes (ipb_src d) (ipb_dst d) 17 8"
      using that by (simp add: ip_ph_def assms(2,3) udp_len_def UDP_HEADER_LEN_def)
    then show ?thesis unfolding udp_bytes_def by (simp only:) (rule seal_verifies, simp_all)
  qed
  show ?thesis
    using l e udp_csum_short_ph [OF assms(1,2)] assms(3)
    by (auto simp: rx_udp_def h p UDP_HEADER_LEN_def ps split: option.split)
qed

text \<open>A UDP datagram with data never reaches its socket: the receiver computes the pseudo header with the
  length of the UDP header instead of that of the datagram, so that the checksum of every correct datagram
  with at least one byte of data fails. The datagram is dropped and the state is unchanged; only a datagram
  without data is put into the queue of the socket it is for.\<close>

lemma udp_data_dropped:
  assumes "ether_ok b" "eb_payload b = EtherIp d" "eb_type b = 0x0800" "deliverable c d" "c_rx_ip_enabled c"
    "ipb_protocol d = 17" "ipb_payload d = PUdp u" "tx_frame_bytes b = Inr f"
    "udp_sockets (c_udp c) (ipb_dst d, ub_dst u, ipb_src d, ub_src u) = Some ref"
  shows "handle_packet f c = (if ub_data u = [] then get_data ref [] c else Some (Inr (), c))"
proof -
  have "ip_ok d" using assms(4) by (simp add: deliverable_def)
  then show ?thesis
    using handle_packet_next_layer [OF assms(1-5) _ assms(8), of rx_udp] assms(6,7,9)
    by (simp add: ip_protocol_map_def rx_udp_bytes)
qed

lemma udp_data_dropped_witness:
  "\<exists>f. tx_frame_bytes (ip_frame core_example 0x001122334455
       (dgram (PUdp \<lparr>ub_src = 53, ub_dst = 5000, ub_data = [1, 2, 3]\<rparr>) 9 17 0xC0A80201 0xC0A802C8)) = Inr f \<and>
     handle_packet f (core_example\<lparr>c_udp := udp_register_socket (0xC0A802C8, 5000, 0xC0A80201, 53) 0 udp_table_init\<rparr>) =
       Some (Inr (), core_example\<lparr>c_udp := udp_register_socket (0xC0A802C8, 5000, 0xC0A80201, 53) 0 udp_table_init\<rparr>)"
proof -
  let ?c = "core_example\<lparr>c_udp := udp_register_socket (0xC0A802C8, 5000, 0xC0A80201, 53) 0 udp_table_init\<rparr>"
  let ?u = "\<lparr>ub_src = 53, ub_dst = 5000, ub_data = [1, 2, 3]\<rparr> :: udp_builder"
  let ?d = "dgram (PUdp ?u) 9 17 0xC0A80201 0xC0A802C8"
  have ok: "ip_ok ?d" by (rule dgram_ok) (simp_all add: udp_ok_def udp_len_def UDP_HEADER_LEN_def proto_consts addr_ok_def)
  have e: "ether_ok (ip_frame core_example 0x001122334455 ?d)"
    by (rule ip_frame_ok [OF ok]) (simp_all add: mac_ok_def core_example_def MTU_def udp_len_def UDP_HEADER_LEN_def)
  obtain f where f: "tx_frame_bytes (ip_frame core_example 0x001122334455 ?d) = Inr f" using tx_frame_bytes_eq [OF e] by blast
  have del: "deliverable ?c ?d"
    using ok by (simp add: deliverable_def dgram_def ip_ttl_of_def core_example_def route_eval)
  have s: "udp_sockets (c_udp ?c) (ipb_dst ?d, ub_dst ?u, ipb_src ?d, ub_src ?u) = Some 0"
    by (simp add: udp_register_socket_def)
  have "c_rx_ip_enabled ?c" by (simp add: core_example_def)
  from udp_data_dropped [OF e _ _ del this _ _ f s] show ?thesis using f by (simp add: ip_frame_def)
qed

end
