(* ===== verification/Arp_Props.thy ===== *)
theory Arp_Props
  imports Core_Paths
begin

text \<open>
  The resolution of addresses: datagrams that wait for an ARP reply, what the reply does, and what happens
  when it comes twice or not at all.
\<close>

section \<open>Datagrams that wait\<close>

definition arp_request :: "core \<Rightarrow> int \<Rightarrow> int \<Rightarrow> ether_builder" where
  "arp_request c src nh =
     \<lparr>eb_dst = BROADCAST_MAC, eb_src = c_unicast_mac c, eb_type = 0x0806,
      eb_payload = EtherArp \<lparr>ab_sha = c_unicast_mac c, ab_spa = src, ab_tha = 0, ab_tpa = nh, ab_op = ARP_OP_REQUEST\<rparr>\<rparr>"

lemma tx_ip_queued:
  assumes "ip_route dst c = (None, nh)" "c_pending c nh = Some ds" "payload_len pl \<le> 1480"
  shows "tx_ip pl src dst protocol Map.empty c = Some (Inr (), c\<lparr>c_drawn := Suc (c_drawn c),
    c_pending := (c_pending c)(nh \<mapsto> ds @ [dgram pl (next_ident c) protocol src dst])\<rparr>)"
  using assms(2,3)
  by (simp add: tx_ip_eq Let_def assms(1) h_unresolved_mac_datagrams_def then_op_def is_enqueued_def enqueue_pending_def
      bind_op_def)

lemma tx_ip_first:
  assumes "ip_route dst c = (None, nh)" "c_pending c nh = None" "nh \<notin> c_arp_wait_list c" "payload_len pl \<le> 1480"
  shows "\<exists>c1. tx_ip pl src dst protocol Map.empty c = Some (Inr (), c1) \<and>
    c_tx_ring c1 = c_tx_ring c @ [arp_request c src nh] \<and> c_arp_wait_list c1 = insert nh (c_arp_wait_list c) \<and>
    c_pending c1 nh = Some [dgram pl (next_ident c) protocol src dst] \<and> c_arp_cache c1 = c_arp_cache c \<and>
    c_network c1 = c_network c \<and> c_mask c1 = c_mask c \<and> c_router c1 = c_router c \<and> c_unicast_mac c1 = c_unicast_mac c"
proof -
  obtain k tm where t: "schedule_timer (c_now_ns c) ARP_REPLY_TIMEOUT (ArpWaitRemove nh) (c_timer c) = (k, tm)"
    by (cases "schedule_timer (c_now_ns c) ARP_REPLY_TIMEOUT (ArpWaitRemove nh) (c_timer c)")
  have s: "core_schedule_timer ARP_REPLY_TIMEOUT (ArpWaitRemove nh) (c\<lparr>c_drawn := n, c_arp_wait_list := w\<rparr>) =
      Some (Inr k, c\<lparr>c_drawn := n, c_arp_wait_list := w, c_timer := tm\<rparr>)" for n w
    by (simp add: core_schedule_timer_def t)
  show ?thesis
    using assms(2-4)
    by (simp add: tx_ip_eq Let_def assms(1) h_unresolved_mac_datagrams_def then_op_def is_enqueued_def
        enqueue_pending_def tx_arp_def arp_wait_add_def arp_wait_test_def s tx_ether_def tx_ring_enqueue_def
        bind_op_def arp_request_def)
qed

lemma ip_route_cong:
  "c_arp_cache c1 = c_arp_cache c \<Longrightarrow> c_network c1 = c_network c \<Longrightarrow> c_mask c1 = c_mask c \<Longrightarrow>
    c_router c1 = c_router c \<Longrightarrow> ip_route dst c1 = ip_route dst c"
  by (simp add: ip_route_def find_entry_def)

text \<open>Later datagrams for the same next hop are queued behind the first, and nothing else happens.\<close>

lemma tx_ips_queued:
  assumes "ip_route dst c = (None, nh)" "c_pending c nh = Some ds" "\<forall>pl\<in>set pls. payload_len pl \<le> 1480"
  shows "\<exists>es n. for_op pls (\<lambda>pl. tx_ip pl src dst protocol Map.empty) c =
      Some (Inr (), c\<lparr>c_drawn := n, c_pending := (c_pending c)(nh \<mapsto> ds @ es)\<rparr>) \<and>
    map ipb_payload es = pls \<and> (\<forall>d\<in>set es. ipb_src d = src \<and> ipb_dst d = dst \<and> ipb_protocol d = protocol)"
  using assms
proof (induction pls arbitrary: c ds)
  case Nil
  then show ?case by (intro exI [of _ "[]"] exI [of _ "c_drawn c"]) (simp add: fun_upd_idem)
next
  case (Cons pl pls)
  let ?d = "dgram pl (next_ident c) protocol src dst"
  let ?c = "c\<lparr>c_drawn := Suc (c_drawn c), c_pending := (c_pending c)(nh \<mapsto> ds @ [?d])\<rparr>"
  have r: "ip_route dst ?c = (None, nh)" using Cons.prems(1) ip_route_cong [of ?c c dst] by simp
  have q: "c_pending ?c nh = Some (ds @ [?d])" "\<forall>pl\<in>set pls. payload_len pl \<le> 1480" using Cons.prems(3) by simp_all
  obtain es n where
    es: "for_op pls (\<lambda>pl. tx_ip pl src dst protocol Map.empty) ?c =
        Some (Inr (), ?c\<lparr>c_drawn := n, c_pending := (c_pending ?c)(nh \<mapsto> (ds @ [?d]) @ es)\<rparr>)"
      "map ipb_payload es = pls" "\<forall>d\<in>set es. ipb_src d = src \<and> ipb_dst d = dst \<and> ipb_protocol d = protocol"
    using Cons.IH [OF r q] by blast
  have "tx_ip pl src dst protocol Map.empty c = Some (Inr (), ?c)"
    using tx_ip_queued [OF Cons.prems(1,2), of pl src protocol] Cons.prems(3) by simp
  then have "for_op (pl # pls) (\<lambda>pl. tx_ip pl src dst protocol Map.empty) c =
      Some (Inr (), c\<lparr>c_drawn := n, c_pending := (c_pending c)(nh \<mapsto> ds @ ?d # es)\<rparr>)"
    using es(1) by (simp add: then_op_def bind_op_def)
  then show ?case using es(2,3) by - (rule exI [of _ "?d # es"], rule exI [of _ n], simp add: fun_upd_def)
qed

section \<open>The reply\<close>

lemma for_tx_ether:
  "for_op ds (\<lambda>d. tx_ether (EtherIp d) mac own 0x0800) c = Some (Inr (), c\<lparr>c_tx_ring := c_tx_ring c @
    map (\<lambda>d. \<lparr>eb_dst = mac, eb_src = own, eb_type = 0x0800, eb_payload = EtherIp d\<rparr>) ds\<rparr>)"
  by (induction ds arbitrary: c) (simp_all add: tx_ether_def tx_ring_enqueue_def)

text \<open>The frame of an ARP reply to this host.\<close>

definition arp_reply_frame :: "core \<Rightarrow> int \<Rightarrow> int \<Rightarrow> bytes \<Rightarrow> bool" where
  "arp_reply_frame c nh mac f \<longleftrightarrow> (\<exists>b a. ether_ok b \<and> eb_type b = 0x0806 \<and> eb_dst b = c_unicast_mac c \<and>
     eb_payload b = EtherArp a \<and> ab_op a = ARP_OP_REPLY \<and> ab_spa a = nh \<and> ab_sha a = mac \<and> tx_frame_bytes b = Inr f)"

lemma handle_arp_reply:
  assumes "arp_reply_frame c0 nh mac f" "c_unicast_mac c = c_unicast_mac c0"
  shows "handle_packet f c =
    (if nh \<in> c_arp_wait_list c then
       then_op (update_arp_cache nh mac)
         (bind_op (core_schedule_timer ARP_CACHE_TTL (ArpFlush nh)) (\<lambda>_. dequeue_pending nh mac)) c
     else if nh \<in> c_arp_wait_prob_list c then
       then_op (upd (\<lambda>c. c\<lparr>c_conflict_ips := c_conflict_ips c @ [nh]\<rparr>)) (core_notify ArpProbCond) c
     else Some (Inr (), c))"
proof -
  obtain b a where b: "ether_ok b" "eb_type b = 0x0806" "eb_dst b = c_unicast_mac c0" "eb_payload b = EtherArp a"
    and a: "ab_op a = ARP_OP_REPLY" "ab_spa a = nh" "ab_sha a = mac" and f: "tx_frame_bytes b = Inr f"
    using assms(1) by (auto simp: arp_reply_frame_def)
  have ok: "arp_ok a" using b by (simp add: ether_ok_def)
  have f': "f = enc (ether_fields b) @ enc (arp_fields a)"
    using tx_frame_bytes_eq [OF b(1)] b(4) f by (simp add: ether_payload_bytes_def)
  note p = arp_parse_bytes [OF ok, of _ "[]", simplified, OF refl]
  note e = ether_parse_bytes [OF b(1) f']
  have "handle_packet f c = rx_arp_reply f (enc (arp_fields a)) c"
    by (simp add: handle_packet_def rx_ether_def e b(2) rx_arp_def p a(1))
  then show ?thesis
    using b(3) assms(2) by (simp add: rx_arp_reply_def e p a arp_wait_test_def arp_probe_test_def)
qed

lemma arp_reply_releases:
  assumes "arp_reply_frame c nh mac f" "nh \<in> c_arp_wait_list c" "c_pending c nh = Some ds" "c_arp_cache c nh = None"
  shows "\<exists>c2. handle_packet f c = Some (Inr (), c2) \<and> c_tx_ring c2 = c_tx_ring c @ map (ip_frame c mac) ds \<and>
    c_pending c2 nh = None \<and> find_entry nh c2 = Some mac"
proof -
  obtain k tm where t: "schedule_timer (c_now_ns c) ARP_CACHE_TTL (ArpFlush nh) (c_timer c) = (k, tm)"
    by (cases "schedule_timer (c_now_ns c) ARP_CACHE_TTL (ArpFlush nh) (c_timer c)")
  have i: "(\<lambda>d. \<lparr>eb_dst = mac, eb_src = c_unicast_mac c, eb_type = 0x0800, eb_payload = EtherIp d\<rparr>) = ip_frame c mac"
    by (simp add: fun_eq_iff ip_frame_def)
  show ?thesis
    unfolding handle_arp_reply [OF assms(1) refl] using assms(2-4)
    by (simp add: update_arp_cache_def core_schedule_timer_def bind_op_def [of "core_schedule_timer _ _"] t
        dequeue_pending_def for_tx_ether then_op_def bind_op_def [of "for_op _ _"] i find_entry_def)
qed

text \<open>C18. Datagrams for a next hop whose address is not known cause one ARP request, however many there are, and
  wait; when the reply arrives, they are all sent, in the order in which they were given to \<^verbatim>\<open>tx_ip\<close>, to the
  address of the reply, the queue is empty again and the address is in the cache.\<close>

theorem arp_resolution_delivers:
  assumes "ip_route dst c = (None, nh)" "c_pending c nh = None" "nh \<notin> c_arp_wait_list c" "c_arp_cache c nh = None"
    "pls \<noteq> []" "\<forall>pl\<in>set pls. payload_len pl \<le> 1480" "arp_reply_frame c nh mac f"
  shows "\<exists>c1 c2 ds. for_op pls (\<lambda>pl. tx_ip pl src dst protocol Map.empty) c = Some (Inr (), c1) \<and>
    c_tx_ring c1 = c_tx_ring c @ [arp_request c src nh] \<and>
    handle_packet f c1 = Some (Inr (), c2) \<and> c_tx_ring c2 = c_tx_ring c1 @ map (ip_frame c mac) ds \<and>
    map ipb_payload ds = pls \<and> (\<forall>d\<in>set ds. ipb_src d = src \<and> ipb_dst d = dst \<and> ipb_protocol d = protocol) \<and>
    c_pending c2 nh = None \<and> find_entry nh c2 = Some mac"
proof -
  obtain pl pls' where pls: "pls = pl # pls'" using assms(5) by (cases pls) auto
  obtain c0 where c0: "tx_ip pl src dst protocol Map.empty c = Some (Inr (), c0)"
      "c_tx_ring c0 = c_tx_ring c @ [arp_request c src nh]" "c_arp_wait_list c0 = insert nh (c_arp_wait_list c)"
      "c_pending c0 nh = Some [dgram pl (next_ident c) protocol src dst]" "c_arp_cache c0 = c_arp_cache c"
      "c_network c0 = c_network c" "c_mask c0 = c_mask c" "c_router c0 = c_router c" "c_unicast_mac c0 = c_unicast_mac c"
    using tx_ip_first [OF assms(1-3), of pl src protocol] assms(6) pls by auto
  have r: "ip_route dst c0 = (None, nh)" using ip_route_cong [of c0 c dst] c0(5-8) assms(1) by simp
  obtain es n where es: "for_op pls' (\<lambda>pl. tx_ip pl src dst protocol Map.empty) c0 =
        Some (Inr (), c0\<lparr>c_drawn := n, c_pending := (c_pending c0)(nh \<mapsto> [dgram pl (next_ident c) protocol src dst] @ es)\<rparr>)"
      "map ipb_payload es = pls'" "\<forall>d\<in>set es. ipb_src d = src \<and> ipb_dst d = dst \<and> ipb_protocol d = protocol"
    using tx_ips_queued [OF r c0(4), of pls' src protocol] assms(6) pls by auto
  let ?c1 = "c0\<lparr>c_drawn := n, c_pending := (c_pending c0)(nh \<mapsto> [dgram pl (next_ident c) protocol src dst] @ es)\<rparr>"
  have a: "arp_reply_frame ?c1 nh mac f" using assms(7) c0(9) by (simp add: arp_reply_frame_def)
  have i: "ip_frame ?c1 mac = ip_frame c mac" by (simp add: fun_eq_iff ip_frame_def c0(9))
  from arp_reply_releases [OF a, of "dgram pl (next_ident c) protocol src dst # es"] obtain c2 where
    "handle_packet f ?c1 = Some (Inr (), c2)" "c_pending c2 nh = None" "find_entry nh c2 = Some mac"
    "c_tx_ring c2 = c_tx_ring ?c1 @ map (ip_frame c mac) (dgram pl (next_ident c) protocol src dst # es)"
    using c0(3,5) assms(4) unfolding i by auto
  then show ?thesis
    using c0(1,2) es
    by - (rule exI [of _ ?c1], rule exI [of _ c2], rule exI [of _ "dgram pl (next_ident c) protocol src dst # es"],
        simp add: pls then_op_def bind_op_def)
qed

definition reply_example :: ether_builder where
  "reply_example =
     \<lparr>eb_dst = 0x001122334455, eb_src = 0x020000000001, eb_type = 0x0806,
      eb_payload = EtherArp \<lparr>ab_sha = 0x020000000001, ab_spa = 0xC0A80201, ab_tha = 0x001122334455,
        ab_tpa = 0xC0A802C8, ab_op = ARP_OP_REPLY\<rparr>\<rparr>"

lemma reply_example_frame:
  "c_unicast_mac c = 0x001122334455 \<Longrightarrow>
    arp_reply_frame c 0xC0A80201 0x020000000001 (enc (ether_fields reply_example) @ ether_payload_bytes (eb_payload reply_example))"
proof -
  have e: "ether_ok reply_example"
    by (simp add: ether_ok_def reply_example_def mac_ok_def arp_ok_def ARP_OP_REPLY_def)
  show "c_unicast_mac c = 0x001122334455 \<Longrightarrow> arp_reply_frame c 0xC0A80201 0x020000000001
      (enc (ether_fields reply_example) @ ether_payload_bytes (eb_payload reply_example))"
    unfolding arp_reply_frame_def using tx_frame_bytes_eq [OF e] e
    by (intro exI [of _ reply_example]) (simp add: reply_example_def)
qed

lemma example_unresolved:
  "ip_route 0xC0A80201 core_example = (None, 0xC0A80201)" "c_pending core_example = Map.empty"
  "c_arp_wait_list core_example = {}" "c_arp_cache core_example = Map.empty" "c_unicast_mac core_example = 0x001122334455"
  "c_tx_ring core_example = []"
  by (simp_all add: route_eval core_example_def)

theorem arp_resolution_delivers_witness:
  "\<exists>c1 c2. for_op [PRaw [1], PRaw [2]] (\<lambda>pl. tx_ip pl 0xC0A802C8 0xC0A80201 99 Map.empty) core_example = Some (Inr (), c1) \<and>
     length (c_tx_ring c1) = 1 \<and>
     handle_packet (enc (ether_fields reply_example) @ ether_payload_bytes (eb_payload reply_example)) c1 = Some (Inr (), c2) \<and>
     length (c_tx_ring c2) = 3"
proof -
  have e: "c_pending core_example 0xC0A80201 = None" "0xC0A80201 \<notin> c_arp_wait_list core_example"
    "c_arp_cache core_example 0xC0A80201 = None" "[PRaw [1], PRaw [2]] \<noteq> []"
    "\<forall>pl\<in>set [PRaw [1], PRaw [2]]. payload_len pl \<le> 1480"
    by (simp_all add: example_unresolved(2-4))
  obtain c1 c2 ds where
    h: "for_op [PRaw [1], PRaw [2]] (\<lambda>pl. tx_ip pl 0xC0A802C8 0xC0A80201 99 Map.empty) core_example = Some (Inr (), c1)"
      "c_tx_ring c1 = c_tx_ring core_example @ [arp_request core_example 0xC0A802C8 0xC0A80201]"
      "handle_packet (enc (ether_fields reply_example) @ ether_payload_bytes (eb_payload reply_example)) c1 = Some (Inr (), c2)"
      "c_tx_ring c2 = c_tx_ring c1 @ map (ip_frame core_example 0x020000000001) ds" "map ipb_payload ds = [PRaw [1], PRaw [2]]"
    using arp_resolution_delivers [OF example_unresolved(1) e reply_example_frame [OF example_unresolved(5)],
        of "0xC0A802C8" 99] by (elim exE conjE) (rule that)
  have "length ds = 2" using arg_cong [OF h(5), of length] by simp
  then have "length (c_tx_ring c1) = 1" "length (c_tx_ring c2) = 3" using h(2,4) by (simp_all add: example_unresolved(6))
  then show ?thesis using h(1,3) by blast
qed

text \<open>A second reply for the same address while the first request is still on the wait list (it stays there for
  three seconds) makes the receiving thread raise \<^verbatim>\<open>KeyError\<close>: nothing waits for it any more.\<close>

lemma second_reply_raises:
  assumes "arp_reply_frame c nh mac f" "nh \<in> c_arp_wait_list c" "c_pending c nh = None"
  shows "\<exists>c2. handle_packet f c = Some (Inl KeyError, c2) \<and> c_tx_ring c2 = c_tx_ring c"
proof -
  obtain k tm where t: "schedule_timer (c_now_ns c) ARP_CACHE_TTL (ArpFlush nh) (c_timer c) = (k, tm)"
    by (cases "schedule_timer (c_now_ns c) ARP_CACHE_TTL (ArpFlush nh) (c_timer c)")
  show ?thesis
    unfolding handle_arp_reply [OF assms(1) refl] using assms(2,3)
    by (simp add: update_arp_cache_def core_schedule_timer_def bind_op_def [of "core_schedule_timer _ _"] t
        dequeue_pending_def then_op_def)
qed

lemma second_reply_raises_witness:
  "\<exists>c2. handle_packet (enc (ether_fields reply_example) @ ether_payload_bytes (eb_payload reply_example))
     (core_example\<lparr>c_arp_wait_list := {0xC0A80201}\<rparr>) = Some (Inl KeyError, c2)"
  using second_reply_raises [OF reply_example_frame, of "core_example\<lparr>c_arp_wait_list := {0xC0A80201}\<rparr>"]
  by (auto simp: example_unresolved)

text \<open>A next hop that does not answer in time is never asked again: when the timer takes its address off the
  wait list, the datagrams stay queued, later ones are queued behind them without a new request, and a
  reply that still comes is ignored as unsolicited.\<close>

lemma unanswered_request_not_repeated:
  assumes "ip_route dst c = (None, nh)" "c_pending c nh = Some ds" "nh \<in> c_arp_wait_list c" "nh \<notin> c_arp_wait_prob_list c"
    "\<forall>pl\<in>set pls. payload_len pl \<le> 1480" "arp_reply_frame c nh mac f"
  shows "\<exists>c1 c2. run_call (ArpWaitRemove nh) c = Some (Inr (), c1) \<and>
    for_op pls (\<lambda>pl. tx_ip pl src dst protocol Map.empty) c1 = Some (Inr (), c2) \<and> c_tx_ring c2 = c_tx_ring c \<and>
    handle_packet f c2 = Some (Inr (), c2) \<and> find_entry nh c2 = find_entry nh c \<and>
    (\<exists>es. c_pending c2 nh = Some (ds @ es) \<and> map ipb_payload es = pls)"
proof -
  let ?c1 = "c\<lparr>c_arp_wait_list := c_arp_wait_list c - {nh}\<rparr>"
  have 1: "run_call (ArpWaitRemove nh) c = Some (Inr (), ?c1)"
    using assms(3) by (simp add: arp_wait_remove_def arp_wait_test_def)
  have r: "ip_route dst ?c1 = (None, nh)" using ip_route_cong [of ?c1 c dst] assms(1) by simp
  obtain es n where es: "for_op pls (\<lambda>pl. tx_ip pl src dst protocol Map.empty) ?c1 =
        Some (Inr (), ?c1\<lparr>c_drawn := n, c_pending := (c_pending ?c1)(nh \<mapsto> ds @ es)\<rparr>)" "map ipb_payload es = pls"
    using tx_ips_queued [OF r, of ds pls src protocol] assms(2,5) by auto
  have "arp_reply_frame ?c1 nh mac f" using assms(6) by (simp add: arp_reply_frame_def)
  from handle_arp_reply [OF this, of "?c1\<lparr>c_drawn := n, c_pending := (c_pending ?c1)(nh \<mapsto> ds @ es)\<rparr>"]
  show ?thesis using 1 es assms(4) by (auto simp: find_entry_def)
qed

lemma unanswered_request_not_repeated_witness:
  "\<exists>c1 c2. run_call (ArpWaitRemove 0xC0A80201) (core_example\<lparr>c_arp_wait_list := {0xC0A80201}, c_pending := [0xC0A80201 \<mapsto> []]\<rparr>) =
       Some (Inr (), c1) \<and>
     for_op [PRaw [1], PRaw [2]] (\<lambda>pl. tx_ip pl 0xC0A802C8 0xC0A80201 99 Map.empty) c1 = Some (Inr (), c2) \<and> c_tx_ring c2 = []"
proof -
  let ?c = "core_example\<lparr>c_arp_wait_list := {0xC0A80201}, c_pending := [0xC0A80201 \<mapsto> []]\<rparr>"
  have "ip_route 0xC0A80201 ?c = (None, 0xC0A80201)" "0xC0A80201 \<notin> c_arp_wait_prob_list ?c" "c_unicast_mac ?c = 0x001122334455"
    by (simp_all add: route_eval core_example_def)
  from unanswered_request_not_repeated [OF this(1) _ _ this(2) _ reply_example_frame [OF this(3)], of "[]" "[PRaw [1], PRaw [2]]"
      "0xC0A802C8" 99]
  show ?thesis by (auto simp: example_unresolved)
qed

end
