(* ===== verification/Reass_Props.thy ===== *)
theory Reass_Props
  imports Core_Paths
begin

text \<open>
  Reassembly of IP fragments: fragments that arrive in any order before the last one give the datagram
  back; what happens otherwise.
\<close>

section \<open>The operations on a reassembly in the cache\<close>

definition put :: "core \<Rightarrow> buffer_id \<Rightarrow> reass \<Rightarrow> core" where
  "put c bid r = c\<lparr>c_fragments_cache := (c_fragments_cache c)(bid \<mapsto> r)\<rparr>"

lemma put_simps [simp]:
  "c_fragments_cache (put c bid r) bid = Some r" "put (put c bid r) bid r' = put c bid r'"
  "(put c bid r)\<lparr>c_timer := tm\<rparr> = put (c\<lparr>c_timer := tm\<rparr>) bid r" "c_timer (put c bid r) = c_timer c"
  "c_now_ns (put c bid r) = c_now_ns c"
  by (simp_all add: put_def)

lemma put_get: "c_fragments_cache c bid = Some r \<Longrightarrow> put c bid r = c"
  by (simp add: put_def fun_upd_idem)

lemma get_reass_put [simp]: "bind_op (get_reass bid) f (put c bid r) = f r (put c bid r)"
  by (simp add: get_reass_def bind_op_def)

lemma upd_reass_put [simp]:
  "upd_reass bid g (put c bid r) = Some (Inr (), put c bid (g r))"
  "then_op (upd_reass bid g) m (put c bid r) = m (put c bid (g r))"
  by (simp_all add: upd_reass_def put_def then_op_def)

lemma then_op_Inr: "m c = Some (Inr (), c1) \<Longrightarrow> then_op m n c = n c1"
  by (simp add: then_op_def bind_op_def)

lemma then_op_Inl: "m c = Some (Inl e, c1) \<Longrightarrow> then_op m n c = Some (Inl e, c1)"
  by (simp add: then_op_def bind_op_def)

lemma restart_timer_put:
  "\<exists>tm k. restart_timer ipf bid (put c bid r) = Some (Inr (), put (c\<lparr>c_timer := tm\<rparr>) bid (r\<lparr>r_timer := k\<rparr>))"
proof -
  obtain k tm where t: "schedule_timer (c_now_ns c) DEFRAGMENTATION_TIMEOUT (ReassTimerExceeded ipf bid)
      (timer_remove (r_timer r) (c_timer c)) = (k, tm)" by (meson surj_pair)
  have "remove_timer bid (put c bid r) = Some (Inr (), put (c\<lparr>c_timer := timer_remove (r_timer r) (c_timer c)\<rparr>) bid r)"
    by (simp add: remove_timer_def)
  then have "restart_timer ipf bid (put c bid r) = Some (Inr (), put (c\<lparr>c_timer := tm\<rparr>) bid (r\<lparr>r_timer := k\<rparr>))"
    by (simp add: restart_timer_def then_op_Inr ip_reass_timer_def core_schedule_timer_def t
        bind_op_def [of "core_schedule_timer _ _"])
  then show ?thesis by blast
qed

lemma alloc_put:
  "\<exists>c1 r. alloc_ip_reass_mem ipf bid c = Some (Inr (), put c1 bid r) \<and>
    (\<forall>r0. c_fragments_cache c bid = Some r0 \<longrightarrow> r = r0 \<and> c1 = c) \<and>
    (c_fragments_cache c bid = None \<longrightarrow> (\<exists>k. r = reass_init\<lparr>r_timer := k\<rparr>) \<and>
       c_fragments_cache c1 = c_fragments_cache c)"
proof (cases "c_fragments_cache c bid")
  case None
  obtain k tm where t: "schedule_timer (c_now_ns c) DEFRAGMENTATION_TIMEOUT (ReassTimerExceeded ipf bid) (c_timer c) = (k, tm)"
    by (meson surj_pair)
  have "alloc_ip_reass_mem ipf bid c = ip_reass_timer ipf bid (put c bid reass_init)"
    using None by (simp add: alloc_ip_reass_mem_def then_op_def put_def)
  also have "\<dots> = Some (Inr (), put (c\<lparr>c_timer := tm\<rparr>) bid (reass_init\<lparr>r_timer := k\<rparr>))"
    by (simp add: ip_reass_timer_def core_schedule_timer_def t bind_op_def [of "core_schedule_timer _ _"])
  finally show ?thesis using None by (auto intro!: exI)
next
  case (Some r)
  then show ?thesis
    by (intro exI [of _ c] exI [of _ r]) (simp add: alloc_ip_reass_mem_def put_get)
qed

section \<open>Fragments\<close>

text \<open>
  A frame that is a fragment of the datagram \<open>bid\<close>: its offset in blocks of eight bytes, the flag for more
  fragments, its header and its data, without padding.
\<close>

definition fragment :: "buffer_id \<Rightarrow> bytes \<Rightarrow> nat \<Rightarrow> bool \<Rightarrow> bytes \<Rightarrow> bytes \<Rightarrow> bool" where
  "fragment bid ipf offset mf hdr data \<longleftrightarrow>
     ip_src ipf = Inr (fst bid) \<and> ip_dst ipf = Inr (fst (snd bid)) \<and> ip_id ipf = Inr (fst (snd (snd bid))) \<and>
     ip_protocol ipf = Inr (snd (snd (snd bid))) \<and> ip_offset ipf = Inr offset \<and> ip_flag_mf ipf = Inr mf \<and>
     ip_ihl ipf = Inr (length hdr) \<and> ip_total_len ipf = Inr (length hdr + length data) \<and>
     ip_header ipf = Inr hdr \<and> ip_data ipf = Inr data"

lemma fragment_blocks_eq: "fragment_blocks offset (h + n) h = int ((n + 7) div 8)"
proof -
  have "(int offset * 8 + int (h + n) - int h + 7) div 8 = int offset + int ((n + 7) div 8)"
  proof -
    have "int offset * 8 + int (h + n) - int h + 7 = int (n + 7) + int offset * 8" by simp
    then show ?thesis by (simp only: div_mult_self3 of_nat_div of_nat_numeral)
  qed
  then show ?thesis by (simp add: fragment_blocks_def)
qed

lemma ip_reass_fragment:
  assumes "fragment bid ipf offset mf hdr data"
  shows "ip_reass ipf c =
    then_op (alloc_ip_reass_mem ipf bid) (bind_op (get_reass bid) (\<lambda>r.
      if \<not> mf then reass_last_fragment ipf bid offset (length hdr + length data) (length hdr) data
      else if r_last r then reass_after_last ipf bid offset (length hdr + length data) (length hdr) hdr data
      else reass_before_last ipf bid offset (length hdr + length data) (length hdr) hdr data)) c"
  using assms by (simp add: ip_reass_def fragment_def Let_def then_op_def bind_op_def split: option.split sum.split)

text \<open>What has been collected for a datagram whose last fragment has not come.\<close>

definition collected :: "core \<Rightarrow> buffer_id \<Rightarrow> (nat \<times> bytes) list \<Rightarrow> bytes \<Rightarrow> int \<Rightarrow> bool" where
  "collected c bid t hdr k \<longleftrightarrow>
     (case c_fragments_cache c bid of
        None \<Rightarrow> t = [] \<and> hdr = [] \<and> k = 0
      | Some r \<Rightarrow> \<not> r_last r \<and> r_temporary r = Some t \<and> r_header_buffer r = hdr \<and> r_block_count r = k)"

lemma collected_alloc:
  assumes "collected c bid t h k"
  obtains c1 r where "alloc_ip_reass_mem ipf bid c = Some (Inr (), put c1 bid r)" "\<not> r_last r" "r_temporary r = Some t"
    "r_header_buffer r = h" "r_block_count r = k"
proof -
  obtain c1 r where a: "alloc_ip_reass_mem ipf bid c = Some (Inr (), put c1 bid r)"
    "\<forall>r0. c_fragments_cache c bid = Some r0 \<longrightarrow> r = r0 \<and> c1 = c"
    "c_fragments_cache c bid = None \<longrightarrow> (\<exists>k. r = reass_init\<lparr>r_timer := k\<rparr>) \<and> c_fragments_cache c1 = c_fragments_cache c"
    using alloc_put [of ipf bid c] by (elim exE conjE) (rule that)
  have "\<not> r_last r \<and> r_temporary r = Some t \<and> r_header_buffer r = h \<and> r_block_count r = k"
    using a(2,3) assms by (cases "c_fragments_cache c bid") (auto simp: collected_def reass_init_def)
  then show ?thesis using that [OF a(1)] by blast
qed

lemma reass_more:
  assumes "collected c bid t h k" "fragment bid ipf offset True hdr data"
  shows "\<exists>c'. ip_reass ipf c = Some (Inr None, c') \<and>
    collected c' bid (dict_set offset data t) (if offset = 0 then hdr else h) (k + int ((length data + 7) div 8))"
proof -
  obtain c1 r where a: "alloc_ip_reass_mem ipf bid c = Some (Inr (), put c1 bid r)" and r: "\<not> r_last r"
    "r_temporary r = Some t" "r_header_buffer r = h" "r_block_count r = k"
    using collected_alloc [OF assms(1)] .
  let ?r = "r\<lparr>r_header_buffer := (if offset = 0 then hdr else h), r_block_count := k + int ((length data + 7) div 8),
      r_temporary := Some (dict_set offset data t)\<rparr>"
  obtain tm j where rt: "restart_timer ipf bid (put c1 bid ?r) = Some (Inr (), put (c1\<lparr>c_timer := tm\<rparr>) bid (?r\<lparr>r_timer := j\<rparr>))"
    using restart_timer_put by blast
  have "ip_reass ipf c = reass_before_last ipf bid offset (length hdr + length data) (length hdr) hdr data (put c1 bid r)"
    unfolding ip_reass_fragment [OF assms(2)] then_op_Inr [of "alloc_ip_reass_mem ipf bid", OF a] using r(1) by simp
  also have "\<dots> = then_op (restart_timer ipf bid) (ret None) (put c1 bid ?r)"
    using r by (cases r) (simp add: reass_before_last_def add_blocks_def fragment_blocks_eq)
  also have "\<dots> = Some (Inr None, put (c1\<lparr>c_timer := tm\<rparr>) bid (?r\<lparr>r_timer := j\<rparr>))"
    unfolding then_op_Inr [of "restart_timer ipf bid", OF rt] by simp
  finally show ?thesis using r(1) by (auto simp: collected_def)
qed

section \<open>The last fragment\<close>

definition wr_piece :: "bytes \<Rightarrow> nat \<times> bytes \<Rightarrow> bytes" where
  "wr_piece buf p = slice_assign buf (fst p * 8) (fst p * 8 + length (snd p)) (snd p)"

lemma put_data_put:
  "offset * 8 + length data \<le> length (r_data_buffer r) \<Longrightarrow>
    put_data bid offset data (put c bid r) =
      Some (Inr (), put c bid (r\<lparr>r_data_buffer := wr_piece (r_data_buffer r) (offset, data)\<rparr>))"
  by (simp add: put_data_def pack_str_into_def wr_piece_def)

lemma length_write: "fst p * 8 + length (snd p) \<le> length buf \<Longrightarrow> length (wr_piece buf p) = length buf"
  by (simp add: wr_piece_def slice_assign_def)

lemma put_data_for:
  "\<forall>p\<in>set t. fst p * 8 + length (snd p) \<le> length (r_data_buffer r) \<Longrightarrow>
    for_op t (\<lambda>(o1, data). put_data bid o1 data) (put c bid r) =
      Some (Inr (), put c bid (r\<lparr>r_data_buffer := foldl wr_piece (r_data_buffer r) t\<rparr>))"
proof (induction t arbitrary: r)
  case Nil
  then show ?case by simp
next
  case (Cons p t)
  have p: "put_data bid (fst p) (snd p) (put c bid r) =
      Some (Inr (), put c bid (r\<lparr>r_data_buffer := wr_piece (r_data_buffer r) p\<rparr>))"
    using Cons.prems by (subst put_data_put) simp_all
  have "length (wr_piece (r_data_buffer r) p) = length (r_data_buffer r)" using Cons.prems by (intro length_write) simp
  then show ?case
    using Cons.prems Cons.IH [of "r\<lparr>r_data_buffer := wr_piece (r_data_buffer r) p\<rparr>"]
    by (simp add: split_def then_op_Inr [of "put_data bid (fst p) (snd p)", OF p])
qed

text \<open>The data of a fragment as a piece of the datagram, and what writing all pieces gives.\<close>

definition piece :: "bytes \<Rightarrow> nat \<times> bytes \<Rightarrow> bool" where
  "piece D p \<longleftrightarrow> fst p * 8 + length (snd p) \<le> length D \<and> snd p = slice D (fst p * 8) (fst p * 8 + length (snd p))"

definition covers :: "nat \<times> bytes \<Rightarrow> nat \<Rightarrow> bool" where
  "covers p i \<longleftrightarrow> fst p * 8 \<le> i \<and> i < fst p * 8 + length (snd p)"

lemma nth_write:
  assumes "piece D p" "length buf = length D" "i < length D"
  shows "wr_piece buf p ! i = (if covers p i then D ! i else buf ! i)"
proof -
  have l: "fst p * 8 + length (snd p) \<le> length D" and d: "snd p = slice D (fst p * 8) (fst p * 8 + length (snd p))"
    using assms(1) by (simp_all add: piece_def)
  have "snd p ! j = D ! (fst p * 8 + j)" if "j < length (snd p)" for j
  proof -
    have "snd p ! j = slice D (fst p * 8) (fst p * 8 + length (snd p)) ! j" using d by simp
    then show ?thesis using that l by (simp add: slice_def)
  qed
  then show ?thesis
    using assms(2,3) l by (auto simp: wr_piece_def slice_assign_def covers_def nth_append min_def)
qed

lemma write_pieces:
  assumes "\<forall>p\<in>set t. piece D p" "length buf = length D" "\<forall>i<length D. buf ! i = D ! i \<or> (\<exists>p\<in>set t. covers p i)"
  shows "foldl wr_piece buf t = D"
  using assms
proof (induction t arbitrary: buf)
  case Nil
  then show ?case by (auto intro: nth_equalityI)
next
  case (Cons p t)
  have p: "piece D p" using Cons.prems(1) by simp
  have "length (wr_piece buf p) = length D"
    using p Cons.prems(2) by (simp add: length_write piece_def)
  moreover have "\<forall>i<length D. wr_piece buf p ! i = D ! i \<or> (\<exists>p\<in>set t. covers p i)"
    using Cons.prems(2,3) nth_write [OF p Cons.prems(2)] by auto
  ultimately show ?case using Cons.IH Cons.prems(1) by simp
qed

definition fixed_header :: "bytes \<Rightarrow> nat \<Rightarrow> bytes" where
  "fixed_header hdr n = (if hdr = [] then [] else slice_assign hdr 2 4 (be_bytes 2 (int (length hdr + n))))"

lemma reass_check_done:
  assumes "r_block_count r = (r_total_data_len r + 7) div 8" "d = r_header_buffer r @ r_data_buffer r"
  shows "\<exists>c'. reass_check ipf bid (put c bid r) = Some (Inr (Some d), c') \<and> c_fragments_cache c' bid = None"
proof -
  have t: "remove_timer bid (put c bid r) = Some (Inr (), put (c\<lparr>c_timer := timer_remove (r_timer r) (c_timer c)\<rparr>) bid r)"
    by (simp add: remove_timer_def)
  show ?thesis
    using assms by (simp add: reass_check_def is_reassembled_def then_op_Inr [of "remove_timer bid", OF t] dealloc_ip_reass_mem_def)
qed

text \<open>The last fragment when the blocks that were counted are as many as the blocks before it.\<close>

lemma reass_last:
  assumes "collected c bid t h (int offset)" "fragment bid ipf offset False hdr data"
    "length h + (offset * 8 + length data) < 65536" "n = offset * 8 + length data"
    "\<forall>p\<in>set t. fst p * 8 + length (snd p) \<le> n" "D = foldl wr_piece (replicate n 0) ((offset, data) # t)"
  shows "\<exists>c'. ip_reass ipf c = Some (Inr (Some (fixed_header h n @ D)), c') \<and> c_fragments_cache c' bid = None"
proof -
  obtain c1 r where a: "alloc_ip_reass_mem ipf bid c = Some (Inr (), put c1 bid r)" and r: "\<not> r_last r"
    "r_temporary r = Some t" "r_header_buffer r = h" "r_block_count r = int offset"
    using collected_alloc [OF assms(1)] .
  let ?k = "length data" and ?z = "replicate n (0 :: byte)"
  let ?r1 = "r\<lparr>r_total_data_len := int n, r_last := True, r_data_buffer := wr_piece ?z (offset, data)\<rparr>"
  let ?r2 = "?r1\<lparr>r_data_buffer := D, r_temporary := None, r_block_count := int offset + int ((?k + 7) div 8),
      r_header_buffer := fixed_header h n\<rparr>"
  have lw: "length (wr_piece ?z (offset, data)) = n" using assms(4) by (simp add: length_write)
  have 1: "init_data_buffer bid (put c1 bid (r\<lparr>r_total_data_len := int n, r_last := True\<rparr>)) =
      Some (Inr (), put c1 bid (r\<lparr>r_total_data_len := int n, r_last := True, r_data_buffer := ?z\<rparr>))"
    by (simp add: init_data_buffer_def)
  have 2: "put_data bid offset data (put c1 bid (r\<lparr>r_total_data_len := int n, r_last := True, r_data_buffer := ?z\<rparr>)) =
      Some (Inr (), put c1 bid ?r1)"
    using assms(4) by (subst put_data_put) simp_all
  have 3: "put_temporary bid (put c1 bid ?r1) = Some (Inr (), put c1 bid (?r1\<lparr>r_data_buffer := D, r_temporary := None\<rparr>))"
  proof -
    have "for_op t (\<lambda>(o1, data). put_data bid o1 data) (put c1 bid ?r1) = Some (Inr (), put c1 bid (?r1\<lparr>r_data_buffer := D\<rparr>))"
      using assms(5,6) lw by (subst put_data_for) auto
    then show ?thesis using r(2) by (simp add: put_temporary_def then_op_Inr [of "for_op _ _"])
  qed
  have 4: "fix_total_len bid (put c1 bid (r_block_count_update (\<lambda>k. k + int ((?k + 7) div 8))
        (r\<lparr>r_total_data_len := int n, r_last := True, r_data_buffer := D, r_temporary := None\<rparr>))) =
      Some (Inr (), put c1 bid ?r2)"
  proof -
    have "pack_fields [(2, int (length h) + int n)] = Inr (be_bytes 2 (int (length h + n)))"
      using assms(3,4) by (simp add: pack_be_def)
    then show ?thesis
      using r(3,4) by (cases r) (simp add: fix_total_len_def fixed_header_def del: pack_fields.simps)
  qed
  have b: "(int n + 7) div 8 = int offset + int ((?k + 7) div 8)"
  proof -
    have "int n + 7 = int (?k + 7) + int offset * 8" using assms(4) by simp
    then show ?thesis by (simp only: div_mult_self3 of_nat_div of_nat_numeral)
  qed
  have 5: "\<exists>c'. reass_check ipf bid (put c1 bid ?r2) = Some (Inr (Some (fixed_header h n @ D)), c') \<and>
      c_fragments_cache c' bid = None"
    by (rule reass_check_done) (simp_all add: b)
  have l: "int (length hdr + ?k) - int (length hdr) + int offset * 8 = int n" using assms(4) by simp
  have "ip_reass ipf c = reass_last_fragment ipf bid offset (length hdr + ?k) (length hdr) data (put c1 bid r)"
    unfolding ip_reass_fragment [OF assms(2)] then_op_Inr [of "alloc_ip_reass_mem ipf bid", OF a] by simp
  also have "\<dots> = reass_check ipf bid (put c1 bid ?r2)"
    unfolding reass_last_fragment_def l
    by (simp add: then_op_Inr [of "init_data_buffer bid", OF 1] then_op_Inr [of "put_data bid offset data", OF 2]
        then_op_Inr [of "put_temporary bid", OF 3] add_blocks_def fragment_blocks_eq then_op_Inr [of "fix_total_len bid", OF 4])
  finally show ?thesis using 5 by simp
qed

lemma reass_complete:
  assumes "collected c bid t h (int offset)" "fragment bid ipf offset False hdr data"
    "length h + (offset * 8 + length data) < 65536" "piece D (offset, data)" "length D = offset * 8 + length data"
    "\<forall>p\<in>set t. piece D p" "\<forall>i<offset * 8. \<exists>p\<in>set t. covers p i"
  shows "\<exists>c'. ip_reass ipf c = Some (Inr (Some (fixed_header h (length D) @ D)), c') \<and> c_fragments_cache c' bid = None"
proof (rule reass_last [OF assms(1-3,5)])
  show "\<forall>p\<in>set t. fst p * 8 + length (snd p) \<le> length D" using assms(6) by (simp add: piece_def)
  have "covers (offset, data) i" if "i < length D" "\<not> i < offset * 8" for i
    using that assms(5) by (simp add: covers_def)
  then have "foldl wr_piece (replicate (length D) 0) ((offset, data) # t) = D"
    using assms(4,6,7) by (intro write_pieces) (auto simp del: foldl_Cons)
  then show "D = foldl wr_piece (replicate (length D) 0) ((offset, data) # t)" by simp
qed

section \<open>A sequence of fragments\<close>

text \<open>Fragments one after the other, until a datagram is complete.\<close>

fun feed :: "bytes list \<Rightarrow> bytes option op" where
  "feed [] = ret None"
| "feed (f # fs) = bind_op (ip_reass f) (\<lambda>d. case d of Some x \<Rightarrow> ret (Some x) | None \<Rightarrow> feed fs)"

record frag =
  fr_frame :: bytes
  fr_offset :: nat
  fr_hdr :: bytes
  fr_data :: bytes

definition fr_piece :: "frag \<Rightarrow> nat \<times> bytes" where
  "fr_piece x = (fr_offset x, fr_data x)"

definition more_fragment :: "buffer_id \<Rightarrow> frag \<Rightarrow> bool" where
  "more_fragment bid x \<longleftrightarrow> fragment bid (fr_frame x) (fr_offset x) True (fr_hdr x) (fr_data x)"

definition header_after :: "bytes \<Rightarrow> frag list \<Rightarrow> bytes" where
  "header_after h xs = foldl (\<lambda>h x. if fr_offset x = 0 then fr_hdr x else h) h xs"

lemma dict_set_new: "k \<notin> fst ` set d \<Longrightarrow> dict_set k v d = d @ [(k, v)]"
  by (induction d rule: dict_set.induct) auto

lemma feed_more:
  assumes "collected c bid t h k" "\<forall>x\<in>set xs. more_fragment bid x" "distinct (map fst t @ map fr_offset xs)"
  shows "\<exists>c'. collected c' bid (t @ map fr_piece xs) (header_after h xs) (k + (\<Sum>x\<leftarrow>xs. int ((length (fr_data x) + 7) div 8))) \<and>
    (\<forall>ys. feed (map fr_frame xs @ ys) c = feed ys c')"
  using assms
proof (induction xs arbitrary: c t h k)
  case Nil
  then show ?case by (auto simp: header_after_def)
next
  case (Cons x xs)
  have "fragment bid (fr_frame x) (fr_offset x) True (fr_hdr x) (fr_data x)"
    using Cons.prems(2) by (simp add: more_fragment_def)
  from reass_more [OF Cons.prems(1) this] obtain c1 where c1: "ip_reass (fr_frame x) c = Some (Inr None, c1)"
    "collected c1 bid (t @ [fr_piece x]) (if fr_offset x = 0 then fr_hdr x else h) (k + int ((length (fr_data x) + 7) div 8))"
    using Cons.prems(3) by (auto simp: dict_set_new fr_piece_def)
  have "distinct (map fst (t @ [fr_piece x]) @ map fr_offset xs)" using Cons.prems(3) by (auto simp: fr_piece_def)
  from Cons.IH [OF c1(2) _ this] Cons.prems(2) obtain c' where
    "collected c' bid ((t @ [fr_piece x]) @ map fr_piece xs) (header_after (if fr_offset x = 0 then fr_hdr x else h) xs)
      (k + int ((length (fr_data x) + 7) div 8) + (\<Sum>x\<leftarrow>xs. int ((length (fr_data x) + 7) div 8)))"
    "\<forall>ys. feed (map fr_frame xs @ ys) c1 = feed ys c'" by auto
  then show ?case
    using c1(1) by (intro exI [of _ c']) (simp add: header_after_def bind_op_def add.assoc)
qed

lemma header_after_first:
  "distinct (map fr_offset xs) \<Longrightarrow> x \<in> set xs \<Longrightarrow> fr_offset x = 0 \<Longrightarrow> header_after h xs = fr_hdr x"
proof (induction xs arbitrary: h)
  case (Cons y xs)
  have keep: "header_after h' zs = h'" if "\<forall>z\<in>set zs. fr_offset z \<noteq> 0" for h' zs
    using that by (induction zs arbitrary: h') (simp_all add: header_after_def)
  show ?case
  proof (cases "x = y")
    case True
    then have "\<forall>z\<in>set xs. fr_offset z \<noteq> 0" using Cons.prems by force
    then show ?thesis using True Cons.prems(3) keep by (simp add: header_after_def)
  next
    case False
    then show ?thesis using Cons by (simp add: header_after_def)
  qed
qed simp

text \<open>
  The fragments of a datagram with data \<open>D\<close> and first header \<open>hdr\<close>: distinct offsets, each a piece of the data and
  a whole number of blocks long, together the first \<open>n\<close> blocks and no more.
\<close>

definition fragments_of :: "buffer_id \<Rightarrow> bytes \<Rightarrow> bytes \<Rightarrow> nat \<Rightarrow> frag list \<Rightarrow> bool" where
  "fragments_of bid hdr D n xs \<longleftrightarrow> (\<forall>x\<in>set xs. more_fragment bid x \<and> piece D (fr_piece x) \<and> 8 dvd length (fr_data x)) \<and>
     distinct (map fr_offset xs) \<and> (\<forall>i<n * 8. \<exists>x\<in>set xs. covers (fr_piece x) i) \<and>
     (\<Sum>x\<leftarrow>xs. length (fr_data x)) = n * 8 \<and> (\<exists>x\<in>set xs. fr_offset x = 0 \<and> fr_hdr x = hdr)"

text \<open>C17. The fragments of a datagram, when all but the last arrive first, in any order, give back the datagram: when
  the last fragment arrives, reassembly returns the header of the first fragment, with the total length of the
  whole datagram in it, followed by exactly the data; and the resources of the reassembly are freed.\<close>

theorem reassembly_correct:
  assumes "c_fragments_cache c bid = None" "fragments_of bid hdr D n xs"
    "fragment bid lf n False lhdr (drop (n * 8) D)" "n * 8 \<le> length D" "length hdr + length D < 65536"
  shows "\<exists>c'. feed (map fr_frame xs @ [lf]) c = Some (Inr (Some (fixed_header hdr (length D) @ D)), c') \<and>
    c_fragments_cache c' bid = None"
proof -
  have x: "\<forall>x\<in>set xs. more_fragment bid x" "distinct (map fst ([] :: (nat \<times> bytes) list) @ map fr_offset xs)"
    and pc: "\<forall>p\<in>set (map fr_piece xs). piece D p" and cv: "\<forall>i<n * 8. \<exists>p\<in>set (map fr_piece xs). covers p i"
    and d8: "\<forall>x\<in>set xs. 8 dvd length (fr_data x)" and sm: "(\<Sum>x\<leftarrow>xs. length (fr_data x)) = n * 8"
    using assms(2) by (auto simp: fragments_of_def)
  obtain x0 where x0: "x0 \<in> set xs" "fr_offset x0 = 0" "fr_hdr x0 = hdr" using assms(2) by (auto simp: fragments_of_def)
  have h: "header_after [] xs = hdr" using header_after_first [of xs x0 "[]"] x0 x(2) by simp
  have "(\<Sum>x\<leftarrow>xs. (length (fr_data x) + 7) div 8) * 8 = (\<Sum>x\<leftarrow>xs. length (fr_data x))"
    using d8 by (induction xs) (auto simp: distrib_right)
  then have "(\<Sum>x\<leftarrow>xs. (length (fr_data x) + 7) div 8) = n" using sm by simp
  moreover have "(\<Sum>x\<leftarrow>zs. int ((length (fr_data x) + 7) div 8)) = int (\<Sum>x\<leftarrow>zs. (length (fr_data x) + 7) div 8)" for zs :: "frag list"
    by (induction zs) (simp_all del: of_nat_div)
  ultimately have k: "(\<Sum>x\<leftarrow>xs. int ((length (fr_data x) + 7) div 8)) = int n" by (simp only:)
  have c0: "collected c bid [] [] 0" using assms(1) by (simp add: collected_def)
  obtain c1 where c1: "collected c1 bid (map fr_piece xs) hdr (int n)" "\<forall>ys. feed (map fr_frame xs @ ys) c = feed ys c1"
    using feed_more [OF c0 x] h k by auto
  have pd: "piece D (n, drop (n * 8) D)" using assms(4) by (simp add: piece_def slice_def)
  have l: "length hdr + (n * 8 + length (drop (n * 8) D)) < 65536" "length D = n * 8 + length (drop (n * 8) D)"
    using assms(4,5) by simp_all
  from reass_complete [OF c1(1) assms(3) l(1) pd l(2) pc cv] obtain c' where
    "ip_reass lf c1 = Some (Inr (Some (fixed_header hdr (length D) @ D)), c')" "c_fragments_cache c' bid = None" by blast
  then show ?thesis using c1(2) by (simp add: bind_op_def)
qed

text \<open>Frames as the IP builder writes them, with a fragment as their raw payload.\<close>

lemma fragment_ip_bytes:
  assumes "ip_ok d" "ipb_payload d = PRaw data"
  shows "fragment (ipb_src d, ipb_dst d, ipb_id d, ipb_protocol d) (ip_bytes d) (nat (ipb_offset d)) (ipb_mf d)
    (ip_hdr_bytes d) data"
proof -
  note p = ip_parse_bytes [OF assms(1), of _ "[]", simplified, OF refl] ip_parse_frag [OF assms(1), of _ "[]", simplified, OF refl]
  have l: "ip_len d = 20 + length data" using assms by (simp add: ip_len_def ip_ok_def IP_IHL_def)
  have b: "ip_bytes d = ip_hdr_bytes d @ data" by (simp add: ip_bytes_def assms(2))
  have "ip_header (ip_bytes d) = Inr (ip_hdr_bytes d)" using p(2) by (simp add: ip_header_def) (simp add: b)
  moreover have "ip_data (ip_bytes d) = Inr data" using p(2,3) by (simp add: ip_data_def l) (simp add: b slice_def)
  ultimately show ?thesis by (simp add: fragment_def p l)
qed

definition frag_dgram :: "int \<Rightarrow> bool \<Rightarrow> bytes \<Rightarrow> ip_builder" where
  "frag_dgram offset mf data = (dgram (PRaw data) 9 99 0xC0A80205 0xC0A802C8)\<lparr>ipb_offset := offset, ipb_mf := mf\<rparr>"

lemma frag_dgram_ok:
  "0 \<le> offset \<Longrightarrow> offset < 8192 \<Longrightarrow> length data \<le> 1480 \<Longrightarrow> ip_ok (frag_dgram offset mf data)"
  using dgram_ok [of "PRaw data" 99 "0xC0A80205" "0xC0A802C8" 9]
  by (simp add: frag_dgram_def ip_ok_def dgram_def proto_consts addr_ok_def)

abbreviation example_bid :: buffer_id where
  "example_bid \<equiv> (0xC0A80205, 0xC0A802C8, 9, 99)"

lemma frag_example:
  assumes "0 \<le> offset" "offset < 8192" "length data \<le> 1480"
  shows "fragment example_bid (ip_bytes (frag_dgram offset mf data)) (nat offset) mf (ip_hdr_bytes (frag_dgram offset mf data)) data"
  using fragment_ip_bytes [OF frag_dgram_ok [OF assms, of mf], of data] by (simp add: frag_dgram_def dgram_def)

definition frag_of :: "nat \<Rightarrow> bytes \<Rightarrow> frag" where
  "frag_of offset data =
     \<lparr>fr_frame = ip_bytes (frag_dgram (int offset) True data), fr_offset = offset,
      fr_hdr = ip_hdr_bytes (frag_dgram (int offset) True data), fr_data = data\<rparr>"

theorem reassembly_correct_witness:
  "\<exists>c'. feed (map fr_frame [frag_of 1 (replicate 8 2), frag_of 0 (replicate 8 1)] @ [ip_bytes (frag_dgram 2 False [3, 3, 3])])
      core_example =
    Some (Inr (Some (fixed_header (fr_hdr (frag_of 0 (replicate 8 1))) 19 @ replicate 8 1 @ replicate 8 2 @ [3, 3, 3])), c')"
proof -
  let ?D = "replicate 8 1 @ replicate 8 2 @ [3, 3, 3] :: bytes" and ?xs = "[frag_of 1 (replicate 8 2), frag_of 0 (replicate 8 1)]"
  have m: "more_fragment example_bid (frag_of k data)" if "k < 8192" "length data \<le> 1480" for k data
    using frag_example [of "int k" data True] that by (simp add: more_fragment_def frag_of_def)
  have sl: "slice ?D 8 16 = replicate 8 2" "slice ?D 0 8 = replicate 8 1" by (simp_all add: slice_def)
  have f: "fragments_of example_bid (fr_hdr (frag_of 0 (replicate 8 1))) ?D 2 ?xs"
    using m [of 1 "replicate 8 2"] m [of 0 "replicate 8 1"] sl
    by (auto simp: fragments_of_def fr_piece_def piece_def covers_def frag_of_def)
  have len: "length (fr_hdr (frag_of 0 (replicate 8 1))) = 20" by (simp add: frag_of_def)
  have lf: "fragment example_bid (ip_bytes (frag_dgram 2 False [3, 3, 3])) 2 False
      (ip_hdr_bytes (frag_dgram 2 False [3, 3, 3])) (drop (2 * 8) ?D)"
    using frag_example [of 2 "[3, 3, 3]" False] by simp
  have c: "c_fragments_cache core_example example_bid = None" by (simp add: core_example_def)
  have l: "2 * 8 \<le> length ?D" "length (fr_hdr (frag_of 0 (replicate 8 1))) + length ?D < 65536" by (simp_all add: len)
  from reassembly_correct [OF c f lf l] show ?thesis by auto
qed

section \<open>When reassembly goes wrong\<close>

text \<open>A fragment that arrives twice is counted twice. When the first block of a datagram comes twice and the
  last fragment starts at the third block, reassembly takes the datagram as complete and delivers zeros in the
  place of the second block, which never arrived.\<close>

lemma duplicate_fragment_hole:
  assumes "c_fragments_cache c bid = None" "fragment bid f 0 True hdr d0" "length d0 = 8"
    "fragment bid lf 2 False lhdr ld" "length hdr + (16 + length ld) < 65536"
  shows "\<exists>c'. feed [f, f, lf] c =
    Some (Inr (Some (fixed_header hdr (16 + length ld) @ d0 @ replicate 8 0 @ ld)), c')"
proof -
  have "collected c bid [] [] 0" using assms(1) by (simp add: collected_def)
  from reass_more [OF this assms(2)] obtain c1 where c1: "ip_reass f c = Some (Inr None, c1)"
    "collected c1 bid [(0, d0)] hdr 1" using assms(3) by auto
  from reass_more [OF c1(2) assms(2)] obtain c2 where c2: "ip_reass f c1 = Some (Inr None, c2)"
    "collected c2 bid [(0, d0)] hdr (int 2)" using assms(3) by auto
  have d: "d0 @ replicate 8 0 @ ld = foldl wr_piece (replicate (16 + length ld) 0) ((2, ld) # [(0, d0)])"
    using assms(3) by (simp add: wr_piece_def slice_assign_def)
  have e: "length hdr + (2 * 8 + length ld) < 65536" "16 + length ld = 2 * 8 + length ld"
    "\<forall>p\<in>set [(0, d0)]. fst p * 8 + length (snd p) \<le> 16 + length ld" using assms(3,5) by simp_all
  from reass_last [OF c2(2) assms(4) e d] obtain c3 where
    "ip_reass lf c2 = Some (Inr (Some (fixed_header hdr (16 + length ld) @ d0 @ replicate 8 0 @ ld)), c3)" by blast
  then show ?thesis using c1(1) c2(1) by (simp add: bind_op_def)
qed

lemma duplicate_fragment_hole_witness:
  "\<exists>c'. feed [ip_bytes (frag_dgram 0 True (replicate 8 1)), ip_bytes (frag_dgram 0 True (replicate 8 1)),
      ip_bytes (frag_dgram 2 False [3])] core_example =
    Some (Inr (Some (fixed_header (ip_hdr_bytes (frag_dgram 0 True (replicate 8 1))) 17 @ replicate 8 1 @ replicate 8 0 @ [3])), c')"
proof -
  have c: "c_fragments_cache core_example example_bid = None" by (simp add: core_example_def)
  have f: "fragment example_bid (ip_bytes (frag_dgram 0 True (replicate 8 1))) 0 True
      (ip_hdr_bytes (frag_dgram 0 True (replicate 8 1))) (replicate 8 1)"
    using frag_example [of 0 "replicate 8 1" True] by simp
  have l: "fragment example_bid (ip_bytes (frag_dgram 2 False [3])) 2 False (ip_hdr_bytes (frag_dgram 2 False [3])) [3]"
    using frag_example [of 2 "[3]" False] by simp
  show ?thesis using duplicate_fragment_hole [OF c f _ l] by simp
qed

text \<open>A last fragment that the link layer padded (its frame is longer than its total length says) raises
  \<^verbatim>\<open>struct.error\<close> in the receiving thread: the parser's data reach up to a header length beyond the total
  length, and do not fit into the buffer. The reassembly is left with a buffer but marked as having its last fragment.\<close>

lemma padded_last_fragment_raises:
  assumes "collected c bid t h k" "ip_src ipf = Inr (fst bid)" "ip_dst ipf = Inr (fst (snd bid))"
    "ip_id ipf = Inr (fst (snd (snd bid)))" "ip_protocol ipf = Inr (snd (snd (snd bid)))"
    "ip_offset ipf = Inr offset" "ip_flag_mf ipf = Inr False" "ip_ihl ipf = Inr ihl" "ip_total_len ipf = Inr total_len"
    "ip_header ipf = Inr hdr" "ip_data ipf = Inr data" "ihl \<le> total_len" "total_len - ihl < length data"
  shows "\<exists>c'. ip_reass ipf c = Some (Inl StructError, c')"
proof -
  obtain c1 r where a: "alloc_ip_reass_mem ipf bid c = Some (Inr (), put c1 bid r)"
    using collected_alloc [OF assms(1)] .
  let ?n = "nat (int total_len - int ihl + int offset * 8)"
  have l: "?n = total_len - ihl + offset * 8" "0 \<le> int total_len - int ihl + int offset * 8" using assms(12) by auto
  let ?r = "r\<lparr>r_total_data_len := int total_len - int ihl + int offset * 8, r_last := True, r_data_buffer := replicate ?n 0\<rparr>"
  have i: "init_data_buffer bid (put c1 bid (r\<lparr>r_total_data_len := int total_len - int ihl + int offset * 8, r_last := True\<rparr>)) =
      Some (Inr (), put c1 bid ?r)"
    using l(2) by (simp add: init_data_buffer_def)
  have p: "put_data bid offset data (put c1 bid ?r) = Some (Inl StructError, put c1 bid ?r)"
    using l(1) assms(13) by (simp add: put_data_def pack_str_into_def)
  have "ip_reass ipf c = reass_last_fragment ipf bid offset total_len ihl data (put c1 bid r)"
    using a assms(2-11) by (simp add: ip_reass_def Let_def then_op_def bind_op_def [of "alloc_ip_reass_mem _ _"])
  also have "\<dots> = Some (Inl StructError, put c1 bid ?r)"
    by (simp add: reass_last_fragment_def then_op_Inr [of "init_data_buffer bid", OF i] then_op_Inl [of "put_data bid offset data", OF p])
  finally show ?thesis by blast
qed

lemma padded_last_fragment_raises_witness:
  "\<exists>c'. ip_reass (ip_bytes (frag_dgram 2 False [3]) @ replicate 25 0) core_example = Some (Inl StructError, c')"
proof -
  let ?d = "frag_dgram 2 False [3]" and ?f = "ip_bytes (frag_dgram 2 False [3]) @ replicate 25 0"
  have ok: "ip_ok ?d" by (rule frag_dgram_ok) simp_all
  note p = ip_parse_bytes [OF ok refl, of "replicate 25 0"] ip_parse_frag [OF ok refl, of "replicate 25 0"]
  have s: "ipb_src ?d = 0xC0A80205" "ipb_dst ?d = 0xC0A802C8" "ipb_id ?d = 9" "ipb_protocol ?d = 99" "ipb_offset ?d = 2"
    "\<not> ipb_mf ?d" "ip_len ?d = 21" by (simp_all add: frag_dgram_def dgram_def ip_len_def IP_IHL_def)
  have c: "collected core_example example_bid [] [] 0" by (simp add: collected_def core_example_def)
  have hd: "ip_header ?f = Inr (take 20 ?f)" "ip_data ?f = Inr (slice ?f 20 41)"
    using p(2,3) s(7) by (simp_all add: ip_header_def ip_data_def)
  have l: "length ?f = 46" using length_ip_bytes [OF ok] s(7) by simp
  show ?thesis
    using padded_last_fragment_raises [OF c, of ?f 2 20 21 "take 20 ?f" "slice ?f 20 41"] p s hd l
    by (simp add: slice_def)
qed

text \<open>
  The last fragment of a datagram of which nothing else has come, and a first fragment that comes after it.
\<close>

lemma reass_last_alone:
  assumes "c_fragments_cache c bid = None" "fragment bid lf n False lhdr ld" "0 < n"
  shows "\<exists>c1 r. ip_reass lf c = Some (Inr None, put c1 bid r) \<and> r_last r \<and>
    r_total_data_len r = int (n * 8 + length ld) \<and> r_header_buffer r = [] \<and>
    r_data_buffer r = replicate (n * 8) 0 @ ld \<and> r_block_count r = int ((length ld + 7) div 8)"
proof -
  have "collected c bid [] [] 0" using assms(1) by (simp add: collected_def)
  then obtain c1 r where a: "alloc_ip_reass_mem lf bid c = Some (Inr (), put c1 bid r)" and r: "r_temporary r = Some []"
    "r_header_buffer r = []" "r_block_count r = 0" using collected_alloc by metis
  let ?T = "int (n * 8 + length ld)"
  let ?r0 = "r\<lparr>r_total_data_len := ?T, r_last := True\<rparr>"
  let ?r1 = "?r0\<lparr>r_data_buffer := replicate (n * 8) 0 @ ld\<rparr>"
  let ?r2 = "?r1\<lparr>r_temporary := None, r_block_count := int ((length ld + 7) div 8)\<rparr>"
  have 1: "init_data_buffer bid (put c1 bid ?r0) = Some (Inr (), put c1 bid (?r0\<lparr>r_data_buffer := replicate (n * 8 + length ld) 0\<rparr>))"
    by (simp add: init_data_buffer_def nat_add_distrib nat_mult_distrib)
  have 2: "put_data bid n ld (put c1 bid (?r0\<lparr>r_data_buffer := replicate (n * 8 + length ld) 0\<rparr>)) = Some (Inr (), put c1 bid ?r1)"
    by (subst put_data_put) (simp_all add: wr_piece_def slice_assign_def)
  have 3: "put_temporary bid (put c1 bid ?r1) = Some (Inr (), put c1 bid (?r1\<lparr>r_temporary := None\<rparr>))"
    using r(1) by (simp add: put_temporary_def)
  have 4: "fix_total_len bid (put c1 bid ?r2) = Some (Inr (), put c1 bid ?r2)"
    using r(2) by (simp add: fix_total_len_def)
  have l: "int (length lhdr + length ld) - int (length lhdr) + int n * 8 = ?T" by simp
  have nb: "int ((length ld + 7) div 8) \<noteq> (?T + 7) div 8"
  proof -
    have "?T + 7 = int (length ld + 7) + int n * 8" by simp
    then have "(?T + 7) div 8 = int n + int ((length ld + 7) div 8)" by (simp only: div_mult_self3 of_nat_div of_nat_numeral)
    then show ?thesis using assms(3) by simp
  qed
  obtain tm j where rt: "restart_timer lf bid (put c1 bid ?r2) = Some (Inr (), put (c1\<lparr>c_timer := tm\<rparr>) bid (?r2\<lparr>r_timer := j\<rparr>))"
    using restart_timer_put by blast
  have "ip_reass lf c = reass_last_fragment lf bid n (length lhdr + length ld) (length lhdr) ld (put c1 bid r)"
    unfolding ip_reass_fragment [OF assms(2)] then_op_Inr [of "alloc_ip_reass_mem lf bid", OF a] by simp
  also have "\<dots> = then_op (fix_total_len bid) (reass_check lf bid)
      (put c1 bid (r_block_count_update (\<lambda>k. k + int ((length ld + 7) div 8)) (?r1\<lparr>r_temporary := None\<rparr>)))"
    unfolding reass_last_fragment_def l
    by (simp add: then_op_Inr [of "init_data_buffer bid", OF 1] then_op_Inr [of "put_data bid n ld", OF 2]
        then_op_Inr [of "put_temporary bid", OF 3] add_blocks_def fragment_blocks_eq del: of_nat_add of_nat_mult)
  also have "r_block_count_update (\<lambda>k. k + int ((length ld + 7) div 8)) (?r1\<lparr>r_temporary := None\<rparr>) = ?r2"
    using r(3) by (cases r) simp
  also have "then_op (fix_total_len bid) (reass_check lf bid) (put c1 bid ?r2) = reass_check lf bid (put c1 bid ?r2)"
    by (rule then_op_Inr [of "fix_total_len bid", OF 4])
  also have "\<dots> = then_op (restart_timer lf bid) (ret None) (put c1 bid ?r2)"
    using nb by (simp add: reass_check_def is_reassembled_def)
  also have "\<dots> = Some (Inr None, put (c1\<lparr>c_timer := tm\<rparr>) bid (?r2\<lparr>r_timer := j\<rparr>))"
    unfolding then_op_Inr [of "restart_timer lf bid", OF rt] by simp
  finally show ?thesis using r(2) by (intro exI [of _ "c1\<lparr>c_timer := tm\<rparr>"] exI [of _ "?r2\<lparr>r_timer := j\<rparr>"]) simp
qed

text \<open>When the first fragment arrives after the last, reassembly writes the total length of the datagram over the
  identification field of its header instead of the total-length field: the datagram that is delivered has
  the length of the first fragment, so that the layer above gets the data of the first fragment only.\<close>

lemma late_first_fragment_truncated:
  assumes "c_fragments_cache c bid = None" "fragment bid lf n False lhdr ld" "0 < n"
    "fragment bid f 0 True hdr d0" "length d0 = n * 8" "length hdr = 20" "20 + (n * 8 + length ld) < 65536"
  shows "\<exists>dg c'. feed [lf, f] c = Some (Inr (Some dg), c') \<and> drop 20 dg = d0 @ ld \<and>
    ip_id dg = Inr (int (20 + (n * 8 + length ld))) \<and> ip_total_len dg = Inr (20 + length d0) \<and>
    slice dg 20 (20 + length d0) = d0"
proof -
  obtain c1 r where c1: "ip_reass lf c = Some (Inr None, put c1 bid r)" and r: "r_last r"
    "r_total_data_len r = int (n * 8 + length ld)" "r_header_buffer r = []"
    "r_data_buffer r = replicate (n * 8) 0 @ ld" "r_block_count r = int ((length ld + 7) div 8)"
    using reass_last_alone [OF assms(1-3)] by blast
  let ?T = "int (20 + (n * 8 + length ld))"
  let ?h = "take 4 hdr @ be_bytes 2 ?T @ drop 6 hdr"
  let ?r1 = "r\<lparr>r_header_buffer := ?h\<rparr>"
  let ?r2 = "?r1\<lparr>r_block_count := int ((length ld + 7) div 8) + int n\<rparr>"
  have 1: "first_header_late bid hdr (length hdr) (put c1 bid r) = Some (Inr (), put c1 bid ?r1)"
    using r(2) assms(6,7) by (simp add: first_header_late_def pack_into_def pack_be_def slice_assign_def)
  have bc: "fragment_blocks 0 (length hdr + length d0) (length hdr) = int n"
    unfolding fragment_blocks_eq by (simp add: assms(5))
  have 2: "put_data bid 0 d0 (put c1 bid ?r2) = Some (Inr (), put c1 bid (?r2\<lparr>r_data_buffer := d0 @ ld\<rparr>))"
    using assms(5) by (subst put_data_put) (simp_all add: r(4) wr_piece_def slice_assign_def)
  have b: "int ((length ld + 7) div 8) + int n = (int (n * 8 + length ld) + 7) div 8"
  proof -
    have "int (n * 8 + length ld) + 7 = int (length ld + 7) + int n * 8" by simp
    then have "(int (n * 8 + length ld) + 7) div 8 = int n + int ((length ld + 7) div 8)"
      by (simp only: div_mult_self3 of_nat_div of_nat_numeral)
    then show ?thesis by simp
  qed
  obtain c' where 3: "reass_check f bid (put c1 bid (?r2\<lparr>r_data_buffer := d0 @ ld\<rparr>)) = Some (Inr (Some (?h @ d0 @ ld)), c')"
    using reass_check_done [of "?r2\<lparr>r_data_buffer := d0 @ ld\<rparr>" "?h @ d0 @ ld" f bid c1] r(2) b by auto
  have al: "alloc_ip_reass_mem f bid (put c1 bid r) = Some (Inr (), put c1 bid r)"
    by (simp add: alloc_ip_reass_mem_def)
  have "ip_reass f (put c1 bid r) = reass_after_last f bid 0 (length hdr + length d0) (length hdr) hdr d0 (put c1 bid r)"
    unfolding ip_reass_fragment [OF assms(4)] then_op_Inr [of "alloc_ip_reass_mem f bid", OF al] using r(1) by simp
  also have "\<dots> = then_op (put_data bid 0 d0) (reass_check f bid) (put c1 bid (r_block_count_update (\<lambda>k. k + int n) ?r1))"
    by (simp add: reass_after_last_def then_op_Inr [of "first_header_late bid hdr _", OF 1] add_blocks_def bc [simplified])
  also have "r_block_count_update (\<lambda>k. k + int n) ?r1 = ?r2" using r(5) by (cases r) simp
  also have "then_op (put_data bid 0 d0) (reass_check f bid) (put c1 bid ?r2) = Some (Inr (Some (?h @ d0 @ ld)), c')"
    unfolding then_op_Inr [of "put_data bid 0 d0", OF 2] by (rule 3)
  finally have f: "feed [lf, f] c = Some (Inr (Some (?h @ d0 @ ld)), c')" using c1 by (simp add: bind_op_def)
  have lh: "length ?h = 20" using assms(6) by simp
  have t: "take 4 hdr = take 4 f" "4 \<le> length f"
  proof -
    have "hdr = take 20 f" using assms(4,6) by (auto simp: fragment_def ip_header_def bind_r_Inr_iff)
    then show "take 4 hdr = take 4 f" "4 \<le> length f" using assms(6) by auto
  qed
  have "ip_total_len f = Inr (20 + length d0)" using assms(4,6) by (simp add: fragment_def)
  moreover have "slice (?h @ d0 @ ld) 2 4 = slice f 2 4"
    using t assms(6) by (simp add: slice_def drop_take)
  ultimately have tl: "ip_total_len (?h @ d0 @ ld) = Inr (20 + length d0)"
    using t(2) assms(6) by (simp add: ip_total_len_def unpack_be_def)
  have "ip_id (?h @ d0 @ ld) = Inr ?T"
    unfolding ip_id_def append_assoc using assms(6,7) by (intro unpack_packed) simp_all
  then show ?thesis
    using f tl lh by (intro exI [of _ "?h @ d0 @ ld"] exI [of _ c']) (simp add: slice_def)
qed

lemma late_first_fragment_truncated_witness:
  "\<exists>dg c'. feed [ip_bytes (frag_dgram 1 False [3]), ip_bytes (frag_dgram 0 True (replicate 8 1))] core_example =
      Some (Inr (Some dg), c') \<and> drop 20 dg = replicate 8 1 @ [3] \<and> ip_id dg = Inr 29 \<and> ip_total_len dg = Inr 28 \<and>
      slice dg 20 28 = replicate 8 1"
proof -
  have c: "c_fragments_cache core_example example_bid = None" by (simp add: core_example_def)
  have f: "fragment example_bid (ip_bytes (frag_dgram 0 True (replicate 8 1))) 0 True
      (ip_hdr_bytes (frag_dgram 0 True (replicate 8 1))) (replicate 8 1)"
    using frag_example [of 0 "replicate 8 1" True] by simp
  have l: "fragment example_bid (ip_bytes (frag_dgram 1 False [3])) 1 False (ip_hdr_bytes (frag_dgram 1 False [3])) [3]"
    using frag_example [of 1 "[3]" False] by simp
  have n: "0 < (1 :: nat)" "length (replicate 8 (1 :: byte)) = 1 * 8" by simp_all
  show ?thesis using late_first_fragment_truncated [OF c l n(1) f n(2)] by simp
qed

text \<open>A datagram for a raw socket is given to the socket and then to the reassembly, whose result is the data
  of the datagram without a header. The stack takes these data for another IP datagram and delivers them: a sender
  can address any handler in this way behind the checks on the header, and fewer than four bytes of
  data raise \<^verbatim>\<open>struct.error\<close> in the receiving thread.\<close>

lemma raw_payload_reinterpreted:
  assumes "deliverable c d" "ipb_payload d = PRaw data" "ip_protocol_map (ipb_protocol d) = None"
    "rip_sockets (c_rip c) (ipb_dst d, ipb_protocol d, ipb_src d) = Some ref"
    "c_fragments_cache c (ipb_src d, ipb_dst d, ipb_id d, ipb_protocol d) = None" "data \<noteq> []"
  shows "\<exists>c1 c2. get_data ref data c = Some (Inr (), c1) \<and> ip_reass (ip_bytes d) c1 = Some (Inr (Some data), c2) \<and>
    rx_ip (ip_bytes d) c = bind_op (ip_deliver data) (\<lambda>_. ret ()) c2 \<and>
    (length data < 4 \<longrightarrow> rx_ip (ip_bytes d) c = Some (Inl StructError, c2))"
proof -
  let ?bid = "(ipb_src d, ipb_dst d, ipb_id d, ipb_protocol d)"
  have ok: "ip_ok d" and z: "ipb_offset d = 0" "\<not> ipb_mf d" using assms(1) by (simp_all add: deliverable_def)
  have fr: "fragment ?bid (ip_bytes d) 0 False (ip_hdr_bytes d) data"
    using fragment_ip_bytes [OF ok assms(2)] z by simp
  obtain c1 where c1: "get_data ref data c = Some (Inr (), c1)" "c_fragments_cache c1 = c_fragments_cache c"
    by (simp add: get_data_def core_notify_def then_op_def)
  have col: "collected c1 ?bid [] [] (int 0)" using c1(2) assms(5) by (simp add: collected_def)
  have len: "length ([] :: bytes) + (0 * 8 + length data) < 65536"
    using ok assms(2) by (simp add: ip_ok_def ip_len_def)
  have D: "data = foldl wr_piece (replicate (length data) 0) ((0, data) # [])"
    by (simp add: wr_piece_def slice_assign_def)
  obtain c2 where c2: "ip_reass (ip_bytes d) c1 = Some (Inr (Some data), c2)"
    using reass_last [OF col fr len _ _ D] by (auto simp: fixed_header_def)
  have "ip_deliver (ip_bytes d) c = Some (Inr True, c1)"
    using fr assms(3,4) c1(1) by (simp add: ip_deliver_def fragment_def then_op_def bind_op_def)
  then have rx: "rx_ip (ip_bytes d) c = bind_op (ip_deliver data) (\<lambda>_. ret ()) c2"
    using rx_ip_deliver [OF assms(1), of "[]"] c2 assms(6) by (simp add: bind_op_def ip_fragment_input_def)
  moreover have "bind_op (ip_deliver data) (\<lambda>_. ret ()) c2 = Some (Inl StructError, c2)" if "length data < 4"
    using that assms(6) by (cases data) (auto simp: ip_deliver_def ip_ihl_def ip_total_len_def byte_at_def unpack_be_def bind_op_def)
  ultimately show ?thesis using c1(1) c2 by (intro exI [of _ c1] exI [of _ c2]) simp
qed

definition raw_example :: core where
  "raw_example = core_example\<lparr>c_rip := (c_rip core_example)\<lparr>rip_sockets := [(0xC0A802C8, 99, 0xC0A80205) \<mapsto> 1]\<rparr>\<rparr>"

lemma raw_payload_reinterpreted_witness:
  "\<exists>c2. rx_ip (ip_bytes (dgram (PRaw [1, 2, 3]) 9 99 0xC0A80205 0xC0A802C8)) raw_example = Some (Inl StructError, c2)"
proof -
  let ?d = "dgram (PRaw [1, 2, 3]) 9 99 0xC0A80205 0xC0A802C8"
  have ok: "deliverable raw_example ?d"
    using dgram_ok [of "PRaw [1, 2, 3]" 99 "0xC0A80205" "0xC0A802C8" 9]
    by (simp add: deliverable_def raw_example_def core_example_def dgram_def addr_ok_def ip_ttl_of_def
        proto_consts ip_is_broadcast_def ip_is_multicast_def)
  show ?thesis
    using raw_payload_reinterpreted [OF ok, of "[1, 2, 3]" 1]
    by (auto simp: raw_example_def core_example_def dgram_def ip_protocol_map_def)
qed

end
