(* ===== verification/Tcp_Timer.thy ===== *)
theory Tcp_Timer
  imports Tcpcb
begin

text \<open>
  \<^verbatim>\<open>tipy/protocols/tcp/tcp_timer.py\<close>: the retransmission timeout of RFC 6298 and the two timers of
  a connection, over the timer of the core.
\<close>

section \<open>Definitions\<close>

definition TIME_WAIT_TIMEOUT :: rat where "TIME_WAIT_TIMEOUT = 30"
definition RTO_K :: rat where "RTO_K = 4"
definition RTO_G :: rat where "RTO_G = 1 / 1000"
definition MAX_RTO :: rat where "MAX_RTO = 60"
definition MIN_RTO :: rat where "MIN_RTO = 1"
definition BETA :: rat where "BETA = 1 / 4"
definition ALPHA :: rat where "ALPHA = 1 / 8"

text \<open>
  The argument \<open>r\<close> is the sample that \<^verbatim>\<open>_rtt_sample\<close>, the only caller, has just stored in
  \<^verbatim>\<open>tcpcb.rtt\<close>.
\<close>

definition set_initial_rto :: "rat \<Rightarrow> fsm \<Rightarrow> fsm" where
  "set_initial_rto r w =
     w\<lparr>srtt := Some r, rttvar := Some (r / 2),
       rto := max (r + max RTO_G (RTO_K * (r / 2))) MIN_RTO, rtt := None\<rparr>"

definition set_new_rto :: "rat \<Rightarrow> fsm \<Rightarrow> fsm" where
  "set_new_rto r w =
     (case (srtt w, rttvar w) of
        (Some s, Some v) \<Rightarrow>
          let v' = (1 - BETA) * v + BETA * \<bar>s - r\<bar>;
              s' = (1 - ALPHA) * s + ALPHA * r
          in w\<lparr>rttvar := Some v', srtt := Some s',
               rto := max (s' + max RTO_G (RTO_K * v')) MIN_RTO, rtt := None\<rparr>
      | _ \<Rightarrow> set_initial_rto r w)"

definition back_off_rto :: "fsm \<Rightarrow> fsm" where
  "back_off_rto w = w\<lparr>rto := min (rto w * 2) MAX_RTO, rttvar := None, srtt := None, rtt := None\<rparr>"

definition schedule_rtx :: "fsm \<Rightarrow> fsm" where
  "schedule_rtx w =
     (let (k, tm) = schedule_timer (now_ns w) (rto w) (ScheduleRtx (cb_ref w)) (timer w)
      in w\<lparr>timer := tm, rtx_timer := Some k\<rparr>)"

definition start_rtx_timer :: "fsm \<Rightarrow> fsm" where
  "start_rtx_timer w = (if rtx_timer w = None then schedule_rtx w else w)"

definition restart_rtx_timer :: "fsm \<Rightarrow> fsm" where
  "restart_rtx_timer w =
     schedule_rtx (case rtx_timer w of None \<Rightarrow> w | Some k \<Rightarrow> w\<lparr>timer := timer_remove k (timer w)\<rparr>)"

definition stop_rtx_timer :: "fsm \<Rightarrow> fsm" where
  "stop_rtx_timer w =
     (case rtx_timer w of None \<Rightarrow> w
      | Some k \<Rightarrow> w\<lparr>timer := timer_remove k (timer w), rtx_timer := None\<rparr>)"

definition start_time_wait_timer :: "fsm \<Rightarrow> fsm" where
  "start_time_wait_timer w =
     (let (k, tm) = schedule_timer (now_ns w) TIME_WAIT_TIMEOUT (RemoveTcpcb (cb_ref w)) (timer w)
      in w\<lparr>timer := tm, time_wait_timer := Some k\<rparr>)"

definition stop_time_wait_timer :: "fsm \<Rightarrow> fsm" where
  "stop_time_wait_timer w =
     (case time_wait_timer w of None \<Rightarrow> w
      | Some k \<Rightarrow> w\<lparr>timer := timer_remove k (timer w), time_wait_timer := None\<rparr>)"

definition stop_all_timers :: "fsm \<Rightarrow> fsm" where
  "stop_all_timers w = stop_time_wait_timer (stop_rtx_timer w)"

end
