(* ===== verification/Tcp_Fsm.thy ===== *)
theory Tcp_Fsm
  imports Tcp_Timer
begin

text \<open>
  The TCP state machine of \<^verbatim>\<open>tipy/protocols/tcp/tcp_fsm.py\<close>: the helpers and the receive and
  transmit handler of every state, in the order of the source and without the leading
  underscores of its names. A handler maps the state before to the state after; one that can
  raise returns an \<open>outcome\<close>, with the state it left behind when it raised, and the transmit handlers
  an \<open>option\<close> of an outcome, \<open>None\<close> meaning that the send loop does not return.

  Logging is not modelled. The locks order the accesses of other threads to single fields; each
  handler is one step of the event thread.
\<close>

section \<open>Constants\<close>

definition SOL_SOCKET :: int where "SOL_SOCKET = 1"
definition SO_LINGER :: int where "SO_LINGER = 2"

text \<open>\<^verbatim>\<open>pack('ii', 1, 0)\<close> on a little-endian host.\<close>

definition SO_LINGER_ON :: sockopt where
  "SO_LINGER_ON = OptBytes [1, 0, 0, 0, 0, 0, 0, 0]"

datatype verdict = TCP_ACCEPT_AND_HANDLE | TCP_ACCEPT_BUT_BUFFER | TCP_DROP

definition TCP_MAX_TX_BYTES :: int where "TCP_MAX_TX_BYTES = 10000"

section \<open>Helpers\<close>

definition signal_rst :: "fsm \<Rightarrow> fsm" where
  "signal_rst w = notify (SendEvents (so w)) (notify (RecvEvents (so w)) w)"

definition change_state :: "tcp_state option \<Rightarrow> fsm \<Rightarrow> fsm" where
  "change_state new w = (case new of None \<Rightarrow> w | Some s \<Rightarrow> w\<lparr>prev_state := state w, state := s\<rparr>)"

definition now_sec :: "fsm \<Rightarrow> rat" where
  "now_sec w = of_int (now_ns w) / 1000000000"

definition rtt_probe :: "fsm \<Rightarrow> fsm" where
  "rtt_probe w = (if rtt w = None then w\<lparr>rtt := Some (now_sec w)\<rparr> else w)"

definition rtt_sample :: "fsm \<Rightarrow> fsm" where
  "rtt_sample w = (case rtt w of None \<Rightarrow> w | Some t0 \<Rightarrow> set_new_rto (now_sec w - t0) w)"

definition ack_seg :: "fsm \<Rightarrow> out_seg" where
  "ack_seg w = (seg0 w)\<lparr>os_seq := snd_nxt w, os_ack_seq := rcv_nxt w, os_ack := True,
     os_window := rcv_wnd w\<rparr>"

definition send_challenge_ack :: "fsm \<Rightarrow> fsm" where
  "send_challenge_ack w =
     (let elapsed_sec = (now_ns w - last_challenge_ack_timestamp w) div 1000000000;
          w1 = (if elapsed_sec > 0
                then w\<lparr>challenge_ack_limit := min MAX_TCP_CHALLENGE_ACK_LIMIT
                          (challenge_ack_limit w + TCP_CHALLENGE_ACK_RATE_HZ * elapsed_sec),
                       last_challenge_ack_timestamp := now_ns w\<rparr>
                else w)
      in if challenge_ack_limit w1 \<le> 0 then w1
         else (tx_tcp (ack_seg w1) w1)\<lparr>challenge_ack_limit := challenge_ack_limit w1 - 1\<rparr>)"

definition send_ack :: "fsm \<Rightarrow> fsm" where
  "send_ack w = tx_tcp (ack_seg w) w"

definition fin_seg :: "fsm \<Rightarrow> out_seg" where
  "fin_seg w = (ack_seg w)\<lparr>os_fin := True\<rparr>"

definition send_fin :: "tcp_state option \<Rightarrow> fsm \<Rightarrow> fsm" where
  "send_fin next_state w =
     (if sent_fin w then
        (if seq_gt (snd_max w) (snd_nxt w) then
           let w1 = tx_tcp (fin_seg w) w
           in start_rtx_timer (w1\<lparr>snd_nxt := mask32 (snd_nxt w1 + 1)\<rparr>)
         else w)
      else
        let w1 = rtt_probe (w\<lparr>sent_fin := True\<rparr>);
            w2 = tx_tcp (fin_seg w1) w1;
            w3 = w2\<lparr>snd_nxt := mask32 (snd_nxt w2 + 1)\<rparr>;
            w4 = w3\<lparr>snd_max := snd_nxt w3\<rparr>
        in change_state next_state (start_rtx_timer w4))"

definition send_rst :: "fsm \<Rightarrow> fsm" where
  "send_rst w = tx_tcp ((ack_seg w)\<lparr>os_rst := True, os_window := 0\<rparr>) w"

definition drop_with_reset :: "tcp_seg \<Rightarrow> fsm \<Rightarrow> fsm" where
  "drop_with_reset p w =
     (if sg_ack p then tx_tcp ((seg0 w)\<lparr>os_seq := sg_ack_seq p, os_rst := True, os_window := 0\<rparr>) w
      else tx_tcp ((ack_seg w)\<lparr>os_rst := True, os_window := 0\<rparr>) w)"

definition h_rx_ack :: "tcp_seg \<Rightarrow> fsm \<Rightarrow> int \<times> fsm" where
  "h_rx_ack p w =
     (if seq_leq (sg_ack_seq p) (snd_una w) \<or> seq_gt (sg_ack_seq p) (snd_nxt w) then (0, w)
      else (seq_diff (sg_ack_seq p) (snd_una w), w\<lparr>snd_una := sg_ack_seq p\<rparr>))"

definition h_rx_wnd :: "tcp_seg \<Rightarrow> fsm \<Rightarrow> bool \<times> fsm" where
  "h_rx_wnd p w =
     (if seq_lt (snd_wl1 w) (sg_seq p) \<or>
         sg_seq p = snd_wl1 w \<and> seq_lt (snd_wl2 w) (sg_ack_seq p)
      then (True, w\<lparr>snd_wl1 := sg_seq p, snd_wl2 := sg_ack_seq p, snd_wnd := sg_window p\<rparr>)
      else (False, w))"

section \<open>Acceptability of a segment\<close>

definition h_rx_seq_zlen_zwnd :: "tcp_seg \<Rightarrow> fsm \<Rightarrow> verdict \<times> tcp_seg \<times> fsm" where
  "h_rx_seq_zlen_zwnd p w =
     (if sg_seq p = rcv_nxt w then TCP_ACCEPT_AND_HANDLE else TCP_DROP, p, w)"

definition h_rx_seq_zlen :: "tcp_seg \<Rightarrow> fsm \<Rightarrow> verdict \<times> tcp_seg \<times> fsm" where
  "h_rx_seq_zlen p w =
     (if seq_leq (rcv_nxt w) (sg_seq p) \<and> seq_lt (sg_seq p) (rcv_adv w)
      then TCP_ACCEPT_AND_HANDLE else TCP_DROP, p, w)"

definition h_rx_seq_zwnd :: "tcp_seg \<Rightarrow> fsm \<Rightarrow> verdict \<times> tcp_seg \<times> fsm" where
  "h_rx_seq_zwnd p w = (TCP_DROP, p, w)"

definition h_rx_seq_normal :: "tcp_seg \<Rightarrow> fsm \<Rightarrow> verdict \<times> tcp_seg \<times> fsm" where
  "h_rx_seq_normal p w =
     (let lastseq = last_seq p
      in if seq_leq (sg_seq p) (rcv_nxt w) \<and> seq_geq lastseq (rcv_nxt w) then
           let todrop = seq_diff (rcv_nxt w) (sg_seq p);
               p1 = p\<lparr>sg_seq := mask32 (sg_seq p + todrop)\<rparr>;
               p2 = p1\<lparr>sg_dlen := sg_dlen p1 - (todrop - of_bool (sg_fin p1) - of_bool (sg_syn p1))\<rparr>;
               data_len = min (mask32 (seq_diff (rcv_adv w) (rcv_nxt w) - 1))
                              (seq_diff (lastseq + 1) (rcv_nxt w));
               w1 = w\<lparr>tcp_data_start := todrop, tcp_data_len := data_len,
                      rcv_nxt := mask32 (rcv_nxt w + data_len)\<rparr>;
               p3 = (if sg_fin p2 \<and> seq_geq lastseq (rcv_adv w1)
                     then p2\<lparr>sg_flags := sg_flags p2 AND NOT 1\<rparr> else p2)
           in (TCP_ACCEPT_AND_HANDLE, p3, w1)
         else if seq_gt (sg_seq p) (rcv_nxt w) \<and> seq_lt (sg_seq p) (rcv_adv w)
           then (TCP_ACCEPT_BUT_BUFFER, p, w)
         else (TCP_DROP, p, w))"

definition h_rx_seq_check :: "tcp_seg \<Rightarrow> fsm \<Rightarrow> verdict" where
  "h_rx_seq_check p w =
     (if seq_geq (sg_seq p) (rcv_nxt w) \<and> seq_lt (sg_seq p) (rcv_adv w)
      then TCP_ACCEPT_AND_HANDLE else TCP_DROP)"

definition rcv_seq_map :: "(tcp_seg \<Rightarrow> fsm \<Rightarrow> verdict \<times> tcp_seg \<times> fsm) list" where
  "rcv_seq_map = [h_rx_seq_zlen_zwnd, h_rx_seq_zwnd, h_rx_seq_zlen, h_rx_seq_normal]"

definition h_rx_seq :: "tcp_seg \<Rightarrow> fsm \<Rightarrow> verdict \<times> tcp_seg \<times> fsm" where
  "h_rx_seq p w =
     (let idx = (if sg_dlen p + of_bool (sg_fin p) + of_bool (sg_syn p) \<noteq> 0 then 1 else 0 :: nat);
          idx' = idx OR (if rcv_wnd w \<noteq> 0 then 2 else 0)
      in (rcv_seq_map ! idx') p w)"

section \<open>Resets and closing\<close>

definition h_rx_rst :: "tcp_seg \<Rightarrow> errno \<Rightarrow> fsm \<Rightarrow> bool \<times> fsm" where
  "h_rx_rst p e w =
     (if \<not> sg_rst p then (False, w)
      else (True, remove_tcpcb (change_state (Some CLOSED) (stop_all_timers (set_so_error e w)))))"

definition h_active_close_tx :: "bool \<Rightarrow> fsm \<Rightarrow> bool \<times> fsm" where
  "h_active_close_tx close_req w =
     (if close_req \<and> sock_opt w (SOL_SOCKET, SO_LINGER) = Some SO_LINGER_ON
      then (True, remove_tcpcb (change_state (Some CLOSED) (send_rst (stop_all_timers w))))
      else (False, w))"

definition h_active_close_rx :: "tcp_seg \<Rightarrow> fsm \<Rightarrow> bool \<times> fsm" where
  "h_active_close_rx p w =
     (if close_requested w \<and> sg_dlen p \<noteq> 0
      then (True, remove_tcpcb (change_state (Some CLOSED) (drop_with_reset p (stop_all_timers w))))
      else (False, w))"

definition rollback_to_una :: "fsm \<Rightarrow> fsm" where
  "rollback_to_una w = w\<lparr>snd_buf := rrb_roll_back_to_r (snd_buf w), snd_nxt := snd_una w\<rparr>"

definition compute_rcv_wnd :: "fsm \<Rightarrow> fsm" where
  "compute_rcv_wnd w =
     (let free = int (rb_free_space (rcv_buf w));
          new_rcv_adv = mask32 (free + rcv_nxt w);
          w1 = w\<lparr>rcv_wnd := free\<rparr>
      in if seq_gt new_rcv_adv (rcv_adv w) then w1\<lparr>rcv_adv := new_rcv_adv\<rparr> else w1)"

section \<open>Sending data\<close>

definition generate_segment_payload :: "bytes list \<Rightarrow> int \<Rightarrow> (bytes \<times> bytes list) result" where
  "generate_segment_payload buf n =
     (case buf of [] \<Rightarrow> Inl IndexError
      | b0 # bs \<Rightarrow>
          if int (length b0) \<le> n then
            (if length buf = 2 then Inr (b0, [hd bs]) else Inr (b0, bs))
          else Inr (py_upto b0 n, py_from b0 n # bs))"

definition data_seg :: "bool \<Rightarrow> bytes \<Rightarrow> fsm \<Rightarrow> out_seg" where
  "data_seg fin d w = (ack_seg w)\<lparr>os_psh := True, os_fin := fin, os_data := d\<rparr>"

text \<open>The body of the loop up to the decision to go on: send one segment, when \<^verbatim>\<open>core.tx_tcp\<close> returns.\<close>

definition tx_segment :: "bool \<Rightarrow> bytes \<Rightarrow> fsm \<Rightarrow> fsm" where
  "tx_segment should_fin seg_data w =
     (let w1 = tx_tcp (data_seg should_fin seg_data w) w;
          w2 = w1\<lparr>snd_nxt := mask32 (snd_nxt w1 + int (length seg_data) + of_bool should_fin)\<rparr>
      in if seq_gt (snd_nxt w2) (snd_max w2) then rtt_probe (w2\<lparr>snd_max := snd_nxt w2\<rparr>) else w2)"

text \<open>
  The loop ends with the exception of \<^verbatim>\<open>core.tx_tcp\<close> when a segment does not fit in the MTU: the numbers are
  not advanced and the timer is not started.
\<close>

partial_function (option) tx_while ::
    "tcp_state option \<Rightarrow> bool \<Rightarrow> bytes list \<Rightarrow> int \<Rightarrow> int \<Rightarrow> int \<Rightarrow> fsm \<Rightarrow> outcome option" where
  "tx_while next_state fin_req data dlen wnd counter w =
     (if dlen > 0 then
        (case generate_segment_payload data (min (remote_mss w) (min wnd dlen)) of
           Inl e \<Rightarrow> Some (Inl (e, w))
         | Inr (seg_data, data') \<Rightarrow>
             let should_fin = (fin_req \<and> data' = []);
                 n = int (length seg_data);
                 seg = data_seg should_fin seg_data w;
                 w' = tx_segment should_fin seg_data w
             in if \<not> seg_fits seg then Some (Inl (AttributeError, tx_tcp seg w))
                else if should_fin then Some (Inr (change_state next_state (w'\<lparr>sent_fin := True\<rparr>)))
                else if wnd - n \<le> 0 then Some (Inr w')
                else if counter + n \<ge> TCP_MAX_TX_BYTES then Some (Inr w')
                else tx_while next_state fin_req data' (dlen - n) (wnd - n) (counter + n) w')
      else Some (Inr w))"

definition tx_loop ::
    "bytes list \<Rightarrow> tcp_state option \<Rightarrow> bool \<Rightarrow> bool \<Rightarrow> fsm \<Rightarrow> outcome option" where
  "tx_loop data next_state shutdown_req close_req w =
     (case data of [] \<Rightarrow> Some (Inl (IndexError, w))
      | d0 # ds \<Rightarrow>
          let dlen = int (length d0) + (if length data = 2 then int (length (hd ds)) else 0);
              (aborted, w1) = h_active_close_tx close_req w
          in if aborted then Some (Inr w1)
             else map_option (map_sum id start_rtx_timer)
                    (tx_while next_state (shutdown_req \<or> close_req) data dlen (snd_wnd w) 0 w1))"

definition append_rcv_data :: "tcp_seg \<Rightarrow> fsm \<Rightarrow> int \<times> fsm" where
  "append_rcv_data p w =
     (let w1 = compute_rcv_wnd w
      in if rcv_wnd w1 = 0 then (0, w1)
         else if sg_data p \<noteq> [] then
           let (l, buf) = rb_enqueue (rcv_buf w1) (py_slice (sg_data p) (tcp_data_start w1) (tcp_data_len w1));
               w2 = w1\<lparr>rcv_buf := buf, rcv_wnd := rcv_wnd w1 - tcp_data_len w1\<rparr>
           in (int l, notify (RecvEvents (so w2)) w2)
         else (0, w1))"

text \<open>The window is an unsigned 16-bit field, so that the length asked for is not negative.\<close>

definition drain_snd_buf :: "fsm \<Rightarrow> bytes list \<times> fsm" where
  "drain_snd_buf w =
     (let (data, buf) = rrb_dequeue (snd_buf w) (nat (min TCP_MAX_TX_BYTES (snd_wnd w)))
      in (data, w\<lparr>snd_buf := buf\<rparr>))"

section \<open>Initial sequence numbers\<close>

definition init_snd_seq :: "fsm \<Rightarrow> fsm" where
  "init_snd_seq w = w\<lparr>snd_una := iss w, snd_nxt := iss w, snd_max := iss w\<rparr>"

definition init_snd_wnd :: "tcp_seg \<Rightarrow> fsm \<Rightarrow> fsm" where
  "init_snd_wnd p w = w\<lparr>snd_wnd := sg_window p, snd_wl1 := sg_seq p, snd_wl2 := sg_ack_seq p\<rparr>"

definition init_rcv_seq :: "tcp_seg \<Rightarrow> fsm \<Rightarrow> fsm" where
  "init_rcv_seq p w =
     (let w1 = w\<lparr>irs := sg_seq p, rcv_nxt := mask32 (sg_seq p + 1)\<rparr>
      in w1\<lparr>rcv_adv := mask32 (rcv_nxt w1 + rcv_wnd w1)\<rparr>)"

definition activ_open :: "fsm \<Rightarrow> fsm" where
  "activ_open w =
     (let w1 = tx_tcp ((seg0 w)\<lparr>os_seq := iss w, os_syn := True, os_window := DEFAULT_RCV_WND, os_mss := True\<rparr>) w;
          w2 = init_snd_seq (rtt_probe w1);
          w3 = w2\<lparr>snd_nxt := mask32 (snd_nxt w2 + 1)\<rparr>;
          w4 = w3\<lparr>snd_max := snd_nxt w3\<rparr>
      in start_rtx_timer (change_state (Some SYN_SENT) w4))"

section \<open>SYN-SENT and SYN-RECV\<close>

text \<open>The SYN-ACK that acknowledges our SYN, up to the buffering of its data.\<close>

definition syn_sent_data :: "tcp_seg \<Rightarrow> fsm \<Rightarrow> nat \<times> fsm" where
  "syn_sent_data p w =
     (if sg_dlen p > 0 then
        let (l, buf) = rb_enqueue (rcv_buf w) (sg_data p)
        in (l, w\<lparr>rcv_buf := buf, rcv_wnd := rcv_wnd w - int l, rcv_nxt := mask32 (rcv_nxt w + int l)\<rparr>)
      else (0, w))"

definition syn_sent_accept :: "tcp_seg \<Rightarrow> fsm \<Rightarrow> outcome" where
  "syn_sent_accept p w =
     (let w1 = stop_rtx_timer (rtt_sample w);
          w2 = init_snd_wnd p (init_rcv_seq p w1)
      in case sg_options p of
           Inl e \<Rightarrow> Inl (e, w2)
         | Inr opts \<Rightarrow>
             let w3 = w2\<lparr>remote_mss := (case opts of None \<Rightarrow> 536 | Some m \<Rightarrow> m)\<rparr>;
                 (l, w4) = syn_sent_data p w3;
                 w5 = change_state (Some ESTAB) (tx_tcp (ack_seg w4) w4);
                 w6 = notify (ConnectEvents (so w5)) w5
             in Inr (if l > 0 then notify (RecvEvents (so w6)) w6 else w6))"

definition syn_sent_simultaneous :: "tcp_seg \<Rightarrow> fsm \<Rightarrow> fsm" where
  "syn_sent_simultaneous p w =
     (let w1 = (rollback_to_una (stop_rtx_timer w))\<lparr>rtt := None\<rparr>;
          w2 = init_snd_wnd p (init_rcv_seq p w1);
          w3 = tx_tcp ((ack_seg w2)\<lparr>os_syn := True\<rparr>) w2;
          w4 = rtt_probe w3;
          w5 = w4\<lparr>snd_nxt := mask32 (snd_nxt w4 + 1)\<rparr>
      in change_state (Some SYN_RECV) (start_rtx_timer w5))"

definition rx_syn_sent :: "tcp_seg \<Rightarrow> fsm \<Rightarrow> outcome" where
  "rx_syn_sent p w =
     (let (a, w1) = (if sg_rst p then h_rx_ack p w else (0, w))
      in if sg_rst p \<and> a > 0 then
           let w2 = set_so_error ECONNREFUSED (stop_rtx_timer w1)
           in Inr (notify (ConnectEvents (so w2)) w2)
         else if sg_fin p then Inr w1
         else if sg_syn p \<and> sg_ack p then
           let (b, w2) = h_rx_ack p w1
           in if b > 0 then syn_sent_accept p w2 else Inr (drop_with_reset p w2)
         else if sg_syn p then Inr (syn_sent_simultaneous p w1)
         else Inr w1)"

definition tx_syn_sent :: "fsm \<Rightarrow> fsm" where
  "tx_syn_sent w =
     (let w1 = tx_tcp ((ack_seg w)\<lparr>os_ack := False, os_syn := True\<rparr>) w
      in start_rtx_timer (w1\<lparr>snd_nxt := mask32 (snd_nxt w1 + 1)\<rparr>))"

definition rx_syn_recv :: "tcp_seg \<Rightarrow> fsm \<Rightarrow> fsm" where
  "rx_syn_recv p w =
     (if \<not> sg_ack p then w
      else if sg_syn p then
        (if seq_lt (sg_seq p) (irs w) then drop_with_reset p w
         else
           let p1 = (if rcv_nxt w - sg_seq p > 0
                     then p\<lparr>sg_seq := mask32 (sg_seq p + 1), sg_flags := sg_flags p AND NOT 2\<rparr> else p);
               p2 = p1\<lparr>sg_dlen := 0\<rparr>;
               (v, p3, w1) = h_rx_seq p2 w
           in if v = TCP_DROP then send_ack w1
              else
                let (a, w2) = h_rx_ack p3 w1
                in if a > 0 then
                     let w3 = stop_rtx_timer (rtt_sample w2);
                         w4 = change_state (Some ESTAB) (send_ack (snd (h_rx_wnd p3 w3)))
                     in notify (ConnectEvents (so w4)) w4
                   else drop_with_reset p3 w2)
      else w)"

definition tx_syn_recv :: "fsm \<Rightarrow> fsm" where
  "tx_syn_recv w =
     (let w1 = tx_tcp ((ack_seg w)\<lparr>os_syn := True\<rparr>) w
      in start_rtx_timer (w1\<lparr>snd_nxt := mask32 (snd_nxt w1 + 1)\<rparr>))"

section \<open>ESTAB\<close>

definition schedule_send :: "fsm \<Rightarrow> fsm" where
  "schedule_send w = schedule_event (TCPEvent SEND (Some (cb_ref w)) None) w"

definition set_ack_now :: "tcp_seg \<Rightarrow> fsm \<Rightarrow> fsm" where
  "set_ack_now p w = (if sg_dlen p > 0 \<or> sg_fin p then w\<lparr>ack_now := True\<rparr> else w)"

definition estab_acked :: "int \<Rightarrow> fsm \<Rightarrow> fsm" where
  "estab_acked seq_acked w =
     (if seq_acked > 0 then
        let w1 = rtt_sample w;
            w2 = (if snd_nxt w1 = snd_una w1 then stop_rtx_timer w1 else restart_rtx_timer w1);
            w3 = w2\<lparr>snd_buf := rrb_free (snd_buf w2) seq_acked\<rparr>
        in notify (SendEvents (so w3)) w3
      else w)"

definition estab_accept :: "tcp_seg \<Rightarrow> fsm \<Rightarrow> fsm" where
  "estab_accept p w =
     (let (reset, w1) = h_rx_rst p ECONNRESET w
      in if reset then signal_rst w1
         else if sg_syn p then send_challenge_ack w1
         else
           let (seq_acked, w2) = h_rx_ack p (set_ack_now p w1);
               w3 = estab_acked seq_acked w2;
               w4 = snd (append_rcv_data p (snd (h_rx_wnd p w3)));
               w5 = (if sg_fin p
                     then let w' = change_state (Some CLOSE_WAIT) w4 in notify (RecvEvents (so w')) w'
                     else w4)
           in schedule_send w5)"

definition rx_estab :: "tcp_seg \<Rightarrow> fsm \<Rightarrow> fsm" where
  "rx_estab p w =
     (let (accept_seg, p1, w1) = h_rx_seq p w
      in case accept_seg of
           TCP_ACCEPT_AND_HANDLE \<Rightarrow> estab_accept p1 w1
         | TCP_ACCEPT_BUT_BUFFER \<Rightarrow> schedule_send (w1\<lparr>ack_now := True\<rparr>)
         | TCP_DROP \<Rightarrow> send_challenge_ack w1)"

definition tx_estab :: "fsm \<Rightarrow> outcome option" where
  "tx_estab w =
     (let (data, w1) = drain_snd_buf w;
          shutdown_req = shutdown_requested w1;
          close_req = close_requested w1;
          w2 = compute_rcv_wnd w1
      in if data = [] then
           let (aborted, w3) = h_active_close_tx close_req w2
           in if aborted then Some (Inr w3)
              else if (close_req \<or> shutdown_req) \<and> snd_wnd w3 > 0
                then Some (Inr ((send_fin (Some FIN_WAIT_1) w3)\<lparr>ack_now := False\<rparr>))
              else if ack_now w3 then Some (Inr ((send_ack w3)\<lparr>ack_now := False\<rparr>))
              else Some (Inr w3)
         else tx_loop data (Some FIN_WAIT_1) shutdown_req close_req w2)"

section \<open>Active close\<close>

definition fin_wait_1_acked :: "tcp_seg \<Rightarrow> int \<Rightarrow> fsm \<Rightarrow> fsm" where
  "fin_wait_1_acked p seq_acked w =
     (if seq_acked > 0 then
        compute_rcv_wnd
          (if snd_nxt w = snd_una w then
             let w1 = stop_rtx_timer w;
                 w2 = w1\<lparr>snd_buf := rrb_free (snd_buf w1) (seq_acked - 1)\<rparr>
             in if sg_fin p then start_time_wait_timer (change_state (Some TIME_WAIT) w2)
                else change_state (Some FIN_WAIT_2) w2
           else
             let w1 = restart_rtx_timer w;
                 w2 = w1\<lparr>snd_buf := rrb_free (snd_buf w1) seq_acked\<rparr>
             in if sg_fin p then change_state (Some CLOSING) w2 else w2)
      else w)"

text \<open>\<^verbatim>\<open>_h_rx_rst(...) or _h_active_close_rx(...)\<close>\<close>

definition rst_or_close_rx :: "tcp_seg \<Rightarrow> fsm \<Rightarrow> bool \<times> fsm" where
  "rst_or_close_rx p w =
     (let (reset, w1) = h_rx_rst p ECONNRESET w
      in if reset then (True, w1) else h_active_close_rx p w1)"

definition fin_wait_1_accept :: "tcp_seg \<Rightarrow> fsm \<Rightarrow> fsm" where
  "fin_wait_1_accept p w =
     (let (aborted, w1) = rst_or_close_rx p w
      in if aborted then signal_rst w1
         else if sg_syn p then send_challenge_ack w1
         else
           let w2 = (if sg_dlen p \<noteq> 0 \<or> sg_fin p then w1\<lparr>ack_now := True\<rparr> else w1);
               (seq_acked, w3) = h_rx_ack p w2;
               w4 = fin_wait_1_acked p seq_acked w3;
               w5 = snd (append_rcv_data p (snd (h_rx_wnd p w4)))
           in if ack_now w5 then send_ack w5 else w5)"

definition rx_fin_wait_1 :: "tcp_seg \<Rightarrow> fsm \<Rightarrow> fsm" where
  "rx_fin_wait_1 p w =
     (let (accept_seg, p1, w1) = h_rx_seq p w
      in case accept_seg of
           TCP_ACCEPT_AND_HANDLE \<Rightarrow> fin_wait_1_accept p1 w1
         | TCP_ACCEPT_BUT_BUFFER \<Rightarrow> send_ack w1
         | TCP_DROP \<Rightarrow> send_challenge_ack w1)"

definition tx_fin_wait_1 :: "fsm \<Rightarrow> outcome option" where
  "tx_fin_wait_1 w =
     (let (data, w1) = drain_snd_buf w;
          close_req = close_requested w1;
          w2 = compute_rcv_wnd w1
      in if data = [] then
           let (aborted, w3) = h_active_close_tx close_req w2
           in if aborted then Some (Inr w3)
              else if snd_wnd w3 > 0 then Some (Inr (send_fin None w3))
              else Some (Inr w3)
         else tx_loop data None True False w2)"

definition fin_wait_2_accept :: "tcp_seg \<Rightarrow> fsm \<Rightarrow> fsm" where
  "fin_wait_2_accept p w =
     (let (aborted, w1) = rst_or_close_rx p w
      in if aborted then signal_rst w1
         else if sg_syn p then send_challenge_ack w1
         else
           let w2 = compute_rcv_wnd (set_ack_now p w1);
               w3 = snd (h_rx_wnd p (snd (h_rx_ack p w2)));
               w4 = (if sg_fin p then start_time_wait_timer (change_state (Some TIME_WAIT) w3) else w3)
           in send_ack (snd (append_rcv_data p w4)))"

definition rx_fin_wait_2 :: "tcp_seg \<Rightarrow> fsm \<Rightarrow> fsm" where
  "rx_fin_wait_2 p w =
     (let (accept_seq, p1, w1) = h_rx_seq p w
      in case accept_seq of
           TCP_ACCEPT_AND_HANDLE \<Rightarrow> fin_wait_2_accept p1 w1
         | TCP_ACCEPT_BUT_BUFFER \<Rightarrow> send_ack w1
         | TCP_DROP \<Rightarrow> send_challenge_ack w1)"

definition tx_fin_wait_2 :: "fsm \<Rightarrow> fsm" where
  "tx_fin_wait_2 w = snd (h_active_close_tx (close_requested w) w)"

definition rx_closing :: "tcp_seg \<Rightarrow> fsm \<Rightarrow> fsm" where
  "rx_closing p w =
     (if h_rx_seq_check p w = TCP_ACCEPT_AND_HANDLE then
        let (aborted, w1) = rst_or_close_rx p w
        in if aborted then signal_rst w1
           else if sg_syn p then send_challenge_ack w1
           else
             let (seq_acked, w2) = h_rx_ack p w1;
                 w3 = (if seq_acked > 0 then
                         (if snd_una w2 = snd_nxt w2 then
                            let w' = start_time_wait_timer (change_state (Some TIME_WAIT) (stop_rtx_timer w2))
                            in w'\<lparr>snd_buf := rrb_free (snd_buf w') (seq_acked - 1)\<rparr>
                          else
                            let w' = restart_rtx_timer w2
                            in w'\<lparr>snd_buf := rrb_free (snd_buf w') seq_acked\<rparr>)
                       else w2)
             in snd (h_rx_wnd p w3)
      else send_ack w)"

definition tx_closing :: "fsm \<Rightarrow> outcome option" where
  "tx_closing w =
     (let close_req = close_requested w;
          (data, w1) = drain_snd_buf w
      in if data = [] then
           let (aborted, w2) = h_active_close_tx close_req w1
           in if aborted then Some (Inr w2)
              else if snd_wnd w2 > 0 then Some (Inr (send_fin None w2))
              else Some (Inr w2)
         else tx_loop data None True False w1)"

section \<open>Passive close\<close>

definition rx_close_wait :: "tcp_seg \<Rightarrow> fsm \<Rightarrow> fsm" where
  "rx_close_wait p w =
     (if h_rx_seq_check p w = TCP_ACCEPT_AND_HANDLE then
        let (aborted, w1) = rst_or_close_rx p w
        in if aborted then signal_rst w1
           else if sg_syn p then send_challenge_ack w1
           else
             let (seq_acked, w2) = h_rx_ack p w1;
                 w3 = (if seq_acked > 0 then
                         let w' = rtt_sample w2
                         in if snd_una w' = snd_nxt w' then stop_rtx_timer w' else restart_rtx_timer w'
                       else w2);
                 w4 = snd (h_rx_wnd p w3)
             in schedule_send (w4\<lparr>snd_buf := rrb_free (snd_buf w4) seq_acked\<rparr>)
      else schedule_send w)"

definition tx_close_wait :: "fsm \<Rightarrow> outcome option" where
  "tx_close_wait w =
     (let shutdown_req = shutdown_requested w;
          close_req = close_requested w;
          (data, w1) = drain_snd_buf (compute_rcv_wnd w)
      in if data = [] then
           let (aborted, w2) = h_active_close_tx close_req w1
           in if aborted then Some (Inr w2)
              else if (close_req \<or> shutdown_req) \<and> snd_wnd w2 > 0
                then Some (Inr (send_fin (Some LAST_ACK) w2))
              else if ack_now w2 then Some (Inr ((send_ack w2)\<lparr>ack_now := False\<rparr>))
              else Some (Inr w2)
         else tx_loop data (Some LAST_ACK) shutdown_req close_req w1)"

definition rx_last_ack :: "tcp_seg \<Rightarrow> fsm \<Rightarrow> fsm" where
  "rx_last_ack p w =
     (if h_rx_seq_check p w = TCP_ACCEPT_AND_HANDLE then
        let (reset, w1) = h_rx_rst p ECONNRESET w
        in if reset then signal_rst w1
           else if sg_syn p then send_challenge_ack w1
           else
             let (seq_acked, w2) = h_rx_ack p w1;
                 w3 = (if seq_acked > 0 then
                         let w' = rtt_sample w2
                         in if snd_una w' = snd_nxt w' then
                              let w'' = stop_rtx_timer w'
                              in change_state (Some CLOSED)
                                   (w''\<lparr>snd_buf := rrb_free (snd_buf w'') (seq_acked - 1)\<rparr>)
                            else
                              let w'' = restart_rtx_timer w'
                              in w''\<lparr>snd_buf := rrb_free (snd_buf w'') seq_acked\<rparr>
                       else w2)
             in snd (h_rx_wnd p w3)
      else w)"

definition tx_last_ack :: "fsm \<Rightarrow> outcome option" where
  "tx_last_ack w =
     (let (data, w1) = drain_snd_buf w
      in if data = [] then
           (if snd_wnd w1 > 0 then Some (Inr (send_fin None w1)) else Some (Inr w1))
         else tx_loop data None True False w1)"

definition rx_time_wait :: "tcp_seg \<Rightarrow> fsm \<Rightarrow> fsm" where
  "rx_time_wait p w =
     (if sg_fin p then start_time_wait_timer (stop_time_wait_timer (send_ack w)) else w)"

section \<open>Dispatch\<close>

text \<open>Calling the \<^verbatim>\<open>None\<close> of a map raises \<^verbatim>\<open>TypeError\<close>.\<close>

definition rx_map :: "tcp_state \<Rightarrow> tcp_seg \<Rightarrow> fsm \<Rightarrow> outcome" where
  "rx_map s p w =
     (case s of
        LISTEN \<Rightarrow> Inl (TypeError, w)
      | SYN_SENT \<Rightarrow> rx_syn_sent p w
      | SYN_RECV \<Rightarrow> Inr (rx_syn_recv p w)
      | ESTAB \<Rightarrow> Inr (rx_estab p w)
      | FIN_WAIT_1 \<Rightarrow> Inr (rx_fin_wait_1 p w)
      | FIN_WAIT_2 \<Rightarrow> Inr (rx_fin_wait_2 p w)
      | CLOSE_WAIT \<Rightarrow> Inr (rx_close_wait p w)
      | CLOSING \<Rightarrow> Inr (rx_closing p w)
      | LAST_ACK \<Rightarrow> Inr (rx_last_ack p w)
      | TIME_WAIT \<Rightarrow> Inr (rx_time_wait p w)
      | CLOSED \<Rightarrow> Inr w)"

definition tx_map :: "tcp_state \<Rightarrow> fsm \<Rightarrow> outcome option" where
  "tx_map s w =
     (case s of
        LISTEN \<Rightarrow> Some (Inl (TypeError, w))
      | SYN_SENT \<Rightarrow> Some (Inr (tx_syn_sent w))
      | SYN_RECV \<Rightarrow> Some (Inr (tx_syn_recv w))
      | ESTAB \<Rightarrow> tx_estab w
      | FIN_WAIT_1 \<Rightarrow> tx_fin_wait_1 w
      | FIN_WAIT_2 \<Rightarrow> Some (Inr (tx_fin_wait_2 w))
      | CLOSE_WAIT \<Rightarrow> tx_close_wait w
      | CLOSING \<Rightarrow> tx_closing w
      | LAST_ACK \<Rightarrow> tx_last_ack w
      | TIME_WAIT \<Rightarrow> Some (Inl (TypeError, w))
      | CLOSED \<Rightarrow> Some (Inr w))"

definition tcp_fsm_connect :: "fsm \<Rightarrow> fsm" where
  "tcp_fsm_connect w = activ_open w"

definition tx :: "fsm \<Rightarrow> outcome option" where
  "tx w = tx_map (state w) w"

definition rx :: "tcp_seg \<Rightarrow> fsm \<Rightarrow> outcome" where
  "rx p w = rx_map (state w) p w"

definition rtx :: "fsm \<Rightarrow> outcome option" where
  "rtx w = tx ((rollback_to_una (back_off_rto w))\<lparr>rtx_timer := None\<rparr>)"

end
