(* ===== verification/Sock_Api.thy ===== *)
theory Sock_Api
  imports Core_Rx Tcp_Fsm
begin

text \<open>
  The calls of an application: \<^verbatim>\<open>lib/socket.py\<close>, \<^verbatim>\<open>lib/errno.py\<close> and the user requests
  \<^verbatim>\<open>udp_usrreq.py\<close>, \<^verbatim>\<open>raw_usrreq.py\<close> and \<^verbatim>\<open>tcp_usrreq.py\<close>; the acquisition of the address in
  \<^verbatim>\<open>core.py\<close>; and the thread that serves TCP events (\<^verbatim>\<open>components/tcp_events.py\<close>).

  A call that waits on a condition variable is given what happens meanwhile: a function on the core,
  what the other threads do until the call goes on, and, where the wait has a timeout, whether it was
  notified. A call that waits for ever does not return. The element that \<^verbatim>\<open>set.pop\<close> takes from the
  ephemeral ports is chosen by the parameter \<open>pick\<close>.
\<close>

section \<open>Sockets\<close>

definition AF_INET :: int where "AF_INET = 1"
definition SOCK_STREAM :: int where "SOCK_STREAM = 1"
definition SOCK_DGRAM :: int where "SOCK_DGRAM = 2"
definition SOCK_RAW :: int where "SOCK_RAW = 3"

definition sock_init :: "sock_kind \<Rightarrow> int \<Rightarrow> sock" where
  "sock_init kind proto =
     \<lparr>s_kind = kind, s_proto = proto, s_local_ip = 0, s_local_port = 0, s_remote_ip = 0, s_remote_port = 0,
      s_queue = [], s_timeout = None, s_sock_opt = Map.empty, s_sock_id = (0, 0, 0, 0), s_rip_id = (0, proto, 0)\<rparr>"

definition new_sock :: "sock_kind \<Rightarrow> int \<Rightarrow> nat option op" where
  "new_sock kind proto c =
     Some (Inr (Some (c_next_ref c)),
       c\<lparr>c_next_ref := Suc (c_next_ref c), c_socks := (c_socks c)(c_next_ref c \<mapsto> sock_init kind proto),
         c_so_error := (c_so_error c)(c_next_ref c := NoErr)\<rparr>)"

definition py_socket :: "int \<Rightarrow> int \<Rightarrow> int \<Rightarrow> nat option op" where
  "py_socket family ty protocol =
     (if family = AF_INET then
        if ty = SOCK_DGRAM then new_sock UDPSocket protocol
        else if ty = SOCK_STREAM then new_sock TCPSocket protocol
        else if ty = SOCK_RAW then new_sock RIPSocket protocol
        else ret None
      else ret None)"

text \<open>A socket object that the application holds always exists.\<close>

definition get_sock :: "nat \<Rightarrow> sock op" where
  "get_sock ref = bind_op (get (\<lambda>c. c_socks c ref)) (\<lambda>s. case s of Some x \<Rightarrow> ret x | None \<Rightarrow> raise AttributeError)"

definition upd_sock :: "nat \<Rightarrow> (sock \<Rightarrow> sock) \<Rightarrow> unit op" where
  "upd_sock ref f = upd (\<lambda>c. c\<lparr>c_socks := (c_socks c)(ref := map_option f (c_socks c ref))\<rparr>)"

definition setsockopt :: "nat \<Rightarrow> int \<Rightarrow> int \<Rightarrow> sockopt \<Rightarrow> unit op" where
  "setsockopt ref level optname v = upd_sock ref (s_sock_opt_update (\<lambda>_. [(level, optname) \<mapsto> v]))"

definition settimeout :: "nat \<Rightarrow> int option \<Rightarrow> unit op" where
  "settimeout ref t = upd_sock ref (s_timeout_update (\<lambda>_. t))"

definition set_error :: "nat \<Rightarrow> errno \<Rightarrow> unit op" where
  "set_error ref e = upd (\<lambda>c. c\<lparr>c_so_error := (c_so_error c)(ref := e)\<rparr>)"

definition raise_exception :: "nat \<Rightarrow> unit op" where
  "raise_exception ref =
     bind_op (get (\<lambda>c. c_so_error c ref)) (\<lambda>e. if e = NoErr then ret () else raise (SocketError e))"

definition fail :: "nat \<Rightarrow> errno \<Rightarrow> unit op" where
  "fail ref e = then_op (set_error ref e) (raise_exception ref)"

text \<open>\<^verbatim>\<open>str(self.unicast_ip)\<close>\<close>

definition str_unicast :: "core \<Rightarrow> string" where
  "str_unicast c = (case c_unicast_ip c of None \<Rightarrow> ''None'' | Some n \<Rightarrow> dotted n)"

definition own_ip :: "int op" where
  "own_ip = bind_op (get c_unicast_ip) (\<lambda>ip. case ip of Some n \<Rightarrow> ret n | None \<Rightarrow> raise AttributeError)"

text \<open>The first statement of the three \<^verbatim>\<open>bind\<close> requests.\<close>

definition check_address :: "nat \<Rightarrow> string \<Rightarrow> unit op" where
  "check_address ref a =
     (case ip_init_str a of
        Inl e \<Rightarrow> set_error ref EAI_NONAME
      | Inr ip \<Rightarrow> bind_op (get str_unicast) (\<lambda>own.
          if fst (str_ip ip) \<noteq> own then set_error ref EADDRNOTAVAIL else ret ()))"

definition sock_id_of :: "sock \<Rightarrow> sock_id" where
  "sock_id_of s = (s_local_ip s, s_local_port s, s_remote_ip s, s_remote_port s)"

definition set_sock_id :: "nat \<Rightarrow> unit op" where
  "set_sock_id ref = upd_sock ref (\<lambda>s. s\<lparr>s_sock_id := sock_id_of s\<rparr>)"

text \<open>
  Python's \<^verbatim>\<open>==\<close> between an object and an integer or a string. \<^verbatim>\<open>IPAddress\<close> defines no \<^verbatim>\<open>__eq__\<close>, so that an
  address object is equal to itself only.
\<close>

datatype py_value = PyInt int | PyStr string | PyIPAddress int

fun py_eq_int :: "py_value \<Rightarrow> int \<Rightarrow> bool" where
  "py_eq_int (PyInt m) n \<longleftrightarrow> m = n"
| "py_eq_int _ n \<longleftrightarrow> False"

fun py_eq_str :: "py_value \<Rightarrow> string \<Rightarrow> bool" where
  "py_eq_str (PyStr s) t \<longleftrightarrow> s = t"
| "py_eq_str _ t \<longleftrightarrow> False"

fun py_key_eq :: "py_value \<times> py_value \<times> py_value \<times> py_value \<Rightarrow> sock_id \<Rightarrow> bool" where
  "py_key_eq (a, b, x, y) (k1, k2, k3, k4) \<longleftrightarrow> py_eq_int a k1 \<and> py_eq_int b k2 \<and> py_eq_int x k3 \<and> py_eq_int y k4"

section \<open>UDP\<close>

definition udp_bind :: "nat \<Rightarrow> string \<times> int \<Rightarrow> unit op" where
  "udp_bind ref address =
     then_op (check_address ref (fst address))
    (then_op (raise_exception ref)
    (bind_op (lift (ip_init_str (fst address))) (\<lambda>a.
     then_op (upd_sock ref (s_local_ip_update (\<lambda>_. ipadd_int a)))
    (bind_op (get_sock ref) (\<lambda>s.
     then_op (if 1 \<le> s_local_port s \<and> s_local_port s < 65535 then fail ref EINVAL else ret ())
    (then_op (upd_sock ref (s_local_port_update (\<lambda>_. snd address)))
    (bind_op (get (\<lambda>c. udp_check_bound (ipadd_int a, snd address) (c_udp c))) (\<lambda>bound.
     then_op (if bound then fail ref EADDRINUSE else ret ())
    (then_op (set_sock_id ref)
    (bind_op (get_sock ref) (\<lambda>s1.
       upd (\<lambda>c. c\<lparr>c_udp := udp_register_bound_socket (ipadd_int a, snd address)
                             (udp_register_socket (s_sock_id s1) ref (c_udp c))\<rparr>))))))))))))"

definition udp_connect :: "(int set \<Rightarrow> int) \<Rightarrow> nat \<Rightarrow> string \<times> int \<Rightarrow> unit op" where
  "udp_connect pick ref address =
     bind_op (lift (ip_init_str (fst address))) (\<lambda>a.
     then_op (upd_sock ref (\<lambda>s. s\<lparr>s_remote_ip := ipadd_int a, s_remote_port := snd address\<rparr>))
    (bind_op (get_sock ref) (\<lambda>s.
       if s_local_port s = 0 then
         bind_op (get (\<lambda>c. pick_ephemeral_udp_port pick (c_udp c))) (\<lambda>r.
         bind_op (lift r) (\<lambda>(port, t).
         then_op (upd (\<lambda>c. c\<lparr>c_udp := t\<rparr>))
        (then_op (upd_sock ref (s_local_port_update (\<lambda>_. port)))
        (bind_op own_ip (\<lambda>ip.
         then_op (upd_sock ref (s_local_ip_update (\<lambda>_. ip)))
        (then_op (set_sock_id ref)
        (bind_op (get_sock ref) (\<lambda>s1.
           upd (\<lambda>c. c\<lparr>c_udp := udp_register_socket (s_sock_id s1) ref (c_udp c)\<rparr>)))))))))
       else
         then_op (set_sock_id ref)
        (bind_op (get_sock ref) (\<lambda>s1.
           upd (\<lambda>c. c\<lparr>c_udp := udp_update_socket (s_local_ip s1, s_local_port s1, 0, 0) (s_sock_id s1) ref (c_udp c)\<rparr>))))))"

text \<open>
  \<^verbatim>\<open>udp_close\<close> passes a tuple with the \<^verbatim>\<open>IPAddress\<close> objects themselves; the keys of the table are tuples of
  integers. The entry that goes is the one whose key compares equal, component by component.
\<close>

definition udp_close :: "nat \<Rightarrow> unit op" where
  "udp_close ref =
     bind_op (get_sock ref) (\<lambda>s.
       let key = (PyIPAddress (s_local_ip s), PyInt (s_local_port s), PyIPAddress (s_remote_ip s), PyInt (s_remote_port s))
       in upd (\<lambda>c. c\<lparr>c_udp := (c_udp c)\<lparr>udp_sockets :=
                 (\<lambda>k. if py_key_eq key k then None else udp_sockets (c_udp c) k)\<rparr>\<rparr>))"

definition udp_send :: "nat \<Rightarrow> bytes \<Rightarrow> unit op" where
  "udp_send ref data =
     bind_op (get_sock ref) (\<lambda>s.
       if s_remote_ip s \<noteq> 0 \<and> s_remote_port s \<noteq> 0 then
         then_op
           (bind_op (get (\<lambda>c. udp_err_msg (c_udp c) (s_sock_id s))) (\<lambda>e.
              case e of None \<Rightarrow> ret () | Some err \<Rightarrow> fail ref err))
           (tx_udp (s_local_ip s) (s_remote_ip s) (s_local_port s) (s_remote_port s) data (s_sock_opt s))
       else fail ref EDESTADDRREQ)"

text \<open>\<^verbatim>\<open>udp_recv\<close> and \<^verbatim>\<open>raw_recv\<close> have the same body.\<close>

definition dgram_recv :: "nat \<Rightarrow> int \<Rightarrow> bool \<Rightarrow> (core \<Rightarrow> core) \<Rightarrow> bytes op" where
  "dgram_recv ref bufsize got_packet meanwhile =
     then_op (upd meanwhile)
    (then_op (if got_packet then ret () else fail ref ETIMEDOUT)
    (bind_op (get_sock ref) (\<lambda>s.
       case s_queue s of
         [] \<Rightarrow> raise IndexError
       | packet # q \<Rightarrow> then_op (upd_sock ref (s_queue_update (\<lambda>_. q))) (ret (py_upto packet bufsize)))))"

definition udp_recv :: "nat \<Rightarrow> int \<Rightarrow> bool \<Rightarrow> (core \<Rightarrow> core) \<Rightarrow> bytes op" where
  "udp_recv = dgram_recv"

section \<open>Raw\<close>

definition rip_id_of :: "sock \<Rightarrow> rip_id" where
  "rip_id_of s = (s_local_ip s, s_proto s, s_remote_ip s)"

definition set_rip_id :: "nat \<Rightarrow> unit op" where
  "set_rip_id ref = upd_sock ref (\<lambda>s. s\<lparr>s_rip_id := rip_id_of s\<rparr>)"

definition raw_bind :: "nat \<Rightarrow> string \<times> int \<Rightarrow> unit op" where
  "raw_bind ref address =
     then_op (check_address ref (fst address))
    (then_op (raise_exception ref)
    (bind_op (lift (ip_init_str (fst address))) (\<lambda>a.
     then_op (upd_sock ref (\<lambda>s. s\<lparr>s_local_ip := ipadd_int a, s_local_port := snd address\<rparr>))
    (then_op (set_rip_id ref)
    (bind_op (get_sock ref) (\<lambda>s.
       upd (\<lambda>c. c\<lparr>c_rip := rip_register_socket (s_rip_id s) ref (c_rip c)\<rparr>)))))))"

definition raw_connect :: "nat \<Rightarrow> string \<times> int \<Rightarrow> unit op" where
  "raw_connect ref address =
     then_op (case ip_init_str (fst address) of
                Inl e \<Rightarrow> set_error ref EADDRNOTAVAIL
              | Inr a \<Rightarrow> upd_sock ref (s_remote_ip_update (\<lambda>_. ipadd_int a)))
    (then_op (raise_exception ref)
    (then_op (upd_sock ref (s_remote_port_update (\<lambda>_. snd address)))
    (bind_op (get_sock ref) (\<lambda>s.
       if s_local_ip s = 0 then
         bind_op own_ip (\<lambda>ip.
         then_op (upd_sock ref (s_local_ip_update (\<lambda>_. ip)))
        (then_op (set_rip_id ref)
        (bind_op (get_sock ref) (\<lambda>s1.
           upd (\<lambda>c. c\<lparr>c_rip := rip_register_socket (s_rip_id s1) ref (c_rip c)\<rparr>)))))
       else
         then_op (set_rip_id ref)
        (bind_op (get_sock ref) (\<lambda>s1.
           upd (\<lambda>c. c\<lparr>c_rip := rip_update_socket (s_local_ip s1, s_proto s1, 0) (s_rip_id s1) ref (c_rip c)\<rparr>)))))))"

definition raw_close :: "nat \<Rightarrow> unit op" where
  "raw_close ref =
     bind_op (get_sock ref) (\<lambda>s. upd (\<lambda>c. c\<lparr>c_rip := rip_remove_socket (s_rip_id s) (c_rip c)\<rparr>))"

definition raw_send :: "nat \<Rightarrow> bytes \<Rightarrow> nat op" where
  "raw_send ref data =
     bind_op (get_sock ref) (\<lambda>s.
       if s_remote_ip s \<noteq> 0 then
         then_op (tx_raw data (s_proto s) (s_local_ip s) (s_remote_ip s)) (ret (length data))
       else then_op (fail ref EDESTADDRREQ) (ret 0))"

definition raw_recv :: "nat \<Rightarrow> int \<Rightarrow> bool \<Rightarrow> (core \<Rightarrow> core) \<Rightarrow> bytes op" where
  "raw_recv = dgram_recv"

section \<open>TCP\<close>

definition tcp_bind :: "nat \<Rightarrow> string \<times> int \<Rightarrow> unit op" where
  "tcp_bind ref address =
     then_op (check_address ref (fst address))
    (then_op (case ip_init_str (fst address) of
                Inl e \<Rightarrow> ret () | Inr a \<Rightarrow> upd_sock ref (s_local_ip_update (\<lambda>_. ipadd_int a)))
    (then_op (raise_exception ref)
    (bind_op (get_sock ref) (\<lambda>s.
     then_op (if 1 \<le> s_local_port s \<and> s_local_port s < 65535 then fail ref EINVAL else ret ())
    (then_op (upd_sock ref (s_local_port_update (\<lambda>_. snd address)))
    (bind_op (get (\<lambda>c. tcp_check_bound (s_local_ip s, snd address) (c_tcp c))) (\<lambda>bound.
     then_op (if bound then fail ref EADDRINUSE else ret ())
    (then_op (set_sock_id ref)
    (bind_op (get_sock ref) (\<lambda>s1.
       upd (\<lambda>c. c\<lparr>c_tcp := tcp_register_bound_socket (s_local_ip s1, s_local_port s1)
                             (tcp_register_socket (s_sock_id s1) ref (c_tcp c))\<rparr>)))))))))))"

definition schedule_core_event :: "event_type \<Rightarrow> nat \<Rightarrow> unit op" where
  "schedule_core_event ty cb = upd (\<lambda>c. c\<lparr>c_events := c_events c @ [TCPEvent ty (Some cb) None]\<rparr>)"

definition new_tcpcb :: "nat \<Rightarrow> sock \<Rightarrow> nat op" where
  "new_tcpcb ref s =
     bind_op (randint 0 0xFFFFFFFF) (\<lambda>iss0.
     bind_op (get (\<lambda>c. (c_next_ref c, c_now_ns c))) (\<lambda>(cb, now).
     then_op (upd (\<lambda>c. c\<lparr>c_next_ref := Suc cb,
        c_tcpcbs := (c_tcpcbs c)(cb \<mapsto> tcpcb_init cb (s_local_ip s) (s_local_port s) (s_remote_ip s) (s_remote_port s)
           ref (s_sock_opt s) iss0 now)\<rparr>)) (ret cb)))"

text \<open>The part of \<^verbatim>\<open>tcp_connect\<close> before it waits, and the whole call.\<close>

definition tcp_connect_start :: "(int set \<Rightarrow> int) \<Rightarrow> nat \<Rightarrow> string \<times> int \<Rightarrow> unit op" where
  "tcp_connect_start pick ref address =
     then_op (case ip_init_str (fst address) of
                Inl e \<Rightarrow> fail ref EADDRNOTAVAIL
              | Inr a \<Rightarrow> upd_sock ref (s_remote_ip_update (\<lambda>_. ipadd_int a)))
    (then_op (upd_sock ref (s_remote_port_update (\<lambda>_. snd address)))
    (bind_op (get_sock ref) (\<lambda>s.
     then_op
       (if s_local_port s = 0 then
          bind_op (get (\<lambda>c. pick_ephemeral_tcp_port pick (c_tcp c))) (\<lambda>r.
          bind_op (lift r) (\<lambda>(port, t).
          then_op (upd (\<lambda>c. c\<lparr>c_tcp := t\<rparr>))
         (then_op (upd_sock ref (s_local_port_update (\<lambda>_. port)))
         (bind_op own_ip (\<lambda>ip.
          then_op (upd_sock ref (s_local_ip_update (\<lambda>_. ip)))
         (then_op (set_sock_id ref)
         (bind_op (get_sock ref) (\<lambda>s1.
            upd (\<lambda>c. c\<lparr>c_tcp := tcp_register_socket (s_sock_id s1) ref (c_tcp c)\<rparr>)))))))))
        else
          then_op (set_sock_id ref)
         (bind_op (get_sock ref) (\<lambda>s1.
            upd (\<lambda>c. c\<lparr>c_tcp := tcp_update_socket (s_local_ip s1, s_local_port s1, 0, 0) (s_sock_id s1) ref (c_tcp c)\<rparr>))))
    (bind_op (get_sock ref) (\<lambda>s2.
     bind_op (new_tcpcb ref s2) (\<lambda>cb.
     then_op (upd (\<lambda>c. c\<lparr>c_tcp := register_tcpcb (s_sock_id s2) cb (c_tcp c)\<rparr>))
       (schedule_core_event CONNECT cb)))))))"

definition tcp_connect :: "(int set \<Rightarrow> int) \<Rightarrow> nat \<Rightarrow> string \<times> int \<Rightarrow> (core \<Rightarrow> core) \<Rightarrow> unit op" where
  "tcp_connect pick ref address meanwhile =
     then_op (tcp_connect_start pick ref address) (then_op (upd meanwhile) (raise_exception ref))"

definition get_tcpcb :: "nat \<Rightarrow> nat option op" where
  "get_tcpcb ref = bind_op (get_sock ref) (\<lambda>s. get (\<lambda>c. tcp_tcpcbs (c_tcp c) (s_sock_id s)))"

definition upd_cb :: "nat \<Rightarrow> (tcpcb \<Rightarrow> tcpcb) \<Rightarrow> unit op" where
  "upd_cb cb f = upd (\<lambda>c. c\<lparr>c_tcpcbs := (c_tcpcbs c)(cb := map_option f (c_tcpcbs c cb))\<rparr>)"

definition get_cb :: "nat \<Rightarrow> tcpcb op" where
  "get_cb cb = bind_op (get (\<lambda>c. c_tcpcbs c cb)) (\<lambda>x. case x of Some t \<Rightarrow> ret t | None \<Rightarrow> raise AttributeError)"

text \<open>\<^verbatim>\<open>tcpcb.snd_buf.enqueue(buffer=mv)\<close>, and the bytes it took.\<close>

definition enqueue_snd_buf :: "nat \<Rightarrow> bytes \<Rightarrow> nat op" where
  "enqueue_snd_buf cb data =
     bind_op (get_cb cb) (\<lambda>t.
       let (l, b) = rrb_enqueue (snd_buf t) data
       in then_op (upd_cb cb (snd_buf_update (\<lambda>_. b))) (ret l))"

text \<open>
  The loop of \<^verbatim>\<open>tcp_send\<close>. Each element of \<open>waits\<close> is what happens during one wait; the call has not
  returned when they are used up. Note that \<^verbatim>\<open>mv\<close> is the whole of the data in every round.
\<close>

fun tcp_send_loop :: "nat \<Rightarrow> nat \<Rightarrow> bytes \<Rightarrow> int \<Rightarrow> (core \<Rightarrow> core) list \<Rightarrow> unit op" where
  "tcp_send_loop ref cb mv dlen waits =
     (if dlen > 0 then
        bind_op (enqueue_snd_buf cb mv) (\<lambda>l.
        then_op (schedule_core_event SEND cb)
          (if dlen - int l > 0 then
             (case waits of
                [] \<Rightarrow> (\<lambda>c. None)
              | m # ms \<Rightarrow>
                  then_op (upd m) (then_op (raise_exception ref) (tcp_send_loop ref cb mv (dlen - int l) ms)))
           else ret ()))
      else ret ())"

declare tcp_send_loop.simps [simp del]

definition tcp_send :: "nat \<Rightarrow> bytes \<Rightarrow> (core \<Rightarrow> core) list \<Rightarrow> nat op" where
  "tcp_send ref data waits =
     then_op (raise_exception ref)
    (bind_op (get_tcpcb ref) (\<lambda>t.
       case t of
         None \<Rightarrow> then_op (fail ref EPIPE) (raise AttributeError)
       | Some cb \<Rightarrow> then_op (tcp_send_loop ref cb data (int (length data)) waits) (ret (length data))))"

definition tcp_recv :: "nat \<Rightarrow> nat \<Rightarrow> bool \<Rightarrow> (core \<Rightarrow> core) \<Rightarrow> bytes list op" where
  "tcp_recv ref bufsize got_data meanwhile =
     then_op (raise_exception ref)
    (bind_op (get_tcpcb ref) (\<lambda>t.
       case t of
         None \<Rightarrow> then_op (fail ref ENOTCONN) (raise AttributeError)
       | Some cb \<Rightarrow>
           bind_op (get_cb cb) (\<lambda>x.
             if state x \<in> NON_RECEIVABLE_STATES then ret []
             else
               then_op
                 (if rb_is_empty (rcv_buf x) then
                    then_op (upd meanwhile) (if got_data then ret () else fail ref ETIMEDOUT)
                  else ret ())
                 (bind_op (get_cb cb) (\<lambda>y.
                    let (l, b) = rb_dequeue (rcv_buf y) bufsize
                    in then_op (upd_cb cb (rcv_buf_update (\<lambda>_. b))) (ret l))))))"

definition socket_recv :: "nat \<Rightarrow> nat \<Rightarrow> bool \<Rightarrow> (core \<Rightarrow> core) \<Rightarrow> bytes op" where
  "socket_recv ref bufsize got_data meanwhile =
     bind_op (tcp_recv ref bufsize got_data meanwhile) (\<lambda>l. ret (concat l))"

definition tcp_close :: "nat \<Rightarrow> unit op" where
  "tcp_close ref =
     bind_op (get_tcpcb ref) (\<lambda>t.
       case t of
         None \<Rightarrow> bind_op (get_sock ref) (\<lambda>s. upd (\<lambda>c. c\<lparr>c_tcp := tcp_remove_socket (s_sock_id s) (c_tcp c)\<rparr>))
       | Some cb \<Rightarrow> then_op (upd_cb cb (close_requested_update (\<lambda>_. True))) (schedule_core_event SEND cb))"

definition tcp_shutdown :: "nat \<Rightarrow> unit op" where
  "tcp_shutdown ref =
     bind_op (get_tcpcb ref) (\<lambda>t.
       case t of
         None \<Rightarrow> then_op (fail ref ENOTCONN) (raise AttributeError)
       | Some cb \<Rightarrow> then_op (upd_cb cb (shutdown_requested_update (\<lambda>_. True))) (schedule_core_event SEND cb))"

section \<open>The TCP event thread\<close>

text \<open>
  A handler of theory \<open>Tcp_Fsm\<close> runs on a control block beside the parts of the core it reaches. Its
  segments are handed to \<^verbatim>\<open>core.tx_tcp\<close> when it has ended; the source sends them while the handler
  runs, which differs only in the numbers of the timer tasks. An exception of the handler ends the thread; what the
  handler has changed and sent before stays.
\<close>

definition fsm_of :: "tcpcb \<Rightarrow> core \<Rightarrow> fsm" where
  "fsm_of cb c =
     tcpcb.extend cb (fsm.fields (c_so_error c) (c_now_ns c) (c_tcp c) (c_timer c) (c_events c) [] (c_notified c))"

definition core_of :: "fsm \<Rightarrow> core \<Rightarrow> core" where
  "core_of w c =
     c\<lparr>c_tcpcbs := (c_tcpcbs c)(cb_ref w \<mapsto> tcpcb.truncate w), c_so_error := so_error w, c_tcp := tcp_tbl w,
       c_timer := timer w, c_events := events w, c_notified := notified w\<rparr>"

definition event_handler :: "tcp_event \<Rightarrow> fsm \<Rightarrow> outcome option" where
  "event_handler ev w =
     (case ev_type ev of
        CONNECT \<Rightarrow> Some (Inr (tcp_fsm_connect w))
      | RX_SEGMENT \<Rightarrow> (case ev_packet ev of Some p \<Rightarrow> Some (rx p w) | None \<Rightarrow> Some (Inl (AttributeError, w)))
      | SEND \<Rightarrow> tx w
      | RTX \<Rightarrow> rtx w)"

definition handle_event :: "tcp_event \<Rightarrow> unit op" where
  "handle_event ev c =
     (case ev_tcpcb ev of
        None \<Rightarrow> Some (Inl AttributeError, c)
      | Some ref \<Rightarrow>
          (case c_tcpcbs c ref of
             None \<Rightarrow> Some (Inl AttributeError, c)
           | Some cb \<Rightarrow>
               (case event_handler ev (fsm_of cb c) of
                  None \<Rightarrow> None
                | Some (Inl (e, w)) \<Rightarrow> then_op (for_op (tx_log w) core_tx_tcp) (raise e) (core_of w c)
                | Some (Inr w) \<Rightarrow> for_op (tx_log w) core_tx_tcp (core_of w c))))"

definition MAX_EVENTS :: nat where "MAX_EVENTS = 5000"

definition pop_event :: "tcp_event op" where
  "pop_event = (\<lambda>c. case c_events c of [] \<Rightarrow> Some (Inl IndexError, c) | ev # q \<Rightarrow> Some (Inr ev, c\<lparr>c_events := q\<rparr>))"

fun handle_events :: "nat \<Rightarrow> unit op" where
  "handle_events 0 = ret ()"
| "handle_events (Suc n) = then_op (bind_op pop_event handle_event) (handle_events n)"

text \<open>One pass of \<^verbatim>\<open>_tcp_events_loop\<close> when the queue is not empty.\<close>

definition tcp_events_pass :: "unit op" where
  "tcp_events_pass = bind_op (get (\<lambda>c. min MAX_EVENTS (length (c_events c)))) handle_events"

section \<open>The core\<close>

definition core_init :: "int \<Rightarrow> int \<Rightarrow> int \<Rightarrow> int \<Rightarrow> int \<Rightarrow> (nat \<Rightarrow> int) \<Rightarrow> core" where
  "core_init router network msk mac now rand =
     \<lparr>c_udp = udp_table_init, c_tcp = tcp_table_init, c_rip = \<lparr>rip_sockets = Map.empty\<rparr>,
      c_arp_cache = Map.empty, c_arp_wait_list = {}, c_arp_wait_prob_list = {}, c_fragments_cache = Map.empty,
      c_pending = Map.empty, c_timer = timer_init, c_events = [], c_tx_ring = [], c_conflict_ips = [],
      c_unicast_ip = None, c_router = router, c_network = network, c_mask = msk, c_unicast_mac = mac,
      c_rx_ip_enabled = False, c_socks = Map.empty, c_tcpcbs = Map.empty, c_so_error = (\<lambda>_. NoErr),
      c_notified = [], c_now_ns = now, c_random = rand, c_drawn = 0, c_next_ref = 0\<rparr>"

definition send_arp_prob :: "string \<Rightarrow> unit op" where
  "send_arp_prob ipaddr =
     bind_op (get c_unicast_mac) (\<lambda>own.
     bind_op (lift (ip_init_str ipaddr)) (\<lambda>a. tx_arp own 0 0 (ipadd_int a) ARP_OP_REQUEST True))"

text \<open>\<^verbatim>\<open>ipaddr in self.conflict_ips\<close>, where \<^verbatim>\<open>ipaddr\<close> is a string and the list holds \<^verbatim>\<open>IPAddress\<close> objects.\<close>

definition py_in_conflict_ips :: "string \<Rightarrow> core \<Rightarrow> bool" where
  "py_in_conflict_ips ipaddr c \<longleftrightarrow> list_ex (\<lambda>a. py_eq_str (PyIPAddress a) ipaddr) (c_conflict_ips c)"

text \<open>
  \<^verbatim>\<open>arp_prob_cond.wait()\<close>: the call goes on when the condition has been notified since. Where what happens
  meanwhile does not notify it, the call has not returned.
\<close>

definition notified_since :: "cond \<Rightarrow> core \<Rightarrow> core \<Rightarrow> bool" where
  "notified_since e c c' \<longleftrightarrow> e \<in> set (drop (length (c_notified c)) (c_notified c'))"

definition wait_arp_prob :: "(core \<Rightarrow> core) \<Rightarrow> unit op" where
  "wait_arp_prob meanwhile c =
     (if notified_since ArpProbCond c (meanwhile c) then Some (Inr (), meanwhile c) else None)"

definition acquire_ipaddr :: "string \<Rightarrow> (core \<Rightarrow> core) \<Rightarrow> unit op" where
  "acquire_ipaddr ipaddr meanwhile =
     then_op (send_arp_prob ipaddr)
    (then_op (wait_arp_prob meanwhile)
    (bind_op (get (py_in_conflict_ips ipaddr)) (\<lambda>conflict.
       if conflict then raise SystemExit
       else bind_op (lift (ip_init_str ipaddr)) (\<lambda>a.
         upd (\<lambda>c. c\<lparr>c_unicast_ip := Some (ipadd_int a), c_rx_ip_enabled := True\<rparr>)))))"

end
