(* ===== verification/Tcp_Accept.thy ===== *)
theory Tcp_Accept
  imports Tcp_Fsm
begin

text \<open>
  The tests of an incoming segment: which acknowledgments and which segments the state machine
  accepts, and how that compares with the acceptability table of RFC 9293.
\<close>

section \<open>Definitions\<close>

text \<open>The sequence numbers a segment occupies, and the receive window \<open>[RCV.NXT, RCV.ADV)\<close>.\<close>

definition seg_len :: "tcp_seg \<Rightarrow> int" where
  "seg_len p = sg_dlen p + of_bool (sg_fin p) + of_bool (sg_syn p)"

definition in_rcv_window :: "fsm \<Rightarrow> int \<Rightarrow> bool" where
  "in_rcv_window w x \<longleftrightarrow> seq_diff x (rcv_nxt w) < seq_diff (rcv_adv w) (rcv_nxt w)"

definition rcv_seqs_ok :: "fsm \<Rightarrow> bool" where
  "rcv_seqs_ok w \<longleftrightarrow> seq_num (rcv_nxt w) \<and> seq_num (rcv_adv w) \<and>
     0 < seq_diff (rcv_adv w) (rcv_nxt w) \<and> seq_diff (rcv_adv w) (rcv_nxt w) < 2147483648"

text \<open>
  The acceptability table of RFC 9293 (section 3.10.7.4): the first or the last sequence number of the segment lies in
  the window. The RFC's window ends at RCV.NXT + RCV.WND. The source tests against RCV.ADV, the highest right edge
  announced so far, and takes RCV.WND only to tell a closed window from an open one; the table is stated over that window.
\<close>

definition rfc_acceptable :: "tcp_seg \<Rightarrow> fsm \<Rightarrow> bool" where
  "rfc_acceptable p w =
     (if seg_len p = 0 then (if rcv_wnd w = 0 then sg_seq p = rcv_nxt w else in_rcv_window w (sg_seq p))
      else rcv_wnd w \<noteq> 0 \<and>
        (in_rcv_window w (sg_seq p) \<or> in_rcv_window w (sg_seq p + (seg_len p - 1))))"

text \<open>
  The segment holds every number of an open window and numbers on both sides of it: the numbers before RCV.NXT and those
  of the window together are fewer than the numbers of the segment.
\<close>

definition covers_window :: "tcp_seg \<Rightarrow> fsm \<Rightarrow> bool" where
  "covers_window p w \<longleftrightarrow> rcv_wnd w \<noteq> 0 \<and>
     seq_diff (rcv_nxt w) (sg_seq p) + seq_diff (rcv_adv w) (rcv_nxt w) < seg_len p"

section \<open>Lemmas\<close>

lemma seq_geq_diff: "seq_geq a b \<longleftrightarrow> seq_diff a b < 2147483648"
  by (auto simp: seq_geq_def seq_gt_diff)

lemma seq_leq_diff:
  "seq_num a \<Longrightarrow> seq_num b \<Longrightarrow> seq_leq a b \<longleftrightarrow> seq_diff a b = 0 \<or> 2147483648 \<le> seq_diff a b"
  by (auto simp: seq_leq_def seq_lt_diff seq_diff_zero_iff)

lemma seq_diff_shift: "seq_diff (a + i) b = (seq_diff a b + i) mod 4294967296"
  by (simp add: seq_diff_mod mod_simps algebra_simps)

lemma mod_wrap:
  "0 \<le> (a::int) \<Longrightarrow> a < 4294967296 \<Longrightarrow> 0 \<le> i \<Longrightarrow> i < 2147483648 \<Longrightarrow>
     (a + i) mod 4294967296 = (if a + i < 4294967296 then a + i else a + i - 4294967296)"
proof (cases "a + i < 4294967296")
  case True
  assume "0 \<le> a" "0 \<le> i"
  then show ?thesis using True by (simp add: mod_pos_pos_trivial)
next
  case False
  assume a: "a < 4294967296" "i < 2147483648"
  have "(a + i) mod 4294967296 = (a + i - 4294967296 + 4294967296) mod 4294967296" by simp
  also have "\<dots> = (a + i - 4294967296) mod 4294967296" by (simp only: mod_add_self2)
  also have "\<dots> = a + i - 4294967296" using a False by (intro mod_pos_pos_trivial) linarith+
  finally show ?thesis using False by simp
qed

lemma last_seq_len:
  "0 \<le> sg_dlen p \<Longrightarrow> 0 < seg_len p \<Longrightarrow> last_seq p = sg_seq p + (seg_len p - 1)"
  by (auto simp: last_seq_def seg_len_def)

text \<open>The segment holds the next expected number: it starts there or reaches past it.\<close>

lemma in_order_iff:
  assumes "seq_num s" "seq_num nxt" "0 < len" "len \<le> 2147483648"
  shows "seq_leq s nxt \<and> seq_geq (s + (len - 1)) nxt \<longleftrightarrow>
      seq_diff s nxt = 0 \<or> 4294967296 < seq_diff s nxt + len"
    and "(\<exists>i. 0 \<le> i \<and> i < len \<and> seq_diff (s + i) nxt = 0) \<longleftrightarrow>
      seq_diff s nxt = 0 \<or> 4294967296 < seq_diff s nxt + len"
proof -
  let ?a = "seq_diff s nxt"
  have a: "0 \<le> ?a" "?a < 4294967296" by simp_all
  have w: "seq_diff (s + i) nxt = (if ?a + i < 4294967296 then ?a + i else ?a + i - 4294967296)"
    if "0 \<le> i" "i < len" for i
    unfolding seq_diff_shift using that assms(4) a by (intro mod_wrap) linarith+
  show "seq_leq s nxt \<and> seq_geq (s + (len - 1)) nxt \<longleftrightarrow> ?a = 0 \<or> 4294967296 < ?a + len"
    unfolding seq_leq_diff [OF assms(1,2)] seq_geq_diff using w [of "len - 1"] assms(3,4) a
    by (auto split: if_splits simp del: seq_diff_range)
  show "(\<exists>i. 0 \<le> i \<and> i < len \<and> seq_diff (s + i) nxt = 0) \<longleftrightarrow> ?a = 0 \<or> 4294967296 < ?a + len"
  proof
    assume "\<exists>i. 0 \<le> i \<and> i < len \<and> seq_diff (s + i) nxt = 0"
    then obtain i where "0 \<le> i" "i < len" "seq_diff (s + i) nxt = 0" by blast
    then show "?a = 0 \<or> 4294967296 < ?a + len" using w [of i] a by (auto split: if_splits simp del: seq_diff_range)
  next
    assume h: "?a = 0 \<or> 4294967296 < ?a + len"
    show "\<exists>i. 0 \<le> i \<and> i < len \<and> seq_diff (s + i) nxt = 0"
    proof (cases "?a = 0")
      case True
      then show ?thesis using assms(3) by (intro exI [of _ 0]) simp
    next
      case False
      then have "seq_diff (s + (4294967296 - ?a)) nxt = 0" using w [of "4294967296 - ?a"] h a by simp
      then show ?thesis using False h a by (intro exI [of _ "4294967296 - ?a"]) (simp del: seq_diff_range)
    qed
  qed
qed

lemma overlap_iff:
  assumes "seq_num s" "seq_num nxt" "0 < len" "len \<le> 2147483648" "0 < W" "W < 2147483648"
  shows "(\<exists>i. 0 \<le> i \<and> i < len \<and> seq_diff (s + i) nxt < W) \<longleftrightarrow>
      seq_diff s nxt < W \<or> 4294967296 < seq_diff s nxt + len"
proof
  let ?a = "seq_diff s nxt"
  have a: "0 \<le> ?a" "?a < 4294967296" by simp_all
  assume "\<exists>i. 0 \<le> i \<and> i < len \<and> seq_diff (s + i) nxt < W"
  then obtain i where i: "0 \<le> i" "i < len" "seq_diff (s + i) nxt < W" by blast
  have "seq_diff (s + i) nxt = (if ?a + i < 4294967296 then ?a + i else ?a + i - 4294967296)"
    unfolding seq_diff_shift using i assms(4) a by (intro mod_wrap) linarith+
  then show "?a < W \<or> 4294967296 < ?a + len" using i a by (auto split: if_splits simp del: seq_diff_range)
next
  assume h: "seq_diff s nxt < W \<or> 4294967296 < seq_diff s nxt + len"
  then consider "seq_diff s nxt < W" | "4294967296 < seq_diff s nxt + len" by blast
  then show "\<exists>i. 0 \<le> i \<and> i < len \<and> seq_diff (s + i) nxt < W"
  proof cases
    case 1
    then show ?thesis using assms(3) by (intro exI [of _ 0]) simp
  next
    case 2
    then show ?thesis using in_order_iff(2) [OF assms(1-4)] assms(5) by auto
  qed
qed

text \<open>A segment that overlaps the window has an end in it, or covers it.\<close>

lemma seq_diff_swap: "seq_diff b a = (if seq_diff a b = 0 then 0 else 4294967296 - seq_diff a b)"
proof -
  have "seq_diff b a = (- (a - b)) mod 4294967296" by (simp add: seq_diff_mod)
  then show ?thesis unfolding zmod_zminus1_eq_if by (simp add: seq_diff_mod)
qed

lemma overlap_ends:
  assumes "0 < len" "len \<le> 2147483648" "0 < W" "W < 2147483648"
  shows "seq_diff s nxt < W \<or> 4294967296 < seq_diff s nxt + len \<longleftrightarrow>
      seq_diff s nxt < W \<or> seq_diff (s + (len - 1)) nxt < W \<or> seq_diff nxt s + W < len"
proof -
  let ?a = "seq_diff s nxt"
  have a: "0 \<le> ?a" "?a < 4294967296" by simp_all
  have "seq_diff (s + (len - 1)) nxt =
      (if ?a + (len - 1) < 4294967296 then ?a + (len - 1) else ?a + (len - 1) - 4294967296)"
    unfolding seq_diff_shift using assms(1,2) a by (intro mod_wrap) linarith+
  then show ?thesis
    unfolding seq_diff_swap [of nxt s] using a assms by (auto split: if_splits simp del: seq_diff_range)
qed

lemma out_of_order_iff:
  assumes "seq_num s" "seq_num nxt" "0 < seq_diff adv nxt" "seq_diff adv nxt < 2147483648"
  shows "seq_gt s nxt \<and> seq_lt s adv \<longleftrightarrow> 0 < seq_diff s nxt \<and> seq_diff s nxt < seq_diff adv nxt"
proof -
  have z: "s = nxt \<longleftrightarrow> seq_diff s nxt = 0" using assms seq_diff_zero_iff by blast
  note base = seq_diff_base [of s adv nxt]
  show ?thesis
    unfolding seq_gt_diff seq_lt_diff z
    using base assms(3,4) seq_diff_range [of s nxt] seq_diff_range [of adv nxt]
    by (auto split: if_splits simp del: seq_diff_range)
qed

section \<open>Properties\<close>

text \<open>C22. \<^verbatim>\<open>_h_rx_ack\<close> accepts an acknowledgment exactly when \<open>SND.UNA < SEG.ACK \<le> SND.NXT\<close> on the
  circle of sequence numbers (with less than half of it in flight), and then moves SND.UNA to
  it and returns how many numbers were acknowledged; otherwise it returns 0 and changes
  nothing.\<close>

theorem h_rx_ack_window:
  assumes "seq_num (sg_ack_seq p)" "seq_num (snd_una w)" "seq_num (snd_nxt w)"
    and "seq_diff (snd_nxt w) (snd_una w) < 2147483648"
  shows "h_rx_ack p w =
    (if 0 < seq_diff (sg_ack_seq p) (snd_una w) \<and>
        seq_diff (sg_ack_seq p) (snd_una w) \<le> seq_diff (snd_nxt w) (snd_una w)
     then (seq_diff (sg_ack_seq p) (snd_una w), w\<lparr>snd_una := sg_ack_seq p\<rparr>)
     else (0, w))"
  unfolding h_rx_ack_def seq_window_open [OF assms, symmetric] by simp

theorem h_rx_ack_window_witness:
  "h_rx_ack (seg_example 100 5) ((conn_example 4294967290)\<lparr>snd_una := 4294967291, snd_nxt := 20\<rparr>) =
     (10, (conn_example 4294967290)\<lparr>snd_una := 5, snd_nxt := 20\<rparr>)"
proof -
  let ?w = "(conn_example 4294967290)\<lparr>snd_una := 4294967291, snd_nxt := 20\<rparr>"
  have d: "seq_diff 5 4294967291 = 10" "seq_diff 20 4294967291 = 25" by (simp_all add: seq_diff_mod)
  show ?thesis
    using h_rx_ack_window [of "seg_example 100 5" ?w] d by (simp add: seg_example_def seq_num_def)
qed

text \<open>C23. With the segment's length counting SYN and FIN, and the window from RCV.NXT up to RCV.ADV, the sequence
  check accepts (to handle or to buffer) an empty segment at RCV.NXT when the window is closed or anywhere in an open
  window, and a longer one exactly when the window is open and one of its sequence numbers, not only the first or the
  last, lies inside it. So it accepts what the table of RFC 9293 accepts over this window and, beyond the table, the
  segments that cover the whole window and reach past both ends of it. A longer segment is handled at once exactly
  when it holds the next expected number.\<close>

theorem h_rx_seq_acceptable:
  assumes "seq_num (sg_seq p)" "rcv_seqs_ok w" "0 \<le> sg_dlen p" "seg_len p \<le> 2147483648"
  shows "(fst (h_rx_seq p w) \<noteq> TCP_DROP \<longleftrightarrow>
      (if seg_len p = 0
       then (if rcv_wnd w = 0 then sg_seq p = rcv_nxt w else in_rcv_window w (sg_seq p))
       else rcv_wnd w \<noteq> 0 \<and> (\<exists>i. 0 \<le> i \<and> i < seg_len p \<and> in_rcv_window w (sg_seq p + i)))) \<and>
    (fst (h_rx_seq p w) \<noteq> TCP_DROP \<longleftrightarrow> rfc_acceptable p w \<or> covers_window p w) \<and>
    (seg_len p \<noteq> 0 \<and> rcv_wnd w \<noteq> 0 \<longrightarrow>
      (fst (h_rx_seq p w) = TCP_ACCEPT_AND_HANDLE \<longleftrightarrow>
        (\<exists>i. 0 \<le> i \<and> i < seg_len p \<and> seq_diff (sg_seq p + i) (rcv_nxt w) = 0)))"
proof -
  have r: "seq_num (rcv_nxt w)" "0 < seq_diff (rcv_adv w) (rcv_nxt w)" "seq_diff (rcv_adv w) (rcv_nxt w) < 2147483648"
    using assms(2) by (simp_all add: rcv_seqs_ok_def)
  have l0: "0 \<le> seg_len p" using assms(3) by (simp add: seg_len_def)
  have idx: "h_rx_seq p w =
      (if seg_len p = 0 then (if rcv_wnd w = 0 then h_rx_seq_zlen_zwnd p w else h_rx_seq_zlen p w)
       else (if rcv_wnd w = 0 then h_rx_seq_zwnd p w else h_rx_seq_normal p w))"
    by (simp add: h_rx_seq_def rcv_seq_map_def seg_len_def or_nat_def numeral_3_eq_3 numeral_2_eq_2)
  show ?thesis
  proof (cases "seg_len p = 0")
    case True
    then have "\<not> covers_window p w"
      using r(2) seq_diff_range(1) [of "rcv_nxt w" "sg_seq p"]
      by (simp add: covers_window_def del: seq_diff_range)
    then show ?thesis
      using True seq_window_closed [OF assms(1) r(1,3,2)]
      by (simp add: idx h_rx_seq_zlen_zwnd_def h_rx_seq_zlen_def in_rcv_window_def rfc_acceptable_def)
  next
    case False
    then have lp: "0 < seg_len p" using l0 by simp
    note io = in_order_iff [OF assms(1) r(1) lp assms(4)]
    note ov = overlap_iff [OF assms(1) r(1) lp assms(4) r(2,3)]
    note en = overlap_ends [OF lp assms(4) r(2,3), of "sg_seq p"]
    note oo = out_of_order_iff [OF assms(1) r]
    have n: "fst (h_rx_seq_normal p w) =
      (if seq_diff (sg_seq p) (rcv_nxt w) = 0 \<or> 4294967296 < seq_diff (sg_seq p) (rcv_nxt w) + seg_len p
       then TCP_ACCEPT_AND_HANDLE
       else if seq_diff (sg_seq p) (rcv_nxt w) < seq_diff (rcv_adv w) (rcv_nxt w) then TCP_ACCEPT_BUT_BUFFER
       else TCP_DROP)"
      unfolding h_rx_seq_normal_def Let_def last_seq_len [OF assms(3) lp]
      using io(1) oo seq_diff_range(1) [of "sg_seq p" "rcv_nxt w"]
      by (simp del: seq_diff_range)
    show ?thesis
      using False n io(2) ov en r(2)
      by (auto simp: idx in_rcv_window_def h_rx_seq_zwnd_def rfc_acceptable_def covers_window_def)
  qed
qed

theorem h_rx_seq_acceptable_witness:
  "let w = (conn_example 0)\<lparr>rcv_nxt := 100, rcv_adv := 1100, rcv_wnd := 1000\<rparr>;
       p = (seg_example 95 1)\<lparr>sg_dlen := 1100\<rparr>
   in rcv_seqs_ok w \<and> \<not> rfc_acceptable p w \<and> fst (h_rx_seq p w) = TCP_ACCEPT_AND_HANDLE"
proof -
  let ?w = "(conn_example 0)\<lparr>rcv_nxt := 100, rcv_adv := 1100, rcv_wnd := 1000\<rparr>"
  let ?p = "(seg_example 95 1)\<lparr>sg_dlen := 1100\<rparr>"
  have ok: "rcv_seqs_ok ?w" by (simp add: rcv_seqs_ok_def seq_num_def seq_diff_mod)
  have p: "seq_num (sg_seq ?p)" "0 \<le> sg_dlen ?p" "seg_len ?p = 1100"
    by (simp_all add: seg_example_def seq_num_def seg_len_def sg_fin_def sg_syn_def)
  have "seq_diff (sg_seq ?p + 5) (rcv_nxt ?w) = 0" by (simp add: seg_example_def)
  moreover have "\<not> rfc_acceptable ?p ?w"
    using p(3) by (simp add: rfc_acceptable_def in_rcv_window_def seg_example_def seq_diff_mod)
  ultimately have "\<not> rfc_acceptable ?p ?w"
    "\<exists>i. 0 \<le> i \<and> i < seg_len ?p \<and> seq_diff (sg_seq ?p + i) (rcv_nxt ?w) = 0"
    using p(3) by (blast, intro exI [of _ 5]) simp
  then show ?thesis
    using h_rx_seq_acceptable [OF p(1) ok p(2)] ok p(3) unfolding Let_def by simp
qed

end
