(* ===== verification/Tcp_Frame.thy ===== *)
theory Tcp_Frame
  imports Tcp_Accept
begin

text \<open>
  What the helpers of the state machine leave alone. Each locale is the contract of an operation
  that does not assign a group of fields; each helper is an instance of those it meets, which
  makes the contracts rewrite rules for the proofs about the handlers.
\<close>

section \<open>The contracts\<close>

text \<open>An operation that leaves the sequence variables, the buffers and the requests alone.\<close>

locale data_frame =
  fixes h :: "fsm \<Rightarrow> fsm"
  assumes data_frame_fields [simp]:
    "cb_ref (h w) = cb_ref w" "so (h w) = so w" "lip (h w) = lip w" "lp (h w) = lp w"
    "rip (h w) = rip w" "rp (h w) = rp w" "rcv_buf (h w) = rcv_buf w" "snd_buf (h w) = snd_buf w"
    "tcp_data_start (h w) = tcp_data_start w" "tcp_data_len (h w) = tcp_data_len w"
    "snd_una (h w) = snd_una w" "snd_nxt (h w) = snd_nxt w" "snd_wnd (h w) = snd_wnd w"
    "snd_max (h w) = snd_max w" "rcv_nxt (h w) = rcv_nxt w" "rcv_wnd (h w) = rcv_wnd w"
    "rcv_adv (h w) = rcv_adv w" "iss (h w) = iss w" "irs (h w) = irs w"
    "remote_mss (h w) = remote_mss w" "sent_fin (h w) = sent_fin w"
    "close_requested (h w) = close_requested w" "shutdown_requested (h w) = shutdown_requested w"
    "sock_opt (h w) = sock_opt w" "now_ns (h w) = now_ns w"

text \<open>It keeps the state of the connection.\<close>

locale ctl_frame =
  fixes h :: "fsm \<Rightarrow> fsm"
  assumes ctl_frame_fields [simp]:
    "state (h w) = state w" "ack_now (h w) = ack_now w"

text \<open>It keeps the timers and the timeout.\<close>

locale timer_frame =
  fixes h :: "fsm \<Rightarrow> fsm"
  assumes timer_frame_fields [simp]:
    "rtx_timer (h w) = rtx_timer w" "time_wait_timer (h w) = time_wait_timer w"
    "timer (h w) = timer w" "rto (h w) = rto w" "rtt (h w) = rtt w"

text \<open>It sends no segment and schedules no event.\<close>

locale out_frame =
  fixes h :: "fsm \<Rightarrow> fsm"
  assumes out_frame_fields [simp]:
    "tx_log (h w) = tx_log w" "events (h w) = events w"

text \<open>It notifies nobody and leaves the tables alone.\<close>

locale env_frame =
  fixes h :: "fsm \<Rightarrow> fsm"
  assumes env_frame_fields [simp]:
    "notified (h w) = notified w" "so_error (h w) = so_error w" "tcp_tbl (h w) = tcp_tbl w"

section \<open>The helpers\<close>

interpretation schedule_rtx_d: data_frame schedule_rtx
  by unfold_locales (simp_all add: schedule_rtx_def split_def Let_def)

interpretation schedule_rtx_c: ctl_frame schedule_rtx
  by unfold_locales (simp_all add: schedule_rtx_def split_def Let_def)

interpretation schedule_rtx_o: out_frame schedule_rtx
  by unfold_locales (simp_all add: schedule_rtx_def split_def Let_def)

interpretation schedule_rtx_e: env_frame schedule_rtx
  by unfold_locales (simp_all add: schedule_rtx_def split_def Let_def)

interpretation start_rtx_timer_d: data_frame start_rtx_timer
  by unfold_locales (simp_all add: start_rtx_timer_def)

interpretation start_rtx_timer_c: ctl_frame start_rtx_timer
  by unfold_locales (simp_all add: start_rtx_timer_def)

interpretation start_rtx_timer_o: out_frame start_rtx_timer
  by unfold_locales (simp_all add: start_rtx_timer_def)

interpretation start_rtx_timer_e: env_frame start_rtx_timer
  by unfold_locales (simp_all add: start_rtx_timer_def)

interpretation restart_rtx_timer_d: data_frame restart_rtx_timer
  by unfold_locales (simp_all add: restart_rtx_timer_def split: option.splits)

interpretation restart_rtx_timer_c: ctl_frame restart_rtx_timer
  by unfold_locales (simp_all add: restart_rtx_timer_def split: option.splits)

interpretation restart_rtx_timer_o: out_frame restart_rtx_timer
  by unfold_locales (simp_all add: restart_rtx_timer_def split: option.splits)

interpretation restart_rtx_timer_e: env_frame restart_rtx_timer
  by unfold_locales (simp_all add: restart_rtx_timer_def split: option.splits)

interpretation stop_rtx_timer_d: data_frame stop_rtx_timer
  by unfold_locales (simp_all add: stop_rtx_timer_def split: option.splits)

interpretation stop_rtx_timer_c: ctl_frame stop_rtx_timer
  by unfold_locales (simp_all add: stop_rtx_timer_def split: option.splits)

interpretation stop_rtx_timer_o: out_frame stop_rtx_timer
  by unfold_locales (simp_all add: stop_rtx_timer_def split: option.splits)

interpretation stop_rtx_timer_e: env_frame stop_rtx_timer
  by unfold_locales (simp_all add: stop_rtx_timer_def split: option.splits)

interpretation start_time_wait_timer_d: data_frame start_time_wait_timer
  by unfold_locales (simp_all add: start_time_wait_timer_def split_def Let_def)

interpretation start_time_wait_timer_c: ctl_frame start_time_wait_timer
  by unfold_locales (simp_all add: start_time_wait_timer_def split_def Let_def)

interpretation start_time_wait_timer_o: out_frame start_time_wait_timer
  by unfold_locales (simp_all add: start_time_wait_timer_def split_def Let_def)

interpretation start_time_wait_timer_e: env_frame start_time_wait_timer
  by unfold_locales (simp_all add: start_time_wait_timer_def split_def Let_def)

interpretation stop_time_wait_timer_d: data_frame stop_time_wait_timer
  by unfold_locales (simp_all add: stop_time_wait_timer_def split: option.splits)

interpretation stop_time_wait_timer_c: ctl_frame stop_time_wait_timer
  by unfold_locales (simp_all add: stop_time_wait_timer_def split: option.splits)

interpretation stop_time_wait_timer_o: out_frame stop_time_wait_timer
  by unfold_locales (simp_all add: stop_time_wait_timer_def split: option.splits)

interpretation stop_time_wait_timer_e: env_frame stop_time_wait_timer
  by unfold_locales (simp_all add: stop_time_wait_timer_def split: option.splits)

interpretation stop_all_timers_d: data_frame stop_all_timers
  by unfold_locales (simp_all add: stop_all_timers_def)

interpretation stop_all_timers_c: ctl_frame stop_all_timers
  by unfold_locales (simp_all add: stop_all_timers_def)

interpretation stop_all_timers_o: out_frame stop_all_timers
  by unfold_locales (simp_all add: stop_all_timers_def)

interpretation stop_all_timers_e: env_frame stop_all_timers
  by unfold_locales (simp_all add: stop_all_timers_def)

interpretation set_new_rto_d: data_frame "set_new_rto r" for r
  by unfold_locales (simp_all add: set_new_rto_def set_initial_rto_def Let_def split: option.splits)

interpretation set_new_rto_c: ctl_frame "set_new_rto r" for r
  by unfold_locales (simp_all add: set_new_rto_def set_initial_rto_def Let_def split: option.splits)

interpretation set_new_rto_o: out_frame "set_new_rto r" for r
  by unfold_locales (simp_all add: set_new_rto_def set_initial_rto_def Let_def split: option.splits)

interpretation set_new_rto_e: env_frame "set_new_rto r" for r
  by unfold_locales (simp_all add: set_new_rto_def set_initial_rto_def Let_def split: option.splits)

interpretation rtt_probe_d: data_frame rtt_probe
  by unfold_locales (simp_all add: rtt_probe_def)

interpretation rtt_probe_c: ctl_frame rtt_probe
  by unfold_locales (simp_all add: rtt_probe_def)

interpretation rtt_probe_o: out_frame rtt_probe
  by unfold_locales (simp_all add: rtt_probe_def)

interpretation rtt_probe_e: env_frame rtt_probe
  by unfold_locales (simp_all add: rtt_probe_def)

interpretation rtt_sample_d: data_frame rtt_sample
  by unfold_locales (simp_all add: rtt_sample_def split: option.splits)

interpretation rtt_sample_c: ctl_frame rtt_sample
  by unfold_locales (simp_all add: rtt_sample_def split: option.splits)

interpretation rtt_sample_o: out_frame rtt_sample
  by unfold_locales (simp_all add: rtt_sample_def split: option.splits)

interpretation rtt_sample_e: env_frame rtt_sample
  by unfold_locales (simp_all add: rtt_sample_def split: option.splits)

interpretation tx_tcp_d: data_frame "tx_tcp sg" for sg
  by unfold_locales (simp_all add: tx_tcp_def)

interpretation tx_tcp_c: ctl_frame "tx_tcp sg" for sg
  by unfold_locales (simp_all add: tx_tcp_def)

interpretation tx_tcp_t: timer_frame "tx_tcp sg" for sg
  by unfold_locales (simp_all add: tx_tcp_def)

interpretation tx_tcp_e: env_frame "tx_tcp sg" for sg
  by unfold_locales (simp_all add: tx_tcp_def)

interpretation send_ack_d: data_frame send_ack
  by unfold_locales (simp_all add: send_ack_def)

interpretation send_ack_c: ctl_frame send_ack
  by unfold_locales (simp_all add: send_ack_def)

interpretation send_ack_t: timer_frame send_ack
  by unfold_locales (simp_all add: send_ack_def)

interpretation send_ack_e: env_frame send_ack
  by unfold_locales (simp_all add: send_ack_def)

interpretation send_rst_d: data_frame send_rst
  by unfold_locales (simp_all add: send_rst_def)

interpretation send_rst_c: ctl_frame send_rst
  by unfold_locales (simp_all add: send_rst_def)

interpretation send_rst_t: timer_frame send_rst
  by unfold_locales (simp_all add: send_rst_def)

interpretation send_rst_e: env_frame send_rst
  by unfold_locales (simp_all add: send_rst_def)

interpretation drop_with_reset_d: data_frame "drop_with_reset p" for p
  by unfold_locales (simp_all add: drop_with_reset_def)

interpretation drop_with_reset_c: ctl_frame "drop_with_reset p" for p
  by unfold_locales (simp_all add: drop_with_reset_def)

interpretation drop_with_reset_t: timer_frame "drop_with_reset p" for p
  by unfold_locales (simp_all add: drop_with_reset_def)

interpretation drop_with_reset_e: env_frame "drop_with_reset p" for p
  by unfold_locales (simp_all add: drop_with_reset_def)

interpretation send_challenge_ack_d: data_frame send_challenge_ack
  by unfold_locales (simp_all add: send_challenge_ack_def Let_def)

interpretation send_challenge_ack_c: ctl_frame send_challenge_ack
  by unfold_locales (simp_all add: send_challenge_ack_def Let_def)

interpretation send_challenge_ack_t: timer_frame send_challenge_ack
  by unfold_locales (simp_all add: send_challenge_ack_def Let_def)

interpretation send_challenge_ack_e: env_frame send_challenge_ack
  by unfold_locales (simp_all add: send_challenge_ack_def Let_def)

interpretation notify_d: data_frame "notify c" for c
  by unfold_locales (simp_all add: notify_def)

interpretation notify_c: ctl_frame "notify c" for c
  by unfold_locales (simp_all add: notify_def)

interpretation notify_t: timer_frame "notify c" for c
  by unfold_locales (simp_all add: notify_def)

interpretation notify_o: out_frame "notify c" for c
  by unfold_locales (simp_all add: notify_def)

interpretation signal_rst_d: data_frame signal_rst
  by unfold_locales (simp_all add: signal_rst_def)

interpretation signal_rst_c: ctl_frame signal_rst
  by unfold_locales (simp_all add: signal_rst_def)

interpretation signal_rst_t: timer_frame signal_rst
  by unfold_locales (simp_all add: signal_rst_def)

interpretation signal_rst_o: out_frame signal_rst
  by unfold_locales (simp_all add: signal_rst_def)

interpretation schedule_event_d: data_frame "schedule_event e" for e
  by unfold_locales (simp_all add: schedule_event_def)

interpretation schedule_event_c: ctl_frame "schedule_event e" for e
  by unfold_locales (simp_all add: schedule_event_def)

interpretation schedule_event_t: timer_frame "schedule_event e" for e
  by unfold_locales (simp_all add: schedule_event_def)

interpretation schedule_event_e: env_frame "schedule_event e" for e
  by unfold_locales (simp_all add: schedule_event_def)

interpretation schedule_send_d: data_frame schedule_send
  by unfold_locales (simp_all add: schedule_send_def)

interpretation schedule_send_c: ctl_frame schedule_send
  by unfold_locales (simp_all add: schedule_send_def)

interpretation schedule_send_t: timer_frame schedule_send
  by unfold_locales (simp_all add: schedule_send_def)

interpretation schedule_send_e: env_frame schedule_send
  by unfold_locales (simp_all add: schedule_send_def)

interpretation set_so_error_d: data_frame "set_so_error e" for e
  by unfold_locales (simp_all add: set_so_error_def)

interpretation set_so_error_c: ctl_frame "set_so_error e" for e
  by unfold_locales (simp_all add: set_so_error_def)

interpretation set_so_error_t: timer_frame "set_so_error e" for e
  by unfold_locales (simp_all add: set_so_error_def)

interpretation set_so_error_o: out_frame "set_so_error e" for e
  by unfold_locales (simp_all add: set_so_error_def)

interpretation remove_tcpcb_d: data_frame remove_tcpcb
  by unfold_locales (simp_all add: remove_tcpcb_def)

interpretation remove_tcpcb_c: ctl_frame remove_tcpcb
  by unfold_locales (simp_all add: remove_tcpcb_def)

interpretation remove_tcpcb_t: timer_frame remove_tcpcb
  by unfold_locales (simp_all add: remove_tcpcb_def)

interpretation remove_tcpcb_o: out_frame remove_tcpcb
  by unfold_locales (simp_all add: remove_tcpcb_def)

interpretation change_state_d: data_frame "change_state ns" for ns
  by unfold_locales (simp_all add: change_state_def split: option.splits)

interpretation change_state_t: timer_frame "change_state ns" for ns
  by unfold_locales (simp_all add: change_state_def split: option.splits)

interpretation change_state_o: out_frame "change_state ns" for ns
  by unfold_locales (simp_all add: change_state_def split: option.splits)

interpretation change_state_e: env_frame "change_state ns" for ns
  by unfold_locales (simp_all add: change_state_def split: option.splits)

interpretation set_ack_now_d: data_frame "set_ack_now p" for p
  by unfold_locales (simp_all add: set_ack_now_def)

interpretation set_ack_now_t: timer_frame "set_ack_now p" for p
  by unfold_locales (simp_all add: set_ack_now_def)

interpretation set_ack_now_o: out_frame "set_ack_now p" for p
  by unfold_locales (simp_all add: set_ack_now_def)

interpretation set_ack_now_e: env_frame "set_ack_now p" for p
  by unfold_locales (simp_all add: set_ack_now_def)

section \<open>What they do change\<close>

lemma change_state_state [simp]: "state (change_state ns w) = (case ns of None \<Rightarrow> state w | Some s \<Rightarrow> s)"
  by (simp add: change_state_def split: option.splits)

lemma change_state_ack_now [simp]: "ack_now (change_state ns w) = ack_now w"
  by (simp add: change_state_def split: option.splits)

lemma set_ack_now_state [simp]: "state (set_ack_now p w) = state w"
  by (simp add: set_ack_now_def)

lemma start_rtx_timer_running [simp]: "rtx_timer (start_rtx_timer w) \<noteq> None"
  by (simp add: start_rtx_timer_def schedule_rtx_def split_def Let_def)

lemma restart_rtx_timer_running [simp]: "rtx_timer (restart_rtx_timer w) \<noteq> None"
  by (simp add: restart_rtx_timer_def schedule_rtx_def split_def Let_def)

lemma stop_rtx_timer_stopped [simp]: "rtx_timer (stop_rtx_timer w) = None"
  by (simp add: stop_rtx_timer_def split: option.splits)

lemma start_time_wait_timer_running [simp]: "time_wait_timer (start_time_wait_timer w) \<noteq> None"
  by (simp add: start_time_wait_timer_def split_def Let_def)

lemma stop_all_timers_stopped [simp]:
  "rtx_timer (stop_all_timers w) = None" "time_wait_timer (stop_all_timers w) = None"
  by (simp_all add: stop_all_timers_def stop_time_wait_timer_def split: option.splits)

end
