(* ===== verification/Tcp_Output.thy ===== *)
theory Tcp_Output
  imports Tcp_Frame
begin

text \<open>
  The send loop \<^verbatim>\<open>_tx_loop\<close>: it returns, and the segments it sends carry the drained bytes in
  order, with consecutive sequence numbers, each within the peer's segment size.
\<close>

section \<open>Definitions\<close>

text \<open>
  \<open>stream_segs mss w fin s segs\<close>: the segments \<open>segs\<close> carry a stretch of the stream that starts
  at sequence number \<open>s\<close>; their headers are those of \<open>w\<close>; the last one carries a FIN if \<open>fin\<close>.
\<close>

fun stream_segs :: "int \<Rightarrow> fsm \<Rightarrow> bool \<Rightarrow> int \<Rightarrow> out_seg list \<Rightarrow> bool" where
  "stream_segs mss w fin s [] \<longleftrightarrow> True"
| "stream_segs mss w fin s (x # xs) \<longleftrightarrow>
     x = (data_seg (fin \<and> xs = []) (os_data x) w)\<lparr>os_seq := mask32 s\<rparr> \<and>
     os_data x \<noteq> [] \<and> int (length (os_data x)) \<le> mss \<and>
     stream_segs mss w fin (s + int (length (os_data x))) xs"

definition payload :: "out_seg list \<Rightarrow> bytes" where
  "payload segs = concat (map os_data segs)"

definition tx_done :: "tcp_state option \<Rightarrow> bool \<Rightarrow> fsm \<Rightarrow> fsm" where
  "tx_done ns fin w = (if fin then change_state ns (w\<lparr>sent_fin := True\<rparr>) else w)"

definition tx_sent :: "out_seg list \<Rightarrow> int \<Rightarrow> int \<Rightarrow> rat option \<Rightarrow> fsm \<Rightarrow> fsm" where
  "tx_sent segs n m r w =
     w\<lparr>tx_log := tx_log w @ segs, snd_nxt := mask32 (snd_nxt w + n), snd_max := m, rtt := r\<rparr>"

section \<open>Lemmas\<close>

lemma not_gt_leq: "\<not> seq_gt a b \<Longrightarrow> seq_leq a b"
  by (auto simp: seq_gt_diff seq_leq_def seq_lt_diff)

lemma tx_segment_sent:
  "\<exists>m r. tx_segment f d w = tx_sent [data_seg f d w] (int (length d) + of_bool f) m r w \<and>
     seq_leq (mask32 (snd_nxt w + (int (length d) + of_bool f))) m \<and> (r = rtt w \<or> r = Some (now_sec w))"
proof -
  let ?n = "mask32 (snd_nxt w + (int (length d) + of_bool f))"
  show ?thesis
  proof (cases "seq_gt ?n (snd_max w)")
    case True
    then show ?thesis
      by (intro exI [of _ ?n] exI [of _ "if rtt w = None then Some (now_sec w) else rtt w"])
        (auto simp: tx_segment_def Let_def tx_tcp_def rtt_probe_def tx_sent_def now_sec_def add.assoc seq_leq_def)
  next
    case False
    then show ?thesis
      by (intro exI [of _ "snd_max w"] exI [of _ "rtt w"])
        (simp add: tx_segment_def Let_def tx_tcp_def tx_sent_def add.assoc not_gt_leq)
  qed
qed

lemma generate_payload_ok:
  assumes "data \<noteq> []" "length data \<le> 2" "\<forall>x\<in>set data. x \<noteq> []" "0 < n"
  shows "\<exists>d data'. generate_segment_payload data n = Inr (d, data') \<and> d \<noteq> [] \<and> int (length d) \<le> n \<and>
    concat data = d @ concat data' \<and> (\<forall>x\<in>set data'. x \<noteq> []) \<and> length data' \<le> 2"
proof -
  obtain b0 bs where data: "data = b0 # bs" using assms(1) by (cases data) auto
  show ?thesis
  proof (cases "int (length b0) \<le> n")
    case True
    show ?thesis
    proof (cases bs)
      case Nil
      then show ?thesis using data True assms by (simp add: generate_segment_payload_def)
    next
      case (Cons b1 bs')
      then have "bs = [b1]" using data assms(2) by simp
      then show ?thesis using data True assms by (simp add: generate_segment_payload_def)
    qed
  next
    case False
    then have "take (nat n) b0 \<noteq> []" "drop (nat n) b0 \<noteq> []" using assms(4) by auto
    then show ?thesis
      using data False assms by (simp add: generate_segment_payload_def py_upto_nonneg py_from_nonneg)
  qed
qed

lemma tx_sent_sent:
  "tx_sent bs n2 m2 r2 (tx_sent as n1 m1 r1 w) = tx_sent (as @ bs) (n1 + n2) m2 r2 w"
  by (simp add: tx_sent_def mask32_mod mod_simps add.assoc)

lemma tx_sent_header [simp]:
  "remote_mss (tx_sent segs n m r w) = remote_mss w" "now_sec (tx_sent segs n m r w) = now_sec w"
  "rtt (tx_sent segs n m r w) = r" "seq_num (snd_nxt (tx_sent segs n m r w))"
  by (simp_all add: tx_sent_def now_sec_def)

lemma stream_segs_header:
  "stream_segs mss (tx_sent segs n m r w) fin s xs = stream_segs mss w fin s xs"
  by (induction xs arbitrary: s) (simp_all add: data_seg_def ack_seg_def seg0_def tx_sent_def)

lemma mask32_add_left: "mask32 (mask32 s + k) = mask32 (s + k)"
  by (simp add: mask32_mod mod_simps)

lemma stream_segs_mask: "stream_segs mss w fin (mask32 s) xs = stream_segs mss w fin s xs"
proof -
  have "stream_segs mss w fin s xs = stream_segs mss w fin t xs" if "mask32 s = mask32 t" for s t
    using that
  proof (induction xs arbitrary: s t)
    case Nil
    then show ?case by simp
  next
    case (Cons x xs)
    have "mask32 (s + int (length (os_data x))) = mask32 (t + int (length (os_data x)))"
      using mask32_add_left [of s] mask32_add_left [of t] Cons.prems by simp
    note IH = Cons.IH [OF this]
    show ?case by (simp only: stream_segs.simps Cons.prems IH)
  qed
  moreover have "mask32 (mask32 s) = mask32 s" by (simp add: mask32_mod)
  ultimately show ?thesis by blast
qed

lemma stream_segs_Cons:
  assumes "d \<noteq> []" "int (length d) \<le> mss" "seq_num (snd_nxt w)"
    and "stream_segs mss w fin (snd_nxt w + int (length d)) xs"
  shows "stream_segs mss w fin (snd_nxt w) (data_seg (fin \<and> xs = []) d w # xs)"
  using assms by (simp add: data_seg_def ack_seg_def mask32_id)

text \<open>The last segment: the loop ends, with a FIN or because nothing is left.\<close>

lemma seg_fits_data [simp]: "seg_fits (data_seg f d w) \<longleftrightarrow> length d \<le> 1460"
  by (simp add: seg_fits_def data_seg_def ack_seg_def seg0_def MTU_def)

lemma tx_while_last:
  assumes "0 < dlen" "generate_segment_payload data (min (remote_mss w) (min wnd dlen)) = Inr (d, [])" "dlen = int (length d)"
    and "length d \<le> 1460"
  shows "tx_while ns fin data dlen wnd counter w = Some (Inr (tx_done ns fin (tx_segment fin d w)))"
proof -
  have "tx_while ns fin [] 0 wnd' counter' v = Some (Inr v)" for wnd' counter' v by (simp add: tx_while.simps)
  then show ?thesis
    using assms by (subst tx_while.simps) (auto simp: tx_done_def Let_def)
qed

text \<open>
  The loop drains what it was given: the caller hands it no more than the window and the limit
  of one call.
\<close>

lemma tx_while_ok:
  assumes "0 < remote_mss w" "\<forall>x\<in>set data. x \<noteq> []" "data \<noteq> []" "length data \<le> 2"
    and "dlen = int (length (concat data))" "dlen \<le> wnd" "counter + dlen \<le> TCP_MAX_TX_BYTES"
    and "seq_num (snd_nxt w)" "remote_mss w \<le> 1460"
  shows "\<exists>segs m r. tx_while ns fin data dlen wnd counter w =
      Some (Inr (tx_done ns fin (tx_sent segs (dlen + of_bool fin) m r w))) \<and>
    segs \<noteq> [] \<and> payload segs = concat data \<and> stream_segs (remote_mss w) w fin (snd_nxt w) segs \<and>
    seq_leq (mask32 (snd_nxt w + (dlen + of_bool fin))) m \<and> (r = rtt w \<or> r = Some (now_sec w))"
  using assms
proof (induction "nat dlen" arbitrary: data dlen wnd counter w rule: less_induct)
  case less
  let ?n = "min (remote_mss w) (min wnd dlen)"
  have pos: "0 < dlen" using less.prems(2,3,5) by (cases data) (auto simp: neq_Nil_conv)
  then have "0 < ?n" using less.prems(1,6) by simp
  then obtain d data' where g: "generate_segment_payload data ?n = Inr (d, data')" and d: "d \<noteq> []"
    "int (length d) \<le> ?n" "concat data = d @ concat data'" "\<forall>x\<in>set data'. x \<noteq> []" "length data' \<le> 2"
    using generate_payload_ok [OF less.prems(3,4,2)] by blast
  have short: "length d \<le> 1460" using d(2) less.prems(9) by simp
  let ?f = "fin \<and> data' = []" and ?l = "int (length d)"
  obtain m r where s: "tx_segment ?f d w = tx_sent [data_seg ?f d w] (?l + of_bool ?f) m r w"
    and m: "seq_leq (mask32 (snd_nxt w + (?l + of_bool ?f))) m" and r: "r = rtt w \<or> r = Some (now_sec w)"
    using tx_segment_sent by blast
  let ?w1 = "tx_sent [data_seg ?f d w] (?l + of_bool ?f) m r w"
  note unfold = tx_while.simps [of ns fin data dlen wnd counter w]
  show ?case
  proof (cases "data' = []")
    case True
    then have dl: "dlen = ?l" using d(3) less.prems(5) by simp
    have w': "tx_while ns fin data dlen wnd counter w = Some (Inr (tx_done ns fin ?w1))"
      using tx_while_last [OF pos g [unfolded True] dl short] s True by simp
    have st: "stream_segs (remote_mss w) w fin (snd_nxt w) [data_seg fin d w]"
      using stream_segs_Cons [OF d(1) _ less.prems(8), of "remote_mss w" fin "[]"] d(2) by simp
    show ?thesis
      by (intro exI [of _ "[data_seg fin d w]"] exI [of _ m] exI [of _ r])
        (use w' True dl m r d(3) st in \<open>simp add: payload_def data_seg_def\<close>)
  next
    case False
    have ls: "?l < dlen" using False d(3,4) less.prems(5) by (cases data') (auto simp: neq_Nil_conv)
    have dl: "dlen - ?l = int (length (concat data'))" using d(3) less.prems(5) by simp
    have n: "nat (dlen - ?l) < nat dlen" using ls d(1) by simp
    have pr: "0 < remote_mss ?w1" "dlen - ?l \<le> wnd - ?l" "counter + ?l + (dlen - ?l) \<le> TCP_MAX_TX_BYTES"
      "seq_num (snd_nxt ?w1)" "remote_mss ?w1 \<le> 1460"
      using less.prems(1,6,7,9) by simp_all
    note ih = less.hyps [OF n pr(1) d(4) False d(5) dl pr(2-5)]
    have step: "tx_while ns fin data dlen wnd counter w =
      tx_while ns fin data' (dlen - ?l) (wnd - ?l) (counter + ?l) ?w1"
      using False pos ls less.prems(6,7) s short by (subst unfold, subst g) (simp add: Let_def)
    obtain segs m2 r2 where
      IH: "tx_while ns fin data' (dlen - ?l) (wnd - ?l) (counter + ?l) ?w1 =
          Some (Inr (tx_done ns fin (tx_sent segs (dlen - ?l + of_bool fin) m2 r2 ?w1)))"
        "segs \<noteq> []" "payload segs = concat data'"
        "stream_segs (remote_mss ?w1) ?w1 fin (snd_nxt ?w1) segs"
        "seq_leq (mask32 (snd_nxt ?w1 + (dlen - ?l + of_bool fin))) m2" "r2 = rtt ?w1 \<or> r2 = Some (now_sec ?w1)"
      using ih by blast
    have nx: "snd_nxt ?w1 = mask32 (snd_nxt w + ?l)" using False by (simp add: tx_sent_def)
    have e: "tx_while ns fin data dlen wnd counter w =
        Some (Inr (tx_done ns fin (tx_sent (data_seg False d w # segs) (dlen + of_bool fin) m2 r2 w)))"
      using step IH(1) False by (simp add: tx_sent_sent)
    have str: "stream_segs (remote_mss w) w fin (snd_nxt w + ?l) segs"
      using IH(4) nx by (simp add: stream_segs_header stream_segs_mask)
    have mx: "seq_leq (mask32 (snd_nxt w + (dlen + of_bool fin))) m2"
      using IH(5) nx mask32_add_left [of "snd_nxt w + ?l" "dlen - ?l + of_bool fin"] by simp
    have rr: "r2 = rtt w \<or> r2 = Some (now_sec w)" using IH(6) r by auto
    have st: "stream_segs (remote_mss w) w fin (snd_nxt w) (data_seg False d w # segs)"
      using stream_segs_Cons [OF d(1) _ less.prems(8) str] d(2) IH(2) by simp
    show ?thesis
      by (intro exI [of _ "data_seg False d w # segs"] exI [of _ m2] exI [of _ r2])
        (use e mx rr st IH(3) d(3) in \<open>simp add: payload_def data_seg_def\<close>)
  qed
qed

lemma tx_done_fields [simp]:
  "tx_log (tx_done ns fin w) = tx_log w" "snd_nxt (tx_done ns fin w) = snd_nxt w"
  "snd_una (tx_done ns fin w) = snd_una w" "snd_max (tx_done ns fin w) = snd_max w"
  "snd_buf (tx_done ns fin w) = snd_buf w" "sent_fin (tx_done ns fin w) = (fin \<or> sent_fin w)"
  "state (tx_done ns fin w) = (if fin then (case ns of None \<Rightarrow> state w | Some s \<Rightarrow> s) else state w)"
  by (simp_all add: tx_done_def split: option.split)

lemma tx_sent_fields [simp]:
  "tx_log (tx_sent segs n m r w) = tx_log w @ segs" "snd_nxt (tx_sent segs n m r w) = mask32 (snd_nxt w + n)"
  "snd_una (tx_sent segs n m r w) = snd_una w" "snd_max (tx_sent segs n m r w) = m"
  "snd_buf (tx_sent segs n m r w) = snd_buf w" "sent_fin (tx_sent segs n m r w) = sent_fin w"
  "state (tx_sent segs n m r w) = state w"
  by (simp_all add: tx_sent_def)

definition linger_abort :: "bool \<Rightarrow> fsm \<Rightarrow> bool" where
  "linger_abort close_req w \<longleftrightarrow> close_req \<and> sock_opt w (SOL_SOCKET, SO_LINGER) = Some SO_LINGER_ON"

lemma h_active_close_tx_no: "\<not> linger_abort c w \<Longrightarrow> h_active_close_tx c w = (False, w)"
  by (auto simp: h_active_close_tx_def linger_abort_def)

lemma data_length:
  assumes "data \<noteq> []" "length data \<le> 2"
  obtains d0 ds where "data = d0 # ds"
    "int (length d0) + (if length data = 2 then int (length (hd ds)) else 0) = int (length (concat data))"
proof -
  obtain d0 ds where data: "data = d0 # ds" using assms(1) by (cases data) auto
  have "ds = [] \<or> (\<exists>d1. ds = [d1])" using assms(2) data by (cases ds) auto
  then show thesis using that [OF data] data by auto
qed

lemma tx_loop_unfold:
  assumes "data \<noteq> []" "length data \<le> 2" "\<not> linger_abort cl w"
  shows "tx_loop data ns sh cl w = map_option (map_sum id start_rtx_timer)
    (tx_while ns (sh \<or> cl) data (int (length (concat data))) (snd_wnd w) 0 w)"
proof -
  obtain d0 ds where d: "data = d0 # ds" and
    l: "int (length d0) + (if length data = 2 then int (length (hd ds)) else 0) = int (length (concat data))"
    using data_length [OF assms(1,2)] by blast
  have "tx_loop data ns sh cl w = map_option (map_sum id start_rtx_timer)
    (tx_while ns (sh \<or> cl) data (int (length d0) + (if length data = 2 then int (length (hd ds)) else 0)) (snd_wnd w) 0 w)"
    using h_active_close_tx_no [OF assms(3)] unfolding tx_loop_def d list.case Let_def by simp
  then show ?thesis by (simp only: l)
qed

text \<open>
  What every step of the send loop keeps holds when the loop returns, and holds of the state in which it handed over
  the segment that made it raise.
\<close>

lemma tx_while_ends:
  assumes "tx_while ns fin data dlen wnd counter w = Some y"
    and "\<And>f d w. P w \<Longrightarrow> P (tx_segment f d w)" and "P w"
  shows "case y of Inl (e, w') \<Rightarrow> \<exists>v. P v \<and> (w' = v \<or> (\<exists>f d. w' = tx_tcp (data_seg f d v) v))
    | Inr w' \<Rightarrow> \<exists>v. P v \<and> (w' = v \<or> w' = change_state ns (v\<lparr>sent_fin := True\<rparr>))"
proof -
  let ?Q = "\<lambda>ns y. case y of Inl (e, w') \<Rightarrow> \<exists>v. P v \<and> (w' = v \<or> (\<exists>f d. w' = tx_tcp (data_seg f d v) v))
    | Inr w' \<Rightarrow> \<exists>v. P v \<and> (w' = v \<or> w' = change_state ns (v\<lparr>sent_fin := True\<rparr>))"
  have "P w \<longrightarrow> ?Q ns y"
  proof (rule tx_while.raw_induct [where P = "\<lambda>ns fin data dlen wnd counter w y. P w \<longrightarrow> ?Q ns y", OF _ assms(1)])
    fix f and ns fin data dlen wnd counter w y
    assume IH: "\<And>ns fin data dlen wnd counter w y. f ns fin data dlen wnd counter w = Some y \<Longrightarrow> P w \<longrightarrow> ?Q ns y"
      and body: "(if dlen > 0 then
          (case generate_segment_payload data (min (remote_mss w) (min wnd dlen)) of
             Inl e \<Rightarrow> Some (Inl (e, w))
           | Inr (seg_data, data') \<Rightarrow>
               let should_fin = (fin \<and> data' = []); n = int (length seg_data);
                   seg = data_seg should_fin seg_data w; w' = tx_segment should_fin seg_data w
               in if \<not> seg_fits seg then Some (Inl (AttributeError, tx_tcp seg w))
                  else if should_fin then Some (Inr (change_state ns (w'\<lparr>sent_fin := True\<rparr>)))
                  else if wnd - n \<le> 0 then Some (Inr w')
                  else if counter + n \<ge> TCP_MAX_TX_BYTES then Some (Inr w')
                  else f ns fin data' (dlen - n) (wnd - n) (counter + n) w')
        else Some (Inr w)) = Some y"
    show "P w \<longrightarrow> ?Q ns y"
    proof
      assume w: "P w"
      show "?Q ns y"
      proof (cases "generate_segment_payload data (min (remote_mss w) (min wnd dlen))")
        case (Inl e)
        then show ?thesis using body w by (auto split: if_splits)
      next
        case (Inr z)
        obtain d data' where z: "z = (d, data')" by (rule prod.exhaust)
        let ?f = "fin \<and> data' = []"
        let ?w = "tx_segment ?f d w"
        have w': "P ?w" by (rule assms(2) [OF w])
        have "Some y \<in> {Some (Inr w), Some (Inl (AttributeError, tx_tcp (data_seg ?f d w) w)),
            Some (Inr (change_state ns (?w\<lparr>sent_fin := True\<rparr>))), Some (Inr ?w),
            f ns fin data' (dlen - int (length d)) (wnd - int (length d)) (counter + int (length d)) ?w}"
          unfolding body [symmetric] Inr z by (simp add: Let_def del: seg_fits_data)
        then consider "y = Inr w" | "y = Inl (AttributeError, tx_tcp (data_seg ?f d w) w)"
          | "y = Inr (change_state ns (?w\<lparr>sent_fin := True\<rparr>))" | "y = Inr ?w"
          | "f ns fin data' (dlen - int (length d)) (wnd - int (length d)) (counter + int (length d)) ?w = Some y"
          by (metis insertE empty_iff option.inject)
        then show ?thesis
        proof cases
          case 5
          then show ?thesis using IH w' by blast
        qed (use w w' in auto)
      qed
    qed
  qed
  then show ?thesis using assms(3) by blast
qed

lemma map_sum_Inr_iff: "map_sum id f z = Inr y \<longleftrightarrow> (\<exists>x. z = Inr x \<and> y = f x)"
  by (cases z) auto

lemma map_sum_Inl_iff: "map_sum id f z = Inl y \<longleftrightarrow> z = Inl y"
  by (cases z) auto

lemma tx_loop_keeps:
  assumes "tx_loop data ns sh cl w = Some (Inr w')"
    and "\<And>f d w. P w \<Longrightarrow> P (tx_segment f d w)" and "\<And>w. P w \<Longrightarrow> P (change_state ns (w\<lparr>sent_fin := True\<rparr>))"
    and "\<And>w. P w \<Longrightarrow> P (start_rtx_timer w)" and "P w" and "linger_abort cl w \<Longrightarrow> P (snd (h_active_close_tx cl w))"
  shows "P w'"
proof (cases "linger_abort cl w")
  case True
  then have "w' = snd (h_active_close_tx cl w)"
    using assms(1) by (auto simp: tx_loop_def linger_abort_def h_active_close_tx_def Let_def split: list.splits)
  then show ?thesis using assms(6) True by simp
next
  case False
  then obtain dlen w1 where t: "tx_while ns (sh \<or> cl) data dlen (snd_wnd w) 0 w = Some (Inr w1)"
    and w': "w' = start_rtx_timer w1"
    using assms(1) h_active_close_tx_no [OF False]
    by (auto simp: tx_loop_def Let_def map_sum_Inr_iff split: list.splits)
  have "P w1" using tx_while_ends [OF t, of P] assms(2,3,5) by auto
  then show ?thesis using assms(4) w' by simp
qed

lemma tx_loop_raised:
  assumes "tx_loop data ns sh cl w = Some (Inl (e, w'))"
    and "\<And>f d w. P w \<Longrightarrow> P (tx_segment f d w)" and "\<And>f d w. P w \<Longrightarrow> P (tx_tcp (data_seg f d w) w)" and "P w"
  shows "P w'"
proof (cases data)
  case Nil
  then show ?thesis using assms(1,4) by (simp add: tx_loop_def)
next
  case (Cons d0 ds)
  then have "\<not> linger_abort cl w"
    using assms(1) by (auto simp: tx_loop_def linger_abort_def h_active_close_tx_def Let_def)
  then obtain dlen where t: "tx_while ns (sh \<or> cl) data dlen (snd_wnd w) 0 w = Some (Inl (e, w'))"
    using assms(1) Cons h_active_close_tx_no [of cl w] by (auto simp: tx_loop_def Let_def map_sum_Inl_iff)
  show ?thesis using tx_while_ends [OF t, of P] assms(2-4) by auto
qed

text \<open>Where the handlers raise: in the send loop, in a state without a handler, and on the options of a SYN-ACK.\<close>

lemma tx_raised:
  assumes "tx w = Some (Inl (e, w'))"
    and "\<And>f d v. P v \<Longrightarrow> P (tx_segment f d v)" and "\<And>f d v. P v \<Longrightarrow> P (tx_tcp (data_seg f d v) v)"
    and "\<And>v. P v \<Longrightarrow> P (snd (drain_snd_buf v))" and "\<And>v. P v \<Longrightarrow> P (compute_rcv_wnd v)" and "P w"
  shows "P w'"
proof -
  consider "w' = w" | data ns sh cl v where "tx_loop data ns sh cl v = Some (Inl (e, w'))" "P v"
    using assms(1,4-6)
    by (cases "state w")
      (auto simp: tx_def tx_map_def tx_estab_def tx_fin_wait_1_def tx_close_wait_def tx_closing_def tx_last_ack_def
        Let_def split_def split: if_splits)
  then show ?thesis using assms(2,3,6) by cases (auto intro: tx_loop_raised [where P = P])
qed

lemma rtx_raised:
  assumes "rtx w = Some (Inl (e, w'))"
    and "\<And>f d v. P v \<Longrightarrow> P (tx_segment f d v)" and "\<And>f d v. P v \<Longrightarrow> P (tx_tcp (data_seg f d v) v)"
    and "\<And>v. P v \<Longrightarrow> P (snd (drain_snd_buf v))" and "\<And>v. P v \<Longrightarrow> P (compute_rcv_wnd v)"
    and "P ((rollback_to_una (back_off_rto w))\<lparr>rtx_timer := None\<rparr>)"
  shows "P w'"
  using tx_raised [OF assms(1) [unfolded rtx_def], of P] assms(2-6) by blast

lemma rx_raised:
  assumes "rx p w = Inl (e, w')"
  shows "state w = LISTEN \<and> w' = w \<or> state w = SYN_SENT \<and> sg_options p = Inl e \<and>
    (\<exists>v\<in>{w, snd (h_rx_ack p w)}. w' = init_snd_wnd p (init_rcv_seq p (stop_rtx_timer (rtt_sample (snd (h_rx_ack p v))))))"
  using assms
  by (cases "state w")
    (auto simp: rx_def rx_map_def rx_syn_sent_def syn_sent_accept_def Let_def split_def split: if_splits sum.splits)

text \<open>With a segment size of at most 1460 bytes the loop does not raise.\<close>

lemma generate_payload_short:
  assumes "generate_segment_payload data n = Inr (d, data')" "0 \<le> n" "length data \<le> 2"
  shows "int (length d) \<le> n" "concat data = d @ concat data'" "length data' \<le> 2"
proof -
  obtain b0 bs where data: "data = b0 # bs" using assms(1) by (cases data) (auto simp: generate_segment_payload_def)
  have "int (length d) \<le> n \<and> concat data = d @ concat data' \<and> length data' \<le> 2"
  proof (cases "int (length b0) \<le> n")
    case True
    have "bs = [] \<or> (\<exists>b1. bs = [b1])" using assms(3) data by (cases bs) auto
    then show ?thesis using assms(1,3) data True by (auto simp: generate_segment_payload_def)
  next
    case False
    then have "d = take (nat n) b0" "data' = drop (nat n) b0 # bs"
      using assms(1,2) data by (auto simp: generate_segment_payload_def py_upto_nonneg py_from_nonneg)
    then show ?thesis using assms(2,3) data by simp
  qed
  then show "int (length d) \<le> n" "concat data = d @ concat data'" "length data' \<le> 2" by simp_all
qed

definition sound_args :: "bytes list \<Rightarrow> int \<Rightarrow> int \<Rightarrow> fsm \<Rightarrow> bool" where
  "sound_args data dlen wnd w \<longleftrightarrow> 0 \<le> remote_mss w \<and> remote_mss w \<le> 1460 \<and> 0 \<le> wnd \<and> length data \<le> 2 \<and>
     dlen = int (length (concat data))"

lemma tx_while_returns:
  assumes "tx_while ns fin data dlen wnd counter w = Some y" "sound_args data dlen wnd w"
  shows "\<exists>w'. y = Inr w'"
proof -
  have "sound_args data dlen wnd w \<longrightarrow> (\<exists>w'. y = Inr w')"
  proof (rule tx_while.raw_induct [where P = "\<lambda>_ _ data dlen wnd _ w y. sound_args data dlen wnd w \<longrightarrow> (\<exists>w'. y = Inr w')",
      OF _ assms(1)])
    fix f and ns fin data dlen wnd counter w y
    assume IH: "\<And>ns fin data dlen wnd counter w y. f ns fin data dlen wnd counter w = Some y \<Longrightarrow>
        sound_args data dlen wnd w \<longrightarrow> (\<exists>w'. y = Inr w')"
      and body: "(if dlen > 0 then
          (case generate_segment_payload data (min (remote_mss w) (min wnd dlen)) of
             Inl e \<Rightarrow> Some (Inl (e, w))
           | Inr (seg_data, data') \<Rightarrow>
               let should_fin = (fin \<and> data' = []); n = int (length seg_data);
                   seg = data_seg should_fin seg_data w; w' = tx_segment should_fin seg_data w
               in if \<not> seg_fits seg then Some (Inl (AttributeError, tx_tcp seg w))
                  else if should_fin then Some (Inr (change_state ns (w'\<lparr>sent_fin := True\<rparr>)))
                  else if wnd - n \<le> 0 then Some (Inr w')
                  else if counter + n \<ge> TCP_MAX_TX_BYTES then Some (Inr w')
                  else f ns fin data' (dlen - n) (wnd - n) (counter + n) w')
        else Some (Inr w)) = Some y"
    show "sound_args data dlen wnd w \<longrightarrow> (\<exists>w'. y = Inr w')"
    proof
      assume s: "sound_args data dlen wnd w"
      let ?n = "min (remote_mss w) (min wnd dlen)"
      show "\<exists>w'. y = Inr w'"
      proof (cases "dlen > 0")
        case True
        then obtain b0 bs where data: "data = b0 # bs" using s by (cases data) (auto simp: sound_args_def)
        obtain d data' where g: "generate_segment_payload data ?n = Inr (d, data')"
          unfolding data generate_segment_payload_def by (cases "int (length b0) \<le> ?n"; cases "length bs = Suc 0") auto
        have n: "0 \<le> ?n" "length data \<le> 2" using s True by (simp_all add: sound_args_def)
        note short = generate_payload_short [OF g n]
        let ?f = "fin \<and> data' = []" and ?l = "int (length d)"
        have fits: "length d \<le> 1460" using short(1) s by (simp add: sound_args_def)
        have m: "remote_mss (tx_segment ?f d w) = remote_mss w" by (simp add: tx_segment_def Let_def)
        have rec: "\<exists>w'. y = Inr w'" if "f ns fin data' (dlen - ?l) (wnd - ?l) (counter + ?l) (tx_segment ?f d w) = Some y" "0 < wnd - ?l"
          using IH [OF that(1)] that(2) s short(2,3) m by (simp add: sound_args_def)
        show ?thesis using body True fits rec unfolding g by (auto simp: Let_def split: if_splits)
      next
        case False
        then show ?thesis using body by auto
      qed
    qed
  qed
  then show ?thesis using assms(2) by blast
qed

lemma tx_loop_returns:
  assumes "tx_loop data ns sh cl w = Some y" "data \<noteq> []" "length data \<le> 2" "0 \<le> remote_mss w" "remote_mss w \<le> 1460"
    "0 \<le> snd_wnd w"
  shows "\<exists>w'. y = Inr w'"
proof (cases "linger_abort cl w")
  case True
  then show ?thesis
    using assms(1,2) by (auto simp: tx_loop_def linger_abort_def h_active_close_tx_def Let_def split: list.splits)
next
  case False
  let ?n = "int (length (concat data))"
  obtain z where z: "tx_while ns (sh \<or> cl) data ?n (snd_wnd w) 0 w = Some z" "y = map_sum id start_rtx_timer z"
    using assms(1) unfolding tx_loop_unfold [OF assms(2,3) False] by auto
  have "sound_args data ?n (snd_wnd w) w" using assms(3-6) by (simp add: sound_args_def)
  then show ?thesis using tx_while_returns [OF z(1)] z(2) by auto
qed

lemma stream_segs_fin:
  "stream_segs mss w fin s segs \<Longrightarrow> segs \<noteq> [] \<Longrightarrow> os_fin (last segs) = fin"
proof (induction segs arbitrary: s)
  case (Cons x xs)
  have "os_fin x = os_fin ((data_seg (fin \<and> xs = []) (os_data x) w)\<lparr>os_seq := mask32 s\<rparr>)"
    using Cons.prems(1) by (intro arg_cong [where f = os_fin]) simp
  then have "xs = [] \<Longrightarrow> os_fin x = fin" by (simp add: data_seg_def)
  then show ?case using Cons by auto
qed simp

lemma tx_loop_sends:
  assumes "0 < remote_mss w" "data \<noteq> []" "length data \<le> 2" "\<forall>x\<in>set data. x \<noteq> []"
    and "int (length (concat data)) \<le> snd_wnd w" "int (length (concat data)) \<le> TCP_MAX_TX_BYTES"
    and "seq_num (snd_nxt w)" "\<not> linger_abort cl w" "remote_mss w \<le> 1460"
  shows "\<exists>w' segs. tx_loop data ns sh cl w = Some (Inr w') \<and> tx_log w' = tx_log w @ segs \<and>
    payload segs = concat data \<and> stream_segs (remote_mss w) w (sh \<or> cl) (snd_nxt w) segs \<and>
    snd_nxt w' = mask32 (snd_nxt w + int (length (concat data)) + of_bool (sh \<or> cl)) \<and>
    seq_leq (snd_nxt w') (snd_max w') \<and> rtx_timer w' \<noteq> None \<and> snd_una w' = snd_una w \<and>
    sent_fin w' = (sh \<or> cl \<or> sent_fin w) \<and>
    state w' = (if sh \<or> cl then (case ns of None \<Rightarrow> state w | Some s \<Rightarrow> s) else state w)"
proof -
  obtain segs m r where t: "tx_while ns (sh \<or> cl) data (int (length (concat data))) (snd_wnd w) 0 w =
      Some (Inr (tx_done ns (sh \<or> cl) (tx_sent segs (int (length (concat data)) + of_bool (sh \<or> cl)) m r w)))"
    and s: "payload segs = concat data" "stream_segs (remote_mss w) w (sh \<or> cl) (snd_nxt w) segs"
      "seq_leq (mask32 (snd_nxt w + (int (length (concat data)) + of_bool (sh \<or> cl)))) m"
    using tx_while_ok [OF assms(1,4,2,3) refl assms(5) _ assms(7,9), of 0 ns "sh \<or> cl"] assms(6) by auto
  then show ?thesis
    unfolding tx_loop_unfold [OF assms(2,3,8)] t
    by (intro exI [of _ "start_rtx_timer (tx_done ns (sh \<or> cl)
        (tx_sent segs (int (length (concat data)) + of_bool (sh \<or> cl)) m r w))"] exI [of _ segs])
      (simp add: add.assoc split: option.split)
qed

section \<open>Properties\<close>



definition stuck_args :: "bytes list \<Rightarrow> int \<Rightarrow> int \<Rightarrow> int \<Rightarrow> fsm \<Rightarrow> bool" where
  "stuck_args data dlen wnd counter w \<longleftrightarrow> remote_mss w = 0 \<and> 0 < dlen \<and> 0 < wnd \<and>
     counter < TCP_MAX_TX_BYTES \<and> (\<exists>d ds. data = d # ds \<and> d \<noteq> [])"

lemma tx_while_zero_mss:
  assumes "tx_while ns fin data dlen wnd counter w = Some y"
  shows "\<not> stuck_args data dlen wnd counter w"
proof (rule tx_while.raw_induct [where P = "\<lambda>_ _ data dlen wnd counter w _. \<not> stuck_args data dlen wnd counter w", OF _ assms])
  fix f ns fin data dlen wnd counter w y
  assume IH: "\<And>ns fin data dlen wnd counter w y. f ns fin data dlen wnd counter w = Some y \<Longrightarrow>
      \<not> stuck_args data dlen wnd counter w"
    and body: "(if dlen > 0 then
        (case generate_segment_payload data (min (remote_mss w) (min wnd dlen)) of
           Inl e \<Rightarrow> Some (Inl (e, w))
         | Inr (seg_data, data') \<Rightarrow>
             let should_fin = (fin \<and> data' = []); n = int (length seg_data);
                 seg = data_seg should_fin seg_data w; w' = tx_segment should_fin seg_data w
             in if \<not> seg_fits seg then Some (Inl (AttributeError, tx_tcp seg w))
                else if should_fin then Some (Inr (change_state ns (w'\<lparr>sent_fin := True\<rparr>)))
                else if wnd - n \<le> 0 then Some (Inr w')
                else if counter + n \<ge> TCP_MAX_TX_BYTES then Some (Inr w')
                else f ns fin data' (dlen - n) (wnd - n) (counter + n) w')
      else Some (Inr w)) = Some y"
  show "\<not> stuck_args data dlen wnd counter w"
  proof
    assume h: "stuck_args data dlen wnd counter w"
    then obtain d ds where d: "data = d # ds" "d \<noteq> []" by (auto simp: stuck_args_def)
    let ?w' = "tx_segment False [] w"
    have g: "generate_segment_payload data (min (remote_mss w) (min wnd dlen)) = Inr ([], data)"
      using h d by (simp add: stuck_args_def generate_segment_payload_def py_upto_def py_from_def py_index_def)
    have "f ns fin data dlen wnd counter ?w' = Some y"
      using body h d unfolding g stuck_args_def by (simp add: Let_def)
    moreover have "stuck_args data dlen wnd counter ?w'"
      using h by (simp add: stuck_args_def tx_segment_def Let_def)
    ultimately show False using IH by blast
  qed
qed

lemma tx_loop_zero_mss:
  assumes "remote_mss w = 0" "0 < snd_wnd w" "data = d # ds" "length data \<le> 2" "d \<noteq> []"
    and "\<not> linger_abort cl w"
  shows "tx_loop data ns sh cl w = None"
proof -
  have ne: "data \<noteq> []" using assms(3) by simp
  have "0 < length d" using assms(5) by simp
  then have "0 < int (length (concat data))" unfolding assms(3) by (simp add: add_pos_nonneg)
  then have "stuck_args data (int (length (concat data))) (snd_wnd w) 0 w"
    using assms by (simp add: stuck_args_def TCP_MAX_TX_BYTES_def)
  then have "tx_while ns (sh \<or> cl) data (int (length (concat data))) (snd_wnd w) 0 w = None"
    using tx_while_zero_mss not_None_eq by metis
  then show ?thesis unfolding tx_loop_unfold [OF ne assms(4,6)] by simp
qed

text \<open>
  A peer may announce a segment size above 1460 bytes, and the stack takes it as it is. When a first chunk of more than
  that is to be sent, \<^verbatim>\<open>core.tx_tcp\<close> raises \<^verbatim>\<open>AttributeError\<close>: nothing is sent, the drained bytes count as sent and the
  retransmission timer is not started.
\<close>

lemma tx_loop_over_mtu:
  assumes "1460 < remote_mss w" "data = d # ds" "length data \<le> 2" "1460 < length d"
    and "int (length (concat data)) \<le> snd_wnd w" "\<not> linger_abort cl w"
  shows "\<exists>seg. tx_loop data ns sh cl w = Some (Inl (AttributeError, tx_tcp seg w)) \<and> \<not> seg_fits seg \<and>
    rtx_timer (tx_tcp seg w) = rtx_timer w \<and> snd_nxt (tx_tcp seg w) = snd_nxt w"
proof -
  let ?n = "min (remote_mss w) (min (snd_wnd w) (int (length (concat data))))"
  have ne: "data \<noteq> []" using assms(2) by simp
  have "length d \<le> length (concat data)" unfolding assms(2) by simp
  then have pos: "1460 < ?n" using assms(1,4,5) by simp
  have "\<exists>x data'. generate_segment_payload data ?n = Inr (x, data') \<and> 1460 < length x"
    using assms(2,4) pos by (auto simp: generate_segment_payload_def py_upto_nonneg py_from_nonneg)
  then obtain x data' where g: "generate_segment_payload data ?n = Inr (x, data')" "1460 < length x" by blast
  have "0 < int (length (concat data))" using pos by linarith
  then have "tx_while ns (sh \<or> cl) data (int (length (concat data))) (snd_wnd w) 0 w =
      Some (Inl (AttributeError, tx_tcp (data_seg ((sh \<or> cl) \<and> data' = []) x w) w))"
    using g by (subst tx_while.simps) (simp add: Let_def)
  then show ?thesis
    unfolding tx_loop_unfold [OF ne assms(3,6)] using g(2)
    by (intro exI [of _ "data_seg ((sh \<or> cl) \<and> data' = []) x w"]) (simp add: tx_tcp_def)
qed

lemma tx_loop_over_mtu_witness:
  "\<exists>w'. tx_loop [replicate 2000 7] (Some FIN_WAIT_1) False False ((conn_example 0)\<lparr>remote_mss := 9000, snd_wnd := 65535\<rparr>) =
     Some (Inl (AttributeError, w')) \<and> rtx_timer w' = None"
  using tx_loop_over_mtu [of "(conn_example 0)\<lparr>remote_mss := 9000, snd_wnd := 65535\<rparr>" "[replicate 2000 7]" "replicate 2000 7" "[]"
      False "Some FIN_WAIT_1" False]
  by (auto simp: linger_abort_def conn_defs)

text \<open>With a segment size of 0 and an open window the send loop never returns: the event thread
  hangs, sending empty segments. A connection opened by simultaneous open has that size, since only
  the SYN-ACK path reads the peer's option.\<close>

lemma tx_loop_hangs_without_mss:
  assumes "remote_mss w = 0" "0 < snd_wnd w" "data = d # ds" "length data \<le> 2" "d \<noteq> []"
    and "\<not> linger_abort cl w"
  shows "tx_loop data ns sh cl w = None"
  by (rule tx_loop_zero_mss [OF assms])

lemma tx_loop_hangs_without_mss_witness:
  "tx_loop [[1, 2]] (Some FIN_WAIT_1) False False ((conn_example 0)\<lparr>snd_wnd := 5\<rparr>) = None"
proof -
  have "remote_mss ((conn_example 0)\<lparr>snd_wnd := 5\<rparr>) = 0" by (simp add: conn_defs)
  then show ?thesis
    using tx_loop_hangs_without_mss [of "(conn_example 0)\<lparr>snd_wnd := 5\<rparr>" "[[1, 2]]" "[1, 2]" "[]" False]
    by (simp add: linger_abort_def)
qed

end
