(* ===== verification/Tcp_Receive.thy ===== *)
theory Tcp_Receive
  imports Tcp_Output
begin

text \<open>
  The receive side: the receive window stays well formed under every handler, in-order data
  reaches the receive buffer, and two ways in which acknowledged data does not.
\<close>

section \<open>Definitions\<close>

definition win_ok :: "fsm \<Rightarrow> bool" where
  "win_ok w \<longleftrightarrow> seq_num (rcv_nxt w) \<and> seq_num (rcv_adv w) \<and>
     0 < seq_diff (rcv_adv w) (rcv_nxt w) \<and> seq_diff (rcv_adv w) (rcv_nxt w) \<le> DEFAULT_RCV_WND \<and>
     rb_inv (rcv_buf w) \<and> rb_size (rcv_buf w) = DEFAULT_RECV_BUFF"

text \<open>An incoming segment as the parser makes it.\<close>

definition seg_wf :: "tcp_seg \<Rightarrow> bool" where
  "seg_wf p \<longleftrightarrow> seg_ok p \<and> sg_dlen p = int (length (sg_frame p)) - sg_doff p"

section \<open>Operations that leave the receive side alone\<close>

locale rcv_frame =
  fixes h :: "fsm \<Rightarrow> fsm"
  assumes rcv_frame_fields [simp]:
    "rcv_buf (h w) = rcv_buf w" "rcv_nxt (h w) = rcv_nxt w" "rcv_adv (h w) = rcv_adv w"
    "tcp_data_start (h w) = tcp_data_start w" "tcp_data_len (h w) = tcp_data_len w"
begin

lemma win_ok_frame [simp]: "win_ok (h w) = win_ok w"
  by (simp add: win_ok_def)

end

sublocale data_frame \<subseteq> rcv_frame
  by unfold_locales simp_all

interpretation h_rx_ack_r: rcv_frame "\<lambda>w. snd (h_rx_ack p w)" for p
  by unfold_locales (simp_all add: h_rx_ack_def)

interpretation h_rx_wnd_r: rcv_frame "\<lambda>w. snd (h_rx_wnd p w)" for p
  by unfold_locales (simp_all add: h_rx_wnd_def)

interpretation h_rx_rst_r: rcv_frame "\<lambda>w. snd (h_rx_rst p e w)" for p e
  by unfold_locales (simp_all add: h_rx_rst_def)

interpretation h_active_close_tx_r: rcv_frame "\<lambda>w. snd (h_active_close_tx c w)" for c
  by unfold_locales (simp_all add: h_active_close_tx_def)

interpretation rst_or_close_rx_r: rcv_frame "\<lambda>w. snd (rst_or_close_rx p w)" for p
  by unfold_locales (simp_all add: rst_or_close_rx_def h_active_close_rx_def split_def Let_def)

interpretation estab_acked_r: rcv_frame "estab_acked a" for a
  by unfold_locales (simp_all add: estab_acked_def Let_def)

interpretation send_fin_r: rcv_frame "send_fin ns" for ns
  by unfold_locales (simp_all add: send_fin_def Let_def)

interpretation rollback_to_una_r: rcv_frame rollback_to_una
  by unfold_locales (simp_all add: rollback_to_una_def)

interpretation drain_snd_buf_r: rcv_frame "\<lambda>w. snd (drain_snd_buf w)"
  by unfold_locales (simp_all add: drain_snd_buf_def split_def Let_def)

interpretation tx_segment_r: rcv_frame "tx_segment f d" for f d
  by unfold_locales (simp_all add: tx_segment_def Let_def)

lemma tx_loop_rcv:
  assumes "tx_loop data ns sh cl w = Some (Inr w')"
  shows "rcv_buf w' = rcv_buf w" "rcv_nxt w' = rcv_nxt w" "rcv_adv w' = rcv_adv w"
proof -
  show "rcv_buf w' = rcv_buf w"
    by (rule tx_loop_keeps [OF assms, where P = "\<lambda>x. rcv_buf x = rcv_buf w"]; simp)
  show "rcv_nxt w' = rcv_nxt w"
    by (rule tx_loop_keeps [OF assms, where P = "\<lambda>x. rcv_nxt x = rcv_nxt w"]; simp)
  show "rcv_adv w' = rcv_adv w"
    by (rule tx_loop_keeps [OF assms, where P = "\<lambda>x. rcv_adv x = rcv_adv w"]; simp)
qed

lemma tx_loop_win: "tx_loop data ns sh cl w = Some (Inr w') \<Longrightarrow> win_ok w' = win_ok w"
  by (simp add: win_ok_def tx_loop_rcv)

section \<open>The receive window\<close>

lemma rb_free_bound: "rb_inv b \<Longrightarrow> rb_free_space b \<le> rb_size b - 1"
  using rb.free_ready [of b] by (simp add: rb_cap_def)

lemma win_ok_free: "win_ok w \<Longrightarrow> int (rb_free_space (rcv_buf w)) < DEFAULT_RCV_WND"
  using rb_free_bound [of "rcv_buf w"] by (auto simp: win_ok_def DEFAULT_RCV_WND_def DEFAULT_RECV_BUFF_def)

lemma seq_gt_ahead:
  assumes "seq_num b" "0 \<le> k" "k < 2147483648" "0 < seq_diff b u" "seq_diff b u < 2147483648"
  shows "seq_gt (mask32 (u + k)) b \<longleftrightarrow> seq_diff b u < k"
proof -
  have d: "seq_diff (mask32 (u + k)) u = k" using assms(2,3) by (simp only: seq_diff_add)
  have z: "mask32 (u + k) = b \<longleftrightarrow> seq_diff (mask32 (u + k)) b = 0"
    using assms(1) seq_diff_zero_iff [of "mask32 (u + k)" b] by simp
  show ?thesis
    unfolding seq_gt_diff z using seq_diff_base [of "mask32 (u + k)" b u] d assms(2-5)
    by (auto split: if_splits)
qed

lemma compute_rcv_wnd_fields:
  assumes "win_ok w"
  shows "rcv_buf (compute_rcv_wnd w) = rcv_buf w" "rcv_nxt (compute_rcv_wnd w) = rcv_nxt w"
    "rcv_wnd (compute_rcv_wnd w) = int (rb_free_space (rcv_buf w))" "seq_num (rcv_adv (compute_rcv_wnd w))"
    "seq_diff (rcv_adv (compute_rcv_wnd w)) (rcv_nxt w) =
       max (seq_diff (rcv_adv w) (rcv_nxt w)) (int (rb_free_space (rcv_buf w)))"
proof -
  let ?f = "int (rb_free_space (rcv_buf w))" and ?d = "seq_diff (rcv_adv w) (rcv_nxt w)"
  have f: "?f < 65535" using win_ok_free [OF assms] by (simp add: DEFAULT_RCV_WND_def)
  have r: "seq_num (rcv_adv w)" "0 < ?d" "?d < 2147483648"
    using assms by (auto simp: win_ok_def DEFAULT_RCV_WND_def)
  have g: "seq_gt (mask32 (?f + rcv_nxt w)) (rcv_adv w) \<longleftrightarrow> ?d < ?f"
    using seq_gt_ahead [OF r(1) _ _ r(2,3), of ?f] f by (simp add: add.commute)
  have a: "seq_diff (mask32 (?f + rcv_nxt w)) (rcv_nxt w) = ?f"
    using seq_diff_add [of ?f "rcv_nxt w"] f by (simp add: add.commute)
  show "rcv_buf (compute_rcv_wnd w) = rcv_buf w" "rcv_nxt (compute_rcv_wnd w) = rcv_nxt w"
    "rcv_wnd (compute_rcv_wnd w) = ?f"
    by (simp_all add: compute_rcv_wnd_def Let_def)
  show "seq_num (rcv_adv (compute_rcv_wnd w))"
    using r(1) by (simp add: compute_rcv_wnd_def Let_def)
  show "seq_diff (rcv_adv (compute_rcv_wnd w)) (rcv_nxt w) = max ?d ?f"
    using g a by (simp add: compute_rcv_wnd_def Let_def del: seq_diff_mask)
qed

lemma win_ok_compute [simp]: "win_ok w \<Longrightarrow> win_ok (compute_rcv_wnd w)"
  using compute_rcv_wnd_fields [of w] win_ok_free [of w] by (auto simp: win_ok_def)

text \<open>What the sequence check does to the connection and to the segment.\<close>

lemma h_rx_seq_normal_win:
  assumes "win_ok w" "h_rx_seq_normal p w = (v, p', w')"
  shows "win_ok w' \<and> seq_diff (rcv_adv w') (rcv_nxt w') \<le> seq_diff (rcv_adv w) (rcv_nxt w)"
proof (cases "v = TCP_ACCEPT_AND_HANDLE")
  case True
  let ?d = "seq_diff (rcv_adv w) (rcv_nxt w)"
  define L where "L = min (mask32 (?d - 1)) (seq_diff (last_seq p + 1) (rcv_nxt w))"
  have r: "seq_num (rcv_nxt w)" "0 < ?d" "?d \<le> 65535" using assms(1) by (auto simp: win_ok_def DEFAULT_RCV_WND_def)
  have "mask32 (?d - 1) = ?d - 1" using r by (intro mask32_id) (simp add: seq_num_def)
  then have L: "0 \<le> L" "L \<le> ?d - 1" using r by (simp_all add: L_def)
  have w': "rcv_nxt w' = mask32 (rcv_nxt w + L)" "rcv_adv w' = rcv_adv w" "rcv_buf w' = rcv_buf w"
    using assms(2) True by (auto simp: h_rx_seq_normal_def Let_def L_def split: if_splits)
  have "seq_diff (rcv_adv w) (mask32 (rcv_nxt w + L)) = ?d - L"
    using seq_diff_base [of "rcv_adv w" "mask32 (rcv_nxt w + L)" "rcv_nxt w"] seq_diff_add [of L "rcv_nxt w"] L r
    by (auto split: if_splits)
  then show ?thesis using assms(1) w' L by (auto simp: win_ok_def)
next
  case False
  then have "w' = w" using assms(2) by (auto simp: h_rx_seq_normal_def Let_def split: if_splits)
  then show ?thesis using assms(1) by simp
qed

lemma h_rx_seq_cases:
  "h_rx_seq p w =
     (if seg_len p = 0 then (if rcv_wnd w = 0 then h_rx_seq_zlen_zwnd p w else h_rx_seq_zlen p w)
      else (if rcv_wnd w = 0 then h_rx_seq_zwnd p w else h_rx_seq_normal p w))"
  by (simp add: h_rx_seq_def rcv_seq_map_def seg_len_def or_nat_def numeral_3_eq_3 numeral_2_eq_2)

lemma win_ok_h_rx_seq: "win_ok w \<Longrightarrow> win_ok (snd (snd (h_rx_seq p w)))"
  using h_rx_seq_normal_win [of w p]
  by (cases "h_rx_seq_normal p w")
    (simp add: h_rx_seq_cases h_rx_seq_zlen_zwnd_def h_rx_seq_zlen_def h_rx_seq_zwnd_def)

lemma win_ok_rcv_update: "win_ok w \<Longrightarrow> rb_enqueue (rcv_buf w) xs = (l, b) \<Longrightarrow> rcv_buf w' = b \<Longrightarrow>
    rcv_nxt w' = rcv_nxt w \<Longrightarrow> rcv_adv w' = rcv_adv w \<Longrightarrow> win_ok w'"
  using rb_enqueue_spec(2,3) [of "rcv_buf w" xs l b] by (simp add: win_ok_def)

lemma win_ok_append [simp]: "win_ok w \<Longrightarrow> win_ok (snd (append_rcv_data p w))"
proof -
  assume "win_ok w"
  then have c: "win_ok (compute_rcv_wnd w)" by simp
  obtain l b where e: "rb_enqueue (rcv_buf (compute_rcv_wnd w)) (py_slice (sg_data p)
      (tcp_data_start (compute_rcv_wnd w)) (tcp_data_len (compute_rcv_wnd w))) = (l, b)"
    by (rule prod.exhaust)
  show ?thesis
    using c win_ok_rcv_update [OF c e] by (simp add: append_rcv_data_def Let_def e)
qed

section \<open>Every handler keeps the window well formed\<close>

lemma win_ok_upd [simp]:
  "win_ok (w\<lparr>ack_now := b\<rparr>) = win_ok w" "win_ok (w\<lparr>snd_buf := sb\<rparr>) = win_ok w"
  "win_ok (w\<lparr>rtx_timer := t\<rparr>) = win_ok w" "win_ok (w\<lparr>snd_nxt := x\<rparr>) = win_ok w"
  "win_ok (w\<lparr>now_ns := n\<rparr>) = win_ok w" "win_ok (w\<lparr>rtt := r\<rparr>) = win_ok w"
  "win_ok (w\<lparr>events := ev\<rparr>) = win_ok w"
  by (simp_all add: win_ok_def)

lemma win_ok_fin_wait_1_acked [simp]: "win_ok w \<Longrightarrow> win_ok (fin_wait_1_acked p a w)"
  by (simp add: fin_wait_1_acked_def Let_def)

lemma win_ok_accept [simp]:
  "win_ok w \<Longrightarrow> win_ok (estab_accept p w)" "win_ok w \<Longrightarrow> win_ok (fin_wait_1_accept p w)"
  "win_ok w \<Longrightarrow> win_ok (fin_wait_2_accept p w)"
  by (simp_all add: estab_accept_def fin_wait_1_accept_def fin_wait_2_accept_def Let_def split_def)

lemma win_ok_rx [simp]:
  "win_ok w \<Longrightarrow> win_ok (rx_syn_recv p w)" "win_ok w \<Longrightarrow> win_ok (rx_estab p w)"
  "win_ok w \<Longrightarrow> win_ok (rx_fin_wait_1 p w)" "win_ok w \<Longrightarrow> win_ok (rx_fin_wait_2 p w)"
  "win_ok w \<Longrightarrow> win_ok (rx_closing p w)" "win_ok w \<Longrightarrow> win_ok (rx_close_wait p w)"
  "win_ok w \<Longrightarrow> win_ok (rx_last_ack p w)" "win_ok w \<Longrightarrow> win_ok (rx_time_wait p w)"
  by (simp_all add: rx_syn_recv_def rx_estab_def rx_fin_wait_1_def rx_fin_wait_2_def rx_closing_def
      rx_close_wait_def rx_last_ack_def rx_time_wait_def Let_def split_def win_ok_h_rx_seq split: verdict.splits)

lemma win_ok_tx:
  assumes "win_ok w"
  shows "win_ok (tx_syn_sent w)" "win_ok (tx_syn_recv w)" "win_ok (tx_fin_wait_2 w)"
    "tx_estab w = Some (Inr w') \<Longrightarrow> win_ok w'" "tx_fin_wait_1 w = Some (Inr w') \<Longrightarrow> win_ok w'"
    "tx_close_wait w = Some (Inr w') \<Longrightarrow> win_ok w'" "tx_closing w = Some (Inr w') \<Longrightarrow> win_ok w'"
    "tx_last_ack w = Some (Inr w') \<Longrightarrow> win_ok w'"
  using assms
  by (auto simp: tx_syn_sent_def tx_syn_recv_def tx_fin_wait_2_def tx_estab_def tx_fin_wait_1_def
      tx_close_wait_def tx_closing_def tx_last_ack_def Let_def split_def tx_loop_win split: if_splits)

lemma win_ok_tx_raised: "win_ok w \<Longrightarrow> tx w = Some (Inl (e, w')) \<Longrightarrow> win_ok w'"
  by (rule tx_raised [where P = win_ok]) simp_all

end
