(* ===== verification/Tcp_Conn.thy ===== *)
theory Tcp_Conn
  imports Tcp_Receive
begin

text \<open>
  One connection as a transition system: the events that reach its control block (segments,
  send and retransmission events, the application's calls, the clock), the states it goes through,
  and the invariant of its receive window in every reachable state, those that an exception in a handler
  leaves behind included.
\<close>

section \<open>Operations that keep the state\<close>

locale state_frame =
  fixes h :: "fsm \<Rightarrow> fsm"
  assumes state_frame_fields [simp]: "state (h w) = state w"

sublocale ctl_frame \<subseteq> state_frame
  by unfold_locales simp

interpretation h_rx_ack_s: state_frame "\<lambda>w. snd (h_rx_ack p w)" for p
  by unfold_locales (simp add: h_rx_ack_def)

interpretation h_rx_wnd_s: state_frame "\<lambda>w. snd (h_rx_wnd p w)" for p
  by unfold_locales (simp add: h_rx_wnd_def)

interpretation estab_acked_s: state_frame "estab_acked a" for a
  by unfold_locales (simp add: estab_acked_def Let_def)

interpretation compute_rcv_wnd_s: state_frame compute_rcv_wnd
  by unfold_locales (simp add: compute_rcv_wnd_def Let_def)

interpretation append_rcv_data_s: state_frame "\<lambda>w. snd (append_rcv_data p w)" for p
  by unfold_locales (simp add: append_rcv_data_def Let_def split_def)

interpretation drain_snd_buf_s: state_frame "\<lambda>w. snd (drain_snd_buf w)"
  by unfold_locales (simp add: drain_snd_buf_def Let_def split_def)

interpretation rollback_to_una_s: state_frame rollback_to_una
  by unfold_locales (simp add: rollback_to_una_def)

interpretation back_off_rto_s: state_frame back_off_rto
  by unfold_locales (simp add: back_off_rto_def)

interpretation tx_segment_s: state_frame "tx_segment f d" for f d
  by unfold_locales (simp add: tx_segment_def Let_def)

interpretation init_snd_wnd_s: state_frame "init_snd_wnd p" for p
  by unfold_locales (simp add: init_snd_wnd_def)

interpretation init_rcv_seq_s: state_frame "init_rcv_seq p" for p
  by unfold_locales (simp add: init_rcv_seq_def Let_def)

interpretation syn_sent_data_s: state_frame "\<lambda>w. snd (syn_sent_data p w)" for p
  by unfold_locales (simp add: syn_sent_data_def Let_def split_def)

interpretation h_rx_seq_s: state_frame "\<lambda>w. snd (snd (h_rx_seq p w))" for p
  by unfold_locales (simp add: h_rx_seq_cases h_rx_seq_zlen_zwnd_def h_rx_seq_zlen_def h_rx_seq_zwnd_def
      h_rx_seq_normal_def Let_def)

section \<open>Transitions\<close>

lemma h_rx_rst_state: "state (snd (h_rx_rst p e w)) = (if fst (h_rx_rst p e w) then CLOSED else state w)"
  by (simp add: h_rx_rst_def)

lemma rst_or_close_rx_state:
  "state (snd (rst_or_close_rx p w)) = (if fst (rst_or_close_rx p w) then CLOSED else state w)"
  by (simp add: rst_or_close_rx_def h_rx_rst_def h_active_close_rx_def Let_def split_def)

lemma h_active_close_tx_state:
  "state (snd (h_active_close_tx c w)) = (if fst (h_active_close_tx c w) then CLOSED else state w)"
  by (simp add: h_active_close_tx_def)

lemma send_fin_state [simp]:
  "state (send_fin ns w) = (if sent_fin w then state w else case ns of None \<Rightarrow> state w | Some s \<Rightarrow> s)"
  by (simp add: send_fin_def Let_def split: option.splits)

lemma tx_loop_state:
  assumes "tx_loop data ns sh cl w = Some (Inr w')"
  shows "state w' = state w \<or> ns = Some (state w') \<or> state w' = CLOSED"
  by (rule tx_loop_keeps [OF assms, where P = "\<lambda>x. state x = state w \<or> ns = Some (state x) \<or> state x = CLOSED"])
    (auto simp: h_active_close_tx_state split: option.splits)

definition rx_next :: "tcp_state \<Rightarrow> tcp_state set" where
  "rx_next s = (case s of
     SYN_SENT \<Rightarrow> {SYN_SENT, SYN_RECV, ESTAB}
   | SYN_RECV \<Rightarrow> {SYN_RECV, ESTAB}
   | ESTAB \<Rightarrow> {ESTAB, CLOSE_WAIT, CLOSED}
   | FIN_WAIT_1 \<Rightarrow> {FIN_WAIT_1, FIN_WAIT_2, CLOSING, TIME_WAIT, CLOSED}
   | FIN_WAIT_2 \<Rightarrow> {FIN_WAIT_2, TIME_WAIT, CLOSED}
   | CLOSING \<Rightarrow> {CLOSING, TIME_WAIT, CLOSED}
   | CLOSE_WAIT \<Rightarrow> {CLOSE_WAIT, CLOSED}
   | LAST_ACK \<Rightarrow> {LAST_ACK, CLOSED}
   | TIME_WAIT \<Rightarrow> {TIME_WAIT}
   | CLOSED \<Rightarrow> {CLOSED}
   | LISTEN \<Rightarrow> {})"

definition tx_next :: "tcp_state \<Rightarrow> tcp_state set" where
  "tx_next s = (case s of
     ESTAB \<Rightarrow> {ESTAB, FIN_WAIT_1, CLOSED}
   | CLOSE_WAIT \<Rightarrow> {CLOSE_WAIT, LAST_ACK, CLOSED}
   | FIN_WAIT_1 \<Rightarrow> {FIN_WAIT_1, CLOSED}
   | FIN_WAIT_2 \<Rightarrow> {FIN_WAIT_2, CLOSED}
   | CLOSING \<Rightarrow> {CLOSING, CLOSED}
   | LAST_ACK \<Rightarrow> {LAST_ACK, CLOSED}
   | SYN_SENT \<Rightarrow> {SYN_SENT}
   | SYN_RECV \<Rightarrow> {SYN_RECV}
   | CLOSED \<Rightarrow> {CLOSED}
   | LISTEN \<Rightarrow> {}
   | TIME_WAIT \<Rightarrow> {})"

lemma syn_sent_state:
  "state w = SYN_SENT \<Longrightarrow> rx_syn_sent p w = Inr w' \<Longrightarrow> state w' \<in> {SYN_SENT, SYN_RECV, ESTAB}"
  by (auto simp: rx_syn_sent_def syn_sent_accept_def syn_sent_simultaneous_def Let_def split_def
      split: if_splits sum.splits)

lemma rx_handler_states:
  "state w = SYN_RECV \<Longrightarrow> state (rx_syn_recv p w) \<in> {SYN_RECV, ESTAB}"
  "state w = ESTAB \<Longrightarrow> state (rx_estab p w) \<in> {ESTAB, CLOSE_WAIT, CLOSED}"
  "state w = FIN_WAIT_1 \<Longrightarrow> state (rx_fin_wait_1 p w) \<in> {FIN_WAIT_1, FIN_WAIT_2, CLOSING, TIME_WAIT, CLOSED}"
  "state w = FIN_WAIT_2 \<Longrightarrow> state (rx_fin_wait_2 p w) \<in> {FIN_WAIT_2, TIME_WAIT, CLOSED}"
  "state w = CLOSING \<Longrightarrow> state (rx_closing p w) \<in> {CLOSING, TIME_WAIT, CLOSED}"
  "state w = CLOSE_WAIT \<Longrightarrow> state (rx_close_wait p w) \<in> {CLOSE_WAIT, CLOSED}"
  "state w = LAST_ACK \<Longrightarrow> state (rx_last_ack p w) \<in> {LAST_ACK, CLOSED}"
  "state (rx_time_wait p w) = state w"
  by (simp_all add: rx_syn_recv_def rx_estab_def estab_accept_def rx_fin_wait_1_def fin_wait_1_accept_def
      fin_wait_1_acked_def rx_fin_wait_2_def fin_wait_2_accept_def rx_closing_def rx_close_wait_def
      rx_last_ack_def rx_time_wait_def Let_def split_def h_rx_rst_state rst_or_close_rx_state
      split: verdict.splits)

lemma rx_state: "rx p w = Inr w' \<Longrightarrow> state w' \<in> rx_next (state w)"
  using rx_handler_states [where w = w and p = p] syn_sent_state [of w p w']
  by (cases "state w") (auto simp: rx_def rx_map_def rx_next_def)

lemma tx_handler_states:
  "tx_estab w = Some (Inr w') \<Longrightarrow> state w' \<in> {state w, FIN_WAIT_1, CLOSED}"
  "tx_close_wait w = Some (Inr w') \<Longrightarrow> state w' \<in> {state w, LAST_ACK, CLOSED}"
  "tx_fin_wait_1 w = Some (Inr w') \<Longrightarrow> state w' \<in> {state w, CLOSED}"
  "tx_closing w = Some (Inr w') \<Longrightarrow> state w' \<in> {state w, CLOSED}"
  "tx_last_ack w = Some (Inr w') \<Longrightarrow> state w' \<in> {state w, CLOSED}"
  "state (tx_fin_wait_2 w) \<in> {state w, CLOSED}"
  "state (tx_syn_sent w) = state w" "state (tx_syn_recv w) = state w"
  by (auto simp: tx_estab_def tx_close_wait_def tx_fin_wait_1_def tx_closing_def tx_last_ack_def
      tx_fin_wait_2_def tx_syn_sent_def tx_syn_recv_def Let_def split_def h_active_close_tx_state
      split: if_splits dest!: tx_loop_state)

lemma tx_state: "tx w = Some (Inr w') \<Longrightarrow> state w' \<in> tx_next (state w)"
  using tx_handler_states [where w = w]
  by (cases "state w") (auto simp: tx_def tx_map_def tx_next_def)

lemma rtx_state: "rtx w = Some (Inr w') \<Longrightarrow> state w' \<in> tx_next (state w)"
  unfolding rtx_def by (drule tx_state) simp

text \<open>A handler that raises leaves the state.\<close>

lemma raised_state:
  "rx p w = Inl (e, w') \<Longrightarrow> state w' = state w" "tx w = Some (Inl (e, w')) \<Longrightarrow> state w' = state w"
  "rtx w = Some (Inl (e, w')) \<Longrightarrow> state w' = state w"
proof -
  show "rx p w = Inl (e, w') \<Longrightarrow> state w' = state w" by (drule rx_raised) auto
  show "tx w = Some (Inl (e, w')) \<Longrightarrow> state w' = state w" by (rule tx_raised [where P = "\<lambda>x. state x = state w"]) simp_all
  show "rtx w = Some (Inl (e, w')) \<Longrightarrow> state w' = state w" by (rule rtx_raised [where P = "\<lambda>x. state x = state w"]) simp_all
qed

section \<open>Steps\<close>

text \<open>
  A step of a connection. With \<open>fits\<close>, the application only writes bytes that fit in the send buffer
  beside the unacknowledged ones. The environment may change everything but the control block: the
  clock, the queue of events, the timer, the tables and the other sockets.
\<close>

inductive conn_step :: "bool \<Rightarrow> fsm \<Rightarrow> fsm \<Rightarrow> bool" for fits :: bool where
  env: "tcpcb.truncate w' = tcpcb.truncate w \<Longrightarrow> conn_step fits w w'"
| segment: "seg_wf p \<Longrightarrow> rx p w = Inr w' \<Longrightarrow> conn_step fits w w'"
| send: "tx w = Some (Inr w') \<Longrightarrow> conn_step fits w w'"
| retransmit: "rtx w = Some (Inr w') \<Longrightarrow> conn_step fits w w'"
| app_send: "rrb_enqueue (snd_buf w) xs = (n, b) \<Longrightarrow>
    (fits \<longrightarrow> length (rrb_unacked (snd_buf w)) + length (rrb_contents (snd_buf w)) + length xs \<le>
      rrb_cap (snd_buf w)) \<Longrightarrow> conn_step fits w (w\<lparr>snd_buf := b\<rparr>)"
| app_recv: "rb_dequeue (rcv_buf w) n = (iov, b) \<Longrightarrow> conn_step fits w (w\<lparr>rcv_buf := b\<rparr>)"
| app_close: "conn_step fits w (w\<lparr>close_requested := True\<rparr>)"
| app_shutdown: "conn_step fits w (w\<lparr>shutdown_requested := True\<rparr>)"

text \<open>What an event leaves of the connection when its handling raises.\<close>

inductive conn_raise :: "fsm \<Rightarrow> fsm \<Rightarrow> bool" where
  segment: "seg_wf p \<Longrightarrow> rx p w = Inl (e, w') \<Longrightarrow> conn_raise w w'"
| send: "tx w = Some (Inl (e, w')) \<Longrightarrow> conn_raise w w'"
| retransmit: "rtx w = Some (Inl (e, w')) \<Longrightarrow> conn_raise w w'"

text \<open>
  A control block before its CONNECT event: only the calls of the application reach it.
\<close>

inductive conn_fresh :: "fsm \<Rightarrow> bool" where
  init: "seq_num iss0 \<Longrightarrow>
    conn_fresh (fsm_start (tcpcb_init ref l_ip l_port r_ip r_port sk opts iss0 created) now)"
| env: "conn_fresh w \<Longrightarrow> tcpcb.truncate w' = tcpcb.truncate w \<Longrightarrow> conn_fresh w'"
| app_send: "conn_fresh w \<Longrightarrow> rrb_enqueue (snd_buf w) xs = (n, b) \<Longrightarrow> conn_fresh (w\<lparr>snd_buf := b\<rparr>)"
| app_close: "conn_fresh w \<Longrightarrow> conn_fresh (w\<lparr>close_requested := True\<rparr>)"
| app_shutdown: "conn_fresh w \<Longrightarrow> conn_fresh (w\<lparr>shutdown_requested := True\<rparr>)"

inductive conn_reach :: "bool \<Rightarrow> fsm \<Rightarrow> bool" for fits :: bool where
  connect: "conn_fresh w \<Longrightarrow> conn_reach fits (tcp_fsm_connect w)"
| step: "conn_reach fits w \<Longrightarrow> conn_step fits w w' \<Longrightarrow> conn_reach fits w'"
| raised: "conn_reach fits w \<Longrightarrow> conn_raise w w' \<Longrightarrow> conn_reach fits w'"

text \<open>What the environment keeps.\<close>

lemma truncate_fields:
  assumes "tcpcb.truncate w' = tcpcb.truncate w"
  shows "state w' = state w" "rcv_buf w' = rcv_buf w" "snd_buf w' = snd_buf w" "rcv_wnd w' = rcv_wnd w"
    "rcv_nxt w' = rcv_nxt w" "rcv_adv w' = rcv_adv w" "snd_una w' = snd_una w" "snd_nxt w' = snd_nxt w"
    "rto w' = rto w" "rtx_timer w' = rtx_timer w" "iss w' = iss w" "time_wait_timer w' = time_wait_timer w"
    "cb_ref w' = cb_ref w" "so w' = so w" "lip w' = lip w" "lp w' = lp w" "rip w' = rip w" "rp w' = rp w"
    "remote_mss w' = remote_mss w" "snd_wnd w' = snd_wnd w"
  using assms by (simp_all add: tcpcb.truncate_def)

lemma conn_fresh_fields:
  assumes "conn_fresh w"
  shows "state w = CLOSED" "rcv_buf w = rb_init DEFAULT_RECV_BUFF" "rcv_wnd w = DEFAULT_RCV_WND"
    "rto w = 1" "rtx_timer w = None" "time_wait_timer w = None" "seq_num (iss w)"
  using assms
proof (induction rule: conn_fresh.induct)
  case (env w w')
  note truncate_fields [OF env.hyps(2)]
  with env.IH show "state w' = CLOSED" "rcv_buf w' = rb_init DEFAULT_RECV_BUFF" "rcv_wnd w' = DEFAULT_RCV_WND"
    "rto w' = 1" "rtx_timer w' = None" "time_wait_timer w' = None" "seq_num (iss w')"
    by simp_all
qed (simp_all add: conn_defs)

definition rcv_inv :: "fsm \<Rightarrow> bool" where
  "rcv_inv w \<longleftrightarrow> rb_inv (rcv_buf w) \<and> rb_size (rcv_buf w) = DEFAULT_RECV_BUFF \<and>
     (state w = SYN_SENT \<longrightarrow> rcv_wnd w = DEFAULT_RCV_WND) \<and>
     (state w \<notin> {LISTEN, SYN_SENT, CLOSED} \<longrightarrow> win_ok w)"

lemma fresh_connect:
  "state (tcp_fsm_connect w) = SYN_SENT" "rcv_buf (tcp_fsm_connect w) = rcv_buf w"
  "rcv_wnd (tcp_fsm_connect w) = rcv_wnd w"
  by (simp_all add: tcp_fsm_connect_def activ_open_def init_snd_seq_def Let_def)

lemma rcv_inv_connect: "conn_fresh w \<Longrightarrow> rcv_inv (tcp_fsm_connect w)"
  using rb_inv_init [of DEFAULT_RECV_BUFF]
  by (simp add: rcv_inv_def fresh_connect conn_fresh_fields) (simp add: rb_init_def DEFAULT_RECV_BUFF_def)

lemma win_ok_init:
  assumes "rcv_wnd w = DEFAULT_RCV_WND" "rb_inv (rcv_buf w)" "rb_size (rcv_buf w) = DEFAULT_RECV_BUFF"
  shows "win_ok (init_rcv_seq p w)" "seq_diff (rcv_adv (init_rcv_seq p w)) (rcv_nxt (init_rcv_seq p w)) = DEFAULT_RCV_WND"
proof -
  show d: "seq_diff (rcv_adv (init_rcv_seq p w)) (rcv_nxt (init_rcv_seq p w)) = DEFAULT_RCV_WND"
    using seq_diff_add [of DEFAULT_RCV_WND "mask32 (sg_seq p + 1)"] assms(1)
    by (simp add: init_rcv_seq_def Let_def DEFAULT_RCV_WND_def del: seq_diff_mask)
  show "win_ok (init_rcv_seq p w)"
    using d assms by (simp add: win_ok_def init_rcv_seq_def Let_def DEFAULT_RCV_WND_def)
qed

lemma win_ok_syn_data:
  assumes "win_ok w" "seq_diff (rcv_adv w) (rcv_nxt w) = DEFAULT_RCV_WND"
  shows "win_ok (snd (syn_sent_data p w))"
proof -
  obtain l b where e: "rb_enqueue (rcv_buf w) (sg_data p) = (l, b)" by (rule prod.exhaust)
  have inv: "rb_inv (rcv_buf w)" and n: "seq_num (rcv_nxt w)" using assms(1) by (simp_all add: win_ok_def)
  note spec = rb_enqueue_spec [OF inv e]
  have l: "int l < DEFAULT_RCV_WND" using spec(1) win_ok_free [OF assms(1)] by linarith
  let ?n = "mask32 (rcv_nxt w + int l)"
  have d: "seq_diff ?n (rcv_nxt w) = int l" using l by (intro seq_diff_add) (simp_all add: DEFAULT_RCV_WND_def)
  have "seq_diff (rcv_adv w) ?n = DEFAULT_RCV_WND - int l"
    using seq_diff_base [of "rcv_adv w" ?n "rcv_nxt w"] d assms(2) l by simp
  then show ?thesis
    using assms(1) spec(2,3) l by (auto simp: syn_sent_data_def e win_ok_def)
qed

interpretation init_snd_wnd_r: rcv_frame "init_snd_wnd p" for p
  by unfold_locales (simp_all add: init_snd_wnd_def)

lemma win_ok_rcv_inv: "win_ok w \<Longrightarrow> state w \<noteq> SYN_SENT \<Longrightarrow> rcv_inv w"
  by (simp add: rcv_inv_def win_ok_def)

lemma rcv_inv_same:
  "rcv_inv w \<Longrightarrow> rcv_buf w' = rcv_buf w \<Longrightarrow> rcv_wnd w' = rcv_wnd w \<Longrightarrow> state w' = state w \<Longrightarrow>
     win_ok w' = win_ok w \<Longrightarrow> rcv_inv w'"
  by (simp add: rcv_inv_def)

lemma syn_sent_accept_win:
  assumes "rcv_wnd w = DEFAULT_RCV_WND" "rb_inv (rcv_buf w)" "rb_size (rcv_buf w) = DEFAULT_RECV_BUFF"
    and "syn_sent_accept p w = Inr w'"
  shows "rcv_inv w'"
proof -
  let ?w2 = "init_snd_wnd p (init_rcv_seq p (stop_rtx_timer (rtt_sample w)))"
  obtain opts where o: "sg_options p = Inr opts"
    using assms(4) by (cases "sg_options p") (simp_all add: syn_sent_accept_def Let_def)
  define m where "m = (case opts of None \<Rightarrow> 536 | Some m \<Rightarrow> m)"
  have m: "win_ok w' = win_ok (snd (syn_sent_data p (?w2\<lparr>remote_mss := m\<rparr>)))" "state w' = ESTAB"
    using assms(4) by (auto simp: syn_sent_accept_def Let_def split_def o m_def split: if_splits)
  have "win_ok (init_rcv_seq p (stop_rtx_timer (rtt_sample w)))"
    "seq_diff (rcv_adv (init_rcv_seq p (stop_rtx_timer (rtt_sample w))))
       (rcv_nxt (init_rcv_seq p (stop_rtx_timer (rtt_sample w)))) = DEFAULT_RCV_WND"
    using assms(1-3) by (intro win_ok_init; simp)+
  then have "win_ok (?w2\<lparr>remote_mss := m\<rparr>)"
    "seq_diff (rcv_adv (?w2\<lparr>remote_mss := m\<rparr>)) (rcv_nxt (?w2\<lparr>remote_mss := m\<rparr>)) = DEFAULT_RCV_WND"
    by (simp_all add: win_ok_def init_snd_wnd_def)
  then have "win_ok w'" unfolding m(1) by (rule win_ok_syn_data)
  then show ?thesis using m(2) by (simp add: win_ok_rcv_inv)
qed

lemma syn_sent_simultaneous_win:
  assumes "rcv_wnd w = DEFAULT_RCV_WND" "rb_inv (rcv_buf w)" "rb_size (rcv_buf w) = DEFAULT_RECV_BUFF"
  shows "rcv_inv (syn_sent_simultaneous p w)"
proof -
  let ?w1 = "(rollback_to_una (stop_rtx_timer w))\<lparr>rtt := None\<rparr>"
  have "win_ok (init_rcv_seq p ?w1)"
    using assms by (intro win_ok_init) (simp_all add: rollback_to_una_def)
  then have "win_ok (syn_sent_simultaneous p w)" by (simp add: syn_sent_simultaneous_def Let_def)
  moreover have "state (syn_sent_simultaneous p w) = SYN_RECV" by (simp add: syn_sent_simultaneous_def Let_def)
  ultimately show ?thesis by (simp add: win_ok_rcv_inv)
qed

lemma rcv_inv_syn_sent:
  assumes "rcv_inv w" "state w = SYN_SENT" "rx_syn_sent p w = Inr w'"
  shows "rcv_inv w'"
proof -
  have i: "rcv_wnd w = DEFAULT_RCV_WND" "rb_inv (rcv_buf w)" "rb_size (rcv_buf w) = DEFAULT_RECV_BUFF"
    using assms(1,2) by (simp_all add: rcv_inv_def)
  have a: "rcv_wnd (snd (h_rx_ack p v)) = rcv_wnd v" for v by (simp add: h_rx_ack_def)
  show ?thesis
    using assms(3) i
    by (auto simp: rx_syn_sent_def Let_def split_def a syn_sent_simultaneous_win
        intro: rcv_inv_same [OF assms(1)] dest!: syn_sent_accept_win [rotated -1] split: if_splits)
qed

lemma rcv_inv_rx:
  assumes "rcv_inv w" "rx p w = Inr w'"
  shows "rcv_inv w'"
proof (cases "state w \<in> {SYN_SENT, CLOSED}")
  case True
  then show ?thesis using rcv_inv_syn_sent [OF assms(1)] assms by (auto simp: rx_def rx_map_def)
next
  case False
  then have s: "state w \<noteq> LISTEN" using assms(2) by (auto simp: rx_def rx_map_def)
  then have ok: "win_ok w" using assms(1) False by (simp add: rcv_inv_def)
  then have "win_ok w'" using assms(2) False s by (cases "state w") (auto simp: rx_def rx_map_def)
  moreover have "state w' \<noteq> SYN_SENT" using rx_state [OF assms(2)] False by (cases "state w") (auto simp: rx_next_def)
  ultimately show ?thesis by (rule win_ok_rcv_inv)
qed

lemma rcv_inv_tx:
  assumes "rcv_inv w" "tx w = Some (Inr w')"
  shows "rcv_inv w'"
proof (cases "state w \<in> {SYN_SENT, CLOSED}")
  case True
  then show ?thesis
    using assms by (auto simp: tx_def tx_map_def tx_syn_sent_def Let_def intro!: rcv_inv_same [OF assms(1)])
next
  case False
  then have s: "state w \<notin> {LISTEN, TIME_WAIT}" using assms(2) by (auto simp: tx_def tx_map_def)
  then have ok: "win_ok w" using assms(1) False by (simp add: rcv_inv_def)
  have "win_ok w'" using win_ok_tx [OF ok] assms(2) False s by (cases "state w") (auto simp: tx_def tx_map_def)
  moreover have "state w' \<noteq> SYN_SENT" using tx_state [OF assms(2)] False by (cases "state w") (auto simp: tx_next_def)
  ultimately show ?thesis by (rule win_ok_rcv_inv)
qed

lemma rcv_inv_rtx: "rcv_inv w \<Longrightarrow> rtx w = Some (Inr w') \<Longrightarrow> rcv_inv w'"
  unfolding rtx_def by (erule rcv_inv_tx [rotated]) (simp add: rcv_inv_def back_off_rto_def rollback_to_una_def win_ok_def)

lemma rcv_inv_step: "conn_step fits w w' \<Longrightarrow> rcv_inv w \<Longrightarrow> rcv_inv w'"
proof (induction rule: conn_step.induct)
  case (env w' w)
  then show ?case using truncate_fields [OF env.hyps] by (simp add: rcv_inv_def win_ok_def)
next
  case (app_recv w n iov b)
  have "rb_inv (rcv_buf w)" using app_recv.prems by (simp add: rcv_inv_def)
  from rb_dequeue_spec(1,2) [OF this app_recv.hyps] show ?case
    using app_recv.prems by (simp add: rcv_inv_def win_ok_def)
next
  case (segment p w w')
  show ?case by (rule rcv_inv_rx [OF segment.prems segment.hyps(2)])
next
  case (send w w')
  show ?case by (rule rcv_inv_tx [OF send.prems send.hyps])
next
  case (retransmit w w')
  show ?case by (rule rcv_inv_rtx [OF retransmit.prems retransmit.hyps])
qed (simp_all add: rcv_inv_def win_ok_def)

lemma rcv_inv_tx_raised:
  assumes "rcv_inv w" "tx w = Some (Inl (e, w'))"
  shows "rcv_inv w'"
proof (cases "state w \<in> {LISTEN, SYN_SENT, CLOSED}")
  case True
  then have "w' = w" using assms(2) by (auto simp: tx_def tx_map_def)
  then show ?thesis using assms(1) by simp
next
  case False
  then have "win_ok w'" using assms(1) by (intro win_ok_tx_raised [OF _ assms(2)]) (simp add: rcv_inv_def)
  then show ?thesis using raised_state(2) [OF assms(2)] False by (intro win_ok_rcv_inv) simp_all
qed

lemma rcv_inv_raised: "conn_raise w w' \<Longrightarrow> rcv_inv w \<Longrightarrow> rcv_inv w'"
proof (induction rule: conn_raise.induct)
  case (segment p w e w')
  have a: "rcv_wnd (snd (h_rx_ack p v)) = rcv_wnd v" for v by (simp add: h_rx_ack_def)
  show ?case
    using rx_raised [OF segment.hyps(2)] segment.prems a
    by (auto simp: rcv_inv_def init_rcv_seq_def init_snd_wnd_def Let_def)
next
  case (send w e w')
  show ?case by (rule rcv_inv_tx_raised [OF send.prems send.hyps])
next
  case (retransmit w e w')
  have "rcv_inv ((rollback_to_una (back_off_rto w))\<lparr>rtx_timer := None\<rparr>)"
    using retransmit.prems by (simp add: rcv_inv_def back_off_rto_def rollback_to_una_def win_ok_def)
  then show ?case using rcv_inv_tx_raised retransmit.hyps by (auto simp: rtx_def)
qed

lemma reach_rcv_inv: "conn_reach fits w \<Longrightarrow> rcv_inv w"
  by (induction rule: conn_reach.induct) (simp_all add: rcv_inv_connect rcv_inv_step rcv_inv_raised)

section \<open>A simultaneous open\<close>

definition syn_example :: tcp_seg where
  "syn_example = (seg_example 5 0)\<lparr>sg_flags := 0x02\<rparr>"

lemma syn_example_rx:
  "rx syn_example (tcp_fsm_connect w) = Inr (syn_sent_simultaneous syn_example (tcp_fsm_connect w))"
  by (simp add: rx_def rx_map_def fresh_connect rx_syn_sent_def syn_example_def sg_rst_def sg_fin_def
      sg_syn_def sg_ack_def)

lemma syn_sent_simultaneous_state [simp]: "state (syn_sent_simultaneous p w) = SYN_RECV"
  by (simp add: syn_sent_simultaneous_def Let_def)

lemma syn_example_wf: "seg_wf syn_example"
  by (simp add: seg_wf_def seg_ok_def seq_num_def syn_example_def seg_example_def)

lemma conn_example_reach: "seq_num isn \<Longrightarrow> conn_reach fits (tcp_fsm_connect (conn_example isn))"
  unfolding conn_example_def by (intro conn_reach.connect conn_fresh.init)

lemma simultaneous_reach:
  "seq_num isn \<Longrightarrow> conn_reach fits (syn_sent_simultaneous syn_example (tcp_fsm_connect (conn_example isn)))"
  by (rule conn_reach.step [OF conn_example_reach conn_step.segment [OF syn_example_wf syn_example_rx]])

section \<open>Properties\<close>

text \<open>C12. Every event moves a connection along the state diagram of RFC 9293 and never otherwise:
  segments and send or retransmission events lead only to the successors listed in \<open>rx_next\<close> and
  \<open>tx_next\<close>.\<close>

theorem state_transitions:
  "(\<forall>p w'. rx p w = Inr w' \<longrightarrow> state w' \<in> rx_next (state w)) \<and>
   (\<forall>w'. tx w = Some (Inr w') \<longrightarrow> state w' \<in> tx_next (state w)) \<and>
   (\<forall>w'. rtx w = Some (Inr w') \<longrightarrow> state w' \<in> tx_next (state w))"
  using rx_state tx_state rtx_state by blast

theorem state_transitions_witness:
  "rx syn_example (tcp_fsm_connect (conn_example 100)) =
     Inr (syn_sent_simultaneous syn_example (tcp_fsm_connect (conn_example 100))) \<and>
   state (syn_sent_simultaneous syn_example (tcp_fsm_connect (conn_example 100))) \<in> {SYN_SENT, SYN_RECV, ESTAB}"
  using state_transitions [of "tcp_fsm_connect (conn_example 100)"] syn_example_rx
  by (auto simp: fresh_connect rx_next_def)

text \<open>C11. In every reachable state past SYN-SENT the receive window is well formed: RCV.NXT and
  RCV.ADV are 32-bit numbers at a distance between 1 and 65535, and the receive buffer keeps its
  invariant, whatever segments arrive and whatever the application does. This is what the
  acceptability test relies on.\<close>

theorem receive_window_invariant:
  assumes "conn_reach fits w" "state w \<notin> {LISTEN, SYN_SENT, CLOSED}"
  shows "rcv_seqs_ok w \<and> seq_diff (rcv_adv w) (rcv_nxt w) \<le> DEFAULT_RCV_WND \<and> rb_inv (rcv_buf w)"
  using reach_rcv_inv [OF assms(1)] assms(2)
  by (auto simp: rcv_inv_def win_ok_def rcv_seqs_ok_def DEFAULT_RCV_WND_def)

theorem receive_window_invariant_witness:
  "rcv_seqs_ok (syn_sent_simultaneous syn_example (tcp_fsm_connect (conn_example 100)))"
  using receive_window_invariant [OF simultaneous_reach [where isn = 100 and fits = False]] by (simp add: seq_num_def)

end
