(* ===== verification/Tcp_Own.thy ===== *)
theory Tcp_Own
  imports Tcp_Conn
begin

text \<open>
  What a handler of one connection leaves alone. The handlers reach the parts of the core all
  connections share: the socket table, the timer, the queue of events, the error fields and condition
  variables of the sockets, and the segments to send. The relation \<open>own\<close> between the state before and
  after says that only what belongs to the connection has changed; every handler satisfies it.
\<close>

section \<open>The timer\<close>

definition own_call :: "nat \<Rightarrow> timer_call \<Rightarrow> bool" where
  "own_call ref call \<longleftrightarrow> call = ScheduleRtx ref \<or> call = RemoveTcpcb ref"

definition call_at :: "'c timer \<Rightarrow> nat \<Rightarrow> 'c option" where
  "call_at tm k = map_option tt_call (tm_store tm k)"

text \<open>Every task that was ever scheduled is known under its number.\<close>

definition timer_wf :: "'c timer \<Rightarrow> bool" where
  "timer_wf tm \<longleftrightarrow> timer_inv tm \<and> (\<forall>k. tm_store tm k \<noteq> None \<longleftrightarrow> k < tm_counter tm)"

text \<open>New tasks are those of the connection \<open>ref\<close>, and of the old ones only its own may be removed.\<close>

definition timer_own :: "nat \<Rightarrow> timer_call timer \<Rightarrow> timer_call timer \<Rightarrow> bool" where
  "timer_own ref tm tm' \<longleftrightarrow> tm_counter tm \<le> tm_counter tm' \<and> set (tm_tasks tm) \<subseteq> set (tm_tasks tm') \<and>
     (\<forall>k<tm_counter tm. call_at tm' k = call_at tm k) \<and>
     (\<forall>k<tm_counter tm. (\<forall>call. call_at tm k = Some call \<longrightarrow> \<not> own_call ref call) \<longrightarrow> tm_store tm' k = tm_store tm k) \<and>
     (\<forall>k call. tm_counter tm \<le> k \<longrightarrow> call_at tm' k = Some call \<longrightarrow> own_call ref call)"

lemma timer_wf_fresh: "timer_wf tm \<Longrightarrow> tm_counter tm \<le> k \<Longrightarrow> tm_store tm k = None"
  by (metis leD timer_wf_def)

lemma timer_own_refl: "timer_wf tm \<Longrightarrow> timer_own ref tm tm"
  by (auto simp: timer_own_def call_at_def timer_wf_fresh)

lemma timer_own_trans:
  assumes "timer_own ref a b" "timer_own ref b c" "timer_wf b"
  shows "timer_own ref a c"
proof -
  have 1: "tm_counter a \<le> tm_counter b" "tm_counter b \<le> tm_counter c"
    using assms(1,2) by (simp_all add: timer_own_def)
  have "own_call ref call" if "tm_counter a \<le> k" "call_at c k = Some call" for k call
    using that assms(1,2) unfolding timer_own_def by (metis not_less)
  moreover have "call_at c k = call_at a k" if "k < tm_counter a" for k
    using that 1 assms(1,2) by (simp add: timer_own_def)
  moreover have "tm_store c k = tm_store a k"
    if "k < tm_counter a" "\<forall>call. call_at a k = Some call \<longrightarrow> \<not> own_call ref call" for k
  proof -
    have "tm_store b k = tm_store a k" using that assms(1) by (simp add: timer_own_def)
    moreover have "call_at b k = call_at a k" using that assms(1) by (simp add: timer_own_def)
    moreover have "tm_store c k = tm_store b k" using that 1 calculation assms(2) by (simp add: timer_own_def)
    ultimately show ?thesis by simp
  qed
  moreover have "set (tm_tasks a) \<subseteq> set (tm_tasks c)" using assms(1,2) by (auto simp: timer_own_def)
  ultimately show ?thesis using 1 by (auto simp: timer_own_def)
qed

lemma schedule_timer_wf:
  assumes "timer_wf tm" "schedule_timer now e call tm = (k, tm')"
  shows "timer_wf tm'" "k = tm_counter tm" "call_at tm' k = Some call"
    "\<And>j. j < tm_counter tm \<Longrightarrow> tm_store tm' j = tm_store tm j" "own_call ref call \<Longrightarrow> timer_own ref tm tm'"
proof -
  have inv: "timer_inv tm" using assms(1) by (simp add: timer_wf_def)
  have k: "k = tm_counter tm" and c: "tm_counter tm' = Suc (tm_counter tm)"
    and s: "tm_store tm' = (tm_store tm)(tm_counter tm \<mapsto> timer_task_init now e call)"
    and t: "set (tm_tasks tm) \<subseteq> set (tm_tasks tm')"
    using assms(2) by (auto simp: schedule_timer_def Let_def)
  show "k = tm_counter tm" by fact
  show "timer_wf tm'"
    using assms(1) timer_inv_schedule(1) [OF inv assms(2)] s c by (auto simp: timer_wf_def)
  show call: "call_at tm' k = Some call" by (simp add: call_at_def s k timer_task_init_def)
  show st: "tm_store tm' j = tm_store tm j" if "j < tm_counter tm" for j using that by (simp add: s)
  have new: "j = tm_counter tm" if "tm_counter tm \<le> j" "call_at tm' j = Some d" for j d
    using that timer_wf_fresh [OF assms(1), of j] by (auto simp: call_at_def s split: if_splits)
  show "timer_own ref tm tm'" if o: "own_call ref call"
  proof -
    have "own_call ref d" if "tm_counter tm \<le> j" "call_at tm' j = Some d" for j d
      using new [OF that] that(2) call k o by simp
    then show ?thesis unfolding timer_own_def using c t st by (auto simp: call_at_def)
  qed
qed

lemma timer_remove_wf:
  assumes "timer_wf tm"
  shows "timer_wf (timer_remove k tm)" "call_at (timer_remove k tm) j = call_at tm j"
    "\<forall>call. call_at tm k = Some call \<longrightarrow> own_call ref call \<Longrightarrow> timer_own ref tm (timer_remove k tm)"
proof -
  show c: "call_at (timer_remove k tm) j = call_at tm j" for j
    by (simp add: call_at_def timer_remove_def option.map_comp o_def)
  have "tm_store (timer_remove k tm) j \<noteq> None \<longleftrightarrow> tm_store tm j \<noteq> None" for j
    by (simp add: timer_remove_def)
  then show "timer_wf (timer_remove k tm)"
    using assms unfolding timer_wf_def by (simp add: timer_remove_def [of k tm, THEN arg_cong, of tm_counter])
  show "timer_own ref tm (timer_remove k tm)" if o: "\<forall>call. call_at tm k = Some call \<longrightarrow> own_call ref call"
  proof -
    have none: "call_at tm j = None" if "tm_counter tm \<le> j" for j
      using that by (simp add: call_at_def timer_wf_fresh [OF assms])
    have "tm_store (timer_remove k tm) j = tm_store tm j"
      if "\<forall>call. call_at tm j = Some call \<longrightarrow> \<not> own_call ref call" for j
      using that o by (cases "tm_store tm j") (auto simp: timer_remove_def call_at_def)
    then show ?thesis unfolding timer_own_def using none c by (auto simp: timer_remove_def)
  qed
qed

section \<open>The tables, queues and sockets\<close>

definition table_own :: "sock_id \<Rightarrow> (nat, nat) tcp_table \<Rightarrow> (nat, nat) tcp_table \<Rightarrow> bool" where
  "table_own sid t t' \<longleftrightarrow> (t' = t \<or> t' = table_remove_tcpcb sid (tcp_remove_socket sid t))"

lemma table_own_step: "table_own sid t t' \<Longrightarrow> table_own sid t (table_remove_tcpcb sid (tcp_remove_socket sid t'))"
  by (auto simp: table_own_def table_remove_tcpcb_def tcp_remove_socket_def)

definition own_timers :: "fsm \<Rightarrow> bool" where
  "own_timers w \<longleftrightarrow> timer_wf (timer w) \<and>
     (\<forall>k. rtx_timer w = Some k \<longrightarrow> call_at (timer w) k = Some (ScheduleRtx (cb_ref w))) \<and>
     (\<forall>k. time_wait_timer w = Some k \<longrightarrow> call_at (timer w) k = Some (RemoveTcpcb (cb_ref w)))"

definition own_conds :: "nat \<Rightarrow> cond set" where
  "own_conds s = {ConnectEvents s, RecvEvents s, SendEvents s}"

definition own_seg :: "fsm \<Rightarrow> out_seg \<Rightarrow> bool" where
  "own_seg w s \<longleftrightarrow> os_src s = (lip w, lp w) \<and> os_dst s = (rip w, rp w)"

definition own :: "fsm \<Rightarrow> fsm \<Rightarrow> bool" where
  "own w w' \<longleftrightarrow> cb_ref w' = cb_ref w \<and> so w' = so w \<and>
     lip w' = lip w \<and> lp w' = lp w \<and> rip w' = rip w \<and> rp w' = rp w \<and> now_ns w' = now_ns w \<and>
     (own_timers w \<longrightarrow> own_timers w' \<and> timer_own (cb_ref w) (timer w) (timer w')) \<and>
     (\<exists>es. events w' = events w @ es \<and> set es \<subseteq> {TCPEvent SEND (Some (cb_ref w)) None}) \<and>
     (\<exists>ss. tx_log w' = tx_log w @ ss \<and> (\<forall>s\<in>set ss. own_seg w s)) \<and>
     table_own (socket_id w) (tcp_tbl w) (tcp_tbl w') \<and>
     (\<forall>r. r \<noteq> so w \<longrightarrow> so_error w' r = so_error w r) \<and>
     (\<exists>ns. notified w' = notified w @ ns \<and> set ns \<subseteq> own_conds (so w))"

lemma own_refl [simp]: "own w w"
  by (simp add: own_def table_own_def timer_own_refl own_timers_def)

text \<open>Assignments to the other fields of the control block.\<close>

lemma own_upd [simp]:
  "own w (v\<lparr>snd_buf := a1\<rparr>) = own w v" "own w (v\<lparr>rcv_buf := a2\<rparr>) = own w v"
  "own w (v\<lparr>snd_una := a3\<rparr>) = own w v" "own w (v\<lparr>snd_nxt := a3\<rparr>) = own w v"
  "own w (v\<lparr>snd_wnd := a3\<rparr>) = own w v" "own w (v\<lparr>snd_max := a3\<rparr>) = own w v"
  "own w (v\<lparr>snd_wl1 := a3\<rparr>) = own w v" "own w (v\<lparr>snd_wl2 := a3\<rparr>) = own w v"
  "own w (v\<lparr>rcv_nxt := a3\<rparr>) = own w v" "own w (v\<lparr>rcv_wnd := a3\<rparr>) = own w v"
  "own w (v\<lparr>rcv_adv := a3\<rparr>) = own w v" "own w (v\<lparr>irs := a3\<rparr>) = own w v"
  "own w (v\<lparr>remote_mss := a3\<rparr>) = own w v" "own w (v\<lparr>ack_now := a4\<rparr>) = own w v"
  "own w (v\<lparr>sent_fin := a4\<rparr>) = own w v" "own w (v\<lparr>rto := a5\<rparr>) = own w v"
  "own w (v\<lparr>rtt := a6\<rparr>) = own w v" "own w (v\<lparr>srtt := a6\<rparr>) = own w v" "own w (v\<lparr>rttvar := a6\<rparr>) = own w v"
  "own w (v\<lparr>challenge_ack_limit := a3\<rparr>) = own w v" "own w (v\<lparr>last_challenge_ack_timestamp := a3\<rparr>) = own w v"
  "own w (v\<lparr>state := a7\<rparr>) = own w v" "own w (v\<lparr>prev_state := a7\<rparr>) = own w v"
  "own w (v\<lparr>tcp_data_start := a3\<rparr>) = own w v" "own w (v\<lparr>tcp_data_len := a3\<rparr>) = own w v"
  by (simp_all add: own_def own_timers_def)

lemma own_rtx_timer_None [simp]: "own w v \<Longrightarrow> own w (v\<lparr>rtx_timer := None\<rparr>)"
  by (simp add: own_def own_timers_def)


section \<open>The helpers\<close>

lemma own_trans:
  assumes "own a b" "own b c"
  shows "own a c"
proof -
  have ref: "cb_ref b = cb_ref a" "so b = so a" "socket_id b = socket_id a" "own_seg b = own_seg a"
    using assms(1) by (auto simp: own_def socket_id_def own_seg_def)
  have "own_timers c \<and> timer_own (cb_ref a) (timer a) (timer c)" if "own_timers a"
    using that assms ref timer_own_trans [of "cb_ref a" "timer a" "timer b" "timer c"]
    by (auto simp: own_def own_timers_def)
  moreover have "\<exists>es. events c = events a @ es \<and> set es \<subseteq> {TCPEvent SEND (Some (cb_ref a)) None}"
    using assms ref by (fastforce simp: own_def)
  moreover have "\<exists>ss. tx_log c = tx_log a @ ss \<and> (\<forall>s\<in>set ss. own_seg a s)"
    using assms ref by (fastforce simp: own_def)
  moreover have "\<exists>ns. notified c = notified a @ ns \<and> set ns \<subseteq> own_conds (so a)"
    using assms ref by (fastforce simp: own_def)
  moreover have "table_own (socket_id a) (tcp_tbl a) (tcp_tbl c)"
    using assms ref table_own_step [of "socket_id a" "tcp_tbl a" "tcp_tbl b"]
    by (auto simp: own_def table_own_def [of _ "tcp_tbl b"])
  ultimately show ?thesis using assms ref by (simp add: own_def)
qed

text \<open>The contract of a helper: it changes only what belongs to its connection.\<close>

locale own_op =
  fixes h :: "fsm \<Rightarrow> fsm"
  assumes own_op: "own w (h w)"
begin

lemma own_after [simp]: "own w v \<Longrightarrow> own w (h v)"
  using own_trans own_op by blast

end

lemma own_tx_tcp [simp]: "own_seg v s \<Longrightarrow> own w v \<Longrightarrow> own w (tx_tcp s v)"
  by (rule own_trans [of w v]) (simp_all add: own_def tx_tcp_def own_timers_def timer_own_refl table_own_def)

lemma own_seg_fields [simp]: "own_seg w (ack_seg w)" "own_seg w (seg0 w)"
  "own_seg w (s\<lparr>os_seq := a\<rparr>) = own_seg w s" "own_seg w (s\<lparr>os_ack := b\<rparr>) = own_seg w s"
  "own_seg w (s\<lparr>os_ack_seq := a\<rparr>) = own_seg w s" "own_seg w (s\<lparr>os_rst := b\<rparr>) = own_seg w s"
  "own_seg w (s\<lparr>os_window := a\<rparr>) = own_seg w s" "own_seg w (s\<lparr>os_syn := b\<rparr>) = own_seg w s"
  "own_seg w (s\<lparr>os_fin := b\<rparr>) = own_seg w s" "own_seg w (s\<lparr>os_psh := b\<rparr>) = own_seg w s"
  "own_seg w (s\<lparr>os_mss := b\<rparr>) = own_seg w s" "own_seg w (s\<lparr>os_data := d\<rparr>) = own_seg w s"
  by (simp_all add: own_seg_def ack_seg_def seg0_def)

lemma own_notify [simp]: "c \<in> own_conds (so v) \<Longrightarrow> own w v \<Longrightarrow> own w (notify c v)"
  by (rule own_trans [of w v]) (simp_all add: own_def notify_def own_timers_def timer_own_refl table_own_def)

lemma own_conds_members [simp]:
  "ConnectEvents s \<in> own_conds s" "RecvEvents s \<in> own_conds s" "SendEvents s \<in> own_conds s"
  by (simp_all add: own_conds_def)

interpretation schedule_send_own: own_op schedule_send
  by unfold_locales
    (simp add: own_def schedule_send_def schedule_event_def own_timers_def timer_own_refl table_own_def)

interpretation set_so_error_own: own_op "set_so_error e" for e
  by unfold_locales (simp add: own_def set_so_error_def own_timers_def timer_own_refl table_own_def)

interpretation remove_tcpcb_own: own_op remove_tcpcb
  by unfold_locales (simp add: own_def remove_tcpcb_def own_timers_def timer_own_refl table_own_def)

text \<open>A helper that only touches the timers, with the timers it starts and stops being its own.\<close>

locale own_timer_op = data_frame h + out_frame h + env_frame h for h :: "fsm \<Rightarrow> fsm" +
  assumes timers_own: "own_timers w \<Longrightarrow> own_timers (h w) \<and> timer_own (cb_ref w) (timer w) (timer (h w))"

sublocale own_timer_op \<subseteq> own_op h
  by unfold_locales (simp add: own_def table_own_def timers_own)

lemma own_timersD:
  assumes "own_timers w"
  shows "timer_wf (timer w)" "\<forall>k. rtx_timer w = Some k \<longrightarrow> call_at (timer w) k = Some (ScheduleRtx (cb_ref w))"
    "\<forall>k. time_wait_timer w = Some k \<longrightarrow> call_at (timer w) k = Some (RemoveTcpcb (cb_ref w))"
    "timer_own ref (timer w) (timer w)"
  using assms by (simp_all add: own_timers_def timer_own_refl)

lemma schedule_rtx_timers:
  assumes "timer_wf (timer w)" "\<forall>k. time_wait_timer w = Some k \<longrightarrow> call_at (timer w) k = Some (RemoveTcpcb (cb_ref w))"
  shows "own_timers (schedule_rtx w) \<and> timer_own (cb_ref w) (timer w) (timer (schedule_rtx w))"
proof -
  obtain k tm where s: "schedule_timer (now_ns w) (rto w) (ScheduleRtx (cb_ref w)) (timer w) = (k, tm)"
    by (rule prod.exhaust)
  note wf = schedule_timer_wf [OF assms(1) s]
  have lt: "j < tm_counter (timer w)" if "call_at (timer w) j = Some c" for j c
    using that timer_wf_fresh [OF assms(1), of j] by (cases "j < tm_counter (timer w)") (auto simp: call_at_def)
  have w: "schedule_rtx w = w\<lparr>timer := tm, rtx_timer := Some k\<rparr>" by (simp add: schedule_rtx_def s)
  show ?thesis
    using wf assms lt unfolding w by (auto simp: own_timers_def own_call_def call_at_def)
qed

lemma start_time_wait_timers:
  assumes "timer_wf (timer w)" "\<forall>k. rtx_timer w = Some k \<longrightarrow> call_at (timer w) k = Some (ScheduleRtx (cb_ref w))"
  shows "own_timers (start_time_wait_timer w) \<and> timer_own (cb_ref w) (timer w) (timer (start_time_wait_timer w))"
proof -
  obtain k tm where s: "schedule_timer (now_ns w) TIME_WAIT_TIMEOUT (RemoveTcpcb (cb_ref w)) (timer w) = (k, tm)"
    by (rule prod.exhaust)
  note wf = schedule_timer_wf [OF assms(1) s]
  have lt: "j < tm_counter (timer w)" if "call_at (timer w) j = Some c" for j c
    using that timer_wf_fresh [OF assms(1), of j] by (cases "j < tm_counter (timer w)") (auto simp: call_at_def)
  have w: "start_time_wait_timer w = w\<lparr>timer := tm, time_wait_timer := Some k\<rparr>"
    by (simp add: start_time_wait_timer_def s)
  show ?thesis
    using wf assms lt unfolding w by (auto simp: own_timers_def own_call_def call_at_def)
qed

lemma remove_own_timers:
  assumes "own_timers w" "rtx_timer w = Some k \<or> time_wait_timer w = Some k"
  shows "own_timers (w\<lparr>timer := timer_remove k (timer w)\<rparr>) \<and>
    timer_own (cb_ref w) (timer w) (timer_remove k (timer w))"
  using assms timer_remove_wf [of "timer w" k] by (auto simp: own_timers_def own_call_def)

interpretation schedule_rtx_own: own_timer_op schedule_rtx
  by unfold_locales (intro schedule_rtx_timers own_timersD)

interpretation start_rtx_timer_own: own_timer_op start_rtx_timer
  by unfold_locales (simp add: start_rtx_timer_def own_timersD(4) schedule_rtx_own.timers_own)

interpretation stop_rtx_timer_own: own_timer_op stop_rtx_timer
proof unfold_locales
  show "own_timers (stop_rtx_timer w) \<and> timer_own (cb_ref w) (timer w) (timer (stop_rtx_timer w))"
    if "own_timers w" for w
    using that remove_own_timers [OF that] own_timersD(4) [OF that]
    by (auto simp: stop_rtx_timer_def own_timers_def split: option.split)
qed

interpretation restart_rtx_timer_own: own_timer_op restart_rtx_timer
proof unfold_locales
  show "own_timers (restart_rtx_timer w) \<and> timer_own (cb_ref w) (timer w) (timer (restart_rtx_timer w))"
    if o: "own_timers w" for w
  proof (cases "rtx_timer w")
    case None
    then show ?thesis using schedule_rtx_own.timers_own [OF o] by (simp add: restart_rtx_timer_def)
  next
    case (Some k)
    let ?v = "w\<lparr>timer := timer_remove k (timer w)\<rparr>"
    have v: "own_timers ?v" "timer_own (cb_ref w) (timer w) (timer ?v)"
      using remove_own_timers [OF o] Some by auto
    have "timer_wf (timer ?v)" using v(1) by (simp add: own_timers_def)
    with v schedule_rtx_own.timers_own [OF v(1)] timer_own_trans [OF v(2)] show ?thesis
      by (simp add: restart_rtx_timer_def Some)
  qed
qed

interpretation start_time_wait_timer_own: own_timer_op start_time_wait_timer
  by unfold_locales (intro start_time_wait_timers own_timersD)

interpretation stop_time_wait_timer_own: own_timer_op stop_time_wait_timer
proof unfold_locales
  show "own_timers (stop_time_wait_timer w) \<and> timer_own (cb_ref w) (timer w) (timer (stop_time_wait_timer w))"
    if "own_timers w" for w
    using that remove_own_timers [OF that] own_timersD(4) [OF that]
    by (auto simp: stop_time_wait_timer_def own_timers_def split: option.split)
qed


interpretation change_state_own: own_op "change_state ns" for ns
  by unfold_locales (simp add: change_state_def split: option.split)

interpretation rtt_probe_own: own_op rtt_probe
  by unfold_locales (simp add: rtt_probe_def)

interpretation rtt_sample_own: own_op rtt_sample
  by unfold_locales (simp add: rtt_sample_def set_new_rto_def set_initial_rto_def Let_def split: option.split)

interpretation back_off_rto_own: own_op back_off_rto
  by unfold_locales (simp add: back_off_rto_def)

interpretation rollback_to_una_own: own_op rollback_to_una
  by unfold_locales (simp add: rollback_to_una_def)

interpretation compute_rcv_wnd_own: own_op compute_rcv_wnd
  by unfold_locales (simp add: compute_rcv_wnd_def Let_def)

interpretation set_ack_now_own: own_op "set_ack_now p" for p
  by unfold_locales (simp add: set_ack_now_def)

interpretation stop_all_timers_own: own_op stop_all_timers
  by unfold_locales (simp add: stop_all_timers_def)

interpretation signal_rst_own: own_op signal_rst
  by unfold_locales (simp add: signal_rst_def)

interpretation send_ack_own: own_op send_ack
  by unfold_locales (simp add: send_ack_def)

interpretation send_rst_own: own_op send_rst
  by unfold_locales (simp add: send_rst_def)

interpretation drop_with_reset_own: own_op "drop_with_reset p" for p
  by unfold_locales (simp add: drop_with_reset_def)

interpretation send_challenge_ack_own: own_op send_challenge_ack
  by unfold_locales (simp add: send_challenge_ack_def Let_def)

interpretation send_fin_own: own_op "send_fin ns" for ns
  by unfold_locales (simp add: send_fin_def fin_seg_def Let_def)

interpretation tx_segment_own: own_op "tx_segment f d" for f d
  by unfold_locales (simp add: tx_segment_def data_seg_def Let_def)

interpretation init_snd_seq_own: own_op init_snd_seq
  by unfold_locales (simp add: init_snd_seq_def)

interpretation init_snd_wnd_own: own_op "init_snd_wnd p" for p
  by unfold_locales (simp add: init_snd_wnd_def)

interpretation init_rcv_seq_own: own_op "init_rcv_seq p" for p
  by unfold_locales (simp add: init_rcv_seq_def Let_def)

interpretation syn_sent_data_own: own_op "\<lambda>w. snd (syn_sent_data p w)" for p
  by unfold_locales (simp add: syn_sent_data_def split_def Let_def)

interpretation h_rx_ack_own: own_op "\<lambda>w. snd (h_rx_ack p w)" for p
  by unfold_locales (simp add: h_rx_ack_def)

interpretation h_rx_wnd_own: own_op "\<lambda>w. snd (h_rx_wnd p w)" for p
  by unfold_locales (simp add: h_rx_wnd_def)

interpretation h_rx_seq_own: own_op "\<lambda>w. snd (snd (h_rx_seq p w))" for p
  by unfold_locales (simp add: h_rx_seq_cases h_rx_seq_zlen_zwnd_def h_rx_seq_zlen_def h_rx_seq_zwnd_def h_rx_seq_normal_def Let_def)

interpretation h_rx_rst_own: own_op "\<lambda>w. snd (h_rx_rst p e w)" for p e
  by unfold_locales (simp add: h_rx_rst_def)

interpretation h_active_close_tx_own: own_op "\<lambda>w. snd (h_active_close_tx c w)" for c
  by unfold_locales (simp add: h_active_close_tx_def)

interpretation rst_or_close_rx_own: own_op "\<lambda>w. snd (rst_or_close_rx p w)" for p
  by unfold_locales (simp add: rst_or_close_rx_def h_active_close_rx_def split_def Let_def)

interpretation append_rcv_data_own: own_op "\<lambda>w. snd (append_rcv_data p w)" for p
  by unfold_locales (simp add: append_rcv_data_def split_def Let_def)

interpretation drain_snd_buf_own: own_op "\<lambda>w. snd (drain_snd_buf w)"
  by unfold_locales (simp add: drain_snd_buf_def split_def Let_def)

interpretation estab_acked_own: own_op "estab_acked a" for a
  by unfold_locales (simp add: estab_acked_def Let_def)

interpretation fin_wait_1_acked_own: own_op "fin_wait_1_acked p a" for p a
  by unfold_locales (simp add: fin_wait_1_acked_def Let_def)

section \<open>The handlers\<close>

lemma tx_loop_own:
  assumes "tx_loop data ns sh cl v = Some (Inr w')" "own w v"
  shows "own w w'"
  by (rule tx_loop_keeps [OF assms(1), where P = "own w"]) (simp_all add: assms(2))

lemma rx_handlers_own:
  "own w (rx_syn_recv p w)" "own w (rx_estab p w)" "own w (rx_fin_wait_1 p w)" "own w (rx_fin_wait_2 p w)"
  "own w (rx_closing p w)" "own w (rx_close_wait p w)" "own w (rx_last_ack p w)" "own w (rx_time_wait p w)"
  by (simp_all add: rx_syn_recv_def rx_estab_def estab_accept_def rx_fin_wait_1_def fin_wait_1_accept_def
      rx_fin_wait_2_def fin_wait_2_accept_def rx_closing_def rx_close_wait_def rx_last_ack_def rx_time_wait_def
      Let_def split_def split: verdict.split)

lemma rx_syn_sent_own: "rx_syn_sent p w = Inr w' \<Longrightarrow> own w w'"
  by (auto simp: rx_syn_sent_def syn_sent_accept_def syn_sent_simultaneous_def Let_def split_def
      split: if_splits sum.splits)

lemma rx_own: "rx p w = Inr w' \<Longrightarrow> own w w'"
  using rx_handlers_own [of w p] rx_syn_sent_own [of p w w'] by (cases "state w") (auto simp: rx_def rx_map_def)

lemma tx_own: "tx w = Some (Inr w') \<Longrightarrow> own w w'"
  by (cases "state w")
    (auto simp: tx_def tx_map_def tx_estab_def tx_close_wait_def tx_fin_wait_1_def tx_fin_wait_2_def
      tx_closing_def tx_last_ack_def tx_syn_sent_def tx_syn_recv_def Let_def split_def
      split: if_splits dest!: tx_loop_own)

lemma rtx_own: "rtx w = Some (Inr w') \<Longrightarrow> own w w'"
  unfolding rtx_def by (drule tx_own) (erule own_trans [rotated], simp)

lemma raised_own:
  "rx p w = Inl (e, w') \<Longrightarrow> own w w'" "tx w = Some (Inl (e, w')) \<Longrightarrow> own w w'" "rtx w = Some (Inl (e, w')) \<Longrightarrow> own w w'"
proof -
  have seg: "own_seg v (data_seg f d v)" for v f d by (simp add: data_seg_def)
  have same: "own w w" by (simp add: own_def own_timers_def timer_own_refl table_own_def)
  show "rx p w = Inl (e, w') \<Longrightarrow> own w w'" using same by (auto dest!: rx_raised)
  show "tx w = Some (Inl (e, w')) \<Longrightarrow> own w w'"
    by (erule tx_raised [where P = "own w"]) (simp_all add: seg same)
  show "rtx w = Some (Inl (e, w')) \<Longrightarrow> own w w'"
    by (erule rtx_raised [where P = "own w"]) (simp_all add: seg same)
qed

lemma connect_own: "own w (tcp_fsm_connect w)"
  by (simp add: tcp_fsm_connect_def activ_open_def Let_def)

end
