(* ===== verification/Core_Wf.thy ===== *)
theory Core_Wf
  imports Core_Frame Sock_Api Tcp_Own
begin

text \<open>
  The type invariant of the core: what the references between its parts mean. Sockets, control blocks and
  timer tasks are referred to by numbers; \<open>core_wf\<close> says that every reference found in a table, in
  the queue of events, in the timer or in a control block leads to an object of the right kind, and that every
  control block is a connection of theory \<open>Tcp_Conn\<close>: one that waits for its CONNECT event, or one
  that is reachable there. This theory shows that received frames, timers and TCP events keep it.
\<close>

section \<open>The invariant\<close>

definition sock_is :: "sock_kind \<Rightarrow> core \<Rightarrow> nat \<Rightarrow> bool" where
  "sock_is k c r \<longleftrightarrow> (\<exists>s. c_socks c r = Some s \<and> s_kind s = k)"

definition socks_wf :: "core \<Rightarrow> bool" where
  "socks_wf c \<longleftrightarrow> (\<forall>r s. c_socks c r = Some s \<longrightarrow> r < c_next_ref c) \<and>
     (\<forall>sid r. udp_sockets (c_udp c) sid = Some r \<longrightarrow> sock_is UDPSocket c r) \<and>
     (\<forall>sid r. tcp_sockets (c_tcp c) sid = Some r \<longrightarrow> sock_is TCPSocket c r) \<and>
     (\<forall>sid r. rip_sockets (c_rip c) sid = Some r \<longrightarrow> sock_is RIPSocket c r)"

definition connect_event :: "nat \<Rightarrow> tcp_event" where
  "connect_event r = TCPEvent CONNECT (Some r) None"

definition connecting :: "core \<Rightarrow> nat \<Rightarrow> bool" where
  "connecting c r \<longleftrightarrow> connect_event r \<in> set (c_events c)"

definition cb_fresh :: "tcpcb \<Rightarrow> bool" where
  "cb_fresh cb \<longleftrightarrow> (\<exists>w. conn_fresh w \<and> tcpcb.truncate w = cb)"

definition cb_live :: "tcpcb \<Rightarrow> bool" where
  "cb_live cb \<longleftrightarrow> (\<exists>w. conn_reach False w \<and> tcpcb.truncate w = cb)"

definition live :: "core \<Rightarrow> nat \<Rightarrow> bool" where
  "live c r \<longleftrightarrow> c_tcpcbs c r \<noteq> None \<and> \<not> connecting c r"

text \<open>A control block, with the timers it refers to.\<close>

definition cb_wf :: "core \<Rightarrow> nat \<Rightarrow> tcpcb \<Rightarrow> bool" where
  "cb_wf c r cb \<longleftrightarrow> r < c_next_ref c \<and> cb_ref cb = r \<and> sock_is TCPSocket c (so cb) \<and>
     (\<forall>k. rtx_timer cb = Some k \<longrightarrow> call_at (c_timer c) k = Some (ScheduleRtx r)) \<and>
     (\<forall>k. time_wait_timer cb = Some k \<longrightarrow> call_at (c_timer c) k = Some (RemoveTcpcb r))"

definition cbs_wf :: "core \<Rightarrow> bool" where
  "cbs_wf c \<longleftrightarrow> (\<forall>r cb. c_tcpcbs c r = Some cb \<longrightarrow> cb_wf c r cb) \<and>
     (\<forall>sid r. tcp_tcpcbs (c_tcp c) sid = Some r \<longrightarrow> (\<exists>cb. c_tcpcbs c r = Some cb \<and> socket_id cb = sid))"

definition conns_wf :: "core \<Rightarrow> bool" where
  "conns_wf c \<longleftrightarrow> (\<forall>r cb. c_tcpcbs c r = Some cb \<longrightarrow> (if connecting c r then cb_fresh cb else cb_live cb)) \<and>
     (\<forall>r. count_list (c_events c) (connect_event r) \<le> 1)"

definition timer_calls_wf :: "core \<Rightarrow> bool" where
  "timer_calls_wf c \<longleftrightarrow> timer_wf (c_timer c) \<and>
     (\<forall>k call r. call_at (c_timer c) k = Some call \<longrightarrow> own_call r call \<longrightarrow> live c r)"

text \<open>A segment is queued for the control block of its two ports.\<close>

fun event_wf :: "core \<Rightarrow> tcp_event \<Rightarrow> bool" where
  "event_wf c (TCPEvent RX_SEGMENT t p) \<longleftrightarrow> (\<exists>q. p = Some q \<and> seg_wf q \<and>
     (\<forall>r. t = Some r \<longrightarrow> (\<exists>cb. c_tcpcbs c r = Some cb \<and> lp cb = sg_dst q \<and> rp cb = sg_src q)))"
| "event_wf c (TCPEvent RTX t p) \<longleftrightarrow> p = None \<and> (\<exists>r. t = Some r \<and> live c r)"
| "event_wf c (TCPEvent ty t p) \<longleftrightarrow> p = None \<and> (\<exists>r. t = Some r \<and> c_tcpcbs c r \<noteq> None)"

definition events_wf :: "core \<Rightarrow> bool" where
  "events_wf c \<longleftrightarrow> (\<forall>ev\<in>set (c_events c). event_wf c ev)"

definition core_wf :: "core \<Rightarrow> bool" where
  "core_wf c \<longleftrightarrow> socks_wf c \<and> cbs_wf c \<and> conns_wf c \<and> timer_calls_wf c \<and> events_wf c"

lemmas core_wf_parts = core_wf_def socks_wf_def cbs_wf_def conns_wf_def timer_calls_wf_def events_wf_def

text \<open>It depends on the sockets, the tables, the control blocks, the events, the timer and the next number only.\<close>

definition wf_view :: "core \<Rightarrow> core" where
  "wf_view c = c\<lparr>c_arp_cache := Map.empty, c_arp_wait_list := {}, c_arp_wait_prob_list := {},
     c_fragments_cache := Map.empty, c_pending := Map.empty, c_tx_ring := [], c_conflict_ips := [],
     c_unicast_ip := None, c_rx_ip_enabled := False, c_so_error := (\<lambda>_. NoErr), c_notified := [], c_now_ns := 0,
     c_drawn := 0\<rparr>"

lemma event_wf_view: "event_wf (wf_view c) ev = event_wf c ev"
  by (rule event_wf.cases [of "(c, ev)"]) (auto simp: wf_view_def live_def connecting_def)

lemma core_wf_view: "core_wf (wf_view c) = core_wf c"
proof -
  have "events_wf (wf_view c) = events_wf c"
    unfolding events_wf_def event_wf_view by (simp add: wf_view_def)
  moreover have "conns_wf (wf_view c) = conns_wf c" by (simp add: conns_wf_def connecting_def wf_view_def)
  moreover have "cbs_wf (wf_view c) = cbs_wf c" by (simp add: cbs_wf_def cb_wf_def sock_is_def wf_view_def)
  moreover have "socks_wf (wf_view c) = socks_wf c" by (simp add: socks_wf_def sock_is_def wf_view_def)
  moreover have "timer_calls_wf (wf_view c) = timer_calls_wf c"
    by (simp add: timer_calls_wf_def live_def connecting_def wf_view_def)
  ultimately show ?thesis by (simp add: core_wf_def)
qed

lemma core_wf_cong: "wf_view c' = wf_view c \<Longrightarrow> core_wf c' = core_wf c"
  by (metis core_wf_view)


section \<open>Elementary changes\<close>

lemma event_wf_mono:
  assumes "event_wf c ev"
    and "\<And>r cb. c_tcpcbs c r = Some cb \<Longrightarrow> \<exists>cb'. c_tcpcbs c' r = Some cb' \<and> lp cb' = lp cb \<and> rp cb' = rp cb"
    and "\<And>r. live c r \<Longrightarrow> live c' r"
  shows "event_wf c' ev"
  using assms by (cases "(c, ev)" rule: event_wf.cases) (fastforce)+

lemma events_wf_mono:
  assumes "\<forall>ev\<in>set es. event_wf c ev"
    and "\<And>r cb. c_tcpcbs c r = Some cb \<Longrightarrow> \<exists>cb'. c_tcpcbs c' r = Some cb' \<and> lp cb' = lp cb \<and> rp cb' = rp cb"
    and "\<And>r. live c r \<Longrightarrow> live c' r"
  shows "\<forall>ev\<in>set es. event_wf c' ev"
  using assms event_wf_mono by blast

lemma core_wf_timer:
  assumes "core_wf c" "timer_wf tm"
    and keep: "\<And>k call. call_at (c_timer c) k = Some call \<Longrightarrow> call_at tm k = Some call"
    and new: "\<And>k call r. call_at tm k = Some call \<Longrightarrow> own_call r call \<Longrightarrow> live c r"
  shows "core_wf (c\<lparr>c_timer := tm\<rparr>)"
proof -
  have l: "live (c\<lparr>c_timer := tm\<rparr>) = live c" "connecting (c\<lparr>c_timer := tm\<rparr>) = connecting c"
    by (simp_all add: live_def connecting_def fun_eq_iff)
  have "events_wf (c\<lparr>c_timer := tm\<rparr>)"
    using assms(1) events_wf_mono [of "c_events c" c "c\<lparr>c_timer := tm\<rparr>"] l
    by (simp add: core_wf_def events_wf_def)
  moreover have "cbs_wf (c\<lparr>c_timer := tm\<rparr>)"
    using assms(1) keep by (simp add: core_wf_def cbs_wf_def cb_wf_def sock_is_def)
  moreover have "timer_calls_wf (c\<lparr>c_timer := tm\<rparr>)"
    using assms(2) new l by (simp add: timer_calls_wf_def)
  ultimately show ?thesis
    using assms(1) l by (simp add: core_wf_def conns_wf_def socks_wf_def sock_is_def)
qed

lemma core_wf_schedule:
  assumes "core_wf c" "net_call call" "schedule_timer (c_now_ns c) e call (c_timer c) = (k, tm)"
  shows "core_wf (c\<lparr>c_timer := tm\<rparr>)"
proof (rule core_wf_timer [OF assms(1)])
  have wf: "timer_wf (c_timer c)"
    and own: "\<And>k call r. call_at (c_timer c) k = Some call \<Longrightarrow> own_call r call \<Longrightarrow> live c r"
    using assms(1) by (auto simp: core_wf_def timer_calls_wf_def)
  note s = schedule_timer_wf [OF wf assms(3)]
  have lt: "j < tm_counter (c_timer c)" if "call_at (c_timer c) j = Some d" for j d
    using that timer_wf_fresh [OF wf, of j] by (cases "j < tm_counter (c_timer c)") (auto simp: call_at_def)
  show "timer_wf tm" by (rule s(1))
  show "call_at tm j = Some d" if "call_at (c_timer c) j = Some d" for j d
    using that s(4) [OF lt [OF that]] by (simp add: call_at_def)
  show "live c r" if "call_at tm j = Some d" "own_call r d" for j d r
  proof (cases "j = k")
    case True
    then show ?thesis using that s(3) assms(2) by (auto simp: own_call_def)
  next
    case False
    have "tm_store tm j = tm_store (c_timer c) j"
      using assms(3) False by (auto simp: schedule_timer_def Let_def)
    then show ?thesis using own that by (simp add: call_at_def)
  qed
qed

lemma core_wf_remove_timer:
  assumes "core_wf c"
  shows "core_wf (c\<lparr>c_timer := timer_remove k (c_timer c)\<rparr>)"
proof -
  have "timer_wf (c_timer c)" using assms by (simp add: core_wf_def timer_calls_wf_def)
  then show ?thesis
    using assms timer_remove_wf [of "c_timer c" k]
    by (intro core_wf_timer) (auto simp: core_wf_def timer_calls_wf_def)
qed

lemma connecting_append [simp]:
  "ev_type ev \<noteq> CONNECT \<Longrightarrow> connecting (c\<lparr>c_events := c_events c @ [ev]\<rparr>) = connecting c"
  by (auto simp: connecting_def connect_event_def fun_eq_iff)

lemma core_wf_event:
  assumes "core_wf c" "event_wf c ev" "ev_type ev \<noteq> CONNECT"
  shows "core_wf (c\<lparr>c_events := c_events c @ [ev]\<rparr>)"
proof -
  let ?c = "c\<lparr>c_events := c_events c @ [ev]\<rparr>"
  have l: "live ?c = live c" "connecting ?c = connecting c"
    using assms(3) by (simp_all add: live_def fun_eq_iff)
  have "events_wf ?c"
    using assms(1,2) events_wf_mono [of "c_events c @ [ev]" c ?c] l by (simp add: core_wf_def events_wf_def)
  moreover have "conns_wf ?c"
    using assms(1,3) l by (auto simp: core_wf_def conns_wf_def connect_event_def)
  ultimately show ?thesis
    using assms(1) l by (simp add: core_wf_def cbs_wf_def cb_wf_def socks_wf_def sock_is_def timer_calls_wf_def)
qed

lemma core_wf_socks:
  assumes "core_wf c" "\<And>s. s_kind (f s) = s_kind s"
  shows "core_wf (c\<lparr>c_socks := (c_socks c)(ref := map_option f (c_socks c ref))\<rparr>)"
proof -
  let ?c = "c\<lparr>c_socks := (c_socks c)(ref := map_option f (c_socks c ref))\<rparr>"
  have s: "sock_is k ?c r = sock_is k c r" for k r using assms(2) by (auto simp: sock_is_def)
  have l: "live ?c = live c" "connecting ?c = connecting c" by (simp_all add: live_def connecting_def fun_eq_iff)
  have "events_wf ?c"
    using assms(1) events_wf_mono [of "c_events c" c ?c] l by (simp add: core_wf_def events_wf_def)
  moreover have "socks_wf ?c"
    using assms(1) s by (auto simp: core_wf_def socks_wf_def)
  ultimately show ?thesis
    using assms(1) l s by (simp add: core_wf_def cbs_wf_def cb_wf_def conns_wf_def timer_calls_wf_def)
qed

lemma core_wf_tables:
  assumes "core_wf c"
    and "\<And>sid r. udp_sockets u sid = Some r \<Longrightarrow> sock_is UDPSocket c r"
    and "\<And>sid r. tcp_sockets t sid = Some r \<Longrightarrow> sock_is TCPSocket c r"
    and "\<And>sid r. rip_sockets i sid = Some r \<Longrightarrow> sock_is RIPSocket c r"
    and "\<And>sid r. tcp_tcpcbs t sid = Some r \<Longrightarrow> tcp_tcpcbs (c_tcp c) sid = Some r"
  shows "core_wf (c\<lparr>c_udp := u, c_tcp := t, c_rip := i\<rparr>)"
proof -
  let ?c = "c\<lparr>c_udp := u, c_tcp := t, c_rip := i\<rparr>"
  have s: "sock_is k ?c r = sock_is k c r" for k r by (simp add: sock_is_def)
  have l: "live ?c = live c" "connecting ?c = connecting c" by (simp_all add: live_def connecting_def fun_eq_iff)
  have "events_wf ?c"
    using assms(1) events_wf_mono [of "c_events c" c ?c] l by (simp add: core_wf_def events_wf_def)
  moreover have "socks_wf ?c" using assms s by (auto simp: core_wf_def socks_wf_def)
  moreover have "cbs_wf ?c" using assms s by (simp add: core_wf_def cbs_wf_def cb_wf_def)
  ultimately show ?thesis
    using assms(1) l by (simp add: core_wf_def conns_wf_def timer_calls_wf_def)
qed


lemma core_wfD:
  assumes "core_wf c"
  shows "udp_sockets (c_udp c) sid = Some r \<Longrightarrow> sock_is UDPSocket c r"
    "tcp_sockets (c_tcp c) sid = Some r \<Longrightarrow> sock_is TCPSocket c r"
    "rip_sockets (c_rip c) rid = Some r \<Longrightarrow> sock_is RIPSocket c r"
    "tcp_tcpcbs (c_tcp c) sid = Some r \<Longrightarrow> \<exists>cb. c_tcpcbs c r = Some cb \<and> socket_id cb = sid"
    "c_tcpcbs c r = Some cb \<Longrightarrow> cb_wf c r cb" "ev \<in> set (c_events c) \<Longrightarrow> event_wf c ev"
    "timer_wf (c_timer c)" "call_at (c_timer c) k = Some call \<Longrightarrow> own_call r call \<Longrightarrow> live c r"
  using assms by (auto simp: core_wf_def socks_wf_def cbs_wf_def events_wf_def timer_calls_wf_def simp del: split_paired_All)

lemma core_wf_tcp_table:
  assumes "core_wf c"
    and "\<And>sid r. tcp_sockets t sid = Some r \<Longrightarrow> sock_is TCPSocket c r"
    and "\<And>sid r. tcp_tcpcbs t sid = Some r \<Longrightarrow> tcp_tcpcbs (c_tcp c) sid = Some r"
  shows "core_wf (c\<lparr>c_tcp := t\<rparr>)"
  using core_wf_tables [of c "c_udp c" t "c_rip c"] core_wfD(1,3) [OF assms(1)] assms by simp

lemma table_own_wf:
  assumes "core_wf c" "table_own sid (c_tcp c) t"
  shows "core_wf (c\<lparr>c_tcp := t\<rparr>)"
proof (rule core_wf_tcp_table [OF assms(1)])
  show "sock_is TCPSocket c r" if "tcp_sockets t i = Some r" for i r
    using that assms(2) by (intro core_wfD(2) [OF assms(1), of i])
      (auto simp: table_own_def table_remove_tcpcb_def tcp_remove_socket_def split: if_splits)
  show "tcp_tcpcbs (c_tcp c) i = Some r" if "tcp_tcpcbs t i = Some r" for i r
    using that assms(2) by (auto simp: table_own_def table_remove_tcpcb_def tcp_remove_socket_def split: if_splits)
qed

section \<open>Received frames and timers\<close>

definition wf_kept :: "core \<Rightarrow> core \<Rightarrow> bool" where
  "wf_kept c c' \<longleftrightarrow> (core_wf c \<longrightarrow> core_wf c')"

lemma wf_kept_view: "wf_view c' = wf_view c \<Longrightarrow> wf_kept c c'"
  using core_wf_cong [of c' c] by (simp add: wf_kept_def)

lemma rx_event_wf:
  assumes "core_wf c" "rx_event c ev"
  shows "event_wf c ev" "ev_type ev = RX_SEGMENT"
proof -
  from assms(2) obtain l r p frame where p: "tcp_parse frame = Inr p"
    and ev: "ev = TCPEvent RX_SEGMENT (tcp_tcpcbs (c_tcp c) (l, sg_dst p, r, sg_src p)) (Some p)"
    by (auto simp: rx_event_def)
  have "\<exists>cb. c_tcpcbs c ref = Some cb \<and> lp cb = sg_dst p \<and> rp cb = sg_src p"
    if "tcp_tcpcbs (c_tcp c) (l, sg_dst p, r, sg_src p) = Some ref" for ref
    using core_wfD(4) [OF assms(1) that] by (auto simp: socket_id_def)
  then show "event_wf c ev" "ev_type ev = RX_SEGMENT"
    using tcp_parse_ok [OF p] by (auto simp: ev seg_wf_def)
qed

interpretation wfk: packet_frame wf_kept
proof unfold_locales
  show "wf_kept c c" for c by (simp add: wf_kept_def)
  show "wf_kept a c" if "wf_kept a b" "wf_kept b c" for a b c using that by (simp add: wf_kept_def)
  show "wf_kept c (c\<lparr>c_timer := snd (schedule_timer (c_now_ns c) e call (c_timer c))\<rparr>)" if "net_call call" for c e call
    using core_wf_schedule [OF _ that] unfolding wf_kept_def by (metis prod.collapse)
  show "wf_kept c (c\<lparr>c_timer := timer_remove k (c_timer c)\<rparr>)" for c k
    by (simp add: wf_kept_def core_wf_remove_timer)
  show "wf_kept c (c\<lparr>c_socks := (c_socks c)(ref := map_option (\<lambda>s. s\<lparr>s_queue := s_queue s @ [packet]\<rparr>) (c_socks c ref))\<rparr>)"
    for c ref packet
    unfolding wf_kept_def by (intro impI core_wf_socks) simp_all
  show "wf_kept c (c\<lparr>c_events := c_events c @ [ev]\<rparr>)" if "rx_event c ev" for c ev
    using rx_event_wf [OF _ that] core_wf_event [of c ev] unfolding wf_kept_def by simp
qed (simp_all add: wf_kept_view wf_view_def)

lemma core_wf_handle_packet: "core_wf c \<Longrightarrow> handle_packet ef c = Some (r, c') \<Longrightarrow> core_wf c'"
  using wfk.handle_packet_R by (simp add: wf_kept_def)

lemma core_wf_send_segments: "core_wf c \<Longrightarrow> for_op ss core_tx_tcp c = Some (r, c') \<Longrightarrow> core_wf c'"
  using wfk.keepsD [OF wfk.keeps_for [OF wfk.keeps_out(2)], of ss "\<lambda>s. s"] by (simp add: wf_kept_def)

lemma core_wf_remove_tcpcb: "core_wf c \<Longrightarrow> core_remove_tcpcb ref c = Some (r, c') \<Longrightarrow> core_wf c'"
  by (auto simp: core_remove_tcpcb_def table_own_def intro!: table_own_wf split: option.splits)

text \<open>A call that the timer runs was scheduled for an object that still exists.\<close>

definition call_wf :: "core \<Rightarrow> timer_call \<Rightarrow> bool" where
  "call_wf c call \<longleftrightarrow> (\<forall>r. own_call r call \<longrightarrow> live c r)"



lemma keeps_net_calls:
  "keeps wf_kept (flush_entry ip)" "keeps wf_kept (probe_done ip)" "keeps wf_kept (arp_wait_remove ip)"
  "keeps wf_kept (reass_timer_exceeded ipf bid)"
  unfolding flush_entry_def probe_done_def arp_wait_remove_def reass_timer_exceeded_def icmp_defragment_exceeded_def
  by (intro wfk.keeps_core wfk.keeps_out wfk.keeps_upd wf_kept_view; simp add: wf_view_def)+

lemma core_wf_run_call:
  assumes "core_wf c" "call_wf c call" "run_call call c = Some (r, c')"
  shows "core_wf c'"
proof (cases call)
  case (ScheduleRtx ref)
  then have "event_wf c (TCPEvent RTX (Some ref) None)" using assms(2) by (simp add: call_wf_def own_call_def)
  then show ?thesis using core_wf_event [OF assms(1)] assms(3) ScheduleRtx by auto
next
  case (RemoveTcpcb ref)
  then show ?thesis using core_wf_remove_tcpcb [OF assms(1)] assms(3) by simp
qed (use assms wfk.keepsD [OF keeps_net_calls(1)] wfk.keepsD [OF keeps_net_calls(2)]
    wfk.keepsD [OF keeps_net_calls(3)] wfk.keepsD [OF keeps_net_calls(4)] in \<open>auto simp: wf_kept_def\<close>)

lemma keeps_execute_task: "keeps wf_kept (execute_task k)"
proof -
  have "core_wf c'" if "execute_task k c = Some (r, c')" "core_wf c" for c r c'
  proof (cases "task_execute (c_timer c) k")
    case None
    then show ?thesis using that by (simp add: execute_task_def)
  next
    case (Some call)
    then have "call_at (c_timer c) k = Some call"
      by (auto simp: task_execute_def call_at_def split: option.splits if_splits)
    then have "call_wf c call" using core_wfD(8) [OF that(2)] by (simp add: call_wf_def)
    then show ?thesis using core_wf_run_call that Some by (simp add: execute_task_def)
  qed
  then show ?thesis by (simp add: keeps_def wf_kept_def)
qed

lemma core_wf_timer_pass:
  assumes "core_wf c" "timer_loop_pass c = Some (r, c')"
  shows "core_wf c'"
proof -
  obtain ready tm where t: "timer_pass (c_now_ns c) (c_timer c) = (ready, tm)" by (rule prod.exhaust)
  have wf: "timer_wf (c_timer c)" by (rule core_wfD(7) [OF assms(1)])
  then have tm: "timer_wf tm" "tm_store tm = tm_store (c_timer c)"
    using t timer_inv_pass [of "c_timer c" "c_now_ns c"]
    by (auto simp: timer_wf_def timer_pass_def Let_def split: prod.splits)
  have "core_wf (c\<lparr>c_timer := tm\<rparr>)"
    using tm core_wfD(8) [OF assms(1)] by (intro core_wf_timer [OF assms(1)]) (simp_all add: call_at_def)
  moreover have "for_op ready execute_task (c\<lparr>c_timer := tm\<rparr>) = Some (r, c')"
    using assms(2) by (simp add: timer_loop_pass_def t)
  ultimately show ?thesis
    using wfk.keepsD [OF wfk.keeps_for [OF keeps_execute_task], of ready "\<lambda>k. k"] by (simp add: wf_kept_def)
qed


section \<open>TCP events\<close>

lemma fsm_of_fields [simp]:
  "cb_ref (fsm_of cb c) = cb_ref cb" "so (fsm_of cb c) = so cb" "lip (fsm_of cb c) = lip cb" "lp (fsm_of cb c) = lp cb"
  "rip (fsm_of cb c) = rip cb" "rp (fsm_of cb c) = rp cb" "rtx_timer (fsm_of cb c) = rtx_timer cb"
  "time_wait_timer (fsm_of cb c) = time_wait_timer cb" "so_error (fsm_of cb c) = c_so_error c"
  "tcp_tbl (fsm_of cb c) = c_tcp c" "timer (fsm_of cb c) = c_timer c" "events (fsm_of cb c) = c_events c"
  "tx_log (fsm_of cb c) = []" "notified (fsm_of cb c) = c_notified c" "tcpcb.truncate (fsm_of cb c) = cb"
  by (simp_all add: fsm_of_def tcpcb.defs fsm.defs)

lemma truncate_sels [simp]:
  "cb_ref (tcpcb.truncate w) = cb_ref w" "so (tcpcb.truncate w) = so w" "lip (tcpcb.truncate w) = lip w"
  "lp (tcpcb.truncate w) = lp w" "rip (tcpcb.truncate w) = rip w" "rp (tcpcb.truncate w) = rp w"
  "rtx_timer (tcpcb.truncate w) = rtx_timer w" "time_wait_timer (tcpcb.truncate w) = time_wait_timer w"
  "snd_buf (tcpcb.truncate w) = snd_buf w" "rcv_buf (tcpcb.truncate w) = rcv_buf w"
  "socket_id (tcpcb.truncate w) = socket_id w"
  by (simp_all add: tcpcb.truncate_def socket_id_def)

lemma cb_live_fsm: "cb_live cb \<Longrightarrow> conn_reach False (fsm_of cb c)"
  unfolding cb_live_def by (metis conn_reach.step conn_step.env fsm_of_fields(15))

lemma cb_fresh_fsm: "cb_fresh cb \<Longrightarrow> conn_fresh (fsm_of cb c)"
  unfolding cb_fresh_def by (metis conn_fresh.env fsm_of_fields(15))

text \<open>A segment or a send event that reaches a control block before its CONNECT event changes nothing.\<close>

lemma fresh_ignores:
  assumes "conn_fresh w"
  shows "rx p w = Inr w" "tx w = Some (Inr w)"
  using conn_fresh_fields(1) [OF assms] by (simp_all add: rx_def rx_map_def tx_def tx_map_def)

text \<open>
  The state that the handler of an event leaves: \<open>c\<close> is the core without the event, in which the control
  block \<open>r\<close> may still be fresh, and \<open>w\<close> what the handler made of it.
\<close>

definition handled :: "core \<Rightarrow> nat \<Rightarrow> tcpcb \<Rightarrow> fsm \<Rightarrow> bool" where
  "handled c r cb w \<longleftrightarrow> socks_wf c \<and> cbs_wf c \<and> timer_calls_wf c \<and> events_wf c \<and> c_tcpcbs c r = Some cb \<and>
     own (fsm_of cb c) w \<and> (connecting c r \<longrightarrow> timer w = c_timer c)"

lemma handledD:
  assumes "handled c r cb w"
  shows "cb_wf c r cb" "own_timers w" "timer_own r (c_timer c) (timer w)" "timer_wf (c_timer c)"
    "table_own (socket_id cb) (c_tcp c) (tcp_tbl w)" "c_tcpcbs c r = Some cb"
    "cb_ref w = r" "so w = so cb" "socket_id w = socket_id cb" "lp w = lp cb" "rp w = rp cb"
    "\<exists>es. events w = c_events c @ es \<and> set es \<subseteq> {TCPEvent SEND (Some r) None}"
proof -
  have own: "own (fsm_of cb c) w" and h: "cb_wf c r cb" "timer_wf (c_timer c)"
    using assms by (auto simp: handled_def cbs_wf_def timer_calls_wf_def)
  then have "own_timers (fsm_of cb c)" by (auto simp: own_timers_def cb_wf_def)
  then show "cb_wf c r cb" "own_timers w" "timer_own r (c_timer c) (timer w)" "timer_wf (c_timer c)"
    "table_own (socket_id cb) (c_tcp c) (tcp_tbl w)" "c_tcpcbs c r = Some cb"
    "cb_ref w = r" "so w = so cb" "socket_id w = socket_id cb" "lp w = lp cb" "rp w = rp cb"
    "\<exists>es. events w = c_events c @ es \<and> set es \<subseteq> {TCPEvent SEND (Some r) None}"
    using own h assms by (auto simp: own_def cb_wf_def handled_def socket_id_def)
qed

lemma core_of_fields [simp]:
  "c_tcpcbs (core_of w c) = (c_tcpcbs c)(cb_ref w \<mapsto> tcpcb.truncate w)" "c_timer (core_of w c) = timer w"
  "c_tcp (core_of w c) = tcp_tbl w" "c_events (core_of w c) = events w" "c_socks (core_of w c) = c_socks c"
  "c_next_ref (core_of w c) = c_next_ref c" "c_udp (core_of w c) = c_udp c" "c_rip (core_of w c) = c_rip c"
  "c_so_error (core_of w c) = so_error w" "c_notified (core_of w c) = notified w"
  by (simp_all add: core_of_def)

lemma sock_is_core_of [simp]: "sock_is k (core_of w c) i = sock_is k c i"
  by (simp add: sock_is_def)

lemma handled_connecting:
  assumes "handled c r cb w"
  shows "connecting (core_of w c) i = connecting c i" "live c i \<Longrightarrow> live (core_of w c) i"
    "count_list (events w) (connect_event i) = count_list (c_events c) (connect_event i)"
proof -
  obtain es where es: "events w = c_events c @ es" "set es \<subseteq> {TCPEvent SEND (Some r) None}"
    using handledD(12) [OF assms] by blast
  show c: "connecting (core_of w c) i = connecting c i"
    using es by (auto simp: connecting_def connect_event_def)
  show "live (core_of w c) i" if "live c i" using that c by (auto simp: live_def)
  have "connect_event i \<notin> set es" using es(2) by (auto simp: connect_event_def)
  then show "count_list (events w) (connect_event i) = count_list (c_events c) (connect_event i)"
    by (simp add: es(1))
qed

lemma handled_socks: "handled c r cb w \<Longrightarrow> socks_wf (core_of w c)"
  using handledD(5) [of c r cb w]
  by (auto simp: handled_def socks_wf_def table_own_def table_remove_tcpcb_def tcp_remove_socket_def
      simp del: split_paired_All split: if_splits)

lemma handled_call_at:
  assumes "handled c r cb w" "call_at (c_timer c) k = Some d"
  shows "call_at (timer w) k = Some d"
  using assms(2) handledD(3) [OF assms(1)] timer_wf_fresh [OF handledD(4) [OF assms(1)], of k]
  by (cases "k < tm_counter (c_timer c)") (auto simp: timer_own_def call_at_def)

lemma handled_cbs:
  assumes "handled c r cb w"
  shows "cbs_wf (core_of w c)"
proof -
  note h = handledD [OF assms]
  have wf: "cbs_wf c" using assms by (simp add: handled_def)
  have "cb_wf (core_of w c) i b" if "c_tcpcbs (core_of w c) i = Some b" for i b
  proof (cases "i = r")
    case True
    then show ?thesis using that h(1,2,7,8) by (auto simp: cb_wf_def own_timers_def)
  next
    case False
    then have "cb_wf c i b" using that wf h(7) by (simp add: cbs_wf_def)
    then show ?thesis using handled_call_at [OF assms] by (auto simp: cb_wf_def)
  qed
  moreover have "\<exists>b. c_tcpcbs (core_of w c) i = Some b \<and> socket_id b = sid" if "tcp_tcpcbs (tcp_tbl w) sid = Some i" for sid i
  proof -
    have "tcp_tcpcbs (c_tcp c) sid = Some i"
      using that h(5) by (auto simp: table_own_def table_remove_tcpcb_def tcp_remove_socket_def split: if_splits)
    then obtain b where "c_tcpcbs c i = Some b" "socket_id b = sid" using wf unfolding cbs_wf_def by blast
    then show ?thesis using h(6,7,9) by auto
  qed
  ultimately show ?thesis by (simp add: cbs_wf_def)
qed

lemma handled_timer_calls:
  assumes "handled c r cb w"
  shows "timer_calls_wf (core_of w c)"
proof -
  note h = handledD [OF assms]
  have "live (core_of w c) i" if "call_at (timer w) k = Some d" "own_call i d" for k d i
  proof (cases "k < tm_counter (c_timer c)")
    case True
    then have "call_at (c_timer c) k = Some d" using that h(3) by (simp add: timer_own_def)
    then show ?thesis
      using that handled_connecting(2) [OF assms] assms by (simp add: handled_def timer_calls_wf_def)
  next
    case False
    then have "own_call r d" using that h(3) unfolding timer_own_def by (metis not_less)
    moreover have "timer w \<noteq> c_timer c" using False that timer_wf_fresh [OF h(4), of k] by (auto simp: call_at_def)
    ultimately have "\<not> connecting c r" "i = r" using that assms by (auto simp: handled_def own_call_def)
    then show ?thesis using h(7) handled_connecting(1) [OF assms] by (simp add: live_def)
  qed
  then show ?thesis using h(2) by (simp add: timer_calls_wf_def own_timers_def)
qed

lemma handled_events:
  assumes "handled c r cb w"
  shows "events_wf (core_of w c)"
proof -
  note h = handledD [OF assms]
  have "\<forall>ev\<in>set (c_events c). event_wf (core_of w c) ev"
  proof (rule events_wf_mono)
    show "\<forall>ev\<in>set (c_events c). event_wf c ev" using assms by (simp add: handled_def events_wf_def)
    show "live (core_of w c) i" if "live c i" for i by (rule handled_connecting(2) [OF assms that])
    show "\<exists>b'. c_tcpcbs (core_of w c) i = Some b' \<and> lp b' = lp b \<and> rp b' = rp b" if "c_tcpcbs c i = Some b" for i b
      using that h(6,7,10,11) by auto
  qed
  moreover obtain es where es: "events w = c_events c @ es" "set es \<subseteq> {TCPEvent SEND (Some r) None}"
    using h(12) by blast
  moreover have "event_wf (core_of w c) (TCPEvent SEND (Some r) None)" using h(7) by simp
  then have "\<forall>ev\<in>set es. event_wf (core_of w c) ev" using es(2) by blast
  ultimately show ?thesis by (auto simp: events_wf_def)
qed

lemma core_wf_handled:
  assumes "handled c r cb w"
    and "\<And>i b. i \<noteq> r \<Longrightarrow> c_tcpcbs c i = Some b \<Longrightarrow> if connecting c i then cb_fresh b else cb_live b"
    and "\<And>i. count_list (c_events c) (connect_event i) \<le> 1"
    and "if connecting c r then cb_fresh (tcpcb.truncate w) else cb_live (tcpcb.truncate w)"
  shows "core_wf (core_of w c)"
proof -
  have "conns_wf (core_of w c)"
    using assms handledD(7) [OF assms(1)] handled_connecting(1,3) [OF assms(1)] by (auto simp: conns_wf_def)
  then show ?thesis
    using handled_socks handled_cbs handled_timer_calls handled_events assms(1) by (simp add: core_wf_def)
qed


text \<open>The core when an event has been taken from the queue.\<close>

lemma popped:
  assumes "core_wf c" "c_events c = ev # q"
  defines "c1 \<equiv> c\<lparr>c_events := q\<rparr>"
  shows "socks_wf c1" "cbs_wf c1" "timer_calls_wf c1" "events_wf c1"
    "\<And>i. count_list (c_events c1) (connect_event i) \<le> 1"
    "\<And>i. ev \<noteq> connect_event i \<Longrightarrow> connecting c1 i = connecting c i"
    "\<And>i. ev = connect_event i \<Longrightarrow> \<not> connecting c1 i"
proof -
  have cnt: "count_list (c_events c) (connect_event i) \<le> 1" for i
    using assms(1) by (simp add: core_wf_def conns_wf_def)
  show n: "count_list (c_events c1) (connect_event i) \<le> 1" for i
    using cnt [of i] assms(2) by (simp add: c1_def split: if_splits)
  show "connecting c1 i = connecting c i" if "ev \<noteq> connect_event i" for i
    using that assms(2) by (auto simp: c1_def connecting_def)
  show "\<not> connecting c1 i" if "ev = connect_event i" for i
  proof -
    have "count_list q (connect_event i) = 0" using that cnt [of i] assms(2) by simp
    then show ?thesis by (simp add: c1_def connecting_def count_list_0_iff)
  qed
  have lv: "live c1 i" if "live c i" for i using that assms(2) by (auto simp: live_def connecting_def c1_def)
  show "socks_wf c1" "cbs_wf c1"
    using assms(1) by (simp_all add: core_wf_def socks_wf_def cbs_wf_def cb_wf_def sock_is_def c1_def)
  show "timer_calls_wf c1"
    using assms(1) lv by (auto simp: core_wf_def timer_calls_wf_def c1_def)
  have "\<forall>e\<in>set q. event_wf c1 e"
  proof (rule events_wf_mono)
    show "\<forall>e\<in>set q. event_wf c e" using assms(1,2) by (simp add: core_wf_def events_wf_def)
    show "\<exists>b'. c_tcpcbs c1 i = Some b' \<and> lp b' = lp b \<and> rp b' = rp b" if "c_tcpcbs c i = Some b" for i b
      using that by (simp add: c1_def)
    show "live c1 i" if "live c i" for i by (rule lv [OF that])
  qed
  then show "events_wf c1" by (simp add: events_wf_def c1_def)
qed

lemma popped_wf:
  assumes "core_wf c" "c_events c = ev # q" "ev_type ev \<noteq> CONNECT"
  shows "core_wf (c\<lparr>c_events := q\<rparr>)"
proof -
  have "ev \<noteq> connect_event i" for i using assms(3) by (auto simp: connect_event_def)
  then show ?thesis
    using popped [OF assms(1,2)] assms(1) by (simp add: core_wf_def conns_wf_def)
qed

text \<open>The state that the handler of an event leaves, whether it returns or raises.\<close>

definition handler_leaves :: "tcp_event \<Rightarrow> fsm \<Rightarrow> fsm \<Rightarrow> bool" where
  "handler_leaves ev w w' \<longleftrightarrow> event_handler ev w = Some (Inr w') \<or> (\<exists>e. event_handler ev w = Some (Inl (e, w')))"

lemma handler_leaves_some: "event_handler ev w = Some y \<Longrightarrow> \<exists>w'. handler_leaves ev w w'"
  by (cases y) (auto simp: handler_leaves_def)

lemma handle_event_leaves:
  assumes "handle_event ev c = Some (res, c')" "ev_tcpcb ev = Some r" "c_tcpcbs c r = Some cb" "handler_leaves ev (fsm_of cb c) w"
  shows "\<exists>res'. for_op (tx_log w) core_tx_tcp (core_of w c) = Some (res', c')"
  using assms
  by (auto simp: handler_leaves_def handle_event_def then_op_def bind_op_def split: option.splits sum.splits)

lemma event_handler_own: "handler_leaves ev w w' \<Longrightarrow> own w w'"
proof -
  have "own w w" by (simp add: own_def own_timers_def timer_own_refl table_own_def)
  then show "handler_leaves ev w w' \<Longrightarrow> own w w'"
    by (auto simp: handler_leaves_def event_handler_def connect_own rx_own tx_own rtx_own raised_own
        split: event_type.splits option.splits)
qed

lemma event_handler_step:
  assumes "handler_leaves ev w w'" "event_wf c ev" "ev_tcpcb ev = Some r" "ev_type ev \<noteq> CONNECT"
  shows "conn_step False w w' \<or> conn_raise w w'"
  using assms
  by (cases "(c, ev)" rule: event_wf.cases)
    (auto simp: event_handler_def handler_leaves_def intro: conn_step.intros conn_raise.intros)

lemma event_handler_fresh:
  assumes "handler_leaves ev w w'" "event_wf c ev" "ev_tcpcb ev = Some r" "ev_type ev \<noteq> CONNECT"
    and "conn_fresh w" "connecting c r"
  shows "w' = w"
  using assms fresh_ignores [OF assms(5)]
  by (cases "(c, ev)" rule: event_wf.cases) (auto simp: event_handler_def handler_leaves_def live_def)

text \<open>A CONNECT event starts the connection; before it, other events leave the control block as it is.\<close>

lemma connect_event_wf:
  "event_wf c ev \<Longrightarrow> ev_type ev = CONNECT \<Longrightarrow> \<exists>r cb. ev_tcpcb ev = Some r \<and> c_tcpcbs c r = Some cb \<and> ev = connect_event r"
  by (cases "(c, ev)" rule: event_wf.cases) (auto simp: connect_event_def)

lemma event_connection:
  assumes "core_wf c" "c_events c = ev # q" "ev_tcpcb ev = Some r" "c_tcpcbs c r = Some cb"
  defines "c1 \<equiv> c\<lparr>c_events := q\<rparr>"
  assumes w: "handler_leaves ev (fsm_of cb c1) w"
  shows "if connecting c1 r then cb_fresh (tcpcb.truncate w) \<and> w = fsm_of cb c1 else cb_live (tcpcb.truncate w)"
proof -
  note p = popped [OF assms(1,2), folded c1_def]
  have ewf: "event_wf c ev" using core_wfD(6) [OF assms(1)] assms(2) by simp
  have here: "if connecting c r then cb_fresh cb else cb_live cb"
    using assms(1,4) by (simp add: core_wf_def conns_wf_def)
  show ?thesis
  proof (cases "ev_type ev = CONNECT")
    case True
    then have ev: "ev = connect_event r" using connect_event_wf [OF ewf] assms(3) by auto
    then have "conn_fresh (fsm_of cb c1)" using here assms(2) by (simp add: connecting_def cb_fresh_fsm)
    then have "cb_live (tcpcb.truncate w)"
      using w True unfolding cb_live_def by (auto simp: handler_leaves_def event_handler_def intro: conn_reach.connect)
    then show ?thesis using p(7) [OF ev] by simp
  next
    case False
    then have "ev \<noteq> connect_event r" by (auto simp: connect_event_def)
    then have same: "connecting c1 r = connecting c r" by (rule p(6))
    show ?thesis
    proof (cases "connecting c r")
      case True
      then have "conn_fresh (fsm_of cb c1)" using here by (simp add: cb_fresh_fsm)
      then show ?thesis
        using event_handler_fresh [OF w ewf assms(3) False] True here same by simp
    next
      case live: False
      then have "conn_reach False (fsm_of cb c1)" using here by (simp add: cb_live_fsm)
      then have "conn_reach False w"
        using conn_reach.step conn_reach.raised event_handler_step [OF w ewf assms(3) False] by blast
      then show ?thesis using live same by (auto simp: cb_live_def)
    qed
  qed
qed

lemma core_wf_event_handled:
  assumes "core_wf c" "c_events c = ev # q" "ev_tcpcb ev = Some r" "c_tcpcbs c r = Some cb"
    and w: "handler_leaves ev (fsm_of cb (c\<lparr>c_events := q\<rparr>)) w"
  shows "handled (c\<lparr>c_events := q\<rparr>) r cb w" "core_wf (core_of w (c\<lparr>c_events := q\<rparr>))"
proof -
  let ?c = "c\<lparr>c_events := q\<rparr>"
  note p = popped [OF assms(1,2)] and new = event_connection [OF assms]
  show h: "handled ?c r cb w"
    using p(1-4) assms(4) event_handler_own [OF w] new by (auto simp: handled_def split: if_splits)
  have "if connecting ?c i then cb_fresh b else cb_live b" if "i \<noteq> r" "c_tcpcbs ?c i = Some b" for i b
  proof -
    have "ev \<noteq> connect_event i" using that assms(3) by (auto simp: connect_event_def)
    then show ?thesis using that(2) p(6) assms(1) by (simp add: core_wf_def conns_wf_def)
  qed
  then show "core_wf (core_of w ?c)"
    using p(5) new by (intro core_wf_handled [OF h]) (auto split: if_splits)
qed

lemma core_wf_event_step:
  assumes "core_wf c" "bind_op pop_event handle_event c = Some (res, c')"
  shows "core_wf c'"
proof (cases "c_events c")
  case Nil
  then show ?thesis using assms by (auto simp: pop_event_def bind_op_def)
next
  case (Cons ev q)
  let ?c = "c\<lparr>c_events := q\<rparr>"
  have step: "handle_event ev ?c = Some (res, c')" using assms(2) Cons by (simp add: pop_event_def bind_op_def)
  show ?thesis
  proof (cases "\<exists>r cb w. ev_tcpcb ev = Some r \<and> c_tcpcbs c r = Some cb \<and> handler_leaves ev (fsm_of cb ?c) w")
    case False
    have "event_wf c ev" using core_wfD(6) [OF assms(1)] Cons by simp
    then have "ev_type ev \<noteq> CONNECT"
      using False connect_event_wf [of c ev] by (auto simp: handler_leaves_def event_handler_def)
    moreover have "c' = ?c"
      using False step handler_leaves_some by (fastforce simp: handle_event_def split: option.splits)
    ultimately show ?thesis using popped_wf [OF assms(1) Cons] by simp
  next
    case True
    then obtain r cb w where r: "ev_tcpcb ev = Some r" "c_tcpcbs c r = Some cb"
      and w: "handler_leaves ev (fsm_of cb ?c) w" by blast
    have "\<exists>res'. for_op (tx_log w) core_tx_tcp (core_of w ?c) = Some (res', c')"
      using handle_event_leaves [OF step r(1) _ w] r(2) by simp
    then show ?thesis using core_wf_send_segments core_wf_event_handled(2) [OF assms(1) Cons r w] by blast
  qed
qed

end
