(* ===== verification/Sock_Calls.thy ===== *)
theory Sock_Calls
  imports Sock_Api
begin

text \<open>
  The methods of the socket classes, \<^verbatim>\<open>UDPSocket\<close> (\<^verbatim>\<open>udp/socket.py\<close>), \<^verbatim>\<open>TCPSocket\<close> (\<^verbatim>\<open>tcp/socket.py\<close>) and
  \<^verbatim>\<open>RIPSocket\<close> (\<^verbatim>\<open>raw/socket.py\<close>), each of which overrides the abstract methods of \<^verbatim>\<open>Socket\<close>
  (\<^verbatim>\<open>lib/socket.py\<close>): the method of the class of the object runs. What they log is not modelled.
\<close>

section \<open>UDP\<close>

definition udpsocket_bind :: "nat \<Rightarrow> string \<times> int \<Rightarrow> unit op" where
  "udpsocket_bind ref address = udp_bind ref address"

definition udpsocket_listen :: "nat \<Rightarrow> int \<Rightarrow> unit op" where
  "udpsocket_listen ref backlog = then_op (set_error ref EOPNOTSUPP) (raise_exception ref)"

definition udpsocket_connect :: "(int set \<Rightarrow> int) \<Rightarrow> nat \<Rightarrow> string \<times> int \<Rightarrow> unit op" where
  "udpsocket_connect pick ref address = udp_connect pick ref address"

definition udpsocket_close :: "nat \<Rightarrow> unit op" where
  "udpsocket_close ref = udp_close ref"

text \<open>The result of \<^verbatim>\<open>udp_send\<close> is not returned.\<close>

definition udpsocket_send :: "nat \<Rightarrow> bytes \<Rightarrow> nat option op" where
  "udpsocket_send ref data = then_op (udp_send ref data) (ret None)"

definition udpsocket_recv :: "nat \<Rightarrow> int \<Rightarrow> bool \<Rightarrow> (core \<Rightarrow> core) \<Rightarrow> bytes op" where
  "udpsocket_recv ref bufsize got_packet meanwhile = udp_recv ref bufsize got_packet meanwhile"

definition udpsocket_shutdown :: "nat \<Rightarrow> unit op" where
  "udpsocket_shutdown ref = ret ()"

section \<open>TCP\<close>

definition tcpsocket_bind :: "nat \<Rightarrow> string \<times> int \<Rightarrow> unit op" where
  "tcpsocket_bind ref address = tcp_bind ref address"

definition tcpsocket_listen :: "nat \<Rightarrow> int \<Rightarrow> unit op" where
  "tcpsocket_listen ref backlog = ret ()"

definition tcpsocket_connect :: "(int set \<Rightarrow> int) \<Rightarrow> nat \<Rightarrow> string \<times> int \<Rightarrow> (core \<Rightarrow> core) \<Rightarrow> unit op" where
  "tcpsocket_connect pick ref address meanwhile = tcp_connect pick ref address meanwhile"

definition tcpsocket_close :: "nat \<Rightarrow> unit op" where
  "tcpsocket_close ref = tcp_close ref"

definition tcpsocket_shutdown :: "nat \<Rightarrow> unit op" where
  "tcpsocket_shutdown ref = tcp_shutdown ref"

definition tcpsocket_send :: "nat \<Rightarrow> bytes \<Rightarrow> (core \<Rightarrow> core) list \<Rightarrow> nat option op" where
  "tcpsocket_send ref data waits = bind_op (tcp_send ref data waits) (\<lambda>n. ret (Some n))"

section \<open>Raw IP\<close>

definition ripsocket_bind :: "nat \<Rightarrow> string \<times> int \<Rightarrow> unit op" where
  "ripsocket_bind ref address = raw_bind ref address"

definition ripsocket_listen :: "nat \<Rightarrow> int \<Rightarrow> unit op" where
  "ripsocket_listen ref backlog = ret ()"

definition ripsocket_connect :: "nat \<Rightarrow> string \<times> int \<Rightarrow> unit op" where
  "ripsocket_connect ref address = raw_connect ref address"

definition ripsocket_send :: "nat \<Rightarrow> bytes \<Rightarrow> nat option op" where
  "ripsocket_send ref data = bind_op (raw_send ref data) (\<lambda>n. ret (Some n))"

definition ripsocket_close :: "nat \<Rightarrow> unit op" where
  "ripsocket_close ref = raw_close ref"

definition ripsocket_recv :: "nat \<Rightarrow> int \<Rightarrow> bool \<Rightarrow> (core \<Rightarrow> core) \<Rightarrow> bytes op" where
  "ripsocket_recv ref bufsize got_packet meanwhile = raw_recv ref bufsize got_packet meanwhile"

definition ripsocket_shutdown :: "nat \<Rightarrow> unit op" where
  "ripsocket_shutdown ref = ret ()"

section \<open>The methods of an object\<close>

text \<open>
  The arguments of a call: the address, the data, and, for a call that waits, what the other threads
  do meanwhile and whether the wait was notified. The size given to \<^verbatim>\<open>recv\<close> is not negative.
\<close>

datatype sock_call =
    Bind "string \<times> int"
  | Listen int
  | Connect "int set \<Rightarrow> int" "string \<times> int" "core \<Rightarrow> core"
  | Close
  | Send bytes "(core \<Rightarrow> core) list"
  | Recv nat bool "core \<Rightarrow> core"
  | Shutdown
  | SetTimeout "int option"
  | SetSockOpt int int sockopt

datatype sock_value = PyNone | PyLen nat | PyBytes bytes

definition void :: "unit op \<Rightarrow> sock_value op" where
  "void m = then_op m (ret PyNone)"

definition sent :: "nat option op \<Rightarrow> sock_value op" where
  "sent m = bind_op m (\<lambda>n. ret (case n of None \<Rightarrow> PyNone | Some k \<Rightarrow> PyLen k))"

definition received :: "bytes op \<Rightarrow> sock_value op" where
  "received m = bind_op m (\<lambda>b. ret (PyBytes b))"

fun udp_method :: "nat \<Rightarrow> sock_call \<Rightarrow> sock_value op" where
  "udp_method ref (Bind a) = void (udpsocket_bind ref a)"
| "udp_method ref (Listen n) = void (udpsocket_listen ref n)"
| "udp_method ref (Connect pick a m) = void (udpsocket_connect pick ref a)"
| "udp_method ref Close = void (udpsocket_close ref)"
| "udp_method ref (Send d waits) = sent (udpsocket_send ref d)"
| "udp_method ref (Recv n got m) = received (udpsocket_recv ref (int n) got m)"
| "udp_method ref Shutdown = void (udpsocket_shutdown ref)"
| "udp_method ref (SetTimeout t) = void (settimeout ref t)"
| "udp_method ref (SetSockOpt l n v) = void (setsockopt ref l n v)"

fun tcp_method :: "nat \<Rightarrow> sock_call \<Rightarrow> sock_value op" where
  "tcp_method ref (Bind a) = void (tcpsocket_bind ref a)"
| "tcp_method ref (Listen n) = void (tcpsocket_listen ref n)"
| "tcp_method ref (Connect pick a m) = void (tcpsocket_connect pick ref a m)"
| "tcp_method ref Close = void (tcpsocket_close ref)"
| "tcp_method ref (Send d waits) = sent (tcpsocket_send ref d waits)"
| "tcp_method ref (Recv n got m) = received (socket_recv ref n got m)"
| "tcp_method ref Shutdown = void (tcpsocket_shutdown ref)"
| "tcp_method ref (SetTimeout t) = void (settimeout ref t)"
| "tcp_method ref (SetSockOpt l n v) = void (setsockopt ref l n v)"

fun rip_method :: "nat \<Rightarrow> sock_call \<Rightarrow> sock_value op" where
  "rip_method ref (Bind a) = void (ripsocket_bind ref a)"
| "rip_method ref (Listen n) = void (ripsocket_listen ref n)"
| "rip_method ref (Connect pick a m) = void (ripsocket_connect ref a)"
| "rip_method ref Close = void (ripsocket_close ref)"
| "rip_method ref (Send d waits) = sent (ripsocket_send ref d)"
| "rip_method ref (Recv n got m) = received (ripsocket_recv ref (int n) got m)"
| "rip_method ref Shutdown = void (ripsocket_shutdown ref)"
| "rip_method ref (SetTimeout t) = void (settimeout ref t)"
| "rip_method ref (SetSockOpt l n v) = void (setsockopt ref l n v)"

definition sock_method :: "nat \<Rightarrow> sock_call \<Rightarrow> sock_value op" where
  "sock_method ref call =
     bind_op (get_sock ref) (\<lambda>s. case s_kind s of
       UDPSocket \<Rightarrow> udp_method ref call
     | TCPSocket \<Rightarrow> tcp_method ref call
     | RIPSocket \<Rightarrow> rip_method ref call)"

text \<open>What happens during the waits of a call.\<close>

fun call_waits :: "sock_call \<Rightarrow> (core \<Rightarrow> core) list" where
  "call_waits (Connect pick a m) = [m]"
| "call_waits (Send d waits) = waits"
| "call_waits (Recv n got m) = [m]"
| "call_waits _ = []"

end
