(* ===== verification/Core_Calls.thy ===== *)
theory Core_Calls
  imports Core_Wf Sock_Calls
begin

text \<open>
  The calls of the application keep the type invariant of the core, whatever the other threads do while a
  call waits, as long as they keep it.
\<close>

section \<open>Operations on a socket\<close>

definition sock_wf :: "sock_kind \<Rightarrow> nat \<Rightarrow> core \<Rightarrow> bool" where
  "sock_wf k ref c \<longleftrightarrow> core_wf c \<and> sock_is k c ref"

definition sock_kept :: "sock_kind \<Rightarrow> nat \<Rightarrow> core \<Rightarrow> core \<Rightarrow> bool" where
  "sock_kept k ref c c' \<longleftrightarrow> (sock_wf k ref c \<longrightarrow> sock_wf k ref c')"

interpretation sk: op_relation "sock_kept k ref" for k ref
  by unfold_locales (simp_all add: sock_kept_def)

named_theorems kept \<open>operations of the core that keep the invariant\<close>

lemma sock_keptI: "(core_wf c \<Longrightarrow> core_wf c') \<Longrightarrow> (\<And>r. sock_is k c r = sock_is k c' r) \<Longrightarrow> sock_kept k ref c c'"
  by (simp add: sock_kept_def sock_wf_def)

lemma sock_is_upd [simp]:
  "(\<And>s. s_kind (f s) = s_kind s) \<Longrightarrow>
     sock_is k (c\<lparr>c_socks := (c_socks c)(r := map_option f (c_socks c r))\<rparr>) i = sock_is k c i"
  "sock_is k (c\<lparr>c_so_error := e\<rparr>) i = sock_is k c i" "sock_is k (c\<lparr>c_udp := u\<rparr>) i = sock_is k c i"
  "sock_is k (c\<lparr>c_tcp := t\<rparr>) i = sock_is k c i" "sock_is k (c\<lparr>c_rip := p\<rparr>) i = sock_is k c i"
  by (auto simp: sock_is_def)

lemma upd_sock_kept [kept]:
  assumes "\<And>s. s_kind (f s) = s_kind s"
  shows "keeps wf_kept (upd_sock r f)" "keeps (sock_kept k ref) (upd_sock r f)"
proof -
  show "keeps wf_kept (upd_sock r f)"
    unfolding upd_sock_def using assms by (intro wfk.keeps_upd) (simp add: core_wf_socks wf_kept_def)
  show "keeps (sock_kept k ref) (upd_sock r f)"
    unfolding upd_sock_def using assms by (intro sk.keeps_upd sock_keptI) (simp_all add: core_wf_socks)
qed

lemma set_error_kept [kept]: "keeps wf_kept (set_error r e)" "keeps (sock_kept k ref) (set_error r e)"
proof -
  have "core_wf (c\<lparr>c_so_error := f\<rparr>) = core_wf c" for c f by (rule core_wf_cong) (simp add: wf_view_def)
  then show "keeps wf_kept (set_error r e)" "keeps (sock_kept k ref) (set_error r e)"
    unfolding set_error_def by (auto intro!: wfk.keeps_upd sk.keeps_upd sock_keptI simp: wf_kept_def)
qed

lemma errors_kept [kept]:
  "keeps wf_kept (raise_exception r)" "keeps (sock_kept k ref) (raise_exception r)"
  "keeps wf_kept (fail r e)" "keeps (sock_kept k ref) (fail r e)"
  "keeps wf_kept (check_address r a)" "keeps (sock_kept k ref) (check_address r a)"
  unfolding raise_exception_def fail_def check_address_def
  by (auto intro!: wfk.keeps_intros sk.keeps_intros kept split: sum.split)

lemma reads_kept [kept]:
  "keeps wf_kept (get_sock r)" "keeps (sock_kept k ref) (get_sock r)"
  "keeps wf_kept own_ip" "keeps (sock_kept k ref) own_ip"
  "keeps wf_kept (get_tcpcb r)" "keeps wf_kept (get_cb r)"
  unfolding get_sock_def own_ip_def get_tcpcb_def get_cb_def
  by (auto intro!: wfk.keeps_intros sk.keeps_intros split: option.split)

lemma ids_kept [kept]:
  "keeps wf_kept (set_sock_id r)" "keeps (sock_kept k ref) (set_sock_id r)"
  "keeps wf_kept (set_rip_id r)" "keeps (sock_kept k ref) (set_rip_id r)"
  unfolding set_sock_id_def set_rip_id_def by (intro kept; simp)+

section \<open>Registration\<close>

lemma core_wf_udp_table:
  assumes "core_wf c" "\<And>sid r. udp_sockets u sid = Some r \<Longrightarrow> sock_is UDPSocket c r"
  shows "core_wf (c\<lparr>c_udp := u\<rparr>)"
  using core_wf_tables [of c u "c_tcp c" "c_rip c"] core_wfD(2,3) [OF assms(1)] assms by simp

lemma core_wf_rip_table:
  assumes "core_wf c" "\<And>sid r. rip_sockets i sid = Some r \<Longrightarrow> sock_is RIPSocket c r"
  shows "core_wf (c\<lparr>c_rip := i\<rparr>)"
  using core_wf_tables [of c "c_udp c" "c_tcp c" i] core_wfD(1,2) [OF assms(1)] assms by simp

lemma udp_register_kept:
  assumes "\<And>(c::core) sid r. udp_sockets (f (c_udp c)) sid = Some r \<Longrightarrow> r = ref \<or> udp_sockets (c_udp c) sid = Some r"
  shows "keeps (sock_kept UDPSocket ref) (upd (\<lambda>c. c\<lparr>c_udp := f (c_udp c)\<rparr>))"
proof (rule sk.keeps_upd)
  fix c
  have "core_wf (c\<lparr>c_udp := f (c_udp c)\<rparr>)" if "core_wf c" "sock_is UDPSocket c ref"
  proof (rule core_wf_udp_table [OF that(1)])
    show "sock_is UDPSocket c r" if "udp_sockets (f (c_udp c)) sid = Some r" for sid r
      using assms [OF that] core_wfD(1) [OF \<open>core_wf c\<close>, of sid r] \<open>sock_is UDPSocket c ref\<close> by blast
  qed
  then show "sock_kept UDPSocket ref c (c\<lparr>c_udp := f (c_udp c)\<rparr>)" by (simp add: sock_kept_def sock_wf_def)
qed

lemma rip_register_kept:
  assumes "\<And>(c::core) sid r. rip_sockets (f (c_rip c)) sid = Some r \<Longrightarrow> r = ref \<or> rip_sockets (c_rip c) sid = Some r"
  shows "keeps (sock_kept RIPSocket ref) (upd (\<lambda>c. c\<lparr>c_rip := f (c_rip c)\<rparr>))"
proof (rule sk.keeps_upd)
  fix c
  have "core_wf (c\<lparr>c_rip := f (c_rip c)\<rparr>)" if "core_wf c" "sock_is RIPSocket c ref"
  proof (rule core_wf_rip_table [OF that(1)])
    show "sock_is RIPSocket c r" if "rip_sockets (f (c_rip c)) sid = Some r" for sid r
      using assms [OF that] core_wfD(3) [OF \<open>core_wf c\<close>, of sid r] \<open>sock_is RIPSocket c ref\<close> by blast
  qed
  then show "sock_kept RIPSocket ref c (c\<lparr>c_rip := f (c_rip c)\<rparr>)" by (simp add: sock_kept_def sock_wf_def)
qed

lemma tcp_register_kept:
  assumes "\<And>(c::core) sid r. tcp_sockets (f (c_tcp c)) sid = Some r \<Longrightarrow> r = ref \<or> tcp_sockets (c_tcp c) sid = Some r"
    and "\<And>(c::core). tcp_tcpcbs (f (c_tcp c)) = tcp_tcpcbs (c_tcp c)"
  shows "keeps (sock_kept TCPSocket ref) (upd (\<lambda>c. c\<lparr>c_tcp := f (c_tcp c)\<rparr>))"
proof (rule sk.keeps_upd)
  fix c
  have "core_wf (c\<lparr>c_tcp := f (c_tcp c)\<rparr>)" if "core_wf c" "sock_is TCPSocket c ref"
  proof (rule core_wf_tcp_table [OF that(1)])
    show "sock_is TCPSocket c r" if "tcp_sockets (f (c_tcp c)) sid = Some r" for sid r
      using assms(1) [OF that] core_wfD(2) [OF \<open>core_wf c\<close>, of sid r] \<open>sock_is TCPSocket c ref\<close> by blast
  qed (simp add: assms(2))
  then show "sock_kept TCPSocket ref c (c\<lparr>c_tcp := f (c_tcp c)\<rparr>)" by (simp add: sock_kept_def sock_wf_def)
qed

lemmas table_defs =
  udp_register_socket_def udp_register_bound_socket_def udp_update_socket_def udp_remove_socket_def
  rip_register_socket_def rip_update_socket_def rip_remove_socket_def
  tcp_register_socket_def tcp_register_bound_socket_def tcp_update_socket_def tcp_remove_socket_def

section \<open>UDP and raw sockets\<close>

lemma udp_bind_kept: "keeps (sock_kept UDPSocket ref) (udp_bind ref a)"
  unfolding udp_bind_def
  by (intro sk.keeps_intros kept udp_register_kept) (auto simp: table_defs split: if_splits)

lemma pick_udp_kept:
  assumes "\<And>port. keeps (sock_kept UDPSocket ref) (f port)"
  shows "keeps (sock_kept UDPSocket ref) (bind_op (get (\<lambda>c. pick_ephemeral_udp_port pick (c_udp c))) (\<lambda>r.
    bind_op (lift r) (\<lambda>(port, t). then_op (upd (\<lambda>c. c\<lparr>c_udp := t\<rparr>)) (f port))))"
proof (rule sk.keeps_get)
  fix c r c'
  assume a: "bind_op (lift (pick_ephemeral_udp_port pick (c_udp c)))
      (\<lambda>(port, t). then_op (upd (\<lambda>c. c\<lparr>c_udp := t\<rparr>)) (f port)) c = Some (r, c')"
  show "sock_kept UDPSocket ref c c'"
  proof (cases "pick_ephemeral_udp_port pick (c_udp c)")
    case (Inl e)
    then show ?thesis using a by (simp add: sock_kept_def)
  next
    case (Inr x)
    obtain port t where x: "x = (port, t)" by (rule prod.exhaust)
    have "udp_sockets t = udp_sockets (c_udp c)"
      using Inr x by (auto simp: pick_ephemeral_udp_port_def udp_add_used_port_def Let_def split: if_splits)
    then have "sock_kept UDPSocket ref c (c\<lparr>c_udp := t\<rparr>)"
      using core_wf_udp_table [of c t] core_wfD(1) [of c] by (simp add: sock_kept_def sock_wf_def)
    moreover have "f port (c\<lparr>c_udp := t\<rparr>) = Some (r, c')" using a Inr x by simp
    ultimately show ?thesis using sk.keepsD [OF assms] sk.R_trans by blast
  qed
qed

lemma udp_connect_kept: "keeps (sock_kept UDPSocket ref) (udp_connect pick ref a)"
  unfolding udp_connect_def
  by (intro sk.keeps_intros kept pick_udp_kept udp_register_kept) (auto simp: table_defs split: if_splits)

lemma raw_bind_kept: "keeps (sock_kept RIPSocket ref) (raw_bind ref a)"
  unfolding raw_bind_def
  by (intro sk.keeps_intros kept rip_register_kept) (auto simp: table_defs split: if_splits)

lemma raw_connect_kept: "keeps (sock_kept RIPSocket ref) (raw_connect ref a)"
  unfolding raw_connect_def
  by (auto intro!: sk.keeps_intros kept rip_register_kept simp: table_defs split: sum.split if_splits)

lemma dgram_calls_kept:
  assumes "\<And>c. wf_kept c (m c)"
  shows "keeps wf_kept (udp_send ref data)" "keeps wf_kept (raw_send ref data)"
    "keeps wf_kept (dgram_recv ref n got m)"
  unfolding udp_send_def raw_send_def dgram_recv_def
  by (auto intro!: wfk.keeps_core wfk.keeps_out kept wfk.keeps_upd assms split: option.split list.split)

lemma close_kept: "keeps wf_kept (udp_close ref)" "keeps wf_kept (raw_close ref)"
proof -
  have "wf_kept c (c\<lparr>c_udp := (c_udp c)\<lparr>udp_sockets := (\<lambda>k. if py_key_eq key k then None else udp_sockets (c_udp c) k)\<rparr>\<rparr>)"
    for c key
    using core_wfD(1) [of c] unfolding wf_kept_def by (intro impI core_wf_udp_table) (auto split: if_splits)
  then show "keeps wf_kept (udp_close ref)"
    unfolding udp_close_def Let_def by (intro wfk.keeps_bind kept wfk.keeps_upd)
  have "wf_kept c (c\<lparr>c_rip := rip_remove_socket i (c_rip c)\<rparr>)" for c i
    using core_wfD(3) [of c] unfolding wf_kept_def by (intro impI core_wf_rip_table) (auto simp: table_defs split: if_splits)
  then show "keeps wf_kept (raw_close ref)"
    unfolding raw_close_def by (intro wfk.keeps_bind kept wfk.keeps_upd)
qed


section \<open>TCP sockets: bind and connect\<close>

lemma tcp_bind_kept: "keeps (sock_kept TCPSocket ref) (tcp_bind ref a)"
  unfolding tcp_bind_def
  by (auto intro!: sk.keeps_intros kept tcp_register_kept simp: table_defs split: sum.split if_splits)

text \<open>A new control block, registered and with its CONNECT event in the queue.\<close>

definition new_connection :: "nat \<Rightarrow> sock \<Rightarrow> int \<Rightarrow> core \<Rightarrow> core" where
  "new_connection ref s isn c =
     c\<lparr>c_next_ref := Suc (c_next_ref c),
       c_tcpcbs := (c_tcpcbs c)(c_next_ref c \<mapsto> tcpcb_init (c_next_ref c) (s_local_ip s) (s_local_port s) (s_remote_ip s)
         (s_remote_port s) ref (s_sock_opt s) isn (c_now_ns c)),
       c_tcp := register_tcpcb (s_sock_id s) (c_next_ref c) (c_tcp c),
       c_events := c_events c @ [connect_event (c_next_ref c)]\<rparr>"

lemma no_connection_yet:
  assumes "core_wf c"
  shows "c_tcpcbs c (c_next_ref c) = None" "connect_event (c_next_ref c) \<notin> set (c_events c)"
proof -
  show n: "c_tcpcbs c (c_next_ref c) = None"
    using core_wfD(5) [OF assms, of "c_next_ref c"] by (cases "c_tcpcbs c (c_next_ref c)") (auto simp: cb_wf_def)
  show "connect_event (c_next_ref c) \<notin> set (c_events c)"
    using core_wfD(6) [OF assms, of "connect_event (c_next_ref c)"] n by (auto simp: connect_event_def)
qed

lemma new_connection_refs:
  fixes ref :: nat and s :: sock and isn :: int
  assumes "core_wf c"
  defines "c1 \<equiv> new_connection ref s isn c" and "n \<equiv> c_next_ref c"
  shows "connecting c1 i \<longleftrightarrow> i = n \<or> connecting c i" "live c i \<Longrightarrow> live c1 i"
    "c_tcpcbs c i = Some b \<Longrightarrow> c_tcpcbs c1 i = Some b" "sock_is k c1 i = sock_is k c i"
proof -
  note n = no_connection_yet [OF assms(1), folded n_def]
  show 1: "connecting c1 i \<longleftrightarrow> i = n \<or> connecting c i"
    by (auto simp: c1_def n_def new_connection_def connecting_def connect_event_def)
  show 2: "c_tcpcbs c1 i = Some b" if "c_tcpcbs c i = Some b" for b
    using that n by (auto simp: c1_def n_def new_connection_def)
  show "live c1 i" if "live c i" using that 1 2 n by (auto simp: live_def)
  show "sock_is k c1 i = sock_is k c i" by (simp add: sock_is_def c1_def new_connection_def)
qed

lemma core_wf_new_connection:
  assumes wf: "core_wf c" and s: "c_socks c ref = Some s" "s_kind s = TCPSocket" "s_sock_id s = sock_id_of s"
    and "seq_num isn"
  shows "core_wf (new_connection ref s isn c)"
proof -
  let ?c = "new_connection ref s isn c" and ?n = "c_next_ref c"
  let ?b = "tcpcb_init ?n (s_local_ip s) (s_local_port s) (s_remote_ip s) (s_remote_port s) ref (s_sock_opt s) isn (c_now_ns c)"
  note n = no_connection_yet [OF wf] and refs = new_connection_refs [OF wf, where ref = ref and s = s and isn = isn]
  have fields: "c_timer ?c = c_timer c" "c_socks ?c = c_socks c" "c_udp ?c = c_udp c" "c_rip ?c = c_rip c"
    "tcp_sockets (c_tcp ?c) = tcp_sockets (c_tcp c)" "c_next_ref ?c = Suc ?n" "c_tcpcbs ?c ?n = Some ?b"
    "c_events ?c = c_events c @ [connect_event ?n]" "c_tcpcbs ?c = (c_tcpcbs c)(?n \<mapsto> ?b)"
    "tcp_tcpcbs (c_tcp ?c) = (tcp_tcpcbs (c_tcp c))(s_sock_id s \<mapsto> ?n)"
    by (simp_all add: new_connection_def register_tcpcb_def)
  have fresh: "cb_fresh ?b"
    unfolding cb_fresh_def
    using conn_fresh.init [OF assms(5), of ?n "s_local_ip s" "s_local_port s" "s_remote_ip s" "s_remote_port s" ref
        "s_sock_opt s" "c_now_ns c"]
    by (intro exI conjI) (auto simp: fsm_start_def tcpcb.defs fsm.defs)
  have "socks_wf ?c" using wf refs(4) fields by (simp add: core_wf_def socks_wf_def less_SucI)
  moreover have "cbs_wf ?c"
  proof -
    have "cb_wf ?c i b" if "c_tcpcbs ?c i = Some b" for i b
      using that s(1,2) core_wfD(5) [OF wf, of i b] refs(4) fields
      by (auto simp: cb_wf_def sock_is_def tcpcb_init_def split: if_splits)
    moreover have "\<exists>b. c_tcpcbs ?c i = Some b \<and> socket_id b = sid" if "tcp_tcpcbs (c_tcp ?c) sid = Some i" for sid i
    proof (cases "sid = s_sock_id s")
      case True
      then show ?thesis
        using that s(3) fields(7,10) by (auto simp: tcpcb_init_def socket_id_def sock_id_of_def)
    next
      case False
      then show ?thesis using that fields(10) core_wfD(4) [OF wf, of sid i] refs(3) by (metis fun_upd_other)
    qed
    ultimately show ?thesis by (simp add: cbs_wf_def)
  qed
  moreover have "conns_wf ?c"
    using wf fresh refs(1) n fields(8,9)
    by (auto simp: core_wf_def conns_wf_def count_list_0_iff connect_event_def)
  moreover have "timer_calls_wf ?c" using wf refs(2) fields(1) by (auto simp: core_wf_def timer_calls_wf_def)
  moreover have "events_wf ?c"
  proof -
    have "\<forall>e\<in>set (c_events c). event_wf ?c e"
    proof (rule events_wf_mono)
      show "\<forall>e\<in>set (c_events c). event_wf c e" using core_wfD(6) [OF wf] by blast
      show "\<exists>b'. c_tcpcbs ?c i = Some b' \<and> lp b' = lp b \<and> rp b' = rp b" if "c_tcpcbs c i = Some b" for i b
        using refs(3) [OF that] by blast
      show "live ?c i" if "live c i" for i by (rule refs(2) [OF that])
    qed
    then show ?thesis using fields(7,8) by (simp add: events_wf_def connect_event_def)
  qed
  ultimately show ?thesis by (simp add: core_wf_def)
qed


text \<open>The end of \<^verbatim>\<open>tcp_connect\<close> before it waits.\<close>

definition connect_tail :: "nat \<Rightarrow> unit op" where
  "connect_tail ref =
     bind_op (get_sock ref) (\<lambda>s2.
     bind_op (new_tcpcb ref s2) (\<lambda>cb.
     then_op (upd (\<lambda>c. c\<lparr>c_tcp := register_tcpcb (s_sock_id s2) cb (c_tcp c)\<rparr>))
       (schedule_core_event CONNECT cb)))"

definition connect_register :: "(int set \<Rightarrow> int) \<Rightarrow> nat \<Rightarrow> sock \<Rightarrow> unit op" where
  "connect_register pick ref s =
     (if s_local_port s = 0 then
        bind_op (get (\<lambda>c. pick_ephemeral_tcp_port pick (c_tcp c))) (\<lambda>r.
        bind_op (lift r) (\<lambda>(port, t).
        then_op (upd (\<lambda>c. c\<lparr>c_tcp := t\<rparr>))
       (then_op (upd_sock ref (s_local_port_update (\<lambda>_. port)))
       (bind_op own_ip (\<lambda>ip.
        then_op (upd_sock ref (s_local_ip_update (\<lambda>_. ip)))
       (then_op (set_sock_id ref)
       (bind_op (get_sock ref) (\<lambda>s1.
          upd (\<lambda>c. c\<lparr>c_tcp := tcp_register_socket (s_sock_id s1) ref (c_tcp c)\<rparr>)))))))))
      else
        then_op (set_sock_id ref)
       (bind_op (get_sock ref) (\<lambda>s1.
          upd (\<lambda>c. c\<lparr>c_tcp := tcp_update_socket (s_local_ip s1, s_local_port s1, 0, 0) (s_sock_id s1) ref (c_tcp c)\<rparr>))))"

lemma bind_op_assoc: "bind_op (bind_op m f) g = bind_op m (\<lambda>x. bind_op (f x) g)"
  by (auto simp: bind_op_def fun_eq_iff split: option.split sum.split)

lemma tcp_connect_start_eq:
  "tcp_connect_start pick ref address =
     then_op
       (then_op (case ip_init_str (fst address) of
                   Inl e \<Rightarrow> fail ref EADDRNOTAVAIL
                 | Inr a \<Rightarrow> upd_sock ref (s_remote_ip_update (\<lambda>_. ipadd_int a)))
       (then_op (upd_sock ref (s_remote_port_update (\<lambda>_. snd address)))
       (bind_op (get_sock ref) (connect_register pick ref))))
       (connect_tail ref)"
  by (simp add: tcp_connect_start_def connect_tail_def connect_register_def [abs_def] then_op_def bind_op_assoc)

lemma connect_tail_eq:
  assumes "c_socks c ref = Some s"
  shows "\<exists>isn. seq_num isn \<and> connect_tail ref c = Some (Inr (), new_connection ref s isn (c\<lparr>c_drawn := Suc (c_drawn c)\<rparr>))"
proof -
  have "seq_num (c_random c (c_drawn c) mod 4294967296)" by (simp add: seq_num_def)
  then show ?thesis
    using assms
    by (intro exI conjI) (auto simp: connect_tail_def new_connection_def get_sock_def new_tcpcb_def randint_def
        schedule_core_event_def connect_event_def bind_op_def then_op_def)
qed

text \<open>What the last of a sequence of operations establishes.\<close>

definition ends_in :: "(core \<Rightarrow> bool) \<Rightarrow> 'a op \<Rightarrow> bool" where
  "ends_in Q m \<longleftrightarrow> (\<forall>c x c'. m c = Some (Inr x, c') \<longrightarrow> Q c')"

lemma ends_in_bind: "(\<And>x. ends_in Q (f x)) \<Longrightarrow> ends_in Q (bind_op m f)"
  unfolding ends_in_def by (blast dest: bind_op_Some)

lemma ends_in_then: "ends_in Q n \<Longrightarrow> ends_in Q (then_op m n)"
  unfolding then_op_def by (rule ends_in_bind)

definition id_set :: "nat \<Rightarrow> core \<Rightarrow> bool" where
  "id_set ref c \<longleftrightarrow> (\<exists>s. c_socks c ref = Some s \<and> s_sock_id s = sock_id_of s)"

lemma set_sock_id_ends:
  "ends_in (id_set ref) (then_op (set_sock_id ref) (bind_op (get_sock ref) (\<lambda>s. upd (\<lambda>c. c\<lparr>c_tcp := g s (c_tcp c)\<rparr>))))"
  by (auto simp: ends_in_def id_set_def set_sock_id_def upd_sock_def get_sock_def then_op_def bind_op_def
      sock_id_of_def split: option.splits)

lemma connect_register_ends: "ends_in (id_set ref) (connect_register pick ref s)"
  unfolding connect_register_def
  by (cases "s_local_port s = 0"; simp only: if_True if_False)
    (auto intro!: ends_in_bind ends_in_then set_sock_id_ends)

lemma pick_tcp_kept:
  assumes "\<And>port. keeps (sock_kept TCPSocket ref) (f port)"
  shows "keeps (sock_kept TCPSocket ref) (bind_op (get (\<lambda>c. pick_ephemeral_tcp_port pick (c_tcp c))) (\<lambda>r.
    bind_op (lift r) (\<lambda>(port, t). then_op (upd (\<lambda>c. c\<lparr>c_tcp := t\<rparr>)) (f port))))"
proof (rule sk.keeps_get)
  fix c r c'
  assume a: "bind_op (lift (pick_ephemeral_tcp_port pick (c_tcp c)))
      (\<lambda>(port, t). then_op (upd (\<lambda>c. c\<lparr>c_tcp := t\<rparr>)) (f port)) c = Some (r, c')"
  show "sock_kept TCPSocket ref c c'"
  proof (cases "pick_ephemeral_tcp_port pick (c_tcp c)")
    case (Inl e)
    then show ?thesis using a by (simp add: sock_kept_def)
  next
    case (Inr x)
    obtain port t where x: "x = (port, t)" by (rule prod.exhaust)
    have "tcp_sockets t = tcp_sockets (c_tcp c)" "tcp_tcpcbs t = tcp_tcpcbs (c_tcp c)"
      using Inr x by (auto simp: pick_ephemeral_tcp_port_def tcp_add_used_port_def Let_def split: if_splits)
    then have "sock_kept TCPSocket ref c (c\<lparr>c_tcp := t\<rparr>)"
      using core_wf_tcp_table [of c t] core_wfD(2) [of c] by (simp add: sock_kept_def sock_wf_def)
    moreover have "f port (c\<lparr>c_tcp := t\<rparr>) = Some (r, c')" using a Inr x by simp
    ultimately show ?thesis using sk.keepsD [OF assms] sk.R_trans by blast
  qed
qed

lemma connect_register_kept: "keeps (sock_kept TCPSocket ref) (connect_register pick ref s)"
  unfolding connect_register_def
  by (intro sk.keeps_if pick_tcp_kept sk.keeps_intros kept tcp_register_kept) (auto simp: table_defs split: if_splits)

lemma tcp_connect_start_wf:
  assumes "sock_wf TCPSocket ref c" "tcp_connect_start pick ref a c = Some (r, c')"
  shows "core_wf c'"
proof -
  let ?p = "then_op (case ip_init_str (fst a) of
                   Inl e \<Rightarrow> fail ref EADDRNOTAVAIL
                 | Inr a \<Rightarrow> upd_sock ref (s_remote_ip_update (\<lambda>_. ipadd_int a)))
       (then_op (upd_sock ref (s_remote_port_update (\<lambda>_. snd a)))
       (bind_op (get_sock ref) (connect_register pick ref)))"
  have k: "keeps (sock_kept TCPSocket ref) ?p"
    by (auto intro!: sk.keeps_intros kept connect_register_kept split: sum.split)
  have e: "ends_in (id_set ref) ?p" by (intro ends_in_then ends_in_bind connect_register_ends)
  from assms(2) consider (raised) x where "?p c = Some (Inl x, c')"
    | (tail) c1 where "?p c = Some (Inr (), c1)" "connect_tail ref c1 = Some (r, c')"
    unfolding tcp_connect_start_eq by (subst (asm) then_op_def) (auto dest!: bind_op_Some)
  then show ?thesis
  proof cases
    case raised
    then show ?thesis using sk.keepsD [OF k raised] assms(1) by (simp add: sock_kept_def sock_wf_def)
  next
    case tail
    then have wf: "sock_wf TCPSocket ref c1" using sk.keepsD [OF k tail(1)] assms(1) by (simp add: sock_kept_def)
    obtain s where s: "c_socks c1 ref = Some s" "s_sock_id s = sock_id_of s"
      using e tail(1) by (auto simp: ends_in_def id_set_def)
    obtain isn where isn: "seq_num isn" "c' = new_connection ref s isn (c1\<lparr>c_drawn := Suc (c_drawn c1)\<rparr>)"
      using connect_tail_eq [OF s(1)] tail(2) by auto
    have "core_wf (c1\<lparr>c_drawn := Suc (c_drawn c1)\<rparr>)"
      using wf core_wf_cong [of "c1\<lparr>c_drawn := Suc (c_drawn c1)\<rparr>" c1] by (simp add: sock_wf_def wf_view_def)
    then show ?thesis
      unfolding isn(2) using wf s isn(1) by (intro core_wf_new_connection) (auto simp: sock_wf_def sock_is_def)
  qed
qed


section \<open>TCP sockets: data, close and shutdown\<close>

text \<open>An assignment of the application to a field of a control block.\<close>

definition app_field :: "(tcpcb \<Rightarrow> tcpcb) \<Rightarrow> tcpcb \<Rightarrow> bool" where
  "app_field f b \<longleftrightarrow> cb_ref (f b) = cb_ref b \<and> so (f b) = so b \<and> lip (f b) = lip b \<and> lp (f b) = lp b \<and> rip (f b) = rip b \<and>
     rp (f b) = rp b \<and> rtx_timer (f b) = rtx_timer b \<and> time_wait_timer (f b) = time_wait_timer b \<and>
     (cb_fresh b \<longrightarrow> cb_fresh (f b)) \<and> (cb_live b \<longrightarrow> cb_live (f b))"

lemma core_wf_app_field:
  assumes wf: "core_wf c" and b: "c_tcpcbs c r = Some b" "app_field f b"
  shows "core_wf (c\<lparr>c_tcpcbs := (c_tcpcbs c)(r \<mapsto> f b)\<rparr>)"
proof -
  let ?c = "c\<lparr>c_tcpcbs := (c_tcpcbs c)(r \<mapsto> f b)\<rparr>"
  have l: "connecting ?c = connecting c" "sock_is k ?c = sock_is k c" for k
    by (simp_all add: connecting_def sock_is_def fun_eq_iff)
  have lv: "live ?c i = live c i" for i using b(1) by (auto simp: live_def l)
  have "socks_wf ?c" using wf l by (simp add: core_wf_def socks_wf_def)
  moreover have "cbs_wf ?c"
  proof -
    have "cb_wf ?c i x" if "c_tcpcbs ?c i = Some x" for i x
      using that core_wfD(5) [OF wf, of i] core_wfD(5) [OF wf b(1)] b(2) l
      by (auto simp: cb_wf_def app_field_def split: if_splits)
    moreover have "\<exists>x. c_tcpcbs ?c i = Some x \<and> socket_id x = sid" if "tcp_tcpcbs (c_tcp ?c) sid = Some i" for sid i
      using that core_wfD(4) [OF wf, of sid i] b by (auto simp: socket_id_def app_field_def)
    ultimately show ?thesis by (simp add: cbs_wf_def)
  qed
  moreover have "conns_wf ?c"
    using wf b l by (auto simp: core_wf_def conns_wf_def app_field_def)
  moreover have "timer_calls_wf ?c" using wf lv by (auto simp: core_wf_def timer_calls_wf_def)
  moreover have "\<forall>e\<in>set (c_events c). event_wf ?c e"
  proof (rule events_wf_mono)
    show "\<forall>e\<in>set (c_events c). event_wf c e" using core_wfD(6) [OF wf] by blast
    show "\<exists>b'. c_tcpcbs ?c i = Some b' \<and> lp b' = lp x \<and> rp b' = rp x" if "c_tcpcbs c i = Some x" for i x
      using that b by (auto simp: app_field_def)
    show "live ?c i" if "live c i" for i using that lv by simp
  qed
  ultimately show ?thesis by (simp add: core_wf_def events_wf_def)
qed

lemma app_field_intros:
  "rrb_enqueue (snd_buf b) xs = (n, q) \<Longrightarrow> app_field (snd_buf_update (\<lambda>_. q)) b"
  "app_field (close_requested_update (\<lambda>_. True)) b" "app_field (shutdown_requested_update (\<lambda>_. True)) b"
  "rb_dequeue (rcv_buf b) k = (iov, i) \<Longrightarrow> app_field (rcv_buf_update (\<lambda>_. i)) b"
proof -
  have t: "tcpcb.truncate (w\<lparr>snd_buf := q\<rparr>) = (tcpcb.truncate w)\<lparr>snd_buf := q\<rparr>"
    "tcpcb.truncate (w\<lparr>rcv_buf := i\<rparr>) = (tcpcb.truncate w)\<lparr>rcv_buf := i\<rparr>"
    "tcpcb.truncate (w\<lparr>close_requested := x\<rparr>) = (tcpcb.truncate w)\<lparr>close_requested := x\<rparr>"
    "tcpcb.truncate (w\<lparr>shutdown_requested := x\<rparr>) = (tcpcb.truncate w)\<lparr>shutdown_requested := x\<rparr>" for w :: fsm and q i x
    by (simp_all add: tcpcb.truncate_def)
  show "app_field (snd_buf_update (\<lambda>_. q)) b" if "rrb_enqueue (snd_buf b) xs = (n, q)"
  proof -
    have "conn_fresh (w\<lparr>snd_buf := q\<rparr>)" if "conn_fresh w" "tcpcb.truncate w = b" for w
      using that \<open>rrb_enqueue (snd_buf b) xs = (n, q)\<close> by (auto intro!: conn_fresh.app_send)
    moreover have "conn_reach False (w\<lparr>snd_buf := q\<rparr>)" if "conn_reach False w" "tcpcb.truncate w = b" for w
      using that \<open>rrb_enqueue (snd_buf b) xs = (n, q)\<close>
      by (intro conn_reach.step [OF that(1)] conn_step.app_send [where xs = xs and n = n]) auto
    ultimately show ?thesis unfolding app_field_def cb_fresh_def cb_live_def by (auto simp: t(1)) (metis t(1))+
  qed
  show "app_field (close_requested_update (\<lambda>_. True)) b" "app_field (shutdown_requested_update (\<lambda>_. True)) b"
    unfolding app_field_def cb_fresh_def cb_live_def
    using conn_fresh.app_close conn_fresh.app_shutdown conn_step.app_close conn_step.app_shutdown conn_reach.step t(3,4)
    by (auto, metis+)
  show "app_field (rcv_buf_update (\<lambda>_. i)) b" if d: "rb_dequeue (rcv_buf b) k = (iov, i)"
  proof -
    have "i = rcv_buf b" if "conn_fresh w" "tcpcb.truncate w = b" for w
      using d that conn_fresh_fields(2) [OF that(1)]
      by (auto simp: rb_dequeue_def rb_init_def Let_def split: if_splits)
    moreover have "conn_reach False (w\<lparr>rcv_buf := i\<rparr>)" if "conn_reach False w" "tcpcb.truncate w = b" for w
      using that d by (intro conn_reach.step [OF that(1)] conn_step.app_recv [where n = k and iov = iov]) auto
    ultimately show ?thesis unfolding app_field_def cb_fresh_def cb_live_def by (auto simp: t(2)) (metis t(2))+
  qed
qed


lemma upd_cb_wf:
  assumes "core_wf c" "c_tcpcbs c r = Some b" "app_field f b"
  shows "\<exists>c1. upd_cb r f c = Some (Inr (), c1) \<and> core_wf c1 \<and> c_tcpcbs c1 r \<noteq> None"
  using core_wf_app_field [OF assms] assms(2) by (simp add: upd_cb_def)

lemma schedule_send_wf:
  assumes "core_wf c" "c_tcpcbs c r \<noteq> None"
  shows "\<exists>c1. schedule_core_event SEND r c = Some (Inr (), c1) \<and> core_wf c1"
  using core_wf_event [OF assms(1), of "TCPEvent SEND (Some r) None"] assms(2) by (auto simp: schedule_core_event_def)

lemma get_tcpcb_wf:
  assumes "core_wf c" "get_tcpcb ref c = Some (x, c1)"
  shows "c1 = c" "x = Inr (Some r) \<Longrightarrow> \<exists>b. c_tcpcbs c r = Some b"
proof -
  show "c1 = c" using assms(2) by (auto simp: get_tcpcb_def get_sock_def bind_op_def split: option.splits)
  show "\<exists>b. c_tcpcbs c r = Some b" if "x = Inr (Some r)"
  proof -
    from that assms(2) obtain s :: sock where "tcp_tcpcbs (c_tcp c) (s_sock_id s) = Some r"
      by (auto simp: get_tcpcb_def get_sock_def bind_op_def split: option.splits)
    then show ?thesis using core_wfD(4) [OF assms(1)] by blast
  qed
qed

lemma request_wf:
  assumes "core_wf c" "c_tcpcbs c r = Some b" "app_field f b"
    and "then_op (upd_cb r f) (schedule_core_event SEND r) c = Some (x, c')"
  shows "core_wf c'"
proof -
  obtain c1 where c1: "upd_cb r f c = Some (Inr (), c1)" "core_wf c1" "c_tcpcbs c1 r \<noteq> None"
    using upd_cb_wf [OF assms(1-3)] by blast
  then show ?thesis
    using schedule_send_wf [OF c1(2,3)] assms(4) by (auto simp: then_op_def bind_op_def)
qed

lemma tcp_close_kept: "keeps wf_kept (tcp_close ref)" "keeps wf_kept (tcp_shutdown ref)"
proof -
  have rm: "wf_kept c (c\<lparr>c_tcp := tcp_remove_socket i (c_tcp c)\<rparr>)" for c i
    using core_wfD(2) [of c] unfolding wf_kept_def
    by (intro impI core_wf_tcp_table) (auto simp: table_defs split: if_splits)
  have none: "keeps wf_kept (bind_op (get_sock ref) (\<lambda>s. upd (\<lambda>c. c\<lparr>c_tcp := tcp_remove_socket (s_sock_id s) (c_tcp c)\<rparr>)))"
    "keeps wf_kept (then_op (fail ref ENOTCONN) (raise AttributeError) :: unit op)"
    by (auto intro!: wfk.keeps_bind wfk.keeps_then wfk.keeps_upd wfk.keeps_pure kept rm)
  have some: "core_wf c'"
    if wf: "core_wf c" and st: "bind_op (get_tcpcb ref) (\<lambda>t. case t of None \<Rightarrow> m
         | Some cb \<Rightarrow> then_op (upd_cb cb f) (schedule_core_event SEND cb)) c = Some (x, c')"
      and m: "keeps wf_kept m" and f: "\<And>b. app_field f b" for c x c' m f
  proof -
    obtain y c1 where g: "get_tcpcb ref c = Some (y, c1)" using st by (auto simp: bind_op_def split: option.splits)
    then have c1: "c1 = c" by (rule get_tcpcb_wf [OF wf])
    consider e where "y = Inl e" | "y = Inr None" | r where "y = Inr (Some r)" by (metis old.sum.exhaust option.exhaust)
    then show ?thesis
    proof cases
      case 3
      then obtain b where "c_tcpcbs c r = Some b" using get_tcpcb_wf(2) [OF wf] g c1 by blast
      then show ?thesis using request_wf [OF wf _ f] st g c1 3 by (simp add: bind_op_def)
    qed (use wf st g c1 wfk.keepsD [OF m] in \<open>auto simp: bind_op_def wf_kept_def\<close>)
  qed
  show "keeps wf_kept (tcp_close ref)"
    unfolding keeps_def wf_kept_def tcp_close_def using some [OF _ _ none(1) app_field_intros(2)] by blast
  show "keeps wf_kept (tcp_shutdown ref)"
    unfolding keeps_def wf_kept_def tcp_shutdown_def using some [OF _ _ none(2) app_field_intros(3)] by blast
qed

lemma enqueue_snd_buf_wf:
  assumes "core_wf c" "enqueue_snd_buf r data c = Some (x, c1)"
  shows "core_wf c1" "x = Inr l \<Longrightarrow> c_tcpcbs c1 r \<noteq> None"
proof -
  have "core_wf c1 \<and> (\<forall>l. x = Inr l \<longrightarrow> c_tcpcbs c1 r \<noteq> None)"
  proof (cases "c_tcpcbs c r")
    case None
    then show ?thesis using assms by (auto simp: enqueue_snd_buf_def get_cb_def bind_op_def)
  next
    case (Some b)
    obtain n q where e: "rrb_enqueue (snd_buf b) data = (n, q)" by (rule prod.exhaust)
    obtain c2 where "upd_cb r (snd_buf_update (\<lambda>_. q)) c = Some (Inr (), c2)" "core_wf c2" "c_tcpcbs c2 r \<noteq> None"
      using upd_cb_wf [OF assms(1) Some app_field_intros(1) [OF e]] by blast
    then show ?thesis
      using assms(2) Some e by (auto simp: enqueue_snd_buf_def get_cb_def bind_op_def then_op_def)
  qed
  then show "core_wf c1" "x = Inr l \<Longrightarrow> c_tcpcbs c1 r \<noteq> None" by auto
qed

lemma send_round_wf:
  assumes "core_wf c" "bind_op (enqueue_snd_buf r mv) (\<lambda>l. then_op (schedule_core_event SEND r) (k l)) c = Some (x, c')"
  shows "core_wf c' \<or> (\<exists>l c1. core_wf c1 \<and> k l c1 = Some (x, c'))"
proof -
  obtain y c1 where e: "enqueue_snd_buf r mv c = Some (y, c1)" using assms(2) by (auto simp: bind_op_def split: option.splits)
  note wf = enqueue_snd_buf_wf [OF assms(1) e]
  show ?thesis
  proof (cases y)
    case (Inl err)
    then show ?thesis using assms(2) e wf(1) by (simp add: bind_op_def)
  next
    case (Inr l)
    then obtain c2 where "schedule_core_event SEND r c1 = Some (Inr (), c2)" "core_wf c2"
      using schedule_send_wf wf by blast
    then show ?thesis using assms(2) e Inr by (auto simp: bind_op_def then_op_def)
  qed
qed

lemma tcp_send_loop_wf:
  assumes "\<forall>m\<in>set waits. \<forall>c. wf_kept c (m c)" "core_wf c"
    and "tcp_send_loop ref r mv dlen waits c = Some (x, c')"
  shows "core_wf c'"
  using assms
proof (induction waits arbitrary: c dlen)
  case Nil
  show ?case
  proof (cases "0 < dlen")
    case True
    then show ?thesis
      using send_round_wf [OF Nil.prems(2), of r mv _ x c'] Nil.prems(3)
      by (subst (asm) tcp_send_loop.simps) (fastforce split: if_splits)
  qed (use Nil.prems in \<open>simp add: tcp_send_loop.simps\<close>)
next
  case (Cons m ms)
  have exc: "core_wf c2" if "core_wf c1" "raise_exception ref c1 = Some (y, c2)" for c1 c2 y
    using wfk.keepsD [OF errors_kept(1) that(2)] that(1) by (simp add: wf_kept_def)
  have IH: "core_wf c1 \<Longrightarrow> tcp_send_loop ref r mv d ms c1 = Some (x, c') \<Longrightarrow> core_wf c'" for c1 d
    by (rule Cons.IH) (simp_all add: Cons.prems(1))
  have more: "core_wf c'"
    if "core_wf c1" "then_op (upd m) (then_op (raise_exception ref) (tcp_send_loop ref r mv d ms)) c1 = Some (x, c')" for c1 d
  proof -
    have "core_wf (m c1)" using Cons.prems(1) that(1) by (simp add: wf_kept_def)
    moreover have "then_op (raise_exception ref) (tcp_send_loop ref r mv d ms) (m c1) = Some (x, c')"
      using that(2) by simp
    ultimately show ?thesis
      using exc IH unfolding then_op_def by (fastforce dest!: bind_op_Some)
  qed
  show ?case
  proof (cases "0 < dlen")
    case True
    then show ?thesis
      using send_round_wf [OF Cons.prems(2), of r mv _ x c'] Cons.prems(3) more
      by (subst (asm) tcp_send_loop.simps) (fastforce split: if_splits)
  qed (use Cons.prems in \<open>simp add: tcp_send_loop.simps\<close>)
qed


lemma rcv_dequeue_kept:
  "keeps wf_kept (bind_op (get_cb r) (\<lambda>y. let (l, b) = rb_dequeue (rcv_buf y) n
     in then_op (upd_cb r (rcv_buf_update (\<lambda>_. b))) (ret l)))"
proof -
  have "core_wf c'" if "core_wf c" and st: "bind_op (get_cb r) (\<lambda>y. let (l, b) = rb_dequeue (rcv_buf y) n
     in then_op (upd_cb r (rcv_buf_update (\<lambda>_. b))) (ret l)) c = Some (x, c')" for c x c'
  proof (cases "c_tcpcbs c r")
    case None
    then show ?thesis using that by (simp add: get_cb_def bind_op_def)
  next
    case (Some b)
    obtain l q where d: "rb_dequeue (rcv_buf b) n = (l, q)" by (rule prod.exhaust)
    show ?thesis
      using upd_cb_wf [OF that(1) Some app_field_intros(4) [OF d]] st Some d
      by (auto simp: get_cb_def bind_op_def then_op_def)
  qed
  then show ?thesis by (simp add: keeps_def wf_kept_def)
qed

lemma keeps_case: "keeps R a \<Longrightarrow> (\<And>x. keeps R (f x)) \<Longrightarrow> keeps R (case t of None \<Rightarrow> a | Some x \<Rightarrow> f x)"
  by (simp split: option.split)

lemma tcp_recv_kept:
  assumes "\<And>c. wf_kept c (m c)"
  shows "keeps wf_kept (tcp_recv ref n got m)"
  unfolding tcp_recv_def
  by (intro rcv_dequeue_kept wfk.keeps_then wfk.keeps_bind wfk.keeps_if keeps_case wfk.keeps_pure kept wfk.keeps_upd assms)

lemma tcp_send_kept:
  assumes "\<forall>m\<in>set waits. \<forall>c. wf_kept c (m c)"
  shows "keeps wf_kept (tcp_send ref data waits)"
proof -
  have "keeps wf_kept (tcp_send_loop ref r data d waits)" for r d
    using tcp_send_loop_wf [of waits] assms unfolding keeps_def wf_kept_def by blast
  then show ?thesis
    unfolding tcp_send_def
    by (auto intro!: wfk.keeps_bind wfk.keeps_then wfk.keeps_pure kept split: option.split)
qed

section \<open>The methods of a socket\<close>

text \<open>An operation that starts from a socket of the kind \<open>k\<close>.\<close>

definition sock_op_ok :: "sock_kind \<Rightarrow> nat \<Rightarrow> 'a op \<Rightarrow> bool" where
  "sock_op_ok k ref m \<longleftrightarrow> (\<forall>c x c'. sock_wf k ref c \<longrightarrow> m c = Some (x, c') \<longrightarrow> core_wf c')"

lemma sock_op_okI:
  "keeps wf_kept m \<Longrightarrow> sock_op_ok k ref m" "keeps (sock_kept k ref) m \<Longrightarrow> sock_op_ok k ref m"
  by (auto simp: sock_op_ok_def keeps_def wf_kept_def sock_kept_def sock_wf_def)

lemma sock_op_ok_bind:
  "sock_op_ok k ref m \<Longrightarrow> (\<And>x. keeps wf_kept (f x)) \<Longrightarrow> sock_op_ok k ref (bind_op m f)"
  unfolding sock_op_ok_def keeps_def wf_kept_def by (blast dest: bind_op_Some)

lemma sock_op_ok_values:
  "sock_op_ok k ref m1 \<Longrightarrow> sock_op_ok k ref (void m1)" "sock_op_ok k ref m2 \<Longrightarrow> sock_op_ok k ref (sent m2)"
  "sock_op_ok k ref m3 \<Longrightarrow> sock_op_ok k ref (received m3)"
  unfolding void_def sent_def received_def then_op_def
  by (auto intro!: sock_op_ok_bind wfk.keeps_pure split: option.split)

lemma tcp_connect_ok:
  assumes "\<And>c. wf_kept c (m c)"
  shows "sock_op_ok TCPSocket ref (tcp_connect pick ref a m)"
  unfolding tcp_connect_def then_op_def [of "tcp_connect_start pick ref a"]
  using tcp_connect_start_wf assms
  by (intro sock_op_ok_bind wfk.keeps_then wfk.keeps_upd kept) (auto simp: sock_op_ok_def)

lemma options_kept: "keeps wf_kept (settimeout ref t)" "keeps wf_kept (setsockopt ref l n v)"
  unfolding settimeout_def setsockopt_def by (intro kept; simp)+

lemma udp_method_ok:
  assumes "\<forall>m\<in>set (call_waits call). \<forall>c. wf_kept c (m c)"
  shows "sock_op_ok UDPSocket ref (udp_method ref call)"
proof (cases call)
  case (Recv n got m)
  then show ?thesis
    using dgram_calls_kept(3) [of m ref "int n" got] assms
    by (simp add: udpsocket_recv_def udp_recv_def sock_op_ok_values sock_op_okI)
next
  case (Listen n)
  have "keeps wf_kept (udpsocket_listen ref n)" unfolding udpsocket_listen_def by (intro wfk.keeps_then kept)
  then show ?thesis using Listen by (simp add: sock_op_ok_values sock_op_okI)
next
  case (Send d waits)
  have "keeps wf_kept (udpsocket_send ref d)"
    unfolding udpsocket_send_def using dgram_calls_kept(1) [of "\<lambda>c. c"]
    by (intro wfk.keeps_then wfk.keeps_pure) (simp add: wf_kept_def)
  then show ?thesis using Send by (simp add: sock_op_ok_values sock_op_okI)
qed (auto simp: udpsocket_bind_def udpsocket_connect_def udpsocket_close_def udpsocket_shutdown_def
    intro!: sock_op_ok_values intro: sock_op_okI udp_bind_kept udp_connect_kept close_kept wfk.keeps_pure options_kept)

lemma rip_method_ok:
  assumes "\<forall>m\<in>set (call_waits call). \<forall>c. wf_kept c (m c)"
  shows "sock_op_ok RIPSocket ref (rip_method ref call)"
proof (cases call)
  case (Recv n got m)
  then show ?thesis
    using dgram_calls_kept(3) [of m ref "int n" got] assms
    by (simp add: ripsocket_recv_def raw_recv_def sock_op_ok_values sock_op_okI)
next
  case (Send d waits)
  have "keeps wf_kept (ripsocket_send ref d)"
    unfolding ripsocket_send_def using dgram_calls_kept(2) [of "\<lambda>c. c"]
    by (intro wfk.keeps_bind wfk.keeps_pure) (simp add: wf_kept_def)
  then show ?thesis using Send by (simp add: sock_op_ok_values sock_op_okI)
qed (auto simp: ripsocket_bind_def ripsocket_listen_def ripsocket_connect_def ripsocket_close_def ripsocket_shutdown_def
    intro!: sock_op_ok_values intro: sock_op_okI raw_bind_kept raw_connect_kept close_kept wfk.keeps_pure options_kept)

lemma tcp_method_ok:
  assumes "\<forall>m\<in>set (call_waits call). \<forall>c. wf_kept c (m c)"
  shows "sock_op_ok TCPSocket ref (tcp_method ref call)"
proof (cases call)
  case (Recv n got m)
  then have "keeps wf_kept (socket_recv ref n got m)"
    using assms unfolding socket_recv_def by (intro wfk.keeps_bind tcp_recv_kept wfk.keeps_pure) simp
  then show ?thesis using Recv by (simp add: sock_op_ok_values sock_op_okI)
next
  case (Send d waits)
  then have "keeps wf_kept (tcpsocket_send ref d waits)"
    unfolding tcpsocket_send_def using assms by (intro wfk.keeps_bind wfk.keeps_pure tcp_send_kept) simp
  then show ?thesis using Send by (simp add: sock_op_ok_values sock_op_okI)
next
  case (Connect pick a m)
  then show ?thesis using assms by (simp add: tcpsocket_connect_def sock_op_ok_values tcp_connect_ok)
qed (auto simp: tcpsocket_bind_def tcpsocket_listen_def tcpsocket_close_def tcpsocket_shutdown_def
    intro!: sock_op_ok_values intro: sock_op_okI tcp_bind_kept tcp_close_kept wfk.keeps_pure options_kept)

lemma core_wf_sock_method:
  assumes "core_wf c" "sock_method ref call c = Some (x, c')"
    and "\<forall>m\<in>set (call_waits call). \<forall>c. wf_kept c (m c)"
  shows "core_wf c'"
proof (cases "c_socks c ref")
  case None
  then show ?thesis using assms by (simp add: sock_method_def get_sock_def bind_op_def)
next
  case (Some s)
  then have k: "sock_wf (s_kind s) ref c" using assms(1) by (simp add: sock_wf_def sock_is_def)
  then show ?thesis
    using assms(2) Some udp_method_ok [OF assms(3)] tcp_method_ok [OF assms(3)] rip_method_ok [OF assms(3)]
    by (cases "s_kind s") (auto simp: sock_method_def get_sock_def bind_op_def sock_op_ok_def)
qed

end
