(* ===== verification/Tcp_Stream.thy ===== *)
theory Tcp_Stream
  imports Tcp_Conn
begin

text \<open>
  The sending side as a stream: in an established connection every data segment, first
  transmission or retransmission, carries the bytes the application wrote at the place its
  sequence number says, and an acknowledgment releases exactly the acknowledged bytes.
\<close>

section \<open>Definitions\<close>

text \<open>The data segments among those sent, and what makes one consistent with the stream \<open>S\<close>.\<close>

definition data_log :: "fsm \<Rightarrow> out_seg list" where
  "data_log w = filter (\<lambda>s. os_data s \<noteq> []) (tx_log w)"

definition carries :: "int \<Rightarrow> bytes \<Rightarrow> out_seg \<Rightarrow> bool" where
  "carries base S s \<longleftrightarrow> (\<exists>i. i + length (os_data s) \<le> length S \<and> os_seq s = mask32 (base + int i) \<and>
     os_data s = take (length (os_data s)) (drop i S))"

definition stream_inv :: "int \<Rightarrow> bytes \<Rightarrow> fsm \<Rightarrow> bool" where
  "stream_inv base S w \<longleftrightarrow> rrb_safe (snd_buf w) \<and> rrb_size (snd_buf w) = DEFAULT_SEND_BUFF \<and>
     (\<exists>a. a \<le> length S \<and> snd_una w = mask32 (base + int a) \<and>
        rrb_unacked (snd_buf w) @ rrb_contents (snd_buf w) = drop a S) \<and>
     snd_nxt w = mask32 (snd_una w + int (length (rrb_unacked (snd_buf w)))) \<and>
     (\<forall>s\<in>set (data_log w). carries base S s)"

section \<open>Operations that leave the stream alone\<close>

lemma data_log_upd [simp]:
  "data_log (w\<lparr>rcv_buf := rb\<rparr>) = data_log w" "data_log (w\<lparr>rcv_wnd := x\<rparr>) = data_log w"
  "data_log (w\<lparr>ack_now := b\<rparr>) = data_log w" "data_log (w\<lparr>snd_buf := sb\<rparr>) = data_log w"
  "data_log (w\<lparr>snd_una := x\<rparr>) = data_log w" "data_log (w\<lparr>snd_nxt := x\<rparr>) = data_log w"
  "data_log (w\<lparr>rtx_timer := t\<rparr>) = data_log w" "data_log (w\<lparr>now_ns := n\<rparr>) = data_log w"
  "data_log (w\<lparr>events := es\<rparr>) = data_log w" "data_log (w\<lparr>sent_fin := b\<rparr>) = data_log w"
  by (simp_all add: data_log_def)

locale snd_frame =
  fixes h :: "fsm \<Rightarrow> fsm"
  assumes snd_frame_fields [simp]:
    "snd_una (h w) = snd_una w" "snd_nxt (h w) = snd_nxt w" "snd_buf (h w) = snd_buf w"
    "data_log (h w) = data_log w"
begin

lemma stream_inv_frame [simp]: "stream_inv base S (h w) = stream_inv base S w"
  by (simp add: stream_inv_def)

end

interpretation start_rtx_timer_w: snd_frame start_rtx_timer
  by unfold_locales (simp_all add: data_log_def)

interpretation restart_rtx_timer_w: snd_frame restart_rtx_timer
  by unfold_locales (simp_all add: data_log_def)

interpretation stop_rtx_timer_w: snd_frame stop_rtx_timer
  by unfold_locales (simp_all add: data_log_def)

interpretation stop_all_timers_w: snd_frame stop_all_timers
  by unfold_locales (simp_all add: data_log_def)

interpretation rtt_sample_w: snd_frame rtt_sample
  by unfold_locales (simp_all add: data_log_def)

interpretation notify_w: snd_frame "notify c" for c
  by unfold_locales (simp_all add: data_log_def)

interpretation signal_rst_w: snd_frame signal_rst
  by unfold_locales (simp_all add: data_log_def)

interpretation schedule_send_w: snd_frame schedule_send
  by unfold_locales (simp_all add: data_log_def schedule_send_def schedule_event_def)

interpretation set_so_error_w: snd_frame "set_so_error e" for e
  by unfold_locales (simp_all add: data_log_def)

interpretation remove_tcpcb_w: snd_frame remove_tcpcb
  by unfold_locales (simp_all add: data_log_def)

interpretation change_state_w: snd_frame "change_state ns" for ns
  by unfold_locales (simp_all add: data_log_def)

interpretation set_ack_now_w: snd_frame "set_ack_now p" for p
  by unfold_locales (simp_all add: data_log_def)

interpretation send_ack_w: snd_frame send_ack
  by unfold_locales (simp_all add: data_log_def send_ack_def tx_tcp_def ack_seg_def seg0_def)

interpretation send_rst_w: snd_frame send_rst
  by unfold_locales (simp_all add: data_log_def send_rst_def tx_tcp_def ack_seg_def seg0_def)

interpretation drop_with_reset_w: snd_frame "drop_with_reset p" for p
  by unfold_locales (simp_all add: data_log_def drop_with_reset_def tx_tcp_def ack_seg_def seg0_def)

interpretation send_challenge_ack_w: snd_frame send_challenge_ack
  by unfold_locales (simp_all add: data_log_def send_challenge_ack_def tx_tcp_def ack_seg_def seg0_def Let_def)

interpretation compute_rcv_wnd_w: snd_frame compute_rcv_wnd
  by unfold_locales (simp_all add: data_log_def compute_rcv_wnd_def Let_def)

interpretation append_rcv_data_w: snd_frame "\<lambda>w. snd (append_rcv_data p w)" for p
  by unfold_locales (simp_all add: append_rcv_data_def Let_def split_def)

interpretation h_rx_wnd_w: snd_frame "\<lambda>w. snd (h_rx_wnd p w)" for p
  by unfold_locales (simp_all add: data_log_def h_rx_wnd_def)

interpretation h_rx_seq_w: snd_frame "\<lambda>w. snd (snd (h_rx_seq p w))" for p
  by unfold_locales (simp_all add: data_log_def h_rx_seq_cases h_rx_seq_zlen_zwnd_def h_rx_seq_zlen_def
      h_rx_seq_zwnd_def h_rx_seq_normal_def Let_def)

interpretation h_rx_rst_w: snd_frame "\<lambda>w. snd (h_rx_rst p e w)" for p e
  by unfold_locales (simp_all add: h_rx_rst_def)

interpretation rst_or_close_rx_w: snd_frame "\<lambda>w. snd (rst_or_close_rx p w)" for p
  by unfold_locales (simp_all add: rst_or_close_rx_def h_active_close_rx_def Let_def split_def)

interpretation back_off_rto_w: snd_frame back_off_rto
  by unfold_locales (simp_all add: data_log_def back_off_rto_def)

section \<open>Acknowledgments\<close>

lemma safe_length: "rrb_safe q \<Longrightarrow> rrb_size q = DEFAULT_SEND_BUFF \<Longrightarrow>
    length (rrb_unacked q) + length (rrb_contents q) < 65535"
  using rrbr.safe_room [of q] by (simp add: rrb_cap_def DEFAULT_SEND_BUFF_def)

lemma h_rx_ack_snd [simp]:
  "snd_nxt (snd (h_rx_ack p w)) = snd_nxt w" "snd_buf (snd (h_rx_ack p w)) = snd_buf w"
  "data_log (snd (h_rx_ack p w)) = data_log w"
  by (simp_all add: h_rx_ack_def)

lemma stream_inv_ack:
  assumes inv: "stream_inv base S w" and p: "seq_num (sg_ack_seq p)"
    and w': "snd_una w' = snd_una (snd (h_rx_ack p w))" "snd_nxt w' = snd_nxt w"
      "snd_buf w' = rrb_free (snd_buf w) (fst (h_rx_ack p w))" "data_log w' = data_log w"
  shows "stream_inv base S w'"
proof -
  let ?q = "snd_buf w" and ?d = "seq_diff (sg_ack_seq p) (snd_una w)"
  obtain a where safe: "rrb_safe ?q" "rrb_size ?q = DEFAULT_SEND_BUFF"
    and a: "a \<le> length S" "snd_una w = mask32 (base + int a)" "rrb_unacked ?q @ rrb_contents ?q = drop a S"
    and nxt: "snd_nxt w = mask32 (snd_una w + int (length (rrb_unacked ?q)))"
    and log: "\<forall>s\<in>set (data_log w). carries base S s"
    using inv by (auto simp: stream_inv_def)
  have u: "length (rrb_unacked ?q) < 65535" using safe_length [OF safe] by simp
  have n: "seq_num (snd_una w)" "seq_num (snd_nxt w)" using a(2) nxt by simp_all
  have fl: "seq_diff (snd_nxt w) (snd_una w) = int (length (rrb_unacked ?q))"
    unfolding nxt using u by (intro seq_diff_add) simp_all
  have ack: "h_rx_ack p w = (if 0 < ?d \<and> ?d \<le> int (length (rrb_unacked ?q))
      then (?d, w\<lparr>snd_una := sg_ack_seq p\<rparr>) else (0, w))"
    using seq_window_open [OF p n] fl u by (auto simp: h_rx_ack_def)
  define k where "k = nat (fst (h_rx_ack p w))"
  have k: "fst (h_rx_ack p w) = int k" "k \<le> length (rrb_unacked ?q)"
    unfolding k_def ack by (auto simp: nat_le_iff)
  have una: "snd_una w' = mask32 (snd_una w + int k)"
    using w'(1) mask32_add_diff [OF p, of "snd_una w"] mask32_id [OF n(1)] unfolding k_def ack by auto
  have f: "rrb_safe (snd_buf w')" "rrb_unacked (snd_buf w') = drop k (rrb_unacked ?q)"
    "rrb_contents (snd_buf w') = rrb_contents ?q" "rrb_size (snd_buf w') = rrb_size ?q"
    using rrbr.ack_safe [OF safe(1) k(2)] unfolding w'(3) k(1) by (simp_all add: rrb_free_def)
  have len: "k + a \<le> length S"
    using arg_cong [OF a(3), of length] k(2) a(1) by simp
  have una': "snd_una w' = mask32 (base + int (k + a))"
    unfolding una a(2) by (simp add: mask32_mod mod_simps algebra_simps)
  have "rrb_unacked (snd_buf w') @ rrb_contents (snd_buf w') = drop (k + a) S"
    using arg_cong [OF a(3), of "drop k"] k(2) unfolding f by (simp add: add.commute)
  moreover have "snd_nxt w' = mask32 (snd_una w' + int (length (rrb_unacked (snd_buf w'))))"
    unfolding w'(2) nxt una f(2) using k(2) by (simp add: mask32_mod mod_simps)
  ultimately show ?thesis
    unfolding stream_inv_def w'(4) using f safe(2) len una' log
    by (intro conjI exI [of _ "k + a"]) simp_all
qed

lemma stream_inv_estab_acked:
  "stream_inv base S w \<Longrightarrow> seq_num (sg_ack_seq p) \<Longrightarrow>
     stream_inv base S (estab_acked (fst (h_rx_ack p w)) (snd (h_rx_ack p w)))"
proof -
  assume i: "stream_inv base S w" "seq_num (sg_ack_seq p)"
  have z: "rrb_free b 0 = b \<longleftrightarrow> rrb_r b mod rrb_size b = rrb_r b" for b
    by (cases b) (auto simp: rrb_free_def nat_mod_as_int)
  have "rrb_free (snd_buf w) 0 = snd_buf w"
    using i(1) rrb_invD [of "snd_buf w"] by (auto simp: z stream_inv_def rrb_safe_def)
  moreover have "fst (h_rx_ack p w) = 0" if "\<not> 0 < fst (h_rx_ack p w)"
    using that seq_diff_range(1) [of "sg_ack_seq p" "snd_una w"]
    by (auto simp: h_rx_ack_def split: if_splits simp del: seq_diff_range)
  ultimately show ?thesis
    by (intro stream_inv_ack [OF i]; cases "0 < fst (h_rx_ack p w)")
      (simp_all add: estab_acked_def Let_def)
qed

section \<open>Receive handlers\<close>

lemma stream_inv_estab_accept:
  assumes "stream_inv base S w" "seq_num (sg_ack_seq p)"
  shows "stream_inv base S (estab_accept p w)"
proof -
  have "stream_inv base S (estab_acked (fst (h_rx_ack p v)) (snd (h_rx_ack p v)))"
    if "stream_inv base S v" for v using stream_inv_estab_acked [OF that assms(2)] .
  then show ?thesis using assms(1) by (simp add: estab_accept_def Let_def split_def)
qed

lemma h_rx_seq_ack_seq [simp]: "sg_ack_seq (fst (snd (h_rx_seq p w))) = sg_ack_seq p"
  by (simp add: h_rx_seq_cases h_rx_seq_zlen_zwnd_def h_rx_seq_zlen_def h_rx_seq_zwnd_def
      h_rx_seq_normal_def Let_def)

lemma stream_inv_upd [simp]:
  "stream_inv base S (w\<lparr>ack_now := b\<rparr>) = stream_inv base S w"
  "stream_inv base S (w\<lparr>rtx_timer := t\<rparr>) = stream_inv base S w"
  "stream_inv base S (w\<lparr>now_ns := n\<rparr>) = stream_inv base S w"
  "stream_inv base S (w\<lparr>events := es\<rparr>) = stream_inv base S w"
  "stream_inv base S (w\<lparr>rcv_buf := rb\<rparr>) = stream_inv base S w"
  by (simp_all add: stream_inv_def)

lemma stream_inv_rx_estab:
  "stream_inv base S w \<Longrightarrow> seq_num (sg_ack_seq p) \<Longrightarrow> stream_inv base S (rx_estab p w)"
  by (simp add: rx_estab_def Let_def split_def stream_inv_estab_accept split: verdict.split)

lemma stream_inv_rx_close_wait:
  assumes "stream_inv base S w" "seq_num (sg_ack_seq p)"
  shows "stream_inv base S (rx_close_wait p w)"
proof -
  define v where "v = snd (rst_or_close_rx p w)"
  have v: "stream_inv base S v" using assms(1) by (simp add: v_def)
  have "stream_inv base S (u\<lparr>snd_buf := rrb_free (snd_buf u) (fst (h_rx_ack p v))\<rparr>)"
    if "snd_una u = snd_una (snd (h_rx_ack p v))" "snd_nxt u = snd_nxt v" "snd_buf u = snd_buf v"
      "data_log u = data_log v" for u
    using that by (intro stream_inv_ack [OF v assms(2)]) simp_all
  then show ?thesis
    using assms(1) v unfolding rx_close_wait_def Let_def split_def v_def [symmetric] by simp
qed

section \<open>Transmission\<close>

lemma rrb_dequeue_chunks:
  assumes inv: "rrb_inv q" and d: "rrb_dequeue q n = (iov, q')"
  shows "length iov \<le> 2" "iov = [] \<longleftrightarrow> rrb_contents q = []" "0 < n \<Longrightarrow> \<forall>x\<in>set iov. x \<noteq> []"
proof -
  have v: "rb_inv (rrb_view q)" "rb_dequeue (rrb_view q) n = (iov, rrb_view q')"
    using inv rrb_dequeueD(1) [OF d] by (simp_all add: rrb_inv_def)
  show "length iov \<le> 2" by (rule rb_dequeue_iov(2) [OF v])
  let ?b = "rrb_view q"
  have bnd: "rb_r ?b < rb_size ?b" "rb_w ?b < rb_size ?b" "length (rb_ring ?b) = rb_size ?b"
    using v(1) by (simp_all add: rb_inv_def)
  have rdy: "nat ((int (rb_w ?b) - int (rb_r ?b)) mod int (rb_size ?b)) =
      (if rb_r ?b \<le> rb_w ?b then rb_w ?b - rb_r ?b else rb_size ?b - rb_r ?b + rb_w ?b)"
    using rb_ready_eq [OF v(1)] by (simp add: rb_ready_def)
  have e: "rrb_contents q = [] \<longleftrightarrow> rb_w ?b = rb_r ?b"
    using rb.empty_iff [OF v(1)] by (simp add: rrb_contents_def rb_is_empty_def)
  show "iov = [] \<longleftrightarrow> rrb_contents q = []"
    unfolding e using v(2) by (auto simp: rb_dequeue_def Let_def split: if_splits)
  show "\<forall>x\<in>set iov. x \<noteq> []" if "0 < n"
    using v(2) that bnd unfolding rb_dequeue_def Let_def rdy
    by (auto simp: slice_def split: if_splits)
qed

text \<open>Consecutive segments of a stretch of the stream.\<close>

lemma stream_segs_carries:
  assumes "stream_segs mss w fin s segs" "payload segs = take n (drop k S)" "mask32 s = mask32 (base + int k)"
  shows "\<forall>x\<in>set segs. carries base S x"
  using assms
proof (induction segs arbitrary: s n k)
  case Nil
  then show ?case by simp
next
  case (Cons x xs)
  let ?l = "length (os_data x)"
  have x: "os_data x @ payload xs = take n (drop k S)" using Cons.prems(2) by (simp add: payload_def)
  have l: "?l \<le> length (take n (drop k S))" unfolding x [symmetric] by simp
  have d: "os_data x = take ?l (drop k S)"
    using arg_cong [OF x, of "take ?l"] l by (simp add: min_def split: if_splits)
  have p: "payload xs = take (n - ?l) (drop (k + ?l) S)"
    using arg_cong [OF x, of "drop ?l"] by (simp add: drop_take add.commute)
  have "x = (data_seg (fin \<and> xs = []) (os_data x) w)\<lparr>os_seq := mask32 s\<rparr>"
    using Cons.prems(1) by (simp only: stream_segs.simps)
  then have "os_seq x = os_seq ((data_seg (fin \<and> xs = []) (os_data x) w)\<lparr>os_seq := mask32 s\<rparr>)"
    by (rule arg_cong)
  then have seq: "os_seq x = mask32 (base + int k)" using Cons.prems(3) by simp
  have "os_data x \<noteq> []" using Cons.prems(1) by simp
  then have "k + ?l \<le> length S" using l by (cases "k \<le> length S") auto
  then have "carries base S x" unfolding carries_def using seq d by blast
  moreover have "mask32 (s + int ?l) = mask32 (base + int (k + ?l))"
    using mask32_add_left [of s "int ?l"] mask32_add_left [of "base + int k" "int ?l"] Cons.prems(3)
    by (simp add: add.assoc)
  moreover have ss: "stream_segs mss w fin (s + int ?l) xs" using Cons.prems(1) by simp
  ultimately show ?case using Cons.IH [OF ss p] by simp
qed

lemma drain_snd_buf_eq:
  assumes "rrb_dequeue (snd_buf w) (nat (min TCP_MAX_TX_BYTES (snd_wnd w))) = (data, b)"
  shows "drain_snd_buf w = (data, w\<lparr>snd_buf := b\<rparr>)"
  using assms by (simp add: drain_snd_buf_def)

text \<open>
  Draining the send buffer and sending what was drained: \<open>w\<close> is the connection before, \<open>v\<close> any
  connection that agrees with it on what matters, holding the drained buffer.
\<close>

lemma stream_inv_sent:
  assumes inv: "stream_inv base S w"
    and deq: "rrb_dequeue (snd_buf w) n = (data, snd_buf v)"
    and v: "snd_una v = snd_una w" "snd_nxt v = snd_nxt w" "data_log v = data_log w"
    and segs: "stream_segs mss u fin (snd_nxt w) segs" "payload segs = concat data"
  shows "stream_inv base S (tx_sent segs (int (length (concat data))) m r v)"
proof -
  let ?q = "snd_buf w" and ?q' = "snd_buf v"
  obtain a where safe: "rrb_safe ?q" "rrb_size ?q = DEFAULT_SEND_BUFF"
    and a: "a \<le> length S" "snd_una w = mask32 (base + int a)" "rrb_unacked ?q @ rrb_contents ?q = drop a S"
    and nxt: "snd_nxt w = mask32 (snd_una w + int (length (rrb_unacked ?q)))"
    and log: "\<forall>s\<in>set (data_log w). carries base S s"
    using inv by (auto simp: stream_inv_def)
  have q': "rrb_safe ?q'" "rrb_unacked ?q' = rrb_unacked ?q @ concat data"
    using rrbr.deq_safe [OF safe(1) deq] by blast+
  have qi: "rrb_inv ?q" by (rule rrbr.safe_inv [OF safe(1)])
  have c: "concat data = take n (rrb_contents ?q)" "rrb_contents ?q' = drop n (rrb_contents ?q)"
    "rrb_size ?q' = rrb_size ?q"
    using rrb.deq_data [OF qi deq] rrb.deq_contents [OF qi deq] rrb_dequeueD [OF deq] by simp_all
  let ?k = "a + length (rrb_unacked ?q)"
  have "rrb_contents ?q = drop ?k S"
    using arg_cong [OF a(3), of "drop (length (rrb_unacked ?q))"] by (simp add: add.commute)
  then have pl: "payload segs = take n (drop ?k S)" using segs(2) c(1) by simp
  have "mask32 (snd_nxt w) = mask32 (base + int ?k)"
    unfolding nxt a(2) by (simp add: mask32_mod mod_simps algebra_simps)
  then have "\<forall>x\<in>set segs. carries base S x" by (rule stream_segs_carries [OF segs(1) pl])
  then have "\<forall>s\<in>set (data_log (tx_sent segs (int (length (concat data))) m r v)). carries base S s"
    using log v(3) by (auto simp: data_log_def tx_sent_def)
  moreover have "rrb_unacked ?q' @ rrb_contents ?q' = drop a S" using a(3) q'(2) c by simp
  moreover have "mask32 (snd_nxt w + int (length (concat data))) =
      mask32 (snd_una w + int (length (rrb_unacked ?q')))"
    unfolding nxt q'(2) by (simp add: mask32_mod mod_simps algebra_simps)
  ultimately show ?thesis
    unfolding stream_inv_def using q'(1) c(3) safe(2) a(1,2) v
    by (intro conjI exI [of _ a]) simp_all
qed

text \<open>\<^verbatim>\<open>_tx_loop\<close> without a request to close, on what was drained.\<close>

lemma stream_inv_tx_loop:
  assumes inv: "stream_inv base S w" and mss: "0 \<le> remote_mss w" "remote_mss w \<le> 1460" and wnd: "0 \<le> snd_wnd w"
    and deq: "rrb_dequeue (snd_buf w) (nat (min TCP_MAX_TX_BYTES (snd_wnd w))) = (data, snd_buf v)"
    and v: "snd_una v = snd_una w" "snd_nxt v = snd_nxt w" "data_log v = data_log w"
      "snd_wnd v = snd_wnd w" "remote_mss v = remote_mss w"
    and ne: "data \<noteq> []" and loop: "tx_loop data ns False False v = Some (Inr w')"
  shows "stream_inv base S w' \<and> state w' = state v"
proof -
  have qi: "rrb_inv (snd_buf w)" using inv by (simp add: stream_inv_def rrb_safe_def)
  note ch = rrb_dequeue_chunks [OF qi deq]
  have na: "\<not> linger_abort False v" by (simp add: linger_abort_def)
  have sn: "seq_num (snd_nxt v)" using inv v(2) by (simp add: stream_inv_def)
  have len: "length (concat data) \<le> nat (min TCP_MAX_TX_BYTES (snd_wnd w))"
    using rrb.deq_data [OF qi deq] by simp
  have fits: "int (length (concat data)) \<le> snd_wnd v" "int (length (concat data)) \<le> TCP_MAX_TX_BYTES"
    using len wnd v(4) by (simp_all add: nat_le_iff TCP_MAX_TX_BYTES_def)
  show ?thesis
  proof (cases "snd_wnd w = 0")
    case True
    then have "concat data = []" using len by simp
    then have w': "w' = start_rtx_timer v"
      using loop unfolding tx_loop_unfold [OF ne ch(1) na] by (simp add: tx_while.simps)
    have "stream_inv base S (tx_sent [] (int (length (concat data))) (snd_max v) (rtt v) v)"
      by (rule stream_inv_sent [OF inv deq v(1-3), of 0 w False]) (simp_all add: payload_def \<open>concat data = []\<close>)
    then show ?thesis
      unfolding w' using \<open>concat data = []\<close> sn by (simp add: tx_sent_def mask32_id stream_inv_def data_log_def)
  next
    case False
    then have pos: "0 < nat (min TCP_MAX_TX_BYTES (snd_wnd w))" using wnd by (simp add: TCP_MAX_TX_BYTES_def)
    obtain d ds where d: "data = d # ds" "d \<noteq> []" using ne ch(3) [OF pos] by (cases data) auto
    have m: "0 < remote_mss v"
      using tx_loop_zero_mss [OF _ _ d(1) ch(1) d(2) na, of ns False] loop False wnd mss(1) v(4,5)
      by (cases "remote_mss v = 0") auto
    obtain segs mx r where t: "tx_while ns False data (int (length (concat data))) (snd_wnd v) 0 v =
        Some (Inr (tx_done ns False (tx_sent segs (int (length (concat data))) mx r v)))"
      and s: "payload segs = concat data" "stream_segs (remote_mss v) v False (snd_nxt v) segs"
      using tx_while_ok [OF m ch(3) [OF pos] ne ch(1) refl fits(1) _ sn, of 0 ns False] fits(2) mss(2) v(5) by auto
    have w': "w' = start_rtx_timer (tx_sent segs (int (length (concat data))) mx r v)"
      using loop t unfolding tx_loop_unfold [OF ne ch(1) na] by (simp add: tx_done_def)
    show ?thesis
      unfolding w' using stream_inv_sent [OF inv deq v(1-3) _ s(1)] s(2) v(2) by simp
  qed
qed

section \<open>Send and retransmission events\<close>

definition no_close :: "fsm \<Rightarrow> bool" where
  "no_close w \<longleftrightarrow> \<not> close_requested w \<and> \<not> shutdown_requested w"

lemma compute_rcv_wnd_same [simp]:
  "snd_wnd (compute_rcv_wnd w) = snd_wnd w" "remote_mss (compute_rcv_wnd w) = remote_mss w"
  "close_requested (compute_rcv_wnd w) = close_requested w"
  "shutdown_requested (compute_rcv_wnd w) = shutdown_requested w" "ack_now (compute_rcv_wnd w) = ack_now w"
  by (simp_all add: compute_rcv_wnd_def Let_def)

lemma empty_drain_stream:
  assumes "stream_inv base S w" "rrb_dequeue (snd_buf w) n = ([], b)"
  shows "stream_inv base S (w\<lparr>snd_buf := b\<rparr>)"
proof -
  have "seq_num (snd_nxt w)" using assms(1) by (simp add: stream_inv_def)
  then have "tx_sent [] 0 (snd_max w) (rtt w) (w\<lparr>snd_buf := b\<rparr>) = w\<lparr>snd_buf := b\<rparr>"
    by (simp add: tx_sent_def mask32_id)
  then show ?thesis
    using stream_inv_sent [OF assms(1), of n "[]" "w\<lparr>snd_buf := b\<rparr>" 0 w False "[]" "snd_max w" "rtt w"] assms(2)
    by (simp add: payload_def)
qed

lemma stream_inv_tx_estab:
  assumes inv: "stream_inv base S w" "0 \<le> remote_mss w" "remote_mss w \<le> 1460" "0 \<le> snd_wnd w" and nc: "no_close w"
    and t: "tx_estab w = Some (Inr w')"
  shows "stream_inv base S w' \<and> state w' = state w"
proof -
  obtain data b where d: "rrb_dequeue (snd_buf w) (nat (min TCP_MAX_TX_BYTES (snd_wnd w))) = (data, b)"
    by (rule prod.exhaust)
  let ?v = "compute_rcv_wnd (w\<lparr>snd_buf := b\<rparr>)"
  note eq = drain_snd_buf_eq [OF d]
  show ?thesis
  proof (cases "data = []")
    case True
    have "stream_inv base S (w\<lparr>snd_buf := b\<rparr>)" using empty_drain_stream [OF inv(1)] d True by simp
    then show ?thesis
      using t nc True unfolding tx_estab_def eq Let_def split_def
      by (auto simp: no_close_def h_active_close_tx_def split: if_splits)
  next
    case False
    then have "tx_loop data (Some FIN_WAIT_1) False False ?v = Some (Inr w')"
      using t nc unfolding tx_estab_def eq Let_def split_def by (simp add: no_close_def)
    then show ?thesis using stream_inv_tx_loop [OF inv, of data ?v] d False by simp
  qed
qed

lemma stream_inv_tx_close_wait:
  assumes inv: "stream_inv base S w" "0 \<le> remote_mss w" "remote_mss w \<le> 1460" "0 \<le> snd_wnd w" and nc: "no_close w"
    and t: "tx_close_wait w = Some (Inr w')"
  shows "stream_inv base S w' \<and> state w' = state w"
proof -
  let ?u = "compute_rcv_wnd w"
  obtain data b where d: "rrb_dequeue (snd_buf w) (nat (min TCP_MAX_TX_BYTES (snd_wnd w))) = (data, b)"
    by (rule prod.exhaust)
  have eq: "drain_snd_buf ?u = (data, ?u\<lparr>snd_buf := b\<rparr>)" by (rule drain_snd_buf_eq) (simp add: d)
  have i: "stream_inv base S ?u" using inv(1) by simp
  show ?thesis
  proof (cases "data = []")
    case True
    have "stream_inv base S (?u\<lparr>snd_buf := b\<rparr>)"
      using empty_drain_stream [OF i, of "nat (min TCP_MAX_TX_BYTES (snd_wnd w))" b] d True by simp
    then show ?thesis
      using t nc True unfolding tx_close_wait_def eq Let_def split_def
      by (auto simp: no_close_def h_active_close_tx_def split: if_splits)
  next
    case False
    then have "tx_loop data (Some LAST_ACK) False False (?u\<lparr>snd_buf := b\<rparr>) = Some (Inr w')"
      using t nc unfolding tx_close_wait_def eq Let_def split_def by (simp add: no_close_def)
    then show ?thesis using stream_inv_tx_loop [OF i, of data "?u\<lparr>snd_buf := b\<rparr>"] inv(2-4) d False by simp
  qed
qed

lemma stream_inv_rollback:
  assumes "stream_inv base S w" shows "stream_inv base S (rollback_to_una w)"
proof -
  let ?q = "snd_buf w"
  obtain a where safe: "rrb_safe ?q" and a: "a \<le> length S" "snd_una w = mask32 (base + int a)"
      "rrb_unacked ?q @ rrb_contents ?q = drop a S"
    using assms by (auto simp: stream_inv_def)
  note rb = rrbr.rollback_safe [OF safe]
  have una: "mask32 (snd_una w) = snd_una w" unfolding a(2) by (simp add: mask32_mod)
  show ?thesis
    using assms rb a una unfolding stream_inv_def
    by (auto simp: rollback_to_una_def rrb_roll_back_to_r_def intro!: exI [of _ a])
qed

section \<open>Runs of an established connection\<close>

text \<open>The peer's segment size is one that the stack can send, and its window is not negative.\<close>

definition send_ok :: "fsm \<Rightarrow> bool" where
  "send_ok w \<longleftrightarrow> 0 \<le> remote_mss w \<and> remote_mss w \<le> 1460 \<and> 0 \<le> snd_wnd w"

definition run_ok :: "fsm \<Rightarrow> bool" where
  "run_ok w \<longleftrightarrow> no_close w \<and> send_ok w"

locale ok_frame =
  fixes h :: "fsm \<Rightarrow> fsm"
  assumes ok_frame_fields [simp]: "send_ok (h w) = send_ok w" "no_close (h w) = no_close w"
begin

lemma run_ok_frame [simp]: "run_ok (h w) = run_ok w"
  by (simp add: run_ok_def)

end

sublocale data_frame \<subseteq> ok_frame
  by unfold_locales (simp_all add: send_ok_def no_close_def)

interpretation h_rx_ack_k: ok_frame "\<lambda>w. snd (h_rx_ack p w)" for p
  by unfold_locales (simp_all add: h_rx_ack_def send_ok_def no_close_def)

interpretation h_rx_seq_k: ok_frame "\<lambda>w. snd (snd (h_rx_seq p w))" for p
  by unfold_locales (simp_all add: h_rx_seq_cases h_rx_seq_zlen_zwnd_def h_rx_seq_zlen_def h_rx_seq_zwnd_def
      h_rx_seq_normal_def Let_def send_ok_def no_close_def)

interpretation estab_acked_k: ok_frame "estab_acked a" for a
  by unfold_locales (simp_all add: estab_acked_def Let_def send_ok_def no_close_def)

interpretation compute_rcv_wnd_k: ok_frame compute_rcv_wnd
  by unfold_locales (simp_all add: send_ok_def no_close_def)

interpretation append_rcv_data_k: ok_frame "\<lambda>w. snd (append_rcv_data p w)" for p
  by unfold_locales (simp_all add: append_rcv_data_def Let_def split_def send_ok_def no_close_def)

interpretation h_rx_rst_k: ok_frame "\<lambda>w. snd (h_rx_rst p e w)" for p e
  by unfold_locales (simp_all add: h_rx_rst_def)

interpretation rst_or_close_rx_k: ok_frame "\<lambda>w. snd (rst_or_close_rx p w)" for p
  by unfold_locales (simp_all add: rst_or_close_rx_def h_active_close_rx_def Let_def split_def)

interpretation tx_segment_k: ok_frame "tx_segment f d" for f d
  by unfold_locales (simp_all add: tx_segment_def Let_def send_ok_def no_close_def)

interpretation rollback_to_una_k: ok_frame rollback_to_una
  by unfold_locales (simp_all add: rollback_to_una_def send_ok_def no_close_def)

interpretation back_off_rto_k: ok_frame back_off_rto
  by unfold_locales (simp_all add: back_off_rto_def send_ok_def no_close_def)

lemma run_ok_upd [simp]:
  "run_ok (w\<lparr>ack_now := b\<rparr>) = run_ok w" "run_ok (w\<lparr>snd_buf := sb\<rparr>) = run_ok w"
  "run_ok (w\<lparr>rcv_buf := rb\<rparr>) = run_ok w" "run_ok (w\<lparr>sent_fin := b\<rparr>) = run_ok w"
  "run_ok (w\<lparr>rtx_timer := t\<rparr>) = run_ok w" "run_ok (w\<lparr>now_ns := n\<rparr>) = run_ok w"
  "run_ok (w\<lparr>events := es\<rparr>) = run_ok w"
  by (simp_all add: run_ok_def send_ok_def no_close_def)

lemma send_ok_upd [simp]:
  "send_ok (w\<lparr>ack_now := b\<rparr>) = send_ok w" "send_ok (w\<lparr>snd_buf := sb\<rparr>) = send_ok w"
  "send_ok (w\<lparr>rcv_buf := rb\<rparr>) = send_ok w" "send_ok (w\<lparr>sent_fin := b\<rparr>) = send_ok w"
  "send_ok (w\<lparr>rtx_timer := t\<rparr>) = send_ok w" "send_ok (w\<lparr>close_requested := b\<rparr>) = send_ok w"
  "send_ok (w\<lparr>shutdown_requested := b\<rparr>) = send_ok w"
  by (simp_all add: send_ok_def)

lemma send_ok_h_rx_wnd: "send_ok w \<Longrightarrow> 0 \<le> sg_window p \<Longrightarrow> send_ok (snd (h_rx_wnd p w))"
  by (simp add: h_rx_wnd_def send_ok_def)

lemma run_ok_h_rx_wnd: "run_ok w \<Longrightarrow> 0 \<le> sg_window p \<Longrightarrow> run_ok (snd (h_rx_wnd p w))"
  by (simp add: h_rx_wnd_def run_ok_def send_ok_def no_close_def)

lemma h_rx_seq_window [simp]: "sg_window (fst (snd (h_rx_seq p w))) = sg_window p"
  by (simp add: h_rx_seq_cases h_rx_seq_zlen_zwnd_def h_rx_seq_zlen_def h_rx_seq_zwnd_def
      h_rx_seq_normal_def Let_def)

lemma run_ok_rx:
  assumes "run_ok w" "0 \<le> sg_window p"
  shows "run_ok (rx_estab p w)" "run_ok (rx_close_wait p w)"
proof -
  have "run_ok (estab_accept q v)" if "run_ok v" "0 \<le> sg_window q" for q v
    using that by (simp add: estab_accept_def Let_def split_def run_ok_h_rx_wnd)
  then show "run_ok (rx_estab p w)"
    using assms by (simp add: rx_estab_def Let_def split_def split: verdict.split)
  show "run_ok (rx_close_wait p w)"
    using assms by (simp add: rx_close_wait_def Let_def split_def run_ok_h_rx_wnd)
qed

interpretation drain_snd_buf_k: ok_frame "\<lambda>w. snd (drain_snd_buf w)"
  by unfold_locales (simp_all add: drain_snd_buf_def Let_def split_def no_close_def)

interpretation h_active_close_tx_k: ok_frame "\<lambda>w. snd (h_active_close_tx c w)" for c
  by unfold_locales (simp_all add: h_active_close_tx_def)

interpretation send_fin_k: ok_frame "send_fin ns" for ns
  by unfold_locales (simp_all add: send_fin_def Let_def send_ok_def no_close_def)

lemma run_ok_tx_loop: "tx_loop data ns sh cl w = Some (Inr w') \<Longrightarrow> run_ok w \<Longrightarrow> run_ok w'"
  by (rule tx_loop_keeps [where P = run_ok]) simp_all

lemma run_ok_tx:
  assumes "run_ok w"
  shows "tx_estab w = Some (Inr w') \<Longrightarrow> run_ok w'" "tx_close_wait w = Some (Inr w') \<Longrightarrow> run_ok w'"
  using assms unfolding tx_estab_def tx_close_wait_def Let_def split_def
  by (auto split: if_splits dest: run_ok_tx_loop)

text \<open>With such a segment size a send event raises only where there is no handler, and changes nothing then.\<close>

lemma drained_chunks: "length (fst (drain_snd_buf w)) \<le> 2"
  by (auto simp: drain_snd_buf_def rrb_dequeue_def Let_def)

lemma tx_raised_unhandled:
  assumes "tx w = Some (Inl (e, w'))" "send_ok w"
  shows "state w \<in> {LISTEN, TIME_WAIT} \<and> e = TypeError \<and> w' = w"
proof -
  have no: "tx_loop (fst (drain_snd_buf v)) ns sh cl u \<noteq> Some (Inl (e, w'))" if "fst (drain_snd_buf v) \<noteq> []" "send_ok u" for v ns sh cl u
    using tx_loop_returns [OF _ that(1) drained_chunks, of ns sh cl u] that(2) by (fastforce simp: send_ok_def)
  show ?thesis
    using assms
    by (cases "state w")
      (auto simp: tx_def tx_map_def tx_estab_def tx_fin_wait_1_def tx_close_wait_def tx_closing_def tx_last_ack_def
        Let_def split_def no split: if_splits)
qed

inductive stream_run :: "fsm \<Rightarrow> bytes \<Rightarrow> fsm \<Rightarrow> bool" for w0 :: fsm where
  start: "stream_run w0 [] w0"
| app_write: "stream_run w0 S w \<Longrightarrow> rrb_enqueue (snd_buf w) xs = (n, b) \<Longrightarrow>
    length (rrb_unacked (snd_buf w)) + length (rrb_contents (snd_buf w)) + length xs \<le> rrb_cap (snd_buf w) \<Longrightarrow>
    stream_run w0 (S @ take n xs) (w\<lparr>snd_buf := b\<rparr>)"
| app_read: "stream_run w0 S w \<Longrightarrow> rb_dequeue (rcv_buf w) n = (iov, b) \<Longrightarrow> stream_run w0 S (w\<lparr>rcv_buf := b\<rparr>)"
| arrival: "stream_run w0 S w \<Longrightarrow> seg_wf p \<Longrightarrow> rx p w = Inr w' \<Longrightarrow> stream_run w0 S w'"
| transmit: "stream_run w0 S w \<Longrightarrow> tx w = Some (Inr w') \<Longrightarrow> stream_run w0 S w'"
| timeout: "stream_run w0 S w \<Longrightarrow> rtx w = Some (Inr w') \<Longrightarrow> stream_run w0 S w'"
| tick: "stream_run w0 S w \<Longrightarrow> stream_run w0 S (w\<lparr>now_ns := t\<rparr>)"
| dequeue: "stream_run w0 S w \<Longrightarrow> stream_run w0 S (w\<lparr>events := es\<rparr>)"
| raised: "stream_run w0 S w \<Longrightarrow> conn_raise w w' \<Longrightarrow> stream_run w0 S w'"

definition established :: "fsm \<Rightarrow> bool" where
  "established w \<longleftrightarrow> state w = ESTAB \<and> run_ok w \<and> rrb_safe (snd_buf w) \<and>
     rrb_size (snd_buf w) = DEFAULT_SEND_BUFF \<and> rrb_unacked (snd_buf w) = [] \<and> rrb_contents (snd_buf w) = [] \<and>
     seq_num (snd_una w) \<and> snd_nxt w = snd_una w \<and> data_log w = []"

lemma stream_inv_write:
  assumes "stream_inv base S w" "rrb_enqueue (snd_buf w) xs = (n, b)"
    and "length (rrb_unacked (snd_buf w)) + length (rrb_contents (snd_buf w)) + length xs \<le> rrb_cap (snd_buf w)"
  shows "stream_inv base (S @ take n xs) (w\<lparr>snd_buf := b\<rparr>)"
proof -
  let ?q = "snd_buf w"
  obtain a where safe: "rrb_safe ?q" "rrb_size ?q = DEFAULT_SEND_BUFF"
    and a: "a \<le> length S" "snd_una w = mask32 (base + int a)" "rrb_unacked ?q @ rrb_contents ?q = drop a S"
    and log: "\<forall>s\<in>set (data_log w). carries base S s"
    using assms(1) by (auto simp: stream_inv_def)
  have b: "rrb_safe b" "rrb_unacked b = rrb_unacked ?q" "rrb_contents b = rrb_contents ?q @ take n xs"
    "rrb_size b = rrb_size ?q"
    using rrbr.enq_safe [OF safe(1) assms(3,2)] rrb.enq_contents [OF rrbr.safe_inv [OF safe(1)] assms(2)]
      rrb_enqueueD [OF assms(2)] by simp_all
  have "carries base (S @ take n xs) s" if "carries base S s" for s
  proof -
    from that obtain i where "i + length (os_data s) \<le> length S" "os_seq s = mask32 (base + int i)"
      "os_data s = take (length (os_data s)) (drop i S)" by (auto simp: carries_def)
    then show ?thesis unfolding carries_def by (intro exI [of _ i]) simp
  qed
  then show ?thesis
    using assms(1) b safe(2) a log unfolding stream_inv_def
    by (auto intro!: exI [of _ a])
qed

lemma stream_run_inv:
  assumes "established w0" "stream_run w0 S w"
  shows "stream_inv (snd_una w0) S w \<and> run_ok w \<and> state w \<in> {ESTAB, CLOSE_WAIT, CLOSED}"
  using assms(2)
proof (induction rule: stream_run.induct)
  case start
  then show ?case using assms(1) by (simp add: established_def stream_inv_def mask32_id)
next
  case (app_write S w xs n b)
  then show ?case using stream_inv_write [of "snd_una w0" S w xs n b] by simp
next
  case (arrival S w p w')
  have p: "seq_num (sg_ack_seq p)" "0 \<le> sg_window p" using arrival.hyps(2) by (simp_all add: seg_wf_def seg_ok_def)
  show ?case
    using arrival.IH arrival.hyps(3) stream_inv_rx_estab [OF _ p(1)] stream_inv_rx_close_wait [OF _ p(1)]
      run_ok_rx [OF _ p(2)] rx_state [OF arrival.hyps(3)]
    by (auto simp: rx_def rx_map_def rx_next_def)
next
  case (transmit S w w')
  then have i: "stream_inv (snd_una w0) S w" "0 \<le> remote_mss w" "remote_mss w \<le> 1460" "0 \<le> snd_wnd w" "no_close w" "run_ok w"
    by (simp_all add: run_ok_def send_ok_def)
  show ?case
    using stream_inv_tx_estab [OF i(1-5)] stream_inv_tx_close_wait [OF i(1-5)] run_ok_tx [OF i(6)]
      transmit.IH transmit.hyps(2)
    by (auto simp: tx_def tx_map_def)
next
  case (timeout S w w')
  let ?w = "(rollback_to_una (back_off_rto w))\<lparr>rtx_timer := None\<rparr>"
  have i: "stream_inv (snd_una w0) S ?w" "run_ok ?w" "state ?w = state w"
    using timeout.IH stream_inv_rollback [of "snd_una w0" S "back_off_rto w"] by simp_all
  then have j: "0 \<le> remote_mss ?w" "remote_mss ?w \<le> 1460" "0 \<le> snd_wnd ?w" "no_close ?w"
    by (simp_all add: run_ok_def send_ok_def)
  show ?case
    using stream_inv_tx_estab [OF i(1) j] stream_inv_tx_close_wait [OF i(1) j] run_ok_tx [OF i(2)]
      timeout.IH timeout.hyps(2) i
    by (auto simp: rtx_def tx_def tx_map_def)
next
  case (raised S w w')
  let ?w = "(rollback_to_una (back_off_rto w))\<lparr>rtx_timer := None\<rparr>"
  have w: "send_ok w" "send_ok ?w" "state ?w = state w" "state w \<in> {ESTAB, CLOSE_WAIT, CLOSED}"
    using raised.IH by (simp_all add: run_ok_def)
  have False
    using raised.hyps(2)
  proof cases
    case (segment p e)
    then show ?thesis using rx_raised w(4) by fastforce
  next
    case (send e)
    then show ?thesis using tx_raised_unhandled w(1,4) by fastforce
  next
    case (retransmit e)
    then show ?thesis using tx_raised_unhandled [of ?w e w'] w(2-4) by (auto simp: rtx_def)
  qed
  then show ?case ..
qed simp_all

section \<open>Properties\<close>

text \<open>C5. As long as the application has not asked to close and each of its writes fits in the send buffer beside the
  unacknowledged bytes, and when the peer's segment size is at most 1460 bytes, every data segment an
  established connection hands to the layers below, in whatever order segments arrive, timers fire and the application reads
  and writes, carries the bytes the application wrote at the stream position its sequence number says; and the bytes not
  yet acknowledged are all still held, in order, from SND.UNA on, with SND.NXT at the first byte not yet sent.
  The run may contain events whose handling raises; none does under these conditions.\<close>

theorem sender_stream_correct:
  assumes "established w0" "stream_run w0 S w"
  shows "(\<forall>s\<in>set (tx_log w). os_data s \<noteq> [] \<longrightarrow>
      (\<exists>i. i + length (os_data s) \<le> length S \<and> os_seq s = mask32 (snd_una w0 + int i) \<and>
         os_data s = take (length (os_data s)) (drop i S))) \<and>
    (\<exists>a. a \<le> length S \<and> snd_una w = mask32 (snd_una w0 + int a) \<and>
       rrb_unacked (snd_buf w) @ rrb_contents (snd_buf w) = drop a S) \<and>
    snd_nxt w = mask32 (snd_una w + int (length (rrb_unacked (snd_buf w))))"
  using stream_run_inv [OF assms] unfolding stream_inv_def carries_def data_log_def by auto

lemma rrb_safe_init:
  assumes "0 < sz"
  shows "rrb_safe (rrb_init sz)" "rrb_contents (rrb_init sz) = []" "rrb_unacked (rrb_init sz) = []"
proof -
  have "rb_inv (rrb_view (rrb_init sz))" using assms by (simp add: rrb_view_def rrb_init_def rb_inv_def)
  then show "rrb_safe (rrb_init sz)"
    using assms by (simp add: rrb_safe_def rrb_inv_def rrb_in_flight_def rrb_ready_def) (simp add: rrb_init_def)
  show "rrb_contents (rrb_init sz) = []" "rrb_unacked (rrb_init sz) = []"
    by (simp_all add: rrb_contents_def rb_contents_def rb_ready_def rrb_view_def rrb_unacked_def rrb_init_def)
qed

definition estab_example :: fsm where
  "estab_example = (conn_example 0)\<lparr>state := ESTAB, remote_mss := 2, snd_wnd := 100\<rparr>"

lemma estab_example_established: "established estab_example"
  using rrb_safe_init [of DEFAULT_SEND_BUFF]
  by (simp add: established_def estab_example_def run_ok_def send_ok_def no_close_def conn_defs data_log_def seq_num_def
      DEFAULT_SEND_BUFF_def) (simp add: rrb_init_def)

theorem sender_stream_correct_witness:
  "\<exists>w. stream_run estab_example [7, 8, 9] w \<and> (\<exists>a. a \<le> 3 \<and> snd_una w = mask32 (int a) \<and>
     rrb_unacked (snd_buf w) @ rrb_contents (snd_buf w) = drop a [7, 8, 9])"
proof -
  let ?q = "snd_buf estab_example"
  obtain n b where e: "rrb_enqueue ?q [7, 8, 9] = (n, b)" by (rule prod.exhaust)
  have q: "?q = rrb_init DEFAULT_SEND_BUFF" "snd_una estab_example = 0" by (simp_all add: estab_example_def conn_defs)
  note init = rrb_safe_init [of DEFAULT_SEND_BUFF, folded q(1)]
  have inv: "rrb_inv ?q" using init(1) by (simp add: rrb_safe_def DEFAULT_SEND_BUFF_def)
  have cap: "rrb_cap ?q = 65534" by (simp add: q rrb_cap_def rrb_init_def DEFAULT_SEND_BUFF_def)
  then have "rrb_free_space ?q = 65534"
    using rrb.free_ready [OF inv] rrb.ready_length [OF inv] init by (simp add: DEFAULT_SEND_BUFF_def)
  then have n: "n = 3" using rrb.enq_all [OF inv e] by simp
  have r: "stream_run estab_example [7, 8, 9] (estab_example\<lparr>snd_buf := b\<rparr>)"
    using stream_run.app_write [OF stream_run.start e] n cap init by (simp add: DEFAULT_SEND_BUFF_def)
  have "\<exists>a. a \<le> length [7, 8, 9 :: byte] \<and> snd_una (estab_example\<lparr>snd_buf := b\<rparr>) = mask32 (snd_una estab_example + int a) \<and>
      rrb_unacked (snd_buf (estab_example\<lparr>snd_buf := b\<rparr>)) @ rrb_contents (snd_buf (estab_example\<lparr>snd_buf := b\<rparr>)) =
      drop a [7, 8, 9]"
    using sender_stream_correct [OF estab_example_established r] by blast
  then have "\<exists>a. a \<le> 3 \<and> snd_una (estab_example\<lparr>snd_buf := b\<rparr>) = mask32 (int a) \<and>
      rrb_unacked (snd_buf (estab_example\<lparr>snd_buf := b\<rparr>)) @ rrb_contents (snd_buf (estab_example\<lparr>snd_buf := b\<rparr>)) =
      drop a [7, 8, 9]"
    unfolding q(2) by (simp add: numeral_3_eq_3)
  then show ?thesis using r by blast
qed



end
