(* ===== verification/Tcp_Delivery.thy ===== *)
theory Tcp_Delivery
  imports Tcp_Stream
begin

text \<open>
  The receiving side in ESTAB: what an in-order segment does to RCV.NXT and to the receive
  buffer, when its data is delivered, and the two cases in which bytes are acknowledged without
  being delivered.
\<close>

section \<open>In-order segments\<close>

lemma seq_diff_neg: "seq_diff a b = (if seq_diff b a = 0 then 0 else 4294967296 - seq_diff b a)"
  using seq_diff_base [of a b a] seq_diff_range [of b a] by (simp split: if_splits del: seq_diff_range)

text \<open>A segment of plain data whose first \<open>k\<close> bytes lie before RCV.NXT.\<close>

definition plain_data :: "int \<Rightarrow> tcp_seg \<Rightarrow> fsm \<Rightarrow> bool" where
  "plain_data k p w \<longleftrightarrow> seg_wf p \<and> \<not> sg_syn p \<and> \<not> sg_fin p \<and> \<not> sg_rst p \<and>
     seq_diff (rcv_nxt w) (sg_seq p) = k \<and> 0 \<le> k \<and> k < sg_dlen p \<and> sg_dlen p \<le> 65535 \<and>
     sg_dlen p - k < seq_diff (rcv_adv w) (rcv_nxt w)"

lemma h_rx_seq_plain:
  assumes ok: "win_ok w" and p: "plain_data k p w" and wnd: "rcv_wnd w \<noteq> 0"
  shows "h_rx_seq p w = (TCP_ACCEPT_AND_HANDLE, p\<lparr>sg_seq := mask32 (sg_seq p + k), sg_dlen := sg_dlen p - k\<rparr>,
    w\<lparr>tcp_data_start := k, tcp_data_len := sg_dlen p - k, rcv_nxt := mask32 (rcv_nxt w + (sg_dlen p - k))\<rparr>)"
proof -
  let ?s = "sg_seq p" and ?n = "rcv_nxt w" and ?len = "sg_dlen p" and ?W = "seq_diff (rcv_adv w) (rcv_nxt w)"
  have num: "seq_num ?s" "seq_num ?n" using ok p by (simp_all add: win_ok_def plain_data_def seg_wf_def seg_ok_def)
  have k: "seq_diff ?n ?s = k" "0 \<le> k" "k < ?len" "?len \<le> 65535" "?len - k < ?W" "?W \<le> 65535"
    using ok p by (simp_all add: plain_data_def win_ok_def DEFAULT_RCV_WND_def)
  have f: "\<not> sg_syn p" "\<not> sg_fin p" using p by (simp_all add: plain_data_def)
  have len: "seg_len p = ?len" using f by (simp add: seg_len_def)
  have d: "seq_diff ?s ?n = (if k = 0 then 0 else 4294967296 - k)"
    using seq_diff_neg [of ?s ?n] k(1) by simp
  have add: "seq_diff (?s + i) ?n = i - k" if "k \<le> i" "i \<le> 65535" for i
    unfolding seq_diff_shift d using that k(2) mod_wrap [of "4294967296 - k" i] by auto
  have last: "last_seq p = ?s + (?len - 1)" using last_seq_len [of p] len k by simp
  have in_order: "seq_leq ?s ?n \<and> seq_geq (last_seq p) ?n"
    unfolding last seq_leq_diff [OF num] seq_geq_diff using add [of "?len - 1"] d k by auto
  have "seq_diff (last_seq p + 1) ?n = ?len - k" unfolding last using add [of ?len] k by simp
  moreover have "mask32 (?W - 1) = ?W - 1" using k by (intro mask32_id) (simp add: seq_num_def)
  ultimately have dl: "min (mask32 (?W - 1)) (seq_diff (last_seq p + 1) ?n) = ?len - k" using k by simp
  have "h_rx_seq p w = h_rx_seq_normal p w" using wnd len k by (simp add: h_rx_seq_cases)
  also have "\<dots> = (TCP_ACCEPT_AND_HANDLE, p\<lparr>sg_seq := mask32 (?s + k), sg_dlen := ?len - k\<rparr>,
      w\<lparr>tcp_data_start := k, tcp_data_len := ?len - k, rcv_nxt := mask32 (?n + (?len - k))\<rparr>)"
  proof -
    have ff: "sg_fin (p\<lparr>sg_seq := x\<rparr>) = sg_fin p" "sg_syn (p\<lparr>sg_seq := x\<rparr>) = sg_syn p"
      "sg_fin (p\<lparr>sg_seq := x, sg_dlen := y\<rparr>) = sg_fin p" for x y
      by (simp_all add: sg_fin_def sg_syn_def)
    show ?thesis
      using in_order f k(1) dl by (simp add: h_rx_seq_normal_def Let_def ff)
  qed
  finally show ?thesis .
qed

lemma append_rcv_data_buf:
  assumes "win_ok v"
  shows "rcv_buf (snd (append_rcv_data p v)) =
      snd (rb_enqueue (rcv_buf v) (if sg_data p = [] then []
        else py_slice (sg_data p) (tcp_data_start v) (tcp_data_len v)))"
    and "rcv_nxt (snd (append_rcv_data p v)) = rcv_nxt v"
    and "rcv_adv (snd (append_rcv_data p v)) = rcv_adv (compute_rcv_wnd v)"
proof -
  note c = compute_rcv_wnd_fields [OF assms]
  have t: "tcp_data_start (compute_rcv_wnd v) = tcp_data_start v" "tcp_data_len (compute_rcv_wnd v) = tcp_data_len v"
    by (simp_all add: compute_rcv_wnd_def Let_def)
  have inv: "rb_inv (rcv_buf v)" using assms by (simp add: win_ok_def)
  have z: "snd (rb_enqueue (rcv_buf v) xs) = rcv_buf v" if "rb_free_space (rcv_buf v) = 0" for xs
    using that by (simp add: rb_enqueue_def rb_free_space_def Let_def)
  have e: "snd (rb_enqueue (rcv_buf v) []) = rcv_buf v"
  proof -
    have "rb_w (rcv_buf v) < rb_size (rcv_buf v)" using inv by (simp add: rb_inv_def)
    then show ?thesis
      by (cases "rcv_buf v") (simp add: rb_enqueue_def Let_def slice_assign_def)
  qed
  show "rcv_buf (snd (append_rcv_data p v)) = snd (rb_enqueue (rcv_buf v) (if sg_data p = [] then []
        else py_slice (sg_data p) (tcp_data_start v) (tcp_data_len v)))"
    using c t z e by (auto simp: append_rcv_data_def Let_def split_def)
  show "rcv_nxt (snd (append_rcv_data p v)) = rcv_nxt v"
    "rcv_adv (snd (append_rcv_data p v)) = rcv_adv (compute_rcv_wnd v)"
    using c by (auto simp: append_rcv_data_def Let_def split_def)
qed

interpretation h_rx_ack_c: ctl_frame "\<lambda>w. snd (h_rx_ack p w)" for p
  by unfold_locales (simp_all add: h_rx_ack_def)

interpretation h_rx_wnd_c: ctl_frame "\<lambda>w. snd (h_rx_wnd p w)" for p
  by unfold_locales (simp_all add: h_rx_wnd_def)

interpretation estab_acked_c: ctl_frame "estab_acked a" for a
  by unfold_locales (simp_all add: estab_acked_def Let_def)

interpretation append_rcv_data_c: ctl_frame "\<lambda>w. snd (append_rcv_data p w)" for p
  by unfold_locales (simp_all add: append_rcv_data_def Let_def split_def)

lemma length_sg_data: "seg_wf p \<Longrightarrow> 0 \<le> sg_dlen p \<Longrightarrow> int (length (sg_data p)) = sg_dlen p"
  by (simp add: seg_wf_def seg_ok_def sg_data_def py_from_nonneg)

lemma rx_estab_plain:
  assumes ok: "win_ok w" and p: "plain_data k p w" and wnd: "rcv_wnd w \<noteq> 0"
  defines "L \<equiv> sg_dlen p - k" and "w' \<equiv> rx_estab p w"
  shows "rcv_nxt w' = mask32 (rcv_nxt w + L)"
    and "rcv_buf w' = snd (rb_enqueue (rcv_buf w) (slice (sg_data p) (nat k) (nat L)))"
    and "seq_diff (rcv_adv w') (rcv_nxt w') =
      max (seq_diff (rcv_adv w) (rcv_nxt w) - L) (int (rb_free_space (rcv_buf w)))"
    and "ack_now w'" "state w' = state w"
    and "events w' \<noteq> [] \<and> last (events w') = TCPEvent SEND (Some (cb_ref w')) None"
proof -
  define p1 where "p1 = p\<lparr>sg_seq := mask32 (sg_seq p + k), sg_dlen := sg_dlen p - k\<rparr>"
  define w1 where "w1 = w\<lparr>tcp_data_start := k, tcp_data_len := L, rcv_nxt := mask32 (rcv_nxt w + L)\<rparr>"
  have seq: "h_rx_seq p w = (TCP_ACCEPT_AND_HANDLE, p1, w1)"
    using h_rx_seq_plain [OF ok p wnd] by (simp add: p1_def w1_def L_def)
  have ok1: "win_ok w1" using win_ok_h_rx_seq [OF ok, of p] seq by simp
  have kp: "0 \<le> k" "k < sg_dlen p" "L < seq_diff (rcv_adv w) (rcv_nxt w)"
    "seg_wf p" using p by (simp_all add: plain_data_def L_def)
  have fl: "\<not> sg_rst p1" "\<not> sg_syn p1" "\<not> sg_fin p1" "sg_dlen p1 > 0"
    using p by (simp_all add: p1_def plain_data_def sg_rst_def sg_syn_def sg_fin_def)
  have dat: "sg_data p1 = sg_data p" by (simp add: p1_def sg_data_def)
  have ne: "sg_data p \<noteq> []" using length_sg_data [OF kp(4)] kp by auto
  define v where "v = snd (h_rx_wnd p1 (estab_acked (fst (h_rx_ack p1 (w1\<lparr>ack_now := True\<rparr>)))
      (snd (h_rx_ack p1 (w1\<lparr>ack_now := True\<rparr>)))))"
  have v: "rcv_buf v = rcv_buf w" "rcv_nxt v = mask32 (rcv_nxt w + L)" "rcv_adv v = rcv_adv w"
    "tcp_data_start v = k" "tcp_data_len v = L" "ack_now v" "state v = state w"
    by (simp_all add: v_def) (simp_all add: w1_def)
  have okv: "win_ok v" using ok1 by (simp add: v_def)
  have w': "w' = schedule_send (snd (append_rcv_data p1 v))"
    using fl unfolding w'_def rx_estab_def seq estab_accept_def v_def
    by (simp add: Let_def split_def h_rx_rst_def set_ack_now_def)
  note ap = append_rcv_data_buf [OF okv, of p1]
  show nxt: "rcv_nxt w' = mask32 (rcv_nxt w + L)" unfolding w' using ap(2) v by simp
  have "rcv_buf w' = snd (rb_enqueue (rcv_buf w) (py_slice (sg_data p) k L))"
    unfolding w' using ap(1) v ne dat by simp
  then show "rcv_buf w' = snd (rb_enqueue (rcv_buf w) (slice (sg_data p) (nat k) (nat L)))"
    using kp by (simp add: py_slice_nonneg L_def)
  show "ack_now w'" "state w' = state w" unfolding w' using v by simp_all
  show "events w' \<noteq> [] \<and> last (events w') = TCPEvent SEND (Some (cb_ref w')) None"
    unfolding w' by (simp add: schedule_send_def schedule_event_def)
  have W: "seq_diff (rcv_adv w) (rcv_nxt v) = seq_diff (rcv_adv w) (rcv_nxt w) - L"
    using seq_diff_base [of "rcv_adv w" "rcv_nxt v" "rcv_nxt w"] seq_diff_add [of L "rcv_nxt w"] kp v(2) ok
    by (auto simp: L_def win_ok_def DEFAULT_RCV_WND_def)
  have "seq_diff (rcv_adv w') (rcv_nxt w') = seq_diff (rcv_adv (compute_rcv_wnd v)) (rcv_nxt v)"
    unfolding w' using ap(2,3) by simp
  also have "\<dots> = max (seq_diff (rcv_adv w) (rcv_nxt w) - L) (int (rb_free_space (rcv_buf w)))"
    using compute_rcv_wnd_fields(5) [OF okv] v(1,3) W by simp
  finally show "seq_diff (rcv_adv w') (rcv_nxt w') =
      max (seq_diff (rcv_adv w) (rcv_nxt w) - L) (int (rb_free_space (rcv_buf w)))" .
qed

section \<open>Examples\<close>

definition data_example :: "int \<Rightarrow> bytes \<Rightarrow> tcp_seg" where
  "data_example sq d = (seg_example sq 0)\<lparr>sg_frame := replicate 20 0 @ d, sg_dlen := int (length d)\<rparr>"

definition rcv_example :: "ring_buffer \<Rightarrow> fsm" where
  "rcv_example b = estab_example\<lparr>rcv_buf := b, rcv_nxt := 100, rcv_adv := 1100\<rparr>"

lemma data_example_data [simp]: "sg_data (data_example sq d) = d"
  by (simp add: data_example_def sg_data_def seg_example_def py_from_nonneg)

lemma rcv_example_ok:
  "rb_inv b \<Longrightarrow> rb_size b = 65535 \<Longrightarrow> win_ok (rcv_example b)" "state (rcv_example b) = ESTAB"
  "rcv_wnd (rcv_example b) \<noteq> 0" "rcv_buf (rcv_example b) = b" "rcv_nxt (rcv_example b) = 100"
  by (simp_all add: win_ok_def rcv_example_def seq_num_def seq_diff_mod DEFAULT_RCV_WND_def DEFAULT_RECV_BUFF_def)
    (simp_all add: estab_example_def conn_defs DEFAULT_RCV_WND_def)

lemma data_example_plain:
  "0 \<le> k \<Longrightarrow> k \<le> 100 \<Longrightarrow> k < int (length d) \<Longrightarrow> length d < 1000 \<Longrightarrow> plain_data k (data_example (100 - k) d) (rcv_example b)"
  by (simp add: plain_data_def data_example_def seg_example_def seg_wf_def seg_ok_def seq_num_def rcv_example_def
      seq_diff_mod sg_syn_def sg_fin_def sg_rst_def)

lemma rb_init_full:
  "rb_inv (rb_init 65535)" "rb_size (rb_init 65535) = 65535" "rb_free_space (rb_init 65535) = 65534"
  using rb_inv_init [of 65535] rb.free_ready [of "rb_init 65535"] rb.ready_length [of "rb_init 65535"]
  by (simp_all add: rb_cap_def) (simp_all add: rb_init_def)

text \<open>A receive buffer with room for two more bytes.\<close>

definition rb_nearly_full :: ring_buffer where
  "rb_nearly_full = \<lparr>rb_size = 65535, rb_ring = replicate 65535 0, rb_w = 65532, rb_r = 0\<rparr>"

lemma rb_nearly_full_ok:
  "rb_inv rb_nearly_full" "rb_size rb_nearly_full = 65535" "rb_free_space rb_nearly_full = 2"
  by (simp_all add: rb_inv_def rb_nearly_full_def rb_free_space_def)

section \<open>Properties\<close>

text \<open>C24. In ESTAB, a data segment that starts at RCV.NXT and fits in the window and the receive buffer
  is delivered completely: exactly its bytes are appended to the receive buffer, RCV.NXT advances
  by their number, and an acknowledgment is scheduled.\<close>

theorem in_order_delivery:
  assumes "state w = ESTAB" "win_ok w" "plain_data 0 p w" "rcv_wnd w \<noteq> 0"
    and "length (sg_data p) \<le> rb_free_space (rcv_buf w)"
  shows "\<exists>w'. rx p w = Inr w' \<and> rb_contents (rcv_buf w') = rb_contents (rcv_buf w) @ sg_data p \<and>
    rcv_nxt w' = mask32 (rcv_nxt w + int (length (sg_data p))) \<and> state w' = ESTAB \<and>
    ack_now w' \<and> last (events w') = TCPEvent SEND (Some (cb_ref w')) None"
proof -
  note r = rx_estab_plain [OF assms(2,3,4)]
  have wf: "seg_wf p" "0 \<le> sg_dlen p" using assms(3) by (simp_all add: plain_data_def)
  have len: "int (length (sg_data p)) = sg_dlen p" by (rule length_sg_data [OF wf])
  obtain n b where e: "rb_enqueue (rcv_buf w) (sg_data p) = (n, b)" by (rule prod.exhaust)
  have inv: "rb_inv (rcv_buf w)" using assms(2) by (simp add: win_ok_def)
  have "slice (sg_data p) (nat 0) (nat (sg_dlen p - 0)) = sg_data p" using len by (simp add: slice_def)
  then have b: "rcv_buf (rx_estab p w) = b" using r(2) e by simp
  have "n = length (sg_data p)" by (rule rb.enq_all [OF inv e assms(5)])
  then have "rb_contents b = rb_contents (rcv_buf w) @ sg_data p" using rb.enq_contents [OF inv e] by simp
  then show ?thesis using r b len assms(1) by (simp add: rx_def rx_map_def)
qed

theorem in_order_delivery_witness:
  "\<exists>w'. rx (data_example 100 [7, 8, 9]) (rcv_example (rb_init 65535)) = Inr w' \<and>
     rb_contents (rcv_buf w') = [7, 8, 9] \<and> rcv_nxt w' = 103"
proof -
  note w = rcv_example_ok(1) [OF rb_init_full(1,2)] rcv_example_ok(2-5)
  have p: "plain_data 0 (data_example 100 [7, 8, 9]) (rcv_example (rb_init 65535))"
    using data_example_plain [of 0 "[7, 8, 9]" "rb_init 65535"] by simp
  show ?thesis
    using in_order_delivery [OF w(2,1) p w(3)] rb_init_full(3) by (auto simp: w(4,5) mask32_mod)
qed

text \<open>RCV.ADV is computed before the segment's bytes are buffered, so that the window
  [RCV.NXT, RCV.ADV) can exceed the free space of the buffer by the length of the last segment.
  A segment inside that window that is longer than the free space is acknowledged as a whole,
  while only the part that fits is stored: the rest is lost.\<close>

lemma acknowledged_beyond_buffer:
  assumes "state w = ESTAB" "win_ok w" "plain_data 0 p w" "rcv_wnd w \<noteq> 0"
    and "rb_free_space (rcv_buf w) < length (sg_data p)"
  shows "\<exists>w'. rx p w = Inr w' \<and> rcv_nxt w' = mask32 (rcv_nxt w + int (length (sg_data p))) \<and>
    rb_contents (rcv_buf w') = rb_contents (rcv_buf w) @ take (rb_free_space (rcv_buf w)) (sg_data p)"
proof -
  note r = rx_estab_plain [OF assms(2,3,4)]
  have wf: "seg_wf p" "0 \<le> sg_dlen p" using assms(3) by (simp_all add: plain_data_def)
  have len: "int (length (sg_data p)) = sg_dlen p" by (rule length_sg_data [OF wf])
  obtain n b where e: "rb_enqueue (rcv_buf w) (sg_data p) = (n, b)" by (rule prod.exhaust)
  have inv: "rb_inv (rcv_buf w)" using assms(2) by (simp add: win_ok_def)
  have "slice (sg_data p) (nat 0) (nat (sg_dlen p - 0)) = sg_data p" using len by (simp add: slice_def)
  then have b: "rcv_buf (rx_estab p w) = b" using r(2) e by simp
  have "n = rb_free_space (rcv_buf w)" using rb.enq_count [OF inv e] assms(5) by simp
  then show ?thesis using r(1) b len assms(1) rb.enq_contents [OF inv e] by (simp add: rx_def rx_map_def)
qed

lemma acknowledged_beyond_buffer_witness:
  "\<exists>w'. rx (data_example 100 [7, 8, 9]) (rcv_example rb_nearly_full) = Inr w' \<and> rcv_nxt w' = 103 \<and>
     rb_contents (rcv_buf w') = rb_contents rb_nearly_full @ [7, 8]"
proof -
  note w = rcv_example_ok(1) [OF rb_nearly_full_ok(1,2)] rcv_example_ok(2-5)
  have p: "plain_data 0 (data_example 100 [7, 8, 9]) (rcv_example rb_nearly_full)"
    using data_example_plain [of 0 "[7, 8, 9]" rb_nearly_full] by simp
  show ?thesis
    using acknowledged_beyond_buffer [OF w(2,1) p w(3)] rb_nearly_full_ok(3) by (auto simp: w(4,5) mask32_mod)
qed

text \<open>A segment that repeats the last \<open>k\<close> bytes received and brings new ones after them advances
  RCV.NXT over all the new bytes, but stores only a part of them: the slice
  \<^verbatim>\<open>data[start : dlen]\<close> ends \<open>k\<close> bytes early.\<close>

lemma overlapping_segment_loses_data:
  assumes "state w = ESTAB" "win_ok w" "plain_data (int k) p w" "rcv_wnd w \<noteq> 0"
    and "length (sg_data p) \<le> rb_free_space (rcv_buf w)"
  shows "\<exists>w'. rx p w = Inr w' \<and>
    rcv_nxt w' = mask32 (rcv_nxt w + int (length (sg_data p) - k)) \<and>
    rb_contents (rcv_buf w') =
      rb_contents (rcv_buf w) @ take (length (sg_data p) - k - k) (drop k (sg_data p))"
proof -
  note r = rx_estab_plain [OF assms(2,3,4)]
  have wf: "seg_wf p" "0 \<le> sg_dlen p" "int k < sg_dlen p" using assms(3) by (simp_all add: plain_data_def)
  have len: "int (length (sg_data p)) = sg_dlen p" by (rule length_sg_data [OF wf(1,2)])
  let ?d = "slice (sg_data p) k (length (sg_data p) - k)"
  obtain n b where e: "rb_enqueue (rcv_buf w) ?d = (n, b)" by (rule prod.exhaust)
  have inv: "rb_inv (rcv_buf w)" using assms(2) by (simp add: win_ok_def)
  have L: "nat (sg_dlen p - int k) = length (sg_data p) - k" "sg_dlen p - int k = int (length (sg_data p) - k)"
    using len wf(3) by (simp_all add: nat_diff_distrib of_nat_diff)
  have b: "rcv_buf (rx_estab p w) = b" using r(2) e by (simp add: L)
  have "length ?d \<le> rb_free_space (rcv_buf w)" using assms(5) by (simp add: slice_def)
  then have "n = length ?d" by (rule rb.enq_all [OF inv e])
  then have "rb_contents b = rb_contents (rcv_buf w) @ ?d" using rb.enq_contents [OF inv e] by simp
  then show ?thesis using r(1) b L assms(1) by (simp add: rx_def rx_map_def slice_def)
qed

lemma overlapping_segment_loses_data_witness:
  "\<exists>w'. rx (data_example 98 [1, 2, 7, 8, 9]) (rcv_example (rb_init 65535)) = Inr w' \<and>
     rcv_nxt w' = 103 \<and> rb_contents (rcv_buf w') = [7]"
proof -
  note w = rcv_example_ok(1) [OF rb_init_full(1,2)] rcv_example_ok(2-5)
  have p: "plain_data (int 2) (data_example 98 [1, 2, 7, 8, 9]) (rcv_example (rb_init 65535))"
    using data_example_plain [of 2 "[1, 2, 7, 8, 9]" "rb_init 65535"] by simp
  show ?thesis
    using overlapping_segment_loses_data [OF w(2,1) p w(3)] rb_init_full(3) by (auto simp: w(4,5) mask32_mod)
qed

end
