(* ===== verification/Tcp_Open.thy ===== *)
theory Tcp_Open
  imports Tcp_Delivery
begin

text \<open>
  Opening a connection: the active open and the three ways a SYN-SENT connection reacts to the
  peer (the three-way handshake, a half-open peer, a malformed option list), and the
  simultaneous open.
\<close>

section \<open>Lemmas\<close>

text \<open>A connection that has sent its SYN and nothing else.\<close>

definition syn_sent :: "fsm \<Rightarrow> bool" where
  "syn_sent w \<longleftrightarrow> state w = SYN_SENT \<and> seq_num (iss w) \<and> snd_una w = iss w \<and> snd_nxt w = mask32 (iss w + 1)"

definition syn_ack :: "tcp_seg \<Rightarrow> bool" where
  "syn_ack p \<longleftrightarrow> sg_syn p \<and> sg_ack p \<and> \<not> sg_rst p \<and> \<not> sg_fin p \<and> seq_num (sg_seq p) \<and> seq_num (sg_ack_seq p)"

lemma connect_syn_sent:
  "seq_num (iss w) \<Longrightarrow> syn_sent (tcp_fsm_connect w)"
  "tx_log (tcp_fsm_connect w) = tx_log w @ [(seg0 w)\<lparr>os_seq := iss w, os_syn := True,
     os_window := DEFAULT_RCV_WND, os_mss := True\<rparr>]"
  "rtx_timer (tcp_fsm_connect w) \<noteq> None" "iss (tcp_fsm_connect w) = iss w"
  "remote_mss (tcp_fsm_connect w) = remote_mss w" "snd_buf (tcp_fsm_connect w) = snd_buf w"
  "close_requested (tcp_fsm_connect w) = close_requested w"
  "shutdown_requested (tcp_fsm_connect w) = shutdown_requested w"
  by (simp_all add: syn_sent_def tcp_fsm_connect_def activ_open_def init_snd_seq_def Let_def)
    (simp add: tx_tcp_def seg0_def)

lemma syn_sent_ack:
  assumes "syn_sent w" "seq_num (sg_ack_seq p)"
  shows "h_rx_ack p w = (if sg_ack_seq p = snd_nxt w then (1, w\<lparr>snd_una := sg_ack_seq p\<rparr>) else (0, w))"
proof -
  have w: "seq_num (snd_una w)" "seq_num (snd_nxt w)" and d: "seq_diff (snd_nxt w) (snd_una w) = 1"
    using assms(1) seq_diff_add [of 1 "iss w"] by (simp_all add: syn_sent_def del: seq_diff_mask)
  have "seq_diff (sg_ack_seq p) (snd_una w) = 1 \<longleftrightarrow> sg_ack_seq p = snd_nxt w"
    using d mask32_add_diff [OF assms(2), of "snd_una w"] mask32_add_diff [OF w(2), of "snd_una w"] by auto
  moreover have "0 < seq_diff (sg_ack_seq p) (snd_una w) \<and> seq_diff (sg_ack_seq p) (snd_una w) \<le> 1 \<longleftrightarrow>
      seq_diff (sg_ack_seq p) (snd_una w) = 1" by auto
  ultimately show ?thesis
    using seq_window_open [OF assms(2) w] d by (auto simp: h_rx_ack_def)
qed

lemma rx_syn_ack:
  assumes "syn_sent w" "syn_ack p"
  shows "rx p w = (if sg_ack_seq p = snd_nxt w then syn_sent_accept p (w\<lparr>snd_una := sg_ack_seq p\<rparr>)
    else Inr (drop_with_reset p w))"
  using assms syn_sent_ack [OF assms(1), of p]
  by (simp add: rx_def rx_map_def syn_sent_def syn_ack_def rx_syn_sent_def Let_def)

lemma established_frame:
  "so_error (stop_rtx_timer (rtt_sample w)) = so_error w" "cb_ref (stop_rtx_timer (rtt_sample w)) = cb_ref w"
  "events (stop_rtx_timer (rtt_sample w)) = events w"
  "so_error (notify e (change_state (Some st) w)) = so_error w" "cb_ref (notify e (change_state (Some st) w)) = cb_ref w"
  "events (notify e (change_state (Some st) w)) = events w"
  "tcp_tbl (stop_rtx_timer (rtt_sample w)) = tcp_tbl w" "tcp_tbl (notify e (change_state (Some st) w)) = tcp_tbl w"
  by (simp_all add: stop_rtx_timer_def rtt_sample_def set_new_rto_def set_initial_rto_def change_state_def notify_def
      Let_def split: option.splits)

text \<open>The SYN-ACK that acknowledges our SYN and carries no data.\<close>

lemma syn_sent_established:
  assumes "syn_sent w" "syn_ack p" "sg_ack_seq p = snd_nxt w" "sg_options p = Inr opts" "sg_dlen p \<le> 0"
  shows "\<exists>w' ack. rx p w = Inr w' \<and> state w' = ESTAB \<and> snd_una w' = snd_nxt w \<and> snd_nxt w' = snd_nxt w \<and>
    rcv_nxt w' = mask32 (sg_seq p + 1) \<and> snd_wnd w' = sg_window p \<and>
    remote_mss w' = (case opts of None \<Rightarrow> 536 | Some m \<Rightarrow> m) \<and> rtx_timer w' = None \<and>
    tx_log w' = tx_log w @ [ack] \<and> so_error w' = so_error w \<and> cb_ref w' = cb_ref w \<and> events w' = events w \<and>
    tcp_tbl w' = tcp_tbl w \<and>
    ack = (seg0 w)\<lparr>os_seq := snd_nxt w, os_ack_seq := mask32 (sg_seq p + 1), os_ack := True, os_window := rcv_wnd w\<rparr>"
proof -
  have "rx p w = syn_sent_accept p (w\<lparr>snd_una := sg_ack_seq p\<rparr>)" using rx_syn_ack [OF assms(1,2)] assms(3) by simp
  moreover obtain w' where w': "syn_sent_accept p (w\<lparr>snd_una := sg_ack_seq p\<rparr>) = Inr w'"
    using assms(4) by (simp add: syn_sent_accept_def Let_def split_def)
  moreover have "state w' = ESTAB \<and> snd_una w' = snd_nxt w \<and> snd_nxt w' = snd_nxt w \<and>
    rcv_nxt w' = mask32 (sg_seq p + 1) \<and> snd_wnd w' = sg_window p \<and>
    remote_mss w' = (case opts of None \<Rightarrow> 536 | Some m \<Rightarrow> m) \<and> rtx_timer w' = None \<and> so_error w' = so_error w \<and>
    cb_ref w' = cb_ref w \<and> events w' = events w \<and> tcp_tbl w' = tcp_tbl w \<and> tx_log w' = tx_log w @ [(seg0 w)\<lparr>os_seq := snd_nxt w, os_ack_seq := mask32 (sg_seq p + 1),
      os_ack := True, os_window := rcv_wnd w\<rparr>]"
    using w' assms(3,4,5)
    by (auto simp: syn_sent_accept_def Let_def split_def syn_sent_data_def init_snd_wnd_def init_rcv_seq_def)
      (simp_all add: tx_tcp_def ack_seg_def seg0_def established_frame)
  ultimately show ?thesis by simp
qed

section \<open>Examples\<close>

definition syn_ack_example :: "bytes \<Rightarrow> tcp_seg" where
  "syn_ack_example opts = (seg_example 500 101)\<lparr>sg_frame := replicate 20 0 @ opts,
     sg_doff := 20 + int (length opts), sg_flags := 0x12\<rparr>"

lemma syn_ack_example_ok: "syn_ack (syn_ack_example opts)"
  by (simp add: syn_ack_def syn_ack_example_def seg_example_def sg_syn_def sg_ack_def sg_rst_def sg_fin_def seq_num_def)

lemma conn_example_iss [simp]: "iss (conn_example i) = i" "remote_mss (conn_example i) = 0" "tx_log (conn_example i) = []"
  by (simp_all add: conn_defs)

lemmas parse_opts_eval = parse_opts.simps byte_at_def unpack_be_def slice_def be_val_def TCP_MSS_KIND_def
  TCP_NOP_KIND_def TCP_EOL_KIND_def TCP_MSS_LEN_def TCP_NOP_LEN_def nth_append

lemma options_mss: "sg_options (syn_ack_example [2, 4, 5, 180]) = Inr (Some 1460)"
  by (simp add: sg_options_def syn_ack_example_def seg_example_def parse_opts_eval)

lemma options_cut: "sg_options (syn_ack_example [1, 1, 1, 2]) = Inl StructError"
  by (simp add: sg_options_def syn_ack_example_def seg_example_def parse_opts_eval)

section \<open>Properties\<close>

text \<open>The three-way handshake: after the active open, a SYN-ACK that acknowledges our SYN makes the
  connection established. Our SYN is acknowledged and nothing is in flight, the receive side
  starts after the peer's SYN, the peer's window is taken over, and so is its segment size (536 when
  it sends no option); the SYN timer is stopped and exactly one segment, the acknowledgment of
  the peer's SYN, is sent after the SYN.\<close>

lemma handshake_establishes:
  assumes "seq_num (iss w)" "syn_ack p" "sg_ack_seq p = mask32 (iss w + 1)"
    and "sg_options p = Inr opts" "sg_dlen p \<le> 0"
  shows "\<exists>w' syn ack. rx p (tcp_fsm_connect w) = Inr w' \<and> state w' = ESTAB \<and>
    snd_una w' = mask32 (iss w + 1) \<and> snd_nxt w' = mask32 (iss w + 1) \<and>
    rcv_nxt w' = mask32 (sg_seq p + 1) \<and> snd_wnd w' = sg_window p \<and>
    remote_mss w' = (case opts of None \<Rightarrow> 536 | Some m \<Rightarrow> m) \<and> rtx_timer w' = None \<and>
    tx_log w' = tx_log w @ [syn, ack] \<and> os_syn syn \<and> \<not> os_ack syn \<and> os_seq syn = iss w \<and> os_mss syn \<and>
    os_ack ack \<and> \<not> os_syn ack \<and> os_seq ack = mask32 (iss w + 1) \<and> os_ack_seq ack = mask32 (sg_seq p + 1)"
proof -
  note c = connect_syn_sent [of w]
  have s: "syn_sent (tcp_fsm_connect w)" by (rule c(1) [OF assms(1)])
  then have nx: "snd_nxt (tcp_fsm_connect w) = mask32 (iss w + 1)" using c(4) by (simp add: syn_sent_def)
  show ?thesis
    using syn_sent_established [OF s assms(2) _ assms(4,5)] assms(3) unfolding nx c(2) by (auto simp: seg0_def)
qed

lemma handshake_establishes_witness:
  "\<exists>w'. rx (syn_ack_example [2, 4, 5, 180]) (tcp_fsm_connect (conn_example 100)) = Inr w' \<and> state w' = ESTAB \<and>
     remote_mss w' = 1460 \<and> rcv_nxt w' = 501"
proof -
  let ?p = "syn_ack_example [2, 4, 5, 180]"
  have "sg_ack_seq ?p = mask32 (iss (conn_example 100) + 1)" "sg_dlen ?p \<le> 0"
    by (simp_all add: syn_ack_example_def seg_example_def mask32_mod)
  then show ?thesis
    using handshake_establishes [OF _ syn_ack_example_ok _ options_mss, of "conn_example 100"]
    by (auto simp: seq_num_def) (simp add: syn_ack_example_def seg_example_def mask32_mod)
qed

text \<open>A SYN-ACK that does not acknowledge our SYN is answered by a reset with the acknowledged
  number as its sequence number, and nothing else changes: the connection goes on retransmitting
  its SYN (the recovery from a half-open peer).\<close>

lemma half_open_peer_reset:
  assumes "seq_num (iss w)" "syn_ack p" "sg_ack_seq p \<noteq> mask32 (iss w + 1)"
  shows "\<exists>rst. rx p (tcp_fsm_connect w) = Inr ((tcp_fsm_connect w)\<lparr>tx_log := tx_log (tcp_fsm_connect w) @ [rst]\<rparr>) \<and>
    os_rst rst \<and> \<not> os_ack rst \<and> os_seq rst = sg_ack_seq p \<and> os_data rst = []"
proof -
  let ?v = "tcp_fsm_connect w"
  have s: "syn_sent ?v" by (rule connect_syn_sent(1) [OF assms(1)])
  then have "sg_ack_seq p \<noteq> snd_nxt ?v" using assms(3) connect_syn_sent(4) by (simp add: syn_sent_def)
  then show ?thesis
    using rx_syn_ack [OF s assms(2)] assms(2)
    by (simp add: drop_with_reset_def syn_ack_def tx_tcp_def) (auto simp: seg0_def)
qed

lemma half_open_peer_reset_witness:
  "\<exists>rst. rx (syn_ack_example []) (tcp_fsm_connect (conn_example 7)) =
      Inr ((tcp_fsm_connect (conn_example 7))\<lparr>tx_log := tx_log (tcp_fsm_connect (conn_example 7)) @ [rst]\<rparr>) \<and> os_rst rst"
proof -
  have "sg_ack_seq (syn_ack_example []) \<noteq> mask32 (iss (conn_example 7) + 1)"
    by (simp add: syn_ack_example_def seg_example_def mask32_mod)
  then show ?thesis
    using half_open_peer_reset [OF _ syn_ack_example_ok, of "conn_example 7" "[]"] by (auto simp: seq_num_def)
qed

text \<open>The option list of a SYN-ACK is read without checking that an option fits in the header: a
  list that ends inside a segment-size option raises, and the exception ends the thread that serves every
  TCP connection. What was done before stays done: the acknowledgment is accepted, RCV.NXT is set and the
  retransmission timer stopped, so that the connection is left in SYN-SENT for good.\<close>

lemma malformed_options_raise:
  assumes "seq_num (iss w)" "syn_ack p" "sg_ack_seq p = mask32 (iss w + 1)" "sg_options p = Inl e"
  shows "\<exists>w'. rx p (tcp_fsm_connect w) = Inl (e, w') \<and> state w' = SYN_SENT \<and> snd_una w' = snd_nxt w' \<and>
    rcv_nxt w' = mask32 (sg_seq p + 1) \<and> rtx_timer w' = None"
proof -
  have s: "syn_sent (tcp_fsm_connect w)" by (rule connect_syn_sent(1) [OF assms(1)])
  then have "sg_ack_seq p = snd_nxt (tcp_fsm_connect w)" using assms(3) connect_syn_sent(4) by (simp add: syn_sent_def)
  then show ?thesis
    using rx_syn_ack [OF s assms(2)] assms(4) s by (simp add: syn_sent_accept_def Let_def syn_sent_def init_rcv_seq_def init_snd_wnd_def)
qed

lemma malformed_options_raise_witness:
  "\<exists>w'. rx (syn_ack_example [1, 1, 1, 2]) (tcp_fsm_connect (conn_example 100)) = Inl (StructError, w') \<and> rtx_timer w' = None"
  using malformed_options_raise [OF _ syn_ack_example_ok _ options_cut, of "conn_example 100"]
  by (fastforce simp: seq_num_def syn_ack_example_def seg_example_def mask32_mod)

section \<open>Simultaneous open\<close>

text \<open>The peer's SYN-ACK in SYN-RECV: it repeats the SYN and acknowledges ours.\<close>

lemma seq_lt_irrefl [simp]: "\<not> seq_lt a a"
  by (simp add: seq_lt_def)

lemma simultaneous_fields:
  fixes p :: tcp_seg and w :: fsm
  assumes "syn_sent w"
  defines "v \<equiv> syn_sent_simultaneous p w"
  shows "state v = SYN_RECV" "irs v = sg_seq p" "rcv_nxt v = mask32 (sg_seq p + 1)"
    "rcv_wnd v = rcv_wnd w" "rcv_adv v = mask32 (mask32 (sg_seq p + 1) + rcv_wnd w)"
    "snd_una v = iss w" "snd_nxt v = mask32 (iss w + 1)" "remote_mss v = remote_mss w" "iss v = iss w"
    "snd_wnd v = sg_window p"
  using assms(1)
  by (simp_all add: v_def syn_sent_simultaneous_def Let_def rollback_to_una_def init_rcv_seq_def
      init_snd_wnd_def syn_sent_def)

lemma syn_recv_ack:
  assumes "state v = SYN_RECV" "seq_num (irs v)" "rcv_nxt v = mask32 (irs v + 1)" "irs v < 4294967295"
    and "win_ok v" "rcv_wnd v \<noteq> 0" "seq_num (iss v)" "snd_una v = iss v" "snd_nxt v = mask32 (iss v + 1)"
    and "syn_ack p" "sg_seq p = irs v" "sg_ack_seq p = snd_nxt v"
  shows "state (rx_syn_recv p v) = ESTAB \<and> remote_mss (rx_syn_recv p v) = remote_mss v"
proof -
  let ?p = "p\<lparr>sg_seq := mask32 (irs v + 1), sg_flags := sg_flags p AND NOT 2, sg_dlen := 0\<rparr>"
  have nx: "rcv_nxt v = irs v + 1" using assms(2,3,4) mask32_id [of "irs v + 1"] by (simp add: seq_num_def)
  have fl: "\<not> sg_fin ?p" "\<not> sg_syn ?p" using assms(10) by (simp_all add: syn_ack_def flag_bits bit_simps)
  have "seg_len ?p = 0" using fl by (simp add: seg_len_def)
  then have seq: "h_rx_seq ?p v = (TCP_ACCEPT_AND_HANDLE, ?p, v)"
    using assms(3,5,6) seq_window_closed [of "rcv_nxt v" "rcv_nxt v" "rcv_adv v"]
    by (simp add: h_rx_seq_cases h_rx_seq_zlen_def win_ok_def DEFAULT_RCV_WND_def)
  have "h_rx_ack ?p v = (1, v\<lparr>snd_una := sg_ack_seq p\<rparr>)"
  proof -
    have d: "seq_diff (snd_nxt v) (snd_una v) = 1" using assms(8,9) seq_diff_add [of 1 "iss v"] by (simp del: seq_diff_mask)
    show ?thesis
      using seq_window_open [of "snd_nxt v" "snd_una v" "snd_nxt v"] d assms(7,8,9,12) by (simp add: h_rx_ack_def)
  qed
  then show ?thesis
    using assms(10,11) nx seq
    by (simp add: rx_syn_recv_def syn_ack_def Let_def) (simp add: h_rx_wnd_def)
qed

lemma tx_estab_hangs:
  assumes "state w = ESTAB" "remote_mss w = 0" "0 < snd_wnd w" "\<not> close_requested w"
    and "rrb_inv (snd_buf w)" "rrb_contents (snd_buf w) \<noteq> []"
  shows "tx w = None"
proof -
  let ?n = "nat (min TCP_MAX_TX_BYTES (snd_wnd w))"
  obtain data b where d: "rrb_dequeue (snd_buf w) ?n = (data, b)" by (rule prod.exhaust)
  note ch = rrb_dequeue_chunks [OF assms(5) d]
  have pos: "0 < ?n" using assms(3) by (simp add: TCP_MAX_TX_BYTES_def)
  have ne: "data \<noteq> []" using ch(2) assms(6) by simp
  obtain x xs where x: "data = x # xs" "x \<noteq> []" using ne ch(3) [OF pos] by (cases data) auto
  let ?v = "compute_rcv_wnd (w\<lparr>snd_buf := b\<rparr>)"
  have "tx w = tx_loop data (Some FIN_WAIT_1) (shutdown_requested w) False ?v"
    using ne assms(1,4) unfolding tx_def tx_map_def tx_estab_def drain_snd_buf_eq [OF d] by simp
  also have "\<dots> = None"
    using assms(2,3) by (intro tx_loop_zero_mss [OF _ _ x(1) ch(1) x(2)]) (simp_all add: linger_abort_def)
  finally show ?thesis .
qed

text \<open>A simultaneous open (a SYN in SYN-SENT, then a SYN-ACK) establishes the connection without ever
  setting the peer's segment size: it keeps its initial value 0, and the first send event with data
  and an open window never returns, which stops the thread that serves every TCP connection.\<close>

lemma simultaneous_open_hangs:
  assumes "seq_num (iss w)" "rcv_wnd w = DEFAULT_RCV_WND" "rb_inv (rcv_buf w)"
    and "rb_size (rcv_buf w) = DEFAULT_RECV_BUFF" "remote_mss w = 0"
    and "sg_syn p1" "\<not> sg_ack p1" "\<not> sg_rst p1" "\<not> sg_fin p1" "0 \<le> sg_seq p1" "sg_seq p1 < 4294967295"
    and "syn_ack p2" "sg_seq p2 = sg_seq p1" "sg_ack_seq p2 = mask32 (iss w + 1)"
  shows "\<exists>v w'. rx p1 (tcp_fsm_connect w) = Inr v \<and> rx p2 v = Inr w' \<and> state w' = ESTAB \<and> remote_mss w' = 0 \<and>
    (\<forall>b. rrb_inv b \<longrightarrow> rrb_contents b \<noteq> [] \<longrightarrow> 0 < snd_wnd w' \<longrightarrow> \<not> close_requested w' \<longrightarrow>
      tx (w'\<lparr>snd_buf := b\<rparr>) = None)"
proof -
  let ?w = "tcp_fsm_connect w" and ?v = "syn_sent_simultaneous p1 (tcp_fsm_connect w)"
  have s: "syn_sent ?w" by (rule connect_syn_sent(1) [OF assms(1)])
  have r1: "rx p1 ?w = Inr ?v"
    using s assms(6-9) by (simp add: rx_def rx_map_def syn_sent_def rx_syn_sent_def)
  note v = simultaneous_fields [OF s, of p1]
  have c: "rcv_wnd ?w = DEFAULT_RCV_WND" "rb_inv (rcv_buf ?w)" "rb_size (rcv_buf ?w) = DEFAULT_RECV_BUFF"
    using assms(2-4) by (simp_all add: fresh_connect)
  have ok: "win_ok ?v" using syn_sent_simultaneous_win [OF c, of p1] v(1) by (simp add: rcv_inv_def)
  have w': "state (rx_syn_recv p2 ?v) = ESTAB \<and> remote_mss (rx_syn_recv p2 ?v) = remote_mss ?v"
    using v c assms connect_syn_sent(4) [of w] ok
    by (intro syn_recv_ack) (simp_all add: seq_num_def DEFAULT_RCV_WND_def)
  have r2: "rx p2 ?v = Inr (rx_syn_recv p2 ?v)" using v(1) by (simp add: rx_def rx_map_def)
  have "remote_mss (rx_syn_recv p2 ?v) = 0" using w' v(8) connect_syn_sent(5) [of w] assms(5) by simp
  then show ?thesis
    using r1 r2 w' tx_estab_hangs by (intro exI [of _ ?v] exI [of _ "rx_syn_recv p2 ?v"]) simp
qed

lemma simultaneous_open_hangs_witness:
  "\<exists>v w'. rx ((seg_example 500 0)\<lparr>sg_flags := 2\<rparr>) (tcp_fsm_connect (conn_example 100)) = Inr v \<and>
     rx (syn_ack_example []) v = Inr w' \<and> state w' = ESTAB \<and> remote_mss w' = 0"
proof -
  let ?p = "(seg_example 500 0)\<lparr>sg_flags := 2\<rparr>" and ?w = "conn_example 100"
  have p: "sg_syn ?p" "\<not> sg_ack ?p" "\<not> sg_rst ?p" "\<not> sg_fin ?p" "0 \<le> sg_seq ?p" "sg_seq ?p < 4294967295"
    by (simp_all add: seg_example_def sg_syn_def sg_ack_def sg_rst_def sg_fin_def)
  have q: "sg_seq (syn_ack_example []) = sg_seq ?p" "sg_ack_seq (syn_ack_example []) = mask32 (iss ?w + 1)"
    by (simp_all add: syn_ack_example_def seg_example_def mask32_mod)
  have w: "seq_num (iss ?w)" "rcv_wnd ?w = DEFAULT_RCV_WND" "rb_inv (rcv_buf ?w)"
    "rb_size (rcv_buf ?w) = DEFAULT_RECV_BUFF" "remote_mss ?w = 0"
    using rb_init_full(1,2) by (simp_all add: seq_num_def) (simp_all add: conn_defs DEFAULT_RECV_BUFF_def)
  show ?thesis
    using simultaneous_open_hangs [OF w p syn_ack_example_ok q] by blast
qed

end
