(* ===== verification/Tcp_Close.thy ===== *)
theory Tcp_Close
  imports Tcp_Open
begin

text \<open>
  Closing a connection: resets, the peer's FIN in every state that awaits it, and our own FIN.
\<close>

section \<open>Operations that keep the identity of the connection\<close>

locale id_frame =
  fixes h :: "fsm \<Rightarrow> fsm"
  assumes id_frame_fields [simp]: "cb_ref (h w) = cb_ref w" "so (h w) = so w" "socket_id (h w) = socket_id w"

sublocale data_frame \<subseteq> id_frame
  by unfold_locales (simp_all add: socket_id_def)

interpretation h_rx_ack_i: id_frame "\<lambda>w. snd (h_rx_ack p w)" for p
  by unfold_locales (simp_all add: h_rx_ack_def socket_id_def)

interpretation h_rx_wnd_i: id_frame "\<lambda>w. snd (h_rx_wnd p w)" for p
  by unfold_locales (simp_all add: h_rx_wnd_def socket_id_def)

lemma socket_id_snd_buf [simp]: "socket_id (w\<lparr>snd_buf := b\<rparr>) = socket_id w"
  by (simp add: socket_id_def)

interpretation estab_acked_i: id_frame "estab_acked a" for a
  by unfold_locales (simp_all add: estab_acked_def Let_def)

interpretation compute_rcv_wnd_i: id_frame compute_rcv_wnd
  by unfold_locales (simp_all add: compute_rcv_wnd_def socket_id_def Let_def)

interpretation drain_snd_buf_i: id_frame "\<lambda>w. snd (drain_snd_buf w)"
  by unfold_locales (simp_all add: drain_snd_buf_def Let_def split_def)

interpretation h_rx_seq_i: id_frame "\<lambda>w. snd (snd (h_rx_seq p w))" for p
  by unfold_locales (simp_all add: h_rx_seq_cases h_rx_seq_zlen_zwnd_def h_rx_seq_zlen_def h_rx_seq_zwnd_def
      h_rx_seq_normal_def Let_def socket_id_def)

section \<open>A bare FIN in order\<close>

definition fin_only :: "tcp_seg \<Rightarrow> fsm \<Rightarrow> bool" where
  "fin_only p w \<longleftrightarrow> seg_wf p \<and> sg_fin p \<and> \<not> sg_syn p \<and> \<not> sg_rst p \<and> sg_dlen p = 0 \<and> sg_seq p = rcv_nxt w"

definition win_room :: "fsm \<Rightarrow> bool" where
  "win_room w \<longleftrightarrow> win_ok w \<and> 1 < seq_diff (rcv_adv w) (rcv_nxt w) \<and> rcv_wnd w \<noteq> 0"

text \<open>
  The sequence check counts the FIN as a byte of data: it leaves the segment with a data length
  of 1.
\<close>

lemma h_rx_seq_fin:
  assumes ok: "win_room w" and p: "fin_only p w"
  shows "h_rx_seq p w = (TCP_ACCEPT_AND_HANDLE, p\<lparr>sg_dlen := 1\<rparr>,
    w\<lparr>tcp_data_start := 0, tcp_data_len := 1, rcv_nxt := mask32 (rcv_nxt w + 1)\<rparr>)"
proof -
  let ?n = "rcv_nxt w" and ?W = "seq_diff (rcv_adv w) (rcv_nxt w)"
  have num: "seq_num ?n" and W: "1 < ?W" "?W \<le> 65535" and wnd: "rcv_wnd w \<noteq> 0"
    using ok by (auto simp: win_room_def win_ok_def DEFAULT_RCV_WND_def)
  have f: "sg_fin p" "\<not> sg_syn p" "sg_dlen p = 0" "sg_seq p = ?n" using p by (simp_all add: fin_only_def)
  have last: "last_seq p = ?n" using f by (simp add: last_seq_def)
  have n: "mask32 ?n = ?n" by (rule mask32_id [OF num])
  have "mask32 (?W - 1) = ?W - 1" using W by (intro mask32_id) (simp add: seq_num_def)
  moreover have "seq_diff (?n + 1) ?n = 1" using seq_diff_add [of 1 ?n] by simp
  ultimately have dl: "min (mask32 (?W - 1)) (seq_diff (?n + 1) ?n) = 1" using W by simp
  have adv: "\<not> seq_geq ?n (rcv_adv w)"
    using seq_diff_neg [of ?n "rcv_adv w"] W by (simp add: seq_geq_diff)
  have "h_rx_seq p w = h_rx_seq_normal p w" using wnd f by (simp add: h_rx_seq_cases seg_len_def)
  also have "\<dots> = (TCP_ACCEPT_AND_HANDLE, p\<lparr>sg_dlen := 1\<rparr>,
      w\<lparr>tcp_data_start := 0, tcp_data_len := 1, rcv_nxt := mask32 (?n + 1)\<rparr>)"
  proof -
    have ff: "sg_fin (p\<lparr>sg_seq := x\<rparr>) = sg_fin p" "sg_syn (p\<lparr>sg_seq := x\<rparr>) = sg_syn p"
      "sg_fin (p\<lparr>sg_seq := x, sg_dlen := y\<rparr>) = sg_fin p" for x y
      by (simp_all add: sg_fin_def sg_syn_def)
    have same: "p\<lparr>sg_seq := ?n, sg_dlen := 1\<rparr> = p\<lparr>sg_dlen := 1\<rparr>" using f(4) by (cases p) simp
    show ?thesis
      using f dl adv same by (simp add: h_rx_seq_normal_def Let_def ff last n seq_leq_def seq_geq_def)
  qed
  finally show ?thesis .
qed

lemma fin_only_data: "fin_only p w \<Longrightarrow> sg_data p = []"
  using length_sg_data [of p] by (simp add: fin_only_def)

lemma append_nothing:
  "sg_data p = [] \<Longrightarrow> snd (append_rcv_data p w) = compute_rcv_wnd w"
  by (simp add: append_rcv_data_def Let_def)

lemma sg_upd [simp]:
  "sg_fin (p\<lparr>sg_dlen := x\<rparr>) = sg_fin p" "sg_syn (p\<lparr>sg_dlen := x\<rparr>) = sg_syn p"
  "sg_rst (p\<lparr>sg_dlen := x\<rparr>) = sg_rst p" "sg_ack (p\<lparr>sg_dlen := x\<rparr>) = sg_ack p"
  "sg_data (p\<lparr>sg_dlen := x\<rparr>) = sg_data p"
  by (simp_all add: sg_fin_def sg_syn_def sg_rst_def sg_ack_def sg_data_def)

section \<open>Resets\<close>

definition passes_check :: "tcp_seg \<Rightarrow> fsm \<Rightarrow> bool" where
  "passes_check p w \<longleftrightarrow>
     (if state w \<in> {ESTAB, FIN_WAIT_1, FIN_WAIT_2} then fst (h_rx_seq p w) = TCP_ACCEPT_AND_HANDLE
      else h_rx_seq_check p w = TCP_ACCEPT_AND_HANDLE)"

definition reset_states :: "tcp_state set" where
  "reset_states = {ESTAB, FIN_WAIT_1, FIN_WAIT_2, CLOSE_WAIT, CLOSING, LAST_ACK}"

lemma h_rx_seq_rst [simp]: "sg_rst (fst (snd (h_rx_seq p w))) = sg_rst p"
  by (simp add: h_rx_seq_cases h_rx_seq_zlen_zwnd_def h_rx_seq_zlen_def h_rx_seq_zwnd_def
      h_rx_seq_normal_def Let_def flag_bits bit_simps)

interpretation h_rx_seq_e: env_frame "\<lambda>w. snd (snd (h_rx_seq p w))" for p
  by unfold_locales (simp_all add: h_rx_seq_cases h_rx_seq_zlen_zwnd_def h_rx_seq_zlen_def h_rx_seq_zwnd_def
      h_rx_seq_normal_def Let_def)

lemma remove_tcpcb_tbl:
  "tcp_sockets (tcp_tbl (remove_tcpcb w)) (socket_id w) = None"
  "tcp_tcpcbs (tcp_tbl (remove_tcpcb w)) (socket_id w) = None"
  by (simp_all add: remove_tcpcb_def table_remove_tcpcb_def tcp_remove_socket_def)

lemma env_rest [simp]:
  "so_error (remove_tcpcb w) = so_error w" "notified (remove_tcpcb w) = notified w"
  "so_error (signal_rst w) = so_error w" "tcp_tbl (signal_rst w) = tcp_tbl w"
  "so_error (set_so_error e w) (so w) = e" "tcp_tbl (set_so_error e w) = tcp_tbl w"
  "notified (signal_rst w) = notified w @ [RecvEvents (so w), SendEvents (so w)]"
  by (simp_all add: remove_tcpcb_def signal_rst_def notify_def set_so_error_def)

definition aborted :: "errno \<Rightarrow> fsm \<Rightarrow> fsm \<Rightarrow> bool" where
  "aborted e w w' \<longleftrightarrow> state w' = CLOSED \<and> so_error w' (so w) = e \<and> rtx_timer w' = None \<and>
     time_wait_timer w' = None \<and> tcp_sockets (tcp_tbl w') (socket_id w) = None \<and>
     tcp_tcpcbs (tcp_tbl w') (socket_id w) = None \<and>
     RecvEvents (so w) \<in> set (notified w') \<and> SendEvents (so w) \<in> set (notified w')"

lemma h_rx_rst_aborts:
  assumes "sg_rst p"
  shows "fst (h_rx_rst p e w)" "aborted e w (signal_rst (snd (h_rx_rst p e w)))"
proof -
  show "fst (h_rx_rst p e w)" using assms by (simp add: h_rx_rst_def)
  let ?v = "change_state (Some CLOSED) (stop_all_timers (set_so_error e w))"
  have "socket_id ?v = socket_id w" by simp
  then have "tcp_sockets (tcp_tbl (remove_tcpcb ?v)) (socket_id w) = None"
    "tcp_tcpcbs (tcp_tbl (remove_tcpcb ?v)) (socket_id w) = None"
    using remove_tcpcb_tbl [of ?v] by simp_all
  then show "aborted e w (signal_rst (snd (h_rx_rst p e w)))"
    using assms by (simp add: h_rx_rst_def aborted_def)
qed

lemma aborted_same: "aborted e w' v \<Longrightarrow> so w' = so w \<Longrightarrow> socket_id w' = socket_id w \<Longrightarrow> aborted e w v"
  by (simp add: aborted_def)

text \<open>What a handler does with a reset, given the verdict on its sequence number.\<close>

definition reset_outcome :: "bool \<Rightarrow> fsm \<Rightarrow> fsm \<Rightarrow> bool" where
  "reset_outcome ok w w' \<longleftrightarrow>
     (if ok then aborted ECONNRESET w w'
      else state w' = state w \<and> so_error w' = so_error w \<and> tcp_tbl w' = tcp_tbl w)"

lemma reset_aborts:
  assumes "sg_rst p" "so w' = so w" "socket_id w' = socket_id w"
  shows "aborted ECONNRESET w (signal_rst (snd (h_rx_rst p ECONNRESET w')))" "fst (h_rx_rst p ECONNRESET w')"
  using h_rx_rst_aborts [OF assms(1), of ECONNRESET w'] aborted_same assms(2,3) by blast+

lemma accept_reset:
  assumes "sg_rst p"
  shows "estab_accept p w = signal_rst (snd (h_rx_rst p ECONNRESET w))"
    "fin_wait_1_accept p w = signal_rst (snd (h_rx_rst p ECONNRESET w))"
    "fin_wait_2_accept p w = signal_rst (snd (h_rx_rst p ECONNRESET w))"
  using h_rx_rst_aborts(1) [OF assms, of ECONNRESET w]
  by (simp_all add: estab_accept_def fin_wait_1_accept_def fin_wait_2_accept_def rst_or_close_rx_def Let_def split_def)

lemma reset_full_check:
  assumes "sg_rst p"
  shows "reset_outcome (fst (h_rx_seq p w) = TCP_ACCEPT_AND_HANDLE) w (rx_estab p w)"
    "reset_outcome (fst (h_rx_seq p w) = TCP_ACCEPT_AND_HANDLE) w (rx_fin_wait_1 p w)"
    "reset_outcome (fst (h_rx_seq p w) = TCP_ACCEPT_AND_HANDLE) w (rx_fin_wait_2 p w)"
proof -
  obtain v p1 w1 where q: "h_rx_seq p w = (v, p1, w1)" by (rule prod_cases3)
  have p1: "sg_rst p1" using h_rx_seq_rst [of p w] q assms by simp
  have w1: "so w1 = so w" "socket_id w1 = socket_id w" "state w1 = state w" "so_error w1 = so_error w"
    "tcp_tbl w1 = tcp_tbl w"
    using h_rx_seq_i.id_frame_fields [where p = p and w = w] h_rx_seq_s.state_frame_fields [of p w] h_rx_seq_e.env_frame_fields [of p w]
    unfolding q by simp_all
  note r = reset_aborts(1) [OF p1 w1(1,2)]
  show "reset_outcome (fst (h_rx_seq p w) = TCP_ACCEPT_AND_HANDLE) w (rx_estab p w)"
    using r by (cases v) (simp_all add: q rx_estab_def reset_outcome_def accept_reset [OF p1] w1)
  show "reset_outcome (fst (h_rx_seq p w) = TCP_ACCEPT_AND_HANDLE) w (rx_fin_wait_1 p w)"
    using r by (cases v) (simp_all add: q rx_fin_wait_1_def reset_outcome_def accept_reset [OF p1] w1)
  show "reset_outcome (fst (h_rx_seq p w) = TCP_ACCEPT_AND_HANDLE) w (rx_fin_wait_2 p w)"
    using r by (cases v) (simp_all add: q rx_fin_wait_2_def reset_outcome_def accept_reset [OF p1] w1)
qed

lemma reset_short_check:
  assumes "sg_rst p"
  shows "reset_outcome (h_rx_seq_check p w = TCP_ACCEPT_AND_HANDLE) w (rx_close_wait p w)"
    "reset_outcome (h_rx_seq_check p w = TCP_ACCEPT_AND_HANDLE) w (rx_closing p w)"
    "reset_outcome (h_rx_seq_check p w = TCP_ACCEPT_AND_HANDLE) w (rx_last_ack p w)"
  using reset_aborts [OF assms, of w w]
  by (simp_all add: reset_outcome_def rx_close_wait_def rx_closing_def rx_last_ack_def rst_or_close_rx_def
      Let_def split_def)

section \<open>Our FIN and its acknowledgment\<close>

lemma drain_empty:
  assumes "rrb_inv (snd_buf w)" "rrb_contents (snd_buf w) = []"
  shows "\<exists>b. drain_snd_buf w = ([], w\<lparr>snd_buf := b\<rparr>)"
proof -
  obtain data b where d: "rrb_dequeue (snd_buf w) (nat (min TCP_MAX_TX_BYTES (snd_wnd w))) = (data, b)"
    by (rule prod.exhaust)
  show ?thesis
    by (rule exI [of _ b]) (use drain_snd_buf_eq [OF d] rrb_dequeue_chunks(2) [OF assms(1) d] assms(2) in simp)
qed

lemma compute_rcv_wnd_more [simp]:
  "sent_fin (compute_rcv_wnd w) = sent_fin w" "sock_opt (compute_rcv_wnd w) = sock_opt w"
  "snd_max (compute_rcv_wnd w) = snd_max w" "tx_log (compute_rcv_wnd w) = tx_log w"
  "tcp_tbl (compute_rcv_wnd w) = tcp_tbl w" "rtx_timer (compute_rcv_wnd w) = rtx_timer w"
  "rcv_nxt (compute_rcv_wnd w) = rcv_nxt w" "time_wait_timer (compute_rcv_wnd w) = time_wait_timer w"
  by (simp_all add: compute_rcv_wnd_def Let_def)

lemma send_fin_first:
  assumes "\<not> sent_fin w"
  shows "sent_fin (send_fin ns w)" "snd_nxt (send_fin ns w) = mask32 (snd_nxt w + 1)"
    "snd_max (send_fin ns w) = snd_nxt (send_fin ns w)" "rtx_timer (send_fin ns w) \<noteq> None"
    "tx_log (send_fin ns w) = tx_log w @ [fin_seg w]"
proof -
  have "fin_seg (rtt_probe (w\<lparr>sent_fin := True\<rparr>)) = fin_seg w"
    by (simp add: fin_seg_def ack_seg_def seg0_def)
  then show "tx_log (send_fin ns w) = tx_log w @ [fin_seg w]"
    using assms by (simp add: send_fin_def Let_def) (simp add: tx_tcp_def)
qed (use assms in \<open>simp_all add: send_fin_def Let_def\<close>)

text \<open>An acknowledgment without data, in order, of everything sent.\<close>

definition acks_all :: "tcp_seg \<Rightarrow> fsm \<Rightarrow> bool" where
  "acks_all p w \<longleftrightarrow> seg_wf p \<and> \<not> sg_fin p \<and> \<not> sg_syn p \<and> \<not> sg_rst p \<and> sg_dlen p = 0 \<and>
     sg_seq p = rcv_nxt w \<and> sg_ack_seq p = snd_nxt w \<and>
     0 < seq_diff (snd_nxt w) (snd_una w) \<and> seq_diff (snd_nxt w) (snd_una w) < 2147483648"

lemma win_ok_seq: "win_ok w \<Longrightarrow> seq_lt (rcv_nxt w) (rcv_adv w)"
  using seq_diff_neg [of "rcv_nxt w" "rcv_adv w"]
  by (simp add: win_ok_def seq_lt_diff DEFAULT_RCV_WND_def del: seq_diff_range)

lemma acks_all_checks:
  assumes "win_ok w" "acks_all p w"
  shows "h_rx_seq_check p w = TCP_ACCEPT_AND_HANDLE" "h_rx_seq p w = (TCP_ACCEPT_AND_HANDLE, p, w)"
    "h_rx_ack p w = (seq_diff (snd_nxt w) (snd_una w), w\<lparr>snd_una := snd_nxt w\<rparr>)"
    "0 < seq_diff (snd_nxt w) (snd_una w)" "h_rx_rst p e w = (False, w)" "sg_data p = []"
proof -
  have p: "sg_seq p = rcv_nxt w" "sg_ack_seq p = snd_nxt w" "sg_dlen p = 0" "\<not> sg_rst p" "seg_wf p"
    "\<not> sg_fin p" "\<not> sg_syn p" and d: "0 < seq_diff (snd_nxt w) (snd_una w)" "seq_diff (snd_nxt w) (snd_una w) < 2147483648"
    using assms(2) by (simp_all add: acks_all_def)
  note adv = win_ok_seq [OF assms(1)]
  show "h_rx_seq_check p w = TCP_ACCEPT_AND_HANDLE"
    using adv by (simp add: h_rx_seq_check_def p seq_geq_def)
  show "h_rx_seq p w = (TCP_ACCEPT_AND_HANDLE, p, w)"
    using adv by (simp add: h_rx_seq_cases seg_len_def h_rx_seq_zlen_zwnd_def h_rx_seq_zlen_def p seq_leq_def)
  show "0 < seq_diff (snd_nxt w) (snd_una w)" by (rule d(1))
  have "snd_nxt w \<noteq> snd_una w" using d(1) by auto
  then have ne: "\<not> seq_leq (snd_nxt w) (snd_una w)" "\<not> seq_gt (snd_nxt w) (snd_nxt w)"
    using d(2) by (simp_all add: seq_leq_def seq_lt_diff seq_gt_def)
  show "h_rx_ack p w = (seq_diff (snd_nxt w) (snd_una w), w\<lparr>snd_una := snd_nxt w\<rparr>)"
    using ne by (simp add: h_rx_ack_def p)
  show "h_rx_rst p e w = (False, w)" by (simp add: h_rx_rst_def p)
  show "sg_data p = []" using length_sg_data [of p] p by simp
qed

lemma fin_acked:
  assumes "state w \<in> {FIN_WAIT_1, CLOSING, LAST_ACK}" "win_ok w" "acks_all p w"
  shows "\<exists>w'. rx p w = Inr w' \<and> snd_una w' = snd_nxt w \<and> snd_nxt w' = snd_nxt w \<and> rtx_timer w' = None \<and>
    state w' = (case state w of FIN_WAIT_1 \<Rightarrow> FIN_WAIT_2 | CLOSING \<Rightarrow> TIME_WAIT | _ \<Rightarrow> CLOSED) \<and>
    (state w = CLOSING \<longrightarrow> time_wait_timer w' \<noteq> None)"
proof -
  note k = acks_all_checks [OF assms(2,3)]
  have f: "\<not> sg_fin p" "\<not> sg_syn p" "sg_dlen p = 0" using assms(3) by (simp_all add: acks_all_def)
  have r: "rst_or_close_rx p w = (False, w)" by (simp add: rst_or_close_rx_def k(5) h_active_close_rx_def f)
  consider "state w = FIN_WAIT_1" | "state w = CLOSING" | "state w = LAST_ACK" using assms(1) by blast
  then show ?thesis
  proof cases
    case 1
    then show ?thesis
      using k(4) f append_nothing [OF k(6)]
      by (simp add: rx_def rx_map_def rx_fin_wait_1_def k(2,3) fin_wait_1_accept_def r Let_def split_def
          fin_wait_1_acked_def) (simp add: h_rx_wnd_def)
  next
    case 2
    then show ?thesis
      using k(4) f by (simp add: rx_def rx_map_def rx_closing_def k(1,3) r Let_def split_def)
        (simp add: h_rx_wnd_def start_time_wait_timer_def split_def Let_def)
  next
    case 3
    then show ?thesis
      using k(4) f by (simp add: rx_def rx_map_def rx_last_ack_def k(1,3,5) Let_def split_def)
        (simp add: h_rx_wnd_def)
  qed
qed

lemma close_tx:
  assumes "state w \<in> {ESTAB, CLOSE_WAIT}" "close_requested w \<or> shutdown_requested w"
    and "rrb_inv (snd_buf w)" "rrb_contents (snd_buf w) = []" "0 < snd_wnd w" "\<not> sent_fin w"
    and "\<not> linger_abort (close_requested w) w"
  shows "\<exists>w' s. tx w = Some (Inr w') \<and> tx_log w' = tx_log w @ [s] \<and> os_fin s \<and> os_data s = [] \<and>
    os_seq s = snd_nxt w \<and> snd_nxt w' = mask32 (snd_nxt w + 1) \<and> snd_max w' = snd_nxt w' \<and> sent_fin w' \<and>
    rtx_timer w' \<noteq> None \<and> state w' = (if state w = ESTAB then FIN_WAIT_1 else LAST_ACK)"
proof -
  obtain b where b: "drain_snd_buf w = ([], w\<lparr>snd_buf := b\<rparr>)" using drain_empty [OF assms(3,4)] by blast
  obtain c where c: "drain_snd_buf (compute_rcv_wnd w) = ([], (compute_rcv_wnd w)\<lparr>snd_buf := c\<rparr>)"
    using drain_empty [of "compute_rcv_wnd w"] assms(3,4) by auto
  let ?v = "compute_rcv_wnd (w\<lparr>snd_buf := b\<rparr>)" and ?u = "(compute_rcv_wnd w)\<lparr>snd_buf := c\<rparr>"
  have l: "\<not> linger_abort (close_requested w) ?v" "\<not> linger_abort (close_requested w) ?u"
    using assms(7) by (simp_all add: linger_abort_def)
  have sent: "\<not> sent_fin ?v" "\<not> sent_fin ?u" using assms(6) by simp_all
  have seg: "os_fin (fin_seg v)" "os_data (fin_seg v) = []" "os_seq (fin_seg v) = snd_nxt v" for v
    by (simp_all add: fin_seg_def ack_seg_def seg0_def)
  show ?thesis
  proof (cases "state w = ESTAB")
    case True
    have "tx w = Some (Inr ((send_fin (Some FIN_WAIT_1) ?v)\<lparr>ack_now := False\<rparr>))"
      using True assms(2,5) by (auto simp: tx_def tx_map_def tx_estab_def b h_active_close_tx_no [OF l(1)] Let_def)
    then show ?thesis
      using True seg [of ?v] send_fin_first [OF sent(1)] assms(6)
      by (intro exI [of _ "(send_fin (Some FIN_WAIT_1) ?v)\<lparr>ack_now := False\<rparr>"] exI [of _ "fin_seg ?v"]) simp
  next
    case False
    then have s: "state w = CLOSE_WAIT" using assms(1) by simp
    have "tx w = Some (Inr (send_fin (Some LAST_ACK) ?u))"
      using s assms(2,5) by (auto simp: tx_def tx_map_def tx_close_wait_def c h_active_close_tx_no [OF l(2)] Let_def)
    then show ?thesis
      using s seg [of ?u] send_fin_first [OF sent(2)] assms(6)
      by (intro exI [of _ "send_fin (Some LAST_ACK) ?u"] exI [of _ "fin_seg ?u"]) simp
  qed
qed

section \<open>Examples\<close>

definition close_example :: "tcp_state \<Rightarrow> fsm" where
  "close_example s = (rcv_example (rb_init 65535))\<lparr>state := s, snd_nxt := 1, snd_max := 1\<rparr>"

definition fin_example :: tcp_seg where
  "fin_example = (seg_example 100 0)\<lparr>sg_flags := 0x11\<rparr>"

definition rst_example :: tcp_seg where
  "rst_example = (seg_example 100 0)\<lparr>sg_flags := 0x14\<rparr>"

definition ack_example :: tcp_seg where
  "ack_example = seg_example 100 1"

lemma close_example_fields [simp]:
  "state (close_example s) = s" "snd_una (close_example s) = 0" "snd_nxt (close_example s) = 1"
  "rcv_nxt (close_example s) = 100" "rcv_adv (close_example s) = 1100" "rcv_wnd (close_example s) = 65535"
  "snd_wnd (close_example s) = 100" "remote_mss (close_example s) = 2" "\<not> sent_fin (close_example s)"
  "\<not> close_requested (close_example s)" "\<not> shutdown_requested (close_example s)"
  "snd_buf (close_example s) = rrb_init DEFAULT_SEND_BUFF" "time_wait_timer (close_example s) = None"
  "sock_opt (close_example s) = Map.empty" "so (close_example s) = 0" "tcp_tbl (close_example s) = tcp_table_init"
  "socket_id (close_example s) = (10, 40000, 20, 80)" "tx_log (close_example s) = []"
  by (simp_all add: close_example_def rcv_example_def socket_id_def)
    (simp_all add: estab_example_def conn_defs DEFAULT_RCV_WND_def)

lemma close_example_buf [simp]: "rcv_buf (close_example s) = rb_init 65535"
  by (simp add: close_example_def rcv_example_def)

lemma close_example_ok: "win_ok (close_example s)" "win_room (close_example s)"
  using rb_init_full
  by (simp_all add: win_room_def win_ok_def seq_num_def seq_diff_mod DEFAULT_RCV_WND_def DEFAULT_RECV_BUFF_def)

lemma win_room_close [simp]: "win_room (w\<lparr>close_requested := c\<rparr>) = win_room w"
  by (simp add: win_room_def win_ok_def)

lemma seg_examples:
  "fin_only fin_example (w\<lparr>close_requested := c\<rparr>) = fin_only fin_example w"
  "fin_only fin_example (close_example s)" "acks_all ack_example (close_example s)" "sg_rst rst_example"
  "sg_ack_seq fin_example = 0" "sg_seq rst_example = 100" "sg_dlen rst_example = 0" "\<not> sg_fin rst_example"
  "\<not> sg_syn rst_example"
  by (simp_all add: fin_only_def acks_all_def fin_example_def ack_example_def rst_example_def seg_example_def
      seg_wf_def seg_ok_def seq_num_def seq_diff_mod sg_syn_def sg_fin_def sg_rst_def)

lemma buf_example:
  "rrb_inv (rrb_init DEFAULT_SEND_BUFF)" "rrb_contents (rrb_init DEFAULT_SEND_BUFF) = []"
  using rrb_safe_init [of DEFAULT_SEND_BUFF] rrbr.safe_inv by (simp_all add: DEFAULT_SEND_BUFF_def)

text \<open>A send buffer that holds 65534 bytes, more than one call of the send loop may take.\<close>

definition full_example :: rring_buffer where
  "full_example = (rrb_init DEFAULT_SEND_BUFF)\<lparr>rrb_vw := 65534\<rparr>"

lemma full_example_ok: "rrb_inv full_example" "length (rrb_contents full_example) = 65534"
  by (simp_all add: full_example_def rrb_inv_def rrb_view_def rrb_init_def rb_inv_def DEFAULT_SEND_BUFF_def
      rrb_contents_def rb_contents_def rb_ready_def)

section \<open>Properties\<close>

text \<open>C26. In every synchronized state before TIME-WAIT, a reset that passes the state's sequence check
  aborts the connection: it is closed, both timers are stopped, the socket reports ECONNRESET, the
  socket and the control block are gone from the tables, and the threads waiting to send or receive
  are woken. A reset (like any segment) that is outside the window, neither handled nor buffered,
  changes neither the state, nor the error, nor the tables.\<close>

theorem reset_needs_window:
  assumes "state w \<in> reset_states" "sg_rst p"
  shows "\<exists>w'. rx p w = Inr w' \<and>
    (if passes_check p w then aborted ECONNRESET w w'
     else state w' = state w \<and> so_error w' = so_error w \<and> tcp_tbl w' = tcp_tbl w)"
proof -
  have "\<exists>w'. rx p w = Inr w' \<and> reset_outcome (passes_check p w) w w'"
    using assms(1) reset_full_check [OF assms(2)] reset_short_check [OF assms(2)]
    by (cases "state w"; simp add: reset_states_def passes_check_def rx_def rx_map_def)
  then show ?thesis unfolding reset_outcome_def .
qed

theorem reset_needs_window_witness:
  "\<exists>w'. rx rst_example (close_example ESTAB) = Inr w' \<and> aborted ECONNRESET (close_example ESTAB) w'"
proof -
  have "seq_lt 100 1100" by (simp add: seq_lt_diff seq_diff_mod)
  then have "passes_check rst_example (close_example ESTAB)"
    by (simp add: passes_check_def h_rx_seq_cases seg_len_def seg_examples h_rx_seq_zlen_def seq_leq_def)
  then show ?thesis
    using reset_needs_window [of "close_example ESTAB" rst_example] seg_examples(4)
    by (simp add: reset_states_def)
qed

text \<open>The passive close: a FIN in order in ESTAB moves to CLOSE-WAIT, advances RCV.NXT over it,
  schedules the acknowledgment and wakes a waiting reader.\<close>

lemma passive_close:
  assumes "state w = ESTAB" "win_room w" "fin_only p w"
  shows "\<exists>w'. rx p w = Inr w' \<and> state w' = CLOSE_WAIT \<and> rcv_nxt w' = mask32 (rcv_nxt w + 1) \<and> ack_now w' \<and>
    rcv_buf w' = rcv_buf w \<and> last (events w') = TCPEvent SEND (Some (cb_ref w')) None \<and>
    RecvEvents (so w) \<in> set (notified w')"
proof -
  have fl: "\<not> sg_rst p" "\<not> sg_syn p" "sg_fin p" using assms(3) by (simp_all add: fin_only_def)
  have d: "sg_data (p\<lparr>sg_dlen := 1\<rparr>) = []" using fin_only_data [OF assms(3)] by simp
  show ?thesis
    using assms(1) fl
    by (simp add: rx_def rx_map_def rx_estab_def h_rx_seq_fin [OF assms(2,3)] estab_accept_def h_rx_rst_def
        set_ack_now_def Let_def split_def append_nothing [OF d])
      (simp add: schedule_send_def schedule_event_def compute_rcv_wnd_def Let_def notify_def)
qed

lemma passive_close_witness:
  "\<exists>w'. rx fin_example (close_example ESTAB) = Inr w' \<and> state w' = CLOSE_WAIT \<and> rcv_nxt w' = 101"
  using passive_close [OF _ close_example_ok(2) seg_examples(2), of ESTAB] by (auto simp: mask32_mod)

text \<open>The active and the passive side send their FIN: once the send buffer is drained, a send event
  after a close or shutdown request sends one FIN at SND.NXT, which advances SND.NXT and SND.MAX by
  one, starts the retransmission timer and moves ESTAB to FIN-WAIT-1 and CLOSE-WAIT to LAST-ACK.\<close>

lemma close_sends_fin:
  assumes "state w \<in> {ESTAB, CLOSE_WAIT}" "close_requested w \<or> shutdown_requested w"
    and "rrb_inv (snd_buf w)" "rrb_contents (snd_buf w) = []" "0 < snd_wnd w" "\<not> sent_fin w"
    and "\<not> linger_abort (close_requested w) w"
  shows "\<exists>w' s. tx w = Some (Inr w') \<and> tx_log w' = tx_log w @ [s] \<and> os_fin s \<and> os_data s = [] \<and>
    os_seq s = snd_nxt w \<and> snd_nxt w' = mask32 (snd_nxt w + 1) \<and> snd_max w' = snd_nxt w' \<and> sent_fin w' \<and>
    rtx_timer w' \<noteq> None \<and> state w' = (if state w = ESTAB then FIN_WAIT_1 else LAST_ACK)"
  by (rule close_tx [OF assms])

lemma close_sends_fin_witness:
  "\<exists>w' s. tx ((close_example ESTAB)\<lparr>shutdown_requested := True\<rparr>) = Some (Inr w') \<and> tx_log w' = [s] \<and>
     os_fin s \<and> os_seq s = 1 \<and> snd_nxt w' = 2 \<and> state w' = FIN_WAIT_1"
  using close_sends_fin [of "(close_example ESTAB)\<lparr>shutdown_requested := True\<rparr>"] buf_example
  by (auto simp: linger_abort_def mask32_mod)

text \<open>C27. The acknowledgment of our FIN: FIN-WAIT-1 moves to FIN-WAIT-2, CLOSING to TIME-WAIT with its
  timer running, LAST-ACK to CLOSED; SND.UNA reaches SND.NXT and the retransmission timer stops.\<close>

theorem fin_acknowledged:
  assumes "state w \<in> {FIN_WAIT_1, CLOSING, LAST_ACK}" "win_ok w" "acks_all p w"
  shows "\<exists>w'. rx p w = Inr w' \<and> snd_una w' = snd_nxt w \<and> snd_nxt w' = snd_nxt w \<and> rtx_timer w' = None \<and>
    state w' = (case state w of FIN_WAIT_1 \<Rightarrow> FIN_WAIT_2 | CLOSING \<Rightarrow> TIME_WAIT | _ \<Rightarrow> CLOSED) \<and>
    (state w = CLOSING \<longrightarrow> time_wait_timer w' \<noteq> None)"
  by (rule fin_acked [OF assms])

theorem fin_acknowledged_witness:
  "\<exists>w'. rx ack_example (close_example CLOSING) = Inr w' \<and> snd_una w' = 1 \<and> state w' = TIME_WAIT \<and>
     time_wait_timer w' \<noteq> None"
  using fin_acknowledged [OF _ close_example_ok(1) seg_examples(3), of CLOSING] by auto

text \<open>The acknowledgment of our FIN in LAST-ACK closes the connection without removing it: the
  tables still hold the socket and the control block under their identifier, no timer is left to
  remove them, and later segments of that connection are handled by the dead control block. Every
  other way into CLOSED removes both.\<close>

lemma last_ack_keeps_tables:
  assumes "state w = LAST_ACK" "win_ok w" "acks_all p w" "time_wait_timer w = None"
  shows "\<exists>w'. rx p w = Inr w' \<and> state w' = CLOSED \<and> tcp_tbl w' = tcp_tbl w \<and> rtx_timer w' = None \<and>
    time_wait_timer w' = None \<and> rx q w' = Inr w' \<and> tx w' = Some (Inr w')"
proof -
  note k = acks_all_checks [OF assms(2,3)]
  have f: "\<not> sg_fin p" "\<not> sg_syn p" using assms(3) by (simp_all add: acks_all_def)
  have t: "time_wait_timer (stop_rtx_timer (rtt_sample v)) = time_wait_timer v" for v
    by (simp add: stop_rtx_timer_def rtt_sample_def set_new_rto_def set_initial_rto_def Let_def split: option.splits)
  show ?thesis
    using k(4) f assms(1,4)
    by (simp add: rx_def rx_map_def rx_last_ack_def k(1,3,5) Let_def split_def tx_def tx_map_def)
      (simp add: h_rx_wnd_def t)
qed

lemma last_ack_keeps_tables_witness:
  "\<exists>w'. rx ack_example (close_example LAST_ACK) = Inr w' \<and> state w' = CLOSED \<and> tcp_tbl w' = tcp_table_init"
  using last_ack_keeps_tables [OF _ close_example_ok(1) seg_examples(3), of LAST_ACK ack_example] by auto

text \<open>The peer's FIN in FIN-WAIT-2, after a shutdown of our sending side: TIME-WAIT is entered, its
  timer runs and the FIN is acknowledged. A send event in TIME-WAIT, which a later close of the
  socket schedules, raises \<^verbatim>\<open>TypeError\<close>: the transmit map holds \<^verbatim>\<open>None\<close> there.\<close>

lemma peer_fin_time_wait:
  assumes "state w = FIN_WAIT_2" "win_room w" "fin_only p w" "\<not> close_requested w"
  shows "\<exists>w'. rx p w = Inr w' \<and> state w' = TIME_WAIT \<and> time_wait_timer w' \<noteq> None \<and>
    rcv_nxt w' = mask32 (rcv_nxt w + 1) \<and> os_ack (last (tx_log w')) \<and>
    os_ack_seq (last (tx_log w')) = rcv_nxt w' \<and>
    tx (w'\<lparr>close_requested := True\<rparr>) = Some (Inl (TypeError, w'\<lparr>close_requested := True\<rparr>))"
proof -
  have fl: "\<not> sg_rst p" "\<not> sg_syn p" "sg_fin p" using assms(3) by (simp_all add: fin_only_def)
  have d: "sg_data (p\<lparr>sg_dlen := 1\<rparr>) = []" using fin_only_data [OF assms(3)] by simp
  have l: "os_ack (last (tx_log (send_ack v)))" "os_ack_seq (last (tx_log (send_ack v))) = rcv_nxt v" for v
    by (simp_all add: send_ack_def tx_tcp_def ack_seg_def)
  show ?thesis
    using assms(1,4) fl
    by (simp add: rx_def rx_map_def rx_fin_wait_2_def h_rx_seq_fin [OF assms(2,3)] fin_wait_2_accept_def
        rst_or_close_rx_def h_rx_rst_def h_active_close_rx_def Let_def split_def append_nothing [OF d] l)
      (simp add: tx_def tx_map_def start_time_wait_timer_def split_def Let_def)
qed

lemma peer_fin_time_wait_witness:
  "\<exists>w'. rx fin_example (close_example FIN_WAIT_2) = Inr w' \<and> state w' = TIME_WAIT \<and> rcv_nxt w' = 101"
  using peer_fin_time_wait [OF _ close_example_ok(2) seg_examples(2), of FIN_WAIT_2] by (auto simp: mask32_mod)

text \<open>After a close of the socket the same FIN aborts the connection: the sequence check has counted
  the FIN as data, so that FIN-WAIT-1 and FIN-WAIT-2 answer the peer's orderly close with a reset,
  skipping TIME-WAIT.\<close>

lemma peer_fin_after_close_resets:
  assumes "state w \<in> {FIN_WAIT_1, FIN_WAIT_2}" "win_room w" "fin_only p w" "close_requested w"
  shows "\<exists>w'. rx p w = Inr w' \<and> state w' = CLOSED \<and> os_rst (last (tx_log w')) \<and>
    tcp_tcpcbs (tcp_tbl w') (socket_id w) = None"
proof -
  have fl: "\<not> sg_rst p" "\<not> sg_syn p" "sg_fin p" using assms(3) by (simp_all add: fin_only_def)
  have l: "os_rst (last (tx_log (drop_with_reset r v)))" for r v
    by (simp add: drop_with_reset_def tx_tcp_def)
  have i: "socket_id (w\<lparr>tcp_data_start := a, tcp_data_len := b, rcv_nxt := c\<rparr>) = socket_id w" for a b c
    by (simp add: socket_id_def)
  define v where "v = change_state (Some CLOSED) (drop_with_reset (p\<lparr>sg_dlen := 1\<rparr>)
    (stop_all_timers (w\<lparr>tcp_data_start := 0, tcp_data_len := 1, rcv_nxt := mask32 (rcv_nxt w + 1)\<rparr>)))"
  have v: "state v = CLOSED" "os_rst (last (tx_log v))" "socket_id v = socket_id w"
    by (simp_all add: v_def l i)
  have "rx p w = Inr (signal_rst (remove_tcpcb v))"
    using assms(1,4) fl
    by (auto simp: rx_def rx_map_def rx_fin_wait_1_def rx_fin_wait_2_def h_rx_seq_fin [OF assms(2,3)]
        fin_wait_1_accept_def fin_wait_2_accept_def rst_or_close_rx_def h_rx_rst_def h_active_close_rx_def v_def)
  then show ?thesis using v remove_tcpcb_tbl(2) [of v] by simp
qed

lemma peer_fin_after_close_resets_witness:
  "\<exists>w'. rx fin_example ((close_example FIN_WAIT_2)\<lparr>close_requested := True\<rparr>) = Inr w' \<and> state w' = CLOSED \<and>
     os_rst (last (tx_log w'))"
  using peer_fin_after_close_resets [of "(close_example FIN_WAIT_2)\<lparr>close_requested := True\<rparr>" fin_example]
    close_example_ok(2) seg_examples(2) by (auto simp: seg_examples(1))

text \<open>Simultaneous close: a FIN that reaches FIN-WAIT-1 without acknowledging anything new is consumed
  and acknowledged, but the state stays FIN-WAIT-1 instead of becoming CLOSING. The acknowledgment
  of our own FIN then leads to FIN-WAIT-2, which waits for a FIN that has already been received.\<close>

lemma simultaneous_close_forgotten:
  assumes "state w = FIN_WAIT_1" "win_room w" "fin_only p w" "\<not> close_requested w" "sg_ack_seq p = snd_una w"
  shows "\<exists>w'. rx p w = Inr w' \<and> state w' = FIN_WAIT_1 \<and> rcv_nxt w' = mask32 (rcv_nxt w + 1) \<and>
    os_ack_seq (last (tx_log w')) = rcv_nxt w' \<and>
    (\<forall>q. acks_all q w' \<longrightarrow> (\<exists>w''. rx q w' = Inr w'' \<and> state w'' = FIN_WAIT_2))"
proof -
  have fl: "\<not> sg_rst p" "\<not> sg_syn p" "sg_fin p" using assms(3) by (simp_all add: fin_only_def)
  have d: "sg_data (p\<lparr>sg_dlen := 1\<rparr>) = []" using fin_only_data [OF assms(3)] by simp
  have l: "os_ack_seq (last (tx_log (send_ack v))) = rcv_nxt v" for v
    by (simp add: send_ack_def tx_tcp_def ack_seg_def)
  have ack: "h_rx_ack (p\<lparr>sg_dlen := 1\<rparr>) v = (0, v)" if "snd_una v = snd_una w" for v
    using that assms(5) by (simp add: h_rx_ack_def seq_leq_def)
  let ?w' = "rx_fin_wait_1 p w"
  have ok: "win_ok ?w'" using assms(2) by (simp add: win_room_def)
  have w': "state ?w' = FIN_WAIT_1" "rcv_nxt ?w' = mask32 (rcv_nxt w + 1)"
    "os_ack_seq (last (tx_log ?w')) = rcv_nxt ?w'"
    using assms(1,4) fl
    by (simp_all add: rx_fin_wait_1_def h_rx_seq_fin [OF assms(2,3)] fin_wait_1_accept_def rst_or_close_rx_def
        h_rx_rst_def h_active_close_rx_def Let_def split_def ack fin_wait_1_acked_def append_nothing [OF d] l)
  have "\<exists>w''. rx q ?w' = Inr w'' \<and> state w'' = FIN_WAIT_2" if "acks_all q ?w'" for q
    using fin_acked [OF _ ok that] w'(1) by auto
  then show ?thesis using w' assms(1) by (simp add: rx_def rx_map_def)
qed

lemma simultaneous_close_forgotten_witness:
  "\<exists>w'. rx fin_example (close_example FIN_WAIT_1) = Inr w' \<and> state w' = FIN_WAIT_1 \<and> rcv_nxt w' = 101"
  using simultaneous_close_forgotten [OF _ close_example_ok(2) seg_examples(2), of FIN_WAIT_1]
  by (auto simp: seg_examples(5) mask32_mod)

text \<open>A shutdown or close with more data buffered than one call may send: the FIN goes out with the
  last segment of the bytes taken from the buffer in that call, while bytes are left in the buffer
  behind it.\<close>

lemma fin_overtakes_data:
  assumes "state w = ESTAB" "rrb_inv (snd_buf w)" "seq_num (snd_nxt w)" "0 < remote_mss w" "0 < snd_wnd w"
    and "shutdown_requested w" "\<not> close_requested w"
    and "nat (min TCP_MAX_TX_BYTES (snd_wnd w)) < length (rrb_contents (snd_buf w))" "remote_mss w \<le> 1460"
  shows "\<exists>w'. tx w = Some (Inr w') \<and> state w' = FIN_WAIT_1 \<and> sent_fin w' \<and> os_fin (last (tx_log w')) \<and>
    rrb_contents (snd_buf w') = drop (nat (min TCP_MAX_TX_BYTES (snd_wnd w))) (rrb_contents (snd_buf w)) \<and>
    rrb_contents (snd_buf w') \<noteq> []"
proof -
  let ?n = "nat (min TCP_MAX_TX_BYTES (snd_wnd w))"
  obtain data b where d: "rrb_dequeue (snd_buf w) ?n = (data, b)" by (rule prod.exhaust)
  let ?v = "compute_rcv_wnd (w\<lparr>snd_buf := b\<rparr>)"
  note ch = rrb_dequeue_chunks [OF assms(2) d]
  have pos: "0 < ?n" using assms(5) by (simp add: TCP_MAX_TX_BYTES_def)
  have ne: "data \<noteq> []" using ch(2) assms(8) by auto
  have c: "concat data = take ?n (rrb_contents (snd_buf w))" by (rule rrb.deq_data [OF assms(2) d])
  then have "length (concat data) \<le> ?n" by simp
  then have fits: "int (length (concat data)) \<le> snd_wnd ?v" "int (length (concat data)) \<le> TCP_MAX_TX_BYTES"
    using assms(5) by (simp_all add: nat_le_iff TCP_MAX_TX_BYTES_def)
  have v: "0 < remote_mss ?v" "seq_num (snd_nxt ?v)" "\<not> linger_abort False ?v"
    using assms(3,4) by (simp_all add: linger_abort_def)
  have t: "tx w = tx_loop data (Some FIN_WAIT_1) True False ?v"
    using ne assms(1,6,7) unfolding tx_def tx_map_def tx_estab_def drain_snd_buf_eq [OF d] by simp
  obtain w' segs where w': "tx_loop data (Some FIN_WAIT_1) True False ?v = Some (Inr w')"
      "tx_log w' = tx_log ?v @ segs" "payload segs = concat data"
      "stream_segs (remote_mss ?v) ?v True (snd_nxt ?v) segs" "state w' = FIN_WAIT_1" "sent_fin w'"
    using tx_loop_sends [OF v(1) ne ch(1) ch(3) [OF pos] fits v(2,3), of "Some FIN_WAIT_1" True] assms(9) by auto
  have "snd_buf w' = b"
    by (rule tx_loop_keeps [OF w'(1), where P = "\<lambda>x. snd_buf x = b"])
      (simp_all add: tx_segment_def Let_def h_active_close_tx_def)
  moreover have "segs \<noteq> []" using w'(3) c pos assms(8) by (auto simp: payload_def)
  ultimately show ?thesis
    using t w' rrb.deq_contents [OF assms(2) d] assms(8) stream_segs_fin [OF w'(4)] by simp
qed

lemma fin_overtakes_data_witness:
  "\<exists>w'. tx ((close_example ESTAB)\<lparr>shutdown_requested := True, snd_buf := full_example\<rparr>) = Some (Inr w') \<and>
     os_fin (last (tx_log w')) \<and> rrb_contents (snd_buf w') \<noteq> []"
  using fin_overtakes_data [of "(close_example ESTAB)\<lparr>shutdown_requested := True, snd_buf := full_example\<rparr>"]
    full_example_ok by (auto simp: seq_num_def TCP_MAX_TX_BYTES_def)

text \<open>With SO_LINGER set to an immediate abort, a send event after a close request resets the
  connection whatever is still buffered: one RST with an empty window, the timers stopped, CLOSED, and
  the socket and the control block removed from the tables.\<close>

lemma linger_close_aborts:
  assumes "state w \<in> {ESTAB, FIN_WAIT_2, CLOSE_WAIT}" "close_requested w"
    and "sock_opt w (SOL_SOCKET, SO_LINGER) = Some SO_LINGER_ON"
  shows "\<exists>w' s. tx w = Some (Inr w') \<and> tx_log w' = tx_log w @ [s] \<and> os_rst s \<and> os_window s = 0 \<and> os_data s = [] \<and>
    state w' = CLOSED \<and> rtx_timer w' = None \<and> time_wait_timer w' = None \<and>
    tcp_sockets (tcp_tbl w') (socket_id w) = None \<and> tcp_tcpcbs (tcp_tbl w') (socket_id w) = None"
proof -
  define ab where "ab v = remove_tcpcb (change_state (Some CLOSED) (send_rst (stop_all_timers v)))" for v
  have cl: "h_active_close_tx True v = (True, ab v)" if "sock_opt v = sock_opt w" for v
    using assms(3) that by (simp add: h_active_close_tx_def ab_def)
  have lp: "tx_loop data ns sh True v = Some (Inr (ab v))" if "sock_opt v = sock_opt w" "data \<noteq> []" for data ns sh v
    using that cl by (cases data) (simp_all add: tx_loop_def Let_def)
  obtain data b where b: "rrb_dequeue (snd_buf w) (nat (min TCP_MAX_TX_BYTES (snd_wnd w))) = (data, b)"
    by (rule prod.exhaust)
  note dr = drain_snd_buf_eq [OF b] drain_snd_buf_eq [of "compute_rcv_wnd w" data b]
  let ?v = "if state w = ESTAB then compute_rcv_wnd (w\<lparr>snd_buf := b\<rparr>) else
    if state w = CLOSE_WAIT then (compute_rcv_wnd w)\<lparr>snd_buf := b\<rparr> else w"
  have "tx w = Some (Inr (ab ?v))"
    using assms(1,2) b lp cl
    by (auto simp: tx_def tx_map_def tx_estab_def tx_close_wait_def tx_fin_wait_2_def dr Let_def)
  moreover have v: "socket_id ?v = socket_id w" "tx_log ?v = tx_log w" by simp_all
  moreover have "socket_id (change_state (Some CLOSED) (send_rst (stop_all_timers ?v))) = socket_id w"
    using v(1) by simp
  moreover have "tx_log (send_rst (stop_all_timers ?v)) =
      tx_log w @ [(ack_seg (stop_all_timers ?v))\<lparr>os_rst := True, os_window := 0\<rparr>]"
    unfolding send_rst_def using v(2) by (simp add: tx_tcp_def)
  moreover have "os_data (ack_seg u) = []" for u by (simp add: ack_seg_def seg0_def)
  ultimately show ?thesis
    using remove_tcpcb_tbl [of "change_state (Some CLOSED) (send_rst (stop_all_timers ?v))"]
    by (intro exI [of _ "ab ?v"] exI [of _ "(ack_seg (stop_all_timers ?v))\<lparr>os_rst := True, os_window := 0\<rparr>"])
      (simp add: ab_def)
qed

lemma linger_close_aborts_witness:
  "\<exists>w'. tx ((close_example ESTAB)\<lparr>close_requested := True, sock_opt := [(1, 2) \<mapsto> SO_LINGER_ON]\<rparr>) = Some (Inr w') \<and>
     state w' = CLOSED"
  using linger_close_aborts [of "(close_example ESTAB)\<lparr>close_requested := True, sock_opt := [(1, 2) \<mapsto> SO_LINGER_ON]\<rparr>"]
  by (auto simp: SOL_SOCKET_def SO_LINGER_def)

end
