(* ===== verification/Tcp_Live.thy ===== *)
theory Tcp_Live
  imports Tcp_Close
begin

text \<open>
  What keeps a connection alive and bounded: the retransmission timer runs while anything is
  unacknowledged, the retransmission timeout stays within its bounds, and challenge
  acknowledgments are rate limited.
\<close>

section \<open>The retransmission timer\<close>

definition timer_ok :: "fsm \<Rightarrow> bool" where
  "timer_ok w \<longleftrightarrow> seq_num (snd_una w) \<and> (snd_una w \<noteq> snd_nxt w \<longrightarrow> rtx_timer w \<noteq> None)"

locale rtx_frame =
  fixes h :: "fsm \<Rightarrow> fsm"
  assumes rtx_frame_fields [simp]:
    "snd_una (h w) = snd_una w" "snd_nxt (h w) = snd_nxt w" "rtx_timer (h w) = rtx_timer w"
begin

lemma timer_ok_frame [simp]: "timer_ok (h w) = timer_ok w"
  by (simp add: timer_ok_def)

end

interpretation tx_tcp_x: rtx_frame "tx_tcp s" for s
  by unfold_locales simp_all

interpretation send_ack_x: rtx_frame send_ack
  by unfold_locales simp_all

interpretation send_challenge_ack_x: rtx_frame send_challenge_ack
  by unfold_locales simp_all

interpretation notify_x: rtx_frame "notify c" for c
  by unfold_locales simp_all

interpretation signal_rst_x: rtx_frame signal_rst
  by unfold_locales simp_all

interpretation schedule_send_x: rtx_frame schedule_send
  by unfold_locales simp_all

interpretation change_state_x: rtx_frame "change_state ns" for ns
  by unfold_locales simp_all

interpretation set_ack_now_x: rtx_frame "set_ack_now p" for p
  by unfold_locales simp_all

interpretation h_rx_wnd_x: rtx_frame "\<lambda>w. snd (h_rx_wnd p w)" for p
  by unfold_locales (simp_all add: h_rx_wnd_def)

interpretation compute_rcv_wnd_x: rtx_frame compute_rcv_wnd
  by unfold_locales simp_all

interpretation append_rcv_data_x: rtx_frame "\<lambda>w. snd (append_rcv_data p w)" for p
  by unfold_locales (simp_all add: append_rcv_data_def Let_def split_def)

interpretation drain_snd_buf_x: rtx_frame "\<lambda>w. snd (drain_snd_buf w)"
  by unfold_locales (simp_all add: drain_snd_buf_def Let_def split_def)

interpretation h_rx_seq_x: rtx_frame "\<lambda>w. snd (snd (h_rx_seq p w))" for p
  by unfold_locales (simp_all add: h_rx_seq_cases h_rx_seq_zlen_zwnd_def h_rx_seq_zlen_def h_rx_seq_zwnd_def
      h_rx_seq_normal_def Let_def)

interpretation rtt_sample_x: rtx_frame rtt_sample
  by unfold_locales (simp_all add: rtt_sample_def set_new_rto_def set_initial_rto_def Let_def split: option.splits)

interpretation start_time_wait_timer_x: rtx_frame start_time_wait_timer
  by unfold_locales (simp_all add: start_time_wait_timer_def split_def Let_def)

interpretation stop_time_wait_timer_x: rtx_frame stop_time_wait_timer
  by unfold_locales (simp_all add: stop_time_wait_timer_def split: option.splits)

lemma timer_ok_upd [simp]:
  "timer_ok (w\<lparr>ack_now := a\<rparr>) = timer_ok w" "timer_ok (w\<lparr>snd_buf := b\<rparr>) = timer_ok w"
  "timer_ok (w\<lparr>now_ns := t\<rparr>) = timer_ok w" "timer_ok (w\<lparr>rcv_buf := r\<rparr>) = timer_ok w"
  "timer_ok (w\<lparr>close_requested := a\<rparr>) = timer_ok w" "timer_ok (w\<lparr>shutdown_requested := a\<rparr>) = timer_ok w"
  "timer_ok (w\<lparr>events := es\<rparr>) = timer_ok w" "timer_ok (w\<lparr>sent_fin := a\<rparr>) = timer_ok w"
  by (simp_all add: timer_ok_def)

lemma timer_ok_start [simp]:
  "timer_ok (start_rtx_timer w) = seq_num (snd_una w)" "timer_ok (restart_rtx_timer w) = seq_num (snd_una w)"
  using start_rtx_timer_running [of w] restart_rtx_timer_running [of w] by (auto simp: timer_ok_def)

lemma timer_ok_stop: "snd_una w = snd_nxt w \<Longrightarrow> timer_ok (stop_rtx_timer w) = seq_num (snd_una w)"
  by (simp add: timer_ok_def)

lemma h_rx_ack_una: "seq_num (sg_ack_seq p) \<Longrightarrow> timer_ok w \<Longrightarrow> seq_num (snd_una (snd (h_rx_ack p w)))"
  by (simp add: h_rx_ack_def timer_ok_def seg_wf_def seg_ok_def)

text \<open>An acknowledgment that is not new changes nothing.\<close>

lemma h_rx_ack_none:
  assumes "\<not> fst (h_rx_ack p w) > 0" "seq_num (sg_ack_seq p)" "timer_ok w"
  shows "snd (h_rx_ack p w) = w"
proof -
  have "seq_num (snd_una w)" using assms(3) by (simp add: timer_ok_def)
  then have "sg_ack_seq p = snd_una w" if "seq_diff (sg_ack_seq p) (snd_una w) \<le> 0"
    using that assms(2) seq_diff_zero_iff seq_diff_range(1) [of "sg_ack_seq p" "snd_una w"] by simp
  then show ?thesis using assms(1) by (auto simp: h_rx_ack_def seq_leq_def split: if_splits)
qed

lemma timer_ok_ack_estab:
  "seq_num (sg_ack_seq p) \<Longrightarrow> timer_ok w \<Longrightarrow> timer_ok (estab_acked (fst (h_rx_ack p w)) (snd (h_rx_ack p w)))"
  using h_rx_ack_none [of p w] h_rx_ack_una [of p w] by (auto simp: estab_acked_def Let_def timer_ok_stop)

lemma timer_ok_fin_wait_1_acked:
  "seq_num (sg_ack_seq p) \<Longrightarrow> timer_ok w \<Longrightarrow> timer_ok (fin_wait_1_acked q (fst (h_rx_ack p w)) (snd (h_rx_ack p w)))"
  using h_rx_ack_none [of p w] h_rx_ack_una [of p w] by (auto simp: fin_wait_1_acked_def Let_def timer_ok_stop)

lemma h_rx_ack_done:
  assumes "snd_una w = snd_nxt w"
  shows "h_rx_ack p w = (0, w)"
  using assms by (auto simp: h_rx_ack_def seq_leq_def seq_lt_diff seq_gt_diff)

lemma timer_ok_abort [simp]:
  "timer_ok w \<Longrightarrow> \<not> fst (h_rx_rst p e w) \<Longrightarrow> timer_ok (snd (h_rx_rst p e w))"
  "timer_ok w \<Longrightarrow> \<not> fst (rst_or_close_rx p w) \<Longrightarrow> timer_ok (snd (rst_or_close_rx p w))"
  "timer_ok w \<Longrightarrow> \<not> fst (h_active_close_tx c w) \<Longrightarrow> timer_ok (snd (h_active_close_tx c w))"
  by (auto simp: h_rx_rst_def rst_or_close_rx_def h_active_close_rx_def h_active_close_tx_def split: if_splits)

definition sync_states :: "tcp_state set" where
  "sync_states = {ESTAB, FIN_WAIT_1, FIN_WAIT_2, CLOSE_WAIT, CLOSING, LAST_ACK, TIME_WAIT, CLOSED}"

definition live_inv :: "fsm \<Rightarrow> bool" where
  "live_inv w \<longleftrightarrow> state w \<in> sync_states \<and> (state w \<noteq> CLOSED \<longrightarrow> timer_ok w) \<and>
     (state w = FIN_WAIT_2 \<longrightarrow> snd_una w = snd_nxt w)"

lemma timer_ok_rx:
  assumes ack: "seq_num (sg_ack_seq p)" and ok: "timer_ok w"
  shows "state w = ESTAB \<Longrightarrow> state (rx_estab p w) = CLOSED \<or> timer_ok (rx_estab p w)"
    "state w = CLOSE_WAIT \<Longrightarrow> state (rx_close_wait p w) = CLOSED \<or> timer_ok (rx_close_wait p w)"
    "state w = CLOSING \<Longrightarrow> state (rx_closing p w) = CLOSED \<or> timer_ok (rx_closing p w)"
    "state w = LAST_ACK \<Longrightarrow> state (rx_last_ack p w) = CLOSED \<or> timer_ok (rx_last_ack p w)"
    "timer_ok (rx_time_wait p w)"
proof -
  have none: "timer_ok v \<Longrightarrow> \<not> fst (h_rx_ack p v) > 0 \<Longrightarrow> timer_ok (snd (h_rx_ack p v))"
    and una: "timer_ok v \<Longrightarrow> seq_num (snd_una (snd (h_rx_ack p v)))" for v
    using h_rx_ack_none [of p v] h_rx_ack_una [of p v] ack by simp_all
  show "state w = CLOSE_WAIT \<Longrightarrow> state (rx_close_wait p w) = CLOSED \<or> timer_ok (rx_close_wait p w)"
    using ok
    by (simp add: rx_close_wait_def Let_def split_def rst_or_close_rx_state none una timer_ok_stop) (metis una timer_ok_abort(2))
  show "state w = CLOSING \<Longrightarrow> state (rx_closing p w) = CLOSED \<or> timer_ok (rx_closing p w)"
    using ok
    by (simp add: rx_closing_def Let_def split_def rst_or_close_rx_state none una timer_ok_stop) (metis una timer_ok_abort(2))
  show "state w = LAST_ACK \<Longrightarrow> state (rx_last_ack p w) = CLOSED \<or> timer_ok (rx_last_ack p w)"
    using ok
    by (simp add: rx_last_ack_def Let_def split_def h_rx_rst_state none una timer_ok_stop)
  show "timer_ok (rx_time_wait p w)" using ok by (simp add: rx_time_wait_def)
  show "state w = ESTAB \<Longrightarrow> state (rx_estab p w) = CLOSED \<or> timer_ok (rx_estab p w)"
    using ok ack by (simp add: rx_estab_def estab_accept_def Let_def split_def h_rx_rst_state timer_ok_ack_estab
      split: verdict.split)
qed

lemma fin_wait_1_acked_done:
  "state (fin_wait_1_acked q a w) = FIN_WAIT_2 \<Longrightarrow> state w = FIN_WAIT_1 \<Longrightarrow> snd_una w = snd_nxt w"
  by (auto simp: fin_wait_1_acked_def Let_def split: if_splits)

lemma fin_wait_1_acked_seqs [simp]:
  "snd_una (fin_wait_1_acked q a w) = snd_una w" "snd_nxt (fin_wait_1_acked q a w) = snd_nxt w"
  by (simp_all add: fin_wait_1_acked_def Let_def)

lemma fin_wait_1_accept_timer:
  assumes ack: "seq_num (sg_ack_seq p)" and ok: "timer_ok w" and s: "state w = FIN_WAIT_1"
  shows "state (fin_wait_1_accept p w) = CLOSED \<or> timer_ok (fin_wait_1_accept p w)"
    "state (fin_wait_1_accept p w) = FIN_WAIT_2 \<Longrightarrow>
      snd_una (fin_wait_1_accept p w) = snd_nxt (fin_wait_1_accept p w)"
proof -
  let ?v = "if sg_dlen p \<noteq> 0 \<or> sg_fin p then (snd (rst_or_close_rx p w))\<lparr>ack_now := True\<rparr> else snd (rst_or_close_rx p w)"
  let ?u = "fin_wait_1_acked p (fst (h_rx_ack p ?v)) (snd (h_rx_ack p ?v))"
  have u: "timer_ok ?u" if "\<not> fst (rst_or_close_rx p w)"
    using timer_ok_fin_wait_1_acked [OF ack, of ?v p] ok that by simp
  have all: "snd_una (snd (h_rx_ack p ?v)) = snd_nxt (snd (h_rx_ack p ?v))"
    if "\<not> fst (rst_or_close_rx p w)" "state ?u = FIN_WAIT_2"
    using fin_wait_1_acked_done [OF that(2)] that(1) s by (simp add: rst_or_close_rx_state)
  show "state (fin_wait_1_accept p w) = CLOSED \<or> timer_ok (fin_wait_1_accept p w)"
    unfolding fin_wait_1_accept_def Let_def split_def
    using ok u by (simp add: rst_or_close_rx_state)
  show "snd_una (fin_wait_1_accept p w) = snd_nxt (fin_wait_1_accept p w)"
    if st: "state (fin_wait_1_accept p w) = FIN_WAIT_2"
  proof -
    have "\<not> fst (rst_or_close_rx p w)" "\<not> sg_syn p" "state ?u = FIN_WAIT_2"
      using st s unfolding fin_wait_1_accept_def Let_def split_def
      by (auto simp: rst_or_close_rx_state split: if_splits)
    then show ?thesis using all unfolding fin_wait_1_accept_def Let_def split_def by simp
  qed
qed

lemma fin_wait_2_accept_timer:
  assumes "timer_ok w" "snd_una w = snd_nxt w"
  shows "state (fin_wait_2_accept p w) = CLOSED \<or> timer_ok (fin_wait_2_accept p w)"
    "state (fin_wait_2_accept p w) \<noteq> CLOSED \<Longrightarrow> snd_una (fin_wait_2_accept p w) = snd_nxt (fin_wait_2_accept p w)"
  using assms
  by (simp_all add: fin_wait_2_accept_def Let_def split_def rst_or_close_rx_state h_rx_ack_done)

lemma h_rx_seq_same: "h_rx_seq p w = (v, p', w') \<Longrightarrow>
    state w' = state w \<and> timer_ok w' = timer_ok w \<and> snd_una w' = snd_una w \<and> snd_nxt w' = snd_nxt w \<and>
    sg_ack_seq p' = sg_ack_seq p"
  using h_rx_seq_s.state_frame_fields [of p w] h_rx_seq_x.timer_ok_frame [of p w]
    h_rx_seq_x.rtx_frame_fields [of p w] h_rx_seq_ack_seq [of p w] by simp

lemma rx_fin_wait_timer:
  assumes ack: "seq_num (sg_ack_seq p)" and ok: "timer_ok w"
  shows "state w = FIN_WAIT_1 \<Longrightarrow> (state (rx_fin_wait_1 p w) \<noteq> CLOSED \<longrightarrow> timer_ok (rx_fin_wait_1 p w)) \<and>
      (state (rx_fin_wait_1 p w) = FIN_WAIT_2 \<longrightarrow> snd_una (rx_fin_wait_1 p w) = snd_nxt (rx_fin_wait_1 p w))"
    "state w = FIN_WAIT_2 \<Longrightarrow> snd_una w = snd_nxt w \<Longrightarrow>
      (state (rx_fin_wait_2 p w) \<noteq> CLOSED \<longrightarrow> timer_ok (rx_fin_wait_2 p w)) \<and>
      (state (rx_fin_wait_2 p w) = FIN_WAIT_2 \<longrightarrow> snd_una (rx_fin_wait_2 p w) = snd_nxt (rx_fin_wait_2 p w))"
proof -
  obtain v p1 w1 where q: "h_rx_seq p w = (v, p1, w1)" by (rule prod_cases3)
  note same = h_rx_seq_same [OF q]
  note a1 = fin_wait_1_accept_timer [of p1 w1] and a2 = fin_wait_2_accept_timer [of w1 p1]
  show "(state (rx_fin_wait_1 p w) \<noteq> CLOSED \<longrightarrow> timer_ok (rx_fin_wait_1 p w)) \<and>
      (state (rx_fin_wait_1 p w) = FIN_WAIT_2 \<longrightarrow> snd_una (rx_fin_wait_1 p w) = snd_nxt (rx_fin_wait_1 p w))"
    if "state w = FIN_WAIT_1"
    using a1 that ack ok same by (cases v) (auto simp: rx_fin_wait_1_def q)
  show "(state (rx_fin_wait_2 p w) \<noteq> CLOSED \<longrightarrow> timer_ok (rx_fin_wait_2 p w)) \<and>
      (state (rx_fin_wait_2 p w) = FIN_WAIT_2 \<longrightarrow> snd_una (rx_fin_wait_2 p w) = snd_nxt (rx_fin_wait_2 p w))"
    if "state w = FIN_WAIT_2" "snd_una w = snd_nxt w"
    using a2 that ok same by (cases v) (auto simp: rx_fin_wait_2_def q)
qed

lemma live_inv_rx:
  assumes "live_inv w" "seg_wf p" "rx p w = Inr w'"
  shows "live_inv w'"
proof -
  have ack: "seq_num (sg_ack_seq p)" using assms(2) by (simp add: seg_wf_def seg_ok_def)
  have n: "state w' \<in> rx_next (state w)" by (rule rx_state [OF assms(3)])
  note t = timer_ok_rx [OF ack, of w] rx_fin_wait_timer [OF ack, of w]
  show ?thesis
    using assms(1,3) n t
    by (cases "state w"; simp add: live_inv_def sync_states_def rx_next_def rx_def rx_map_def; auto?)
qed

lemma tx_loop_timer:
  assumes "tx_loop data ns sh cl w = Some (Inr w')" "seq_num (snd_una w)"
  shows "state w' = CLOSED \<or> timer_ok w'"
proof -
  have u: "snd_una w' = snd_una w"
    by (rule tx_loop_keeps [OF assms(1), where P = "\<lambda>x. snd_una x = snd_una w"])
      (simp_all add: tx_segment_def Let_def h_active_close_tx_def)
  show ?thesis
    using assms u
    by (auto simp: tx_loop_def Let_def split_def map_sum_Inr_iff h_active_close_tx_state
        split: list.splits if_splits)
qed

lemma timer_ok_send_fin [simp]: "timer_ok w \<Longrightarrow> timer_ok (send_fin ns w)"
  by (simp add: send_fin_def Let_def) (simp add: timer_ok_def)

lemma timer_ok_una: "timer_ok w \<Longrightarrow> seq_num (snd_una w)"
  by (simp add: timer_ok_def)

lemma timer_ok_tx:
  assumes ok: "timer_ok w"
  shows "tx_estab w = Some (Inr w') \<Longrightarrow> state w' = CLOSED \<or> timer_ok w'"
    "tx_close_wait w = Some (Inr w') \<Longrightarrow> state w' = CLOSED \<or> timer_ok w'"
    "tx_fin_wait_1 w = Some (Inr w') \<Longrightarrow> state w' = CLOSED \<or> timer_ok w'"
    "tx_closing w = Some (Inr w') \<Longrightarrow> state w' = CLOSED \<or> timer_ok w'"
    "tx_last_ack w = Some (Inr w') \<Longrightarrow> state w' = CLOSED \<or> timer_ok w'"
  using ok timer_ok_una [OF ok]
  by (auto simp: tx_estab_def tx_close_wait_def tx_fin_wait_1_def tx_closing_def tx_last_ack_def
      Let_def split_def h_active_close_tx_state split: if_splits dest!: tx_loop_timer)

lemma live_inv_tx:
  assumes "live_inv w" "tx w = Some (Inr w')"
  shows "live_inv w'"
proof -
  have n: "state w' \<in> tx_next (state w)" by (rule tx_state [OF assms(2)])
  have f2: "state (tx_fin_wait_2 w) = CLOSED \<or> tx_fin_wait_2 w = w"
    by (auto simp: tx_fin_wait_2_def h_active_close_tx_def)
  note t = timer_ok_tx [of w w']
  show ?thesis
    using assms n t f2
    by (cases "state w"; simp add: live_inv_def sync_states_def tx_next_def tx_def tx_map_def; auto?)
qed

lemma live_inv_rtx:
  assumes "live_inv w" "rtx w = Some (Inr w')"
  shows "live_inv w'"
proof -
  have "live_inv ((rollback_to_una (back_off_rto w))\<lparr>rtx_timer := None\<rparr>)"
    using assms(1) by (auto simp: live_inv_def timer_ok_def rollback_to_una_def back_off_rto_def)
  then show ?thesis using live_inv_tx assms(2) unfolding rtx_def by blast
qed

lemma live_inv_upd [simp]:
  "live_inv (w\<lparr>now_ns := t\<rparr>) = live_inv w" "live_inv (w\<lparr>rcv_buf := r\<rparr>) = live_inv w"
  "live_inv (w\<lparr>close_requested := a\<rparr>) = live_inv w" "live_inv (w\<lparr>shutdown_requested := a\<rparr>) = live_inv w"
  "live_inv (w\<lparr>events := es\<rparr>) = live_inv w" "live_inv (w\<lparr>snd_buf := b\<rparr>) = live_inv w"
  by (simp_all add: live_inv_def)

lemma live_inv_env:
  assumes "tcpcb.truncate w' = tcpcb.truncate w" "live_inv w"
  shows "live_inv w'"
  using truncate_fields [OF assms(1)] assms(2) by (simp add: live_inv_def timer_ok_def)

lemma live_inv_step: "conn_step fits w w' \<Longrightarrow> live_inv w \<Longrightarrow> live_inv w'"
  by (induction rule: conn_step.induct) (simp | blast intro: live_inv_rx live_inv_tx live_inv_rtx live_inv_env)+

text \<open>In these states nothing changes the peer's segment size; its window is that of a segment.\<close>

lemma send_ok_rx:
  assumes "send_ok w" "0 \<le> sg_window p"
  shows "send_ok (rx_estab p w)" "send_ok (rx_fin_wait_1 p w)" "send_ok (rx_fin_wait_2 p w)" "send_ok (rx_close_wait p w)"
    "send_ok (rx_closing p w)" "send_ok (rx_last_ack p w)" "send_ok (rx_time_wait p w)"
proof -
  have acked: "send_ok (fin_wait_1_acked q a v) = send_ok v" for q a v
    by (simp add: fin_wait_1_acked_def Let_def)
  have acc: "send_ok (estab_accept q v)" "send_ok (fin_wait_1_accept q v)" "send_ok (fin_wait_2_accept q v)"
    if "send_ok v" "0 \<le> sg_window q" for q v
    using that
    by (simp_all add: estab_accept_def fin_wait_1_accept_def fin_wait_2_accept_def Let_def split_def send_ok_h_rx_wnd acked)
  show "send_ok (rx_estab p w)" "send_ok (rx_fin_wait_1 p w)" "send_ok (rx_fin_wait_2 p w)"
    using assms acc by (simp_all add: rx_estab_def rx_fin_wait_1_def rx_fin_wait_2_def Let_def split_def split: verdict.split)
  show "send_ok (rx_close_wait p w)" "send_ok (rx_closing p w)" "send_ok (rx_last_ack p w)" "send_ok (rx_time_wait p w)"
    using assms
    by (simp_all add: rx_close_wait_def rx_closing_def rx_last_ack_def rx_time_wait_def Let_def split_def send_ok_h_rx_wnd)
qed

lemma send_ok_tx:
  assumes "send_ok w" "tx w = Some (Inr w')" "state w \<in> sync_states"
  shows "send_ok w'"
proof -
  have "send_ok v'" if "tx_loop data ns sh cl v = Some (Inr v')" "send_ok v" for data ns sh cl v v'
    by (rule tx_loop_keeps [OF that(1), where P = send_ok]) (simp_all add: that(2))
  then show ?thesis
    using assms
    by (cases "state w")
      (auto simp: sync_states_def tx_def tx_map_def tx_estab_def tx_close_wait_def tx_fin_wait_1_def tx_fin_wait_2_def
        tx_closing_def tx_last_ack_def Let_def split_def split: if_splits)
qed

lemma send_ok_step:
  assumes "conn_step fits w w'" "send_ok w" "state w \<in> sync_states"
  shows "send_ok w'"
  using assms
proof (induction rule: conn_step.induct)
  case (env w' w)
  then show ?case using truncate_fields [OF env.hyps] by (simp add: send_ok_def)
next
  case (segment p w w')
  have "0 \<le> sg_window p" using segment.hyps(1) by (simp add: seg_wf_def seg_ok_def)
  then show ?case
    using segment send_ok_rx [OF segment.prems(1), of p] by (cases "state w") (auto simp: sync_states_def rx_def rx_map_def)
next
  case (send w w')
  then show ?case using send_ok_tx by blast
next
  case (retransmit w w')
  let ?w = "(rollback_to_una (back_off_rto w))\<lparr>rtx_timer := None\<rparr>"
  have "send_ok ?w" "state ?w = state w" using retransmit.prems by simp_all
  then show ?case using retransmit send_ok_tx [of ?w w'] by (simp add: rtx_def)
qed simp_all

text \<open>Then an event raises in TIME-WAIT only, and what it leaves keeps the invariant.\<close>

lemma live_inv_raised:
  assumes "conn_raise w w'" "live_inv w" "send_ok w"
  shows "live_inv w' \<and> send_ok w'"
  using assms(1)
proof cases
  case (segment p e)
  then show ?thesis using rx_raised [OF segment(2)] assms(2) by (auto simp: live_inv_def sync_states_def)
next
  case (send e)
  then show ?thesis using tx_raised_unhandled [OF send assms(3)] assms(2,3) by simp
next
  case (retransmit e)
  let ?w = "(rollback_to_una (back_off_rto w))\<lparr>rtx_timer := None\<rparr>"
  have w: "send_ok ?w" using assms(3) by simp
  then have "w' = ?w" using tx_raised_unhandled [of ?w e w'] retransmit by (simp add: rtx_def)
  moreover have "live_inv ?w"
    using assms(2) by (auto simp: live_inv_def timer_ok_def rollback_to_una_def back_off_rto_def)
  ultimately show ?thesis using w by simp
qed

section \<open>The retransmission timeout\<close>

locale rto_frame =
  fixes h :: "fsm \<Rightarrow> fsm"
  assumes rto_frame_field [simp]: "rto (h w) = rto w"

sublocale timer_frame \<subseteq> rto_frame
  by unfold_locales simp

interpretation schedule_rtx_t: rto_frame schedule_rtx
  by unfold_locales (simp add: schedule_rtx_def split_def Let_def)

interpretation start_rtx_timer_t: rto_frame start_rtx_timer
  by unfold_locales (simp add: start_rtx_timer_def)

interpretation restart_rtx_timer_t: rto_frame restart_rtx_timer
  by unfold_locales (simp add: restart_rtx_timer_def split: option.splits)

interpretation stop_rtx_timer_t: rto_frame stop_rtx_timer
  by unfold_locales (simp add: stop_rtx_timer_def split: option.splits)

interpretation start_time_wait_timer_t: rto_frame start_time_wait_timer
  by unfold_locales (simp add: start_time_wait_timer_def split_def Let_def)

interpretation stop_time_wait_timer_t: rto_frame stop_time_wait_timer
  by unfold_locales (simp add: stop_time_wait_timer_def split: option.splits)

interpretation stop_all_timers_t: rto_frame stop_all_timers
  by unfold_locales (simp add: stop_all_timers_def)

interpretation rtt_probe_t: rto_frame rtt_probe
  by unfold_locales (simp add: rtt_probe_def)

interpretation h_rx_ack_t: rto_frame "\<lambda>w. snd (h_rx_ack p w)" for p
  by unfold_locales (simp add: h_rx_ack_def)

interpretation h_rx_wnd_t: rto_frame "\<lambda>w. snd (h_rx_wnd p w)" for p
  by unfold_locales (simp add: h_rx_wnd_def)

interpretation h_rx_seq_t: rto_frame "\<lambda>w. snd (snd (h_rx_seq p w))" for p
  by unfold_locales (simp add: h_rx_seq_cases h_rx_seq_zlen_zwnd_def h_rx_seq_zlen_def h_rx_seq_zwnd_def
      h_rx_seq_normal_def Let_def)

interpretation compute_rcv_wnd_t: rto_frame compute_rcv_wnd
  by unfold_locales (simp add: compute_rcv_wnd_def Let_def)

interpretation append_rcv_data_t: rto_frame "\<lambda>w. snd (append_rcv_data p w)" for p
  by unfold_locales (simp add: append_rcv_data_def Let_def split_def)

interpretation drain_snd_buf_t: rto_frame "\<lambda>w. snd (drain_snd_buf w)"
  by unfold_locales (simp add: drain_snd_buf_def Let_def split_def)

interpretation rollback_to_una_t: rto_frame rollback_to_una
  by unfold_locales (simp add: rollback_to_una_def)

interpretation init_rcv_seq_t: rto_frame "init_rcv_seq p" for p
  by unfold_locales (simp add: init_rcv_seq_def Let_def)

interpretation init_snd_wnd_t: rto_frame "init_snd_wnd p" for p
  by unfold_locales (simp add: init_snd_wnd_def)

interpretation syn_sent_data_t: rto_frame "\<lambda>w. snd (syn_sent_data p w)" for p
  by unfold_locales (simp add: syn_sent_data_def Let_def split_def)

interpretation h_rx_rst_t: rto_frame "\<lambda>w. snd (h_rx_rst p e w)" for p e
  by unfold_locales (simp add: h_rx_rst_def)

interpretation rst_or_close_rx_t: rto_frame "\<lambda>w. snd (rst_or_close_rx p w)" for p
  by unfold_locales (simp add: rst_or_close_rx_def h_active_close_rx_def Let_def split_def)

interpretation h_active_close_tx_t: rto_frame "\<lambda>w. snd (h_active_close_tx c w)" for c
  by unfold_locales (simp add: h_active_close_tx_def)

interpretation send_fin_t: rto_frame "send_fin ns" for ns
  by unfold_locales (simp add: send_fin_def Let_def)

interpretation tx_segment_t: rto_frame "tx_segment f d" for f d
  by unfold_locales (simp add: tx_segment_def Let_def)

interpretation fin_wait_1_acked_t: rto_frame "fin_wait_1_acked p a" for p a
  by unfold_locales (simp add: fin_wait_1_acked_def Let_def)

lemma tx_loop_rto: "tx_loop data ns sh cl w = Some (Inr w') \<Longrightarrow> rto w' = rto w"
  by (erule tx_loop_keeps [where P = "\<lambda>x. rto x = rto w"]) simp_all

lemma tx_rto: "tx w = Some (Inr w') \<Longrightarrow> rto w' = rto w"
  by (cases "state w")
    (auto simp: tx_def tx_map_def tx_estab_def tx_close_wait_def tx_fin_wait_1_def tx_fin_wait_2_def
      tx_closing_def tx_last_ack_def tx_syn_sent_def tx_syn_recv_def Let_def split_def
      split: if_splits dest!: tx_loop_rto)

lemma rtx_rto: "rtx w = Some (Inr w') \<Longrightarrow> rto w' = min (rto w * 2) 60"
  unfolding rtx_def by (drule tx_rto) (simp add: back_off_rto_def MAX_RTO_def)

text \<open>A sample never takes the timeout below its minimum.\<close>

lemma rtt_sample_rto: "1 \<le> rto w \<Longrightarrow> 1 \<le> rto (rtt_sample w)"
  by (simp add: rtt_sample_def set_new_rto_def set_initial_rto_def Let_def MIN_RTO_def split: option.splits)

lemma estab_acked_rto: "1 \<le> rto w \<Longrightarrow> 1 \<le> rto (estab_acked a w)"
  using rtt_sample_rto by (simp add: estab_acked_def Let_def)

lemma rx_syn_sent_rto:
  assumes "rx_syn_sent p w = Inr w'" "1 \<le> rto w"
  shows "1 \<le> rto w'"
proof -
  have "rto (syn_sent_simultaneous p v) = rto v" for v
    by (simp add: syn_sent_simultaneous_def Let_def)
  moreover have "1 \<le> rto u" if "syn_sent_accept p v = Inr u" "1 \<le> rto v" for u v
    using that rtt_sample_rto [of v] by (auto simp: syn_sent_accept_def Let_def split_def split: sum.splits)
  ultimately show ?thesis
    using assms by (auto simp: rx_syn_sent_def Let_def split_def split: if_splits)
qed

lemma rx_handlers_rto:
  assumes "1 \<le> rto w"
  shows "1 \<le> rto (rx_syn_recv p w)" "1 \<le> rto (rx_estab p w)" "1 \<le> rto (rx_close_wait p w)"
    "1 \<le> rto (rx_last_ack p w)" "rto (rx_closing p w) = rto w" "rto (rx_time_wait p w) = rto w"
    "rto (rx_fin_wait_1 p w) = rto w" "rto (rx_fin_wait_2 p w) = rto w"
  using assms
  by (simp_all add: rx_syn_recv_def rx_estab_def estab_accept_def rx_close_wait_def rx_last_ack_def rx_closing_def
      rx_time_wait_def rx_fin_wait_1_def fin_wait_1_accept_def rx_fin_wait_2_def fin_wait_2_accept_def
      Let_def split_def rtt_sample_rto estab_acked_rto split: verdict.split)

lemma rx_rto:
  assumes "rx p w = Inr w'" "1 \<le> rto w"
  shows "1 \<le> rto w'"
  using assms rx_handlers_rto [OF assms(2), of p] rx_syn_sent_rto [of p w w']
  by (cases "state w") (auto simp: rx_def rx_map_def)

lemma rto_step: "conn_step fits w w' \<Longrightarrow> 1 \<le> rto w \<Longrightarrow> 1 \<le> rto w'"
proof (induction rule: conn_step.induct)
  case (segment p w w')
  then show ?case using rx_rto by blast
next
  case (send w w')
  then show ?case using tx_rto by simp
next
  case (retransmit w w')
  then show ?case using rtx_rto by simp
next
  case (env w' w)
  then show ?case using truncate_fields [OF env.hyps] by simp
qed simp_all

lemma rto_raised:
  assumes "conn_raise w w'" "1 \<le> rto w"
  shows "1 \<le> rto w'"
  using assms(1)
proof cases
  case (segment p e)
  then show ?thesis using rx_raised [OF segment(2)] assms(2) rtt_sample_rto by fastforce
next
  case (send e)
  have "rto w' = rto w" by (rule tx_raised [OF send, where P = "\<lambda>x. rto x = rto w"]) simp_all
  then show ?thesis using assms(2) by simp
next
  case (retransmit e)
  have "1 \<le> rto (back_off_rto w)" using assms(2) by (simp add: back_off_rto_def MAX_RTO_def)
  then show ?thesis by (intro rtx_raised [OF retransmit, where P = "\<lambda>x. 1 \<le> rto x"]) simp_all
qed

section \<open>Challenge acknowledgments\<close>

text \<open>The challenge acknowledgments sent at the times \<open>ts\<close>.\<close>

fun challenge_run :: "int list \<Rightarrow> fsm \<Rightarrow> fsm" where
  "challenge_run [] w = w"
| "challenge_run (t # ts) w = challenge_run ts (send_challenge_ack (w\<lparr>now_ns := t\<rparr>))"

definition bucket_ok :: "fsm \<Rightarrow> bool" where
  "bucket_ok w \<longleftrightarrow> 0 \<le> challenge_ack_limit w \<and> challenge_ack_limit w \<le> 100"

lemma send_challenge_ack_bucket:
  assumes "bucket_ok w" "last_challenge_ack_timestamp w \<le> now_ns w"
  defines "w' \<equiv> send_challenge_ack w"
  shows "bucket_ok w'" "last_challenge_ack_timestamp w' \<le> now_ns w"
    "\<exists>k. int (length (tx_log w')) = int (length (tx_log w)) + k \<and> 0 \<le> k \<and>
       k + challenge_ack_limit w' \<le> challenge_ack_limit w +
         5 * ((last_challenge_ack_timestamp w' - last_challenge_ack_timestamp w) div 1000000000)"
  using assms
  by (auto simp: send_challenge_ack_def bucket_ok_def Let_def tx_tcp_def MAX_TCP_CHALLENGE_ACK_LIMIT_def
      TCP_CHALLENGE_ACK_RATE_HZ_def)

lemma challenge_run_bucket:
  assumes "bucket_ok w" "sorted (last_challenge_ack_timestamp w # ts)"
  shows "bucket_ok (challenge_run ts w) \<and>
    int (length (tx_log (challenge_run ts w))) + challenge_ack_limit (challenge_run ts w) \<le>
      int (length (tx_log w)) + challenge_ack_limit w +
        5 * ((last (last_challenge_ack_timestamp w # ts) - last_challenge_ack_timestamp w) div 1000000000)"
  using assms
proof (induction ts arbitrary: w)
  case Nil
  then show ?case by simp
next
  case (Cons t ts)
  let ?w = "send_challenge_ack (w\<lparr>now_ns := t\<rparr>)"
  let ?l = "last_challenge_ack_timestamp w" and ?l' = "last_challenge_ack_timestamp ?w"
  have pre: "bucket_ok (w\<lparr>now_ns := t\<rparr>)" "last_challenge_ack_timestamp (w\<lparr>now_ns := t\<rparr>) \<le> now_ns (w\<lparr>now_ns := t\<rparr>)"
    using Cons.prems by (simp_all add: bucket_ok_def)
  note b = send_challenge_ack_bucket [OF pre]
  have t: "?l' \<le> t" "\<forall>x\<in>set ts. t \<le> x" using b(2) Cons.prems(2) by simp_all
  have s: "sorted (?l' # ts)" using Cons.prems(2) t by auto
  have lst: "last (?l' # ts) \<le> last (t # ts)" using t by simp
  obtain k where k: "int (length (tx_log ?w)) = int (length (tx_log w)) + k" "0 \<le> k"
      "k + challenge_ack_limit ?w \<le> challenge_ack_limit w + 5 * ((?l' - ?l) div 1000000000)"
    using b(3) by auto
  have "(last (?l' # ts) - ?l') div 1000000000 + (?l' - ?l) div 1000000000 \<le> (last (t # ts) - ?l) div 1000000000"
  proof -
    have "(last (?l' # ts) - ?l') div 1000000000 + (?l' - ?l) div 1000000000 \<le>
        ((last (?l' # ts) - ?l') + (?l' - ?l)) div 1000000000"
      by (simp add: div_add1_eq)
    also have "\<dots> \<le> (last (t # ts) - ?l) div 1000000000"
      using lst by (intro zdiv_mono1) simp_all
    finally show ?thesis .
  qed
  then show ?case using Cons.IH [OF b(1) s] k by simp
qed

section \<open>Properties\<close>



text \<open>In every reachable state the retransmission timeout is at least the minimum of one second.\<close>

lemma rto_minimum:
  assumes "conn_reach fits w"
  shows "MIN_RTO \<le> rto w"
proof -
  have "rto (tcp_fsm_connect v) = rto v" for v
    by (simp add: tcp_fsm_connect_def activ_open_def init_snd_seq_def Let_def)
  then have "1 \<le> rto w" using assms
    by - (erule conn_reach.induct, simp add: conn_fresh_fields, blast intro: rto_step, blast intro: rto_raised)
  then show ?thesis by (simp add: MIN_RTO_def)
qed

lemma rto_minimum_witness:
  "\<exists>w. conn_reach True w \<and> MIN_RTO \<le> rto w"
proof -
  have r: "conn_reach True (tcp_fsm_connect (conn_example 0))"
    by (rule conn_example_reach) (simp add: seq_num_def)
  show ?thesis using rto_minimum [OF r] r by blast
qed

text \<open>C35. Exponential back-off: \<open>n\<close> retransmissions in a row, with no acknowledgment between them, leave the
  timeout at \<open>2 ^ n\<close> times its value, capped at 60 seconds.\<close>

theorem exponential_backoff:
  assumes "((\<lambda>v v'. rtx v = Some (Inr v')) ^^ n) w w'" "0 < n" "0 \<le> rto w"
  shows "rto w' = min (2 ^ n * rto w) MAX_RTO"
  using assms(1,2)
proof (induction n arbitrary: w')
  case (Suc n)
  then obtain v where v: "((\<lambda>v v'. rtx v = Some (Inr v')) ^^ n) w v" "rtx v = Some (Inr w')" by auto
  have r: "rto w' = min (rto v * 2) 60" by (rule rtx_rto [OF v(2)])
  show ?case
  proof (cases n)
    case 0
    then show ?thesis using r v(1) by (simp add: MAX_RTO_def mult.commute)
  next
    case (Suc m)
    then have "rto v = min (2 ^ n * rto w) 60" using Suc.IH [OF v(1)] by (simp add: MAX_RTO_def)
    then show ?thesis using r by (simp add: MAX_RTO_def min_def mult.commute mult.left_commute)
  qed
qed simp

theorem exponential_backoff_witness:
  "\<exists>w'. ((\<lambda>v v'. rtx v = Some (Inr v')) ^^ 7) (tcp_fsm_connect (conn_example 0)) w' \<and> rto w' = 60"
proof -
  have s: "\<exists>v'. rtx v = Some (Inr v') \<and> state v' = SYN_SENT" if "state v = SYN_SENT" for v
    using that by (simp add: rtx_def tx_def tx_map_def tx_syn_sent_def)
  have "\<exists>w'. ((\<lambda>v v'. rtx v = Some (Inr v')) ^^ n) v w' \<and> state w' = SYN_SENT" if "state v = SYN_SENT" for n v
  proof (induction n)
    case (Suc n)
    then show ?case using s by (auto simp: OO_def) blast
  qed (use that in simp)
  then obtain w' where w': "((\<lambda>v v'. rtx v = Some (Inr v')) ^^ 7) (tcp_fsm_connect (conn_example 0)) w'"
    using fresh_connect(1) by blast
  have "rto (tcp_fsm_connect (conn_example 0)) = 1"
    by (simp add: tcp_fsm_connect_def activ_open_def init_snd_seq_def Let_def conn_defs)
  then show ?thesis
    using exponential_backoff [OF w'] w' by (intro exI [of _ w']) (simp add: MAX_RTO_def)
qed

text \<open>C34. The challenge acknowledgments of RFC 5961 are rate limited: however many out-of-window segments
  provoke them, at most 100 plus 5 per second elapsed are sent, and the allowance stays between 0
  and 100.\<close>

theorem challenge_ack_rate:
  assumes "0 \<le> challenge_ack_limit w" "challenge_ack_limit w \<le> MAX_TCP_CHALLENGE_ACK_LIMIT"
    and "sorted (last_challenge_ack_timestamp w # ts)"
  shows "int (length (tx_log (challenge_run ts w))) - int (length (tx_log w)) \<le> MAX_TCP_CHALLENGE_ACK_LIMIT +
      TCP_CHALLENGE_ACK_RATE_HZ *
        ((last (last_challenge_ack_timestamp w # ts) - last_challenge_ack_timestamp w) div 1000000000) \<and>
    0 \<le> challenge_ack_limit (challenge_run ts w) \<and>
    challenge_ack_limit (challenge_run ts w) \<le> MAX_TCP_CHALLENGE_ACK_LIMIT"
  using challenge_run_bucket [OF _ assms(3)] assms(1,2)
  by (simp add: bucket_ok_def MAX_TCP_CHALLENGE_ACK_LIMIT_def TCP_CHALLENGE_ACK_RATE_HZ_def)

theorem challenge_ack_rate_witness:
  "length (tx_log (challenge_run (replicate 500 2000000000) (conn_example 0))) \<le> 110"
proof -
  have "sorted (replicate 500 (2000000000 :: int))" by (simp add: sorted_replicate)
  then show ?thesis
    using challenge_ack_rate [of "conn_example 0" "replicate 500 2000000000"]
    by (simp add: conn_defs MAX_TCP_CHALLENGE_ACK_LIMIT_def TCP_CHALLENGE_ACK_RATE_HZ_def)
qed

end
