(* ===== verification/Sock_Props.thy ===== *)
theory Sock_Props
  imports Sock_Api Core_Paths Tcp_Open
begin

text \<open>
  Properties of the calls of an application (theory \<open>Sock_Api\<close>): sending and receiving on a connected TCP
  socket, what an error leaves behind, closing, the acquisition of the address, and the opening of
  a connection from the call to the frames on the wire and back.
\<close>

section \<open>Lemmas\<close>

text \<open>A TCP socket without an error whose connection is in the tables.\<close>

definition sock_connected :: "core \<Rightarrow> nat \<Rightarrow> nat \<Rightarrow> tcpcb \<Rightarrow> bool" where
  "sock_connected c ref cb t \<longleftrightarrow> c_so_error c ref = NoErr \<and>
     (\<exists>s. c_socks c ref = Some s \<and> tcp_tcpcbs (c_tcp c) (s_sock_id s) = Some cb) \<and> c_tcpcbs c cb = Some t"

definition with_cb :: "nat \<Rightarrow> tcpcb \<Rightarrow> core \<Rightarrow> core" where
  "with_cb cb t c = c\<lparr>c_tcpcbs := (c_tcpcbs c)(cb \<mapsto> t)\<rparr>"

definition with_send_event :: "nat \<Rightarrow> core \<Rightarrow> core" where
  "with_send_event cb c = c\<lparr>c_events := c_events c @ [TCPEvent SEND (Some cb) None]\<rparr>"

lemma then_op_bind: "then_op m n c = bind_op m (\<lambda>_. n) c"
  by (simp add: then_op_def)

lemma raise_exception_cases:
  "raise_exception ref c = (if c_so_error c ref = NoErr then Some (Inr (), c) else Some (Inl (SocketError (c_so_error c ref)), c))"
  by (simp add: raise_exception_def)

lemma fail_raises: "e \<noteq> NoErr \<Longrightarrow> fail ref e c = Some (Inl (SocketError e), c\<lparr>c_so_error := (c_so_error c)(ref := e)\<rparr>)"
  by (simp add: fail_def set_error_def raise_exception_cases)

text \<open>A call that starts with \<^verbatim>\<open>so.raise_exception()\<close> on a socket with an error.\<close>

lemma pending_error:
  "c_so_error c ref \<noteq> NoErr \<Longrightarrow> then_op (raise_exception ref) n c = Some (Inl (SocketError (c_so_error c ref)), c)"
  by (simp add: then_op_bind bind_op_def raise_exception_cases)

lemma no_error: "c_so_error c ref = NoErr \<Longrightarrow> then_op (raise_exception ref) n c = n c"
  by (simp add: then_op_bind bind_op_def raise_exception_cases)

lemma connectedD:
  assumes "sock_connected c ref cb t"
  shows "c_so_error c ref = NoErr" "bind_op (get_tcpcb ref) f c = f (Some cb) c" "bind_op (get_cb cb) g c = g t c"
  using assms by (auto simp: sock_connected_def get_tcpcb_def get_sock_def get_cb_def bind_op_def)

lemma upd_cb_connected: "c_tcpcbs c cb = Some t \<Longrightarrow> then_op (upd_cb cb f) n c = n (with_cb cb (f t) c)"
  by (simp add: upd_cb_def with_cb_def)

lemma enqueue_snd_buf_connected:
  assumes "sock_connected c ref cb t" "rrb_enqueue (snd_buf t) data = (l, b)"
  shows "bind_op (enqueue_snd_buf cb data) f c = f l (with_cb cb (t\<lparr>snd_buf := b\<rparr>) c)"
proof -
  have "c_tcpcbs c cb = Some t" using assms(1) by (simp add: sock_connected_def)
  then show ?thesis
    using assms(2) by (simp add: enqueue_snd_buf_def bind_op_def get_cb_def upd_cb_connected)
qed

lemma schedule_send: "then_op (schedule_core_event SEND cb) n c = n (with_send_event cb c)"
  by (simp add: schedule_core_event_def with_send_event_def)

section \<open>Sending\<close>

text \<open>One round of the loop of \<^verbatim>\<open>tcp_send\<close>.\<close>

lemma send_round:
  assumes "sock_connected c ref cb t" "rrb_enqueue (snd_buf t) data = (l, b)" "0 < n"
  shows "tcp_send_loop ref cb data n waits c =
    (if n - int l > 0 then
       (case waits of
          [] \<Rightarrow> (\<lambda>c. None)
        | m # ms \<Rightarrow> then_op (upd m) (then_op (raise_exception ref) (tcp_send_loop ref cb data (n - int l) ms)))
     else ret ()) (with_send_event cb (with_cb cb (t\<lparr>snd_buf := b\<rparr>) c))"
  using assms(3) by (subst tcp_send_loop.simps) (simp add: enqueue_snd_buf_connected [OF assms(1,2)] schedule_send)

lemma tcp_send_connected:
  assumes "sock_connected c ref cb t"
  shows "tcp_send ref data waits c = then_op (tcp_send_loop ref cb data (int (length data)) waits) (ret (length data)) c"
  using assms by (simp add: tcp_send_def no_error connectedD)

lemma tcp_send_fits:
  assumes "sock_connected c ref cb t" "rrb_inv (snd_buf t)" "data \<noteq> []" "length data \<le> rrb_free_space (snd_buf t)"
  obtains b where "rrb_enqueue (snd_buf t) data = (length data, b)"
    "tcp_send ref data [] c = Some (Inr (length data), with_send_event cb (with_cb cb (t\<lparr>snd_buf := b\<rparr>) c))"
proof -
  obtain l b where e: "rrb_enqueue (snd_buf t) data = (l, b)" by (rule prod.exhaust)
  have l: "l = length data" by (rule rrb.enq_all [OF assms(2) e assms(4)])
  have "tcp_send ref data [] c = Some (Inr (length data), with_send_event cb (with_cb cb (t\<lparr>snd_buf := b\<rparr>) c))"
    using assms(3) l by (simp add: tcp_send_connected [OF assms(1)] then_op_bind bind_op_def send_round [OF assms(1) e])
  then show ?thesis using that e l by simp
qed

text \<open>Data that fit into the free space of the send buffer are appended to it as they are, in one step and
  without waiting; one send event is queued for the thread that serves TCP.\<close>

lemma tcp_send_appends:
  assumes "sock_connected c ref cb t" "rrb_inv (snd_buf t)" "data \<noteq> []" "length data \<le> rrb_free_space (snd_buf t)"
  shows "\<exists>b. tcp_send ref data [] c = Some (Inr (length data), with_send_event cb (with_cb cb (t\<lparr>snd_buf := b\<rparr>) c)) \<and>
    rrb_inv b \<and> rrb_contents b = rrb_contents (snd_buf t) @ data"
proof -
  obtain b where e: "rrb_enqueue (snd_buf t) data = (length data, b)"
      "tcp_send ref data [] c = Some (Inr (length data), with_send_event cb (with_cb cb (t\<lparr>snd_buf := b\<rparr>) c))"
    by (rule tcp_send_fits [OF assms])
  then show ?thesis using rrb.enq_inv [OF assms(2) e(1)] rrb.enq_contents [OF assms(2) e(1)] by auto
qed

text \<open>Data that do not fit are sent twice. The first round appends what fits, the beginning of the data; after the
  wait, the next round starts again from the first byte. When the other threads have made room for the whole of the
  data by then, the call returns and the peer receives the beginning followed by all of the data.\<close>

lemma tcp_send_repeats:
  assumes "sock_connected c ref cb t" "rrb_inv (snd_buf t)" "rrb_free_space (snd_buf t) = k" "k < length data"
  shows "\<exists>b c1. c1 = with_send_event cb (with_cb cb (t\<lparr>snd_buf := b\<rparr>) c) \<and>
    rrb_contents b = rrb_contents (snd_buf t) @ take k data \<and>
    (\<forall>m t2. sock_connected (m c1) ref cb t2 \<longrightarrow> rrb_inv (snd_buf t2) \<longrightarrow> length data \<le> rrb_free_space (snd_buf t2) \<longrightarrow>
      (\<exists>b2. tcp_send ref data [m] c = Some (Inr (length data), with_send_event cb (with_cb cb (t2\<lparr>snd_buf := b2\<rparr>) (m c1))) \<and>
        rrb_contents b2 = rrb_contents (snd_buf t2) @ data))"
proof -
  obtain l b where e: "rrb_enqueue (snd_buf t) data = (l, b)" by (rule prod.exhaust)
  have l: "l = k" using rrb.enq_count [OF assms(2) e] assms(3,4) by simp
  have pos: "0 < int (length data)" using assms(4) by auto
  let ?c1 = "with_send_event cb (with_cb cb (t\<lparr>snd_buf := b\<rparr>) c)"
  have "\<exists>b2. tcp_send ref data [m] c = Some (Inr (length data), with_send_event cb (with_cb cb (t2\<lparr>snd_buf := b2\<rparr>) (m ?c1))) \<and>
      rrb_contents b2 = rrb_contents (snd_buf t2) @ data"
    if m: "sock_connected (m ?c1) ref cb t2" "rrb_inv (snd_buf t2)" "length data \<le> rrb_free_space (snd_buf t2)" for m t2
  proof -
    obtain l2 b2 where e2: "rrb_enqueue (snd_buf t2) data = (l2, b2)" by (rule prod.exhaust)
    have l2: "l2 = length data" by (rule rrb.enq_all [OF m(2) e2 m(3)])
    have "tcp_send_loop ref cb data (int (length data)) [m] c = tcp_send_loop ref cb data (int (length data) - int k) [] (m ?c1)"
      using assms(4) l connectedD(1) [OF m(1)] by (subst send_round [OF assms(1) e pos]) (simp add: no_error)
    also have "\<dots> = Some (Inr (), with_send_event cb (with_cb cb (t2\<lparr>snd_buf := b2\<rparr>) (m ?c1)))"
      using assms(4) l2 by (subst send_round [OF m(1) e2]) simp_all
    finally show ?thesis
      using rrb.enq_contents [OF m(2) e2] l2 by (auto simp: tcp_send_connected [OF assms(1)] then_op_bind bind_op_def)
  qed
  then show ?thesis using rrb.enq_contents [OF assms(2) e] l by (intro exI [of _ b] exI [of _ ?c1]) simp
qed

text \<open>A connected socket, with a control block that is given.\<close>

definition connected_example :: "tcpcb \<Rightarrow> core" where
  "connected_example t =
     core_example\<lparr>c_socks := [0 \<mapsto> (sock_init TCPSocket 0)\<lparr>s_local_ip := 0xC0A802C8, s_local_port := 40000,
         s_remote_ip := 0xC0A80205, s_remote_port := 80, s_sock_id := (0xC0A802C8, 40000, 0xC0A80205, 80)\<rparr>],
       c_tcp := register_tcpcb (0xC0A802C8, 40000, 0xC0A80205, 80) 1
         (tcp_register_socket (0xC0A802C8, 40000, 0xC0A80205, 80) 0 tcp_table_init),
       c_tcpcbs := [1 \<mapsto> t]\<rparr>"

lemma rrb_init_facts:
  assumes "0 < n"
  shows "rrb_inv (rrb_init n)" "rrb_contents (rrb_init n) = []" "rrb_free_space (rrb_init n) = n - 1"
proof -
  have v: "rrb_view (rrb_init n) = rb_init n" by (simp add: rrb_view_def rrb_init_def rb_init_def)
  show i: "rrb_inv (rrb_init n)" using assms by (simp add: rrb_inv_def v rb_inv_init) (simp add: rrb_init_def)
  show c: "rrb_contents (rrb_init n) = []" by (simp add: rrb_contents_def v)
  show "rrb_free_space (rrb_init n) = n - 1"
    using rrb.free_ready [OF i] rrb.ready_length [OF i] c by (simp add: rrb_cap_def) (simp add: rrb_init_def)
qed

definition tcb_example :: tcpcb where
  "tcb_example = (tcpcb_init 1 0xC0A802C8 40000 0xC0A80205 80 0 Map.empty 100 0)\<lparr>state := ESTAB\<rparr>"

lemma connected_example: "sock_connected (connected_example t) 0 1 t"
  by (simp add: sock_connected_def connected_example_def core_example_def register_tcpcb_def tcp_table_init_def tcp_register_socket_def)

lemma tcp_send_appends_witness:
  "\<exists>b. tcp_send 0 [1, 2, 3] [] (connected_example tcb_example) =
      Some (Inr 3, with_send_event 1 (with_cb 1 (tcb_example\<lparr>snd_buf := b\<rparr>) (connected_example tcb_example))) \<and>
    rrb_contents b = [1, 2, 3]"
  using tcp_send_appends [OF connected_example, of tcb_example "[1, 2, 3]"]
  by (auto simp: tcb_example_def tcpcb_init_def DEFAULT_SEND_BUFF_def rrb_init_facts)

lemma tcp_send_repeats_witness:
  "\<exists>b2 c2. tcp_send 0 [1, 2, 3] [with_cb 1 (tcb_example\<lparr>snd_buf := rrb_init 10\<rparr>)] (connected_example (tcb_example\<lparr>snd_buf := rrb_init 3\<rparr>)) =
      Some (Inr 3, c2) \<and> c_tcpcbs c2 1 = Some (tcb_example\<lparr>snd_buf := b2\<rparr>) \<and> rrb_contents b2 = [1, 2, 3]"
proof -
  let ?t = "tcb_example\<lparr>snd_buf := rrb_init 3\<rparr>" and ?t2 = "tcb_example\<lparr>snd_buf := rrb_init 10\<rparr>"
  have k: "rrb_inv (snd_buf ?t)" "rrb_free_space (snd_buf ?t) = 2" "2 < length [1, 2, 3 :: byte]"
    "rrb_inv (snd_buf ?t2)" "rrb_free_space (snd_buf ?t2) = 9" "rrb_contents (snd_buf ?t2) = []"
    by (simp_all add: rrb_init_facts)
  have m: "sock_connected (with_cb 1 ?t2 (with_send_event 1 (with_cb 1 t1 (connected_example t)))) 0 1 ?t2" for t t1
    using connected_example [of t] by (simp add: sock_connected_def with_cb_def with_send_event_def)
  have l: "length [1, 2, 3 :: byte] \<le> rrb_free_space (snd_buf ?t2)" using k(5) by simp
  obtain b c1 where c1: "c1 = with_send_event 1 (with_cb 1 (?t\<lparr>snd_buf := b\<rparr>) (connected_example ?t))" and
    r: "\<forall>m t2. sock_connected (m c1) 0 1 t2 \<longrightarrow> rrb_inv (snd_buf t2) \<longrightarrow> length [1, 2, 3 :: byte] \<le> rrb_free_space (snd_buf t2) \<longrightarrow>
      (\<exists>b2. tcp_send 0 [1, 2, 3] [m] (connected_example ?t) =
         Some (Inr (length [1, 2, 3 :: byte]), with_send_event 1 (with_cb 1 (t2\<lparr>snd_buf := b2\<rparr>) (m c1))) \<and>
         rrb_contents b2 = rrb_contents (snd_buf t2) @ [1, 2, 3])"
    using tcp_send_repeats [OF connected_example k(1-3)] by blast
  obtain b2 where "tcp_send 0 [1, 2, 3] [with_cb 1 ?t2] (connected_example ?t) =
      Some (Inr (length [1, 2, 3 :: byte]), with_send_event 1 (with_cb 1 (?t2\<lparr>snd_buf := b2\<rparr>) (with_cb 1 ?t2 c1)))"
      "rrb_contents b2 = rrb_contents (snd_buf ?t2) @ [1, 2, 3]"
    using r [rule_format, of "with_cb 1 ?t2", OF m [of "?t\<lparr>snd_buf := b\<rparr>" ?t, folded c1] k(4) l] by blast
  then show ?thesis using k(6) by - (rule exI [of _ b2], simp add: with_cb_def with_send_event_def)
qed

section \<open>Receiving\<close>

text \<open>A wait for data that times out leaves its error on the socket. From then on every receive and every send on
  the socket raises the same error at once, also when data have arrived or the connection has recovered: nothing in the
  stack clears the error of a socket.\<close>

lemma recv_timeout_permanent:
  assumes "sock_connected c ref cb t" "state t \<notin> NON_RECEIVABLE_STATES" "rb_is_empty (rcv_buf t)"
  shows "\<exists>c'. tcp_recv ref n False m c = Some (Inl (SocketError ETIMEDOUT), c') \<and>
    (\<forall>c2 k got m2 data waits. c_so_error c2 ref = c_so_error c' ref \<longrightarrow>
       tcp_recv ref k got m2 c2 = Some (Inl (SocketError ETIMEDOUT), c2) \<and>
       tcp_send ref data waits c2 = Some (Inl (SocketError ETIMEDOUT), c2))"
proof -
  let ?c = "(m c)\<lparr>c_so_error := (c_so_error (m c))(ref := ETIMEDOUT)\<rparr>"
  have "tcp_recv ref n False m c = Some (Inl (SocketError ETIMEDOUT), ?c)"
    using assms by (simp add: tcp_recv_def no_error connectedD then_op_bind [of "then_op _ _"] bind_op_def [of "then_op _ _"] fail_raises)
  moreover have "tcp_recv ref k got m2 c2 = Some (Inl (SocketError ETIMEDOUT), c2) \<and>
      tcp_send ref data waits c2 = Some (Inl (SocketError ETIMEDOUT), c2)"
    if "c_so_error c2 ref = ETIMEDOUT" for c2 k got m2 data waits
    using that unfolding tcp_recv_def tcp_send_def by (simp add: pending_error)
  ultimately show ?thesis by (intro exI [of _ ?c]) simp
qed

lemma recv_timeout_permanent_witness:
  "\<exists>c'. tcp_recv 0 10 False id (connected_example tcb_example) = Some (Inl (SocketError ETIMEDOUT), c') \<and>
     tcp_recv 0 10 True id c' = Some (Inl (SocketError ETIMEDOUT), c')"
proof -
  have "state tcb_example \<notin> NON_RECEIVABLE_STATES" "rb_is_empty (rcv_buf tcb_example)"
    by (simp_all add: tcb_example_def tcpcb_init_def NON_RECEIVABLE_STATES_def rb_is_empty_def rb_init_def)
  from recv_timeout_permanent [OF connected_example this, of 10 id] show ?thesis by blast
qed

lemma recv_data:
  assumes "sock_connected c ref cb t" "rb_inv (rcv_buf t)" "rb_contents (rcv_buf t) \<noteq> []" "state t \<notin> NON_RECEIVABLE_STATES"
  obtains b where "\<forall>got m. socket_recv ref n got m c = Some (Inr (take n (rb_contents (rcv_buf t))), with_cb cb (t\<lparr>rcv_buf := b\<rparr>) c)"
    "rb_inv b" "rb_size b = rb_size (rcv_buf t)" "rb_contents b = drop n (rb_contents (rcv_buf t))"
proof -
  have cb: "c_tcpcbs c cb = Some t" using assms(1) by (simp add: sock_connected_def)
  have ne: "\<not> rb_is_empty (rcv_buf t)" using rb.empty_iff [OF assms(2)] assms(3) by simp
  obtain l b where d: "rb_dequeue (rcv_buf t) n = (l, b)" by (rule prod.exhaust)
  have "tcp_recv ref n got m c = Some (Inr l, with_cb cb (t\<lparr>rcv_buf := b\<rparr>) c)" for got m
    using assms(1,4) ne d by (simp add: tcp_recv_def no_error connectedD upd_cb_connected [OF cb])
  then have "\<forall>got m. socket_recv ref n got m c = Some (Inr (concat l), with_cb cb (t\<lparr>rcv_buf := b\<rparr>) c)"
    by (simp add: socket_recv_def bind_op_def)
  then show ?thesis
    using that rb.deq_data [OF assms(2) d] rb.deq_contents [OF assms(2) d] rb.deq_inv [OF assms(2) d] rb_dequeue_spec(2) [OF assms(2) d] by simp
qed

lemma recv_after_fin:
  assumes "sock_connected c ref cb t" "state t \<in> NON_RECEIVABLE_STATES"
  shows "socket_recv ref n got m c = Some (Inr [], c)"
proof -
  have "tcp_recv ref n got m c = Some (Inr [], c)" using assms by (simp add: tcp_recv_def no_error connectedD)
  then show ?thesis by (simp add: socket_recv_def bind_op_def)
qed

text \<open>C37. Data that were received before the FIN of the peer and not read by then are lost to the application: in
  CLOSE-WAIT, LAST-ACK and the other states after the FIN a receive returns no data, whatever the receive buffer holds.
  In the receivable states a receive takes the next bytes of the stream, at most as many as asked for.\<close>

theorem recv_returns:
  assumes "sock_connected c ref cb t" "rb_inv (rcv_buf t)" "rb_contents (rcv_buf t) \<noteq> []"
  shows "if state t \<in> NON_RECEIVABLE_STATES then socket_recv ref n got m c = Some (Inr [], c)
    else \<exists>b. socket_recv ref n got m c = Some (Inr (take n (rb_contents (rcv_buf t))), with_cb cb (t\<lparr>rcv_buf := b\<rparr>) c) \<and>
      rb_inv b \<and> rb_contents b = drop n (rb_contents (rcv_buf t))"
proof (cases "state t \<in> NON_RECEIVABLE_STATES")
  case True
  then show ?thesis using recv_after_fin [OF assms(1)] by simp
next
  case False
  obtain b where "\<forall>got m. socket_recv ref n got m c = Some (Inr (take n (rb_contents (rcv_buf t))), with_cb cb (t\<lparr>rcv_buf := b\<rparr>) c)"
    "rb_inv b" "rb_contents b = drop n (rb_contents (rcv_buf t))"
    by (rule recv_data [OF assms False])
  then show ?thesis using False by auto
qed

definition unread_example :: "tcp_state \<Rightarrow> tcpcb" where
  "unread_example st = tcb_example\<lparr>state := st, rcv_buf := snd (rb_enqueue (rb_init 10) [1, 2, 3])\<rparr>"

lemma unread_example:
  "rb_inv (rcv_buf (unread_example st))" "rb_contents (rcv_buf (unread_example st)) = [1, 2, 3]" "state (unread_example st) = st"
proof -
  obtain n b where e: "rb_enqueue (rb_init 10) [1, 2, 3] = (n, b)" by (rule prod.exhaust)
  have i: "rb_inv (rb_init 10)" by (simp add: rb_inv_init)
  have "n = 3" using rb.enq_count [OF i e] rb.free_ready [OF i] rb.ready_length [OF i] by (simp add: rb_cap_def) (simp add: rb_init_def)
  then show "rb_inv (rcv_buf (unread_example st))" "rb_contents (rcv_buf (unread_example st)) = [1, 2, 3]"
    using rb.enq_inv [OF i e] rb.enq_contents [OF i e] by (simp_all add: unread_example_def e)
qed (simp add: unread_example_def)

theorem recv_returns_witness:
  "socket_recv 0 2 True id (connected_example (unread_example CLOSE_WAIT)) = Some (Inr [], connected_example (unread_example CLOSE_WAIT)) \<and>
   (\<exists>c'. socket_recv 0 2 True id (connected_example (unread_example ESTAB)) = Some (Inr [1, 2], c'))"
proof -
  note w = recv_returns [OF connected_example unread_example(1), unfolded unread_example(2,3), of _ 2 True id]
  show ?thesis using w [of CLOSE_WAIT] w [of ESTAB] by (auto simp: NON_RECEIVABLE_STATES_def)
qed

section \<open>Closing, options and the address\<close>

text \<open>Closing a UDP socket does not remove it: the key that is looked up holds address objects, the keys of the
  table hold integers. The table is as before, so that datagrams for the closed socket are still queued
  and its address stays in use: another socket cannot be bound to it.\<close>

lemma udp_close_keeps_socket:
  assumes "c_socks c ref = Some s" "ip_init_str host = Inr a" "c_unicast_ip c = Some own" "fst (str_ip a) = dotted own"
    "c_socks c ref2 = Some s2" "s_local_port s2 = 0" "(ipadd_int a, port) \<in> udp_bound_sockets (c_udp c)"
    "c_so_error c ref2 = NoErr"
  shows "udp_close ref c = Some (Inr (), c) \<and>
    (\<exists>c'. udp_bind ref2 (host, port) c = Some (Inl (SocketError EADDRINUSE), c'))"
proof
  show "udp_close ref c = Some (Inr (), c)"
    using assms(1) by (simp add: udp_close_def get_sock_def bind_op_def fun_eq_iff)
  show "\<exists>c'. udp_bind ref2 (host, port) c = Some (Inl (SocketError EADDRINUSE), c')"
    using assms(2-8)
    by (simp add: udp_bind_def check_address_def str_unicast_def then_op_bind bind_op_def raise_exception_cases get_sock_def
        upd_sock_def udp_check_bound_def fail_raises)
qed

definition bound_example :: core where
  "bound_example =
     core_example\<lparr>c_socks := [0 \<mapsto> sock_init UDPSocket 0, 1 \<mapsto> sock_init UDPSocket 0],
       c_udp := udp_register_bound_socket (0xC0A802C8, 53) udp_table_init\<rparr>"

lemma own_address: "ip_init_str ''192.168.2.200'' = Inr \<lparr>ipadd_int = 0xC0A802C8, ipadd_str = ''192.168.2.200''\<rparr>"
  "dotted 0xC0A802C8 = ''192.168.2.200''"
  by code_simp+

lemma udp_close_keeps_socket_witness:
  "udp_close 0 bound_example = Some (Inr (), bound_example) \<and>
     (\<exists>c'. udp_bind 1 (''192.168.2.200'', 53) bound_example = Some (Inl (SocketError EADDRINUSE), c'))"
proof (rule udp_close_keeps_socket [OF _ own_address(1)])
  show "c_socks bound_example 0 = Some (sock_init UDPSocket 0)" "c_socks bound_example 1 = Some (sock_init UDPSocket 0)"
    "c_unicast_ip bound_example = Some 0xC0A802C8" "c_so_error bound_example 1 = NoErr" "s_local_port (sock_init UDPSocket 0) = 0"
    "(ipadd_int \<lparr>ipadd_int = 0xC0A802C8, ipadd_str = ''192.168.2.200''\<rparr>, 53) \<in> udp_bound_sockets (c_udp bound_example)"
    by (simp_all add: bound_example_def core_example_def sock_init_def udp_register_bound_socket_def)
  show "fst (str_ip \<lparr>ipadd_int = 0xC0A802C8, ipadd_str = ''192.168.2.200''\<rparr>) = dotted 0xC0A802C8"
    by (simp add: str_ip_def own_address(2) Let_def)
qed

lemma send_arp_prob_returns: "ip_init_str host = Inr a \<Longrightarrow> \<exists>c1. send_arp_prob host c = Some (Inr (), c1)"
  by (cases "ipadd_int a \<in> c_arp_wait_prob_list c")
    (simp_all add: send_arp_prob_def tx_arp_def ARP_OP_REQUEST_def arp_probe_add_def core_schedule_timer_def
      tx_ether_def tx_ring_enqueue_def then_op_bind bind_op_def split_def Let_def)

text \<open>A conflict for the address of the stack is never noticed: the probe's answers are recorded as address objects, and the
  address is looked for as a string. Whatever ends the wait of the stack, it takes the address.\<close>

lemma address_conflict_ignored:
  assumes "ip_init_str host = Inr a"
  shows "\<exists>c1. send_arp_prob host c = Some (Inr (), c1) \<and>
    acquire_ipaddr host m c = (if notified_since ArpProbCond c1 (m c1)
      then Some (Inr (), (m c1)\<lparr>c_unicast_ip := Some (ipadd_int a), c_rx_ip_enabled := True\<rparr>) else None)"
proof -
  have "\<not> py_in_conflict_ips host c2" for c2 by (simp add: py_in_conflict_ips_def list_ex_iff)
  then show ?thesis
    using assms send_arp_prob_returns [OF assms, of c] by (auto simp: acquire_ipaddr_def wait_arp_prob_def then_op_bind bind_op_def)
qed

lemma address_conflict_ignored_witness:
  "\<exists>c1. acquire_ipaddr ''192.168.2.200'' (\<lambda>c. c\<lparr>c_conflict_ips := [0xC0A802C8], c_notified := c_notified c @ [ArpProbCond]\<rparr>)
     core_example = Some (Inr (), c1) \<and> c_unicast_ip c1 = Some 0xC0A802C8"
  using address_conflict_ignored [OF own_address(1), of core_example
      "\<lambda>c. c\<lparr>c_conflict_ips := [0xC0A802C8], c_notified := c_notified c @ [ArpProbCond]\<rparr>"]
  by (auto simp: notified_since_def)

text \<open>A socket option replaces every other: after two options have been set only the second is there.\<close>

lemma setsockopt_forgets:
  assumes "c_socks c ref = Some s" "(l1, n1) \<noteq> (l2, n2)"
  shows "\<exists>c'. then_op (setsockopt ref l1 n1 v1) (setsockopt ref l2 n2 v2) c = Some (Inr (), c') \<and>
    (\<exists>s'. c_socks c' ref = Some s' \<and> s_sock_opt s' (l2, n2) = Some v2 \<and> s_sock_opt s' (l1, n1) = None)"
  using assms by (simp add: setsockopt_def upd_sock_def)

end
