(* ===== verification/Sock_Connect.thy ===== *)
theory Sock_Connect
  imports Sock_Props
begin

text \<open>
  The opening of a connection through all layers: \<^verbatim>\<open>tcp_connect\<close>, the thread that serves TCP events, the state
  machine, the builders of TCP, IP and Ethernet, the frame of the peer's answer and the receiving path up to the
  state machine again.
\<close>

section \<open>The control block and the core\<close>

lemma fsm_of_simps [simp]:
  "state (fsm_of t c) = state t" "iss (fsm_of t c) = iss t" "snd_una (fsm_of t c) = snd_una t" "snd_nxt (fsm_of t c) = snd_nxt t"
  "lip (fsm_of t c) = lip t" "lp (fsm_of t c) = lp t" "rip (fsm_of t c) = rip t" "rp (fsm_of t c) = rp t"
  "rcv_wnd (fsm_of t c) = rcv_wnd t" "cb_ref (fsm_of t c) = cb_ref t" "so_error (fsm_of t c) = c_so_error c"
  "tcp_tbl (fsm_of t c) = c_tcp c" "events (fsm_of t c) = c_events c" "tx_log (fsm_of t c) = []"
  by (cases t; simp add: fsm_of_def tcpcb.defs fsm.defs)+

lemma truncate_simps [simp]:
  "state (tcpcb.truncate w) = state w" "iss (tcpcb.truncate w) = iss w" "snd_una (tcpcb.truncate w) = snd_una w"
  "snd_nxt (tcpcb.truncate w) = snd_nxt w" "lip (tcpcb.truncate w) = lip w" "lp (tcpcb.truncate w) = lp w"
  "rip (tcpcb.truncate w) = rip w" "rp (tcpcb.truncate w) = rp w" "rcv_wnd (tcpcb.truncate w) = rcv_wnd w"
  "cb_ref (tcpcb.truncate w) = cb_ref w" "remote_mss (tcpcb.truncate w) = remote_mss w" "rcv_nxt (tcpcb.truncate w) = rcv_nxt w"
  by (simp_all add: tcpcb.defs)

lemma core_of_simps [simp]:
  "c_tcpcbs (core_of w c) = (c_tcpcbs c)(cb_ref w \<mapsto> tcpcb.truncate w)" "c_so_error (core_of w c) = so_error w"
  "c_tcp (core_of w c) = tcp_tbl w" "c_events (core_of w c) = events w" "c_tx_ring (core_of w c) = c_tx_ring c"
  "c_unicast_ip (core_of w c) = c_unicast_ip c" "c_rx_ip_enabled (core_of w c) = c_rx_ip_enabled c"
  "c_socks (core_of w c) = c_socks c" "c_drawn (core_of w c) = c_drawn c" "c_random (core_of w c) = c_random c"
  "c_unicast_mac (core_of w c) = c_unicast_mac c"
  by (simp_all add: core_of_def)

lemma route_core_of [simp]: "ip_route dst (core_of w c) = ip_route dst c"
  by (simp add: ip_route_def find_entry_def core_of_def)

text \<open>An event whose handler sends one segment, to a neighbour that is resolved.\<close>

definition segment_sent :: "int \<Rightarrow> out_seg \<Rightarrow> core \<Rightarrow> core" where
  "segment_sent mac s c = c\<lparr>c_drawn := Suc (c_drawn c), c_tx_ring := c_tx_ring c @ [ip_frame c mac (seg_dgram s (next_ident c))]\<rparr>"

lemma route_sent: "ip_route dst (segment_sent mac s c) = ip_route dst c"
  by (simp add: segment_sent_def ip_route_def find_entry_def)

lemma handle_event_sends:
  assumes "ev_tcpcb ev = Some cb" "c_tcpcbs c cb = Some t" "event_handler ev (fsm_of t c) = Some (Inr w)" "tx_log w = [s]"
    "out_seg_ok s" "ip_route (fst (os_dst s)) c = (Some mac, nh)"
  shows "handle_event ev c = Some (Inr (), segment_sent mac s (core_of w c))"
  using assms(1-4) core_tx_tcp_resolved [OF assms(5), of "core_of w c" mac nh] assms(6)
  by (simp add: handle_event_def segment_sent_def)

lemma tcp_events_pass_one: "c_events c = [ev] \<Longrightarrow> tcp_events_pass c = handle_event ev (c\<lparr>c_events := []\<rparr>)"
  by (simp add: tcp_events_pass_def MAX_EVENTS_def pop_event_def then_op_bind bind_op_def split: option.split prod.split sum.split)

section \<open>The call\<close>

text \<open>The core when \<^verbatim>\<open>tcp_connect\<close> starts to wait: the socket \<open>ref\<close> has the address \<open>own\<close> and the port \<open>lport\<close>.\<close>

definition iss_of :: "core \<Rightarrow> int" where
  "iss_of c = c_random c (c_drawn c) mod 2 ^ 32"

definition connect_called :: "nat \<Rightarrow> sock \<Rightarrow> sock_id \<Rightarrow> (nat, nat) tcp_table \<Rightarrow> core \<Rightarrow> core" where
  "connect_called ref s sid tbl c =
     c\<lparr>c_socks := (c_socks c)(ref \<mapsto> s\<lparr>s_remote_ip := fst (snd (snd sid)), s_remote_port := snd (snd (snd sid)),
           s_local_port := fst (snd sid), s_local_ip := fst sid, s_sock_id := sid\<rparr>),
       c_drawn := Suc (c_drawn c), c_next_ref := Suc (c_next_ref c),
       c_tcpcbs := (c_tcpcbs c)(c_next_ref c \<mapsto> tcpcb_init (c_next_ref c) (fst sid) (fst (snd sid)) (fst (snd (snd sid)))
           (snd (snd (snd sid))) ref (s_sock_opt s) (iss_of c) (c_now_ns c)),
       c_tcp := register_tcpcb sid (c_next_ref c) (tcp_register_socket sid ref tbl),
       c_events := c_events c @ [TCPEvent CONNECT (Some (c_next_ref c)) None]\<rparr>"

lemma tcp_connect_start_connecting:
  assumes "c_socks c ref = Some s" "s_local_port s = 0" "ip_init_str host = Inr a" "c_unicast_ip c = Some own"
    "pick_ephemeral_tcp_port pick (c_tcp c) = Inr (lport, tbl)"
  shows "tcp_connect_start pick ref (host, port) c = Some (Inr (), connect_called ref s (own, lport, ipadd_int a, port) tbl c)"
  using assms
  by (simp add: tcp_connect_start_def upd_sock_def get_sock_def own_ip_def set_sock_id_def sock_id_of_def new_tcpcb_def
      schedule_core_event_def randint_def then_op_bind bind_op_def connect_called_def iss_of_def)

section \<open>From the call to the established connection\<close>

lemma connect_frame:
  "so_error (tcp_fsm_connect w) = so_error w" "cb_ref (tcp_fsm_connect w) = cb_ref w" "events (tcp_fsm_connect w) = events w"
  "tcp_tbl (tcp_fsm_connect w) = tcp_tbl w" "rcv_wnd (tcp_fsm_connect w) = rcv_wnd w"
  "lip (tcp_fsm_connect w) = lip w" "lp (tcp_fsm_connect w) = lp w" "rip (tcp_fsm_connect w) = rip w" "rp (tcp_fsm_connect w) = rp w"
  by (simp_all add: tcp_fsm_connect_def activ_open_def Let_def start_rtx_timer_def schedule_rtx_def change_state_def
      init_snd_seq_def rtt_probe_def tx_tcp_def split_def)

text \<open>The first segment of a connection, and the state after it.\<close>

definition syn_of :: "core \<Rightarrow> sock_id \<Rightarrow> out_seg" where
  "syn_of c sid = \<lparr>os_src = (fst sid, fst (snd sid)), os_dst = (fst (snd (snd sid)), snd (snd (snd sid))), os_seq = iss_of c,
     os_ack_seq = 0, os_ack = False, os_psh = False, os_rst = False, os_syn = True, os_fin = False, os_window = 65535,
     os_mss = True, os_data = []\<rparr>"

definition sid_ok :: "sock_id \<Rightarrow> bool" where
  "sid_ok sid \<longleftrightarrow> addr_ok (fst sid) \<and> addr_ok (fst (snd (snd sid))) \<and> 0 \<le> fst (snd sid) \<and> fst (snd sid) < 65536 \<and>
     0 \<le> snd (snd (snd sid)) \<and> snd (snd (snd sid)) < 65536"

lemma syn_of_ok: "sid_ok sid \<Longrightarrow> out_seg_ok (syn_of c sid)"
  by (simp add: out_seg_ok_def sid_ok_def syn_of_def iss_of_def seq_num_def seg_opts_def tcp_opts_len_def)

lemma connect_event:
  fixes c sid ref s tbl
  defines "c1 \<equiv> connect_called ref s sid tbl c"
  assumes "c_events c = []" "sid_ok sid" "ip_route (fst (snd (snd sid))) c = (Some mac, nh)"
  obtains t c2 where "tcp_events_pass c1 = Some (Inr (), c2)" "c_tx_ring c2 = c_tx_ring c @ [ip_frame c mac (seg_dgram (syn_of c sid) (next_ident c1))]"
    "c_tcpcbs c2 (c_next_ref c) = Some t" "state t = SYN_SENT" "iss t = iss_of c" "snd_una t = iss_of c" "snd_nxt t = mask32 (iss_of c + 1)"
    "rcv_wnd t = 65535" "cb_ref t = c_next_ref c" "(lip t, lp t, rip t, rp t) = sid" "c_events c2 = []" "c_tcp c2 = c_tcp c1"
    "c_so_error c2 = c_so_error c" "c_socks c2 = c_socks c1" "c_unicast_ip c2 = c_unicast_ip c" "c_rx_ip_enabled c2 = c_rx_ip_enabled c"
    "ip_route (fst (snd (snd sid))) c2 = (Some mac, nh)" "c_unicast_mac c2 = c_unicast_mac c"
proof -
  let ?cb = "c_next_ref c" and ?ev = "TCPEvent CONNECT (Some (c_next_ref c)) None"
  let ?t0 = "tcpcb_init ?cb (fst sid) (fst (snd sid)) (fst (snd (snd sid))) (snd (snd (snd sid))) ref (s_sock_opt s) (iss_of c) (c_now_ns c)"
  let ?c = "c1\<lparr>c_events := []\<rparr>"
  let ?w = "tcp_fsm_connect (fsm_of ?t0 ?c)"
  have e: "c_events c1 = [?ev]" and t0: "c_tcpcbs ?c ?cb = Some ?t0"
    using assms(2) by (simp_all add: c1_def connect_called_def)
  have ti: "iss ?t0 = iss_of c" "cb_ref ?t0 = ?cb" "(lip ?t0, lp ?t0, rip ?t0, rp ?t0) = sid" "rcv_wnd ?t0 = 65535"
    by (simp_all add: tcpcb_init_def DEFAULT_RCV_WND_def)
  have iss: "seq_num (iss (fsm_of ?t0 ?c))" using ti(1) by (simp add: iss_of_def seq_num_def)
  note w = connect_syn_sent [of "fsm_of ?t0 ?c"] connect_frame [of "fsm_of ?t0 ?c"]
  have s: "syn_sent ?w" by (rule w(1) [OF iss])
  have log: "tx_log ?w = [syn_of c sid]"
    using w(2) ti by (simp add: syn_of_def seg0_def DEFAULT_RCV_WND_def tcpcb_init_def)
  have rt: "ip_route dst ?c = ip_route dst c" for dst
    by (simp add: ip_route_def find_entry_def c1_def connect_called_def)
  then have r: "ip_route (fst (snd (snd sid))) ?c = (Some mac, nh)" using assms(4) by simp
  let ?c2 = "segment_sent mac (syn_of c sid) (core_of ?w ?c)"
  have "handle_event ?ev ?c = Some (Inr (), ?c2)"
    using handle_event_sends [OF _ t0 _ log syn_of_ok [OF assms(3)], of ?ev mac nh] r by (simp add: event_handler_def syn_of_def)
  then have p: "tcp_events_pass c1 = Some (Inr (), ?c2)" using tcp_events_pass_one [OF e] by simp
  show ?thesis
  proof (rule that [OF p, of "tcpcb.truncate ?w"])
    show "c_tx_ring ?c2 = c_tx_ring c @ [ip_frame c mac (seg_dgram (syn_of c sid) (next_ident c1))]"
      by (simp add: segment_sent_def next_ident_def c1_def connect_called_def ip_frame_def)
    show "ip_route (fst (snd (snd sid))) ?c2 = (Some mac, nh)"
      using r by (simp add: route_sent)
  qed (use s ti w(4,9-) in \<open>auto simp: segment_sent_def syn_sent_def c1_def connect_called_def\<close>)
qed

text \<open>The answer of the peer: a SYN-ACK for the segment that \<open>c\<close> sends first on the connection \<open>sid\<close>.\<close>

definition answers :: "core \<Rightarrow> sock_id \<Rightarrow> out_seg \<Rightarrow> bool" where
  "answers c sid r \<longleftrightarrow> out_seg_ok r \<and> os_src r = snd (snd sid) \<and> os_dst r = (fst sid, fst (snd sid)) \<and> os_syn r \<and> os_ack r \<and>
     \<not> os_rst r \<and> \<not> os_fin r \<and> os_data r = [] \<and> os_mss r \<and> os_ack_seq r = mask32 (iss_of c + 1)"

lemma answers_syn_ack:
  assumes "answers c sid r" "seg_received r p"
  shows "syn_ack p" "sg_ack_seq p = mask32 (iss_of c + 1)" "sg_options p = Inr (Some MSS)" "sg_dlen p \<le> 0" "sg_seq p = os_seq r"
  using assms by (auto simp: answers_def seg_received_def syn_ack_def out_seg_ok_def)

text \<open>The event of the answer, for a control block that has sent its SYN.\<close>

lemma answer_event:
  assumes "c_events c = [TCPEvent RX_SEGMENT (Some cb) (Some p)]" "c_tcpcbs c cb = Some t" "state t = SYN_SENT" "iss t = iss_of c0"
    "snd_una t = iss_of c0" "snd_nxt t = mask32 (iss_of c0 + 1)" "rcv_wnd t = 65535" "cb_ref t = cb" "(lip t, lp t, rip t, rp t) = sid"
    "sid_ok sid" "ip_route (fst (snd (snd sid))) c = (Some mac, nh)" "answers c0 sid r" "seg_received r p"
  obtains c' t' ack i where "tcp_events_pass c = Some (Inr (), c')" "c_tcpcbs c' cb = Some t'" "state t' = ESTAB" "remote_mss t' = 1460"
    "c_tx_ring c' = c_tx_ring c @ [ip_frame c mac (seg_dgram ack i)]" "os_ack ack" "\<not> os_syn ack" "os_seq ack = mask32 (iss_of c0 + 1)"
    "os_ack_seq ack = mask32 (os_seq r + 1)" "c_so_error c' = c_so_error c" "c_tcp c' = c_tcp c" "c_socks c' = c_socks c"
proof -
  let ?c = "c\<lparr>c_events := []\<rparr>" and ?ev = "TCPEvent RX_SEGMENT (Some cb) (Some p)"
  let ?w = "fsm_of t ?c"
  note a = answers_syn_ack [OF assms(12,13)]
  have "syn_sent ?w" using assms(3-6) by (simp add: syn_sent_def iss_of_def seq_num_def)
  from syn_sent_established [OF this a(1) _ a(3,4)] obtain w' ack where
    w': "rx p ?w = Inr w'" "state w' = ESTAB" "remote_mss w' = 1460" "tx_log w' = [ack]" "so_error w' = so_error ?w"
      "cb_ref w' = cb_ref ?w" "tcp_tbl w' = tcp_tbl ?w" and
    k: "ack = (seg0 ?w)\<lparr>os_seq := snd_nxt ?w, os_ack_seq := mask32 (sg_seq p + 1), os_ack := True, os_window := rcv_wnd ?w\<rparr>"
    using a(2) assms(6) by (auto simp: MSS_def)
  have dst: "fst (os_dst ack) = fst (snd (snd sid))" using assms(9) k by (auto simp: seg0_def)
  have ok: "out_seg_ok ack"
    using assms(6,7,9,10) k by (auto simp: out_seg_ok_def seg0_def sid_ok_def seg_opts_def tcp_opts_len_def)
  have t: "c_tcpcbs ?c cb = Some t" using assms(2) by simp
  have rt: "ip_route (fst (os_dst ack)) ?c = (Some mac, nh)"
  proof -
    have "ip_route d ?c = ip_route d c" for d by (simp add: ip_route_def find_entry_def)
    then show ?thesis using assms(11) dst by simp
  qed
  let ?c' = "segment_sent mac ack (core_of w' ?c)"
  have "handle_event ?ev ?c = Some (Inr (), ?c')"
    using handle_event_sends [OF _ t _ w'(4) ok rt, of ?ev] w'(1) by (simp add: event_handler_def)
  then have p: "tcp_events_pass c = Some (Inr (), ?c')" using tcp_events_pass_one [OF assms(1)] by simp
  show ?thesis
  proof (rule that [OF p, of "tcpcb.truncate w'"])
    show "c_tx_ring ?c' = c_tx_ring c @ [ip_frame c mac (seg_dgram ack (next_ident (core_of w' ?c)))]"
      by (simp add: segment_sent_def ip_frame_def)
  qed (use w' k a(5) assms(6,8) in \<open>auto simp: segment_sent_def seg0_def\<close>)
qed


definition client_example :: core where
  "client_example = (arp_example 0xC0A80205)\<lparr>c_socks := [0 \<mapsto> sock_init TCPSocket 0], c_next_ref := 1\<rparr>"

definition answer_example :: out_seg where
  "answer_example =
     \<lparr>os_src = (0xC0A80205, 80), os_dst = (0xC0A802C8, 40000), os_seq = 500, os_ack_seq = 1, os_ack = True, os_psh = False,
      os_rst = False, os_syn = True, os_fin = False, os_window = 1000, os_mss = True, os_data = []\<rparr>"

lemma server_address: "ip_init_str ''192.168.2.5'' = Inr \<lparr>ipadd_int = 0xC0A80205, ipadd_str = ''192.168.2.5''\<rparr>"
  by code_simp


end
