(* ===== verification/Core_System.thy ===== *)
theory Core_System
  imports Core_Calls Tcp_Live Sock_Connect
begin

text \<open>
  The core as a transition system: what its threads and the application do to it, in any order. Received
  frames, TCP events and timers are handled one at a time; a call of the application that waits is resumed
  after any number of steps of the others. The type invariant holds in every state that is reached from
  the initial one, which lifts the theorems about a single connection to all connections of the core, and
  the handling of an event of one connection leaves all others alone.
\<close>

section \<open>Runs\<close>

text \<open>
  The clock does not go back. \<open>transmit\<close> is the thread that writes the frames. An exception ends the thread
  it is raised in; a run may go on with it, so that what holds of every run holds a fortiori of the program.
\<close>

inductive core_run :: "core \<Rightarrow> core \<Rightarrow> bool" where
  refl: "core_run c c"
| frame: "core_run a b \<Longrightarrow> handle_packet ef b = Some (r, c) \<Longrightarrow> core_run a c"
| event: "core_run a b \<Longrightarrow> bind_op pop_event handle_event b = Some (r, c) \<Longrightarrow> core_run a c"
| timers: "core_run a b \<Longrightarrow> timer_loop_pass b = Some (r, c) \<Longrightarrow> core_run a c"
| clock: "core_run a b \<Longrightarrow> c_now_ns b \<le> t \<Longrightarrow> core_run a (b\<lparr>c_now_ns := t\<rparr>)"
| transmit: "core_run a b \<Longrightarrow> c_tx_ring b = f # fs \<Longrightarrow> core_run a (b\<lparr>c_tx_ring := fs\<rparr>)"
| socket: "core_run a b \<Longrightarrow> py_socket family ty protocol b = Some (s, c) \<Longrightarrow> core_run a c"
| call: "core_run a b \<Longrightarrow> \<forall>m\<in>set (call_waits cl). \<forall>x. core_run x (m x) \<Longrightarrow>
    sock_method ref cl b = Some (v, c) \<Longrightarrow> core_run a c"
| address: "core_run a b \<Longrightarrow> \<forall>x. core_run x (m x) \<Longrightarrow> acquire_ipaddr ip m b = Some (r, c) \<Longrightarrow> core_run a c"

definition core_reach :: "core \<Rightarrow> bool" where
  "core_reach c \<longleftrightarrow> (\<exists>router network msk mac now rand. core_run (core_init router network msk mac now rand) c)"

section \<open>The type invariant\<close>

lemma core_wf_init: "core_wf (core_init router network msk mac now rand)"
  by (simp add: core_init_def core_wf_parts udp_table_init_def tcp_table_init_def timer_init_def timer_wf_def
      timer_inv_def call_at_def)

lemma core_wf_new_sock:
  assumes "core_wf c" "new_sock k proto c = Some (r, c')"
  shows "core_wf c'"
proof -
  have c': "c' = c\<lparr>c_next_ref := Suc (c_next_ref c), c_socks := (c_socks c)(c_next_ref c \<mapsto> sock_init k proto),
         c_so_error := (c_so_error c)(c_next_ref c := NoErr)\<rparr>"
    using assms(2) by (simp add: new_sock_def)
  have fresh: "c_socks c (c_next_ref c) = None"
    using assms(1) by (cases "c_socks c (c_next_ref c)") (auto simp: core_wf_def socks_wf_def)
  have mono: "sock_is j c' i" if "sock_is j c i" for j i using that fresh by (auto simp: c' sock_is_def)
  have l: "live c' = live c" "connecting c' = connecting c" by (simp_all add: c' live_def connecting_def fun_eq_iff)
  have "\<forall>e\<in>set (c_events c). event_wf c' e"
  proof (rule events_wf_mono)
    show "\<forall>e\<in>set (c_events c). event_wf c e" using core_wfD(6) [OF assms(1)] by blast
    show "\<exists>b'. c_tcpcbs c' i = Some b' \<and> lp b' = lp b \<and> rp b' = rp b" if "c_tcpcbs c i = Some b" for i b
      using that by (simp add: c')
    show "live c' i" if "live c i" for i using that l by simp
  qed
  moreover have "socks_wf c'"
    using assms(1) mono by (auto simp: core_wf_def socks_wf_def c' less_SucI simp del: split_paired_All)
  moreover have "cbs_wf c'"
  proof -
    have "cb_wf c' i b" if "c_tcpcbs c i = Some b" for i b
      using core_wfD(5) [OF assms(1) that] mono by (auto simp: cb_wf_def c' less_SucI)
    then show ?thesis using assms(1) by (simp add: core_wf_def cbs_wf_def c')
  qed
  ultimately show ?thesis
    using assms(1) l by (simp add: core_wf_def conns_wf_def timer_calls_wf_def events_wf_def c')
qed

lemma core_wf_socket: "core_wf c \<Longrightarrow> py_socket family ty protocol c = Some (r, c') \<Longrightarrow> core_wf c'"
  using core_wf_new_sock by (auto simp: py_socket_def split: if_splits)

lemma acquire_ipaddr_kept:
  assumes "\<And>c. wf_kept c (m c)"
  shows "keeps wf_kept (acquire_ipaddr ip m)"
proof -
  have u: "keeps wf_kept (upd (\<lambda>c. c\<lparr>c_arp_wait_prob_list := insert a (c_arp_wait_prob_list c)\<rparr>))"
    "keeps wf_kept (upd (\<lambda>c. c\<lparr>c_unicast_ip := x, c_rx_ip_enabled := True\<rparr>))" for a x
    by (intro wfk.keeps_upd wf_kept_view; simp add: wf_view_def)+
  have "keeps wf_kept (tx_arp own 0 0 a ARP_OP_REQUEST True)" for own a
    unfolding tx_arp_def arp_probe_add_def Let_def if_True
    by (intro wfk.keeps_if wfk.keeps_tx wfk.keeps_tx_ether u)
  then have "keeps wf_kept (send_arp_prob ip)"
    unfolding send_arp_prob_def by (intro wfk.keeps_intros)
  moreover have "keeps wf_kept (wait_arp_prob m)" using assms by (simp add: keeps_def wait_arp_prob_def)
  ultimately show ?thesis
    unfolding acquire_ipaddr_def by (intro wfk.keeps_intros u)
qed

lemma core_wf_run: "core_run a b \<Longrightarrow> core_wf a \<Longrightarrow> core_wf b"
proof (induction rule: core_run.induct)
  case (frame a b ef r c)
  then show ?case using core_wf_handle_packet by blast
next
  case (event a b r c)
  then show ?case using core_wf_event_step by blast
next
  case (timers a b r c)
  then show ?case using core_wf_timer_pass by blast
next
  case (clock a b t)
  then show ?case using core_wf_cong [of "b\<lparr>c_now_ns := t\<rparr>" b] by (simp add: wf_view_def)
next
  case (transmit a b f fs)
  then show ?case using core_wf_cong [of "b\<lparr>c_tx_ring := fs\<rparr>" b] by (simp add: wf_view_def)
next
  case (socket a b family ty protocol s c)
  then show ?case using core_wf_socket by blast
next
  case (call a b cl ref v c)
  then have "\<forall>m\<in>set (call_waits cl). \<forall>x. wf_kept x (m x)" by (simp add: wf_kept_def)
  then show ?case using core_wf_sock_method call by blast
next
  case (address a b m ip r c)
  then show ?case using wfk.keepsD [OF acquire_ipaddr_kept, of m ip b r c] by (simp add: wf_kept_def)
qed

lemma core_wf_reach: "core_reach c \<Longrightarrow> core_wf c"
  using core_wf_run core_wf_init by (auto simp: core_reach_def)


section \<open>Every connection of the core\<close>

text \<open>The invariants of a single connection, for a control block.\<close>

lemma cb_fresh_or_live:
  assumes "core_reach c" "c_tcpcbs c r = Some cb"
  shows "cb_fresh cb \<or> cb_live cb"
  using core_wf_reach [OF assms(1)] assms(2) by (auto simp: core_wf_def conns_wf_def split: if_splits)

lemma live_rto: "conn_reach fits w \<Longrightarrow> 1 \<le> rto w"
  by (induction rule: conn_reach.induct)
    (simp add: tcp_fsm_connect_def activ_open_def init_snd_seq_def Let_def conn_fresh_fields,
      blast intro: rto_step, blast intro: rto_raised)

lemma cb_live_state:
  assumes "cb_live cb"
  shows "\<exists>w. tcpcb.truncate w = cb \<and> rcv_inv w \<and> 1 \<le> rto w"
  using assms reach_rcv_inv live_rto by (auto simp: cb_live_def)

section \<open>Other connections\<close>

text \<open>Sending a segment changes only queues and caches of the layers below and adds timer tasks.\<close>

definition tasks_kept :: "'c timer \<Rightarrow> 'c timer \<Rightarrow> bool" where
  "tasks_kept tm tm' \<longleftrightarrow> set (tm_tasks tm) \<subseteq> set (tm_tasks tm') \<and> tm_counter tm \<le> tm_counter tm' \<and>
     (\<forall>k<tm_counter tm. tm_store tm' k = tm_store tm k)"

definition below_only :: "core \<Rightarrow> core \<Rightarrow> bool" where
  "below_only c c' \<longleftrightarrow> c_tcpcbs c' = c_tcpcbs c \<and> c_tcp c' = c_tcp c \<and> c_udp c' = c_udp c \<and> c_rip c' = c_rip c \<and>
     c_socks c' = c_socks c \<and> c_so_error c' = c_so_error c \<and> c_events c' = c_events c \<and> c_notified c' = c_notified c \<and>
     tasks_kept (c_timer c) (c_timer c')"

lemma tasks_kept_schedule: "tasks_kept tm (snd (schedule_timer now e call tm))"
  by (auto simp: tasks_kept_def schedule_timer_def Let_def)

interpretation txf: output_frame below_only
proof unfold_locales
  show "below_only a c" if "below_only a b" "below_only b c" for a b c
    using that by (auto simp: below_only_def tasks_kept_def)
qed (auto simp: below_only_def tasks_kept_schedule, simp_all add: tasks_kept_def)

lemma send_segments_below: "for_op ss core_tx_tcp c = Some (r, c') \<Longrightarrow> below_only c c'"
  using txf.keepsD [OF txf.keeps_for [OF txf.keeps_out(2)], of ss "\<lambda>s. s"] by simp

text \<open>What the handling of an event of the connection \<open>ref\<close> leaves of the rest of the core.\<close>

definition others_kept :: "nat \<Rightarrow> tcpcb \<Rightarrow> core \<Rightarrow> core \<Rightarrow> bool" where
  "others_kept ref cb c c' \<longleftrightarrow> (\<forall>i. i \<noteq> ref \<longrightarrow> c_tcpcbs c' i = c_tcpcbs c i) \<and>
     (\<forall>sid. sid \<noteq> socket_id cb \<longrightarrow> tcp_sockets (c_tcp c') sid = tcp_sockets (c_tcp c) sid \<and>
        tcp_tcpcbs (c_tcp c') sid = tcp_tcpcbs (c_tcp c) sid) \<and>
     (\<forall>s. s \<noteq> so cb \<longrightarrow> c_so_error c' s = c_so_error c s) \<and>
     c_udp c' = c_udp c \<and> c_rip c' = c_rip c \<and> c_socks c' = c_socks c"

definition other_tasks_kept :: "nat \<Rightarrow> core \<Rightarrow> core \<Rightarrow> bool" where
  "other_tasks_kept ref c c' \<longleftrightarrow> set (tm_tasks (c_timer c)) \<subseteq> set (tm_tasks (c_timer c')) \<and>
     (\<forall>k call. call_at (c_timer c) k = Some call \<longrightarrow> \<not> own_call ref call \<longrightarrow>
        tm_store (c_timer c') k = tm_store (c_timer c) k)"

lemma handled_others:
  assumes "handled c r cb w" "below_only (core_of w c) c'"
  shows "others_kept r cb c c'" "other_tasks_kept r c c'"
    "\<exists>es. c_events c' = c_events c @ es \<and> set es \<subseteq> {TCPEvent SEND (Some r) None}"
proof -
  note h = handledD [OF assms(1)]
  have own: "own (fsm_of cb c) w" using assms(1) by (simp add: handled_def)
  have b: "c_tcpcbs c' = (c_tcpcbs c)(r \<mapsto> tcpcb.truncate w)" "c_tcp c' = tcp_tbl w" "c_so_error c' = so_error w"
    "c_udp c' = c_udp c" "c_rip c' = c_rip c" "c_socks c' = c_socks c" "c_events c' = events w"
    "tasks_kept (timer w) (c_timer c')"
    using assms(2) h(7) by (simp_all add: below_only_def)
  show "\<exists>es. c_events c' = c_events c @ es \<and> set es \<subseteq> {TCPEvent SEND (Some r) None}" using h(12) b(7) by simp
  show "others_kept r cb c c'"
    using b h(5) own by (auto simp: others_kept_def own_def table_own_def table_remove_tcpcb_def tcp_remove_socket_def)
  have "tm_store (c_timer c') k = tm_store (c_timer c) k" if "call_at (c_timer c) k = Some call" "\<not> own_call r call" for k call
  proof -
    have k: "k < tm_counter (c_timer c)"
      using that(1) timer_wf_fresh [OF h(4), of k] by (cases "k < tm_counter (c_timer c)") (auto simp: call_at_def)
    then have "tm_store (timer w) k = tm_store (c_timer c) k" "k < tm_counter (timer w)"
      using that h(3) by (auto simp: timer_own_def)
    then show ?thesis using b(8) by (simp add: tasks_kept_def)
  qed
  moreover have "set (tm_tasks (c_timer c)) \<subseteq> set (tm_tasks (c_timer c'))"
    using h(3) b(8) by (auto simp: timer_own_def tasks_kept_def)
  ultimately show "other_tasks_kept r c c'" by (simp add: other_tasks_kept_def)
qed

lemma event_step_cases:
  assumes "c_events c = ev # q" "bind_op pop_event handle_event c = Some (x, c')"
  shows "handle_event ev (c\<lparr>c_events := q\<rparr>) = Some (x, c')"
  using assms by (simp add: pop_event_def bind_op_def)


section \<open>Acquiring the address\<close>

text \<open>The core of the configuration while \<^verbatim>\<open>_acquire_ipaddr\<close> waits: the probe is queued, and its end is scheduled.\<close>

definition probe_frame :: ether_builder where
  "probe_frame = \<lparr>eb_dst = BROADCAST_MAC, eb_src = 0x001122334455, eb_type = 0x0806,
     eb_payload = EtherArp \<lparr>ab_sha = 0x001122334455, ab_spa = 0, ab_tha = 0, ab_tpa = 0xC0A802C8, ab_op = ARP_OP_REQUEST\<rparr>\<rparr>"

definition probing :: "int \<Rightarrow> (nat \<Rightarrow> int) \<Rightarrow> core" where
  "probing now rand = (core_init 0xC0A80201 0xC0A80200 0xFFFFFF00 0x001122334455 now rand)
     \<lparr>c_arp_wait_prob_list := {0xC0A802C8}, c_tx_ring := [probe_frame],
      c_timer := \<lparr>tm_tasks = [(of_int (now div 1000000) + 3000, 0)], tm_counter = 1,
        tm_store = [0 \<mapsto> timer_task_init now 3 (ProbeDone 0xC0A802C8)]\<rparr>\<rparr>"

lemma send_arp_prob_probing:
  "send_arp_prob ''192.168.2.200'' (core_init 0xC0A80201 0xC0A80200 0xFFFFFF00 0x001122334455 now rand) =
    Some (Inr (), probing now rand)"
proof -
  have "ip_init_str ''192.168.2.200'' = Inr \<lparr>ipadd_int = 0xC0A802C8, ipadd_str = ''192.168.2.200''\<rparr>" by code_simp
  then show ?thesis
    by (simp add: send_arp_prob_def tx_arp_def tx_ether_def tx_ring_enqueue_def ARP_OP_REQUEST_def
        arp_probe_add_def core_schedule_timer_def schedule_timer_def timer_init_def timer_task_init_def execute_at_ms_def
        ARP_REPLY_TIMEOUT_def core_init_def then_op_bind bind_op_def Let_def probing_def probe_frame_def)
qed

text \<open>The timer ends the probe when three seconds have passed, and not before.\<close>

lemma probe_pass:
  "\<exists>tm. timer_loop_pass ((probing now rand)\<lparr>c_now_ns := t\<rparr>) = Some (Inr (),
    (if now div 1000000 + 3000 \<le> t div 1000000
     then (probing now rand)\<lparr>c_now_ns := t, c_timer := tm, c_arp_wait_prob_list := {}, c_notified := [ArpProbCond]\<rparr>
     else (probing now rand)\<lparr>c_now_ns := t, c_timer := tm\<rparr>))"
proof -
  have d: "(of_int (now div 1000000) + 3000 :: rat) \<le> of_int (t div 1000000) \<longleftrightarrow> now div 1000000 + 3000 \<le> t div 1000000"
    by (metis of_int_add of_int_le_iff of_int_numeral)
  show ?thesis
    by (cases "now div 1000000 + 3000 \<le> t div 1000000")
      (simp_all add: timer_loop_pass_def timer_pass_def probing_def core_init_def d then_op_bind bind_op_def
        execute_task_def task_execute_def timer_task_init_def probe_done_def core_notify_def)
qed

text \<open>The core with its address acquired, when nothing but the timer has run.\<close>

definition timer_after :: "int \<Rightarrow> core \<Rightarrow> core" where
  "timer_after d c = (case timer_loop_pass (c\<lparr>c_now_ns := c_now_ns c + d\<rparr>) of Some (r, c') \<Rightarrow> c' | None \<Rightarrow> c)"

lemma timer_after_run: "0 \<le> d \<Longrightarrow> core_run c (timer_after d c)"
  using core_run.timers [OF core_run.clock [OF core_run.refl, of c "c_now_ns c + d"]]
  by (auto simp: timer_after_def intro: core_run.refl split: option.split)

lemma reach_addressed:
  "\<exists>c. core_reach c \<and> c_unicast_ip c = Some 0xC0A802C8 \<and> c_tcp c = tcp_table_init \<and> c_events c = [] \<and> c_next_ref c = 0 \<and>
     c_socks c = Map.empty \<and> c_tcpcbs c = Map.empty"
proof -
  let ?c = "core_init 0xC0A80201 0xC0A80200 0xFFFFFF00 0x001122334455 0 (\<lambda>_. 0)"
  let ?p = "probing 0 (\<lambda>_. 0)"
  have a: "ip_init_str ''192.168.2.200'' = Inr \<lparr>ipadd_int = 0xC0A802C8, ipadd_str = ''192.168.2.200''\<rparr>" by code_simp
  have p: "c_now_ns ?p = 0" "c_notified ?p = []" by (simp_all add: probing_def core_init_def)
  obtain tm where m: "timer_after 3000000000 ?p =
      ?p\<lparr>c_now_ns := 3000000000, c_timer := tm, c_arp_wait_prob_list := {}, c_notified := [ArpProbCond]\<rparr>"
    using probe_pass [of 3000000000 0 "\<lambda>_. 0"] p(1) by (auto simp: timer_after_def)
  let ?d = "(timer_after 3000000000 ?p)\<lparr>c_unicast_ip := Some 0xC0A802C8, c_rx_ip_enabled := True\<rparr>"
  have "notified_since ArpProbCond ?p (timer_after 3000000000 ?p)" using m p(2) by (simp add: notified_since_def)
  then have c: "acquire_ipaddr ''192.168.2.200'' (timer_after 3000000000) ?c = Some (Inr (), ?d)"
    using send_arp_prob_probing [of 0 "\<lambda>_. 0"] m
    by (simp add: acquire_ipaddr_def wait_arp_prob_def then_op_bind bind_op_def a py_in_conflict_ips_def probing_def core_init_def)
  have "core_run ?c ?d"
    using core_run.address [OF core_run.refl _ c] timer_after_run [of 3000000000] by simp
  then have "core_reach ?d" unfolding core_reach_def by blast
  moreover have "c_unicast_ip ?d = Some 0xC0A802C8 \<and> c_tcp ?d = tcp_table_init \<and> c_events ?d = [] \<and> c_next_ref ?d = 0 \<and>
      c_socks ?d = Map.empty \<and> c_tcpcbs ?d = Map.empty"
    unfolding m by (simp add: probing_def core_init_def)
  ultimately show ?thesis by blast
qed

text \<open>A core whose application has called \<^verbatim>\<open>connect\<close>, with the event of the call still queued.\<close>

lemma reach_connecting:
  "\<exists>c cb. core_reach c \<and> c_events c = [TCPEvent CONNECT (Some 1) None] \<and> c_tcpcbs c 1 = Some cb \<and>
     socket_id cb = (0xC0A802C8, 40000, 0xC0A80205, 80) \<and> so cb = 0 \<and>
     tcp_sockets (c_tcp c) (0xC0A802C8, 40000, 0xC0A80205, 80) = Some 0 \<and>
     tcp_tcpcbs (c_tcp c) (0xC0A802C8, 40000, 0xC0A80205, 80) = Some 1"
proof -
  obtain c where c: "core_reach c" "c_unicast_ip c = Some 0xC0A802C8" "c_tcp c = tcp_table_init" "c_events c = []"
    "c_next_ref c = 0" "c_socks c = Map.empty" "c_tcpcbs c = Map.empty"
    using reach_addressed by blast
  let ?c = "c\<lparr>c_next_ref := 1, c_socks := [0 \<mapsto> sock_init TCPSocket 0], c_so_error := (c_so_error c)(0 := NoErr)\<rparr>"
  have s: "py_socket AF_INET SOCK_STREAM 0 c = Some (Inr (Some 0), ?c)"
    using c by (simp add: py_socket_def new_sock_def AF_INET_def SOCK_STREAM_def SOCK_DGRAM_def)
  let ?t = "tcp_add_used_port 40000 (tcp_table_init\<lparr>tcp_ephemeral_ports := EPHEMERAL_PORTS - {40000}\<rparr>)"
  let ?sid = "(0xC0A802C8, 40000, 0xC0A80205, 80) :: sock_id"
  let ?c1 = "connect_called 0 (sock_init TCPSocket 0) ?sid ?t ?c"
  have pick: "pick_ephemeral_tcp_port (\<lambda>S. 40000) (c_tcp ?c) = Inr (40000, ?t)"
    using c by (simp add: pick_ephemeral_tcp_port_def tcp_table_init_def EPHEMERAL_PORTS_def Let_def)
  have "tcp_connect_start (\<lambda>S. 40000) 0 (''192.168.2.5'', 80) ?c = Some (Inr (), ?c1)"
    using tcp_connect_start_connecting [OF _ _ server_address _ pick, of 0 "sock_init TCPSocket 0" "0xC0A802C8" 80] c
    by (simp add: sock_init_def)
  then have m: "sock_method 0 (Connect (\<lambda>S. 40000) (''192.168.2.5'', 80) (\<lambda>c. c)) ?c = Some (Inr PyNone, ?c1)"
    by (simp add: sock_method_def get_sock_def sock_init_def void_def tcpsocket_connect_def tcp_connect_def then_op_bind
        bind_op_def raise_exception_cases connect_called_def)
  have "core_run a ?c1" if "core_run a c" for a
    using core_run.call [OF core_run.socket [OF that s] _ m] core_run.refl by simp
  then have "core_reach ?c1" using c(1) unfolding core_reach_def by blast
  moreover have "c_events ?c1 = [TCPEvent CONNECT (Some 1) None]" "c_tcpcbs ?c1 1 \<noteq> None"
    "tcp_sockets (c_tcp ?c1) ?sid = Some 0" "tcp_tcpcbs (c_tcp ?c1) ?sid = Some 1"
    using c by (simp_all add: connect_called_def register_tcpcb_def tcp_register_socket_def)
  moreover have "socket_id (the (c_tcpcbs ?c1 1)) = ?sid" "so (the (c_tcpcbs ?c1 1)) = 0"
    by (simp_all add: connect_called_def tcpcb_init_def socket_id_def)
  ultimately show ?thesis by (metis option.collapse)
qed


section \<open>Every run of the core\<close>

text \<open>C8. The references between the parts of the core are sound in every state that any run of its threads and of the
  application reaches. An entry of a socket table leads to a socket of that protocol; an entry of the table of
  connections leads to a control block with exactly that pair of addresses and ports; a control block knows its own
  number, its socket is a TCP socket, and its timers are tasks for itself; the timer calls and the queued events for a
  connection lead to a control block. A segment is queued for the control block of its two ports, and only segments
  are ever queued without a control block.\<close>

theorem references_resolve:
  assumes "core_reach c"
  shows "(\<forall>sid r. udp_sockets (c_udp c) sid = Some r \<longrightarrow> sock_is UDPSocket c r) \<and>
    (\<forall>sid r. tcp_sockets (c_tcp c) sid = Some r \<longrightarrow> sock_is TCPSocket c r) \<and>
    (\<forall>sid r. rip_sockets (c_rip c) sid = Some r \<longrightarrow> sock_is RIPSocket c r) \<and>
    (\<forall>sid r. tcp_tcpcbs (c_tcp c) sid = Some r \<longrightarrow> (\<exists>cb. c_tcpcbs c r = Some cb \<and> socket_id cb = sid)) \<and>
    (\<forall>r cb. c_tcpcbs c r = Some cb \<longrightarrow> cb_ref cb = r \<and> sock_is TCPSocket c (so cb) \<and>
       (\<forall>k. rtx_timer cb = Some k \<longrightarrow> call_at (c_timer c) k = Some (ScheduleRtx r)) \<and>
       (\<forall>k. time_wait_timer cb = Some k \<longrightarrow> call_at (c_timer c) k = Some (RemoveTcpcb r))) \<and>
    (\<forall>k r. call_at (c_timer c) k \<in> {Some (ScheduleRtx r), Some (RemoveTcpcb r)} \<longrightarrow> c_tcpcbs c r \<noteq> None) \<and>
    (\<forall>ev\<in>set (c_events c). event_wf c ev)"
proof -
  note wf = core_wf_reach [OF assms]
  have "c_tcpcbs c r \<noteq> None" if "call_at (c_timer c) k \<in> {Some (ScheduleRtx r), Some (RemoveTcpcb r)}" for k r
    using that core_wfD(8) [OF wf, of k _ r] by (auto simp: own_call_def live_def)
  then show ?thesis using core_wfD(1-6) [OF wf] by (simp add: cb_wf_def)
qed

theorem references_resolve_witness:
  "\<exists>c cb. core_reach c \<and> c_events c = [TCPEvent CONNECT (Some 1) None] \<and> c_tcpcbs c 1 = Some cb \<and> cb_ref cb = 1 \<and>
     sock_is TCPSocket c (so cb)"
  using references_resolve reach_connecting by blast

text \<open>C7. Every connection of the core is a connection of theory \<open>Tcp_Conn\<close>: however the events of several connections,
  frames, timers and calls interleave, the control block of each has a history of its own, of which it is the outcome;
  an event whose handling raises is a step of that history, to the state in which the exception left the control block.
  Until its CONNECT event is handled it is as its constructor made it, apart from data that wait and a
  requested close; from then on it is a reachable state of the transition system of a single connection, so that what
  is proved there holds of all connections of the core at all times; for instance, the timeout is at least a second and
  the receive window has between 1 and 65535 bytes.\<close>

theorem connections_refine:
  assumes "core_reach c" "c_tcpcbs c r = Some cb"
  shows "\<exists>w. tcpcb.truncate w = cb \<and>
    (if TCPEvent CONNECT (Some r) None \<in> set (c_events c) then conn_fresh w
     else conn_reach False w \<and> 1 \<le> rto w \<and> (state w \<notin> {LISTEN, SYN_SENT, CLOSED} \<longrightarrow> win_ok w))"
proof -
  have "if connecting c r then cb_fresh cb else cb_live cb"
    using core_wf_reach [OF assms(1)] assms(2) by (simp add: core_wf_def conns_wf_def)
  then show ?thesis
    using live_rto reach_rcv_inv
    by (fastforce simp: connecting_def connect_event_def cb_fresh_def cb_live_def rcv_inv_def split: if_splits)
qed

theorem connections_refine_witness:
  "\<exists>c cb w. core_reach c \<and> c_tcpcbs c 1 = Some cb \<and> tcpcb.truncate w = cb \<and> conn_fresh w \<and>
     socket_id cb = (0xC0A802C8, 40000, 0xC0A80205, 80)"
proof -
  obtain c cb where c: "core_reach c" "c_events c = [TCPEvent CONNECT (Some 1) None]" "c_tcpcbs c 1 = Some cb"
    "socket_id cb = (0xC0A802C8, 40000, 0xC0A80205, 80)" using reach_connecting by blast
  with connections_refine [OF c(1,3)] show ?thesis by auto
qed

text \<open>C14. Connections do not interfere. When the thread that serves TCP takes the next event, whatever it is and whether or
  not its handling raises, all other control blocks stay as they are, and so do the entries of both tables for other
  pairs of addresses and ports, the errors of other sockets, the tables of the other protocols and all sockets; no
  timer task of another connection is cancelled or changed, and nothing is queued but a send event for this connection.\<close>

theorem event_isolated:
  assumes "core_reach c" "c_events c = ev # q" "ev_tcpcb ev = Some r" "c_tcpcbs c r = Some cb"
    "bind_op pop_event handle_event c = Some (x, c')"
  shows "(\<forall>i. i \<noteq> r \<longrightarrow> c_tcpcbs c' i = c_tcpcbs c i) \<and>
    (\<forall>sid. sid \<noteq> socket_id cb \<longrightarrow> tcp_sockets (c_tcp c') sid = tcp_sockets (c_tcp c) sid \<and>
       tcp_tcpcbs (c_tcp c') sid = tcp_tcpcbs (c_tcp c) sid) \<and>
    (\<forall>s. s \<noteq> so cb \<longrightarrow> c_so_error c' s = c_so_error c s) \<and>
    c_udp c' = c_udp c \<and> c_rip c' = c_rip c \<and> c_socks c' = c_socks c \<and>
    (\<forall>k call. call_at (c_timer c) k = Some call \<longrightarrow> call \<notin> {ScheduleRtx r, RemoveTcpcb r} \<longrightarrow>
       tm_store (c_timer c') k = tm_store (c_timer c) k) \<and>
    set (tm_tasks (c_timer c)) \<subseteq> set (tm_tasks (c_timer c')) \<and>
    (\<exists>es. c_events c' = q @ es \<and> set es \<subseteq> {TCPEvent SEND (Some r) None})"
proof (cases "event_handler ev (fsm_of cb (c\<lparr>c_events := q\<rparr>))")
  case None
  then show ?thesis using event_step_cases [OF assms(2,5)] assms(3,4) by (simp add: handle_event_def)
next
  case (Some res)
  note step = event_step_cases [OF assms(2,5)]
  let ?c = "c\<lparr>c_events := q\<rparr>"
  obtain w where w: "handler_leaves ev (fsm_of cb ?c) w" using handler_leaves_some [OF Some] by blast
  have "handled ?c r cb w"
    using core_wf_event_handled(1) [OF core_wf_reach [OF assms(1)] assms(2-4) w] by simp
  moreover have "below_only (core_of w ?c) c'"
    using handle_event_leaves [OF step assms(3) _ w] assms(4) send_segments_below by auto
  ultimately show ?thesis
    using handled_others [of ?c r cb w c'] by (simp add: others_kept_def other_tasks_kept_def own_call_def)
qed

theorem event_isolated_witness:
  "\<exists>c c' x. core_reach c \<and> c_events c \<noteq> [] \<and> bind_op pop_event handle_event c = Some (x, c') \<and>
     c_socks c' = c_socks c \<and> c_tcpcbs c' 0 = c_tcpcbs c 0"
proof -
  obtain c cb where c: "core_reach c" "c_events c = [TCPEvent CONNECT (Some 1) None]" "c_tcpcbs c 1 = Some cb"
    using reach_connecting by blast
  have "total_op (for_op l core_tx_tcp)" for l by (intro total_intros)
  then have "bind_op pop_event handle_event c \<noteq> None"
    using c by (simp add: pop_event_def bind_op_def handle_event_def event_handler_def total_op_def)
  then obtain x c' where s: "bind_op pop_event handle_event c = Some (x, c')" by auto
  from event_isolated [OF c(1,2) _ c(3) s] c s show ?thesis by (metis One_nat_def list.distinct(1) tcp_event.sel(2) zero_neq_one)
qed

end
