(* ===== verification/Stack.thy ===== *)
theory Stack
  imports Core_System
begin

text \<open>
  The running stack: the threads of \<^verbatim>\<open>rx_ring.py\<close>, \<^verbatim>\<open>tx_ring.py\<close>, \<^verbatim>\<open>timer.py\<close> and \<^verbatim>\<open>tcp_events.py\<close> around the core, how
  \<^verbatim>\<open>core.py\<close> starts and stops them, and the configuration. The test of a loop, taking the lock with what follows up to
  a wait or the end of the pass, and the wait are steps of their own, so that a shutdown can come between any two of them.
  The passes of the threads are taken one at a time.
\<close>

section \<open>Threads\<close>

text \<open>The two threads of the receiving ring, that of the sending ring, of the timer and of the TCP events.\<close>

datatype thread = RxLoop | RxDequeue | TxLoop | TimerLoop | EventsLoop

text \<open>
  \<open>Testing\<close>: about to test \<^verbatim>\<open>self._stop_thread\<close>, which all loops do without the lock of their condition. \<open>Entered\<close>: the
  test has found the flag not set, and the thread is about to take the lock. \<open>PassDone\<close>: the timer thread has run its
  tasks and is about to take the lock again for the wait at the end of its loop. \<open>Waiting\<close>: in \<^verbatim>\<open>os.read\<close> or in
  \<^verbatim>\<open>wait\<close>. \<open>Woken\<close>: notified by a shutdown. \<open>Raised\<close>: ended by an exception, which nothing in the source catches.
\<close>

datatype thread_state = NotStarted | Testing | Entered | PassDone | Waiting | Woken | Returned | Raised exn

record stack =
  st_core :: core
  st_rx_queue :: "bytes list"
  st_thread :: "thread \<Rightarrow> thread_state"
  st_stop :: "thread \<Rightarrow> bool"
  st_written :: "bytes list"

definition set_thread :: "thread \<Rightarrow> thread_state \<Rightarrow> stack \<Rightarrow> stack" where
  "set_thread t x s = s\<lparr>st_thread := (st_thread s)(t := x)\<rparr>"

text \<open>Where a thread is after a pass with the result \<open>r\<close>: back at its test or wait, or ended.\<close>

definition pass_end :: "thread \<Rightarrow> thread_state \<Rightarrow> unit result \<Rightarrow> stack \<Rightarrow> stack" where
  "pass_end t x r = set_thread t (case r of Inl e \<Rightarrow> Raised e | Inr _ \<Rightarrow> x)"

text \<open>A pass over the core that does not return is \<open>None\<close>.\<close>

definition core_pass :: "thread \<Rightarrow> thread_state \<Rightarrow> unit op \<Rightarrow> stack \<Rightarrow> stack option" where
  "core_pass t x m s =
     (case m (st_core s) of None \<Rightarrow> None | Some (r, c) \<Rightarrow> Some (pass_end t x r (s\<lparr>st_core := c\<rparr>)))"

section \<open>The receiving ring\<close>

definition RX_READ_SIZE :: nat where "RX_READ_SIZE = 2048"

text \<open>\<^verbatim>\<open>os.read\<close> returns with a frame of the interface, of which it delivers 2048 bytes at most.\<close>

definition rx_loop_read :: "bytes \<Rightarrow> stack \<Rightarrow> stack" where
  "rx_loop_read data s = set_thread RxLoop Testing (s\<lparr>st_rx_queue := st_rx_queue s @ [take RX_READ_SIZE data]\<rparr>)"

text \<open>\<^verbatim>\<open>_dequeue\<close> takes all queued frames as one batch: they are gone from the queue also when handling one raises.\<close>

definition dequeue_pass :: "stack \<Rightarrow> stack option" where
  "dequeue_pass s = core_pass RxDequeue Testing (deque_batch (st_rx_queue s)) (s\<lparr>st_rx_queue := []\<rparr>)"

section \<open>The sending ring\<close>

definition tx_loop_pass :: "stack \<Rightarrow> stack" where
  "tx_loop_pass s =
     (case c_tx_ring (st_core s) of
        [] \<Rightarrow> set_thread TxLoop (Raised IndexError) s
      | packet # q \<Rightarrow>
          let s1 = s\<lparr>st_core := (st_core s)\<lparr>c_tx_ring := q\<rparr>\<rparr>
          in (case tx_frame_bytes packet of
                Inl e \<Rightarrow> set_thread TxLoop (Raised e) s1
              | Inr frame \<Rightarrow> set_thread TxLoop Testing (s1\<lparr>st_written := st_written s1 @ [frame]\<rparr>)))"

section \<open>The loops\<close>

text \<open>
  Whether there is something to do for a thread that would wait otherwise. Every operation that adds to one of the
  queues notifies the thread, and a thread waits only when it has found its queue empty, with the lock held; so it is
  notified if and only if the queue is not empty any more. The timer wakes when a task is scheduled or is due; a pass that finds no task due does nothing.
\<close>

definition has_work :: "thread \<Rightarrow> stack \<Rightarrow> bool" where
  "has_work t s = (case t of
     RxLoop \<Rightarrow> False
   | RxDequeue \<Rightarrow> st_rx_queue s \<noteq> []
   | TxLoop \<Rightarrow> c_tx_ring (st_core s) \<noteq> []
   | TimerLoop \<Rightarrow> tm_tasks (c_timer (st_core s)) \<noteq> []
   | EventsLoop \<Rightarrow> c_events (st_core s) \<noteq> [])"

text \<open>The body of a loop, when the thread does not have to wait. The timer thread has its other wait still before it.\<close>

definition thread_pass :: "thread \<Rightarrow> stack \<Rightarrow> stack option" where
  "thread_pass t s = (case t of
     RxLoop \<Rightarrow> Some s
   | RxDequeue \<Rightarrow> dequeue_pass s
   | TxLoop \<Rightarrow> Some (tx_loop_pass s)
   | TimerLoop \<Rightarrow> core_pass TimerLoop PassDone timer_loop_pass s
   | EventsLoop \<Rightarrow> core_pass EventsLoop Testing tcp_events_pass s)"

text \<open>
  One step. The flag is not looked at again between the test of the loop and the wait: a thread that has passed the test
  and finds nothing to do waits, also when the flag has been set in between.
\<close>

definition thread_step :: "thread \<Rightarrow> stack \<Rightarrow> stack option" where
  "thread_step t s =
     (case st_thread s t of
        Testing \<Rightarrow>
          if st_stop s t then Some (set_thread t Returned s) else Some (set_thread t Entered s)
      | Entered \<Rightarrow>
          if has_work t s then thread_pass t s else Some (set_thread t Waiting s)
      | PassDone \<Rightarrow> Some (set_thread t Waiting s)
      | Waiting \<Rightarrow>
          if \<not> has_work t s then Some s
          else if t = TimerLoop then Some (set_thread t Testing s)
          else thread_pass t s
      | Woken \<Rightarrow> if t = TimerLoop then Some (set_thread t Testing s) else thread_pass t s
      | _ \<Rightarrow> Some s)"

section \<open>Starting and stopping\<close>

text \<open>
  The two rings only set their flag; the timer and the TCP events notify their condition as well. \<^verbatim>\<open>notify_all\<close> wakes a
  thread that waits and is lost on one that is about to.
\<close>

definition ring_shutdown :: "thread list \<Rightarrow> stack \<Rightarrow> stack" where
  "ring_shutdown ts s = s\<lparr>st_stop := (\<lambda>t. t \<in> set ts \<or> st_stop s t)\<rparr>"

definition notify_shutdown :: "thread \<Rightarrow> stack \<Rightarrow> stack" where
  "notify_shutdown t s =
     (let s1 = ring_shutdown [t] s
      in if st_thread s1 t = Waiting then set_thread t Woken s1 else s1)"

definition stop_stack :: "stack \<Rightarrow> stack" where
  "stop_stack s =
     notify_shutdown EventsLoop (notify_shutdown TimerLoop (ring_shutdown [RxLoop, RxDequeue] (ring_shutdown [TxLoop] s)))"

definition initialize_stack_components :: "stack \<Rightarrow> stack" where
  "initialize_stack_components s =
     s\<lparr>st_core := (st_core s)\<lparr>c_tx_ring := [], c_timer := timer_init, c_events := []\<rparr>,
       st_rx_queue := [], st_stop := (\<lambda>_. False)\<rparr>"

definition start_threads :: "stack \<Rightarrow> stack" where
  "start_threads s =
     set_thread EventsLoop Testing (set_thread TimerLoop Testing
       (set_thread RxDequeue Testing (set_thread RxLoop Testing (set_thread TxLoop Testing s))))"

text \<open>
  \<open>meanwhile\<close> is what the threads do while \<^verbatim>\<open>_acquire_ipaddr\<close> is in \<^verbatim>\<open>arp_prob_cond.wait()\<close>. Where it does not
  notify the condition the start has not returned: \<open>None\<close>.
\<close>

definition start_stack :: "string \<Rightarrow> (stack \<Rightarrow> stack) \<Rightarrow> stack \<Rightarrow> (unit result \<times> stack) option" where
  "start_stack ipaddr meanwhile s =
     (let s1 = start_threads (initialize_stack_components s)
      in case send_arp_prob ipaddr (st_core s1) of
           None \<Rightarrow> None
         | Some (Inl e, c) \<Rightarrow> Some (Inl e, s1\<lparr>st_core := c\<rparr>)
         | Some (Inr _, c) \<Rightarrow>
             (let s2 = meanwhile (s1\<lparr>st_core := c\<rparr>)
              in if \<not> notified_since ArpProbCond c (st_core s2) then None
                 else if py_in_conflict_ips ipaddr (st_core s2) then Some (Inl SystemExit, stop_stack s2)
                 else (case ip_init_str ipaddr of
                         Inl e \<Rightarrow> Some (Inl e, s2)
                       | Inr a \<Rightarrow> Some (Inr (), s2\<lparr>st_core := (st_core s2)\<lparr>c_unicast_ip := Some (ipadd_int a),
                                     c_rx_ip_enabled := True\<rparr>\<rparr>))))"

section \<open>The configuration\<close>

definition MAC_ADDRESS :: string where "MAC_ADDRESS = ''00:11:22:33:44:55''"
definition NETWORK :: string where "NETWORK = ''192.168.2.0''"
definition IP_ADDRESS :: string where "IP_ADDRESS = ''192.168.2.200''"
definition IP_BROADCAST_ADDRESS :: string where "IP_BROADCAST_ADDRESS = ''192.168.2.255''"
definition ROUTER :: string where "ROUTER = ''192.168.2.1''"
definition MASK :: string where "MASK = ''255.255.255.0''"

text \<open>\<^verbatim>\<open>Core()\<close>, which \<^verbatim>\<open>lib/stack.py\<close> calls when it is imported; \<^verbatim>\<open>IP_STATIC\<close> is true.\<close>

definition core_configured :: "int \<Rightarrow> (nat \<Rightarrow> int) \<Rightarrow> core result" where
  "core_configured now rand =
     bind_r (ip_init_str IP_BROADCAST_ADDRESS) (\<lambda>_.
     bind_r (ip_init_str ROUTER) (\<lambda>router.
     bind_r (ip_init_str NETWORK) (\<lambda>network.
     bind_r (ip_init_str MASK) (\<lambda>msk.
     bind_r (mac_init_str MAC_ADDRESS) (\<lambda>mac.
       Inr (core_init (ipadd_int router) (ipadd_int network) (ipadd_int msk) (macadd_int mac) now rand))))))"

definition stack_init :: "core \<Rightarrow> stack" where
  "stack_init c = \<lparr>st_core = c, st_rx_queue = [], st_thread = (\<lambda>_. NotStarted), st_stop = (\<lambda>_. False), st_written = []\<rparr>"

end
