(* ===== verification/Stack_Props.thy ===== *)
theory Stack_Props
  imports Stack Arp_Props
begin

text \<open>
  Runs of the stack, with the frames that are read from the interface. Every run is a run of the core, so that the
  invariants of theory \<open>Core_System\<close> hold of the running stack; what is sent is written in the order in which it
  was queued; an exception in the receiving thread ends reception for ever; and what starting and stopping achieve.
\<close>

section \<open>Runs\<close>

text \<open>A call of the application that waits is cut at its waits: the other threads run before and after it.\<close>

inductive stack_run :: "stack \<Rightarrow> bytes list \<Rightarrow> stack \<Rightarrow> bool" where
  refl: "stack_run s [] s"
| thread: "stack_run a fs s \<Longrightarrow> thread_step t s = Some s' \<Longrightarrow> stack_run a fs s'"
| frame: "stack_run a fs s \<Longrightarrow> st_thread s RxLoop = Waiting \<Longrightarrow> stack_run a (fs @ [f]) (rx_loop_read f s)"
| clock: "stack_run a fs s \<Longrightarrow> c_now_ns (st_core s) \<le> t \<Longrightarrow> stack_run a fs (s\<lparr>st_core := (st_core s)\<lparr>c_now_ns := t\<rparr>\<rparr>)"
| socket: "stack_run a fs s \<Longrightarrow> py_socket family ty protocol (st_core s) = Some (x, c) \<Longrightarrow>
    stack_run a fs (s\<lparr>st_core := c\<rparr>)"
| call: "stack_run a fs s \<Longrightarrow> \<forall>m\<in>set (call_waits cl). m = (\<lambda>c. c) \<Longrightarrow> sock_method ref cl (st_core s) = Some (v, c) \<Longrightarrow>
    stack_run a fs (s\<lparr>st_core := c\<rparr>)"
| stop: "stack_run a fs s \<Longrightarrow> stack_run a fs (stop_stack s)"

lemma stop_stack_fields [simp]:
  "st_core (stop_stack s) = st_core s" "st_rx_queue (stop_stack s) = st_rx_queue s" "st_written (stop_stack s) = st_written s"
  "st_thread (stop_stack s) RxDequeue = st_thread s RxDequeue" "st_thread (stop_stack s) RxLoop = st_thread s RxLoop"
  "st_thread (stop_stack s) TxLoop = st_thread s TxLoop" "st_stop (stop_stack s) t"
  by (simp_all add: stop_stack_def notify_shutdown_def ring_shutdown_def set_thread_def Let_def) (cases t; simp)

lemma set_thread_fields [simp]:
  "st_core (set_thread t x s) = st_core s" "st_rx_queue (set_thread t x s) = st_rx_queue s"
  "st_written (set_thread t x s) = st_written s" "st_thread (set_thread t x s) = (st_thread s)(t := x)"
  "st_stop (set_thread t x s) = st_stop s"
  by (simp_all add: set_thread_def)

lemma core_pass_Some:
  assumes "core_pass t x m s = Some s'"
  obtains r where "m (st_core s) = Some (r, st_core s')" "st_rx_queue s' = st_rx_queue s" "st_written s' = st_written s"
    "st_thread s' = (st_thread s)(t := (case r of Inl e \<Rightarrow> Raised e | Inr _ \<Rightarrow> x))" "st_stop s' = st_stop s"
  using assms by (auto simp: core_pass_def pass_end_def split: option.splits)

fun running :: "thread_state \<Rightarrow> bool" where
  "running NotStarted \<longleftrightarrow> False"
| "running Returned \<longleftrightarrow> False"
| "running (Raised e) \<longleftrightarrow> False"
| "running _ \<longleftrightarrow> True"

text \<open>What a step of a thread does: it changes where the thread is, or it is a pass.\<close>

lemma thread_step_ends:
  assumes "thread_step t s = Some s'"
  shows "s' = s \<or> running (st_thread s t) \<and>
    (thread_pass t s = Some s' \<or> (\<exists>x. s' = set_thread t x s \<and> x \<in> {Testing, Entered, Waiting, Returned}))"
  using assms by (cases "st_thread s t") (auto simp: thread_step_def split: if_splits)

lemma thread_step_cases [consumes 1, case_names same moved pass]:
  assumes "thread_step t s = Some s'"
  obtains "s' = s" | x where "s' = set_thread t x s" "x \<in> {Testing, Entered, Waiting, Returned}" "running (st_thread s t)"
    | "thread_pass t s = Some s'" "running (st_thread s t)"
  using thread_step_ends [OF assms] by blast

section \<open>Runs of the core\<close>

lemma core_run_trans: "core_run b c \<Longrightarrow> core_run a b \<Longrightarrow> core_run a c"
  by (induction rule: core_run.induct) (blast intro: core_run.intros)+

lemma handle_packets_run: "for_op b handle_packet c = Some (r, c') \<Longrightarrow> core_run a c \<Longrightarrow> core_run a c'"
proof (induction b arbitrary: c)
  case (Cons f b)
  then show ?case
    using bind_op_Some [of "handle_packet f" "\<lambda>_. for_op b handle_packet" c r c'] core_run.frame [OF Cons.prems(2)]
    by (fastforce simp: then_op_def)
qed (simp add: core_run.refl)

lemma handle_events_run: "handle_events n c = Some (r, c') \<Longrightarrow> core_run a c \<Longrightarrow> core_run a c'"
proof (induction n arbitrary: c)
  case (Suc n)
  then show ?case
    using bind_op_Some [of "bind_op pop_event handle_event" "\<lambda>_. handle_events n" c r c'] core_run.event [OF Suc.prems(2)]
    by (fastforce simp: then_op_def)
qed (simp add: core_run.refl)

lemma thread_pass_run:
  assumes "thread_pass t s = Some s'" "core_run a (st_core s)"
  shows "core_run a (st_core s')"
proof (cases t)
  case RxLoop
  then show ?thesis using assms by (simp add: thread_pass_def)
next
  case RxDequeue
  then show ?thesis
    using assms by (auto simp: thread_pass_def dequeue_pass_def deque_batch_def elim!: core_pass_Some intro: handle_packets_run)
next
  case TxLoop
  then show ?thesis
    using assms by (auto simp: thread_pass_def tx_loop_pass_def Let_def intro: core_run.transmit split: list.splits sum.splits)
next
  case TimerLoop
  then show ?thesis using assms by (auto simp: thread_pass_def elim!: core_pass_Some intro: core_run.timers)
next
  case EventsLoop
  then show ?thesis
    using assms by (auto simp: thread_pass_def tcp_events_pass_def elim!: core_pass_Some intro: handle_events_run)
qed

lemma stack_run_core: "stack_run a fs s \<Longrightarrow> core_run (st_core a) (st_core s)"
proof (induction rule: stack_run.induct)
  case (thread a fs s t s')
  from thread.hyps(2) show ?case
    by (cases rule: thread_step_cases) (use thread.IH thread_pass_run in \<open>auto\<close>)
next
  case (call a fs s cl ref v c)
  then have "\<forall>m\<in>set (call_waits cl). \<forall>x. core_run x (m x)" using core_run.refl by auto
  then show ?case using core_run.call call by simp
qed (auto intro: core_run.intros simp: rx_loop_read_def)


section \<open>Reception\<close>

lemma thread_pass_rx:
  assumes "thread_pass t s = Some s'" "t \<noteq> RxDequeue"
  shows "st_rx_queue s' = st_rx_queue s" "st_thread s' RxDequeue = st_thread s RxDequeue"
  using assms
  by (cases t; auto simp: thread_pass_def tx_loop_pass_def Let_def elim!: core_pass_Some split: list.splits sum.splits)+

lemma raised_for_ever:
  assumes "stack_run a fs s" "st_thread a RxDequeue = Raised e"
  shows "st_thread s RxDequeue = Raised e \<and> st_rx_queue s = st_rx_queue a @ map (take RX_READ_SIZE) fs"
  using assms
proof (induction rule: stack_run.induct)
  case (thread a fs s t s')
  then have IH: "st_thread s RxDequeue = Raised e" "st_rx_queue s = st_rx_queue a @ map (take RX_READ_SIZE) fs" by simp_all
  show ?case
  proof (cases "t = RxDequeue")
    case True
    then show ?thesis using thread.hyps(2) IH by (simp add: thread_step_def)
  next
    case False
    from thread.hyps(2) show ?thesis
      by (cases rule: thread_step_cases) (use False IH thread_pass_rx in \<open>auto\<close>)
  qed
qed (auto simp: rx_loop_read_def)

lemma deque_batch_raise:
  assumes "deque_batch pre c = Some (Inr (), c1)" "handle_packet f c1 = Some (Inl e, c2)"
  shows "deque_batch (pre @ f # post) c = Some (Inl e, c2)"
  using assms unfolding deque_batch_def
  by (induction pre arbitrary: c) (auto simp: then_op_def bind_op_def split: option.splits sum.splits)

section \<open>Transmission\<close>

definition ring_grows :: "core \<Rightarrow> core \<Rightarrow> bool" where
  "ring_grows c c' \<longleftrightarrow> (\<exists>fs. c_tx_ring c' = c_tx_ring c @ fs)"

interpretation rg: packet_frame ring_grows
  by unfold_locales (auto simp: ring_grows_def)

lemma ring_same: "c_tx_ring c' = c_tx_ring c \<Longrightarrow> ring_grows c c'"
  by (simp add: ring_grows_def)

lemma ring_event: "keeps ring_grows (handle_event ev)"
proof -
  have "ring_grows c c'" if h: "handle_event ev c = Some (r, c')" for c r c'
  proof (cases "\<exists>w r'. for_op (tx_log w) core_tx_tcp (core_of w c) = Some (r', c')")
    case True
    then show ?thesis
      using rg.keepsD [OF rg.keeps_for [OF rg.keeps_out(2)], of _ "\<lambda>s. s"] by (fastforce simp: ring_grows_def)
  next
    case False
    then show ?thesis
      using h by (auto simp: handle_event_def then_op_bind bind_op_def intro: rg.R_refl split: option.splits sum.splits)
  qed
  then show ?thesis by (simp add: keeps_def)
qed

lemma ring_events: "keeps ring_grows tcp_events_pass"
proof -
  have "keeps ring_grows pop_event" by (auto simp: keeps_def pop_event_def ring_grows_def split: list.splits)
  then have "keeps ring_grows (handle_events n)" for n
    by (induction n) (auto intro!: rg.keeps_intros ring_event)
  then show ?thesis unfolding tcp_events_pass_def by (intro rg.keeps_intros)
qed

lemma ring_timers: "keeps ring_grows timer_loop_pass"
proof -
  have "keeps ring_grows (run_call call)" for call
    by (cases call)
      (auto intro!: rg.keeps_core rg.keeps_out rg.keeps_upd ring_same split: option.splits
        simp: core_remove_tcpcb_def flush_entry_def probe_done_def arp_wait_remove_def reass_timer_exceeded_def
          icmp_defragment_exceeded_def)
  then have "keeps ring_grows (execute_task k)" for k
    unfolding execute_task_def by (auto intro!: rg.keeps_intros split: option.split)
  then show ?thesis
    unfolding timer_loop_pass_def by (auto intro!: rg.keeps_intros rg.keeps_upd ring_same split: prod.split)
qed


named_theorems ring_intros \<open>operations that add to the ring at most\<close>

lemma ring_upd [ring_intros]: "(\<And>c. c_tx_ring (f c) = c_tx_ring c) \<Longrightarrow> keeps ring_grows (upd f)"
  by (intro rg.keeps_upd ring_same) simp

lemma ring_cases [ring_intros]:
  "(\<And>e. keeps ring_grows (f e)) \<Longrightarrow> (\<And>x. keeps ring_grows (g x)) \<Longrightarrow> keeps ring_grows (case_sum f g r)"
  "keeps ring_grows m \<Longrightarrow> (\<And>y. keeps ring_grows (h y)) \<Longrightarrow> keeps ring_grows (case_option m h x)"
  "(\<And>y z. keeps ring_grows (k y z)) \<Longrightarrow> keeps ring_grows (case_prod k p)"
  "keeps ring_grows n \<Longrightarrow> (\<And>y ys. keeps ring_grows (l y ys)) \<Longrightarrow> keeps ring_grows (case_list n l zs)"
  by (simp_all split: sum.split option.split prod.split list.split)

lemmas ring_core = rg.keeps_intros rg.keeps_out rg.keeps_tx_primitives(1)

lemma ring_errors [ring_intros]:
  "keeps ring_grows (upd_sock ref g)" "keeps ring_grows (set_error ref e)" "keeps ring_grows (fail ref e)"
  "keeps ring_grows (raise_exception ref)" "keeps ring_grows (get_sock ref)" "keeps ring_grows (check_address ref a)"
  unfolding upd_sock_def set_error_def fail_def raise_exception_def check_address_def get_sock_def
  by (intro ring_core ring_intros; simp)+

lemma ring_sock_ops [ring_intros]:
  "keeps ring_grows own_ip" "keeps ring_grows (set_sock_id ref)" "keeps ring_grows (set_rip_id ref)"
  "keeps ring_grows (get_tcpcb ref)" "keeps ring_grows (get_cb cb)" "keeps ring_grows (upd_cb cb h)"
  "keeps ring_grows (schedule_core_event ty cb)" "keeps ring_grows (new_tcpcb ref s)"
  "keeps ring_grows (settimeout ref t)" "keeps ring_grows (setsockopt ref l n v)"
  unfolding own_ip_def set_sock_id_def set_rip_id_def get_tcpcb_def get_cb_def upd_cb_def schedule_core_event_def
    new_tcpcb_def settimeout_def setsockopt_def
  by (intro ring_core ring_intros; simp)+

lemma ring_dgram_calls [ring_intros]:
  "keeps ring_grows (udp_bind ref a)" "keeps ring_grows (udp_connect pick ref a)" "keeps ring_grows (udp_close ref)"
  "keeps ring_grows (udp_send ref data)" "keeps ring_grows (raw_bind ref a)" "keeps ring_grows (raw_connect ref a)"
  "keeps ring_grows (raw_close ref)" "keeps ring_grows (raw_send ref data)" "keeps ring_grows (dgram_recv ref n got (\<lambda>c. c))"
  unfolding udp_bind_def udp_connect_def udp_close_def udp_send_def raw_bind_def raw_connect_def raw_close_def raw_send_def
    dgram_recv_def Let_def
  by (intro ring_core ring_intros; simp)+


lemma ring_enqueue [ring_intros]: "keeps ring_grows (enqueue_snd_buf cb data)"
  unfolding enqueue_snd_buf_def Let_def by (intro ring_core ring_intros; simp)

lemma ring_send_loop [ring_intros]:
  "\<forall>m\<in>set waits. m = (\<lambda>c. c) \<Longrightarrow> keeps ring_grows (tcp_send_loop ref cb mv dlen waits)"
proof (induction waits arbitrary: dlen)
  case Nil
  have "keeps ring_grows (\<lambda>c. None)" by (simp add: keeps_def)
  then show ?case by (subst tcp_send_loop.simps, unfold list.case) (intro ring_core ring_intros; simp)
next
  case (Cons m ms)
  then have m: "m = (\<lambda>c. c)" and IH: "keeps ring_grows (tcp_send_loop ref cb mv d ms)" for d by simp_all
  show ?case
    by (subst tcp_send_loop.simps, unfold list.case m) (intro ring_core ring_intros IH; simp)
qed

lemma ring_tcp_calls [ring_intros]:
  "keeps ring_grows (tcp_bind ref a)" "keeps ring_grows (tcp_connect_start pick ref a)"
  "keeps ring_grows (tcp_connect pick ref a (\<lambda>c. c))" "keeps ring_grows (tcp_recv ref n got (\<lambda>c. c))"
  "keeps ring_grows (tcp_close ref)" "keeps ring_grows (tcp_shutdown ref)"
proof -
  show s: "keeps ring_grows (tcp_connect_start pick ref a)"
    unfolding tcp_connect_start_def by (intro ring_core ring_intros; simp)
  show "keeps ring_grows (tcp_connect pick ref a (\<lambda>c. c))"
    unfolding tcp_connect_def by (intro ring_core ring_intros s; simp)
qed (unfold tcp_bind_def tcp_recv_def tcp_close_def tcp_shutdown_def Let_def, (intro ring_core ring_intros; simp)+)

lemma ring_tcp_send [ring_intros]: "\<forall>m\<in>set waits. m = (\<lambda>c. c) \<Longrightarrow> keeps ring_grows (tcp_send ref data waits)"
  unfolding tcp_send_def by (intro ring_core ring_intros; simp)

lemma ring_call:
  assumes "\<forall>m\<in>set (call_waits cl). m = (\<lambda>c. c)"
  shows "keeps ring_grows (sock_method ref cl)"
proof -
  have "keeps ring_grows (udp_method ref cl)"
    using assms
    by (cases cl) (auto simp: void_def sent_def received_def udpsocket_bind_def udpsocket_listen_def udpsocket_connect_def
        udpsocket_close_def udpsocket_send_def udpsocket_recv_def udpsocket_shutdown_def udp_recv_def
        intro!: ring_core ring_intros)
  moreover have "keeps ring_grows (tcp_method ref cl)"
    using assms
    by (cases cl) (auto simp: void_def sent_def received_def tcpsocket_bind_def tcpsocket_listen_def tcpsocket_connect_def
        tcpsocket_close_def tcpsocket_send_def socket_recv_def tcpsocket_shutdown_def
        intro!: ring_core ring_intros)
  moreover have "keeps ring_grows (rip_method ref cl)"
    using assms
    by (cases cl) (auto simp: void_def sent_def received_def ripsocket_bind_def ripsocket_listen_def ripsocket_connect_def
        ripsocket_close_def ripsocket_send_def ripsocket_recv_def ripsocket_shutdown_def raw_recv_def
        intro!: ring_core ring_intros)
  ultimately show ?thesis
    unfolding sock_method_def by (auto intro!: ring_core ring_intros split: sock_kind.split)
qed


text \<open>What has been taken from the ring is written in order; an exception in between ends the thread.\<close>

definition written_from :: "stack \<Rightarrow> ether_builder list \<Rightarrow> stack \<Rightarrow> bool" where
  "written_from a taken s \<longleftrightarrow>
     (\<exists>bs. st_written s = st_written a @ bs \<and>
       (map tx_frame_bytes taken = map Inr bs \<or>
        (\<exists>e. st_thread s TxLoop = Raised e \<and> map tx_frame_bytes taken = map Inr bs @ [Inl e])))"

definition tx_order :: "stack \<Rightarrow> stack \<Rightarrow> bool" where
  "tx_order a s \<longleftrightarrow> (\<exists>taken new. c_tx_ring (st_core a) @ new = taken @ c_tx_ring (st_core s) \<and> written_from a taken s)"

lemma tx_order_refl: "tx_order s s"
  unfolding tx_order_def written_from_def by (rule exI [of _ "[]"]) auto

lemma tx_order_core:
  assumes "tx_order a s" "ring_grows (st_core s) (st_core s')" "st_written s' = st_written s" "st_thread s' TxLoop = st_thread s TxLoop"
  shows "tx_order a s'"
proof -
  obtain taken new fs where t: "c_tx_ring (st_core a) @ new = taken @ c_tx_ring (st_core s)" "written_from a taken s"
    "c_tx_ring (st_core s') = c_tx_ring (st_core s) @ fs"
    using assms(1,2) unfolding tx_order_def ring_grows_def by blast
  then have "c_tx_ring (st_core a) @ (new @ fs) = taken @ c_tx_ring (st_core s')" by (metis append_assoc)
  moreover have "written_from a taken s'" using t(2) assms(3,4) by (simp add: written_from_def)
  ultimately show ?thesis unfolding tx_order_def by blast
qed

lemma tx_order_running:
  assumes "written_from a taken s" "running (st_thread s TxLoop)"
  obtains bs where "st_written s = st_written a @ bs" "map tx_frame_bytes taken = map Inr bs"
  using assms by (auto simp: written_from_def)

lemma tx_order_pass:
  assumes "tx_order a s" "running (st_thread s TxLoop)" "c_tx_ring (st_core s) \<noteq> []"
  shows "tx_order a (tx_loop_pass s)"
proof -
  obtain taken new where t: "c_tx_ring (st_core a) @ new = taken @ c_tx_ring (st_core s)" "written_from a taken s"
    using assms(1) unfolding tx_order_def by blast
  obtain bs where bs: "st_written s = st_written a @ bs" "map tx_frame_bytes taken = map Inr bs"
    using tx_order_running [OF t(2) assms(2)] .
  obtain f q where q: "c_tx_ring (st_core s) = f # q" using assms(3) by (cases "c_tx_ring (st_core s)") auto
  have "written_from a (taken @ [f]) (tx_loop_pass s)"
  proof (cases "tx_frame_bytes f")
    case (Inl e)
    then show ?thesis using bs by (auto simp: written_from_def tx_loop_pass_def q Let_def)
  next
    case (Inr b)
    then show ?thesis using bs unfolding written_from_def
      by (intro exI [of _ "bs @ [b]"]) (simp add: tx_loop_pass_def q Let_def)
  qed
  moreover have "c_tx_ring (st_core a) @ new = (taken @ [f]) @ c_tx_ring (st_core (tx_loop_pass s))"
    using t(1) q by (simp add: tx_loop_pass_def Let_def split: sum.split)
  ultimately show ?thesis unfolding tx_order_def by blast
qed

lemma thread_pass_ring:
  assumes "thread_pass t s = Some s'" "t \<noteq> TxLoop"
  shows "ring_grows (st_core s) (st_core s')" "st_written s' = st_written s" "st_thread s' TxLoop = st_thread s TxLoop"
  using assms rg.keepsD [OF ring_timers] rg.keepsD [OF ring_events] rg.deque_batch_R rg.R_refl
  by (cases t; fastforce simp: thread_pass_def dequeue_pass_def elim!: core_pass_Some)+


lemma tx_order_moved:
  assumes "tx_order a s" "running (st_thread s TxLoop)"
  shows "tx_order a (set_thread TxLoop x s)"
proof -
  obtain taken new where t: "c_tx_ring (st_core a) @ new = taken @ c_tx_ring (st_core s)" "written_from a taken s"
    using assms(1) unfolding tx_order_def by blast
  then have "written_from a taken (set_thread TxLoop x s)"
    using tx_order_running [OF t(2) assms(2)] by (auto simp: written_from_def)
  then show ?thesis using t(1) unfolding tx_order_def by auto
qed

lemma tx_order_step:
  assumes "tx_order a s" "thread_step t s = Some s'"
  shows "tx_order a s'"
  using assms(2)
proof (cases rule: thread_step_cases)
  case same
  then show ?thesis using assms(1) by simp
next
  case (moved x)
  then show ?thesis
    using assms(1) tx_order_moved tx_order_core [OF assms(1), of s'] by (cases "t = TxLoop") (auto simp: ring_same)
next
  case pass
  show ?thesis
  proof (cases "t = TxLoop")
    case True
    then show ?thesis
      using pass assms(1) tx_order_pass [OF assms(1)] tx_order_moved [OF assms(1)]
      by (cases "c_tx_ring (st_core s)") (auto simp: thread_pass_def tx_loop_pass_def)
  next
    case False
    then show ?thesis using thread_pass_ring [OF pass(1)] tx_order_core [OF assms(1)] by blast
  qed
qed

lemma stack_run_tx_order: "stack_run a fs s \<Longrightarrow> tx_order a s"
proof (induction rule: stack_run.induct)
  case (socket a fs s family ty protocol x c)
  have "keeps ring_grows (py_socket family ty protocol)"
    unfolding py_socket_def new_sock_def by (auto intro!: rg.keeps_intros simp: keeps_def ring_grows_def)
  then show ?case using rg.keepsD socket by (intro tx_order_core [OF socket.IH]) auto
next
  case (call a fs s cl ref v c)
  then show ?case using rg.keepsD [OF ring_call] by (intro tx_order_core [OF call.IH]) auto
qed (rule tx_order_refl, erule (1) tx_order_step, (erule tx_order_core; simp add: ring_same rx_loop_read_def)+)

section \<open>The running stack\<close>

text \<open>C16. Frames are written to the interface in the order in which they were queued, each exactly once and each as the
  builders make it, whatever the other threads and the application do meanwhile: what is written during a run are the
  bytes of the first frames of the ring and of those added to it, and the rest is still in the ring. Only a frame whose
  building raises is lost, and with it the sending thread. The payload of a TCP frame is the one it was queued with.\<close>

theorem frames_written_in_order:
  assumes "stack_run a fs s"
  shows "\<exists>taken new bs. c_tx_ring (st_core a) @ new = taken @ c_tx_ring (st_core s) \<and> st_written s = st_written a @ bs \<and>
    (map tx_frame_bytes taken = map Inr bs \<or>
     (\<exists>e. st_thread s TxLoop = Raised e \<and> map tx_frame_bytes taken = map Inr bs @ [Inl e]))"
  using stack_run_tx_order [OF assms] unfolding tx_order_def written_from_def by blast

theorem frames_written_in_order_witness:
  "\<exists>s b. stack_run ((start_threads (stack_init core_example))\<lparr>st_core := core_example\<lparr>c_tx_ring := [echo_frame]\<rparr>\<rparr>) [] s \<and>
     tx_frame_bytes echo_frame = Inr b \<and> st_written s = [b]"
proof -
  let ?s = "(start_threads (stack_init core_example))\<lparr>st_core := core_example\<lparr>c_tx_ring := [echo_frame]\<rparr>\<rparr>"
  let ?t = "tx_loop_pass ?s"
  obtain b where b: "tx_frame_bytes echo_frame = Inr b" using tx_frame_bytes_eq [OF echo_frame_ok(2)] by blast
  have t: "c_tx_ring (st_core ?t) = []" "st_thread ?t TxLoop = Testing" "st_written ?t = [b]"
    by (simp_all add: tx_loop_pass_def b start_threads_def stack_init_def)
  have s: "c_tx_ring (st_core ?s) = [echo_frame]" "st_written ?s = []"
    by (simp_all add: start_threads_def set_thread_def stack_init_def)
  have "thread_step TxLoop ?s = Some (set_thread TxLoop Entered ?s)"
    by (simp add: thread_step_def start_threads_def stack_init_def set_thread_def)
  moreover have "thread_step TxLoop (set_thread TxLoop Entered ?s) = Some ?t"
    by (simp add: thread_step_def start_threads_def stack_init_def set_thread_def has_work_def thread_pass_def
        tx_loop_pass_def b)
  ultimately have run: "stack_run ?s [] ?t" using stack_run.thread [OF stack_run.thread [OF stack_run.refl]] by blast
  obtain taken new bs where w: "[echo_frame] @ new = taken" "st_written ?t = bs" "map tx_frame_bytes taken = map Inr bs"
    using frames_written_in_order [OF run] s t by auto
  show ?thesis using w b run t(3) by (intro exI [of _ ?t] exI [of _ b]) auto
qed

text \<open>C39. One frame whose handling raises ends reception for ever. The frames before it in its batch are handled, those
  after it are lost with it; from then on, whatever happens, every frame that is read stays in the queue, unhandled, and the
  thread is never started again.\<close>

theorem exception_ends_reception:
  assumes "st_thread s RxDequeue = Waiting" "st_rx_queue s = pre @ f # post"
    "deque_batch pre (st_core s) = Some (Inr (), c1)" "handle_packet f c1 = Some (Inl e, c2)"
  shows "\<exists>s1. thread_step RxDequeue s = Some s1 \<and> st_core s1 = c2 \<and>
    (\<forall>fs s2. stack_run s1 fs s2 \<longrightarrow> st_thread s2 RxDequeue = Raised e \<and> st_rx_queue s2 = map (take RX_READ_SIZE) fs)"
proof -
  let ?s = "set_thread RxDequeue (Raised e) (s\<lparr>st_rx_queue := [], st_core := c2\<rparr>)"
  have "thread_step RxDequeue s = Some ?s"
    using assms(1,2) deque_batch_raise [OF assms(3,4)]
    by (simp add: thread_step_def has_work_def thread_pass_def dequeue_pass_def core_pass_def pass_end_def)
  then show ?thesis using raised_for_ever [of ?s] by (intro exI [of _ ?s]) auto
qed


text \<open>A port-unreachable message is such a frame.\<close>

definition unreachable_frame :: ether_builder where
  "unreachable_frame = ip_frame core_example 0x001122334455 (dgram (PIcmp unreachable_example) 9 1 0xC0A80205 0xC0A802C8)"

lemma unreachable_frame_raises:
  "\<exists>f. tx_frame_bytes unreachable_frame = Inr f \<and> handle_packet f core_example = Some (Inl NameError, core_example)"
proof -
  let ?d = "dgram (PIcmp unreachable_example) 9 1 0xC0A80205 0xC0A802C8"
  have d: "ip_ok ?d"
    by (rule dgram_ok) (simp_all add: unreachable_example_def icmp_ok_def icmp_consts proto_consts addr_ok_def icmp_len_def)
  have e: "ether_ok unreachable_frame"
    unfolding unreachable_frame_def
    by (rule ip_frame_ok [OF d]) (simp_all add: mac_ok_def core_example_def MTU_def icmp_len_def unreachable_example_def)
  have del: "deliverable core_example ?d"
    using d by (simp add: deliverable_def dgram_def ip_ttl_of_def core_example_def route_eval)
  obtain f where f: "tx_frame_bytes unreachable_frame = Inr f" using tx_frame_bytes_eq [OF e] by blast
  have "handle_packet f core_example = rx_icmp (ip_bytes ?d) (icmp_bytes unreachable_example) core_example"
    using handle_packet_next_layer [OF e _ _ del _ _ f, of rx_icmp]
    by (simp add: unreachable_frame_def ip_frame_def core_example_def dgram_def ip_protocol_map_def)
  then show ?thesis using f unreachable_icmp by simp
qed

theorem exception_ends_reception_witness:
  "\<exists>f s1. tx_frame_bytes unreachable_frame = Inr f \<and>
     thread_step RxDequeue (set_thread RxDequeue Waiting ((stack_init core_example)\<lparr>st_rx_queue := [f, f]\<rparr>)) = Some s1 \<and>
     (\<forall>fs s2. stack_run s1 fs s2 \<longrightarrow> st_thread s2 RxDequeue = Raised NameError \<and> st_rx_queue s2 = map (take RX_READ_SIZE) fs)"
proof -
  obtain f where f: "tx_frame_bytes unreachable_frame = Inr f" "handle_packet f core_example = Some (Inl NameError, core_example)"
    using unreachable_frame_raises by blast
  let ?s = "set_thread RxDequeue Waiting ((stack_init core_example)\<lparr>st_rx_queue := [f, f]\<rparr>)"
  have s: "st_thread ?s RxDequeue = Waiting" "st_rx_queue ?s = [] @ f # [f]" "deque_batch [] (st_core ?s) = Some (Inr (), core_example)"
    by (simp_all add: stack_init_def deque_batch_def)
  from exception_ends_reception [OF s f(2)] f(1) show ?thesis by blast
qed

section \<open>Starting\<close>

lemma configured_addresses:
  "ip_init_str ''192.168.2.255'' = Inr \<lparr>ipadd_int = 0xC0A802FF, ipadd_str = ''192.168.2.255''\<rparr>"
  "ip_init_str ''192.168.2.1'' = Inr \<lparr>ipadd_int = 0xC0A80201, ipadd_str = ''192.168.2.1''\<rparr>"
  "ip_init_str ''192.168.2.0'' = Inr \<lparr>ipadd_int = 0xC0A80200, ipadd_str = ''192.168.2.0''\<rparr>"
  "ip_init_str ''255.255.255.0'' = Inr \<lparr>ipadd_int = 0xFFFFFF00, ipadd_str = ''255.255.255.0''\<rparr>"
  "ip_init_str ''192.168.2.200'' = Inr \<lparr>ipadd_int = 0xC0A802C8, ipadd_str = ''192.168.2.200''\<rparr>"
  by code_simp+

lemma configured_mac: "map_sum id macadd_int (mac_init_str MAC_ADDRESS) = Inr 0x001122334455"
  by (simp add: MAC_ADDRESS_def mac_init_str_def py_replace_def py_int16_def py_strip_def is_space_def
      char_code_def hex_body_def hex_digit_def)

lemma core_configured_eq:
  "core_configured now rand = Inr (core_init 0xC0A80201 0xC0A80200 0xFFFFFF00 0x001122334455 now rand)"
  using configured_mac
  by (cases "mac_init_str MAC_ADDRESS") (simp_all add: core_configured_def configured_addresses IP_BROADCAST_ADDRESS_def ROUTER_def NETWORK_def MASK_def)

text \<open>The stack while \<^verbatim>\<open>_acquire_ipaddr\<close> waits, before any thread has made a step.\<close>

definition stack_probing :: "int \<Rightarrow> (nat \<Rightarrow> int) \<Rightarrow> stack" where
  "stack_probing now rand = start_threads (stack_init (probing now rand))"

lemma stack_probing_fields [simp]:
  "st_core (stack_probing now rand) = probing now rand" "st_thread (stack_probing now rand) t = Testing"
  "\<not> st_stop (stack_probing now rand) t" "c_notified (probing now rand) = []"
  by (simp_all add: stack_probing_def start_threads_def stack_init_def probing_def core_init_def) (cases t; simp)

lemma start_stack_probes:
  "start_stack IP_ADDRESS m (stack_init (core_init 0xC0A80201 0xC0A80200 0xFFFFFF00 0x001122334455 now rand)) =
    (let s = m (stack_probing now rand)
     in if notified_since ArpProbCond (probing now rand) (st_core s)
        then Some (Inr (), s\<lparr>st_core := (st_core s)\<lparr>c_unicast_ip := Some 0xC0A802C8, c_rx_ip_enabled := True\<rparr>\<rparr>)
        else None)"
proof -
  have n: "\<not> py_in_conflict_ips ipaddr c" for ipaddr c by (simp add: py_in_conflict_ips_def list_ex_iff)
  have i: "initialize_stack_components (stack_init (core_init r nw k mac now rand)) = stack_init (core_init r nw k mac now rand)"
    for r nw k mac by (simp add: initialize_stack_components_def stack_init_def core_init_def)
  have c: "st_core (start_threads s) = st_core s" "(start_threads s)\<lparr>st_core := c\<rparr> = start_threads (s\<lparr>st_core := c\<rparr>)" for s c
    by (simp_all add: start_threads_def set_thread_def)
  have k: "st_core (stack_init x) = x" "(stack_init x)\<lparr>st_core := y\<rparr> = stack_init y" for x y
    by (simp_all add: stack_init_def)
  show ?thesis
    by (simp add: start_stack_def i c k n IP_ADDRESS_def send_arp_prob_probing configured_addresses stack_probing_def Let_def)
qed

text \<open>A pass of the timer thread of the probing stack at time \<open>t\<close>.\<close>

lemma probe_timer:
  "\<exists>s1 s. thread_step TimerLoop ((stack_probing now rand)\<lparr>st_core := (probing now rand)\<lparr>c_now_ns := t\<rparr>\<rparr>) = Some s1 \<and>
    thread_step TimerLoop s1 = Some s \<and>
    (notified_since ArpProbCond (probing now rand) (st_core s) \<longleftrightarrow> now div 1000000 + 3000 \<le> t div 1000000)"
proof -
  let ?s = "(stack_probing now rand)\<lparr>st_core := (probing now rand)\<lparr>c_now_ns := t\<rparr>\<rparr>"
  let ?s1 = "set_thread TimerLoop Entered ?s"
  have 1: "thread_step TimerLoop ?s = Some ?s1" by (simp add: thread_step_def)
  have 2: "thread_step TimerLoop ?s1 = core_pass TimerLoop PassDone timer_loop_pass ?s1"
    by (simp add: thread_step_def has_work_def thread_pass_def probing_def)
  obtain tm where "timer_loop_pass ((probing now rand)\<lparr>c_now_ns := t\<rparr>) = Some (Inr (),
      (if now div 1000000 + 3000 \<le> t div 1000000
       then (probing now rand)\<lparr>c_now_ns := t, c_timer := tm, c_arp_wait_prob_list := {}, c_notified := [ArpProbCond]\<rparr>
       else (probing now rand)\<lparr>c_now_ns := t, c_timer := tm\<rparr>))"
    using probe_pass by blast
  then show ?thesis
    using 1 2 by (simp add: core_pass_def pass_end_def notified_since_def)
qed

text \<open>A pass of the receiving thread over a reply of another host that has the address.\<close>

lemma probe_answered:
  assumes "arp_reply_frame (probing now rand) 0xC0A802C8 mac f"
  shows "\<exists>s1 s. thread_step RxDequeue ((stack_probing now rand)\<lparr>st_rx_queue := [f]\<rparr>) = Some s1 \<and>
    thread_step RxDequeue s1 = Some s \<and> c_conflict_ips (st_core s) = [0xC0A802C8] \<and>
    notified_since ArpProbCond (probing now rand) (st_core s)"
proof -
  let ?s = "(stack_probing now rand)\<lparr>st_rx_queue := [f]\<rparr>"
  let ?s1 = "set_thread RxDequeue Entered ?s"
  have 1: "thread_step RxDequeue ?s = Some ?s1" by (simp add: thread_step_def)
  have 2: "thread_step RxDequeue ?s1 = dequeue_pass ?s1" by (simp add: thread_step_def has_work_def thread_pass_def)
  have "handle_packet f (probing now rand) =
      Some (Inr (), (probing now rand)\<lparr>c_conflict_ips := [0xC0A802C8], c_notified := [ArpProbCond]\<rparr>)"
    unfolding handle_arp_reply [OF assms HOL.refl]
    by (simp add: probing_def core_init_def then_op_bind bind_op_def core_notify_def)
  then show ?thesis
    using 1 2 by (simp add: dequeue_pass_def deque_batch_def core_pass_def pass_end_def then_op_bind bind_op_def notified_since_def)
qed

text \<open>C20. Starting with the configuration of the repository. The configured addresses are accepted, all five threads start, and
  one ARP probe for the address is queued for broadcast. The start then waits: it returns if and only if what happens
  meanwhile notifies the condition of the probe, and then the stack has its address and receives IP datagrams. The timer
  thread ends the wait when three seconds have passed, and not before. A reply of another host that has the address ends
  it at once and records the conflict; as the comparison of \<^verbatim>\<open>core.py\<close> never finds it, the start takes the address all
  the same.\<close>

theorem startup_acquires_address:
  "\<exists>c s0. core_configured now rand = Inr c \<and> (\<forall>t. st_thread s0 t = Testing) \<and> c_tx_ring (st_core s0) = [probe_frame] \<and>
     (\<forall>m. start_stack IP_ADDRESS m (stack_init c) =
        (if notified_since ArpProbCond (st_core s0) (st_core (m s0))
         then Some (Inr (), (m s0)\<lparr>st_core := (st_core (m s0))\<lparr>c_unicast_ip := Some 0xC0A802C8, c_rx_ip_enabled := True\<rparr>\<rparr>)
         else None)) \<and>
     (\<forall>t. \<exists>s1 s. thread_step TimerLoop (s0\<lparr>st_core := (st_core s0)\<lparr>c_now_ns := t\<rparr>\<rparr>) = Some s1 \<and>
        thread_step TimerLoop s1 = Some s \<and>
        (notified_since ArpProbCond (st_core s0) (st_core s) \<longleftrightarrow> now div 1000000 + 3000 \<le> t div 1000000)) \<and>
     (\<forall>mac f. arp_reply_frame c 0xC0A802C8 mac f \<longrightarrow>
        (\<exists>s1 s. thread_step RxDequeue (s0\<lparr>st_rx_queue := [f]\<rparr>) = Some s1 \<and> thread_step RxDequeue s1 = Some s \<and>
          c_conflict_ips (st_core s) = [0xC0A802C8] \<and> notified_since ArpProbCond (st_core s0) (st_core s)))"
proof -
  let ?c = "core_init 0xC0A80201 0xC0A80200 0xFFFFFF00 0x001122334455 now rand" and ?s0 = "stack_probing now rand"
  have r: "arp_reply_frame (probing now rand) 0xC0A802C8 mac f" if "arp_reply_frame ?c 0xC0A802C8 mac f" for mac f
    using that by (simp add: arp_reply_frame_def probing_def)
  have "c_tx_ring (st_core ?s0) = [probe_frame]" by (simp add: probing_def)
  then show ?thesis
    using core_configured_eq [of now rand] probe_timer [where now = now and rand = rand] start_stack_probes [of _ now rand]
      probe_answered [OF r]
    by (intro exI [of _ ?c] exI [of _ ?s0]) (simp add: Let_def)
qed

text \<open>The reply of a host that has the address.\<close>

definition conflict_example :: ether_builder where
  "conflict_example =
     \<lparr>eb_dst = 0x001122334455, eb_src = 0x020000000001, eb_type = 0x0806,
      eb_payload = EtherArp \<lparr>ab_sha = 0x020000000001, ab_spa = 0xC0A802C8, ab_tha = 0x001122334455,
        ab_tpa = 0, ab_op = ARP_OP_REPLY\<rparr>\<rparr>"

lemma conflict_example_frame:
  "\<exists>f. tx_frame_bytes conflict_example = Inr f \<and>
    (\<forall>c. c_unicast_mac c = 0x001122334455 \<longrightarrow> arp_reply_frame c 0xC0A802C8 0x020000000001 f)"
proof -
  have e: "ether_ok conflict_example"
    by (simp add: ether_ok_def conflict_example_def mac_ok_def arp_ok_def ARP_OP_REPLY_def)
  obtain f where f: "tx_frame_bytes conflict_example = Inr f" using tx_frame_bytes_eq [OF e] by blast
  have "arp_reply_frame c 0xC0A802C8 0x020000000001 f" if "c_unicast_mac c = 0x001122334455" for c
    unfolding arp_reply_frame_def using e f that
    by (intro exI [of _ conflict_example]) (simp add: conflict_example_def)
  then show ?thesis using f by blast
qed

theorem startup_acquires_address_witness:
  "\<exists>c f s. core_configured 0 (\<lambda>_. 0) = Inr c \<and> tx_frame_bytes conflict_example = Inr f \<and>
     start_stack IP_ADDRESS (\<lambda>s. s) (stack_init c) = None \<and>
     start_stack IP_ADDRESS (\<lambda>_. s) (stack_init c) =
       Some (Inr (), s\<lparr>st_core := (st_core s)\<lparr>c_unicast_ip := Some 0xC0A802C8, c_rx_ip_enabled := True\<rparr>\<rparr>) \<and>
     c_conflict_ips (st_core s) = [0xC0A802C8]"
proof -
  obtain f where f: "tx_frame_bytes conflict_example = Inr f"
    "\<forall>c. c_unicast_mac c = 0x001122334455 \<longrightarrow> arp_reply_frame c 0xC0A802C8 0x020000000001 f"
    using conflict_example_frame by blast
  obtain c s0 where c: "core_configured 0 (\<lambda>_. 0) = Inr c"
    "\<forall>m. start_stack IP_ADDRESS m (stack_init c) =
        (if notified_since ArpProbCond (st_core s0) (st_core (m s0))
         then Some (Inr (), (m s0)\<lparr>st_core := (st_core (m s0))\<lparr>c_unicast_ip := Some 0xC0A802C8, c_rx_ip_enabled := True\<rparr>\<rparr>)
         else None)"
    "\<forall>mac f. arp_reply_frame c 0xC0A802C8 mac f \<longrightarrow>
        (\<exists>s1 s. thread_step RxDequeue (s0\<lparr>st_rx_queue := [f]\<rparr>) = Some s1 \<and> thread_step RxDequeue s1 = Some s \<and>
          c_conflict_ips (st_core s) = [0xC0A802C8] \<and> notified_since ArpProbCond (st_core s0) (st_core s))"
    using startup_acquires_address [of 0 "\<lambda>_. 0"] by blast
  have "arp_reply_frame c 0xC0A802C8 0x020000000001 f"
    using f(2) c(1) core_configured_eq [of 0 "\<lambda>_. 0"] by (auto simp: core_init_def)
  from c(3) [rule_format, OF this] obtain s :: stack where s: "c_conflict_ips (st_core s) = [0xC0A802C8]"
    "notified_since ArpProbCond (st_core s0) (st_core s)"
    by auto
  have n: "\<not> notified_since ArpProbCond (st_core s0) (st_core s0)" by (simp add: notified_since_def)
  show ?thesis
    using c(1) f(1) s spec [OF c(2), of "\<lambda>s. s"] spec [OF c(2), of "\<lambda>_. s"] n
    by (intro exI [of _ c] exI [of _ f] exI [of _ s]) simp
qed

section \<open>Stopping\<close>

text \<open>A thread that has ended, and one that ends within some steps of its own unless a step does not return.\<close>

fun ended :: "thread_state \<Rightarrow> bool" where
  "ended Returned \<longleftrightarrow> True"
| "ended (Raised e) \<longleftrightarrow> True"
| "ended _ \<longleftrightarrow> False"

fun ends_within :: "nat \<Rightarrow> thread \<Rightarrow> stack \<Rightarrow> bool" where
  "ends_within 0 t s \<longleftrightarrow> ended (st_thread s t)"
| "ends_within (Suc n) t s \<longleftrightarrow> (case thread_step t s of None \<Rightarrow> True | Some s' \<Rightarrow> ends_within n t s')"

lemma stop_stack_thread:
  "st_thread (stop_stack s) t = (if t \<in> {TimerLoop, EventsLoop} \<and> st_thread s t = Waiting then Woken else st_thread s t)"
  by (cases t) (simp_all add: stop_stack_def notify_shutdown_def ring_shutdown_def Let_def)

lemma stop_stack_work: "has_work t (stop_stack s) = has_work t s"
  by (cases t) (simp_all add: has_work_def)

lemma set_thread_work [simp]: "has_work t (set_thread u x s) = has_work t s"
  by (cases t) (simp_all add: has_work_def)

text \<open>A stopped thread at the test of its loop, after a pass, and before the second wait of the timer.\<close>

lemma stopped_testing:
  "st_stop s t \<Longrightarrow> st_thread s t = Testing \<or> ended (st_thread s t) \<Longrightarrow> ends_within 1 t s"
  by (cases "st_thread s t") (auto simp: thread_step_def)

lemma pass_then_ends:
  assumes "thread_pass t s = Some s'" "t \<in> {RxDequeue, TxLoop, EventsLoop}" "st_stop s t"
  shows "ends_within 1 t s'"
proof (rule stopped_testing)
  show "st_stop s' t" "st_thread s' t = Testing \<or> ended (st_thread s' t)"
    using assms
    by (auto simp: thread_pass_def dequeue_pass_def tx_loop_pass_def Let_def elim!: core_pass_Some split: list.splits sum.splits)
qed

lemma step_ends:
  "(\<And>s'. thread_step t s = Some s' \<Longrightarrow> ends_within n t s') \<Longrightarrow> ends_within (Suc n) t s"
  by (auto split: option.split)

lemma step_moves:
  "thread_step t s = Some s' \<Longrightarrow> ends_within n t s' \<Longrightarrow> ends_within (Suc n) t s"
  by simp

lemma stopped_woken:
  assumes "st_stop s t" "t \<in> {TimerLoop, EventsLoop}" "st_thread s t = Woken"
  shows "ends_within 2 t s"
proof (cases "t = TimerLoop")
  case True
  then have "thread_step t s = Some (set_thread t Testing s)" using assms(3) by (simp add: thread_step_def)
  then show ?thesis using step_moves [OF _ stopped_testing] assms(1) by (simp add: numeral_2_eq_2 del: ends_within.simps)
next
  case False
  then have "thread_step t s = thread_pass t s" "t = EventsLoop" using assms(2,3) by (auto simp: thread_step_def)
  then show ?thesis
    using step_ends [of t s 1] pass_then_ends [of t s] assms(1) by (simp add: numeral_2_eq_2 del: ends_within.simps)
qed

lemma stopped_entered:
  assumes "st_stop s t" "t \<in> {RxDequeue, TxLoop, EventsLoop}" "st_thread s t = Entered" "has_work t s"
  shows "ends_within 2 t s"
proof -
  have "thread_step t s = thread_pass t s" using assms(3,4) by (simp add: thread_step_def)
  then show ?thesis
    using step_ends [of t s 1] pass_then_ends [of t s] assms(1,2) by (simp add: numeral_2_eq_2 del: ends_within.simps)
qed

lemma stopped_pass_done:
  assumes "st_stop s TimerLoop" "st_thread s TimerLoop = PassDone" "has_work TimerLoop s"
  shows "ends_within 3 TimerLoop s"
proof -
  let ?w = "set_thread TimerLoop Waiting s" and ?t = "set_thread TimerLoop Testing (set_thread TimerLoop Waiting s)"
  have 1: "thread_step TimerLoop s = Some ?w" "thread_step TimerLoop ?w = Some ?t"
    using assms(2,3) by (simp_all add: thread_step_def)
  have "ends_within 1 TimerLoop ?t" by (rule stopped_testing) (simp_all add: assms(1))
  then show ?thesis using step_moves [OF 1(1) step_moves [OF 1(2)]] by (simp add: eval_nat_numeral del: ends_within.simps)
qed



section \<open>A segment without a connection\<close>

text \<open>
  A socket that is bound and not connected is registered with the address 0.0.0.0 and the port 0 for its peer. A segment from
  there is queued without a control block, and the thread of the TCP events ends with \<^verbatim>\<open>AttributeError\<close> when it comes to it:
  no connection of the stack makes progress any more.
\<close>

lemma segment_without_connection:
  assumes "out_seg_ok s" "0 \<le> ident" "ident < 65536" "mac_ok mac" "mac_ok (c_unicast_mac peer)" "accepts c s"
    "os_src s = (0, 0)" "tcp_sockets (c_tcp c) (fst (os_dst s), snd (os_dst s), 0, 0) = Some ref"
    "tcp_tcpcbs (c_tcp c) (fst (os_dst s), snd (os_dst s), 0, 0) = None" "c_events c = []"
    "st_core st = c" "st_thread st EventsLoop = Waiting"
  shows "\<exists>f c1 st1. tx_frame_bytes (ip_frame peer mac (seg_dgram s ident)) = Inr f \<and> handle_packet f c = Some (Inr (), c1) \<and>
    thread_step EventsLoop (st\<lparr>st_core := c1\<rparr>) = Some st1 \<and> st_thread st1 EventsLoop = Raised AttributeError"
proof -
  obtain f p where f: "tx_frame_bytes (ip_frame peer mac (seg_dgram s ident)) = Inr f"
    "handle_packet f c = Some (Inr (), c\<lparr>c_events := [TCPEvent RX_SEGMENT None (Some p)]\<rparr>)"
    using segment_frame_received [OF assms(1-6)] assms(7-10) by (auto simp: Let_def)
  let ?c = "c\<lparr>c_events := [TCPEvent RX_SEGMENT None (Some p)]\<rparr>"
  have "tcp_events_pass ?c = Some (Inl AttributeError, ?c\<lparr>c_events := []\<rparr>)"
    using tcp_events_pass_one [of ?c] by (simp add: handle_event_def)
  then show ?thesis
    using f assms(11,12)
    by (simp add: thread_step_def has_work_def thread_pass_def core_pass_def pass_end_def)
qed

end
