(* ===== verification/Tcp_Exchange.thy ===== *)
theory Tcp_Exchange
  imports Sock_Connect Tcp_Close
begin

text \<open>
  The transfer of data between two stacks, through all layers: \<^verbatim>\<open>send\<close> on one socket, the send event, the segments and
  their frames, the receiving thread and the event thread of the other stack, \<^verbatim>\<open>recv\<close> there, and the
  acknowledgment on its way back.
\<close>

section \<open>An idle connection\<close>

text \<open>What the sending side of a connection is, for a control block alone or beside the core's parts.\<close>

definition snd_side :: "'a tcpcb_scheme \<Rightarrow> _" where
  "snd_side w = (cb_ref w, (lip w, lp w, rip w, rp w), snd_una w, snd_nxt w, snd_buf w, remote_mss w,
     close_requested w, shutdown_requested w, sent_fin w, rtx_timer w, challenge_ack_limit w)"

text \<open>The receive window as \<^const>\<open>win_ok\<close> has it, and a connection whose data have all been sent and acknowledged.\<close>

definition rcv_ok :: "'a tcpcb_scheme \<Rightarrow> bool" where
  "rcv_ok w \<longleftrightarrow> seq_num (rcv_nxt w) \<and> seq_num (rcv_adv w) \<and>
     0 < seq_diff (rcv_adv w) (rcv_nxt w) \<and> seq_diff (rcv_adv w) (rcv_nxt w) \<le> DEFAULT_RCV_WND \<and>
     rb_inv (rcv_buf w) \<and> rb_size (rcv_buf w) = DEFAULT_RECV_BUFF"

lemma rcv_ok_win: "rcv_ok w = win_ok w"
  by (simp add: rcv_ok_def win_ok_def)

definition sendable :: "'a tcpcb_scheme \<Rightarrow> bool" where
  "sendable w \<longleftrightarrow> state w = ESTAB \<and> seq_num (snd_una w) \<and> seq_num (snd_nxt w) \<and> rrb_safe (snd_buf w) \<and>
     rrb_cap (snd_buf w) = 65534 \<and> \<not> close_requested w \<and> \<not> shutdown_requested w \<and> \<not> sent_fin w \<and> rcv_ok w"

definition all_acked :: "'a tcpcb_scheme \<Rightarrow> bool" where
  "all_acked w \<longleftrightarrow> snd_una w = snd_nxt w \<and> rrb_unacked (snd_buf w) = [] \<and> rrb_contents (snd_buf w) = [] \<and>
     rtx_timer w = None"

text \<open>Only challenge acknowledgments use up the limit on their number.\<close>

lemma challenge_frame [simp]:
  "challenge_ack_limit (tx_tcp sg w) = challenge_ack_limit w" "challenge_ack_limit (change_state ns w) = challenge_ack_limit w"
  "challenge_ack_limit (start_rtx_timer w) = challenge_ack_limit w" "challenge_ack_limit (stop_rtx_timer w) = challenge_ack_limit w"
  "challenge_ack_limit (rtt_probe w) = challenge_ack_limit w" "challenge_ack_limit (rtt_sample w) = challenge_ack_limit w"
  "challenge_ack_limit (restart_rtx_timer w) = challenge_ack_limit w" "challenge_ack_limit (compute_rcv_wnd w) = challenge_ack_limit w"
  "challenge_ack_limit (notify cd w) = challenge_ack_limit w" "challenge_ack_limit (schedule_send w) = challenge_ack_limit w"
  "challenge_ack_limit (send_ack w) = challenge_ack_limit w"
  by (auto simp: tx_tcp_def change_state_def start_rtx_timer_def schedule_rtx_def stop_rtx_timer_def rtt_probe_def rtt_sample_def set_new_rto_def
      set_initial_rto_def restart_rtx_timer_def compute_rcv_wnd_def notify_def schedule_send_def schedule_event_def send_ack_def Let_def
      split: option.splits prod.splits)

section \<open>The arrival of data\<close>

lemma append_rcv_data_kept:
  "snd_side (snd (append_rcv_data p w)) = snd_side w" "tx_log (snd (append_rcv_data p w)) = tx_log w"
  "events (snd (append_rcv_data p w)) = events w" "so_error (snd (append_rcv_data p w)) = so_error w"
  "tcp_tbl (snd (append_rcv_data p w)) = tcp_tbl w"
  by (simp_all add: snd_side_def append_rcv_data_def Let_def split_def compute_rcv_wnd_def) (simp_all add: notify_def)

lemma h_rx_wnd_kept:
  "snd_side (snd (h_rx_wnd p w)) = snd_side w" "tx_log (snd (h_rx_wnd p w)) = tx_log w"
  "events (snd (h_rx_wnd p w)) = events w" "so_error (snd (h_rx_wnd p w)) = so_error w" "tcp_tbl (snd (h_rx_wnd p w)) = tcp_tbl w"
  by (simp_all add: snd_side_def h_rx_wnd_def)

lemma schedule_send_kept:
  "snd_side (schedule_send w) = snd_side w" "tx_log (schedule_send w) = tx_log w"
  "events (schedule_send w) = events w @ [TCPEvent SEND (Some (cb_ref w)) None]"
  by (simp_all add: snd_side_def schedule_send_def) (simp_all add: schedule_event_def)

text \<open>A segment in order that acknowledges nothing new: only the receive side changes, and a send event is queued.\<close>

lemma data_arrives:
  assumes "state w = ESTAB" "rcv_ok w" "plain_data 0 p w" "rcv_wnd w \<noteq> 0" "sg_ack_seq p = snd_una w"
    and "length (sg_data p) \<le> rb_free_space (rcv_buf w)"
  obtains w' where "rx p w = Inr w'" "snd_side w' = snd_side w" "tx_log w' = tx_log w" "so_error w' = so_error w"
    "tcp_tbl w' = tcp_tbl w" "events w' = events w @ [TCPEvent SEND (Some (cb_ref w)) None]" "state w' = ESTAB" "ack_now w'" "rcv_ok w'"
    "rcv_nxt w' = mask32 (rcv_nxt w + int (length (sg_data p)))" "rb_contents (rcv_buf w') = rb_contents (rcv_buf w) @ sg_data p"
    "rb_free_space (rcv_buf w') = rb_free_space (rcv_buf w) - length (sg_data p)" "rcv_wnd w' = int (rb_free_space (rcv_buf w'))"
    "seq_diff (rcv_adv w') (rcv_nxt w') = max (seq_diff (rcv_adv w) (rcv_nxt w) - int (length (sg_data p))) (int (rb_free_space (rcv_buf w)))"
    "snd_wnd w' = snd_wnd w \<or> snd_wnd w' = sg_window p"
proof -
  define L where "L = sg_dlen p"
  define p1 where "p1 = p\<lparr>sg_seq := mask32 (sg_seq p + 0), sg_dlen := sg_dlen p - 0\<rparr>"
  define w1 where "w1 = w\<lparr>tcp_data_start := 0, tcp_data_len := L, rcv_nxt := mask32 (rcv_nxt w + L)\<rparr>"
  have ok: "win_ok w" using assms(2) by (simp add: rcv_ok_win)
  have pd: "seg_wf p" "0 < L" "\<not> sg_syn p" "\<not> sg_fin p" "\<not> sg_rst p" using assms(3) by (simp_all add: plain_data_def L_def)
  have len: "int (length (sg_data p)) = L" using length_sg_data [OF pd(1)] pd(2) by (simp add: L_def)
  note r = rx_estab_plain [OF ok assms(3,4)]
  have seq: "h_rx_seq p w = (TCP_ACCEPT_AND_HANDLE, p1, w1)"
    using h_rx_seq_plain [OF ok assms(3,4)] by (simp add: p1_def w1_def L_def)
  have fl: "\<not> sg_rst p1" "\<not> sg_syn p1" "\<not> sg_fin p1" "sg_dlen p1 > 0" "sg_ack_seq p1 = snd_una w" "sg_data p1 = sg_data p"
    using pd assms(5) by (simp_all add: p1_def sg_rst_def sg_syn_def sg_fin_def L_def sg_data_def)
  have ack: "h_rx_ack p1 (w1\<lparr>ack_now := True\<rparr>) = (0, w1\<lparr>ack_now := True\<rparr>)"
    using fl(5) by (simp add: h_rx_ack_def w1_def seq_leq_def)
  define v where "v = snd (h_rx_wnd p1 (w1\<lparr>ack_now := True\<rparr>))"
  let ?w' = "rx_estab p w"
  have w': "?w' = schedule_send (snd (append_rcv_data p1 v))"
    using fl ack unfolding rx_estab_def seq estab_accept_def v_def
    by (simp add: Let_def split_def h_rx_rst_def set_ack_now_def estab_acked_def)
  have sv: "snd_side v = snd_side w" "tx_log v = tx_log w" "events v = events w" "so_error v = so_error w" "tcp_tbl v = tcp_tbl w"
    "rcv_buf v = rcv_buf w" "tcp_data_start v = 0" "tcp_data_len v = L" "snd_wnd v = snd_wnd w \<or> snd_wnd v = sg_window p"
    by (simp_all add: v_def h_rx_wnd_kept) (simp_all add: snd_side_def w1_def h_rx_wnd_def p1_def)
  have cb: "cb_ref (snd (append_rcv_data p1 v)) = cb_ref w"
    using append_rcv_data_kept(1) [of p1 v] sv(1) by (simp add: snd_side_def)
  obtain n b where e: "rb_enqueue (rcv_buf w) (sg_data p) = (n, b)" by (rule prod.exhaust)
  have inv: "rb_inv (rcv_buf w)" using assms(2) by (simp add: rcv_ok_def)
  have n: "n = length (sg_data p)" by (rule rb.enq_all [OF inv e assms(6)])
  have b: "rcv_buf ?w' = b" using r(2) e len by (simp add: slice_def L_def)
  have ne: "sg_data p \<noteq> []" using len pd(2) by auto
  have wnd: "rcv_wnd ?w' = int (rb_free_space (rcv_buf w)) - L"
    using ne fl(6) assms(6) sv(6-8)
    unfolding w' by (auto simp: append_rcv_data_def compute_rcv_wnd_def Let_def split_def)
  have "snd_wnd ?w' = snd_wnd v"
    unfolding w' by (simp add: append_rcv_data_def compute_rcv_wnd_def Let_def split_def)
  then have sw: "snd_wnd ?w' = snd_wnd w \<or> snd_wnd ?w' = sg_window p" using sv(9) by simp
  show ?thesis
  proof (rule that [of ?w'])
    show "snd_wnd ?w' = snd_wnd w \<or> snd_wnd ?w' = sg_window p" by (rule sw)
    show "rx p w = Inr ?w'" using assms(1) by (simp add: rx_def rx_map_def)
    show "snd_side ?w' = snd_side w" "tx_log ?w' = tx_log w" "events ?w' = events w @ [TCPEvent SEND (Some (cb_ref w)) None]"
      using sv cb by (simp_all add: w' schedule_send_kept append_rcv_data_kept)
    show "so_error ?w' = so_error w" "tcp_tbl ?w' = tcp_tbl w" using sv by (simp_all add: w' append_rcv_data_kept)
    show "rcv_ok ?w'" using ok by (simp add: rcv_ok_win)
    show "rb_contents (rcv_buf ?w') = rb_contents (rcv_buf w) @ sg_data p" using rb.enq_contents [OF inv e] n b by simp
    show f: "rb_free_space (rcv_buf ?w') = rb_free_space (rcv_buf w) - length (sg_data p)"
      using rb.free_space_enq [OF inv e] n b by simp
    show "rcv_wnd ?w' = int (rb_free_space (rcv_buf ?w'))" using wnd f len assms(6) by simp
  qed (use r len assms(1) in \<open>simp_all add: L_def\<close>)
qed

section \<open>Sending and acknowledging\<close>

text \<open>What a send event leaves alone.\<close>

definition tx_fixed :: "fsm \<Rightarrow> _" where
  "tx_fixed w = (cb_ref w, (lip w, lp w, rip w, rp w), remote_mss w, snd_una w, snd_wnd w, close_requested w, shutdown_requested w,
     rcv_buf w, rcv_nxt w, events w, so_error w, tcp_tbl w, challenge_ack_limit w)"

lemma compute_rcv_wnd_fixed [simp]: "tx_fixed (compute_rcv_wnd w) = tx_fixed w"
  by (simp add: tx_fixed_def compute_rcv_wnd_def Let_def)

lemma compute_rcv_wnd_ack_now [simp]: "ack_now (compute_rcv_wnd w) = ack_now w"
  by (simp add: compute_rcv_wnd_def Let_def)

lemma tx_loop_fixed:
  assumes "tx_loop data ns False False w = Some (Inr w')"
  shows "tx_fixed w' = tx_fixed w"
proof -
  have ev: "events (tx_tcp s x) = events x" for s x by (simp add: tx_tcp_def)
  show ?thesis
    by (rule tx_loop_keeps [OF assms, where P = "\<lambda>x. tx_fixed x = tx_fixed w"])
      (simp_all add: tx_fixed_def tx_segment_def Let_def h_active_close_tx_def ev)
qed

text \<open>The loop starts the retransmission timer at its end, unless it runs.\<close>

definition rtx_armed :: "fsm \<Rightarrow> fsm \<Rightarrow> bool" where
  "rtx_armed w w' \<longleftrightarrow> (rtx_timer w = None \<longrightarrow>
     (let (k, tm) = schedule_timer (now_ns w) (rto w) (ScheduleRtx (cb_ref w)) (timer w) in rtx_timer w' = Some k \<and> timer w' = tm))"

lemma tx_loop_armed:
  assumes "tx_loop data ns False False w = Some (Inr w')"
  shows "rtx_armed w w' \<and> rto w' = rto w"
proof -
  let ?t = "\<lambda>x. (cb_ref x, rtx_timer x, timer x, rto x, now_ns x)"
  have no: "h_active_close_tx False w = (False, w)" by (simp add: h_active_close_tx_def)
  obtain dlen x where x: "tx_while ns False data dlen (snd_wnd w) 0 w = Some (Inr x)" and w': "w' = start_rtx_timer x"
    using assms no by (auto simp: tx_loop_def Let_def map_sum_Inr_iff split: list.splits)
  have "?t (tx_segment f d y) = ?t w" if "?t y = ?t w" for f d y
    using that by (simp add: tx_segment_def Let_def rtt_probe_def)
  from tx_while_ends [OF x, where P = "\<lambda>y. ?t y = ?t w", OF this] have "?t x = ?t w" by auto
  then show ?thesis
    unfolding w' by (auto simp: rtx_armed_def start_rtx_timer_def schedule_rtx_def split_def Let_def)
qed

text \<open>A send event for bytes that fit into the window: all of them leave, in order, and wait for their acknowledgment.\<close>

lemma data_sent:
  assumes "sendable w" "rrb_contents (snd_buf w) \<noteq> []" "0 < remote_mss w" "remote_mss w \<le> 1460"
    and "int (length (rrb_contents (snd_buf w))) \<le> snd_wnd w" "int (length (rrb_contents (snd_buf w))) \<le> TCP_MAX_TX_BYTES"
  obtains w' v segs where "tx w = Some (Inr w')" "tx_log w' = tx_log w @ segs" "payload segs = rrb_contents (snd_buf w)"
    "stream_segs (remote_mss w) v False (snd_nxt w) segs" "tx_fixed v = tx_fixed w" "rcv_wnd v = int (rb_free_space (rcv_buf w))"
    "tx_fixed w' = tx_fixed w" "sendable w'" "snd_nxt w' = mask32 (snd_nxt w + int (length (rrb_contents (snd_buf w))))"
    "rrb_unacked (snd_buf w') = rrb_unacked (snd_buf w) @ rrb_contents (snd_buf w)" "rrb_contents (snd_buf w') = []"
    "ack_now w' = ack_now w" "rtx_armed w w'" "rto w' = rto w"
proof -
  let ?n = "nat (min TCP_MAX_TX_BYTES (snd_wnd w))" and ?c = "rrb_contents (snd_buf w)"
  have s: "state w = ESTAB" "rrb_safe (snd_buf w)" "seq_num (snd_nxt w)" "seq_num (snd_una w)" "\<not> close_requested w"
    "\<not> shutdown_requested w" "rcv_ok w" "\<not> sent_fin w"
    using assms(1) by (simp_all add: sendable_def)
  obtain data b where d: "rrb_dequeue (snd_buf w) ?n = (data, b)" by (rule prod.exhaust)
  let ?v = "compute_rcv_wnd (w\<lparr>snd_buf := b\<rparr>)"
  have inv: "rrb_inv (snd_buf w)" by (rule rrbr.safe_inv [OF s(2)])
  note ch = rrb_dequeue_chunks [OF inv d]
  have n: "length ?c \<le> ?n" using assms(5,6) by (simp add: TCP_MAX_TX_BYTES_def nat_le_iff le_nat_iff)
  have pos: "0 < ?n" using n assms(2) by (cases ?n) auto
  have ne: "data \<noteq> []" using ch(2) assms(2) by simp
  have c: "concat data = ?c" using rrb.deq_data [OF inv d] n by simp
  have v: "0 < remote_mss ?v" "seq_num (snd_nxt ?v)" "\<not> linger_abort False ?v" "int (length (concat data)) \<le> snd_wnd ?v"
    "remote_mss ?v \<le> 1460"
    using s(3) assms(3-5) c by (simp_all add: linger_abort_def)
  have t: "tx w = tx_loop data (Some FIN_WAIT_1) False False ?v"
    using ne s(1,5,6) unfolding tx_def tx_map_def tx_estab_def drain_snd_buf_eq [OF d] by simp
  obtain w' segs where w': "tx_loop data (Some FIN_WAIT_1) False False ?v = Some (Inr w')" "tx_log w' = tx_log ?v @ segs"
      "payload segs = concat data" "stream_segs (remote_mss ?v) ?v False (snd_nxt ?v) segs"
      "snd_nxt w' = mask32 (snd_nxt ?v + int (length (concat data)))" "state w' = state ?v" "\<not> sent_fin w'"
    using tx_loop_sends [OF v(1) ne ch(1) ch(3) [OF pos] v(4) _ v(2,3,5), of "Some FIN_WAIT_1" False] assms(6) c s(8) by auto
  have k: "snd_buf w' = b \<and> ack_now w' = ack_now w"
    by (rule tx_loop_keeps [OF w'(1), where P = "\<lambda>x. snd_buf x = b \<and> ack_now x = ack_now w"])
      (simp_all add: tx_segment_def Let_def h_active_close_tx_def)
  have ok: "rcv_ok w'" using s(7) tx_loop_win [OF w'(1)] by (simp add: rcv_ok_win)
  have f: "tx_fixed ?v = tx_fixed w" "rcv_wnd ?v = int (rb_free_space (rcv_buf w))"
    by (simp_all add: tx_fixed_def compute_rcv_wnd_def Let_def)
  have fx: "tx_fixed w' = tx_fixed w" using tx_loop_fixed [OF w'(1)] f(1) by simp
  have tm: "now_ns ?v = now_ns w" "rto ?v = rto w" "timer ?v = timer w" "cb_ref ?v = cb_ref w"
    by (simp_all add: compute_rcv_wnd_def Let_def)
  have arm: "rtx_armed w w'" "rto w' = rto w"
    using tx_loop_armed [OF w'(1)] tm by (simp_all add: rtx_armed_def)
  have m: "remote_mss ?v = remote_mss w" "snd_nxt ?v = snd_nxt w" "tx_log ?v = tx_log w" "state ?v = state w" by simp_all
  show ?thesis
  proof (rule that [OF _ _ _ _ f])
    show "tx w = Some (Inr w')" using t w'(1) by simp
    show "sendable w'"
      using s ok fx k w'(5-7) m rrbr.deq_safe [OF s(2) d] rrb.deq_cap [OF inv d] assms(1) by (auto simp: sendable_def tx_fixed_def)
    show "rrb_unacked (snd_buf w') = rrb_unacked (snd_buf w) @ ?c" "rrb_contents (snd_buf w') = []"
      using k rrbr.deq_safe [OF s(2) d] rrb.deq_contents [OF inv d] c n by simp_all
  qed (use w' m k c fx arm in simp_all)
qed

text \<open>A send event without data: an acknowledgment when one is due.\<close>

lemma ack_sent:
  assumes "sendable w" "rrb_contents (snd_buf w) = []"
  obtains w' v where "tx w = Some (Inr w')" "tx_log w' = tx_log w @ (if ack_now w then [ack_seg v] else [])" "\<not> ack_now w'"
    "tx_fixed v = tx_fixed w" "snd_nxt v = snd_nxt w" "rcv_wnd v = int (rb_free_space (rcv_buf w))" "tx_fixed w' = tx_fixed w" "sendable w'" "snd_nxt w' = snd_nxt w"
    "rrb_unacked (snd_buf w') = rrb_unacked (snd_buf w)" "rrb_contents (snd_buf w') = []" "rtx_timer w' = rtx_timer w"
    "rcv_wnd w' = int (rb_free_space (rcv_buf w))" "int (rb_free_space (rcv_buf w)) \<le> seq_diff (rcv_adv w') (rcv_nxt w')"
proof -
  have s: "state w = ESTAB" "rrb_safe (snd_buf w)" "\<not> close_requested w" "\<not> shutdown_requested w" "rcv_ok w"
    using assms(1) by (simp_all add: sendable_def)
  obtain data b where d: "rrb_dequeue (snd_buf w) (nat (min TCP_MAX_TX_BYTES (snd_wnd w))) = (data, b)" by (rule prod.exhaust)
  let ?v = "compute_rcv_wnd (w\<lparr>snd_buf := b\<rparr>)"
  have inv: "rrb_inv (snd_buf w)" by (rule rrbr.safe_inv [OF s(2)])
  have e: "data = []" using rrb_dequeue_chunks(2) [OF inv d] assms(2) by simp
  let ?w' = "(if ack_now w then send_ack ?v else ?v)\<lparr>ack_now := False\<rparr>"
  have t: "tx w = Some (Inr ?w')"
    using s(1,3,4) e unfolding tx_def tx_map_def tx_estab_def drain_snd_buf_eq [OF d]
    by (simp add: h_active_close_tx_def)
  have ok: "rcv_ok ?v" using s(5) by (simp add: rcv_ok_win)
  have ev: "events (send_ack x) = events x" for x by (simp add: send_ack_def tx_tcp_def)
  show ?thesis
  proof (rule that [OF t, of ?v])
    show "tx_log ?w' = tx_log w @ (if ack_now w then [ack_seg ?v] else [])" by (simp add: send_ack_def tx_tcp_def)
    show "tx_fixed ?v = tx_fixed w" "rcv_wnd ?v = int (rb_free_space (rcv_buf w))"
      by (simp_all add: tx_fixed_def compute_rcv_wnd_def Let_def)
    show "tx_fixed ?w' = tx_fixed w" using ev by (simp add: tx_fixed_def compute_rcv_wnd_def Let_def)
    show "sendable ?w'"
      using assms(1) ok rrbr.deq_safe [OF s(2) d] rrb.deq_cap [OF inv d] by (simp add: sendable_def rcv_ok_def)
    have "win_ok (w\<lparr>snd_buf := b\<rparr>)" using s(5) by (simp add: rcv_ok_win)
    from compute_rcv_wnd_fields(3,5) [OF this]
    show "rcv_wnd ?w' = int (rb_free_space (rcv_buf w))" "int (rb_free_space (rcv_buf w)) \<le> seq_diff (rcv_adv ?w') (rcv_nxt ?w')"
      by simp_all
    show "rrb_unacked (snd_buf ?w') = rrb_unacked (snd_buf w)" "rrb_contents (snd_buf ?w') = []"
      using rrbr.deq_safe [OF s(2) d] rrb.deq_contents [OF inv d] e assms(2) by simp_all
  qed simp_all
qed

text \<open>The arrival of the acknowledgment of everything sent: the bytes are freed and the retransmission timer stops.\<close>

lemma ack_arrives:
  assumes "sendable w" "acks_all p w" "int (length (rrb_unacked (snd_buf w))) = seq_diff (snd_nxt w) (snd_una w)"
    and "rrb_contents (snd_buf w) = []"
  obtains w' where "rx p w = Inr w'" "sendable w'" "all_acked w'" "snd_nxt w' = snd_nxt w" "tx_log w' = tx_log w"
    "events w' = events w @ [TCPEvent SEND (Some (cb_ref w)) None]" "so_error w' = so_error w" "tcp_tbl w' = tcp_tbl w"
    "cb_ref w' = cb_ref w" "(lip w', lp w', rip w', rp w') = (lip w, lp w, rip w, rp w)" "remote_mss w' = remote_mss w"
    "rcv_nxt w' = rcv_nxt w" "rcv_buf w' = rcv_buf w" "ack_now w' = ack_now w" "snd_wnd w' = snd_wnd w \<or> snd_wnd w' = sg_window p"
proof -
  have s: "state w = ESTAB" "rrb_safe (snd_buf w)" "win_ok w" "seq_num (snd_nxt w)" "\<not> close_requested w" "\<not> shutdown_requested w"
    "\<not> sent_fin w"
    using assms(1) by (simp_all add: sendable_def rcv_ok_win)
  note k = acks_all_checks [OF s(3) assms(2)]
  have f: "\<not> sg_fin p" "\<not> sg_syn p" "sg_dlen p = 0" using assms(2) by (simp_all add: acks_all_def)
  let ?d = "seq_diff (snd_nxt w) (snd_una w)"
  let ?x = "estab_acked ?d (w\<lparr>snd_una := snd_nxt w\<rparr>)"
  define v where "v = compute_rcv_wnd (snd (h_rx_wnd p ?x))"
  let ?w' = "schedule_send v"
  have ap: "snd (append_rcv_data p u) = compute_rcv_wnd u" for u
    using k(6) by (simp add: append_rcv_data_def Let_def)
  have r: "rx p w = Inr ?w'"
    using s(1) f k(2,3,5)
    by (simp add: rx_def rx_map_def rx_estab_def estab_accept_def Let_def set_ack_now_def ap v_def)
  have fr: "snd_buf ?x = rrb_free (snd_buf w) (int (length (rrb_unacked (snd_buf w))))" "rtx_timer ?x = None"
    using k(4) assms(3) by (simp_all add: estab_acked_def Let_def)
  note free = rrbr.ack_safe [OF s(2) order.refl, folded fr(1)]
  have cap: "rrb_cap (snd_buf ?x) = 65534" using assms(1) fr(1) by (simp add: sendable_def rrb_cap_def rrb_free_def)
  have wn: "snd_wnd v = snd_wnd w \<or> snd_wnd v = sg_window p"
    by (simp add: v_def) (simp add: h_rx_wnd_def estab_acked_def Let_def)
  have x: "snd_una ?x = snd_nxt w" "snd_nxt ?x = snd_nxt w" "tx_log ?x = tx_log w" "events ?x = events w" "so_error ?x = so_error w"
    "tcp_tbl ?x = tcp_tbl w" "cb_ref ?x = cb_ref w" "(lip ?x, lp ?x, rip ?x, rp ?x) = (lip w, lp w, rip w, rp w)"
    "remote_mss ?x = remote_mss w" "close_requested ?x = close_requested w" "shutdown_requested ?x = shutdown_requested w"
    "sent_fin ?x = sent_fin w"
    by (simp_all add: estab_acked_def Let_def) (simp_all add: notify_def)
  have sd: "snd_side v = snd_side ?x" "tx_log v = tx_log ?x" "events v = events ?x" "so_error v = so_error ?x" "tcp_tbl v = tcp_tbl ?x"
    by (simp_all add: v_def snd_side_def compute_rcv_wnd_def Let_def h_rx_wnd_def)
  have rc: "rcv_nxt v = rcv_nxt w" "rcv_buf v = rcv_buf w" "ack_now v = ack_now w" "state v = ESTAB"
    using s(1) by (simp_all add: v_def) (simp_all add: compute_rcv_wnd_def Let_def)
  have "win_ok (w\<lparr>snd_una := snd_nxt w\<rparr>)" using s(3) by (simp add: win_ok_def)
  then have ok: "rcv_ok v" by (simp add: v_def rcv_ok_win)
  show ?thesis
  proof (rule that [OF r])
    show "sendable ?w'" using sd(1) x rc ok free cap s by (simp add: sendable_def snd_side_def rcv_ok_def)
    show "all_acked ?w'" using sd(1) x fr free assms(4) by (simp add: all_acked_def snd_side_def)
  qed (use sd x rc wn in \<open>simp_all add: schedule_send_kept snd_side_def\<close>)
qed

end
