(* ===== verification/Tcp_Transfer.thy ===== *)
theory Tcp_Transfer
  imports Tcp_Exchange
begin

text \<open>
  Two stacks that are connected: the events, frames and calls that move data from a socket of the one to a
  socket of the other and the acknowledgment back.
\<close>

section \<open>The control block in the core\<close>

lemma fsm_of_conn [simp]:
  "rcv_nxt (fsm_of t c) = rcv_nxt t" "rcv_adv (fsm_of t c) = rcv_adv t" "rcv_buf (fsm_of t c) = rcv_buf t"
  "snd_buf (fsm_of t c) = snd_buf t" "snd_wnd (fsm_of t c) = snd_wnd t" "remote_mss (fsm_of t c) = remote_mss t"
  "close_requested (fsm_of t c) = close_requested t" "shutdown_requested (fsm_of t c) = shutdown_requested t"
  "sent_fin (fsm_of t c) = sent_fin t" "challenge_ack_limit (fsm_of t c) = challenge_ack_limit t" "rtx_timer (fsm_of t c) = rtx_timer t" "ack_now (fsm_of t c) = ack_now t" "rto (fsm_of t c) = rto t"
  "timer (fsm_of t c) = c_timer c" "now_ns (fsm_of t c) = c_now_ns c"
  by (cases t; simp add: fsm_of_def tcpcb.defs fsm.defs)+

lemma truncate_conn [simp]:
  "rcv_adv (tcpcb.truncate w) = rcv_adv w" "rcv_buf (tcpcb.truncate w) = rcv_buf w" "snd_buf (tcpcb.truncate w) = snd_buf w"
  "snd_wnd (tcpcb.truncate w) = snd_wnd w" "close_requested (tcpcb.truncate w) = close_requested w"
  "shutdown_requested (tcpcb.truncate w) = shutdown_requested w" "sent_fin (tcpcb.truncate w) = sent_fin w" "challenge_ack_limit (tcpcb.truncate w) = challenge_ack_limit w"
  "rtx_timer (tcpcb.truncate w) = rtx_timer w"
  "ack_now (tcpcb.truncate w) = ack_now w" "rto (tcpcb.truncate w) = rto w"
  by (simp_all add: tcpcb.defs)

lemma conn_preds [simp]:
  "sendable (fsm_of t c) = sendable t" "sendable (tcpcb.truncate w) = sendable w"
  "all_acked (fsm_of t c) = all_acked t" "all_acked (tcpcb.truncate w) = all_acked w"
  "snd_side (fsm_of t c) = snd_side t" "snd_side (tcpcb.truncate w) = snd_side w"
  "rcv_ok (fsm_of t c) = rcv_ok t" "rcv_ok (tcpcb.truncate w) = rcv_ok w"
  by (simp_all add: sendable_def all_acked_def snd_side_def rcv_ok_def)

section \<open>The stack around a connection\<close>

text \<open>The socket \<open>ref\<close> and the control block \<open>cb\<close> of the connection \<open>sid\<close> on a stack that has its address and
  reaches the peer through a resolved next hop.\<close>

definition wired :: "core \<Rightarrow> nat \<Rightarrow> nat \<Rightarrow> sock_id \<Rightarrow> int \<Rightarrow> bool" where
  "wired c ref cb sid mac \<longleftrightarrow> c_so_error c ref = NoErr \<and> (\<exists>s. c_socks c ref = Some s \<and> s_sock_id s = sid) \<and>
     tcp_sockets (c_tcp c) sid \<noteq> None \<and> tcp_tcpcbs (c_tcp c) sid = Some cb \<and> sid_ok sid \<and>
     c_unicast_ip c = Some (fst sid) \<and> c_rx_ip_enabled c \<and> \<not> ip_is_broadcast (fst (snd (snd sid))) \<and>
     \<not> ip_is_multicast (fst (snd (snd sid))) \<and> fst (ip_route (fst (snd (snd sid))) c) = Some mac \<and>
     mac_ok mac \<and> mac_ok (c_unicast_mac c)"

definition conn_at :: "core \<Rightarrow> nat \<Rightarrow> nat \<Rightarrow> sock_id \<Rightarrow> int \<Rightarrow> tcpcb \<Rightarrow> bool" where
  "conn_at c ref cb sid mac t \<longleftrightarrow> wired c ref cb sid mac \<and> c_tcpcbs c cb = Some t \<and> cb_ref t = cb \<and>
     (lip t, lp t, rip t, rp t) = sid"

definition net_kept :: "core \<Rightarrow> core \<Rightarrow> bool" where
  "net_kept c c' \<longleftrightarrow> c_so_error c' = c_so_error c \<and> c_socks c' = c_socks c \<and> c_tcp c' = c_tcp c \<and>
     c_unicast_ip c' = c_unicast_ip c \<and> c_rx_ip_enabled c' = c_rx_ip_enabled c \<and> c_unicast_mac c' = c_unicast_mac c \<and>
     (\<forall>d. ip_route d c' = ip_route d c)"

lemma wired_kept: "net_kept c c' \<Longrightarrow> wired c' ref cb sid mac = wired c ref cb sid mac"
  by (simp add: net_kept_def wired_def)

lemma net_kept_trans [trans]: "net_kept a b \<Longrightarrow> net_kept b c \<Longrightarrow> net_kept a c"
  by (simp add: net_kept_def)

lemma net_kept_upd [simp]:
  "net_kept c (c\<lparr>c_events := q\<rparr>)" "net_kept c (with_cb cb t c)" "net_kept c (with_send_event cb c)" "net_kept c (segment_sent m s c)"
  by (simp_all add: net_kept_def with_cb_def with_send_event_def segment_sent_def ip_route_def find_entry_def)

lemma net_kept_core_of: "so_error w = c_so_error c \<Longrightarrow> tcp_tbl w = c_tcp c \<Longrightarrow> net_kept c (core_of w c)"
  by (simp add: net_kept_def)

lemma conn_atD:
  assumes "conn_at c ref cb sid mac t"
  shows "wired c ref cb sid mac" "c_tcpcbs c cb = Some t" "cb_ref t = cb" "(lip t, lp t, rip t, rp t) = sid"
    "sock_connected c ref cb t" "sid_ok sid" "mac_ok mac" "mac_ok (c_unicast_mac c)"
    "ip_route (fst (snd (snd sid))) c = (Some mac, snd (ip_route (fst (snd (snd sid))) c))"
  using assms by (auto simp: conn_at_def wired_def sock_connected_def intro: prod_eqI)

section \<open>Frames\<close>

definition frame_of :: "core \<Rightarrow> int \<Rightarrow> out_seg \<Rightarrow> ether_builder \<Rightarrow> bool" where
  "frame_of c mac s fb \<longleftrightarrow> (\<exists>i. 0 \<le> i \<and> i < 65536 \<and> fb = ip_frame c mac (seg_dgram s i))"

lemma frame_of_kept: "net_kept c c' \<Longrightarrow> frame_of c' mac = frame_of c mac"
  by (simp add: fun_eq_iff frame_of_def ip_frame_def net_kept_def)

definition seg_from :: "sock_id \<Rightarrow> out_seg \<Rightarrow> bool" where
  "seg_from sid s \<longleftrightarrow> out_seg_ok s \<and> os_src s = (fst sid, fst (snd sid)) \<and> os_dst s = snd (snd sid)"

text \<open>The segments of one handler leave as one frame each.\<close>

lemma segments_leave:
  assumes "\<forall>s\<in>set segs. seg_from sid s" "ip_route (fst (snd (snd sid))) c = (Some mac, nh)"
  shows "\<exists>c' fbs. for_op segs core_tx_tcp c = Some (Inr (), c') \<and> net_kept c c' \<and> c_tcpcbs c' = c_tcpcbs c \<and>
    c_events c' = c_events c \<and> c_tx_ring c' = c_tx_ring c @ fbs \<and> list_all2 (frame_of c mac) segs fbs \<and>
    c_timer c' = c_timer c \<and> c_now_ns c' = c_now_ns c"
  using assms
proof (induction segs arbitrary: c)
  case Nil
  show ?case by (rule exI [of _ c], rule exI [of _ "[]"]) (simp add: net_kept_def)
next
  case (Cons s segs)
  let ?c = "segment_sent mac s c"
  have s: "out_seg_ok s" "ip_route (fst (os_dst s)) c = (Some mac, nh)" using Cons.prems by (simp_all add: seg_from_def)
  have k: "net_kept c ?c" by simp
  obtain c' fbs where IH: "for_op segs core_tx_tcp ?c = Some (Inr (), c')" "net_kept ?c c'" "c_tcpcbs c' = c_tcpcbs ?c"
      "c_events c' = c_events ?c" "c_tx_ring c' = c_tx_ring ?c @ fbs" "list_all2 (frame_of ?c mac) segs fbs"
      "c_timer c' = c_timer ?c" "c_now_ns c' = c_now_ns ?c"
    using Cons.IH [of ?c] Cons.prems by (auto simp: route_sent)
  have f: "frame_of c mac s (ip_frame c mac (seg_dgram s (next_ident c)))"
    using next_ident_range [of c] by (auto simp: frame_of_def)
  have "for_op (s # segs) core_tx_tcp c = Some (Inr (), c')"
    using core_tx_tcp_resolved [OF s] IH(1) by (simp add: then_op_bind bind_op_def segment_sent_def)
  then show ?case
    using IH(2-) f net_kept_trans [OF k IH(2)] frame_of_kept [OF k, of mac]
    by (intro exI [of _ c'] exI [of _ "ip_frame c mac (seg_dgram s (next_ident c)) # fbs"]) (simp add: segment_sent_def)
qed

text \<open>A handler of the event thread, with the frames it sends.\<close>

lemma event_handled:
  assumes "conn_at c ref cb sid mac t" "ev_tcpcb ev = Some cb" "event_handler ev (fsm_of t c) = Some (Inr w)"
    and "so_error w = c_so_error c" "tcp_tbl w = c_tcp c" "cb_ref w = cb_ref t"
    and "(lip w, lp w, rip w, rp w) = (lip t, lp t, rip t, rp t)" "\<forall>s\<in>set (tx_log w). seg_from sid s"
  obtains c' fbs where "handle_event ev c = Some (Inr (), c')" "net_kept c c'" "conn_at c' ref cb sid mac (tcpcb.truncate w)"
    "c_events c' = events w" "c_tx_ring c' = c_tx_ring c @ fbs" "list_all2 (frame_of c mac) (tx_log w) fbs"
    "c_timer c' = timer w" "c_now_ns c' = c_now_ns c"
proof -
  note a = conn_atD [OF assms(1)]
  have "ip_route (fst (snd (snd sid))) (core_of w c) = (Some mac, snd (ip_route (fst (snd (snd sid))) c))"
    using a(9) by simp
  from segments_leave [OF assms(8) this] obtain c' fbs where
    c': "for_op (tx_log w) core_tx_tcp (core_of w c) = Some (Inr (), c')" "net_kept (core_of w c) c'"
      "c_tcpcbs c' = c_tcpcbs (core_of w c)" "c_events c' = events w" "c_tx_ring c' = c_tx_ring c @ fbs"
      "list_all2 (frame_of (core_of w c) mac) (tx_log w) fbs" "c_timer c' = timer w" "c_now_ns c' = c_now_ns c"
    by (auto simp: core_of_def)
  have k: "net_kept c (core_of w c)" by (rule net_kept_core_of [OF assms(4,5)])
  then have k': "net_kept c c'" using c'(2) by (rule net_kept_trans)
  have "handle_event ev c = Some (Inr (), c')" using assms(2,3) a(2) c'(1) by (simp add: handle_event_def)
  moreover have "conn_at c' ref cb sid mac (tcpcb.truncate w)"
    using a(1,3,4) c'(3) assms(6,7) wired_kept [OF k', of ref cb sid mac] by (simp add: conn_at_def)
  ultimately show ?thesis using that k' c'(4-8) frame_of_kept [OF k, of mac] by simp
qed

text \<open>Frames that reach the other end in one batch: one event each, in order.\<close>

definition segment_event :: "nat \<Rightarrow> tcp_seg \<Rightarrow> tcp_event" where
  "segment_event cb p = TCPEvent RX_SEGMENT (Some cb) (Some p)"

definition mirror :: "sock_id \<Rightarrow> sock_id" where
  "mirror sid = (fst (snd (snd sid)), snd (snd (snd sid)), fst sid, fst (snd sid))"

lemma mirror_mirror [simp]: "mirror (mirror sid) = sid"
  by (simp add: mirror_def)

lemma frames_arrive:
  assumes "wired c ref cb sid mac" "\<forall>s\<in>set segs. seg_from (mirror sid) s" "list_all2 (frame_of peer pmac) segs fbs"
    "mac_ok pmac" "mac_ok (c_unicast_mac peer)"
  shows "\<exists>fs ps. map tx_frame_bytes fbs = map Inr fs \<and> list_all2 seg_received segs ps \<and>
    deque_batch fs c = Some (Inr (), c\<lparr>c_events := c_events c @ map (segment_event cb) ps\<rparr>)"
  using assms(1,2,3)
proof (induction segs arbitrary: c fbs)
  case Nil
  then show ?case by (intro exI [of _ "[]"]) (simp add: deque_batch_def)
next
  case (Cons s segs)
  obtain fb fbs' where "fbs = fb # fbs'" "frame_of peer pmac s fb" and l: "list_all2 (frame_of peer pmac) segs fbs'"
    using Cons.prems(3) by (auto simp: list_all2_Cons1)
  then obtain i where fb: "fbs = ip_frame peer pmac (seg_dgram s i) # fbs'" "0 \<le> i" "i < 65536"
    by (auto simp: frame_of_def)
  have s: "out_seg_ok s" "os_src s = snd (snd sid)" "os_dst s = (fst sid, fst (snd sid))"
    using Cons.prems(2) by (simp_all add: seg_from_def mirror_def)
  have acc: "accepts c s" using Cons.prems(1) s(2,3) by (simp add: accepts_def wired_def)
  obtain f p where f: "tx_frame_bytes (ip_frame peer pmac (seg_dgram s i)) = Inr f" "seg_received s p"
      "handle_packet f c = Some (Inr (), c\<lparr>c_events := c_events c @ [segment_event cb p]\<rparr>)"
    using segment_frame_received [OF s(1) fb(2,3) assms(4,5) acc] Cons.prems(1) s(2,3)
    by (auto simp: Let_def wired_def segment_event_def)
  let ?c = "c\<lparr>c_events := c_events c @ [segment_event cb p]\<rparr>"
  have "wired ?c ref cb sid mac" using Cons.prems(1) wired_kept [OF net_kept_upd(1)] by simp
  then obtain fs ps where IH: "map tx_frame_bytes fbs' = map Inr fs" "list_all2 seg_received segs ps"
      "deque_batch fs ?c = Some (Inr (), ?c\<lparr>c_events := c_events ?c @ map (segment_event cb) ps\<rparr>)"
    using Cons.IH [of ?c fbs'] Cons.prems(2) l by auto
  then show ?case
    using f fb(1) by (intro exI [of _ "f # fs"] exI [of _ "p # ps"]) (simp add: deque_batch_def then_op_bind bind_op_def)
qed

section \<open>Events\<close>

lemma handle_events_Cons:
  assumes "c_events c = ev # q"
  shows "handle_events (Suc n) c = then_op (handle_event ev) (handle_events n) (c\<lparr>c_events := q\<rparr>)"
  using assms by (simp add: pop_event_def then_op_bind bind_op_def split: option.split prod.split sum.split)

lemma events_pass_all: "length (c_events c) \<le> MAX_EVENTS \<Longrightarrow> tcp_events_pass c = handle_events (length (c_events c)) c"
  by (simp add: tcp_events_pass_def)

lemma conn_at_events [simp]: "conn_at (c\<lparr>c_events := q\<rparr>) ref cb sid mac t = conn_at c ref cb sid mac t"
  using wired_kept [OF net_kept_upd(1), of q c] by (simp add: conn_at_def)

definition send_event :: "nat \<Rightarrow> tcp_event" where
  "send_event cb = TCPEvent SEND (Some cb) None"

text \<open>The data segments a receiver can take: consecutive, from its RCV.NXT on, with nothing new to acknowledge.\<close>

definition takes :: "tcpcb \<Rightarrow> fsm \<Rightarrow> out_seg list \<Rightarrow> bool" where
  "takes t v segs \<longleftrightarrow> sendable t \<and> all_acked t \<and> rcv_nxt v = snd_una t \<and> (segs \<noteq> [] \<longrightarrow> rcv_wnd t \<noteq> 0) \<and>
     length (payload segs) \<le> rb_free_space (rcv_buf t) \<and> int (length (payload segs)) < seq_diff (rcv_adv t) (rcv_nxt t) \<and>
     int MAX_EVENTS \<le> snd_wnd t \<and> int MAX_EVENTS \<le> rcv_wnd v"

lemma takes_plain:
  assumes "takes t v (s # segs)" "stream_segs mss v False (rcv_nxt t) (s # segs)" "mss \<le> 1460" "seg_received s p"
  shows "plain_data 0 p (fsm_of t c)" "sg_ack_seq p = snd_una t" "sg_data p = os_data s"
    "length (os_data s) \<le> rb_free_space (rcv_buf t)" "sg_window p = rcv_wnd v"
proof -
  have x: "s = (data_seg False (os_data s) v)\<lparr>os_seq := mask32 (rcv_nxt t)\<rparr>" "os_data s \<noteq> []" "int (length (os_data s)) \<le> mss"
    using assms(2) by simp_all
  have f: "os_syn s = False" "os_fin s = False" "os_rst s = False" "os_seq s = mask32 (rcv_nxt t)" "os_ack_seq s = rcv_nxt v" "os_window s = rcv_wnd v"
    by (subst x(1), simp add: data_seg_def ack_seg_def seg0_def)+
  have n: "mask32 (rcv_nxt t) = rcv_nxt t" using assms(1) by (simp add: takes_def sendable_def rcv_ok_def mask32_id)
  have l: "length (os_data s) \<le> length (payload (s # segs))" by (simp add: payload_def)
  show "plain_data 0 p (fsm_of t c)"
    using assms(1,3,4) f n x(2,3) l by (auto simp: plain_data_def seg_received_def seg_wf_def takes_def)
  show "sg_ack_seq p = snd_una t" "sg_data p = os_data s" "length (os_data s) \<le> rb_free_space (rcv_buf t)"
    "sg_window p = rcv_wnd v"
    using assms(1,4) f l by (simp_all add: seg_received_def takes_def)
qed

text \<open>The event of one of these segments, and of all of them.\<close>

lemma data_event:
  assumes "conn_at c ref cb sid mac t" "takes t v (s # segs)" "stream_segs mss v False (rcv_nxt t) (s # segs)" "mss \<le> 1460"
    and "seg_received s p"
  obtains c' t' where "handle_event (segment_event cb p) c = Some (Inr (), c')" "net_kept c c'" "conn_at c' ref cb sid mac t'"
    "c_events c' = c_events c @ [send_event cb]" "c_tx_ring c' = c_tx_ring c" "takes t' v segs"
    "stream_segs mss v False (rcv_nxt t') segs" "snd_nxt t' = snd_nxt t" "remote_mss t' = remote_mss t" "ack_now t'"
    "rcv_nxt t' = mask32 (rcv_nxt t + int (length (os_data s)))" "rb_contents (rcv_buf t') = rb_contents (rcv_buf t) @ os_data s"
    "challenge_ack_limit t' = challenge_ack_limit t"
proof -
  let ?L = "int (length (os_data s))"
  note k = takes_plain [OF assms(2-5)] and a = conn_atD [OF assms(1)]
  have t: "sendable t" "all_acked t" "rcv_nxt v = snd_una t" "rcv_wnd t \<noteq> 0" "state t = ESTAB" "rcv_ok t"
    using assms(2) by (simp_all add: takes_def sendable_def)
  obtain w where w: "rx p (fsm_of t c) = Inr w" "snd_side w = snd_side t" "tx_log w = []" "so_error w = c_so_error c"
    "tcp_tbl w = c_tcp c" "events w = c_events c @ [send_event cb]" "state w = ESTAB" "ack_now w" "rcv_ok w"
    "rcv_nxt w = mask32 (rcv_nxt t + ?L)" "rb_contents (rcv_buf w) = rb_contents (rcv_buf t) @ os_data s"
    "rb_free_space (rcv_buf w) = rb_free_space (rcv_buf t) - length (os_data s)" "rcv_wnd w = int (rb_free_space (rcv_buf w))"
    "seq_diff (rcv_adv w) (rcv_nxt w) = max (seq_diff (rcv_adv t) (rcv_nxt t) - ?L) (int (rb_free_space (rcv_buf t)))"
    "snd_wnd w = snd_wnd t \<or> snd_wnd w = rcv_wnd v"
    using data_arrives [of "fsm_of t c" p] t k a(3) by (auto simp: send_event_def)
  have id: "cb_ref w = cb_ref t" "(lip w, lp w, rip w, rp w) = (lip t, lp t, rip t, rp t)" using w(2) by (simp_all add: snd_side_def)
  have log: "\<forall>x\<in>set (tx_log w). seg_from sid x" using w(3) by simp
  have ev: "ev_tcpcb (segment_event cb p) = Some cb" "event_handler (segment_event cb p) (fsm_of t c) = Some (Inr w)"
    using w(1) by (simp_all add: segment_event_def event_handler_def)
  obtain c' fbs where c': "handle_event (segment_event cb p) c = Some (Inr (), c')" "net_kept c c'"
    "conn_at c' ref cb sid mac (tcpcb.truncate w)" "c_events c' = events w" "c_tx_ring c' = c_tx_ring c @ fbs"
    "list_all2 (frame_of c mac) (tx_log w) fbs"
    by (rule event_handled [OF assms(1) ev w(4,5) id log])
  let ?t = "tcpcb.truncate w"
  have sd: "sendable ?t" "all_acked ?t" "snd_una ?t = snd_una t" "snd_nxt ?t = snd_nxt t" "remote_mss ?t = remote_mss t" "challenge_ack_limit ?t = challenge_ack_limit t"
    using t(1,2) w(2,7,9) by (auto simp: sendable_def all_acked_def snd_side_def)
  have pl: "length (payload (s # segs)) = length (os_data s) + length (payload segs)" by (simp add: payload_def)
  have ne: "segs \<noteq> [] \<Longrightarrow> payload segs \<noteq> []" using assms(3) by (cases segs) (auto simp: payload_def)
  show ?thesis
  proof (rule that [OF c'(1-3)])
    show "takes ?t v segs" using assms(2) sd t(3) w(12-15) k(4) ne unfolding takes_def pl by auto
    show "stream_segs mss v False (rcv_nxt ?t) segs" using assms(3) w(10) by (simp add: stream_segs_mask)
  qed (use sd w c'(4-6) in simp_all)
qed

lemma data_events:
  assumes "conn_at c ref cb sid mac t" "takes t v segs" "stream_segs mss v False (rcv_nxt t) segs" "mss \<le> 1460"
    and "list_all2 seg_received segs ps" "c_events c = map (segment_event cb) ps @ q"
  shows "\<exists>c' t'. handle_events (length ps) c = Some (Inr (), c') \<and> net_kept c c' \<and> conn_at c' ref cb sid mac t' \<and>
    c_events c' = q @ replicate (length ps) (send_event cb) \<and> c_tx_ring c' = c_tx_ring c \<and> takes t' v [] \<and>
    snd_nxt t' = snd_nxt t \<and> remote_mss t' = remote_mss t \<and> (ack_now t' \<longleftrightarrow> ack_now t \<or> segs \<noteq> []) \<and>
    rcv_nxt t' = mask32 (rcv_nxt t + int (length (payload segs))) \<and> rb_contents (rcv_buf t') = rb_contents (rcv_buf t) @ payload segs \<and>
    challenge_ack_limit t' = challenge_ack_limit t"
  using assms(1,2,3,5,6)
proof (induction segs arbitrary: c t ps q)
  case Nil
  then have "mask32 (rcv_nxt t) = rcv_nxt t" by (simp add: takes_def sendable_def rcv_ok_def mask32_id)
  then show ?case using Nil by (intro exI [of _ c] exI [of _ t]) (simp add: takes_def payload_def net_kept_def)
next
  case (Cons s segs)
  obtain p ps' where p: "ps = p # ps'" "seg_received s p" "list_all2 seg_received segs ps'"
    using Cons.prems(4) by (auto simp: list_all2_Cons1)
  let ?c = "c\<lparr>c_events := map (segment_event cb) ps' @ q\<rparr>"
  have at: "conn_at ?c ref cb sid mac t" using Cons.prems(1) by simp
  obtain c1 t1 where c1: "handle_event (segment_event cb p) ?c = Some (Inr (), c1)" "net_kept ?c c1" "conn_at c1 ref cb sid mac t1"
    "c_events c1 = c_events ?c @ [send_event cb]" "c_tx_ring c1 = c_tx_ring ?c" "takes t1 v segs"
    "stream_segs mss v False (rcv_nxt t1) segs" "snd_nxt t1 = snd_nxt t" "remote_mss t1 = remote_mss t" "ack_now t1"
    "rcv_nxt t1 = mask32 (rcv_nxt t + int (length (os_data s)))" "rb_contents (rcv_buf t1) = rb_contents (rcv_buf t) @ os_data s"
    "challenge_ack_limit t1 = challenge_ack_limit t"
    by (rule data_event [OF at Cons.prems(2,3) assms(4) p(2)])
  have q: "c_events c1 = map (segment_event cb) ps' @ (q @ [send_event cb])" using c1(4) by simp
  obtain c' t' where IH: "handle_events (length ps') c1 = Some (Inr (), c')" "net_kept c1 c'" "conn_at c' ref cb sid mac t'"
    "c_events c' = (q @ [send_event cb]) @ replicate (length ps') (send_event cb)" "c_tx_ring c' = c_tx_ring c1" "takes t' v []"
    "snd_nxt t' = snd_nxt t1" "remote_mss t' = remote_mss t1" "ack_now t' \<longleftrightarrow> ack_now t1 \<or> segs \<noteq> []"
    "rcv_nxt t' = mask32 (rcv_nxt t1 + int (length (payload segs)))" "rb_contents (rcv_buf t') = rb_contents (rcv_buf t1) @ payload segs"
    "challenge_ack_limit t' = challenge_ack_limit t1"
    using Cons.IH [OF c1(3,6,7) p(3) q] by auto
  have e: "c_events c = segment_event cb p # map (segment_event cb) ps' @ q" using Cons.prems(5) p(1) by simp
  have "handle_events (length ps) c = Some (Inr (), c')"
    using c1(1) IH(1) p(1) by (simp add: handle_events_Cons [OF e] then_op_bind bind_op_def del: handle_events.simps)
  moreover have "net_kept c c'" using net_kept_trans [OF net_kept_upd(1) net_kept_trans [OF c1(2) IH(2)]] .
  moreover have "payload (s # segs) = os_data s @ payload segs" by (simp add: payload_def)
  ultimately show ?case
    using IH c1 p(1) by (intro exI [of _ c'] exI [of _ t']) (simp add: mask32_add_left add.assoc)
qed

section \<open>Send events\<close>

text \<open>What a segment needs to leave in a frame, for acknowledgments and data.\<close>

lemma rcv_ok_free: "rcv_ok (w :: fsm) \<Longrightarrow> int (rb_free_space (rcv_buf w)) < 65535"
  using win_ok_free [of w] by (simp add: rcv_ok_win DEFAULT_RCV_WND_def)

lemma ack_seg_from:
  assumes "(lip v, lp v, rip v, rp v) = sid" "sid_ok sid" "seq_num (rcv_nxt v)" "0 \<le> rcv_wnd v" "rcv_wnd v < 65536"
  shows "seq_num (snd_nxt v) \<Longrightarrow> seg_from sid (ack_seg v)"
    and "seq_num sq \<Longrightarrow> length d \<le> 1460 \<Longrightarrow> seg_from sid ((data_seg f d v)\<lparr>os_seq := sq\<rparr>)"
  using assms
  by (auto simp: seg_from_def out_seg_ok_def ack_seg_def data_seg_def seg0_def sid_ok_def seg_opts_def tcp_opts_len_def)

lemma stream_segs_from:
  assumes "(lip v, lp v, rip v, rp v) = sid" "sid_ok sid" "seq_num (rcv_nxt v)" "0 \<le> rcv_wnd v" "rcv_wnd v < 65536"
    and "mss \<le> 1460" "stream_segs mss v fin sq segs"
  shows "\<forall>s\<in>set segs. seg_from sid s"
  using assms(7)
proof (induction segs arbitrary: sq)
  case (Cons x xs)
  have x: "x = (data_seg (fin \<and> xs = []) (os_data x) v)\<lparr>os_seq := mask32 sq\<rparr>" "length (os_data x) \<le> 1460"
    using Cons.prems assms(6) by auto
  have "seg_from sid x"
    by (subst x(1), rule ack_seg_from(2) [OF assms(1-5)]) (use x(2) in simp_all)
  then show ?case using Cons by auto
qed simp

text \<open>An acknowledgment, and one with the numbers and the window of a control block.\<close>

definition ack_num :: "sock_id \<Rightarrow> int \<Rightarrow> int \<Rightarrow> int \<Rightarrow> out_seg \<Rightarrow> bool" where
  "ack_num sid sn rn wnd s \<longleftrightarrow> seg_from sid s \<and> os_seq s = sn \<and> os_ack_seq s = rn \<and> os_ack s \<and>
     \<not> os_syn s \<and> \<not> os_fin s \<and> \<not> os_rst s \<and> os_data s = [] \<and> os_window s = wnd"

definition ack_of :: "sock_id \<Rightarrow> tcpcb \<Rightarrow> out_seg \<Rightarrow> bool" where
  "ack_of sid t s \<longleftrightarrow> ack_num sid (snd_nxt t) (rcv_nxt t) (int (rb_free_space (rcv_buf t))) s"

lemmas ack_of_defs = ack_of_def ack_num_def

text \<open>What a send event without data keeps of a control block.\<close>

definition settled :: "tcpcb \<Rightarrow> _" where
  "settled t = (snd_una t, snd_nxt t, rrb_unacked (snd_buf t), rrb_contents (snd_buf t), rtx_timer t, rcv_nxt t, rcv_buf t,
     remote_mss t, snd_wnd t, challenge_ack_limit t)"

lemma send_event_idle:
  assumes "conn_at c ref cb sid mac t" "sendable t" "rrb_contents (snd_buf t) = []"
  obtains c' t' fbs segs where "handle_event (send_event cb) c = Some (Inr (), c')" "net_kept c c'" "conn_at c' ref cb sid mac t'"
    "c_events c' = c_events c" "c_tx_ring c' = c_tx_ring c @ fbs" "list_all2 (frame_of c mac) segs fbs"
    "if ack_now t then \<exists>s. segs = [s] \<and> ack_of sid t s else segs = []" "sendable t'" "settled t' = settled t" "\<not> ack_now t'"
    "rcv_wnd t' = int (rb_free_space (rcv_buf t))" "int (rb_free_space (rcv_buf t)) \<le> seq_diff (rcv_adv t') (rcv_nxt t')"
proof -
  let ?w = "fsm_of t c"
  note a = conn_atD [OF assms(1)]
  have s: "seq_num (snd_nxt t)" "seq_num (rcv_nxt t)" "int (rb_free_space (rcv_buf t)) < 65535"
    using assms(2) rcv_ok_free [of ?w] by (simp_all add: sendable_def rcv_ok_def)
  obtain w v where w: "tx ?w = Some (Inr w)" "tx_log w = tx_log ?w @ (if ack_now ?w then [ack_seg v] else [])" "\<not> ack_now w"
    "tx_fixed v = tx_fixed ?w" "snd_nxt v = snd_nxt ?w" "rcv_wnd v = int (rb_free_space (rcv_buf ?w))" "tx_fixed w = tx_fixed ?w" "sendable w"
    "snd_nxt w = snd_nxt ?w" "rrb_unacked (snd_buf w) = rrb_unacked (snd_buf ?w)" "rrb_contents (snd_buf w) = []" "rtx_timer w = rtx_timer ?w"
    "rcv_wnd w = int (rb_free_space (rcv_buf ?w))" "int (rb_free_space (rcv_buf ?w)) \<le> seq_diff (rcv_adv w) (rcv_nxt w)"
    by (rule ack_sent [of ?w]) (use assms(2,3) in simp_all)
  have v: "(lip v, lp v, rip v, rp v) = sid" "rcv_nxt v = rcv_nxt t" using w(4) a(4) by (auto simp: tx_fixed_def)
  have ak: "ack_of sid t (ack_seg v)"
    using ack_seg_from(1) [OF v(1) a(6)] s w(5,6) v by (auto simp: ack_of_defs ack_seg_def seg0_def)
  have fx: "so_error w = c_so_error c" "tcp_tbl w = c_tcp c" "cb_ref w = cb_ref t" "(lip w, lp w, rip w, rp w) = (lip t, lp t, rip t, rp t)"
    "events w = c_events c"
    using w(7) by (simp_all add: tx_fixed_def)
  have log: "\<forall>x\<in>set (tx_log w). seg_from sid x" using w(2) ak by (simp add: ack_of_defs)
  have ev: "ev_tcpcb (send_event cb) = Some cb" "event_handler (send_event cb) ?w = Some (Inr w)"
    using w(1) by (simp_all add: send_event_def event_handler_def)
  obtain c' fbs where c': "handle_event (send_event cb) c = Some (Inr (), c')" "net_kept c c'"
    "conn_at c' ref cb sid mac (tcpcb.truncate w)" "c_events c' = events w" "c_tx_ring c' = c_tx_ring c @ fbs"
    "list_all2 (frame_of c mac) (tx_log w) fbs"
    by (rule event_handled [OF assms(1) ev fx(1-4) log])
  show ?thesis
  proof (rule that [OF c'(1-3)])
    show "c_tx_ring c' = c_tx_ring c @ fbs" "list_all2 (frame_of c mac) (tx_log w) fbs" by (rule c'(5), rule c'(6))
    show "settled (tcpcb.truncate w) = settled t" using w assms(3) by (simp add: settled_def tx_fixed_def)
  qed (use w c'(4) fx ak in simp_all)
qed

lemma send_events_idle:
  assumes "conn_at c ref cb sid mac t" "sendable t" "rrb_contents (snd_buf t) = []" "c_events c = replicate n (send_event cb)"
  shows "\<exists>c' t' fbs segs. handle_events n c = Some (Inr (), c') \<and> net_kept c c' \<and> conn_at c' ref cb sid mac t' \<and>
    c_events c' = [] \<and> c_tx_ring c' = c_tx_ring c @ fbs \<and> list_all2 (frame_of c mac) segs fbs \<and>
    (if ack_now t \<and> n \<noteq> 0 then \<exists>s. segs = [s] \<and> ack_of sid t s else segs = []) \<and> sendable t' \<and> settled t' = settled t \<and>
    (ack_now t' \<longleftrightarrow> ack_now t \<and> n = 0) \<and> (n \<noteq> 0 \<longrightarrow> rcv_wnd t' = int (rb_free_space (rcv_buf t)) \<and>
       int (rb_free_space (rcv_buf t)) \<le> seq_diff (rcv_adv t') (rcv_nxt t'))"
  using assms
proof (induction n arbitrary: c t)
  case 0
  then show ?case by (intro exI [of _ c] exI [of _ t] exI [of _ "[]"]) (simp add: net_kept_def)
next
  case (Suc n)
  let ?c = "c\<lparr>c_events := replicate n (send_event cb)\<rparr>"
  have at: "conn_at ?c ref cb sid mac t" using Suc.prems(1) by simp
  obtain c1 t1 fbs segs where c1: "handle_event (send_event cb) ?c = Some (Inr (), c1)" "net_kept ?c c1" "conn_at c1 ref cb sid mac t1"
    "c_events c1 = c_events ?c" "c_tx_ring c1 = c_tx_ring ?c @ fbs" "list_all2 (frame_of ?c mac) segs fbs"
    "if ack_now t then \<exists>s. segs = [s] \<and> ack_of sid t s else segs = []" "sendable t1" "settled t1 = settled t" "\<not> ack_now t1"
    "rcv_wnd t1 = int (rb_free_space (rcv_buf t))" "int (rb_free_space (rcv_buf t)) \<le> seq_diff (rcv_adv t1) (rcv_nxt t1)"
    by (rule send_event_idle [OF at Suc.prems(2,3)])
  have t1: "rrb_contents (snd_buf t1) = []" "c_events c1 = replicate n (send_event cb)"
    using c1(4,9) Suc.prems(3) by (simp_all add: settled_def)
  obtain c' t' where IH: "handle_events n c1 = Some (Inr (), c')" "net_kept c1 c'" "conn_at c' ref cb sid mac t'"
    "c_events c' = []" "c_tx_ring c' = c_tx_ring c1" "sendable t'" "settled t' = settled t1" "\<not> ack_now t'"
    "rcv_wnd t' = int (rb_free_space (rcv_buf t)) \<and> int (rb_free_space (rcv_buf t)) \<le> seq_diff (rcv_adv t') (rcv_nxt t')"
  proof (cases "n = 0")
    case True
    then show ?thesis
      using that [of c1 t1] c1(3,8,10-12) t1 by (simp add: net_kept_def)
  next
    case False
    have "rcv_buf t1 = rcv_buf t" using c1(9) by (simp add: settled_def)
    then show ?thesis using that Suc.IH [OF c1(3,8) t1] c1(10) False by auto
  qed
  have e: "c_events c = send_event cb # replicate n (send_event cb)" using Suc.prems(4) by simp
  have k: "net_kept c ?c" by simp
  have "handle_events (Suc n) c = Some (Inr (), c')"
    using c1(1) IH(1) by (simp add: handle_events_Cons [OF e] then_op_bind bind_op_def del: handle_events.simps)
  moreover have "net_kept c c'" using net_kept_trans [OF k net_kept_trans [OF c1(2) IH(2)]] .
  ultimately show ?case
    using IH c1(5-9) frame_of_kept [OF k, of mac]
    by (intro exI [of _ c'] exI [of _ t'] exI [of _ fbs] exI [of _ segs]) simp
qed

text \<open>An event that sends data: a send event, and a retransmission, which starts from another control block \<open>t\<close>.\<close>

lemma send_event_data:
  assumes "conn_at c ref cb sid mac t0" "sendable t" "rrb_contents (snd_buf t) \<noteq> []" "0 < remote_mss t" "remote_mss t \<le> 1460"
    and "int (length (rrb_contents (snd_buf t))) \<le> snd_wnd t" "int (length (rrb_contents (snd_buf t))) \<le> TCP_MAX_TX_BYTES"
    and "ev_tcpcb ev = Some cb" "event_handler ev (fsm_of t0 c) = tx (fsm_of t c)" "cb_ref t = cb_ref t0"
    and "(lip t, lp t, rip t, rp t) = (lip t0, lp t0, rip t0, rp t0)"
  obtains c' t' fbs segs v where "handle_event ev c = Some (Inr (), c')" "net_kept c c'" "conn_at c' ref cb sid mac t'"
    "c_events c' = c_events c" "c_tx_ring c' = c_tx_ring c @ fbs" "list_all2 (frame_of c mac) segs fbs" "\<forall>s\<in>set segs. seg_from sid s"
    "payload segs = rrb_contents (snd_buf t)" "stream_segs (remote_mss t) v False (snd_nxt t) segs" "rcv_nxt v = rcv_nxt t"
    "sendable t'" "rrb_unacked (snd_buf t') = rrb_unacked (snd_buf t) @ rrb_contents (snd_buf t)" "rrb_contents (snd_buf t') = []"
    "snd_una t' = snd_una t" "snd_nxt t' = mask32 (snd_nxt t + int (length (rrb_contents (snd_buf t))))" "rcv_nxt t' = rcv_nxt t"
    "rcv_buf t' = rcv_buf t" "remote_mss t' = remote_mss t" "ack_now t' = ack_now t" "snd_wnd t' = snd_wnd t"
    "rcv_wnd v = int (rb_free_space (rcv_buf t))" "rtx_armed (fsm_of t c) (fsm_of t' c')" "rto t' = rto t" "c_now_ns c' = c_now_ns c"
proof -
  let ?w = "fsm_of t c" and ?d = "rrb_contents (snd_buf t)"
  note a = conn_atD [OF assms(1)]
  have s: "seq_num (snd_nxt t)" "seq_num (rcv_nxt t)" "int (rb_free_space (rcv_buf t)) < 65535"
    using assms(2) rcv_ok_free [of ?w] by (simp_all add: sendable_def rcv_ok_def)
  obtain w v segs where w: "tx ?w = Some (Inr w)" "tx_log w = tx_log ?w @ segs" "payload segs = rrb_contents (snd_buf ?w)"
    "stream_segs (remote_mss ?w) v False (snd_nxt ?w) segs" "tx_fixed v = tx_fixed ?w" "rcv_wnd v = int (rb_free_space (rcv_buf ?w))"
    "tx_fixed w = tx_fixed ?w" "sendable w" "snd_nxt w = mask32 (snd_nxt ?w + int (length (rrb_contents (snd_buf ?w))))"
    "rrb_unacked (snd_buf w) = rrb_unacked (snd_buf ?w) @ rrb_contents (snd_buf ?w)" "rrb_contents (snd_buf w) = []" "ack_now w = ack_now ?w"
    "rtx_armed ?w w" "rto w = rto ?w"
    by (rule data_sent [of ?w]) (use assms in simp_all)
  have v: "(lip v, lp v, rip v, rp v) = sid" "rcv_nxt v = rcv_nxt t" using w(5) a(4) assms(11) by (auto simp: tx_fixed_def)
  have fx: "so_error w = c_so_error c" "tcp_tbl w = c_tcp c" "cb_ref w = cb_ref t0" "(lip w, lp w, rip w, rp w) = (lip t0, lp t0, rip t0, rp t0)"
    "events w = c_events c" "snd_una w = snd_una t" "rcv_nxt w = rcv_nxt t" "rcv_buf w = rcv_buf t" "remote_mss w = remote_mss t"
    "snd_wnd w = snd_wnd t"
    using w(7) assms(10,11) by (simp_all add: tx_fixed_def)
  have segs: "\<forall>x\<in>set segs. seg_from sid x"
    by (rule stream_segs_from [OF v(1) a(6) _ _ _ assms(5)]) (use v(2) s w(4,6) in simp_all)
  have ev: "event_handler ev (fsm_of t0 c) = Some (Inr w)" using w(1) assms(9) by simp
  have log: "\<forall>x\<in>set (tx_log w). seg_from sid x" using segs w(2) by simp
  obtain c' fbs where c': "handle_event ev c = Some (Inr (), c')" "net_kept c c'"
    "conn_at c' ref cb sid mac (tcpcb.truncate w)" "c_events c' = events w" "c_tx_ring c' = c_tx_ring c @ fbs"
    "list_all2 (frame_of c mac) (tx_log w) fbs" "c_timer c' = timer w" "c_now_ns c' = c_now_ns c"
    by (rule event_handled [OF assms(1,8) ev fx(1-4) log])
  have arm: "rtx_armed ?w (fsm_of (tcpcb.truncate w) c')" using w(13) c'(7) by (simp add: rtx_armed_def)
  show ?thesis
    by (rule that [OF c'(1-3) _ c'(5) _ segs _ _ v(2)]) (use w c'(4,6,8) fx v arm in simp_all)
qed

section \<open>The acknowledgment\<close>

lemma ack_event:
  assumes "conn_at c ref cb sid mac t" "sendable t" "rrb_unacked (snd_buf t) \<noteq> []" "length (rrb_unacked (snd_buf t)) \<le> 65535"
    and "rrb_contents (snd_buf t) = []" "snd_nxt t = mask32 (snd_una t + int (length (rrb_unacked (snd_buf t))))"
    and "ack_num sid' (rcv_nxt t) (snd_nxt t) wnd s" "seg_received s p"
  obtains c' t' where "handle_event (segment_event cb p) c = Some (Inr (), c')" "net_kept c c'" "conn_at c' ref cb sid mac t'"
    "c_events c' = c_events c @ [send_event cb]" "c_tx_ring c' = c_tx_ring c" "sendable t'" "all_acked t'" "snd_nxt t' = snd_nxt t"
    "rcv_nxt t' = rcv_nxt t" "rcv_buf t' = rcv_buf t" "remote_mss t' = remote_mss t" "ack_now t' = ack_now t"
    "snd_wnd t' = snd_wnd t \<or> snd_wnd t' = wnd"
proof -
  let ?w = "fsm_of t c" and ?n = "int (length (rrb_unacked (snd_buf t)))"
  note a = conn_atD [OF assms(1)]
  have d: "seq_diff (snd_nxt t) (snd_una t) = ?n" using seq_diff_add [of ?n "snd_una t"] assms(4,6) by (simp del: seq_diff_mask)
  have p: "acks_all p ?w"
    using assms(3,4,7,8) d by (simp add: acks_all_def ack_num_def seg_received_def seg_wf_def)
  have u: "int (length (rrb_unacked (snd_buf ?w))) = seq_diff (snd_nxt ?w) (snd_una ?w)" using d by simp
  obtain w where w: "rx p ?w = Inr w" "sendable w" "all_acked w" "snd_nxt w = snd_nxt ?w" "tx_log w = tx_log ?w"
    "events w = events ?w @ [TCPEvent SEND (Some (cb_ref ?w)) None]" "so_error w = so_error ?w" "tcp_tbl w = tcp_tbl ?w"
    "cb_ref w = cb_ref ?w" "(lip w, lp w, rip w, rp w) = (lip ?w, lp ?w, rip ?w, rp ?w)" "remote_mss w = remote_mss ?w"
    "rcv_nxt w = rcv_nxt ?w" "rcv_buf w = rcv_buf ?w" "ack_now w = ack_now ?w"
    "snd_wnd w = snd_wnd ?w \<or> snd_wnd w = sg_window p"
    by (rule ack_arrives [OF _ p u]) (use assms(2,5) in simp_all)
  have wp: "sg_window p = wnd" using assms(7,8) by (simp add: ack_num_def seg_received_def)
  have ev: "ev_tcpcb (segment_event cb p) = Some cb" "event_handler (segment_event cb p) ?w = Some (Inr w)"
    using w(1) by (simp_all add: segment_event_def event_handler_def)
  obtain c' fbs where c': "handle_event (segment_event cb p) c = Some (Inr (), c')" "net_kept c c'"
    "conn_at c' ref cb sid mac (tcpcb.truncate w)" "c_events c' = events w" "c_tx_ring c' = c_tx_ring c @ fbs"
    "list_all2 (frame_of c mac) (tx_log w) fbs"
    by (rule event_handled [OF assms(1) ev]) (use w in simp_all)
  show ?thesis by (rule that [OF c'(1-3)]) (use w wp c'(4-6) a(3) in \<open>simp_all add: send_event_def\<close>)
qed

end
