(* ===== verification/Stack_Pair.thy ===== *)
theory Stack_Pair
  imports Tcp_Transfer
begin

text \<open>
  Two stacks with an established connection between them, from the calls of the two applications to the frames on
  the wire: a message goes across and is acknowledged, and any sequence of messages in both directions does.
  The code opens connections actively only (\<^verbatim>\<open>listen\<close> is empty), so that the second stack stands for a peer that behaves
  like this code from there on.
\<close>

section \<open>Two connected stacks\<close>

text \<open>Both ends of a connection, established and at rest: everything sent has been acknowledged and each expects the next
  byte of the other.\<close>

definition at_rest :: "core \<Rightarrow> nat \<Rightarrow> nat \<Rightarrow> sock_id \<Rightarrow> int \<Rightarrow> tcpcb \<Rightarrow> bool" where
  "at_rest c ref cb sid mac t \<longleftrightarrow> conn_at c ref cb sid mac t \<and> c_events c = [] \<and> sendable t \<and> all_acked t \<and> \<not> ack_now t \<and>
     0 < remote_mss t \<and> remote_mss t \<le> 1460 \<and> rb_contents (rcv_buf t) = [] \<and> int MAX_EVENTS \<le> rcv_wnd t \<and> rcv_wnd t < 65536 \<and>
     int MAX_EVENTS \<le> snd_wnd t \<and> int MAX_EVENTS < seq_diff (rcv_adv t) (rcv_nxt t)"

definition in_step :: "tcpcb \<Rightarrow> tcpcb \<Rightarrow> bool" where
  "in_step ta tb \<longleftrightarrow> snd_nxt ta = rcv_nxt tb \<and> snd_nxt tb = rcv_nxt ta"

lemma empty_rcv_free: "sendable t \<Longrightarrow> rb_contents (rcv_buf t) = [] \<Longrightarrow> rb_free_space (rcv_buf t) = 65534"
  using rb.free_ready [of "rcv_buf t"] rb.ready_length [of "rcv_buf t"]
  by (simp add: sendable_def rcv_ok_def rb_cap_def DEFAULT_RECV_BUFF_def)

lemma empty_snd_free: "sendable t \<Longrightarrow> all_acked t \<Longrightarrow> rrb_free_space (snd_buf t) = 65534"
  using rrb.free_ready [OF rrbr.safe_inv, of "snd_buf t"] rrb.ready_length [OF rrbr.safe_inv, of "snd_buf t"]
  by (simp add: sendable_def all_acked_def)

lemma pass_one:
  assumes "c_events c = [ev]" "handle_event ev (c\<lparr>c_events := []\<rparr>) = Some (Inr (), c')"
  shows "tcp_events_pass c = Some (Inr (), c')"
  using assms by (simp add: tcp_events_pass_one)

text \<open>Data that have been sent and wait for their acknowledgment, and frames that carry them.\<close>

definition in_flight :: "core \<Rightarrow> nat \<Rightarrow> nat \<Rightarrow> sock_id \<Rightarrow> int \<Rightarrow> tcpcb \<Rightarrow> bytes \<Rightarrow> bool" where
  "in_flight c ref cb sid mac t data \<longleftrightarrow> conn_at c ref cb sid mac t \<and> c_events c = [] \<and> sendable t \<and> \<not> ack_now t \<and>
     0 < remote_mss t \<and> remote_mss t \<le> 1460 \<and> rb_contents (rcv_buf t) = [] \<and> int MAX_EVENTS \<le> snd_wnd t \<and>
     rrb_unacked (snd_buf t) = data \<and> rrb_contents (snd_buf t) = [] \<and> snd_nxt t = mask32 (snd_una t + int (length data))"

definition carried :: "core \<Rightarrow> sock_id \<Rightarrow> int \<Rightarrow> tcpcb \<Rightarrow> bytes \<Rightarrow> ether_builder list \<Rightarrow> bool" where
  "carried c sid mac t data fbs \<longleftrightarrow> (\<exists>segs v. list_all2 (frame_of c mac) segs fbs \<and> (\<forall>s\<in>set segs. seg_from sid s) \<and>
     payload segs = data \<and> stream_segs (remote_mss t) v False (snd_una t) segs \<and> rcv_nxt v = rcv_nxt t \<and> rcv_wnd v = 65534)"

text \<open>A control block with data to send, and nothing unacknowledged, before the event that sends them.\<close>

definition to_send :: "tcpcb \<Rightarrow> bytes \<Rightarrow> bool" where
  "to_send t data \<longleftrightarrow> sendable t \<and> \<not> ack_now t \<and> 0 < remote_mss t \<and> remote_mss t \<le> 1460 \<and> rb_contents (rcv_buf t) = [] \<and>
     int MAX_EVENTS \<le> snd_wnd t \<and> rrb_unacked (snd_buf t) = [] \<and> rrb_contents (snd_buf t) = data \<and> snd_una t = snd_nxt t \<and>
     data \<noteq> [] \<and> length data \<le> MAX_EVENTS \<and> rtx_timer t = None"

lemma data_transmitted:
  assumes "conn_at c ref cb sid mac t0" "c_events c = []" "to_send t data" "ev_tcpcb ev = Some cb" "event_handler ev (fsm_of t0 c) = tx (fsm_of t c)"
    and "cb_ref t = cb_ref t0" "(lip t, lp t, rip t, rp t) = (lip t0, lp t0, rip t0, rp t0)"
  obtains c' t' fbs where "handle_event ev c = Some (Inr (), c')" "net_kept c c'" "c_tx_ring c' = c_tx_ring c @ fbs"
    "in_flight c' ref cb sid mac t' data" "carried c' sid mac t' data fbs" "snd_una t' = snd_una t" "rcv_nxt t' = rcv_nxt t"
    "rtx_armed (fsm_of t c) (fsm_of t' c')" "rto t' = rto t" "c_now_ns c' = c_now_ns c"
proof -
  have t: "sendable t" "\<not> ack_now t" "0 < remote_mss t" "remote_mss t \<le> 1460" "rb_contents (rcv_buf t) = []" "int MAX_EVENTS \<le> snd_wnd t"
    "rrb_unacked (snd_buf t) = []" "rrb_contents (snd_buf t) = data" "snd_una t = snd_nxt t" "data \<noteq> []" "length data \<le> MAX_EVENTS"
    using assms(3) by (simp_all add: to_send_def)
  have fits: "int (length data) \<le> snd_wnd t" "int (length data) \<le> TCP_MAX_TX_BYTES" "rb_free_space (rcv_buf t) = 65534"
    using t(6,11) empty_rcv_free [OF t(1,5)] by (simp_all add: MAX_EVENTS_def TCP_MAX_TX_BYTES_def)
  obtain c' t' fbs segs v where c': "handle_event ev c = Some (Inr (), c')" "net_kept c c'" "conn_at c' ref cb sid mac t'"
    "c_events c' = c_events c" "c_tx_ring c' = c_tx_ring c @ fbs" "list_all2 (frame_of c mac) segs fbs" "\<forall>s\<in>set segs. seg_from sid s"
    "payload segs = rrb_contents (snd_buf t)" "stream_segs (remote_mss t) v False (snd_nxt t) segs" "rcv_nxt v = rcv_nxt t"
    "sendable t'" "rrb_unacked (snd_buf t') = rrb_unacked (snd_buf t) @ rrb_contents (snd_buf t)" "rrb_contents (snd_buf t') = []"
    "snd_una t' = snd_una t" "snd_nxt t' = mask32 (snd_nxt t + int (length (rrb_contents (snd_buf t))))" "rcv_nxt t' = rcv_nxt t"
    "rcv_buf t' = rcv_buf t" "remote_mss t' = remote_mss t" "ack_now t' = ack_now t" "snd_wnd t' = snd_wnd t"
    "rcv_wnd v = int (rb_free_space (rcv_buf t))" "rtx_armed (fsm_of t c) (fsm_of t' c')" "rto t' = rto t" "c_now_ns c' = c_now_ns c"
    by (rule send_event_data [OF assms(1) t(1) _ t(3,4) _ _ assms(4-7)]) (use t fits in simp_all)
  have "carried c' sid mac t' data fbs"
    using c'(6-10,14,16,18,21) t(8,9) fits(3) frame_of_kept [OF c'(2), of mac] unfolding carried_def
    by (intro exI [of _ segs] exI [of _ v]) simp
  moreover have "in_flight c' ref cb sid mac t' data"
    using c'(3,4,11-20) t assms(2) by (simp add: in_flight_def)
  ultimately show ?thesis using that c'(1,2,5,14,16,22,23,24) by blast
qed

text \<open>The sender: the call and the send event.\<close>

lemma data_leaves:
  assumes "at_rest a ra ca sid ma ta" "data \<noteq> []" "length data \<le> MAX_EVENTS"
  obtains a1 a2 t fbs where "tcp_send ra data [] a = Some (Inr (length data), a1)" "tcp_events_pass a1 = Some (Inr (), a2)"
    "net_kept a a2" "c_tx_ring a2 = c_tx_ring a @ fbs" "in_flight a2 ra ca sid ma t data" "carried a2 sid ma t data fbs"
    "snd_una t = snd_nxt ta" "rcv_nxt t = rcv_nxt ta" "rtx_armed (fsm_of ta a) (fsm_of t a2)" "rto t = rto ta" "c_now_ns a2 = c_now_ns a"
proof -
  have r: "conn_at a ra ca sid ma ta" "c_events a = []" "sendable ta" "all_acked ta" using assms(1) by (simp_all add: at_rest_def)
  have s: "rrb_safe (snd_buf ta)" "rrb_unacked (snd_buf ta) = []" "rrb_contents (snd_buf ta) = []" "snd_una ta = snd_nxt ta"
    using r(3,4) by (simp_all add: sendable_def all_acked_def)
  have inv: "rrb_inv (snd_buf ta)" by (rule rrbr.safe_inv [OF s(1)])
  have room: "length data \<le> rrb_free_space (snd_buf ta)" using assms(3) empty_snd_free [OF r(3,4)] by (simp add: MAX_EVENTS_def)
  note at = conn_atD [OF r(1)]
  obtain b where b: "rrb_enqueue (snd_buf ta) data = (length data, b)"
      "tcp_send ra data [] a = Some (Inr (length data), with_send_event ca (with_cb ca (ta\<lparr>snd_buf := b\<rparr>) a))"
    by (rule tcp_send_fits [OF at(5) inv assms(2) room])
  let ?t = "ta\<lparr>snd_buf := b\<rparr>" and ?c = "with_cb ca (ta\<lparr>snd_buf := b\<rparr>) a"
  let ?a1 = "with_send_event ca ?c"
  have q: "rrb_safe b" "rrb_unacked b = []" "rrb_contents b = data"
    using rrbr.enq_safe [OF s(1) _ b(1)] rrb.enq_contents [OF inv b(1)] rrb.free_ready [OF inv] s room by simp_all
  have c: "conn_at ?c ra ca sid ma ?t" "c_events ?c = []"
    using at(1,3,4) wired_kept [OF net_kept_upd(2)] r(2) by (simp_all add: conn_at_def with_cb_def)
  have "sendable ?t" using r(3) q(1) rrb.enq_cap [OF inv b(1)] by (simp add: sendable_def rcv_ok_def)
  then have t: "to_send ?t data" using assms q s by (simp add: to_send_def at_rest_def all_acked_def)
  obtain c' t' fbs where c': "handle_event (send_event ca) ?c = Some (Inr (), c')" "net_kept ?c c'" "c_tx_ring c' = c_tx_ring ?c @ fbs"
    "in_flight c' ra ca sid ma t' data" "carried c' sid ma t' data fbs" "snd_una t' = snd_una ?t" "rcv_nxt t' = rcv_nxt ?t"
    "rtx_armed (fsm_of ?t ?c) (fsm_of t' c')" "rto t' = rto ?t" "c_now_ns c' = c_now_ns ?c"
    by (rule data_transmitted [OF c t, of "send_event ca"]) (simp_all add: send_event_def event_handler_def)
  have e: "c_events ?a1 = [send_event ca]" "?a1\<lparr>c_events := []\<rparr> = ?c"
    using r(2) by (simp_all add: with_send_event_def with_cb_def send_event_def)
  have pass: "tcp_events_pass ?a1 = Some (Inr (), c')" by (rule pass_one [OF e(1)]) (use c'(1) e(2) in simp)
  show ?thesis
    by (rule that [OF b(2) pass net_kept_trans [OF net_kept_upd(2) c'(2)] _ c'(4,5)])
      (use c' s(4) in \<open>simp_all add: with_cb_def rtx_armed_def\<close>)
qed

text \<open>The receiver: the batch of frames, the events of the segments, and the send events after them.\<close>

lemma data_taken:
  assumes "at_rest b rb cb sid mb tb" "takes tb v segs" "stream_segs mss v False (rcv_nxt tb) segs" "mss \<le> 1460"
    and "\<forall>s\<in>set segs. seg_from (mirror sid) s" "list_all2 (frame_of peer pmac) segs fbs" "mac_ok pmac" "mac_ok (c_unicast_mac peer)"
    and "length segs \<le> MAX_EVENTS" "segs \<noteq> []"
  obtains fs b1 b2 b3 t fb s where "map tx_frame_bytes fbs = map Inr fs" "deque_batch fs b = Some (Inr (), b1)"
    "tcp_events_pass b1 = Some (Inr (), b2)" "tcp_events_pass b2 = Some (Inr (), b3)" "net_kept b b3" "conn_at b3 rb cb sid mb t"
    "c_events b3 = []" "c_tx_ring b3 = c_tx_ring b @ [fb]" "frame_of b mb s fb" "ack_of sid t s" "sendable t" "all_acked t"
    "\<not> ack_now t" "snd_nxt t = snd_nxt tb" "remote_mss t = remote_mss tb" "rcv_nxt t = mask32 (rcv_nxt tb + int (length (payload segs)))"
    "rb_contents (rcv_buf t) = payload segs" "int MAX_EVENTS \<le> snd_wnd t" "rcv_wnd t = 65534 - int (length (payload segs))"
    "65534 - int (length (payload segs)) \<le> seq_diff (rcv_adv t) (rcv_nxt t)"
    "int (rb_free_space (rcv_buf t)) = 65534 - int (length (payload segs))" "challenge_ack_limit t = challenge_ack_limit tb"
proof -
  have r: "conn_at b rb cb sid mb tb" "c_events b = []" "rb_contents (rcv_buf tb) = []" using assms(1) by (simp_all add: at_rest_def)
  obtain fs ps where fs: "map tx_frame_bytes fbs = map Inr fs" "list_all2 seg_received segs ps"
      "deque_batch fs b = Some (Inr (), b\<lparr>c_events := map (segment_event cb) ps\<rparr>)"
    using frames_arrive [OF conn_atD(1) [OF r(1)] assms(5,6,7,8)] r(2) by auto
  let ?b1 = "b\<lparr>c_events := map (segment_event cb) ps\<rparr>" and ?n = "length ps"
  have at: "conn_at ?b1 rb cb sid mb tb" using r(1) by simp
  have n: "?n = length segs" "?n \<le> MAX_EVENTS" "?n \<noteq> 0" using list_all2_lengthD [OF fs(2)] assms(9,10) by auto
  obtain b2 t2 where b2: "handle_events ?n ?b1 = Some (Inr (), b2)" "net_kept ?b1 b2" "conn_at b2 rb cb sid mb t2"
      "c_events b2 = replicate ?n (send_event cb)" "c_tx_ring b2 = c_tx_ring ?b1" "takes t2 v []" "snd_nxt t2 = snd_nxt tb"
      "remote_mss t2 = remote_mss tb" "ack_now t2" "rcv_nxt t2 = mask32 (rcv_nxt tb + int (length (payload segs)))"
      "rb_contents (rcv_buf t2) = payload segs" "challenge_ack_limit t2 = challenge_ack_limit tb"
    using data_events [OF at assms(2,3,4) fs(2), of "[]"] assms(10) r(3) by auto
  have t2: "sendable t2" "all_acked t2" "rrb_contents (snd_buf t2) = []" "int MAX_EVENTS \<le> snd_wnd t2"
    using b2(6) by (simp_all add: takes_def all_acked_def)
  have fr: "rb_free_space (rcv_buf t2) + length (payload segs) = 65534"
    using t2(1) b2(11) rb.free_ready [of "rcv_buf t2"] rb.ready_length [of "rcv_buf t2"]
    by (simp add: sendable_def rcv_ok_def rb_cap_def DEFAULT_RECV_BUFF_def)
  obtain b3 t fbs2 segs2 where b3: "handle_events ?n b2 = Some (Inr (), b3)" "net_kept b2 b3" "conn_at b3 rb cb sid mb t"
      "c_events b3 = []" "c_tx_ring b3 = c_tx_ring b2 @ fbs2" "list_all2 (frame_of b2 mb) segs2 fbs2" "\<exists>s. segs2 = [s] \<and> ack_of sid t2 s"
      "sendable t" "settled t = settled t2" "\<not> ack_now t" "rcv_wnd t = int (rb_free_space (rcv_buf t2))"
      "int (rb_free_space (rcv_buf t2)) \<le> seq_diff (rcv_adv t) (rcv_nxt t)"
    using send_events_idle [OF b2(3) t2(1,3) b2(4)] b2(9) n(3) by auto
  obtain s fb where s: "ack_of sid t2 s" "fbs2 = [fb]" "frame_of b2 mb s fb"
    using b3(6,7) by (auto simp: list_all2_Cons1)
  have st: "snd_nxt t = snd_nxt t2" "rcv_nxt t = rcv_nxt t2" "rcv_buf t = rcv_buf t2" "remote_mss t = remote_mss t2" "all_acked t"
    "snd_wnd t = snd_wnd t2" "challenge_ack_limit t = challenge_ack_limit t2"
    using b3(9) t2(2) by (auto simp: settled_def all_acked_def)
  have k: "net_kept b b2" using net_kept_trans [OF net_kept_upd(1) b2(2)] .
  have p1: "tcp_events_pass ?b1 = Some (Inr (), b2)" using events_pass_all [of ?b1] n(2) b2(1) by simp
  have p2: "tcp_events_pass b2 = Some (Inr (), b3)" using events_pass_all [of b2] n(2) b2(4) b3(1) by simp
  show ?thesis
    by (rule that [OF fs(1,3) p1 p2 net_kept_trans [OF k b3(2)] b3(3,4)])
      (use s st b2 b3 fr t2(4) frame_of_kept [OF k] in \<open>auto simp: ack_of_defs\<close>)
qed

text \<open>The acknowledgment reaches the sender: its frame, its event and the send event after it.\<close>

lemma ack_taken:
  assumes "conn_at a ra ca sid ma t" "c_events a = []" "sendable t" "rrb_unacked (snd_buf t) \<noteq> []" "length (rrb_unacked (snd_buf t)) \<le> 65535"
    and "rrb_contents (snd_buf t) = []" "snd_nxt t = mask32 (snd_una t + int (length (rrb_unacked (snd_buf t))))" "\<not> ack_now t"
    and "0 < remote_mss t" "remote_mss t \<le> 1460" "ack_num (mirror sid) (rcv_nxt t) (snd_nxt t) wnd s"
    and "frame_of peer pmac s fb" "mac_ok pmac" "mac_ok (c_unicast_mac peer)" "rb_contents (rcv_buf t) = []"
    and "int MAX_EVENTS \<le> snd_wnd t" "int MAX_EVENTS \<le> wnd"
  obtains f a1 a2 a3 t' where "tx_frame_bytes fb = Inr f" "handle_packet f a = Some (Inr (), a1)" "tcp_events_pass a1 = Some (Inr (), a2)"
    "tcp_events_pass a2 = Some (Inr (), a3)" "c_tx_ring a3 = c_tx_ring a" "at_rest a3 ra ca sid ma t'" "snd_nxt t' = snd_nxt t"
    "rcv_nxt t' = rcv_nxt t"
proof -
  have s: "\<forall>x\<in>set [s]. seg_from (mirror sid) x" "list_all2 (frame_of peer pmac) [s] [fb]"
    using assms(11,12) by (simp_all add: ack_num_def)
  obtain f p where f: "tx_frame_bytes fb = Inr f" "seg_received s p" "handle_packet f a = Some (Inr (), a\<lparr>c_events := [segment_event ca p]\<rparr>)"
    using frames_arrive [OF conn_atD(1) [OF assms(1)] s assms(13,14)] assms(2)
    by (auto simp: deque_batch_def list_all2_Cons1 Cons_eq_map_conv)
  let ?a1 = "a\<lparr>c_events := [segment_event ca p]\<rparr>"
  have at: "conn_at (?a1\<lparr>c_events := []\<rparr>) ra ca sid ma t" using assms(1) by simp
  obtain a2 t2 where a2: "handle_event (segment_event ca p) (?a1\<lparr>c_events := []\<rparr>) = Some (Inr (), a2)" "net_kept (?a1\<lparr>c_events := []\<rparr>) a2"
    "conn_at a2 ra ca sid ma t2" "c_events a2 = c_events (?a1\<lparr>c_events := []\<rparr>) @ [send_event ca]" "c_tx_ring a2 = c_tx_ring (?a1\<lparr>c_events := []\<rparr>)"
    "sendable t2" "all_acked t2" "snd_nxt t2 = snd_nxt t" "rcv_nxt t2 = rcv_nxt t" "rcv_buf t2 = rcv_buf t" "remote_mss t2 = remote_mss t"
    "ack_now t2 = ack_now t" "snd_wnd t2 = snd_wnd t \<or> snd_wnd t2 = wnd"
    by (rule ack_event [OF at assms(3-7,11) f(2)])
  have t2: "rrb_contents (snd_buf t2) = []" "c_events a2 = replicate 1 (send_event ca)" using a2(4,7) by (simp_all add: all_acked_def)
  obtain a3 t3 where a3: "handle_events 1 a2 = Some (Inr (), a3)" "conn_at a3 ra ca sid ma t3" "c_events a3 = []"
    "c_tx_ring a3 = c_tx_ring a2" "sendable t3" "settled t3 = settled t2" "\<not> ack_now t3"
    "rcv_wnd t3 = int (rb_free_space (rcv_buf t2))" "int (rb_free_space (rcv_buf t2)) \<le> seq_diff (rcv_adv t3) (rcv_nxt t3)"
    using send_events_idle [OF a2(3,6) t2] a2(12) assms(8) by auto
  have fr: "rb_free_space (rcv_buf t2) = 65534" using empty_rcv_free [OF a2(6)] a2(10) assms(15) by simp
  have p2: "tcp_events_pass a2 = Some (Inr (), a3)" using events_pass_all [of a2] t2(2) a3(1) by (simp add: MAX_EVENTS_def)
  have p1: "tcp_events_pass ?a1 = Some (Inr (), a2)" by (rule pass_one [OF _ a2(1)]) simp
  have "at_rest a3 ra ca sid ma t3"
    using a3 a2(7,10,11,13) fr assms(9,10,15-17) by (auto simp: at_rest_def settled_def all_acked_def MAX_EVENTS_def)
  then show ?thesis
    using that [OF f(1,3) p1 p2] a3(4,6) a2(5,8,9) by (simp add: settled_def)
qed

lemma stream_segs_count: "stream_segs mss v fin sq segs \<Longrightarrow> length segs \<le> length (payload segs)"
proof (induction segs arbitrary: sq)
  case (Cons s segs)
  have "0 < length (os_data s)" "length segs \<le> length (payload segs)" using Cons by auto
  moreover have "length (payload (s # segs)) = length (os_data s) + length (payload segs)" by (simp add: payload_def)
  ultimately show ?case unfolding list.size by linarith
qed simp

section \<open>Messages\<close>

text \<open>The frames of a message at the receiver: their batch, the events, the frame of the acknowledgment and the receiver's call.\<close>

definition arrived :: "ether_builder list \<Rightarrow> bytes \<Rightarrow> core \<Rightarrow> nat \<Rightarrow> ether_builder \<Rightarrow> core \<Rightarrow> bool" where
  "arrived fbs data b rb fb b' \<longleftrightarrow> (\<exists>fs b1 b2 b3. map tx_frame_bytes fbs = map Inr fs \<and> deque_batch fs b = Some (Inr (), b1) \<and>
     tcp_events_pass b1 = Some (Inr (), b2) \<and> tcp_events_pass b2 = Some (Inr (), b3) \<and> c_tx_ring b3 = c_tx_ring b @ [fb] \<and>
     (\<forall>got m. socket_recv rb (length data) got m b3 = Some (Inr data, b')))"

text \<open>The acknowledgment at the sender: its frame and its events; nothing is sent.\<close>

definition acked :: "core \<Rightarrow> ether_builder \<Rightarrow> core \<Rightarrow> bool" where
  "acked a fb a' \<longleftrightarrow> (\<exists>f a1 a2. tx_frame_bytes fb = Inr f \<and> handle_packet f a = Some (Inr (), a1) \<and> tcp_events_pass a1 = Some (Inr (), a2) \<and>
     tcp_events_pass a2 = Some (Inr (), a') \<and> c_tx_ring a' = c_tx_ring a)"

definition received :: "core \<Rightarrow> ether_builder list \<Rightarrow> bytes \<Rightarrow> core \<Rightarrow> nat \<Rightarrow> core \<Rightarrow> core \<Rightarrow> bool" where
  "received a fbs data b rb a' b' \<longleftrightarrow> (\<exists>fb. arrived fbs data b rb fb b' \<and> acked a fb a')"

text \<open>A message that goes across: the sender's call, the send event, and the reception of its frames.\<close>

definition exchange :: "core \<Rightarrow> nat \<Rightarrow> bytes \<Rightarrow> core \<Rightarrow> nat \<Rightarrow> core \<Rightarrow> core \<Rightarrow> bool" where
  "exchange a ra data b rb a' b' \<longleftrightarrow> (\<exists>a1 a2 fbs.
     tcp_send ra data [] a = Some (Inr (length data), a1) \<and> tcp_events_pass a1 = Some (Inr (), a2) \<and>
     c_tx_ring a2 = c_tx_ring a @ fbs \<and> received a2 fbs data b rb a' b')"

text \<open>A conversation: messages of the first (\<open>True\<close>) and of the second application, one after the other.\<close>

inductive conversation :: "nat \<Rightarrow> nat \<Rightarrow> core \<Rightarrow> core \<Rightarrow> (bool \<times> bytes) list \<Rightarrow> core \<Rightarrow> core \<Rightarrow> bool" for ra rb where
  over: "conversation ra rb a b [] a b"
| first: "exchange a ra data b rb a1 b1 \<Longrightarrow> conversation ra rb a1 b1 ms a2 b2 \<Longrightarrow> conversation ra rb a b ((True, data) # ms) a2 b2"
| second: "exchange b rb data a ra b1 a1 \<Longrightarrow> conversation ra rb a1 b1 ms a2 b2 \<Longrightarrow> conversation ra rb a b ((False, data) # ms) a2 b2"

lemma in_step_sym: "in_step ta tb \<Longrightarrow> in_step tb ta"
  by (simp add: in_step_def)

text \<open>The receiver's call, when the data have arrived.\<close>

lemma data_read:
  assumes "conn_at b rb cb sid mb u" "c_events b = []" "sendable u" "all_acked u" "\<not> ack_now u" "0 < remote_mss u" "remote_mss u \<le> 1460"
    and "rb_contents (rcv_buf u) = data" "data \<noteq> []" "int MAX_EVENTS \<le> snd_wnd u" "int MAX_EVENTS \<le> rcv_wnd u" "rcv_wnd u < 65536"
    and "int MAX_EVENTS < seq_diff (rcv_adv u) (rcv_nxt u)"
  obtains b' u' where "\<forall>got m. socket_recv rb (length data) got m b = Some (Inr data, b')" "at_rest b' rb cb sid mb u'"
    "snd_nxt u' = snd_nxt u" "rcv_nxt u' = rcv_nxt u" "challenge_ack_limit u' = challenge_ack_limit u"
proof -
  have u: "rb_inv (rcv_buf u)" "rb_contents (rcv_buf u) \<noteq> []" "state u \<notin> NON_RECEIVABLE_STATES"
    using assms(3,8,9) by (auto simp: sendable_def rcv_ok_def NON_RECEIVABLE_STATES_def)
  obtain q where q: "\<forall>got m. socket_recv rb (length data) got m b = Some (Inr (take (length data) (rb_contents (rcv_buf u))), with_cb cb (u\<lparr>rcv_buf := q\<rparr>) b)"
    "rb_inv q" "rb_size q = rb_size (rcv_buf u)" "rb_contents q = drop (length data) (rb_contents (rcv_buf u))"
    by (rule recv_data [OF conn_atD(5) [OF assms(1)] u])
  let ?u = "u\<lparr>rcv_buf := q\<rparr>" and ?b = "with_cb cb (u\<lparr>rcv_buf := q\<rparr>) b"
  have "conn_at ?b rb cb sid mb ?u"
    using conn_atD [OF assms(1)] wired_kept [OF net_kept_upd(2)] by (simp add: conn_at_def with_cb_def)
  then have "at_rest ?b rb cb sid mb ?u"
    using assms q(2-4) by (simp add: at_rest_def with_cb_def sendable_def all_acked_def rcv_ok_def)
  then show ?thesis using that q(1) assms(8) by simp
qed

text \<open>Data in flight that arrive: the receiver reads them and acknowledges all of them.\<close>

lemma data_delivered:
  assumes "in_flight a ra ca sid ma t data" "carried a sid ma t data fbs" "at_rest b rb cb (mirror sid) mb tb"
    and "snd_una t = rcv_nxt tb" "snd_nxt tb = rcv_nxt t" "data \<noteq> []" "length data \<le> MAX_EVENTS"
  obtains b' tb' fb s wnd where "arrived fbs data b rb fb b'" "at_rest b' rb cb (mirror sid) mb tb'" "snd_nxt tb' = rcv_nxt t" "rcv_nxt tb' = snd_nxt t"
    "challenge_ack_limit tb' = challenge_ack_limit tb" "frame_of b mb s fb" "ack_num (mirror sid) (rcv_nxt t) (snd_nxt t) wnd s" "int MAX_EVENTS \<le> wnd"
proof -
  have t: "conn_at a ra ca sid ma t" "remote_mss t \<le> 1460" "snd_nxt t = mask32 (snd_una t + int (length data))"
    using assms(1) by (simp_all add: in_flight_def)
  have tb: "sendable tb" "all_acked tb" "0 < remote_mss tb" "remote_mss tb \<le> 1460" "rb_contents (rcv_buf tb) = []" "rcv_wnd tb \<noteq> 0"
      "int MAX_EVENTS \<le> snd_wnd tb" "int MAX_EVENTS < seq_diff (rcv_adv tb) (rcv_nxt tb)"
    using assms(3) by (auto simp: at_rest_def MAX_EVENTS_def)
  have len: "length data \<le> 5000" using assms(7) by (simp add: MAX_EVENTS_def)
  obtain segs v where sg: "list_all2 (frame_of a ma) segs fbs" "\<forall>s\<in>set segs. seg_from sid s" "payload segs = data"
      "stream_segs (remote_mss t) v False (snd_una t) segs" "rcv_nxt v = rcv_nxt t" "rcv_wnd v = 65534"
    using assms(2) by (auto simp: carried_def)
  have segs: "length segs \<le> MAX_EVENTS" "segs \<noteq> []" using sg(3) assms(6,7) stream_segs_count [OF sg(4)] by (auto simp: payload_def)
  have tk: "takes tb v segs"
    using tb(1,2,6-8) empty_rcv_free [OF tb(1,5)] assms(5,7) sg(3,5,6) by (simp add: takes_def all_acked_def MAX_EVENTS_def)
  have src: "\<forall>s\<in>set segs. seg_from (mirror (mirror sid)) s" using sg(2) by simp
  obtain fs b1 b2 b3 u fb s where b: "map tx_frame_bytes fbs = map Inr fs" "deque_batch fs b = Some (Inr (), b1)"
    "tcp_events_pass b1 = Some (Inr (), b2)" "tcp_events_pass b2 = Some (Inr (), b3)" "net_kept b b3" "conn_at b3 rb cb (mirror sid) mb u"
    "c_events b3 = []" "c_tx_ring b3 = c_tx_ring b @ [fb]" "frame_of b mb s fb" "ack_of (mirror sid) u s" "sendable u" "all_acked u"
    "\<not> ack_now u" "snd_nxt u = snd_nxt tb" "remote_mss u = remote_mss tb" "rcv_nxt u = mask32 (rcv_nxt tb + int (length (payload segs)))"
    "rb_contents (rcv_buf u) = payload segs" "int MAX_EVENTS \<le> snd_wnd u" "rcv_wnd u = 65534 - int (length (payload segs))"
    "65534 - int (length (payload segs)) \<le> seq_diff (rcv_adv u) (rcv_nxt u)"
    "int (rb_free_space (rcv_buf u)) = 65534 - int (length (payload segs))" "challenge_ack_limit u = challenge_ack_limit tb"
    by (rule data_taken [OF assms(3) tk sg(4) [unfolded assms(4)] t(2) src sg(1) conn_atD(7,8) [OF t(1)] segs])
  obtain b4 u' where rd: "\<forall>got m. socket_recv rb (length data) got m b3 = Some (Inr data, b4)" "at_rest b4 rb cb (mirror sid) mb u'"
    "snd_nxt u' = snd_nxt u" "rcv_nxt u' = rcv_nxt u" "challenge_ack_limit u' = challenge_ack_limit u"
    by (rule data_read [OF b(6,7,11-13)]) (use b(15,17-20) tb(3,4) sg(3) len assms(6) in \<open>simp_all add: MAX_EVENTS_def\<close>)
  have sync: "snd_nxt u = rcv_nxt t" "rcv_nxt u = snd_nxt t" using b(14,16) sg(3) t(3) assms(4,5) by simp_all
  have "arrived fbs data b rb fb b4"
    unfolding arrived_def
    by (rule exI [of _ fs], rule exI [of _ b1], rule exI [of _ b2], rule exI [of _ b3]) (intro conjI; fact b(1-4,8) rd(1))
  then show ?thesis
    by (rule that [OF _ rd(2) _ _ _ b(9), of "int (rb_free_space (rcv_buf u))"])
      (use rd(3-5) sync b(10,21,22) sg(3) len in \<open>simp_all add: ack_of_def MAX_EVENTS_def\<close>)
qed

lemma delivered:
  assumes "in_flight a ra ca sid ma t data" "carried a sid ma t data fbs" "at_rest b rb cb (mirror sid) mb tb"
    and "snd_una t = rcv_nxt tb" "snd_nxt tb = rcv_nxt t" "data \<noteq> []" "length data \<le> MAX_EVENTS"
  obtains a' b' ta' tb' where "received a fbs data b rb a' b'" "at_rest a' ra ca sid ma ta'" "at_rest b' rb cb (mirror sid) mb tb'" "in_step ta' tb'"
proof -
  have t: "conn_at a ra ca sid ma t" "c_events a = []" "sendable t" "\<not> ack_now t" "0 < remote_mss t" "remote_mss t \<le> 1460"
      "rb_contents (rcv_buf t) = []" "int MAX_EVENTS \<le> snd_wnd t" "rrb_unacked (snd_buf t) = data" "rrb_contents (snd_buf t) = []"
      "snd_nxt t = mask32 (snd_una t + int (length data))"
    using assms(1) by (simp_all add: in_flight_def)
  have tb: "conn_at b rb cb (mirror sid) mb tb" using assms(3) by (simp add: at_rest_def)
  obtain b' tb' fb s wnd where b: "arrived fbs data b rb fb b'" "at_rest b' rb cb (mirror sid) mb tb'" "snd_nxt tb' = rcv_nxt t" "rcv_nxt tb' = snd_nxt t"
    "frame_of b mb s fb" "ack_num (mirror sid) (rcv_nxt t) (snd_nxt t) wnd s" "int MAX_EVENTS \<le> wnd"
    by (rule data_delivered [OF assms])
  obtain f a1 a2 a3 t' where r: "tx_frame_bytes fb = Inr f" "handle_packet f a = Some (Inr (), a1)" "tcp_events_pass a1 = Some (Inr (), a2)"
    "tcp_events_pass a2 = Some (Inr (), a3)" "c_tx_ring a3 = c_tx_ring a" "at_rest a3 ra ca sid ma t'" "snd_nxt t' = snd_nxt t" "rcv_nxt t' = rcv_nxt t"
    by (rule ack_taken [OF t(1-3) _ _ t(10) _ t(4-6) b(6,5) conn_atD(7,8) [OF tb] t(7,8) b(7)])
      (use t(9,11) assms(6,7) in \<open>simp_all add: MAX_EVENTS_def\<close>)
  have "acked a fb a3" using r(1-5) by (auto simp: acked_def)
  then have "received a fbs data b rb a3 b'" using b(1) by (auto simp: received_def)
  then show ?thesis using that r(6-8) b(2-4) by (simp add: in_step_def)
qed

lemma exchange_works:
  assumes "at_rest a ra ca sid ma ta" "at_rest b rb cb (mirror sid) mb tb" "in_step ta tb" "data \<noteq> []" "length data \<le> MAX_EVENTS"
  obtains a' b' ta' tb' where "exchange a ra data b rb a' b'" "at_rest a' ra ca sid ma ta'" "at_rest b' rb cb (mirror sid) mb tb'" "in_step ta' tb'"
proof -
  obtain a1 a2 t fbs where a: "tcp_send ra data [] a = Some (Inr (length data), a1)" "tcp_events_pass a1 = Some (Inr (), a2)"
    "c_tx_ring a2 = c_tx_ring a @ fbs" "in_flight a2 ra ca sid ma t data" "carried a2 sid ma t data fbs" "snd_una t = snd_nxt ta" "rcv_nxt t = rcv_nxt ta"
    by (rule data_leaves [OF assms(1,4,5)])
  have st: "snd_una t = rcv_nxt tb" "snd_nxt tb = rcv_nxt t" using a(6,7) assms(3) by (simp_all add: in_step_def)
  obtain a' b' ta' tb' where r: "received a2 fbs data b rb a' b'" "at_rest a' ra ca sid ma ta'" "at_rest b' rb cb (mirror sid) mb tb'" "in_step ta' tb'"
    by (rule delivered [OF a(4,5) assms(2) st assms(4,5)])
  then have "exchange a ra data b rb a' b'" using a(1-3) by (auto simp: exchange_def)
  then show ?thesis using that r(2-4) by blast
qed

lemma conversation_works:
  assumes "at_rest a ra ca sid ma ta" "at_rest b rb cb (mirror sid) mb tb" "in_step ta tb"
    and "\<forall>msg\<in>set ms. snd msg \<noteq> [] \<and> length (snd msg) \<le> MAX_EVENTS"
  shows "\<exists>a' b' ta' tb'. conversation ra rb a b ms a' b' \<and> at_rest a' ra ca sid ma ta' \<and> at_rest b' rb cb (mirror sid) mb tb' \<and> in_step ta' tb'"
  using assms
proof (induction ms arbitrary: a b ta tb)
  case Nil
  then show ?case using conversation.over by blast
next
  case (Cons msg ms)
  obtain dir data where m: "msg = (dir, data)" "data \<noteq> []" "length data \<le> MAX_EVENTS" using Cons.prems(4) by (cases msg) auto
  show ?case
  proof (cases dir)
    case True
    obtain a1 b1 ta1 tb1 where "exchange a ra data b rb a1 b1" "at_rest a1 ra ca sid ma ta1" "at_rest b1 rb cb (mirror sid) mb tb1" "in_step ta1 tb1"
      by (rule exchange_works [OF Cons.prems(1-3) m(2,3)])
    then show ?thesis
      using Cons.IH [of a1 ta1 b1 tb1] Cons.prems(4) m(1) True conversation.first by fastforce
  next
    case False
    have "at_rest a ra ca (mirror (mirror sid)) ma ta" using Cons.prems(1) by simp
    then obtain b1 a1 tb1 ta1 where "exchange b rb data a ra b1 a1" "at_rest b1 rb cb (mirror sid) mb tb1"
        "at_rest a1 ra ca (mirror (mirror sid)) ma ta1" "in_step tb1 ta1"
      by (rule exchange_works [OF Cons.prems(2) _ in_step_sym [OF Cons.prems(3)] m(2,3)])
    then show ?thesis
      using Cons.IH [of a1 ta1 b1 tb1] Cons.prems(4) m(1) False conversation.second in_step_sym by fastforce
  qed
qed

text \<open>One end of an established connection, with the sequence number it sends next and the one it expects.\<close>

definition end_tcb :: "sock_id \<Rightarrow> int \<Rightarrow> int \<Rightarrow> tcpcb" where
  "end_tcb sid sn rn =
     (tcpcb_init 1 (fst sid) (fst (snd sid)) (fst (snd (snd sid))) (snd (snd (snd sid))) 0 Map.empty 100 0)
       \<lparr>state := ESTAB, snd_una := sn, snd_nxt := sn, rcv_nxt := rn, rcv_adv := rn + 65535, snd_wnd := 65535, remote_mss := 1460\<rparr>"

definition end_core :: "sock_id \<Rightarrow> tcpcb \<Rightarrow> core" where
  "end_core sid t =
     core_example\<lparr>c_unicast_ip := Some (fst sid),
       c_arp_cache := [fst (snd (snd sid)) \<mapsto> \<lparr>ae_mac_address = 0x020000000005, ae_flush_after = 300\<rparr>],
       c_socks := [0 \<mapsto> (sock_init TCPSocket 0)\<lparr>s_sock_id := sid\<rparr>],
       c_tcp := register_tcpcb sid 1 (tcp_register_socket sid 0 tcp_table_init), c_tcpcbs := [1 \<mapsto> t]\<rparr>"

definition sid_example :: sock_id where
  "sid_example = (0xC0A802C8, 40000, 0xC0A80205, 80)"

lemma end_tcb_facts:
  "snd_buf (end_tcb sid sn rn) = rrb_init 65535" "rcv_buf (end_tcb sid sn rn) = rb_init 65535" "snd_wnd (end_tcb sid sn rn) = 65535"
  "rcv_wnd (end_tcb sid sn rn) = 65535" "remote_mss (end_tcb sid sn rn) = 1460" "snd_nxt (end_tcb sid sn rn) = sn"
  "rcv_nxt (end_tcb sid sn rn) = rn" "rcv_adv (end_tcb sid sn rn) = rn + 65535"
  by (simp_all add: end_tcb_def tcpcb_init_def DEFAULT_SEND_BUFF_def DEFAULT_RECV_BUFF_def DEFAULT_RCV_WND_def)

lemma end_at_rest:
  assumes "sid = sid_example \<or> sid = mirror sid_example" "0 \<le> sn" "sn < 1000" "0 \<le> rn" "rn < 1000"
  shows "at_rest (end_core sid (end_tcb sid sn rn)) 0 1 sid 0x020000000005 (end_tcb sid sn rn)"
proof -
  let ?t = "end_tcb sid sn rn"
  have w: "wired (end_core sid ?t) 0 1 sid 0x020000000005"
    using assms(1)
    by (auto simp: wired_def end_core_def core_example_def register_tcpcb_def tcp_register_socket_def tcp_table_init_def sid_ok_def
        sid_example_def mirror_def addr_ok_def route_eval mac_ok_def)
  have c: "conn_at (end_core sid ?t) 0 1 sid 0x020000000005 ?t"
    using w by (simp add: conn_at_def end_core_def end_tcb_def tcpcb_init_def)
  have r: "rcv_ok ?t"
    using assms(4,5) rb_init_full by (simp add: rcv_ok_def end_tcb_facts seq_num_def seq_diff_mod DEFAULT_RCV_WND_def DEFAULT_RECV_BUFF_def)
  have cap: "rrb_cap (rrb_init 65535) = 65534" by (simp add: rrb_cap_def rrb_init_def)
  have s: "sendable ?t"
    using r cap assms(2,3) rrb_safe_init(1) [of 65535]
    by (simp add: sendable_def end_tcb_facts) (simp add: end_tcb_def tcpcb_init_def seq_num_def)
  have k: "all_acked ?t"
    using rrb_safe_init(2,3) [of 65535] by (simp add: all_acked_def end_tcb_facts) (simp add: end_tcb_def tcpcb_init_def)
  have m: "rb_contents (rcv_buf ?t) = []" "int MAX_EVENTS < seq_diff (rcv_adv ?t) (rcv_nxt ?t)"
    using assms(4,5) by (simp_all add: end_tcb_facts MAX_EVENTS_def seq_diff_mod)
  show ?thesis
    using c s k m by (simp add: at_rest_def end_tcb_facts MAX_EVENTS_def) (simp add: end_core_def core_example_def end_tcb_def tcpcb_init_def)
qed

lemma end_pair_at_rest:
  fixes ta tb
  defines "ta \<equiv> end_tcb sid_example 101 501" and "tb \<equiv> end_tcb (mirror sid_example) 501 101"
  shows "at_rest (end_core sid_example ta) 0 1 sid_example 0x020000000005 ta"
    "at_rest (end_core (mirror sid_example) tb) 0 1 (mirror sid_example) 0x020000000005 tb" "in_step ta tb"
  unfolding ta_def tb_def by ((rule end_at_rest; simp)+, simp add: in_step_def end_tcb_facts)

section \<open>Properties\<close>

text \<open>C1. Applications on two stacks talk to each other. Both ends of the connection are established and at rest; the two
  applications send messages in any order. For each message, the call of the sender queues the data and an event; the
  thread that serves TCP sends them in segments, one frame each; the batch of these frames, handed to the other stack, is checked and
  parsed and becomes events; their handling delivers the bytes, and the next pass sends exactly one frame, the acknowledgment;
  a receive then returns exactly the message. When the frame of the acknowledgment reaches the sender, the data are freed,
  the retransmission timer is stopped and nothing more is sent. The conversation never gets stuck: after each message both ends are at rest
  again and in step. (No message is longer than one pass over the events.)\<close>

theorem messages_cross:
  assumes "at_rest a ra ca sid ma ta" "at_rest b rb cb (mirror sid) mb tb" "in_step ta tb"
    "\<forall>msg\<in>set msgs. snd msg \<noteq> [] \<and> length (snd msg) \<le> MAX_EVENTS"
  shows "\<exists>a' b' ta' tb'. conversation ra rb a b msgs a' b' \<and> at_rest a' ra ca sid ma ta' \<and> at_rest b' rb cb (mirror sid) mb tb' \<and>
    in_step ta' tb'"
  by (rule conversation_works [OF assms])

theorem messages_cross_witness:
  "\<exists>a' b'. conversation 0 0 (end_core sid_example (end_tcb sid_example 101 501)) (end_core (mirror sid_example) (end_tcb (mirror sid_example) 501 101))
     [(True, [7, 8, 9]), (False, [1]), (True, [2])] a' b'"
  using messages_cross [OF end_pair_at_rest, of "[(True, [7, 8, 9]), (False, [1]), (True, [2])]"] by (auto simp: MAX_EVENTS_def)

end
