(* ===== verification/Stack_Loss.thy ===== *)
theory Stack_Loss
  imports Stack_Pair
begin

text \<open>
  Frames that are lost: the timer thread schedules a retransmission event, whose handler sends the unacknowledged data
  again and starts the timer with a doubled timeout, until the frames of one transmission get through.
\<close>

section \<open>One task of the timer\<close>

text \<open>No task that is due by \<open>H\<close> milliseconds runs anything; or only the task \<open>k\<close>, due at \<open>d\<close>, does.\<close>

definition quiet :: "rat \<Rightarrow> 'c timer \<Rightarrow> bool" where
  "quiet H tm \<longleftrightarrow> timer_inv tm \<and> (\<forall>(d, k)\<in>set (tm_tasks tm). d \<le> H \<longrightarrow> task_execute tm k = None)"

definition sole :: "rat \<Rightarrow> rat \<Rightarrow> nat \<Rightarrow> 'c \<Rightarrow> 'c timer \<Rightarrow> bool" where
  "sole H d k call tm \<longleftrightarrow> timer_inv tm \<and> (d, k) \<in> set (tm_tasks tm) \<and> task_execute tm k = Some call \<and>
     (\<forall>(e, j)\<in>set (tm_tasks tm). e \<le> H \<longrightarrow> j \<noteq> k \<longrightarrow> task_execute tm j = None)"

definition ms :: "int \<Rightarrow> rat" where
  "ms now = of_int (now div 1000000)"

lemma sole_schedule:
  assumes "quiet H tm" "schedule_timer now e call tm = (k, tm')"
  shows "sole H (ms now + e * 1000) k call tm'"
proof -
  have inv: "timer_inv tm" using assms(1) by (simp add: quiet_def)
  note sc = timer_inv_schedule [OF inv assms(2)]
  have tm: "tm_tasks tm' = heappush (ms now + e * 1000, k) (tm_tasks tm)" "tm_store tm' = (tm_store tm)(k \<mapsto> timer_task_init now e call)"
    using assms(2) by (auto simp: schedule_timer_def Let_def timer_task_init_def execute_at_ms_def ms_def)
  have "\<forall>(e, j)\<in>set (tm_tasks tm'). e \<le> H \<longrightarrow> j \<noteq> k \<longrightarrow> task_execute tm' j = None"
    using assms(1) tm by (auto simp: quiet_def task_execute_def)
  then show ?thesis using sc tm(1) by (simp add: sole_def)
qed

lemma sole_remove: "sole H d k call tm \<Longrightarrow> quiet H (timer_remove k tm)"
  by (auto simp: sole_def quiet_def) (auto simp: timer_remove_def)

lemma tasks_dead: "\<forall>k\<in>set ks. task_execute (c_timer c) k = None \<Longrightarrow> for_op ks execute_task c = Some (Inr (), c)"
  by (induction ks) (simp_all add: execute_task_def then_op_bind bind_op_def)

lemma tasks_one:
  assumes "distinct ks" "k \<in> set ks" "task_execute (c_timer c) k = Some call" "run_call call c = Some (Inr (), c')" "c_timer c' = c_timer c"
    and "\<forall>j\<in>set ks. j \<noteq> k \<longrightarrow> task_execute (c_timer c) j = None"
  shows "for_op ks execute_task c = Some (Inr (), c')"
  using assms
proof (induction ks)
  case (Cons j ks)
  show ?case
  proof (cases "j = k")
    case True
    have "for_op ks execute_task c' = Some (Inr (), c')" using Cons.prems True by (intro tasks_dead) auto
    moreover have "execute_task j c = Some (Inr (), c')" using Cons.prems True by (simp add: execute_task_def)
    ultimately show ?thesis by (simp add: then_op_bind bind_op_def)
  next
    case False
    then show ?thesis using Cons by (simp add: execute_task_def then_op_bind bind_op_def)
  qed
qed simp

text \<open>The pass of the timer thread that runs the task.\<close>

lemma sole_pass:
  fixes T :: int and c :: core
  defines "c1 \<equiv> c\<lparr>c_now_ns := T, c_timer := snd (timer_pass T (c_timer c))\<rparr>"
  assumes "sole H d k call (c_timer c)" "d \<le> ms T" "ms T \<le> H" "run_call call c1 = Some (Inr (), c2)" "c_timer c2 = c_timer c1"
  shows "timer_loop_pass (c\<lparr>c_now_ns := T\<rparr>) = Some (Inr (), c2)" "quiet H (c_timer c2)"
proof -
  let ?tm = "c_timer c" and ?tm' = "snd (timer_pass T (c_timer c))"
  have inv: "timer_inv ?tm" and k: "(d, k) \<in> set (tm_tasks ?tm)" "task_execute ?tm k = Some call"
      "\<forall>(e, j)\<in>set (tm_tasks ?tm). e \<le> H \<longrightarrow> j \<noteq> k \<longrightarrow> task_execute ?tm j = None"
    using assms(2) by (simp_all add: sole_def)
  have so: "sorted_wrt entry_le (tm_tasks ?tm)" "distinct (map snd (tm_tasks ?tm))" using inv by (simp_all add: timer_inv_def)
  have ready: "fst (timer_pass T ?tm) = map snd (filter (\<lambda>e. fst e \<le> ms T) (tm_tasks ?tm))"
    and rest: "?tm' = ?tm\<lparr>tm_tasks := filter (\<lambda>e. \<not> fst e \<le> ms T) (tm_tasks ?tm)\<rparr>"
    by (simp_all add: timer_pass_def pop_ready_filter [OF so(1)] ms_def)
  have ex: "task_execute ?tm' = task_execute ?tm" using rest by (simp add: fun_eq_iff task_execute_def)
  have d: "distinct (fst (timer_pass T ?tm))" using so(2) by (simp add: ready distinct_map_filter)
  have kin: "k \<in> set (fst (timer_pass T ?tm))" using k(1) assms(3) by (force simp: ready)
  have dead: "\<forall>j\<in>set (fst (timer_pass T ?tm)). j \<noteq> k \<longrightarrow> task_execute (c_timer c1) j = None"
    using k(3) assms(4) by (force simp: ready ex c1_def)
  have "for_op (fst (timer_pass T ?tm)) execute_task c1 = Some (Inr (), c2)"
    using tasks_one [OF d kin _ assms(5,6) dead] k(2) ex by (simp add: c1_def)
  then show "timer_loop_pass (c\<lparr>c_now_ns := T\<rparr>) = Some (Inr (), c2)" by (simp add: timer_loop_pass_def split_def c1_def)
  have ne: "j \<noteq> k" if "(e, j) \<in> set (tm_tasks ?tm)" "\<not> e \<le> ms T" for e j
  proof
    assume "j = k"
    have "inj_on snd (set (tm_tasks ?tm))" using so(2) by (simp add: distinct_map)
    then have "(e, j) = (d, k)" by (rule inj_onD [OF _ _ that(1) k(1)]) (simp add: \<open>j = k\<close>)
    then show False using that(2) assms(3) by simp
  qed
  have "task_execute ?tm j = None" if "(e, j) \<in> set (tm_tasks ?tm)" "\<not> e \<le> ms T" "e \<le> H" for e j
    using k(3) ne [OF that(1,2)] that(1,3) by blast
  then show "quiet H (c_timer c2)" using timer_inv_pass [OF inv, of T] ex assms(6) by (auto simp: quiet_def rest c1_def)
qed

section \<open>The timer of a sender\<close>

definition calm :: "rat \<Rightarrow> core \<Rightarrow> bool" where
  "calm H c \<longleftrightarrow> quiet H (c_timer c)"

definition armed :: "rat \<Rightarrow> rat \<Rightarrow> nat \<Rightarrow> tcpcb \<Rightarrow> core \<Rightarrow> bool" where
  "armed H d cb t c \<longleftrightarrow> (\<exists>k. rtx_timer t = Some k \<and> sole H d k (ScheduleRtx cb) (c_timer c))"

lemma calm_armed:
  assumes "calm H c" "rtx_armed (fsm_of t c) (fsm_of t' c')" "rtx_timer t = None" "cb_ref t = cb"
  shows "armed H (ms (c_now_ns c) + rto t * 1000) cb t' c'"
proof -
  obtain k tm where s: "schedule_timer (c_now_ns c) (rto t) (ScheduleRtx cb) (c_timer c) = (k, tm)" by (rule prod.exhaust)
  have "rtx_timer t' = Some k" "c_timer c' = tm" using assms(2,3,4) s by (simp_all add: rtx_armed_def)
  then show ?thesis using sole_schedule [OF _ s] assms(1) by (auto simp: armed_def calm_def)
qed

lemma timeout_pass:
  assumes "armed H d cb t c" "d \<le> ms T" "ms T \<le> H" "c_events c = []"
  obtains c' where "timer_loop_pass (c\<lparr>c_now_ns := T\<rparr>) = Some (Inr (), c')" "c_events c' = [TCPEvent RTX (Some cb) None]" "calm H c'"
    "c_now_ns c' = T" "net_kept c c'" "c_tcpcbs c' = c_tcpcbs c" "c_tx_ring c' = c_tx_ring c"
proof -
  obtain k where k: "sole H d k (ScheduleRtx cb) (c_timer c)" using assms(1) by (auto simp: armed_def)
  let ?c = "c\<lparr>c_now_ns := T, c_timer := snd (timer_pass T (c_timer c))\<rparr>"
  let ?c' = "?c\<lparr>c_events := [TCPEvent RTX (Some cb) None]\<rparr>"
  have "run_call (ScheduleRtx cb) ?c = Some (Inr (), ?c')" using assms(4) by simp
  note p = sole_pass [OF k assms(2,3) this]
  have "net_kept c ?c'" by (simp add: net_kept_def ip_route_def find_entry_def)
  then show ?thesis using that p by (simp add: calm_def)
qed

section \<open>The retransmission\<close>

text \<open>The control block from which the handler of a retransmission event sends.\<close>

definition rolled_back :: "tcpcb \<Rightarrow> tcpcb" where
  "rolled_back t = t\<lparr>snd_buf := rrb_roll_back_to_r (snd_buf t), snd_nxt := snd_una t, rto := min (rto t * 2) MAX_RTO,
     rttvar := None, srtt := None, rtt := None, rtx_timer := None\<rparr>"

lemma rtx_rolled_back: "rtx (fsm_of t c) = tx (fsm_of (rolled_back t) c)"
  by (cases t) (simp add: rtx_def rollback_to_una_def back_off_rto_def rolled_back_def fsm_of_def tcpcb.defs fsm.defs)

lemma rolled_back_to_send:
  assumes "in_flight c ref cb sid mac t data" "data \<noteq> []" "length data \<le> MAX_EVENTS"
  shows "to_send (rolled_back t) data"
proof -
  have s: "rrb_safe (snd_buf t)" using assms(1) by (simp add: in_flight_def sendable_def)
  have "rrb_cap (rrb_roll_back_to_r (snd_buf t)) = rrb_cap (snd_buf t)" by (simp add: rrb_cap_def rrb_roll_back_to_r_def)
  then show ?thesis
    using assms rrbr.rollback_safe [OF s] by (simp add: to_send_def rolled_back_def in_flight_def sendable_def rcv_ok_def)
qed

text \<open>The times at which the timer thread runs a retransmission: not before it is due, and not after \<open>H\<close>.\<close>

fun spaced :: "rat \<Rightarrow> rat \<Rightarrow> rat \<Rightarrow> int list \<Rightarrow> bool" where
  "spaced H d r [] \<longleftrightarrow> True"
| "spaced H d r (T # Ts) \<longleftrightarrow> d \<le> ms T \<and> ms T \<le> H \<and> spaced H (ms T + min (r * 2) MAX_RTO * 1000) (min (r * 2) MAX_RTO) Ts"

text \<open>Timeouts at the given times: each time the timer pass queues an event whose handling sends frames; the
  frames before are lost, those of the last transmission are left.\<close>

inductive timeouts :: "core \<Rightarrow> ether_builder list \<Rightarrow> int list \<Rightarrow> core \<Rightarrow> ether_builder list \<Rightarrow> bool" where
  last: "timeouts a fbs [] a fbs"
| lost: "timer_loop_pass (a\<lparr>c_now_ns := T\<rparr>) = Some (Inr (), a1) \<Longrightarrow> tcp_events_pass a1 = Some (Inr (), a2) \<Longrightarrow>
    c_tx_ring a2 = c_tx_ring a @ fbs1 \<Longrightarrow> timeouts a2 fbs1 Ts a3 fbs2 \<Longrightarrow> timeouts a fbs (T # Ts) a3 fbs2"

lemma conn_at_kept: "conn_at c ref cb sid mac t \<Longrightarrow> net_kept c c' \<Longrightarrow> c_tcpcbs c' = c_tcpcbs c \<Longrightarrow> conn_at c' ref cb sid mac t"
  using wired_kept [of c c'] by (simp add: conn_at_def)

lemma calm_events [simp]: "calm H (c\<lparr>c_events := q\<rparr>) = calm H c"
  by (simp add: calm_def)

lemma timeout_resends:
  assumes "in_flight a ra ca sid ma t data" "armed H d ca t a" "d \<le> ms T" "ms T \<le> H" "data \<noteq> []" "length data \<le> MAX_EVENTS"
  obtains a1 a2 t' fbs where "timer_loop_pass (a\<lparr>c_now_ns := T\<rparr>) = Some (Inr (), a1)" "tcp_events_pass a1 = Some (Inr (), a2)"
    "c_tx_ring a2 = c_tx_ring a @ fbs" "in_flight a2 ra ca sid ma t' data" "carried a2 sid ma t' data fbs" "snd_una t' = snd_una t"
    "rcv_nxt t' = rcv_nxt t" "rto t' = min (rto t * 2) MAX_RTO" "armed H (ms T + min (rto t * 2) MAX_RTO * 1000) ca t' a2"
proof -
  have at: "conn_at a ra ca sid ma t" "c_events a = []" using assms(1) by (simp_all add: in_flight_def)
  obtain a1 where a1: "timer_loop_pass (a\<lparr>c_now_ns := T\<rparr>) = Some (Inr (), a1)" "c_events a1 = [TCPEvent RTX (Some ca) None]" "calm H a1"
    "c_now_ns a1 = T" "net_kept a a1" "c_tcpcbs a1 = c_tcpcbs a" "c_tx_ring a1 = c_tx_ring a"
    by (rule timeout_pass [OF assms(2-4) at(2)])
  let ?c = "a1\<lparr>c_events := []\<rparr>" and ?t = "rolled_back t"
  have c: "conn_at ?c ra ca sid ma t" "c_events ?c = []" using conn_at_kept [OF at(1) a1(5,6)] by simp_all
  note s = rolled_back_to_send [OF assms(1,5,6)]
  have rb: "cb_ref ?t = cb_ref t" "(lip ?t, lp ?t, rip ?t, rp ?t) = (lip t, lp t, rip t, rp t)" "snd_una ?t = snd_una t" "rcv_nxt ?t = rcv_nxt t"
      "rto ?t = min (rto t * 2) MAX_RTO" "rtx_timer ?t = None" "cb_ref ?t = ca"
    using conn_atD(3) [OF at(1)] by (simp_all add: rolled_back_def)
  obtain a2 t' fbs where a2: "handle_event (TCPEvent RTX (Some ca) None) ?c = Some (Inr (), a2)" "c_tx_ring a2 = c_tx_ring ?c @ fbs"
    "in_flight a2 ra ca sid ma t' data" "carried a2 sid ma t' data fbs" "snd_una t' = snd_una ?t" "rcv_nxt t' = rcv_nxt ?t"
    "rtx_armed (fsm_of ?t ?c) (fsm_of t' a2)" "rto t' = rto ?t"
    by (rule data_transmitted [OF c s, of "TCPEvent RTX (Some ca) None"]) (use rb in \<open>simp_all add: event_handler_def rtx_rolled_back\<close>)
  have "armed H (ms (c_now_ns ?c) + rto ?t * 1000) ca t' a2"
    by (rule calm_armed [OF _ a2(7) rb(6,7)]) (use a1(3) in simp)
  then show ?thesis
    using that [OF a1(1) pass_one [OF a1(2) a2(1)] _ a2(3,4)] a2(2,5,6,8) a1(4,7) rb(3-5) by simp
qed

lemma timeouts_resend:
  assumes "in_flight a ra ca sid ma t data" "carried a sid ma t data fbs" "armed H d ca t a" "spaced H d (rto t) Ts" "data \<noteq> []" "length data \<le> MAX_EVENTS"
  shows "\<exists>a' t' fbs'. timeouts a fbs Ts a' fbs' \<and> in_flight a' ra ca sid ma t' data \<and> carried a' sid ma t' data fbs' \<and>
    snd_una t' = snd_una t \<and> rcv_nxt t' = rcv_nxt t"
  using assms(1-4)
proof (induction Ts arbitrary: a t fbs d)
  case Nil
  then show ?case using timeouts.last by blast
next
  case (Cons T Ts)
  have d: "d \<le> ms T" "ms T \<le> H" using Cons.prems(4) by simp_all
  obtain a1 a2 t2 fbs2 where a: "timer_loop_pass (a\<lparr>c_now_ns := T\<rparr>) = Some (Inr (), a1)" "tcp_events_pass a1 = Some (Inr (), a2)"
    "c_tx_ring a2 = c_tx_ring a @ fbs2" "in_flight a2 ra ca sid ma t2 data" "carried a2 sid ma t2 data fbs2" "snd_una t2 = snd_una t"
    "rcv_nxt t2 = rcv_nxt t" "rto t2 = min (rto t * 2) MAX_RTO" "armed H (ms T + min (rto t * 2) MAX_RTO * 1000) ca t2 a2"
    by (rule timeout_resends [OF Cons.prems(1,3) d assms(5,6)])
  have "spaced H (ms T + min (rto t * 2) MAX_RTO * 1000) (rto t2) Ts" using Cons.prems(4) a(8) by simp
  from Cons.IH [OF a(4,5,9) this] obtain a' t' fbs' where r: "timeouts a2 fbs2 Ts a' fbs'" "in_flight a' ra ca sid ma t' data"
      "carried a' sid ma t' data fbs'" "snd_una t' = snd_una t2" "rcv_nxt t' = rcv_nxt t2"
    by blast
  have "timeouts a fbs (T # Ts) a' fbs'" by (rule timeouts.lost [OF a(1-3) r(1)])
  then show ?case using r(2-5) a(6,7) by auto
qed

section \<open>Properties\<close>

text \<open>C2. Lost frames are made up for. Both ends of a connection are at rest and an application sends. The frames of the data are
  lost, and so are those of any number of retransmissions, at any times after the timeouts, which double up to a minute;
  each time the timer thread queues an event and its handling sends all of the data again. When the frames of the last
  transmission reach the other stack, the application there receives exactly the data, and after the acknowledgment both ends are
  at rest again. (Until then no other timer of the sender is due.)\<close>

theorem loss_recovered:
  assumes "at_rest a ra ca sid ma ta" "at_rest b rb cb (mirror sid) mb tb" "in_step ta tb" "data \<noteq> []" "length data \<le> MAX_EVENTS"
    "calm H a" "spaced H (ms (c_now_ns a) + rto ta * 1000) (rto ta) Ts"
  shows "\<exists>a1 a2 a3 fbs1 fbs2 a' b' ta' tb'.
    tcp_send ra data [] a = Some (Inr (length data), a1) \<and> tcp_events_pass a1 = Some (Inr (), a2) \<and> c_tx_ring a2 = c_tx_ring a @ fbs1 \<and>
    timeouts a2 fbs1 Ts a3 fbs2 \<and> received a3 fbs2 data b rb a' b' \<and>
    at_rest a' ra ca sid ma ta' \<and> at_rest b' rb cb (mirror sid) mb tb' \<and> in_step ta' tb'"
proof -
  obtain a1 a2 t fbs where a: "tcp_send ra data [] a = Some (Inr (length data), a1)" "tcp_events_pass a1 = Some (Inr (), a2)"
    "c_tx_ring a2 = c_tx_ring a @ fbs" "in_flight a2 ra ca sid ma t data" "carried a2 sid ma t data fbs" "snd_una t = snd_nxt ta" "rcv_nxt t = rcv_nxt ta"
    "rtx_armed (fsm_of ta a) (fsm_of t a2)" "rto t = rto ta"
    by (rule data_leaves [OF assms(1,4,5)])
  have ta: "rtx_timer ta = None" "cb_ref ta = ca" using assms(1) by (simp_all add: at_rest_def all_acked_def conn_at_def)
  have arm: "armed H (ms (c_now_ns a) + rto ta * 1000) ca t a2" by (rule calm_armed [OF assms(6) a(8) ta])
  have sp: "spaced H (ms (c_now_ns a) + rto ta * 1000) (rto t) Ts" using assms(7) a(9) by simp
  obtain a3 t3 fbs3 where r: "timeouts a2 fbs Ts a3 fbs3" "in_flight a3 ra ca sid ma t3 data" "carried a3 sid ma t3 data fbs3"
      "snd_una t3 = snd_una t" "rcv_nxt t3 = rcv_nxt t"
    using timeouts_resend [OF a(4,5) arm sp assms(4,5)] by blast
  have st: "snd_una t3 = rcv_nxt tb" "snd_nxt tb = rcv_nxt t3" using r(4,5) a(6,7) assms(3) by (simp_all add: in_step_def)
  obtain a' b' ta' tb' where "received a3 fbs3 data b rb a' b'" "at_rest a' ra ca sid ma ta'" "at_rest b' rb cb (mirror sid) mb tb'" "in_step ta' tb'"
    by (rule delivered [OF r(2,3) assms(2) st assms(4,5)])
  then show ?thesis using a(1-3) r(1) by blast
qed

theorem loss_recovered_witness:
  "\<exists>a1 a2 a3 fbs1 fbs2 a' b'. tcp_send 0 [7, 8, 9] [] (end_core sid_example (end_tcb sid_example 101 501)) = Some (Inr 3, a1) \<and>
     tcp_events_pass a1 = Some (Inr (), a2) \<and> timeouts a2 fbs1 [1000000000, 3000000000] a3 fbs2 \<and>
     received a3 fbs2 [7, 8, 9] (end_core (mirror sid_example) (end_tcb (mirror sid_example) 501 101)) 0 a' b'"
proof -
  let ?ta = "end_tcb sid_example 101 501" and ?d = "[7, 8, 9 :: byte]"
  let ?a = "end_core sid_example ?ta" and ?Ts = "[1000000000, 3000000000] :: int list"
  have s: "?d \<noteq> []" "length ?d \<le> MAX_EVENTS" by (simp_all add: MAX_EVENTS_def)
  have c: "calm 10000 ?a" by (simp add: calm_def quiet_def end_core_def core_example_def) (simp add: timer_init_def)
  have sp: "spaced 10000 (ms (c_now_ns ?a) + rto ?ta * 1000) (rto ?ta) ?Ts"
    by (simp add: end_core_def core_example_def end_tcb_def tcpcb_init_def ms_def MAX_RTO_def)
  have l: "length ?d = 3" by simp
  show ?thesis
    using loss_recovered [OF end_pair_at_rest s c sp] unfolding l by blast
qed

end
