(* ===== verification/Stack_Repeat.thy ===== *)
theory Stack_Repeat
  imports Stack_Loss
begin

text \<open>
  Data that arrive a second time, because their acknowledgment was lost: the receiver drops them, answers with
  acknowledgments of what it has, and the sender goes on as after the first acknowledgment.
\<close>

section \<open>A segment that was received before\<close>

definition repeated_seg :: "int \<Rightarrow> out_seg \<Rightarrow> bool" where
  "repeated_seg rn s \<longleftrightarrow> os_data s \<noteq> [] \<and> \<not> os_syn s \<and> \<not> os_fin s \<and> int (length (os_data s)) \<le> seq_diff rn (os_seq s) \<and>
     seq_diff rn (os_seq s) \<le> 65535"

lemma stream_segs_repeated:
  assumes "stream_segs mss v False sq segs" "rn = mask32 (sq + int (length (payload segs)))" "length (payload segs) \<le> 65535"
  shows "\<forall>s\<in>set segs. repeated_seg rn s"
  using assms
proof (induction segs arbitrary: sq)
  case (Cons s segs)
  have s: "s = (data_seg False (os_data s) v)\<lparr>os_seq := mask32 sq\<rparr>" "os_data s \<noteq> []" using Cons.prems(1) by simp_all
  have f: "\<not> os_syn s" "\<not> os_fin s" "os_seq s = mask32 sq" by (subst s(1), simp add: data_seg_def ack_seg_def seg0_def)+
  have l: "length (payload (s # segs)) = length (os_data s) + length (payload segs)" by (simp add: payload_def)
  have "seq_diff rn (os_seq s) = int (length (payload (s # segs)))"
    using Cons.prems(2,3) f(3) seq_diff_add [of "int (length (payload (s # segs)))" sq] by simp
  then have "repeated_seg rn s" using s(2) f Cons.prems(3) l by (simp add: repeated_seg_def)
  moreover have "\<forall>x\<in>set segs. repeated_seg rn x"
    by (rule Cons.IH [of "sq + int (length (os_data s))"]) (use Cons.prems l in \<open>simp_all add: add.assoc\<close>)
  ultimately show ?case by simp
qed simp

lemma repeated_dropped:
  assumes "state w = ESTAB" "rcv_wnd w \<noteq> 0" "seq_num (rcv_nxt w)" "repeated_seg (rcv_nxt w) s" "seg_received s p"
  shows "rx p w = Inr (send_challenge_ack w)"
proof -
  let ?L = "int (length (os_data s))" and ?d = "seq_diff (rcv_nxt w) (os_seq s)"
  have p: "sg_dlen p = ?L" "\<not> sg_syn p" "\<not> sg_fin p" "sg_seq p = os_seq s" "0 < ?L" "?L \<le> ?d" "?d \<le> 65535"
    using assms(4,5) by (simp_all add: repeated_seg_def seg_received_def)
  have last: "last_seq p = os_seq s + (?L - 1)" using p by (simp add: last_seq_def)
  have neg: "seq_diff (os_seq s) (rcv_nxt w) = 4294967296 - ?d" using seq_diff_neg [of "os_seq s" "rcv_nxt w"] p(5,6) by simp
  have "seq_diff (last_seq p) (rcv_nxt w) = 4294967296 - ?d + (?L - 1)"
    unfolding last seq_diff_shift neg using p(5-7) by simp
  then have "\<not> seq_geq (last_seq p) (rcv_nxt w)" using p(5-7) by (simp add: seq_geq_diff)
  moreover have "\<not> seq_gt (sg_seq p) (rcv_nxt w)" using neg p(4,7) by (simp add: seq_gt_diff)
  ultimately have "h_rx_seq_normal p w = (TCP_DROP, p, w)" by (simp add: h_rx_seq_normal_def Let_def)
  then have "h_rx_seq p w = (TCP_DROP, p, w)" using assms(2) p by (simp add: h_rx_seq_cases seg_len_def)
  then show ?thesis using assms(1) by (simp add: rx_def rx_map_def rx_estab_def)
qed

text \<open>A challenge acknowledgment changes nothing but its rate limit.\<close>

definition with_limit :: "int \<Rightarrow> int \<Rightarrow> tcpcb \<Rightarrow> tcpcb" where
  "with_limit l ts t = t\<lparr>challenge_ack_limit := l, last_challenge_ack_timestamp := ts\<rparr>"

lemma with_limit_same [simp]:
  "cb_ref (with_limit l ts t) = cb_ref t" "lip (with_limit l ts t) = lip t" "lp (with_limit l ts t) = lp t" "rip (with_limit l ts t) = rip t"
  "rp (with_limit l ts t) = rp t" "sendable (with_limit l ts t) = sendable t" "all_acked (with_limit l ts t) = all_acked t"
  "rcv_nxt (with_limit l ts t) = rcv_nxt t" "rcv_wnd (with_limit l ts t) = rcv_wnd t" "snd_nxt (with_limit l ts t) = snd_nxt t"
  "with_limit l ts (with_limit l1 ts1 t) = with_limit l ts t"
  by (simp_all add: with_limit_def sendable_def all_acked_def rcv_ok_def)

lemma rest_with_limit: "conn_at c ref cb sid mac (with_limit l ts t) \<Longrightarrow> c_events c = [] \<Longrightarrow> at_rest c0 ref cb sid mac t \<Longrightarrow>
    at_rest c ref cb sid mac (with_limit l ts t)"
  unfolding at_rest_def by (simp add: with_limit_def [of l ts t]) (simp add: with_limit_def sendable_def all_acked_def rcv_ok_def)

lemma fsm_of_with_limit:
  "(fsm_of t c)\<lparr>challenge_ack_limit := l, last_challenge_ack_timestamp := ts, tx_log := acks\<rparr> = (fsm_of (with_limit l ts t) c)\<lparr>tx_log := acks\<rparr>"
  by (cases t) (simp add: fsm_of_def with_limit_def tcpcb.defs fsm.defs)

lemma challenge_sent:
  obtains l ts acks where "send_challenge_ack (fsm_of t c) = (fsm_of (with_limit l ts t) c)\<lparr>tx_log := acks\<rparr>"
    "acks = [] \<or> acks = [ack_seg (fsm_of t c)]" "0 < challenge_ack_limit t \<longrightarrow> acks \<noteq> []"
proof -
  let ?w = "fsm_of t c" and ?t0 = "last_challenge_ack_timestamp (fsm_of t c)"
  define e where "e = (now_ns ?w - ?t0) div 1000000000"
  define l where "l = (if e > 0 then min MAX_TCP_CHALLENGE_ACK_LIMIT (challenge_ack_limit ?w + TCP_CHALLENGE_ACK_RATE_HZ * e) else challenge_ack_limit ?w)"
  define ts where "ts = (if e > 0 then now_ns ?w else ?t0)"
  have a: "ack_seg (?w\<lparr>challenge_ack_limit := x, last_challenge_ack_timestamp := y\<rparr>) = ack_seg ?w" for x y by (simp add: ack_seg_def seg0_def)
  have same: "?w = ?w\<lparr>challenge_ack_limit := challenge_ack_limit ?w, last_challenge_ack_timestamp := ?t0\<rparr>" by simp
  have w1: "(if e > 0 then ?w\<lparr>challenge_ack_limit := min MAX_TCP_CHALLENGE_ACK_LIMIT (challenge_ack_limit ?w + TCP_CHALLENGE_ACK_RATE_HZ * e),
      last_challenge_ack_timestamp := now_ns ?w\<rparr> else ?w) = ?w\<lparr>challenge_ack_limit := l, last_challenge_ack_timestamp := ts\<rparr>"
    using same by (simp add: l_def ts_def)
  have eq: "send_challenge_ack ?w = (if l \<le> 0 then ?w\<lparr>challenge_ack_limit := l, last_challenge_ack_timestamp := ts, tx_log := []\<rparr>
      else ?w\<lparr>challenge_ack_limit := l - 1, last_challenge_ack_timestamp := ts, tx_log := [ack_seg ?w]\<rparr>)"
    unfolding send_challenge_ack_def Let_def e_def [symmetric] w1 by (simp add: tx_tcp_def a)
  have pos: "0 < challenge_ack_limit t \<Longrightarrow> 0 < l" by (simp add: l_def MAX_TCP_CHALLENGE_ACK_LIMIT_def TCP_CHALLENGE_ACK_RATE_HZ_def)
  show ?thesis
  proof (cases "l \<le> 0")
    case True
    then show ?thesis using that [of "[]" l ts] eq pos by (auto simp: fsm_of_with_limit)
  next
    case False
    then show ?thesis using that [of "[ack_seg ?w]" "l - 1" ts] eq by (simp add: fsm_of_with_limit)
  qed
qed

section \<open>The receiver\<close>

lemma repeated_event:
  assumes "conn_at c ref cb sid mac t" "sendable t" "0 < rcv_wnd t" "rcv_wnd t < 65536" "repeated_seg (rcv_nxt t) s" "seg_received s p"
  obtains c' l ts fbs acks where "handle_event (segment_event cb p) c = Some (Inr (), c')" "net_kept c c'" "conn_at c' ref cb sid mac (with_limit l ts t)"
    "c_events c' = c_events c" "c_tx_ring c' = c_tx_ring c @ fbs" "list_all2 (frame_of c mac) acks fbs" "length acks \<le> 1"
    "\<forall>a\<in>set acks. ack_num sid (snd_nxt t) (rcv_nxt t) (rcv_wnd t) a" "0 < challenge_ack_limit t \<longrightarrow> acks \<noteq> []"
proof -
  note a = conn_atD [OF assms(1)]
  have t: "state t = ESTAB" "seq_num (snd_nxt t)" "seq_num (rcv_nxt t)" using assms(2) by (simp_all add: sendable_def rcv_ok_def)
  obtain l ts acks where w: "send_challenge_ack (fsm_of t c) = (fsm_of (with_limit l ts t) c)\<lparr>tx_log := acks\<rparr>"
      "acks = [] \<or> acks = [ack_seg (fsm_of t c)]" "0 < challenge_ack_limit t \<longrightarrow> acks \<noteq> []"
    by (rule challenge_sent)
  let ?w = "(fsm_of (with_limit l ts t) c)\<lparr>tx_log := acks\<rparr>"
  have "rx p (fsm_of t c) = Inr ?w" using repeated_dropped [of "fsm_of t c" s p] assms(3,5,6) t w(1) by simp
  then have ev: "ev_tcpcb (segment_event cb p) = Some cb" "event_handler (segment_event cb p) (fsm_of t c) = Some (Inr ?w)"
    by (simp_all add: segment_event_def event_handler_def)
  have sf: "seg_from sid (ack_seg (fsm_of t c))"
    by (rule ack_seg_from(1) [OF _ a(6)]) (use a(4) assms(3,4) t in simp_all)
  then have ak: "\<forall>x\<in>set acks. ack_num sid (snd_nxt t) (rcv_nxt t) (rcv_wnd t) x"
    using w(2) by (auto simp: ack_num_def) (simp_all add: ack_seg_def seg0_def)
  have tr: "tcpcb.truncate ?w = with_limit l ts t" by (cases t) (simp add: fsm_of_def with_limit_def tcpcb.defs fsm.defs)
  obtain c' fbs where c': "handle_event (segment_event cb p) c = Some (Inr (), c')" "net_kept c c'" "conn_at c' ref cb sid mac (tcpcb.truncate ?w)"
    "c_events c' = events ?w" "c_tx_ring c' = c_tx_ring c @ fbs" "list_all2 (frame_of c mac) (tx_log ?w) fbs"
    by (rule event_handled [OF assms(1) ev]) (use w(2) sf in auto)
  show ?thesis by (rule that [OF c'(1,2) c'(3) [unfolded tr] _ c'(5) _ _ ak w(3)]) (use c'(4,6) w(2) in auto)
qed

lemma repeated_events:
  assumes "conn_at c ref cb sid mac t" "sendable t" "0 < rcv_wnd t" "rcv_wnd t < 65536" "\<forall>s\<in>set segs. repeated_seg (rcv_nxt t) s"
    and "list_all2 seg_received segs ps" "c_events c = map (segment_event cb) ps"
  shows "\<exists>c' t' fbs acks. handle_events (length ps) c = Some (Inr (), c') \<and> net_kept c c' \<and> conn_at c' ref cb sid mac t' \<and>
    (t' = t \<or> (\<exists>l ts. t' = with_limit l ts t)) \<and> c_events c' = [] \<and> c_tx_ring c' = c_tx_ring c @ fbs \<and> list_all2 (frame_of c mac) acks fbs \<and>
    length acks \<le> length ps \<and> (\<forall>a\<in>set acks. ack_num sid (snd_nxt t) (rcv_nxt t) (rcv_wnd t) a) \<and>
    (segs \<noteq> [] \<and> 0 < challenge_ack_limit t \<longrightarrow> acks \<noteq> [])"
  using assms
proof (induction segs arbitrary: c t ps)
  case Nil
  then show ?case by (intro exI [of _ c] exI [of _ t] exI [of _ "[]"]) (simp add: net_kept_def)
next
  case (Cons s segs)
  obtain p ps' where p: "ps = p # ps'" "seg_received s p" "list_all2 seg_received segs ps'"
    using Cons.prems(6) by (auto simp: list_all2_Cons1)
  let ?c = "c\<lparr>c_events := map (segment_event cb) ps'\<rparr>"
  have at: "conn_at ?c ref cb sid mac t" "repeated_seg (rcv_nxt t) s" using Cons.prems(1,5) by simp_all
  obtain c1 l ts fbs acks where c1: "handle_event (segment_event cb p) ?c = Some (Inr (), c1)" "net_kept ?c c1"
    "conn_at c1 ref cb sid mac (with_limit l ts t)" "c_events c1 = c_events ?c" "c_tx_ring c1 = c_tx_ring ?c @ fbs"
    "list_all2 (frame_of ?c mac) acks fbs" "length acks \<le> 1" "\<forall>a\<in>set acks. ack_num sid (snd_nxt t) (rcv_nxt t) (rcv_wnd t) a"
    "0 < challenge_ack_limit t \<longrightarrow> acks \<noteq> []"
    by (rule repeated_event [OF at(1) Cons.prems(2-4) at(2) p(2)])
  have e: "c_events c1 = map (segment_event cb) ps'" using c1(4) by simp
  have pre: "sendable (with_limit l ts t)" "0 < rcv_wnd (with_limit l ts t)" "rcv_wnd (with_limit l ts t) < 65536"
      "\<forall>s\<in>set segs. repeated_seg (rcv_nxt (with_limit l ts t)) s"
    using Cons.prems(2-5) by simp_all
  obtain c' t' fbs' acks' where IH: "handle_events (length ps') c1 = Some (Inr (), c')" "net_kept c1 c'" "conn_at c' ref cb sid mac t'"
    "t' = with_limit l ts t \<or> (\<exists>l' ts'. t' = with_limit l' ts' t)" "c_events c' = []" "c_tx_ring c' = c_tx_ring c1 @ fbs'"
    "list_all2 (frame_of c1 mac) acks' fbs'" "length acks' \<le> length ps'" "\<forall>a\<in>set acks'. ack_num sid (snd_nxt t) (rcv_nxt t) (rcv_wnd t) a"
    using Cons.IH [OF c1(3) pre p(3) e] unfolding with_limit_same by blast
  have ec: "c_events c = segment_event cb p # map (segment_event cb) ps'" using Cons.prems(7) p(1) by simp
  have k: "net_kept c ?c" by simp
  have "handle_events (length ps) c = Some (Inr (), c')"
    using c1(1) IH(1) p(1) by (simp add: handle_events_Cons [OF ec] then_op_bind bind_op_def del: handle_events.simps)
  moreover have "list_all2 (frame_of c mac) (acks @ acks') (fbs @ fbs')"
    using c1(6) IH(7) frame_of_kept [OF k, of mac] frame_of_kept [OF c1(2), of mac] by (auto intro: list_all2_appendI)
  moreover have "t' = t \<or> (\<exists>l ts. t' = with_limit l ts t)" using IH(4) by auto
  ultimately show ?case
    using IH c1(5,7-9) p(1) net_kept_trans [OF k net_kept_trans [OF c1(2) IH(2)]]
    by (intro exI [of _ c'] exI [of _ t'] exI [of _ "fbs @ fbs'"] exI [of _ "acks @ acks'"]) auto
qed

section \<open>The sender\<close>

text \<open>An acknowledgment that says nothing new.\<close>

lemma old_ack_event:
  assumes "conn_at c ref cb sid mac t" "sendable t" "all_acked t" "ack_num sid' (rcv_nxt t) (snd_nxt t) wnd s" "seg_received s p"
  obtains c' t' where "handle_event (segment_event cb p) c = Some (Inr (), c')" "net_kept c c'" "conn_at c' ref cb sid mac t'"
    "c_events c' = c_events c @ [send_event cb]" "c_tx_ring c' = c_tx_ring c" "sendable t'" "all_acked t'" "snd_nxt t' = snd_nxt t"
    "rcv_nxt t' = rcv_nxt t" "rcv_buf t' = rcv_buf t" "remote_mss t' = remote_mss t" "ack_now t' = ack_now t"
    "snd_wnd t' = snd_wnd t \<or> snd_wnd t' = wnd"
proof -
  let ?w = "fsm_of t c"
  note a = conn_atD [OF assms(1)]
  have t: "state t = ESTAB" "win_ok ?w" "rcv_ok t" "snd_una t = snd_nxt t"
    using assms(2,3) by (simp_all add: sendable_def all_acked_def flip: rcv_ok_win)
  have p: "\<not> sg_fin p" "\<not> sg_syn p" "\<not> sg_rst p" "sg_dlen p = 0" "sg_seq p = rcv_nxt t" "sg_ack_seq p = snd_una t" "sg_data p = []" "sg_window p = wnd"
    using assms(4,5) t(4) by (simp_all add: ack_num_def seg_received_def)
  have seq: "h_rx_seq p ?w = (TCP_ACCEPT_AND_HANDLE, p, ?w)"
    using win_ok_seq [OF t(2)] p by (simp add: h_rx_seq_cases seg_len_def h_rx_seq_zlen_zwnd_def h_rx_seq_zlen_def seq_leq_def)
  have ack: "h_rx_ack p ?w = (0, ?w)" using p(6) by (simp add: h_rx_ack_def seq_leq_def)
  define v where "v = compute_rcv_wnd (snd (h_rx_wnd p ?w))"
  let ?w' = "schedule_send v"
  have r: "rx p ?w = Inr ?w'"
    using t(1) p(1-4) by (simp add: rx_def rx_map_def rx_estab_def seq estab_accept_def h_rx_rst_def set_ack_now_def Let_def ack estab_acked_def
        append_nothing [OF p(7)] v_def)
  have vk: "snd_side v = snd_side ?w" "tx_log v = []" "events v = c_events c" "so_error v = c_so_error c" "tcp_tbl v = c_tcp c" "state v = ESTAB"
    "rcv_nxt v = rcv_nxt t" "rcv_buf v = rcv_buf t" "ack_now v = ack_now t"
    using t(1) by (simp_all add: v_def h_rx_wnd_def snd_side_def compute_rcv_wnd_def Let_def)
  have ok: "rcv_ok v" using t(2) by (simp add: v_def rcv_ok_win)
  have wn: "snd_wnd v = snd_wnd t \<or> snd_wnd v = wnd" using p(8) by (simp add: v_def) (simp add: h_rx_wnd_def)
  have id: "cb_ref ?w' = cb_ref t" "(lip ?w', lp ?w', rip ?w', rp ?w') = (lip t, lp t, rip t, rp t)" using vk(1) by (simp_all add: snd_side_def)
  have ev: "ev_tcpcb (segment_event cb p) = Some cb" "event_handler (segment_event cb p) ?w = Some (Inr ?w')"
    using r by (simp_all add: segment_event_def event_handler_def)
  obtain c' fbs where c': "handle_event (segment_event cb p) c = Some (Inr (), c')" "net_kept c c'" "conn_at c' ref cb sid mac (tcpcb.truncate ?w')"
    "c_events c' = events ?w'" "c_tx_ring c' = c_tx_ring c @ fbs" "list_all2 (frame_of c mac) (tx_log ?w') fbs"
    by (rule event_handled [OF assms(1) ev _ _ id]) (use vk in \<open>simp_all add: schedule_send_kept\<close>)
  have sd: "sendable ?w'" "all_acked ?w'" "snd_nxt ?w' = snd_nxt t" "remote_mss ?w' = remote_mss t"
    using vk(1,6) ok assms(2,3) by (auto simp: sendable_def all_acked_def snd_side_def rcv_ok_def)
  show ?thesis
    by (rule that [OF c'(1-3)]) (use c'(4-6) sd vk wn a(3) in \<open>auto simp: schedule_send_kept send_event_def snd_side_def\<close>)
qed

lemma old_ack_events:
  assumes "conn_at c ref cb sid mac t" "sendable t" "all_acked t" "\<forall>s\<in>set acks. ack_num sid' (rcv_nxt t) (snd_nxt t) wnd s"
    and "list_all2 seg_received acks ps" "c_events c = map (segment_event cb) ps @ q"
  shows "\<exists>c' t'. handle_events (length ps) c = Some (Inr (), c') \<and> net_kept c c' \<and> conn_at c' ref cb sid mac t' \<and>
    c_events c' = q @ replicate (length ps) (send_event cb) \<and> c_tx_ring c' = c_tx_ring c \<and> sendable t' \<and> all_acked t' \<and> snd_nxt t' = snd_nxt t \<and>
    rcv_nxt t' = rcv_nxt t \<and> rcv_buf t' = rcv_buf t \<and> remote_mss t' = remote_mss t \<and> ack_now t' = ack_now t \<and>
    (snd_wnd t' = snd_wnd t \<or> snd_wnd t' = wnd)"
  using assms
proof (induction acks arbitrary: c t ps q)
  case Nil
  then show ?case by (intro exI [of _ c] exI [of _ t]) (simp add: net_kept_def)
next
  case (Cons s acks)
  obtain p ps' where p: "ps = p # ps'" "seg_received s p" "list_all2 seg_received acks ps'"
    using Cons.prems(5) by (auto simp: list_all2_Cons1)
  let ?c = "c\<lparr>c_events := map (segment_event cb) ps' @ q\<rparr>"
  have at: "conn_at ?c ref cb sid mac t" "ack_num sid' (rcv_nxt t) (snd_nxt t) wnd s" using Cons.prems(1,4) by simp_all
  obtain c1 t1 where c1: "handle_event (segment_event cb p) ?c = Some (Inr (), c1)" "net_kept ?c c1" "conn_at c1 ref cb sid mac t1"
    "c_events c1 = c_events ?c @ [send_event cb]" "c_tx_ring c1 = c_tx_ring ?c" "sendable t1" "all_acked t1" "snd_nxt t1 = snd_nxt t"
    "rcv_nxt t1 = rcv_nxt t" "rcv_buf t1 = rcv_buf t" "remote_mss t1 = remote_mss t" "ack_now t1 = ack_now t"
    "snd_wnd t1 = snd_wnd t \<or> snd_wnd t1 = wnd"
    by (rule old_ack_event [OF at(1) Cons.prems(2,3) at(2) p(2)])
  have pre: "\<forall>s\<in>set acks. ack_num sid' (rcv_nxt t1) (snd_nxt t1) wnd s" "c_events c1 = map (segment_event cb) ps' @ (q @ [send_event cb])"
    using Cons.prems(4) c1(4,8,9) by simp_all
  obtain c' t' where IH: "handle_events (length ps') c1 = Some (Inr (), c')" "net_kept c1 c'" "conn_at c' ref cb sid mac t'"
    "c_events c' = (q @ [send_event cb]) @ replicate (length ps') (send_event cb)" "c_tx_ring c' = c_tx_ring c1" "sendable t'" "all_acked t'"
    "snd_nxt t' = snd_nxt t1" "rcv_nxt t' = rcv_nxt t1" "rcv_buf t' = rcv_buf t1" "remote_mss t' = remote_mss t1" "ack_now t' = ack_now t1"
    "snd_wnd t' = snd_wnd t1 \<or> snd_wnd t' = wnd"
    using Cons.IH [OF c1(3,6,7) pre(1) p(3) pre(2)] by blast
  have e: "c_events c = segment_event cb p # map (segment_event cb) ps' @ q" using Cons.prems(6) p(1) by simp
  have "handle_events (length ps) c = Some (Inr (), c')"
    using c1(1) IH(1) p(1) by (simp add: handle_events_Cons [OF e] then_op_bind bind_op_def del: handle_events.simps)
  then show ?case
    using IH c1(5,8-13) p(1) net_kept_trans [OF net_kept_upd(1) net_kept_trans [OF c1(2) IH(2)]]
    by (intro exI [of _ c'] exI [of _ t']) auto
qed

text \<open>Acknowledgments of the data in flight: the first one frees them.\<close>

lemma acks_handled:
  assumes "in_flight a ra ca sid ma t data" "data \<noteq> []" "length data \<le> MAX_EVENTS" "acks \<noteq> []"
    and "\<forall>s\<in>set acks. ack_num sid' (rcv_nxt t) (snd_nxt t) wnd s" "list_all2 seg_received acks ps"
  obtains a' t' where "handle_events (length ps) (a\<lparr>c_events := map (segment_event ca) ps\<rparr>) = Some (Inr (), a')" "conn_at a' ra ca sid ma t'"
    "c_events a' = replicate (length ps) (send_event ca)" "c_tx_ring a' = c_tx_ring a" "sendable t'" "all_acked t'" "snd_nxt t' = snd_nxt t"
    "rcv_nxt t' = rcv_nxt t" "rcv_buf t' = rcv_buf t" "remote_mss t' = remote_mss t" "\<not> ack_now t'" "snd_wnd t' = snd_wnd t \<or> snd_wnd t' = wnd"
proof -
  have t: "conn_at a ra ca sid ma t" "sendable t" "\<not> ack_now t" "rrb_unacked (snd_buf t) = data" "rrb_contents (snd_buf t) = []"
      "snd_nxt t = mask32 (snd_una t + int (length data))"
    using assms(1) by (simp_all add: in_flight_def)
  obtain s acks' p ps' where sp: "acks = s # acks'" "ps = p # ps'" "seg_received s p" "list_all2 seg_received acks' ps'"
    using assms(4,6) by (cases acks) (auto simp: list_all2_Cons1)
  let ?a = "a\<lparr>c_events := map (segment_event ca) ps\<rparr>" and ?c = "a\<lparr>c_events := map (segment_event ca) ps'\<rparr>"
  have at: "conn_at ?c ra ca sid ma t" "ack_num sid' (rcv_nxt t) (snd_nxt t) wnd s" using t(1) assms(5) sp(1) by simp_all
  obtain b t1 where b: "handle_event (segment_event ca p) ?c = Some (Inr (), b)" "net_kept ?c b" "conn_at b ra ca sid ma t1"
    "c_events b = c_events ?c @ [send_event ca]" "c_tx_ring b = c_tx_ring ?c" "sendable t1" "all_acked t1" "snd_nxt t1 = snd_nxt t"
    "rcv_nxt t1 = rcv_nxt t" "rcv_buf t1 = rcv_buf t" "remote_mss t1 = remote_mss t" "ack_now t1 = ack_now t" "snd_wnd t1 = snd_wnd t \<or> snd_wnd t1 = wnd"
    by (rule ack_event [OF at(1) t(2) _ _ t(5) _ at(2) sp(3)]) (use t(4,6) assms(2,3) in \<open>simp_all add: MAX_EVENTS_def\<close>)
  have old: "\<forall>s\<in>set acks'. ack_num sid' (rcv_nxt t1) (snd_nxt t1) wnd s" "c_events b = map (segment_event ca) ps' @ [send_event ca]"
    using assms(5) sp(1) b(4,8,9) by simp_all
  obtain a' t' where a': "handle_events (length ps') b = Some (Inr (), a')" "conn_at a' ra ca sid ma t'"
    "c_events a' = [send_event ca] @ replicate (length ps') (send_event ca)" "c_tx_ring a' = c_tx_ring b" "sendable t'" "all_acked t'"
    "snd_nxt t' = snd_nxt t1" "rcv_nxt t' = rcv_nxt t1" "rcv_buf t' = rcv_buf t1" "remote_mss t' = remote_mss t1" "ack_now t' = ack_now t1"
    "snd_wnd t' = snd_wnd t1 \<or> snd_wnd t' = wnd"
    using old_ack_events [OF b(3,6,7) old(1) sp(4) old(2)] by blast
  have e: "c_events ?a = segment_event ca p # map (segment_event ca) ps'" using sp(2) by simp
  have "handle_events (length ps) ?a = Some (Inr (), a')"
    using handle_events_Cons [OF e, of "length ps'"] b(1) a'(1) sp(2) by (simp add: then_op_bind bind_op_def del: handle_events.simps)
  then show ?thesis by (rule that [OF _ a'(2)]) (use a' b(5,8-13) sp(2) t(3) in auto)
qed

lemma acks_taken:
  assumes "in_flight a ra ca sid ma t data" "data \<noteq> []" "length data \<le> MAX_EVENTS" "acks \<noteq> []" "length acks \<le> MAX_EVENTS"
    and "\<forall>s\<in>set acks. ack_num (mirror sid) (rcv_nxt t) (snd_nxt t) wnd s" "int MAX_EVENTS \<le> wnd"
    and "list_all2 (frame_of peer pmac) acks fbs" "mac_ok pmac" "mac_ok (c_unicast_mac peer)"
  obtains fs a1 a2 a3 t' where "map tx_frame_bytes fbs = map Inr fs" "deque_batch fs a = Some (Inr (), a1)" "tcp_events_pass a1 = Some (Inr (), a2)"
    "tcp_events_pass a2 = Some (Inr (), a3)" "c_tx_ring a3 = c_tx_ring a" "at_rest a3 ra ca sid ma t'" "snd_nxt t' = snd_nxt t" "rcv_nxt t' = rcv_nxt t"
proof -
  have t: "conn_at a ra ca sid ma t" "c_events a = []" "0 < remote_mss t" "remote_mss t \<le> 1460" "rb_contents (rcv_buf t) = []" "int MAX_EVENTS \<le> snd_wnd t"
    using assms(1) by (simp_all add: in_flight_def)
  have src: "\<forall>s\<in>set acks. seg_from (mirror sid) s" using assms(6) by (auto simp: ack_num_def)
  obtain fs ps where fs: "map tx_frame_bytes fbs = map Inr fs" "list_all2 seg_received acks ps"
      "deque_batch fs a = Some (Inr (), a\<lparr>c_events := map (segment_event ca) ps\<rparr>)"
    using frames_arrive [OF conn_atD(1) [OF t(1)] src assms(8-10)] t(2) by auto
  let ?a1 = "a\<lparr>c_events := map (segment_event ca) ps\<rparr>"
  have n: "length ps \<le> MAX_EVENTS" "length ps \<noteq> 0" using list_all2_lengthD [OF fs(2)] assms(4,5) by auto
  obtain a2 t2 where a2: "handle_events (length ps) ?a1 = Some (Inr (), a2)" "conn_at a2 ra ca sid ma t2"
    "c_events a2 = replicate (length ps) (send_event ca)" "c_tx_ring a2 = c_tx_ring a" "sendable t2" "all_acked t2" "snd_nxt t2 = snd_nxt t"
    "rcv_nxt t2 = rcv_nxt t" "rcv_buf t2 = rcv_buf t" "remote_mss t2 = remote_mss t" "\<not> ack_now t2" "snd_wnd t2 = snd_wnd t \<or> snd_wnd t2 = wnd"
    by (rule acks_handled [OF assms(1-4,6) fs(2)])
  have q: "rrb_contents (snd_buf t2) = []" using a2(6) by (simp add: all_acked_def)
  obtain a3 t3 where a3: "handle_events (length ps) a2 = Some (Inr (), a3)" "conn_at a3 ra ca sid ma t3" "c_events a3 = []"
    "c_tx_ring a3 = c_tx_ring a2" "sendable t3" "settled t3 = settled t2" "\<not> ack_now t3" "rcv_wnd t3 = int (rb_free_space (rcv_buf t2))"
    "int (rb_free_space (rcv_buf t2)) \<le> seq_diff (rcv_adv t3) (rcv_nxt t3)"
    using send_events_idle [OF a2(2,5) q a2(3)] a2(11) n(2) by auto
  have fr: "rb_free_space (rcv_buf t2) = 65534" using empty_rcv_free [OF a2(5)] a2(9) t(5) by simp
  have p1: "tcp_events_pass ?a1 = Some (Inr (), a2)" using events_pass_all [of ?a1] n a2(1) by simp
  have p2: "tcp_events_pass a2 = Some (Inr (), a3)" using events_pass_all [of a2] a2(3) n a3(1) by simp
  have "at_rest a3 ra ca sid ma t3"
    using a3 a2(6,9,10,12) fr t(3-6) assms(7) by (auto simp: at_rest_def settled_def all_acked_def MAX_EVENTS_def)
  then show ?thesis using that [OF fs(1,3) p1 p2] a3(4,6) a2(4,7,8) by (simp add: settled_def)
qed

section \<open>The repetition\<close>

text \<open>The frames of data that were received before reach the receiver, and its answers the sender.\<close>

definition repeated :: "core \<Rightarrow> ether_builder list \<Rightarrow> core \<Rightarrow> core \<Rightarrow> core \<Rightarrow> bool" where
  "repeated a fbs b a' b' \<longleftrightarrow> (\<exists>fs b1 acks fs' a1 a2. map tx_frame_bytes fbs = map Inr fs \<and> deque_batch fs b = Some (Inr (), b1) \<and>
     tcp_events_pass b1 = Some (Inr (), b') \<and> c_tx_ring b' = c_tx_ring b @ acks \<and> map tx_frame_bytes acks = map Inr fs' \<and>
     deque_batch fs' a = Some (Inr (), a1) \<and> tcp_events_pass a1 = Some (Inr (), a2) \<and> tcp_events_pass a2 = Some (Inr (), a') \<and>
     c_tx_ring a' = c_tx_ring a)"

lemma repetition_dropped:
  assumes "in_flight a ra ca sid ma t data" "carried a sid ma t data fbs" "at_rest b rb cb (mirror sid) mb tb" "snd_nxt t = rcv_nxt tb"
    and "length data \<le> MAX_EVENTS" "data \<noteq> []" "0 < challenge_ack_limit tb"
  obtains fs b1 b2 tb' acks fbs' where "map tx_frame_bytes fbs = map Inr fs" "deque_batch fs b = Some (Inr (), b1)" "tcp_events_pass b1 = Some (Inr (), b2)"
    "c_tx_ring b2 = c_tx_ring b @ fbs'" "list_all2 (frame_of b mb) acks fbs'" "acks \<noteq> []" "length acks \<le> MAX_EVENTS"
    "\<forall>s\<in>set acks. ack_num (mirror sid) (snd_nxt tb) (rcv_nxt tb) (rcv_wnd tb) s" "at_rest b2 rb cb (mirror sid) mb tb'"
    "snd_nxt tb' = snd_nxt tb" "rcv_nxt tb' = rcv_nxt tb"
proof -
  have t: "conn_at a ra ca sid ma t" "snd_nxt t = mask32 (snd_una t + int (length data))" using assms(1) by (simp_all add: in_flight_def)
  have tb: "conn_at b rb cb (mirror sid) mb tb" "c_events b = []" "sendable tb" "0 < rcv_wnd tb" "rcv_wnd tb < 65536" using assms(3) by (auto simp: at_rest_def MAX_EVENTS_def)
  obtain segs v where sg: "list_all2 (frame_of a ma) segs fbs" "\<forall>s\<in>set segs. seg_from sid s" "payload segs = data"
      "stream_segs (remote_mss t) v False (snd_una t) segs"
    using assms(2) by (auto simp: carried_def)
  have n: "length segs \<le> MAX_EVENTS" "segs \<noteq> []" using sg(3) assms(5,6) stream_segs_count [OF sg(4)] by (auto simp: payload_def)
  have rep: "\<forall>s\<in>set segs. repeated_seg (rcv_nxt tb) s"
    by (rule stream_segs_repeated [OF sg(4)]) (use t(2) sg(3) assms(4,5) in \<open>simp_all add: MAX_EVENTS_def\<close>)
  have src: "\<forall>s\<in>set segs. seg_from (mirror (mirror sid)) s" using sg(2) by simp
  obtain fs ps where fs: "map tx_frame_bytes fbs = map Inr fs" "list_all2 seg_received segs ps"
      "deque_batch fs b = Some (Inr (), b\<lparr>c_events := map (segment_event cb) ps\<rparr>)"
    using frames_arrive [OF conn_atD(1) [OF tb(1)] src sg(1) conn_atD(7,8) [OF t(1)]] tb(2) by auto
  let ?b = "b\<lparr>c_events := map (segment_event cb) ps\<rparr>"
  have at: "conn_at ?b rb cb (mirror sid) mb tb" "c_events ?b = map (segment_event cb) ps" using tb(1) by simp_all
  obtain b2 tb' fbs' acks where b2: "handle_events (length ps) ?b = Some (Inr (), b2)" "net_kept ?b b2" "conn_at b2 rb cb (mirror sid) mb tb'"
    "tb' = tb \<or> (\<exists>l ts. tb' = with_limit l ts tb)" "c_events b2 = []" "c_tx_ring b2 = c_tx_ring ?b @ fbs'" "list_all2 (frame_of ?b mb) acks fbs'"
    "length acks \<le> length ps" "\<forall>s\<in>set acks. ack_num (mirror sid) (snd_nxt tb) (rcv_nxt tb) (rcv_wnd tb) s" "acks \<noteq> []"
    using repeated_events [OF at(1) tb(3-5) rep fs(2) at(2)] n(2) assms(7) by blast
  have l: "length ps = length segs" using list_all2_lengthD [OF fs(2)] by simp
  have pass: "tcp_events_pass ?b = Some (Inr (), b2)" using events_pass_all [of ?b] n(1) l b2(1) by simp
  have same: "at_rest b2 rb cb (mirror sid) mb tb" if "conn_at b2 rb cb (mirror sid) mb tb" using that b2(5) assms(3) by (simp add: at_rest_def)
  have rest: "at_rest b2 rb cb (mirror sid) mb tb'" "snd_nxt tb' = snd_nxt tb" "rcv_nxt tb' = rcv_nxt tb"
    using b2(3,4) same rest_with_limit [OF _ b2(5) assms(3)] by auto
  have k: "net_kept b ?b" by simp
  show ?thesis
    by (rule that [OF fs(1,3) pass _ _ b2(10) _ b2(9) rest]) (use b2(6,7,8) l n(1) frame_of_kept [OF k, of mb] in simp_all)
qed

lemma repetition_harmless:
  assumes "in_flight a ra ca sid ma t data" "carried a sid ma t data fbs" "at_rest b rb cb (mirror sid) mb tb" "snd_nxt t = rcv_nxt tb"
    and "rcv_nxt t = snd_nxt tb" "data \<noteq> []" "length data \<le> MAX_EVENTS" "0 < challenge_ack_limit tb"
  obtains a' b' ta' tb' where "repeated a fbs b a' b'" "at_rest a' ra ca sid ma ta'" "at_rest b' rb cb (mirror sid) mb tb'" "in_step ta' tb'"
proof -
  have tb: "conn_at b rb cb (mirror sid) mb tb" "int MAX_EVENTS \<le> rcv_wnd tb" using assms(3) by (simp_all add: at_rest_def)
  obtain fs b1 b2 tb' acks fbs' where b: "map tx_frame_bytes fbs = map Inr fs" "deque_batch fs b = Some (Inr (), b1)"
    "tcp_events_pass b1 = Some (Inr (), b2)" "c_tx_ring b2 = c_tx_ring b @ fbs'" "list_all2 (frame_of b mb) acks fbs'" "acks \<noteq> []"
    "length acks \<le> MAX_EVENTS" "\<forall>s\<in>set acks. ack_num (mirror sid) (snd_nxt tb) (rcv_nxt tb) (rcv_wnd tb) s"
    "at_rest b2 rb cb (mirror sid) mb tb'" "snd_nxt tb' = snd_nxt tb" "rcv_nxt tb' = rcv_nxt tb"
    by (rule repetition_dropped [OF assms(1-4,7,6,8)])
  have ak: "\<forall>s\<in>set acks. ack_num (mirror sid) (rcv_nxt t) (snd_nxt t) (rcv_wnd tb) s" using b(8) assms(4,5) by simp
  obtain fs' a1 a2 a3 t' where a: "map tx_frame_bytes fbs' = map Inr fs'" "deque_batch fs' a = Some (Inr (), a1)" "tcp_events_pass a1 = Some (Inr (), a2)"
    "tcp_events_pass a2 = Some (Inr (), a3)" "c_tx_ring a3 = c_tx_ring a" "at_rest a3 ra ca sid ma t'" "snd_nxt t' = snd_nxt t" "rcv_nxt t' = rcv_nxt t"
    by (rule acks_taken [OF assms(1,6,7) b(6,7) ak tb(2) b(5) conn_atD(7,8) [OF tb(1)]])
  have "repeated a fbs b a3 b2" unfolding repeated_def using b(1-4) a(1-5) by blast
  then show ?thesis using that a(6-8) b(9-11) assms(4,5) by (simp add: in_step_def)
qed

section \<open>Properties\<close>

text \<open>C3. A lost acknowledgment does no harm. Both ends of a connection are at rest and an application sends; its data arrive and are
  read, but the frame of the acknowledgment is lost. After the timeout, and after any number of further timeouts, the data are sent
  again. When the frames of the last transmission reach the receiver, they are dropped: nothing is delivered a second
  time, and the receiver answers with acknowledgments of what it has. Their frames free the data at the sender, stop its timer, and both ends are
  at rest again and in step. (The receiver may send a challenge acknowledgment, and no other timer of the sender is due.)\<close>

theorem lost_ack_recovered:
  assumes "at_rest a ra ca sid ma ta" "at_rest b rb cb (mirror sid) mb tb" "in_step ta tb" "data \<noteq> []" "length data \<le> MAX_EVENTS"
    "0 < challenge_ack_limit tb" "calm H a" "spaced H (ms (c_now_ns a) + rto ta * 1000) (rto ta) Ts"
  shows "\<exists>a1 a2 a3 fbs1 fbs2 fb b1 a' b' ta' tb'.
    tcp_send ra data [] a = Some (Inr (length data), a1) \<and> tcp_events_pass a1 = Some (Inr (), a2) \<and> c_tx_ring a2 = c_tx_ring a @ fbs1 \<and>
    arrived fbs1 data b rb fb b1 \<and> timeouts a2 fbs1 Ts a3 fbs2 \<and> repeated a3 fbs2 b1 a' b' \<and>
    at_rest a' ra ca sid ma ta' \<and> at_rest b' rb cb (mirror sid) mb tb' \<and> in_step ta' tb'"
proof -
  obtain a1 a2 t fbs where a: "tcp_send ra data [] a = Some (Inr (length data), a1)" "tcp_events_pass a1 = Some (Inr (), a2)"
    "c_tx_ring a2 = c_tx_ring a @ fbs" "in_flight a2 ra ca sid ma t data" "carried a2 sid ma t data fbs" "snd_una t = snd_nxt ta" "rcv_nxt t = rcv_nxt ta"
    "rtx_armed (fsm_of ta a) (fsm_of t a2)" "rto t = rto ta"
    by (rule data_leaves [OF assms(1,4,5)])
  have st: "snd_una t = rcv_nxt tb" "snd_nxt tb = rcv_nxt t" using a(6,7) assms(3) by (simp_all add: in_step_def)
  obtain b1 u fb where b: "arrived fbs data b rb fb b1" "at_rest b1 rb cb (mirror sid) mb u" "snd_nxt u = rcv_nxt t" "rcv_nxt u = snd_nxt t"
      "challenge_ack_limit u = challenge_ack_limit tb"
    by (rule data_delivered [OF a(4,5) assms(2) st assms(4,5)])
  have ta: "rtx_timer ta = None" "cb_ref ta = ca" using assms(1) by (simp_all add: at_rest_def all_acked_def conn_at_def)
  have arm: "armed H (ms (c_now_ns a) + rto ta * 1000) ca t a2" by (rule calm_armed [OF assms(7) a(8) ta])
  have sp: "spaced H (ms (c_now_ns a) + rto ta * 1000) (rto t) Ts" using assms(8) a(9) by simp
  obtain a3 t3 fbs3 where r: "timeouts a2 fbs Ts a3 fbs3" "in_flight a3 ra ca sid ma t3 data" "carried a3 sid ma t3 data fbs3"
      "snd_una t3 = snd_una t" "rcv_nxt t3 = rcv_nxt t"
    using timeouts_resend [OF a(4,5) arm sp assms(4,5)] by blast
  have nx: "snd_nxt t3 = rcv_nxt u" "rcv_nxt t3 = snd_nxt u" using a(4) r(2,4,5) b(3,4) by (simp_all add: in_flight_def)
  have lim: "0 < challenge_ack_limit u" using b(5) assms(6) by simp
  obtain a' b' ta' tb' where "repeated a3 fbs3 b1 a' b'" "at_rest a' ra ca sid ma ta'" "at_rest b' rb cb (mirror sid) mb tb'" "in_step ta' tb'"
    by (rule repetition_harmless [OF r(2,3) b(2) nx assms(4,5) lim])
  then show ?thesis using a(1-3) b(1) r(1) by blast
qed

theorem lost_ack_recovered_witness:
  "\<exists>a1 a2 a3 fbs1 fbs2 fb b1 a' b'. tcp_send 0 [7, 8, 9] [] (end_core sid_example (end_tcb sid_example 101 501)) = Some (Inr 3, a1) \<and>
     tcp_events_pass a1 = Some (Inr (), a2) \<and>
     arrived fbs1 [7, 8, 9] (end_core (mirror sid_example) (end_tcb (mirror sid_example) 501 101)) 0 fb b1 \<and>
     timeouts a2 fbs1 [1000000000, 3000000000] a3 fbs2 \<and> repeated a3 fbs2 b1 a' b'"
proof -
  let ?ta = "end_tcb sid_example 101 501" and ?tb = "end_tcb (mirror sid_example) 501 101" and ?d = "[7, 8, 9 :: byte]"
  let ?a = "end_core sid_example ?ta" and ?Ts = "[1000000000, 3000000000] :: int list"
  have s: "?d \<noteq> []" "length ?d \<le> MAX_EVENTS" "0 < challenge_ack_limit ?tb"
    by (simp_all add: MAX_EVENTS_def end_tcb_def tcpcb_init_def MAX_TCP_CHALLENGE_ACK_LIMIT_def)
  have c: "calm 10000 ?a" by (simp add: calm_def quiet_def end_core_def core_example_def) (simp add: timer_init_def)
  have sp: "spaced 10000 (ms (c_now_ns ?a) + rto ?ta * 1000) (rto ?ta) ?Ts"
    by (simp add: end_core_def core_example_def end_tcb_def tcpcb_init_def ms_def MAX_RTO_def)
  have l: "length ?d = 3" by simp
  show ?thesis
    using lost_ack_recovered [OF end_pair_at_rest s c sp] unfolding l by blast
qed

end
