(* ===== verification/Tcp_Teardown.thy ===== *)
theory Tcp_Teardown
  imports Stack_Loss
begin

text \<open>
  The steps of the state machine that end a connection in order: the FIN of the side that closes first, its
  acknowledgment, the FIN of the other side and the last acknowledgment. Each step says what it sends and what it leaves of
  the connection, so that the steps can be joined through the frames of two stacks.
\<close>

section \<open>What the steps leave alone\<close>

definition conn_view :: "fsm \<Rightarrow> _" where
  "conn_view w = (cb_ref w, (lip w, lp w, rip w, rp w), so_error w, tcp_tbl w, close_requested w, shutdown_requested w,
     rcv_buf w, sock_opt w, now_ns w)"

lemma view_frame [simp]:
  "conn_view (compute_rcv_wnd w) = conn_view w" "conn_view (send_ack w) = conn_view w" "conn_view (schedule_send w) = conn_view w"
  "conn_view (change_state ns w) = conn_view w" "conn_view (start_rtx_timer w) = conn_view w" "conn_view (stop_rtx_timer w) = conn_view w"
  "conn_view (start_time_wait_timer w) = conn_view w" "conn_view (rtt_sample w) = conn_view w" "conn_view (tx_tcp s w) = conn_view w"
  "conn_view (notify cd w) = conn_view w" "conn_view (set_ack_now p w) = conn_view w" "conn_view (send_fin ns w) = conn_view w"
  "conn_view (snd (h_rx_wnd p w)) = conn_view w" "conn_view (w\<lparr>snd_buf := b\<rparr>) = conn_view w" "conn_view (w\<lparr>ack_now := a\<rparr>) = conn_view w"
  "conn_view (w\<lparr>snd_una := n\<rparr>) = conn_view w"
  "conn_view (w\<lparr>tcp_data_start := x, tcp_data_len := y, rcv_nxt := n\<rparr>) = conn_view w"
  by (simp_all add: conn_view_def send_fin_def Let_def)
    (simp_all add: compute_rcv_wnd_def Let_def notify_def h_rx_wnd_def)

lemma events_frame [simp]:
  "events (tx_tcp sg w) = events w" "events (compute_rcv_wnd w) = events w" "events (send_ack w) = events w"
  "events (change_state ns w) = events w" "events (start_rtx_timer w) = events w" "events (stop_rtx_timer w) = events w"
  "events (start_time_wait_timer w) = events w" "events (rtt_sample w) = events w" "events (notify cd w) = events w"
  "events (set_ack_now p w) = events w" "events (send_fin ns w) = events w" "events (snd (h_rx_wnd p w)) = events w"
proof -
  show t: "events (tx_tcp sg w) = events w" for sg w by (simp add: tx_tcp_def)
  show "events (send_ack w) = events w" "events (send_fin ns w) = events w" by (simp_all add: send_ack_def send_fin_def Let_def t)
qed (simp_all add: compute_rcv_wnd_def Let_def h_rx_wnd_def)

lemma timer_frame [simp]:
  "timer (compute_rcv_wnd w) = timer w" "timer (tx_tcp sg w) = timer w" "timer (send_ack w) = timer w" "timer (change_state ns w) = timer w"
  "timer (rtt_probe w) = timer w" "timer (snd (h_rx_wnd p w)) = timer w" "timer (set_ack_now p w) = timer w"
  by (simp_all add: compute_rcv_wnd_def Let_def tx_tcp_def send_ack_def change_state_def rtt_probe_def h_rx_wnd_def set_ack_now_def
      split: option.splits)

text \<open>The receive window a handler has computed.\<close>

definition open_window :: "'a tcpcb_scheme \<Rightarrow> bool" where
  "open_window w \<longleftrightarrow> rcv_ok w \<and> rcv_wnd w = int (rb_free_space (rcv_buf w)) \<and>
     int (rb_free_space (rcv_buf w)) \<le> seq_diff (rcv_adv w) (rcv_nxt w)"

lemma open_window_computed: "rcv_ok (w :: fsm) \<Longrightarrow> open_window (compute_rcv_wnd w)"
  using compute_rcv_wnd_fields [of w] by (simp add: open_window_def rcv_ok_win)

section \<open>The FIN\<close>

text \<open>A send event after a close or a shutdown, with nothing left to send: one FIN, and its retransmission timer.\<close>

lemma fin_sent:
  assumes "state w = ESTAB \<or> state w = CLOSE_WAIT" "close_requested w \<or> shutdown_requested w" "rrb_inv (snd_buf w)"
    and "rrb_contents (snd_buf w) = []" "0 < snd_wnd w" "\<not> sent_fin w" "\<not> linger_abort (close_requested w) w" "rcv_ok w"
  obtains w' v where "tx w = Some (Inr w')" "tx_log w' = tx_log w @ [fin_seg v]" "conn_view v = conn_view w" "snd_nxt v = snd_nxt w"
    "rcv_nxt v = rcv_nxt w" "rcv_wnd v = int (rb_free_space (rcv_buf w))" "conn_view w' = conn_view w" "events w' = events w"
    "state w' = (if state w = ESTAB then FIN_WAIT_1 else LAST_ACK)" "snd_una w' = snd_una w" "snd_nxt w' = mask32 (snd_nxt w + 1)"
    "rcv_nxt w' = rcv_nxt w" "open_window w'" "rtx_armed w w'" "snd_wnd w' = snd_wnd w" "state w = ESTAB \<longrightarrow> \<not> ack_now w'"
proof -
  obtain b where b: "drain_snd_buf w = ([], w\<lparr>snd_buf := b\<rparr>)" using drain_empty [OF assms(3,4)] by blast
  obtain c where c: "drain_snd_buf (compute_rcv_wnd w) = ([], (compute_rcv_wnd w)\<lparr>snd_buf := c\<rparr>)"
    using drain_empty [of "compute_rcv_wnd w"] assms(3,4) by auto
  define v where "v = (if state w = ESTAB then compute_rcv_wnd (w\<lparr>snd_buf := b\<rparr>) else (compute_rcv_wnd w)\<lparr>snd_buf := c\<rparr>)"
  define ns where "ns = Some (if state w = ESTAB then FIN_WAIT_1 else LAST_ACK)"
  define w' where "w' = (if state w = ESTAB then (send_fin ns v)\<lparr>ack_now := False\<rparr> else send_fin ns v)"
  have l: "\<not> linger_abort (close_requested w) v" using assms(7) by (simp add: linger_abort_def v_def)
  have t: "tx w = Some (Inr w')"
    using assms(1,2,5) h_active_close_tx_no [OF l]
    by (auto simp: tx_def tx_map_def tx_estab_def tx_close_wait_def b c Let_def v_def ns_def w'_def)
  have v: "conn_view v = conn_view w" "snd_nxt v = snd_nxt w" "rcv_nxt v = rcv_nxt w" "rcv_wnd v = int (rb_free_space (rcv_buf w))"
    "events v = events w" "\<not> sent_fin v" "snd_una v = snd_una w" "tx_log v = tx_log w" "rtx_timer v = rtx_timer w" "timer v = timer w"
    "snd_wnd v = snd_wnd w" "rto v = rto w" "now_ns v = now_ns w" "cb_ref v = cb_ref w"
    using assms(6) by (simp_all add: v_def) (simp_all add: compute_rcv_wnd_def Let_def)
  have "rcv_ok (w\<lparr>snd_buf := b\<rparr>)" using assms(8) by (simp add: rcv_ok_def)
  then have ov: "open_window v"
    using open_window_computed [of "w\<lparr>snd_buf := b\<rparr>"] open_window_computed [OF assms(8)]
    by (simp add: v_def open_window_def rcv_ok_def)
  have sf: "rcv_adv (send_fin ns v) = rcv_adv v" "rcv_nxt (send_fin ns v) = rcv_nxt v" "rcv_wnd (send_fin ns v) = rcv_wnd v"
    "rcv_buf (send_fin ns v) = rcv_buf v" "snd_una (send_fin ns v) = snd_una v" "snd_wnd (send_fin ns v) = snd_wnd v" "state (send_fin ns v) = the ns"
    using v(6) by (simp_all add: send_fin_def Let_def ns_def)
  have arm: "rtx_armed w (send_fin ns v)"
    using v(6,9,10,12-14) unfolding rtx_armed_def
    by (auto simp: send_fin_def Let_def split_def start_rtx_timer_def schedule_rtx_def change_state_def rtt_probe_def tx_tcp_def split: option.splits)
  note f = send_fin_first [OF v(6), of ns]
  show ?thesis
  proof (rule that [OF t, of v])
    show "open_window w'" using ov sf by (simp add: w'_def open_window_def rcv_ok_def)
    show "rtx_armed w w'" using arm by (simp add: w'_def rtx_armed_def)
    show "state w' = (if state w = ESTAB then FIN_WAIT_1 else LAST_ACK)" using sf(7) v(6) by (simp add: w'_def ns_def)
  qed (use v sf f in \<open>simp_all add: w'_def\<close>)
qed

text \<open>The sending side of a connection without anything unacknowledged.\<close>

definition idle_side :: "'a tcpcb_scheme \<Rightarrow> _" where
  "idle_side w = (snd_una w, snd_nxt w, snd_buf w, sent_fin w, rtx_timer w)"

lemma h_rx_wnd_snd_wnd: "snd_wnd (snd (h_rx_wnd p w)) = snd_wnd w \<or> snd_wnd (snd (h_rx_wnd p w)) = sg_window p"
  by (simp add: h_rx_wnd_def)

lemma idle_frame [simp]:
  "idle_side (compute_rcv_wnd w) = idle_side w" "idle_side (snd (h_rx_wnd p w)) = idle_side w" "idle_side (change_state ns w) = idle_side w"
  "idle_side (notify cd w) = idle_side w" "idle_side (schedule_send w) = idle_side w" "idle_side (send_ack w) = idle_side w"
  by (simp_all add: idle_side_def) (simp_all add: h_rx_wnd_def)

text \<open>The FIN of the peer in ESTAB: the state is CLOSE-WAIT and a send event is queued.\<close>

lemma fin_taken_estab:
  assumes "state w = ESTAB" "win_room w" "fin_only p w" "sg_ack_seq p = snd_una w"
  obtains w' where "rx p w = Inr w'" "state w' = CLOSE_WAIT" "conn_view w' = conn_view w" "idle_side w' = idle_side w" "tx_log w' = tx_log w"
    "events w' = events w @ [TCPEvent SEND (Some (cb_ref w)) None]" "ack_now w'" "rcv_nxt w' = mask32 (rcv_nxt w + 1)" "open_window w'"
    "snd_wnd w' = snd_wnd w \<or> snd_wnd w' = sg_window p"
proof -
  let ?p = "p\<lparr>sg_dlen := 1\<rparr>" and ?w = "w\<lparr>tcp_data_start := 0, tcp_data_len := 1, rcv_nxt := mask32 (rcv_nxt w + 1)\<rparr>"
  have fl: "\<not> sg_rst p" "\<not> sg_syn p" "sg_fin p" using assms(3) by (simp_all add: fin_only_def)
  have d: "sg_data ?p = []" using fin_only_data [OF assms(3)] by simp
  note seq = h_rx_seq_fin [OF assms(2,3)]
  have ok: "rcv_ok ?w" using win_ok_h_rx_seq [of w p] assms(2) by (simp add: seq rcv_ok_win win_room_def)
  define v where "v = snd (h_rx_wnd ?p (?w\<lparr>ack_now := True\<rparr>))"
  have ack: "h_rx_ack ?p (?w\<lparr>ack_now := True\<rparr>) = (0, ?w\<lparr>ack_now := True\<rparr>)"
    using assms(4) by (simp add: h_rx_ack_def seq_leq_def)
  define x where "x = change_state (Some CLOSE_WAIT) (compute_rcv_wnd v)"
  let ?w' = "schedule_send (notify (RecvEvents (so x)) x)"
  have r: "rx p w = Inr ?w'"
    using assms(1) fl
    by (simp add: rx_def rx_map_def rx_estab_def seq estab_accept_def h_rx_rst_def set_ack_now_def Let_def split_def ack
        estab_acked_def append_nothing [OF d] v_def x_def)
  have vw: "rcv_ok v" "conn_view v = conn_view w" "idle_side v = idle_side w" "tx_log v = tx_log w" "events v = events w" "ack_now v"
    "rcv_nxt v = mask32 (rcv_nxt w + 1)" "cb_ref v = cb_ref w"
    using ok by (simp_all add: v_def h_rx_wnd_kept) (simp_all add: h_rx_wnd_def rcv_ok_def conn_view_def idle_side_def)
  have sw: "snd_wnd v = snd_wnd w \<or> snd_wnd v = sg_window p" using h_rx_wnd_snd_wnd [of ?p "?w\<lparr>ack_now := True\<rparr>"] by (simp add: v_def)
  note o = open_window_computed [OF vw(1)]
  show ?thesis
  proof (rule that [OF r])
    show "conn_view ?w' = conn_view w" "idle_side ?w' = idle_side w" using vw by (simp_all add: x_def)
    show "open_window ?w'" using o by (simp add: x_def open_window_def rcv_ok_def)
    show "events ?w' = events w @ [TCPEvent SEND (Some (cb_ref w)) None]" using vw by (simp add: schedule_send_kept x_def)
  qed (use vw sw in \<open>simp_all add: x_def schedule_send_kept notify_def\<close>)
qed

text \<open>The send event in CLOSE-WAIT, before the application has closed: the acknowledgment of the FIN.\<close>

lemma close_wait_ack:
  assumes "state w = CLOSE_WAIT" "rrb_safe (snd_buf w)" "rrb_contents (snd_buf w) = []" "\<not> close_requested w" "\<not> shutdown_requested w" "ack_now w"
    and "rcv_ok w"
  obtains w' v where "tx w = Some (Inr w')" "tx_log w' = tx_log w @ [ack_seg v]" "conn_view v = conn_view w" "snd_nxt v = snd_nxt w"
    "rcv_nxt v = rcv_nxt w" "rcv_wnd v = int (rb_free_space (rcv_buf w))" "conn_view w' = conn_view w" "events w' = events w" "state w' = CLOSE_WAIT"
    "snd_una w' = snd_una w" "snd_nxt w' = snd_nxt w" "sent_fin w' = sent_fin w" "rtx_timer w' = rtx_timer w" "rrb_safe (snd_buf w')"
    "rrb_contents (snd_buf w') = []" "rcv_nxt w' = rcv_nxt w" "open_window w'" "snd_wnd w' = snd_wnd w"
proof -
  let ?c = "compute_rcv_wnd w"
  obtain data b where d: "rrb_dequeue (snd_buf ?c) (nat (min TCP_MAX_TX_BYTES (snd_wnd ?c))) = (data, b)" by (rule prod.exhaust)
  have bc: "snd_buf ?c = snd_buf w" by simp
  have inv: "rrb_inv (snd_buf w)" by (rule rrbr.safe_inv [OF assms(2)])
  have e: "data = []" using rrb_dequeue_chunks(2) [OF inv d [unfolded bc]] assms(3) by simp
  let ?v = "?c\<lparr>snd_buf := b\<rparr>"
  let ?w' = "(send_ack ?v)\<lparr>ack_now := False\<rparr>"
  have t: "tx w = Some (Inr ?w')"
    using assms(1,4-6) e by (simp add: tx_def tx_map_def tx_close_wait_def drain_snd_buf_eq [OF d] h_active_close_tx_def)
  have o: "open_window ?w'" using open_window_computed [OF assms(7)] by (simp add: open_window_def rcv_ok_def)
  have fl: "rcv_wnd ?v = int (rb_free_space (rcv_buf w))" by (simp add: compute_rcv_wnd_def Let_def)
  show ?thesis
  proof (rule that [OF t, of ?v])
    show "rrb_safe (snd_buf ?w')" "rrb_contents (snd_buf ?w') = []"
      using rrbr.deq_safe [OF assms(2) d [unfolded bc]] rrb.deq_contents [OF inv d [unfolded bc]] assms(3) by simp_all
    show "tx_log ?w' = tx_log w @ [ack_seg ?v]" by (simp add: send_ack_def tx_tcp_def)
  qed (use o fl assms(1) in simp_all)
qed

section \<open>Its acknowledgment\<close>

lemma fin_acked_wait_1:
  assumes "state w = FIN_WAIT_1" "acks_all p w" "rcv_ok w" "\<not> ack_now w"
  obtains w' where "rx p w = Inr w'" "state w' = FIN_WAIT_2" "conn_view w' = conn_view w" "events w' = events w" "tx_log w' = tx_log w"
    "snd_una w' = snd_nxt w" "snd_nxt w' = snd_nxt w" "rcv_nxt w' = rcv_nxt w" "open_window w'" "timer w' = timer (stop_rtx_timer w)"
proof -
  have ok: "win_ok w" using assms(3) by (simp add: rcv_ok_win)
  note k = acks_all_checks [OF ok assms(2)]
  have f: "\<not> sg_fin p" "\<not> sg_syn p" "sg_dlen p = 0" using assms(2) by (simp_all add: acks_all_def)
  have r: "rst_or_close_rx p w = (False, w)" by (simp add: rst_or_close_rx_def k(5) h_active_close_rx_def f)
  let ?u = "w\<lparr>snd_una := snd_nxt w\<rparr>"
  define x where "x = (stop_rtx_timer ?u)\<lparr>snd_buf := rrb_free (snd_buf (stop_rtx_timer ?u)) (seq_diff (snd_nxt w) (snd_una w) - 1)\<rparr>"
  define y where "y = snd (h_rx_wnd p (compute_rcv_wnd (change_state (Some FIN_WAIT_2) x)))"
  let ?w' = "compute_rcv_wnd y"
  have yk: "ack_now y = ack_now w" "state y = FIN_WAIT_2" "conn_view y = conn_view w" "events y = events w" "tx_log y = tx_log w"
    "snd_una y = snd_nxt w" "snd_nxt y = snd_nxt w" "rcv_nxt y = rcv_nxt w" "timer y = timer (stop_rtx_timer w)"
    by (simp_all add: y_def x_def h_rx_wnd_kept) (simp_all add: h_rx_wnd_def stop_rtx_timer_def split: option.splits)
  have "rcv_ok x" using assms(3) by (simp add: x_def rcv_ok_def)
  then have "rcv_ok (compute_rcv_wnd (change_state (Some FIN_WAIT_2) x))"
    using open_window_computed [of "change_state (Some FIN_WAIT_2) x"] by (simp add: open_window_def rcv_ok_def)
  then have "rcv_ok y" by (simp add: y_def h_rx_wnd_def rcv_ok_def)
  note o = open_window_computed [OF this]
  have "rx p w = Inr ?w'"
    using assms(1,4) k(4) f append_nothing [OF k(6)] yk(1)
    by (simp add: rx_def rx_map_def rx_fin_wait_1_def k(2,3) fin_wait_1_accept_def r Let_def split_def fin_wait_1_acked_def y_def x_def)
  then show ?thesis using that o yk by simp
qed

lemma fin_acked_last:
  assumes "state w = LAST_ACK" "acks_all p w" "rcv_ok w"
  obtains w' where "rx p w = Inr w'" "state w' = CLOSED" "conn_view w' = conn_view w" "events w' = events w" "tx_log w' = tx_log w"
proof -
  have ok: "win_ok w" using assms(3) by (simp add: rcv_ok_win)
  note k = acks_all_checks [OF ok assms(2)]
  have f: "\<not> sg_fin p" "\<not> sg_syn p" using assms(2) by (simp_all add: acks_all_def)
  let ?u = "stop_rtx_timer (rtt_sample (w\<lparr>snd_una := snd_nxt w\<rparr>))"
  let ?v = "change_state (Some CLOSED) (?u\<lparr>snd_buf := rrb_free (snd_buf ?u) (seq_diff (snd_nxt w) (snd_una w) - 1)\<rparr>)"
  let ?w' = "snd (h_rx_wnd p ?v)"
  have "rx p w = Inr ?w'"
    using assms(1) k(4) f by (simp add: rx_def rx_map_def rx_last_ack_def k(1,3,5) Let_def split_def)
  then show ?thesis by (rule that) (simp_all add: h_rx_wnd_kept)
qed

section \<open>The second FIN\<close>

lemma fin_taken_wait_2:
  assumes "state w = FIN_WAIT_2" "win_room w" "fin_only p w" "\<not> close_requested w" "sg_ack_seq p = snd_una w"
  obtains w' v k where "rx p w = Inr w'" "state w' = TIME_WAIT" "conn_view w' = conn_view w" "events w' = events w"
    "tx_log w' = tx_log w @ [ack_seg v]" "conn_view v = conn_view w" "snd_nxt v = snd_nxt w" "rcv_nxt v = mask32 (rcv_nxt w + 1)"
    "rcv_wnd v = int (rb_free_space (rcv_buf w))" "rcv_nxt w' = mask32 (rcv_nxt w + 1)" "snd_nxt w' = snd_nxt w" "time_wait_timer w' = Some k"
    "schedule_timer (now_ns w) TIME_WAIT_TIMEOUT (RemoveTcpcb (cb_ref w)) (timer w) = (k, timer w')" "rcv_ok w'"
proof -
  let ?p = "p\<lparr>sg_dlen := 1\<rparr>" and ?w = "w\<lparr>tcp_data_start := 0, tcp_data_len := 1, rcv_nxt := mask32 (rcv_nxt w + 1)\<rparr>"
  have fl: "\<not> sg_rst p" "\<not> sg_syn p" "sg_fin p" using assms(3) by (simp_all add: fin_only_def)
  have d: "sg_data ?p = []" using fin_only_data [OF assms(3)] by simp
  note seq = h_rx_seq_fin [OF assms(2,3)]
  let ?c = "compute_rcv_wnd (?w\<lparr>ack_now := True\<rparr>)"
  have ack: "h_rx_ack ?p ?c = (0, ?c)" using assms(5) by (simp add: h_rx_ack_def seq_leq_def)
  define x where "x = change_state (Some TIME_WAIT) (snd (h_rx_wnd ?p ?c))"
  let ?v = "compute_rcv_wnd (start_time_wait_timer x)"
  have r: "rx p w = Inr (send_ack ?v)"
    using assms(1,4) fl
    by (simp add: rx_def rx_map_def rx_fin_wait_2_def seq fin_wait_2_accept_def rst_or_close_rx_def h_rx_rst_def h_active_close_rx_def
        set_ack_now_def Let_def split_def ack append_nothing [OF d] x_def)
  have x: "state x = TIME_WAIT" "conn_view x = conn_view w" "events x = events w" "tx_log x = tx_log w" "snd_nxt x = snd_nxt w"
    "rcv_nxt x = mask32 (rcv_nxt w + 1)" "now_ns x = now_ns w" "cb_ref x = cb_ref w" "timer x = timer w" "rcv_buf x = rcv_buf w"
    by (simp_all add: x_def h_rx_wnd_kept) (simp_all add: h_rx_wnd_def compute_rcv_wnd_def Let_def)
  obtain k tm where k: "schedule_timer (now_ns w) TIME_WAIT_TIMEOUT (RemoveTcpcb (cb_ref w)) (timer w) = (k, tm)" by (rule prod.exhaust)
  have s: "start_time_wait_timer x = x\<lparr>timer := tm, time_wait_timer := Some k\<rparr>" using k x by (simp add: start_time_wait_timer_def)
  show ?thesis
  proof (rule that [OF r, of ?v k])
    have "win_ok (rx_fin_wait_2 p w)" using assms(2) by (simp add: win_room_def)
    then show "rcv_ok (send_ack ?v)" using r assms(1) by (simp add: rcv_ok_win rx_def rx_map_def)
    show "tx_log (send_ack ?v) = tx_log w @ [ack_seg ?v]" using x by (simp add: send_ack_def tx_tcp_def)
    show "rcv_wnd ?v = int (rb_free_space (rcv_buf w))" using x by (simp add: compute_rcv_wnd_def Let_def)
    show "time_wait_timer (send_ack ?v) = Some k" by (simp add: s send_ack_def tx_tcp_def)
    show "schedule_timer (now_ns w) TIME_WAIT_TIMEOUT (RemoveTcpcb (cb_ref w)) (timer w) = (k, timer (send_ack ?v))" using k by (simp add: s)
  qed (use x in simp_all)
qed

end
