(* ===== verification/Stack_Close.thy ===== *)
theory Stack_Close
  imports Tcp_Teardown
begin

text \<open>
  The end of a connection between two stacks, through all layers: one application shuts its side down, the other
  sees the end of the stream and closes, and the timer of the first removes what is left there.
\<close>

section \<open>Steps of one stack\<close>

text \<open>A frame that is received and the pass of the event thread after it.\<close>

definition takes_frame :: "core \<Rightarrow> ether_builder \<Rightarrow> core \<Rightarrow> bool" where
  "takes_frame c fb c' \<longleftrightarrow> (\<exists>f c1. tx_frame_bytes fb = Inr f \<and> handle_packet f c = Some (Inr (), c1) \<and> tcp_events_pass c1 = Some (Inr (), c'))"

definition state_at :: "core \<Rightarrow> nat \<Rightarrow> tcp_state \<Rightarrow> bool" where
  "state_at c cb st \<longleftrightarrow> map_option state (c_tcpcbs c cb) = Some st"

lemma close_fields [simp]:
  "sock_opt (fsm_of t c) = sock_opt t" "open_window (fsm_of t c) = open_window t"
  "sock_opt (tcpcb.truncate w) = sock_opt w" "open_window (tcpcb.truncate w) = open_window w"
  by (simp_all add: open_window_def) (simp_all add: fsm_of_def tcpcb.defs)

lemma conn_view_same:
  assumes "conn_view w = conn_view (fsm_of t c)"
  shows "so_error w = c_so_error c" "tcp_tbl w = c_tcp c" "cb_ref w = cb_ref t" "(lip w, lp w, rip w, rp w) = (lip t, lp t, rip t, rp t)"
    "close_requested w = close_requested t" "shutdown_requested w = shutdown_requested t" "rcv_buf w = rcv_buf t" "sock_opt w = sock_opt t"
  using assms by (simp_all add: conn_view_def)

lemma event_step:
  assumes "conn_at c ref cb sid mac t" "c_events c = [ev]" "ev_tcpcb ev = Some cb" "event_handler ev (fsm_of t (c\<lparr>c_events := []\<rparr>)) = Some (Inr w)"
    and "conn_view w = conn_view (fsm_of t c)" "\<forall>x\<in>set (tx_log w). seg_from sid x"
  obtains c' fbs where "tcp_events_pass c = Some (Inr (), c')" "net_kept c c'" "conn_at c' ref cb sid mac (tcpcb.truncate w)"
    "c_events c' = events w" "c_tx_ring c' = c_tx_ring c @ fbs" "list_all2 (frame_of c mac) (tx_log w) fbs" "c_timer c' = timer w" "c_now_ns c' = c_now_ns c"
proof -
  let ?c = "c\<lparr>c_events := []\<rparr>"
  have at: "conn_at ?c ref cb sid mac t" using assms(1) by simp
  note k = conn_view_same [OF assms(5)]
  obtain c' fbs where c': "handle_event ev ?c = Some (Inr (), c')" "net_kept ?c c'" "conn_at c' ref cb sid mac (tcpcb.truncate w)"
    "c_events c' = events w" "c_tx_ring c' = c_tx_ring ?c @ fbs" "list_all2 (frame_of ?c mac) (tx_log w) fbs" "c_timer c' = timer w" "c_now_ns c' = c_now_ns ?c"
    by (rule event_handled [OF at assms(3,4)]) (use k assms(6) in simp_all)
  have "net_kept c ?c" by simp
  then show ?thesis
    using that [OF pass_one [OF assms(2) c'(1)] net_kept_trans [OF _ c'(2)] c'(3,4)] c'(5-8) frame_of_kept [of c ?c mac] by simp
qed

lemma frame_step:
  assumes "conn_at c ref cb sid mac t" "c_events c = []" "seg_from (mirror sid) s" "frame_of peer pmac s fb" "mac_ok pmac" "mac_ok (c_unicast_mac peer)"
    and "\<And>p. seg_received s p \<Longrightarrow>
      \<exists>w. rx p (fsm_of t c) = Inr w \<and> conn_view w = conn_view (fsm_of t c) \<and> (\<forall>x\<in>set (tx_log w). seg_from sid x) \<and> Q w"
  obtains c' w fbs where "takes_frame c fb c'" "net_kept c c'" "conn_at c' ref cb sid mac (tcpcb.truncate w)" "c_events c' = events w"
    "c_tx_ring c' = c_tx_ring c @ fbs" "list_all2 (frame_of c mac) (tx_log w) fbs" "c_timer c' = timer w" "c_now_ns c' = c_now_ns c" "Q w"
proof -
  have s: "\<forall>x\<in>set [s]. seg_from (mirror sid) x" "list_all2 (frame_of peer pmac) [s] [fb]" using assms(3,4) by simp_all
  obtain f p where f: "tx_frame_bytes fb = Inr f" "seg_received s p" "handle_packet f c = Some (Inr (), c\<lparr>c_events := [segment_event cb p]\<rparr>)"
    using frames_arrive [OF conn_atD(1) [OF assms(1)] s assms(5,6)] assms(2)
    by (auto simp: deque_batch_def list_all2_Cons1 Cons_eq_map_conv)
  obtain w where w: "rx p (fsm_of t c) = Inr w" "conn_view w = conn_view (fsm_of t c)" "\<forall>x\<in>set (tx_log w). seg_from sid x" "Q w"
    using assms(7) [OF f(2)] by blast
  let ?c = "c\<lparr>c_events := [segment_event cb p]\<rparr>"
  have e: "?c\<lparr>c_events := []\<rparr> = c" using assms(2) by simp
  have at: "conn_at ?c ref cb sid mac t" "conn_view w = conn_view (fsm_of t ?c)" using assms(1) w(2) by (simp_all add: conn_view_def)
  obtain c' fbs where c': "tcp_events_pass ?c = Some (Inr (), c')" "net_kept ?c c'" "conn_at c' ref cb sid mac (tcpcb.truncate w)"
    "c_events c' = events w" "c_tx_ring c' = c_tx_ring ?c @ fbs" "list_all2 (frame_of ?c mac) (tx_log w) fbs" "c_timer c' = timer w" "c_now_ns c' = c_now_ns ?c"
    by (rule event_step [OF at(1) _ _ _ at(2) w(3), of "segment_event cb p"])
      (use w(1) e in \<open>simp_all add: segment_event_def event_handler_def\<close>)
  have "takes_frame c fb c'" using f(1,3) c'(1) by (auto simp: takes_frame_def)
  moreover have "net_kept c ?c" by simp
  ultimately show ?thesis using that c'(3-8) w(4) net_kept_trans [OF _ c'(2)] frame_of_kept [of c ?c mac] by simp
qed

section \<open>The segments\<close>

definition fin_of :: "sock_id \<Rightarrow> tcpcb \<Rightarrow> out_seg \<Rightarrow> bool" where
  "fin_of sid t s \<longleftrightarrow> seg_from sid s \<and> os_seq s = snd_nxt t \<and> os_ack_seq s = rcv_nxt t \<and> os_ack s \<and>
     os_fin s \<and> \<not> os_syn s \<and> \<not> os_rst s \<and> os_data s = [] \<and> os_window s = int (rb_free_space (rcv_buf t))"

lemma fin_seg_of:
  assumes "conn_view v = conn_view (fsm_of t c)" "(lip t, lp t, rip t, rp t) = sid" "sid_ok sid" "rcv_ok t" "seq_num (snd_nxt t)"
    and "snd_nxt v = snd_nxt t" "rcv_nxt v = rcv_nxt t" "rcv_wnd v = int (rb_free_space (rcv_buf t))"
  shows "fin_of sid t (fin_seg v)"
proof -
  have w: "rcv_wnd v < 65536" using rcv_ok_free [of "fsm_of t c"] assms(4,8) by simp
  note a = ack_seg_from(1) [of v sid]
  show ?thesis
    using assms a w conn_view_same(4) [OF assms(1)]
    by (auto simp: fin_of_def seg_from_def fin_seg_def ack_seg_def seg0_def out_seg_ok_def seg_opts_def rcv_ok_def)
qed

lemma ack_seg_of:
  assumes "conn_view v = conn_view (fsm_of t0 c)" "(lip t0, lp t0, rip t0, rp t0) = sid" "sid_ok sid" "rcv_ok t" "seq_num (snd_nxt t)"
    and "snd_nxt v = snd_nxt t" "rcv_nxt v = rcv_nxt t" "rcv_wnd v = int (rb_free_space (rcv_buf t))"
  shows "ack_of sid t (ack_seg v)"
  using assms ack_seg_from(1) [of v sid] rcv_ok_free [of "fsm_of t c"] conn_view_same(4) [OF assms(1)]
  by (simp add: ack_of_defs rcv_ok_def) (simp add: ack_seg_def seg0_def)

lemma rcv_empty_free: "rcv_ok (t :: tcpcb) \<Longrightarrow> rb_contents (rcv_buf t) = [] \<Longrightarrow> rb_free_space (rcv_buf t) = 65534"
  using rb.free_ready [of "rcv_buf t"] rb.ready_length [of "rcv_buf t"] by (simp add: rcv_ok_def rb_cap_def DEFAULT_RECV_BUFF_def)

section \<open>The FIN leaves\<close>

text \<open>One end of a connection that is being closed: nothing is queued and nothing is left to read.\<close>

definition end_at :: "core \<Rightarrow> nat \<Rightarrow> nat \<Rightarrow> sock_id \<Rightarrow> int \<Rightarrow> tcpcb \<Rightarrow> tcp_state \<Rightarrow> bool" where
  "end_at c ref cb sid mac t st \<longleftrightarrow> conn_at c ref cb sid mac t \<and> c_events c = [] \<and> state t = st \<and> seq_num (snd_nxt t) \<and>
     open_window t \<and> rb_contents (rcv_buf t) = []"

lemma end_at_room: "end_at c ref cb sid mac t st \<Longrightarrow> win_room (fsm_of t c)"
  using rcv_empty_free [of t] by (simp add: end_at_def open_window_def win_room_def flip: rcv_ok_win)

text \<open>An end that has sent everything and had it acknowledged, before its FIN.\<close>

definition drained :: "tcpcb \<Rightarrow> bool" where
  "drained t \<longleftrightarrow> rrb_safe (snd_buf t) \<and> rrb_contents (snd_buf t) = [] \<and> 0 < snd_wnd t \<and> \<not> sent_fin t \<and> snd_una t = snd_nxt t \<and>
     rtx_timer t = None \<and> \<not> close_requested t \<and> \<not> shutdown_requested t"

lemma close_calls:
  assumes "conn_at c ref cb sid mac t"
  shows "tcp_shutdown ref c = Some (Inr (), with_send_event cb (with_cb cb (t\<lparr>shutdown_requested := True\<rparr>) c))"
    "tcp_close ref c = Some (Inr (), with_send_event cb (with_cb cb (t\<lparr>close_requested := True\<rparr>) c))"
  using conn_atD(2,5) [OF assms]
  by (simp_all add: tcp_shutdown_def tcp_close_def connectedD upd_cb_connected schedule_core_event_def with_send_event_def)

lemma fin_leaves:
  assumes "conn_at c ref cb sid mac t" "c_events c = []" "state t = ESTAB \<or> state t = CLOSE_WAIT" "drained t" "rcv_ok t" "seq_num (snd_nxt t)"
    and "rb_contents (rcv_buf t) = []"
    and "u = t\<lparr>shutdown_requested := True\<rparr> \<or> u = t\<lparr>close_requested := True\<rparr> \<and> sock_opt t (SOL_SOCKET, SO_LINGER) \<noteq> Some SO_LINGER_ON"
  obtains c' t' fb s where "tcp_events_pass (with_send_event cb (with_cb cb u c)) = Some (Inr (), c')" "net_kept c c'"
    "c_tx_ring c' = c_tx_ring c @ [fb]" "frame_of c mac s fb" "fin_of sid t s"
    "end_at c' ref cb sid mac t' (if state t = ESTAB then FIN_WAIT_1 else LAST_ACK)" "snd_una t' = snd_una t"
    "snd_nxt t' = mask32 (snd_nxt t + 1)" "rcv_nxt t' = rcv_nxt t" "rcv_buf t' = rcv_buf t" "close_requested t' = close_requested u"
    "rtx_armed (fsm_of t c) (fsm_of t' c')" "state t = ESTAB \<longrightarrow> \<not> ack_now t'" "c_now_ns c' = c_now_ns c"
proof -
  let ?c = "with_send_event cb (with_cb cb u c)" and ?w = "fsm_of u (with_cb cb u c)"
  note a = conn_atD [OF assms(1)]
  have d: "rrb_inv (snd_buf u)" "rrb_contents (snd_buf u) = []" "0 < snd_wnd u" "\<not> sent_fin u" "close_requested u \<or> shutdown_requested u"
    "state u = state t" "rcv_ok u" "sock_opt u = sock_opt t" "cb_ref u = cb_ref t" "(lip u, lp u, rip u, rp u) = sid" "snd_nxt u = snd_nxt t"
    "rcv_nxt u = rcv_nxt t" "rcv_buf u = rcv_buf t" "snd_una u = snd_una t" "rtx_timer u = rtx_timer t" "rto u = rto t"
    using assms(4,5,8) rrbr.safe_inv [of "snd_buf t"] a(4) by (auto simp: drained_def rcv_ok_def)
  have e: "c_events ?c = [send_event cb]" "?c\<lparr>c_events := []\<rparr> = with_cb cb u c"
    using assms(2) by (simp_all add: with_send_event_def with_cb_def send_event_def)
  have k: "net_kept c ?c" using net_kept_trans [OF net_kept_upd(2) net_kept_upd(3)] .
  have "c_tcpcbs ?c cb = Some u" by (simp add: with_send_event_def with_cb_def)
  then have at: "conn_at ?c ref cb sid mac u" using a d(9,10) wired_kept [OF k] by (simp add: conn_at_def)
  obtain w v where w: "tx ?w = Some (Inr w)" "tx_log w = tx_log ?w @ [fin_seg v]" "conn_view v = conn_view ?w" "snd_nxt v = snd_nxt ?w"
    "rcv_nxt v = rcv_nxt ?w" "rcv_wnd v = int (rb_free_space (rcv_buf ?w))" "conn_view w = conn_view ?w" "events w = events ?w"
    "state w = (if state ?w = ESTAB then FIN_WAIT_1 else LAST_ACK)" "snd_una w = snd_una ?w" "snd_nxt w = mask32 (snd_nxt ?w + 1)"
    "rcv_nxt w = rcv_nxt ?w" "open_window w" "rtx_armed ?w w" "state ?w = ESTAB \<longrightarrow> \<not> ack_now w"
    by (rule fin_sent [of ?w]) (use d assms(3,4,8) in \<open>auto simp: linger_abort_def drained_def\<close>)
  have fin: "fin_of sid u (fin_seg v)"
    by (rule fin_seg_of [OF w(3) d(10) a(6)]) (use w d assms(6) in simp_all)
  have vw: "conn_view w = conn_view (fsm_of u ?c)" using w(7) by (simp add: conn_view_def with_send_event_def)
  obtain c' fbs where c': "tcp_events_pass ?c = Some (Inr (), c')" "net_kept ?c c'" "conn_at c' ref cb sid mac (tcpcb.truncate w)"
    "c_events c' = events w" "c_tx_ring c' = c_tx_ring ?c @ fbs" "list_all2 (frame_of ?c mac) (tx_log w) fbs" "c_timer c' = timer w" "c_now_ns c' = c_now_ns ?c"
    by (rule event_step [OF at e(1) _ _ vw]) (use w(1,2) fin e(2) in \<open>simp_all add: send_event_def event_handler_def fin_of_def\<close>)
  obtain fb where fb: "fbs = [fb]" "frame_of c mac (fin_seg v) fb"
    using c'(6) w(2) frame_of_kept [OF k, of mac] by (auto simp: list_all2_Cons1)
  note vs = conn_view_same [OF w(7)]
  show ?thesis
  proof (rule that [of c' fb "fin_seg v" "tcpcb.truncate w"])
    show "end_at c' ref cb sid mac (tcpcb.truncate w) (if state t = ESTAB then FIN_WAIT_1 else LAST_ACK)"
      using c'(3,4) w(8,9,11,13) vs d assms(2,6,7) by (simp add: end_at_def with_cb_def)
    show "rtx_armed (fsm_of t c) (fsm_of (tcpcb.truncate w) c')" using w(14) c'(7) d by (simp add: rtx_armed_def with_cb_def)
    show "c_now_ns c' = c_now_ns c" "c_tx_ring c' = c_tx_ring c @ [fb]"
      using c'(5,8) fb(1) by (simp_all add: with_send_event_def with_cb_def)
    show "fin_of sid t (fin_seg v)" using fin d by (simp add: fin_of_def)
  qed (use c'(1) net_kept_trans [OF k c'(2)] fb(2) w vs d in simp_all)
qed

section \<open>The frames of the closing\<close>

lemma fin_received:
  assumes "fin_of sid u s" "seg_received s p"
  shows "snd_nxt u = rcv_nxt t \<Longrightarrow> fin_only p (fsm_of t c)" "sg_ack_seq p = rcv_nxt u" "sg_window p = int (rb_free_space (rcv_buf u))"
  using assms by (simp_all add: fin_of_def seg_received_def fin_only_def seg_wf_def)

lemma ack_received:
  assumes "ack_of sid u s" "seg_received s p" "snd_nxt u = rcv_nxt t" "rcv_nxt u = snd_nxt t" "snd_nxt t = mask32 (snd_una t + 1)"
  shows "acks_all p (fsm_of t c)"
proof -
  have "seq_diff (snd_nxt t) (snd_una t) = 1" using seq_diff_add [of 1 "snd_una t"] assms(5) by (simp del: seq_diff_mask)
  then show ?thesis using assms by (simp add: acks_all_def ack_of_defs seg_received_def seg_wf_def)
qed

text \<open>The first FIN at the other end: CLOSE-WAIT, and the acknowledgment in the next pass.\<close>

definition half_closed :: "core \<Rightarrow> nat \<Rightarrow> nat \<Rightarrow> sock_id \<Rightarrow> int \<Rightarrow> tcpcb \<Rightarrow> bool" where
  "half_closed c ref cb sid mac t \<longleftrightarrow> conn_at c ref cb sid mac t \<and> state t = CLOSE_WAIT \<and> seq_num (snd_nxt t) \<and> open_window t \<and>
     rb_contents (rcv_buf t) = [] \<and> drained t"

lemma fin_half_closes:
  assumes "at_rest b rb cb sid mb t" "drained t" "fin_of (mirror sid) u s" "snd_nxt u = rcv_nxt t" "rcv_nxt u = snd_nxt t"
    and "frame_of peer pmac s fb" "mac_ok pmac" "mac_ok (c_unicast_mac peer)" "0 < rb_free_space (rcv_buf u)"
  obtains b' t' where "takes_frame b fb b'" "net_kept b b'" "c_tx_ring b' = c_tx_ring b" "c_events b' = [send_event cb]" "half_closed b' rb cb sid mb t'"
    "ack_now t'" "snd_nxt t' = snd_nxt t" "rcv_nxt t' = mask32 (rcv_nxt t + 1)" "sock_opt t' = sock_opt t"
proof -
  have at: "conn_at b rb cb sid mb t" "c_events b = []" "rb_contents (rcv_buf t) = []" using assms(1) by (simp_all add: at_rest_def)
  have r: "state t = ESTAB" "seq_num (snd_nxt t)" "win_room (fsm_of t b)"
    using assms(1) by (auto simp: at_rest_def sendable_def win_room_def MAX_EVENTS_def simp flip: rcv_ok_win)
  have dr: "snd_una t = snd_nxt t" "0 < snd_wnd t" using assms(2) by (simp_all add: drained_def)
  note a = conn_atD [OF at(1)]
  let ?Q = "\<lambda>w. state w = CLOSE_WAIT \<and> idle_side w = idle_side t \<and> tx_log w = [] \<and> events w = [send_event cb] \<and> ack_now w \<and>
    rcv_nxt w = mask32 (rcv_nxt t + 1) \<and> open_window w \<and> 0 < snd_wnd w \<and> conn_view w = conn_view (fsm_of t b)"
  have step: "\<exists>w. rx p (fsm_of t b) = Inr w \<and> conn_view w = conn_view (fsm_of t b) \<and> (\<forall>x\<in>set (tx_log w). seg_from sid x) \<and> ?Q w"
    if p: "seg_received s p" for p
  proof -
    note f = fin_received [OF assms(3) p]
    obtain w where w: "rx p (fsm_of t b) = Inr w" "state w = CLOSE_WAIT" "conn_view w = conn_view (fsm_of t b)" "idle_side w = idle_side (fsm_of t b)"
      "tx_log w = tx_log (fsm_of t b)" "events w = events (fsm_of t b) @ [TCPEvent SEND (Some (cb_ref (fsm_of t b))) None]" "ack_now w"
      "rcv_nxt w = mask32 (rcv_nxt (fsm_of t b) + 1)" "open_window w" "snd_wnd w = snd_wnd (fsm_of t b) \<or> snd_wnd w = sg_window p"
      by (rule fin_taken_estab [of "fsm_of t b" p]) (use r f(1) [OF assms(4)] f(2) assms(5) dr in simp_all)
    show ?thesis
      by (rule exI [of _ w]) (use w f(3) dr assms(9) at(2) a(3) in \<open>auto simp: idle_side_def send_event_def\<close>)
  qed
  have sm: "seg_from (mirror sid) s" using assms(3) by (simp add: fin_of_def)
  obtain b' w fbs where b': "takes_frame b fb b'" "net_kept b b'" "conn_at b' rb cb sid mb (tcpcb.truncate w)" "c_events b' = events w"
    "c_tx_ring b' = c_tx_ring b @ fbs" "list_all2 (frame_of b mb) (tx_log w) fbs" "c_timer b' = timer w" "c_now_ns b' = c_now_ns b" "?Q w"
    by (rule frame_step [OF at(1,2) sm assms(6-8) step])
  have q: "idle_side w = idle_side t" "conn_view w = conn_view (fsm_of t b)" using b'(9) by simp_all
  note vs = conn_view_same [OF q(2)]
  have "half_closed b' rb cb sid mb (tcpcb.truncate w)"
    using b'(3,9) q(1) vs r(2) at(3) assms(2) by (auto simp: half_closed_def drained_def idle_side_def)
  then show ?thesis
    by (rule that [OF b'(1,2), rotated 2]) (use b'(4-6,9) q(1) vs in \<open>simp_all add: idle_side_def\<close>)
qed

lemma half_closed_acks:
  assumes "half_closed b rb cb sid mb t" "c_events b = [send_event cb]" "ack_now t"
  obtains b' t' fb s where "tcp_events_pass b = Some (Inr (), b')" "net_kept b b'" "c_tx_ring b' = c_tx_ring b @ [fb]" "frame_of b mb s fb"
    "ack_of sid t' s" "half_closed b' rb cb sid mb t'" "c_events b' = []" "snd_nxt t' = snd_nxt t" "rcv_nxt t' = rcv_nxt t" "sock_opt t' = sock_opt t"
proof -
  have at: "conn_at b rb cb sid mb t" "state t = CLOSE_WAIT" "drained t" "rcv_ok t" "seq_num (snd_nxt t)"
    using assms(1) by (simp_all add: half_closed_def open_window_def)
  let ?w = "fsm_of t (b\<lparr>c_events := []\<rparr>)"
  obtain x v where x: "tx ?w = Some (Inr x)" "tx_log x = tx_log ?w @ [ack_seg v]" "conn_view v = conn_view ?w" "snd_nxt v = snd_nxt ?w"
    "rcv_nxt v = rcv_nxt ?w" "rcv_wnd v = int (rb_free_space (rcv_buf ?w))" "conn_view x = conn_view ?w" "events x = events ?w"
    "state x = CLOSE_WAIT" "snd_una x = snd_una ?w" "snd_nxt x = snd_nxt ?w" "sent_fin x = sent_fin ?w" "rtx_timer x = rtx_timer ?w"
    "rrb_safe (snd_buf x)" "rrb_contents (snd_buf x) = []" "rcv_nxt x = rcv_nxt ?w" "open_window x" "snd_wnd x = snd_wnd ?w"
    by (rule close_wait_ack [of ?w]) (use at assms(3) in \<open>simp_all add: drained_def\<close>)
  note xs = conn_view_same [OF x(7)] and a = conn_atD [OF at(1)]
  have ak: "ack_of sid (tcpcb.truncate x) (ack_seg v)"
    by (rule ack_seg_of [OF x(3) a(4,6)]) (use x xs at in \<open>simp_all add: open_window_def\<close>)
  have xv: "conn_view x = conn_view (fsm_of t b)" using x(7) by (simp add: conn_view_def)
  obtain b' fbs where b': "tcp_events_pass b = Some (Inr (), b')" "net_kept b b'" "conn_at b' rb cb sid mb (tcpcb.truncate x)"
    "c_events b' = events x" "c_tx_ring b' = c_tx_ring b @ fbs" "list_all2 (frame_of b mb) (tx_log x) fbs"
    by (rule event_step [OF at(1) assms(2) _ _ xv]) (use x(1,2) ak in \<open>simp_all add: send_event_def event_handler_def ack_of_defs\<close>)
  obtain fb where fb: "fbs = [fb]" "frame_of b mb (ack_seg v) fb" using b'(6) x(2) by (auto simp: list_all2_Cons1)
  show ?thesis
  proof (rule that [OF b'(1,2) _ fb(2) ak])
    show "half_closed b' rb cb sid mb (tcpcb.truncate x)"
      using b'(3) x xs at(3,5) assms(1) by (simp add: half_closed_def drained_def)
  qed (use b'(4,5) fb(1) x xs in simp_all)
qed

text \<open>Its acknowledgment at the first end: FIN-WAIT-2, and the retransmission timer is stopped.\<close>

lemma first_ack:
  assumes "end_at a ra ca sid ma t FIN_WAIT_1" "\<not> ack_now t" "snd_nxt t = mask32 (snd_una t + 1)" "ack_of (mirror sid) u s" "snd_nxt u = rcv_nxt t"
    and "rcv_nxt u = snd_nxt t" "frame_of peer pmac s fb" "mac_ok pmac" "mac_ok (c_unicast_mac peer)"
  obtains a' t' where "takes_frame a fb a'" "net_kept a a'" "c_tx_ring a' = c_tx_ring a" "end_at a' ra ca sid ma t' FIN_WAIT_2" "snd_una t' = snd_nxt t"
    "snd_nxt t' = snd_nxt t" "rcv_nxt t' = rcv_nxt t" "rcv_buf t' = rcv_buf t" "close_requested t' = close_requested t"
    "c_timer a' = timer (stop_rtx_timer (fsm_of t a))" "c_now_ns a' = c_now_ns a"
proof -
  have at: "conn_at a ra ca sid ma t" "c_events a = []" "state t = FIN_WAIT_1" "rcv_ok t" "seq_num (snd_nxt t)" "rb_contents (rcv_buf t) = []"
    using assms(1) by (simp_all add: end_at_def open_window_def)
  let ?Q = "\<lambda>w. state w = FIN_WAIT_2 \<and> events w = [] \<and> tx_log w = [] \<and> snd_una w = snd_nxt t \<and> snd_nxt w = snd_nxt t \<and> rcv_nxt w = rcv_nxt t \<and>
    open_window w \<and> timer w = timer (stop_rtx_timer (fsm_of t a)) \<and> conn_view w = conn_view (fsm_of t a)"
  have step: "\<exists>w. rx p (fsm_of t a) = Inr w \<and> conn_view w = conn_view (fsm_of t a) \<and> (\<forall>x\<in>set (tx_log w). seg_from sid x) \<and> ?Q w"
    if p: "seg_received s p" for p
  proof -
    obtain w where "rx p (fsm_of t a) = Inr w" "state w = FIN_WAIT_2" "conn_view w = conn_view (fsm_of t a)" "events w = events (fsm_of t a)"
      "tx_log w = tx_log (fsm_of t a)" "snd_una w = snd_nxt (fsm_of t a)" "snd_nxt w = snd_nxt (fsm_of t a)" "rcv_nxt w = rcv_nxt (fsm_of t a)"
      "open_window w" "timer w = timer (stop_rtx_timer (fsm_of t a))"
      by (rule fin_acked_wait_1 [OF _ ack_received [OF assms(4) p assms(5,6,3)], of a]) (use at assms(2) in simp_all)
    then show ?thesis using at(2) by (intro exI [of _ w]) simp
  qed
  have sm: "seg_from (mirror sid) s" using assms(4) by (simp add: ack_of_defs)
  obtain a' w fbs where a': "takes_frame a fb a'" "net_kept a a'" "conn_at a' ra ca sid ma (tcpcb.truncate w)" "c_events a' = events w"
    "c_tx_ring a' = c_tx_ring a @ fbs" "list_all2 (frame_of a ma) (tx_log w) fbs" "c_timer a' = timer w" "c_now_ns a' = c_now_ns a" "?Q w"
    by (rule frame_step [OF at(1,2) sm assms(7-9) step])
  have vw: "conn_view w = conn_view (fsm_of t a)" using a'(9) by simp
  note vs = conn_view_same [OF vw]
  show ?thesis
    by (rule that [OF a'(1,2), of "tcpcb.truncate w"]) (use a'(3-9) vs at(5,6) in \<open>simp_all add: end_at_def\<close>)
qed

text \<open>The second FIN: TIME-WAIT, the acknowledgment and the timer that ends the wait.\<close>

lemma second_fin:
  assumes "end_at a ra ca sid ma t FIN_WAIT_2" "\<not> close_requested t" "snd_una t = snd_nxt t" "fin_of (mirror sid) u s" "snd_nxt u = rcv_nxt t"
    and "rcv_nxt u = snd_nxt t" "frame_of peer pmac s fb" "mac_ok pmac" "mac_ok (c_unicast_mac peer)" "quiet H (c_timer a)"
  obtains a' t' fb' s' k where "takes_frame a fb a'" "net_kept a a'" "c_tx_ring a' = c_tx_ring a @ [fb']" "frame_of a ma s' fb'" "ack_of sid t' s'"
    "conn_at a' ra ca sid ma t'" "c_events a' = []" "state t' = TIME_WAIT" "snd_nxt t' = snd_nxt t" "rcv_nxt t' = mask32 (rcv_nxt t + 1)"
    "sole H (ms (c_now_ns a) + TIME_WAIT_TIMEOUT * 1000) k (RemoveTcpcb ca) (c_timer a')"
proof -
  have at: "conn_at a ra ca sid ma t" "c_events a = []" "state t = FIN_WAIT_2" "seq_num (snd_nxt t)" using assms(1) by (simp_all add: end_at_def)
  note a = conn_atD [OF at(1)]
  let ?Q = "\<lambda>w. state w = TIME_WAIT \<and> events w = [] \<and> snd_nxt w = snd_nxt t \<and> rcv_nxt w = mask32 (rcv_nxt t + 1) \<and>
    (\<exists>v. tx_log w = [ack_seg v] \<and> ack_of sid (tcpcb.truncate w) (ack_seg v)) \<and>
    (\<exists>k. sole H (ms (c_now_ns a) + TIME_WAIT_TIMEOUT * 1000) k (RemoveTcpcb ca) (timer w))"
  have step: "\<exists>w. rx p (fsm_of t a) = Inr w \<and> conn_view w = conn_view (fsm_of t a) \<and> (\<forall>x\<in>set (tx_log w). seg_from sid x) \<and> ?Q w"
    if p: "seg_received s p" for p
  proof -
    note f = fin_received [OF assms(4) p]
    obtain w v k where w: "rx p (fsm_of t a) = Inr w" "state w = TIME_WAIT" "conn_view w = conn_view (fsm_of t a)" "events w = events (fsm_of t a)"
      "tx_log w = tx_log (fsm_of t a) @ [ack_seg v]" "conn_view v = conn_view (fsm_of t a)" "snd_nxt v = snd_nxt (fsm_of t a)"
      "rcv_nxt v = mask32 (rcv_nxt (fsm_of t a) + 1)" "rcv_wnd v = int (rb_free_space (rcv_buf (fsm_of t a)))"
      "rcv_nxt w = mask32 (rcv_nxt (fsm_of t a) + 1)" "snd_nxt w = snd_nxt (fsm_of t a)"
      "schedule_timer (now_ns (fsm_of t a)) TIME_WAIT_TIMEOUT (RemoveTcpcb (cb_ref (fsm_of t a))) (timer (fsm_of t a)) = (k, timer w)" "rcv_ok w"
      by (rule fin_taken_wait_2 [OF _ end_at_room [OF assms(1)] f(1) [OF assms(5)]]) (use at assms(2,3,6) f(2) in simp_all)
    have ak: "ack_of sid (tcpcb.truncate w) (ack_seg v)"
      by (rule ack_seg_of [OF w(6) a(4,6)]) (use w at(4) conn_view_same(7) [OF w(3)] in simp_all)
    have "sole H (ms (c_now_ns a) + TIME_WAIT_TIMEOUT * 1000) k (RemoveTcpcb ca) (timer w)"
      using sole_schedule [OF assms(10), of "c_now_ns a" TIME_WAIT_TIMEOUT "RemoveTcpcb ca" k "timer w"] w(12) a(3) by simp
    then show ?thesis using w ak at(2) by (intro exI [of _ w]) (auto simp: ack_of_defs)
  qed
  have sm: "seg_from (mirror sid) s" using assms(4) by (simp add: fin_of_def)
  obtain a' fbs and w :: fsm where a': "takes_frame a fb a'" "net_kept a a'" "conn_at a' ra ca sid ma (tcpcb.truncate w)" "c_events a' = events w"
    "c_tx_ring a' = c_tx_ring a @ fbs" "list_all2 (frame_of a ma) (tx_log w) fbs" "c_timer a' = timer w" "c_now_ns a' = c_now_ns a" "?Q w"
    by (rule frame_step [OF at(1,2) sm assms(7-9) step])
  obtain v k where q: "tx_log w = [ack_seg v]" "ack_of sid (tcpcb.truncate w) (ack_seg v)"
      "sole H (ms (c_now_ns a) + TIME_WAIT_TIMEOUT * 1000) k (RemoveTcpcb ca) (timer w)"
    using a'(9) by blast
  obtain fb' where fb': "fbs = [fb']" "frame_of a ma (ack_seg v) fb'" using a'(6) q(1) by (auto simp: list_all2_Cons1)
  show ?thesis by (rule that [OF a'(1,2) _ fb'(2) q(2) a'(3)]) (use a'(4,5,7,9) fb'(1) q(3) in simp_all)
qed

text \<open>Its acknowledgment at the other end: CLOSED; the tables still hold the connection.\<close>

lemma last_ack:
  assumes "end_at b rb cb sid mb t LAST_ACK" "snd_nxt t = mask32 (snd_una t + 1)" "ack_of (mirror sid) u s" "snd_nxt u = rcv_nxt t"
    and "rcv_nxt u = snd_nxt t" "frame_of peer pmac s fb" "mac_ok pmac" "mac_ok (c_unicast_mac peer)"
  obtains b' where "takes_frame b fb b'" "net_kept b b'" "c_tx_ring b' = c_tx_ring b" "c_events b' = []" "state_at b' cb CLOSED"
proof -
  have at: "conn_at b rb cb sid mb t" "c_events b = []" "state t = LAST_ACK" "rcv_ok t"
    using assms(1) by (simp_all add: end_at_def open_window_def)
  have step: "\<exists>w. rx p (fsm_of t b) = Inr w \<and> conn_view w = conn_view (fsm_of t b) \<and> (\<forall>x\<in>set (tx_log w). seg_from sid x) \<and>
      state w = CLOSED \<and> events w = [] \<and> tx_log w = []"
    if p: "seg_received s p" for p
  proof -
    obtain w where "rx p (fsm_of t b) = Inr w" "state w = CLOSED" "conn_view w = conn_view (fsm_of t b)" "events w = events (fsm_of t b)"
      "tx_log w = tx_log (fsm_of t b)"
      by (rule fin_acked_last [OF _ ack_received [OF assms(3) p assms(4,5,2)], of b]) (use at in simp_all)
    then show ?thesis using at(2) by (intro exI [of _ w]) simp
  qed
  have sm: "seg_from (mirror sid) s" using assms(3) by (simp add: ack_of_defs)
  obtain b' fbs and w :: fsm where b': "takes_frame b fb b'" "net_kept b b'" "conn_at b' rb cb sid mb (tcpcb.truncate w)" "c_events b' = events w"
    "c_tx_ring b' = c_tx_ring b @ fbs" "list_all2 (frame_of b mb) (tx_log w) fbs" "c_timer b' = timer w" "c_now_ns b' = c_now_ns b"
    "state w = CLOSED \<and> events w = [] \<and> tx_log w = []"
    by (rule frame_step [OF at(1,2) sm assms(6-8) step])
  show ?thesis by (rule that [OF b'(1,2)]) (use b'(4-6,9) conn_atD(2) [OF b'(3)] in \<open>simp_all add: state_at_def\<close>)
qed

text \<open>The end of the wait.\<close>

lemma time_wait_over:
  assumes "conn_at a ra ca sid ma t" "sole H d k (RemoveTcpcb ca) (c_timer a)" "d \<le> ms T" "ms T \<le> H"
  obtains a' where "timer_loop_pass (a\<lparr>c_now_ns := T\<rparr>) = Some (Inr (), a')" "tcp_sockets (c_tcp a') sid = None" "tcp_tcpcbs (c_tcp a') sid = None"
proof -
  let ?a = "a\<lparr>c_now_ns := T, c_timer := snd (timer_pass T (c_timer a))\<rparr>"
  let ?a' = "?a\<lparr>c_tcp := table_remove_tcpcb sid (tcp_remove_socket sid (c_tcp a))\<rparr>"
  have "run_call (RemoveTcpcb ca) ?a = Some (Inr (), ?a')"
    using conn_atD(2,4) [OF assms(1)] by (simp add: core_remove_tcpcb_def socket_id_def upd_def)
  from sole_pass(1) [OF assms(2-4) this] show ?thesis
    by (rule that [of ?a', simplified]) (simp_all add: table_remove_tcpcb_def tcp_remove_socket_def)
qed

section \<open>The two halves of the closing\<close>

text \<open>The first application shuts its side down: its FIN, which half-closes the other end, and the acknowledgment.\<close>

definition half_close :: "core \<Rightarrow> nat \<Rightarrow> nat \<Rightarrow> core \<Rightarrow> nat \<Rightarrow> core \<Rightarrow> core \<Rightarrow> bool" where
  "half_close a ra ca b cb a' b' \<longleftrightarrow> (\<exists>a1 a2 b1 f1 f2. tcp_shutdown ra a = Some (Inr (), a1) \<and> tcp_events_pass a1 = Some (Inr (), a2) \<and>
     c_tx_ring a2 = c_tx_ring a @ [f1] \<and> state_at a2 ca FIN_WAIT_1 \<and> takes_frame b f1 b1 \<and> tcp_events_pass b1 = Some (Inr (), b') \<and>
     c_tx_ring b' = c_tx_ring b @ [f2] \<and> state_at b' cb CLOSE_WAIT \<and> takes_frame a2 f2 a' \<and> c_tx_ring a' = c_tx_ring a2 \<and>
     state_at a' ca FIN_WAIT_2 \<and> c_events a' = [] \<and> c_events b' = [])"

text \<open>The second application closes: its FIN, the acknowledgment, and the end of its side.\<close>

definition full_close :: "core \<Rightarrow> nat \<Rightarrow> nat \<Rightarrow> core \<Rightarrow> nat \<Rightarrow> core \<Rightarrow> core \<Rightarrow> bool" where
  "full_close b rb cb a ca b' a' \<longleftrightarrow> (\<exists>b1 b2 f1 f2. tcp_close rb b = Some (Inr (), b1) \<and> tcp_events_pass b1 = Some (Inr (), b2) \<and>
     c_tx_ring b2 = c_tx_ring b @ [f1] \<and> state_at b2 cb LAST_ACK \<and> takes_frame a f1 a' \<and> c_tx_ring a' = c_tx_ring a @ [f2] \<and>
     state_at a' ca TIME_WAIT \<and> takes_frame b2 f2 b' \<and> c_tx_ring b' = c_tx_ring b2 \<and> state_at b' cb CLOSED \<and> c_events a' = [] \<and> c_events b' = [])"

lemma conn_state_at: "conn_at c ref cb sid mac t \<Longrightarrow> state_at c cb st \<longleftrightarrow> state t = st"
  by (simp add: state_at_def conn_at_def)

lemma rest_drained: "at_rest c ref cb sid mac t \<Longrightarrow> drained t"
  by (auto simp: at_rest_def sendable_def all_acked_def drained_def MAX_EVENTS_def)

lemma half_close_works:
  assumes "at_rest a ra ca sid ma ta" "at_rest b rb cb (mirror sid) mb tb" "in_step ta tb" "calm H a"
  obtains a' b' ta' tb' where "half_close a ra ca b cb a' b'" "end_at a' ra ca sid ma ta' FIN_WAIT_2" "\<not> close_requested ta'"
    "snd_una ta' = snd_nxt ta'" "half_closed b' rb cb (mirror sid) mb tb'" "c_events b' = []" "in_step ta' tb'" "sock_opt tb' = sock_opt tb"
    "net_kept b b'" "calm H a'" "c_now_ns a' = c_now_ns a"
proof -
  note dr = rest_drained [OF assms(1)] rest_drained [OF assms(2)]
  have a: "conn_at a ra ca sid ma ta" "c_events a = []" "state ta = ESTAB" "rcv_ok ta" "seq_num (snd_nxt ta)" "rb_contents (rcv_buf ta) = []"
    using assms(1) by (simp_all add: at_rest_def sendable_def)
  have u: "\<not> close_requested ta" "snd_una ta = snd_nxt ta" "rtx_timer ta = None" using dr(1) by (simp_all add: drained_def)
  have st: "snd_nxt ta = rcv_nxt tb" "snd_nxt tb = rcv_nxt ta" using assms(3) by (simp_all add: in_step_def)
  let ?a1 = "with_send_event ca (with_cb ca (ta\<lparr>shutdown_requested := True\<rparr>) a)"
  obtain a2 t2 f1 s1 where a2: "tcp_events_pass ?a1 = Some (Inr (), a2)" "net_kept a a2" "c_tx_ring a2 = c_tx_ring a @ [f1]" "frame_of a ma s1 f1"
    "fin_of sid ta s1" "end_at a2 ra ca sid ma t2 (if state ta = ESTAB then FIN_WAIT_1 else LAST_ACK)" "snd_una t2 = snd_una ta"
    "snd_nxt t2 = mask32 (snd_nxt ta + 1)" "rcv_nxt t2 = rcv_nxt ta" "close_requested t2 = close_requested (ta\<lparr>shutdown_requested := True\<rparr>)"
    "rtx_armed (fsm_of ta a) (fsm_of t2 a2)" "state ta = ESTAB \<longrightarrow> \<not> ack_now t2" "c_now_ns a2 = c_now_ns a"
    by (rule fin_leaves [OF a(1,2) _ dr(1) a(4-6), of "ta\<lparr>shutdown_requested := True\<rparr>"]) (use a(3) in simp_all)
  have e2: "end_at a2 ra ca sid ma t2 FIN_WAIT_1" "conn_at a2 ra ca sid ma t2" using a2(6) a(3) by (simp_all add: end_at_def)
  have fm: "fin_of (mirror (mirror sid)) ta s1" "0 < rb_free_space (rcv_buf ta)" using a2(5) rcv_empty_free [OF a(4,6)] by simp_all
  obtain b1 t3 where b1: "takes_frame b f1 b1" "net_kept b b1" "c_tx_ring b1 = c_tx_ring b" "c_events b1 = [send_event cb]"
    "half_closed b1 rb cb (mirror sid) mb t3" "ack_now t3" "snd_nxt t3 = snd_nxt tb" "rcv_nxt t3 = mask32 (rcv_nxt tb + 1)" "sock_opt t3 = sock_opt tb"
    by (rule fin_half_closes [OF assms(2) dr(2) fm(1) st(1) st(2) [symmetric] a2(4) conn_atD(7,8) [OF a(1)] fm(2)])
  obtain b2 t4 f2 s2 where b2: "tcp_events_pass b1 = Some (Inr (), b2)" "net_kept b1 b2" "c_tx_ring b2 = c_tx_ring b1 @ [f2]" "frame_of b1 mb s2 f2"
    "ack_of (mirror sid) t4 s2" "half_closed b2 rb cb (mirror sid) mb t4" "c_events b2 = []" "snd_nxt t4 = snd_nxt t3" "rcv_nxt t4 = rcv_nxt t3"
    "sock_opt t4 = sock_opt t3"
    by (rule half_closed_acks [OF b1(5,4,6)])
  have c1: "conn_at b1 rb cb (mirror sid) mb t3" using b1(5) by (simp add: half_closed_def)
  have sy: "snd_nxt t2 = mask32 (snd_una t2 + 1)" "snd_nxt t4 = rcv_nxt t2" "rcv_nxt t4 = snd_nxt t2"
    using a2(7-9) b1(7,8) b2(8,9) st u(2) by simp_all
  have nk: "\<not> ack_now t2" using a2(12) a(3) by simp
  obtain a3 t5 where a3: "takes_frame a2 f2 a3" "net_kept a2 a3" "c_tx_ring a3 = c_tx_ring a2" "end_at a3 ra ca sid ma t5 FIN_WAIT_2" "snd_una t5 = snd_nxt t2"
    "snd_nxt t5 = snd_nxt t2" "rcv_nxt t5 = rcv_nxt t2" "rcv_buf t5 = rcv_buf t2" "close_requested t5 = close_requested t2"
    "c_timer a3 = timer (stop_rtx_timer (fsm_of t2 a2))" "c_now_ns a3 = c_now_ns a2"
    by (rule first_ack [OF e2(1) nk sy(1) b2(5) sy(2,3) b2(4) conn_atD(7,8) [OF c1]])
  obtain k d where "rtx_timer t2 = Some k" "sole H d k (ScheduleRtx ca) (c_timer a2)"
    using calm_armed [OF assms(4) a2(11) u(3) conn_atD(3) [OF a(1)]] by (auto simp: armed_def)
  then have calm: "calm H a3" using a3(10) sole_remove [of H d k] by (simp add: calm_def stop_rtx_timer_def)
  have s: "state_at a2 ca FIN_WAIT_1" "state_at a3 ca FIN_WAIT_2" "c_events a3 = []" "state_at b2 cb CLOSE_WAIT"
    using e2 a3(4) b2(6) by (auto simp: end_at_def half_closed_def conn_state_at)
  have "half_close a ra ca b cb a3 b2"
    unfolding half_close_def
    by (rule exI [of _ ?a1], rule exI [of _ a2], rule exI [of _ b1], rule exI [of _ f1], rule exI [of _ f2])
      (use close_calls(1) [OF a(1)] a2(1,3) b1(1,3) b2(1,3,7) a3(1,3) s in simp)
  then show ?thesis
    by (rule that [OF _ a3(4) _ _ b2(6,7)])
      (use a2(10,13) a3(5-7,9,11) b1(9) b2(10) u(1) sy net_kept_trans [OF b1(2) b2(2)] calm in \<open>simp_all add: in_step_def\<close>)
qed

lemma full_close_works:
  assumes "end_at a ra ca sid ma ta FIN_WAIT_2" "\<not> close_requested ta" "snd_una ta = snd_nxt ta" "half_closed b rb cb (mirror sid) mb tb" "c_events b = []"
    and "in_step ta tb" "sock_opt tb (SOL_SOCKET, SO_LINGER) \<noteq> Some SO_LINGER_ON" "calm H a"
  obtains a' b' ta' k where "full_close b rb cb a ca b' a'" "conn_at a' ra ca sid ma ta'" "net_kept b b'"
    "sole H (ms (c_now_ns a) + TIME_WAIT_TIMEOUT * 1000) k (RemoveTcpcb ca) (c_timer a')"
proof -
  have b: "conn_at b rb cb (mirror sid) mb tb" "state tb = CLOSE_WAIT" "drained tb" "rcv_ok tb" "seq_num (snd_nxt tb)" "rb_contents (rcv_buf tb) = []"
    using assms(4) by (simp_all add: half_closed_def open_window_def)
  have a: "conn_at a ra ca sid ma ta" using assms(1) by (simp add: end_at_def)
  have st: "snd_nxt ta = rcv_nxt tb" "snd_nxt tb = rcv_nxt ta" "snd_una tb = snd_nxt tb" using assms(6) b(3) by (simp_all add: in_step_def drained_def)
  let ?b1 = "with_send_event cb (with_cb cb (tb\<lparr>close_requested := True\<rparr>) b)"
  obtain b2 t2 f1 s1 where b2: "tcp_events_pass ?b1 = Some (Inr (), b2)" "net_kept b b2" "c_tx_ring b2 = c_tx_ring b @ [f1]" "frame_of b mb s1 f1"
    "fin_of (mirror sid) tb s1" "end_at b2 rb cb (mirror sid) mb t2 (if state tb = ESTAB then FIN_WAIT_1 else LAST_ACK)" "snd_una t2 = snd_una tb"
    "snd_nxt t2 = mask32 (snd_nxt tb + 1)" "rcv_nxt t2 = rcv_nxt tb"
    by (rule fin_leaves [OF b(1) assms(5) _ b(3-6), of "tb\<lparr>close_requested := True\<rparr>"]) (use b(2) assms(7) in simp_all)
  have e2: "end_at b2 rb cb (mirror sid) mb t2 LAST_ACK" "conn_at b2 rb cb (mirror sid) mb t2" using b2(6) b(2) by (simp_all add: end_at_def)
  have q: "quiet H (c_timer a)" using assms(8) by (simp add: calm_def)
  obtain a' t3 f2 s2 k where a': "takes_frame a f1 a'" "net_kept a a'" "c_tx_ring a' = c_tx_ring a @ [f2]" "frame_of a ma s2 f2" "ack_of sid t3 s2"
    "conn_at a' ra ca sid ma t3" "c_events a' = []" "state t3 = TIME_WAIT" "snd_nxt t3 = snd_nxt ta" "rcv_nxt t3 = mask32 (rcv_nxt ta + 1)"
    "sole H (ms (c_now_ns a) + TIME_WAIT_TIMEOUT * 1000) k (RemoveTcpcb ca) (c_timer a')"
    by (rule second_fin [OF assms(1-3) b2(5) st(2) st(1) [symmetric] b2(4) conn_atD(7,8) [OF b(1)] q])
  have ak: "ack_of (mirror (mirror sid)) t3 s2" using a'(5) by simp
  have sy: "snd_nxt t2 = mask32 (snd_una t2 + 1)" "snd_nxt t3 = rcv_nxt t2" "rcv_nxt t3 = snd_nxt t2" using a'(9,10) b2(7-9) st by simp_all
  obtain b' where b': "takes_frame b2 f2 b'" "net_kept b2 b'" "c_tx_ring b' = c_tx_ring b2" "c_events b' = []" "state_at b' cb CLOSED"
    by (rule last_ack [OF e2(1) sy(1) ak sy(2,3) a'(4) conn_atD(7,8) [OF a]])
  have s: "state_at b2 cb LAST_ACK" "state_at a' ca TIME_WAIT" using e2 a'(6,8) by (auto simp: end_at_def conn_state_at)
  have "full_close b rb cb a ca b' a'"
    unfolding full_close_def
    by (rule exI [of _ ?b1], rule exI [of _ b2], rule exI [of _ f1], rule exI [of _ f2])
      (use close_calls(2) [OF b(1)] b2(1,3) a'(1,3,7) b'(1,3-5) s in simp)
  then show ?thesis by (rule that [OF _ a'(6) net_kept_trans [OF b2(2) b'(2)] a'(11)])
qed

section \<open>Properties\<close>

text \<open>C4. A connection is closed in order. Both ends are established and at rest. The first application shuts its side down: the
  event thread sends one frame, the FIN; at the other stack it leads to CLOSE-WAIT and to one frame with the acknowledgment, and a receive there
  returns at once, with no data; the acknowledgment leads to FIN-WAIT-2. Then the second application closes: one frame with its FIN, TIME-WAIT
  and one frame with the acknowledgment at the first stack, and CLOSED at the second. When the thirty seconds of TIME-WAIT are over,
  the pass of the timer thread removes the socket and the control block of the first from its tables; those of the
  second stay in its tables although the connection is closed. (No other timer of the first stack is due, and the second
  socket does not ask for an abortive close.)\<close>

theorem orderly_close:
  assumes "at_rest a ra ca sid ma ta" "at_rest b rb cb (mirror sid) mb tb" "in_step ta tb"
    "sock_opt tb (SOL_SOCKET, SO_LINGER) \<noteq> Some SO_LINGER_ON" "calm H a" "ms (c_now_ns a) + TIME_WAIT_TIMEOUT * 1000 \<le> ms T" "ms T \<le> H"
  shows "\<exists>a1 b1 a2 b2 a3. half_close a ra ca b cb a1 b1 \<and> (\<forall>n got m. socket_recv rb n got m b1 = Some (Inr [], b1)) \<and>
    full_close b1 rb cb a1 ca b2 a2 \<and> timer_loop_pass (a2\<lparr>c_now_ns := T\<rparr>) = Some (Inr (), a3) \<and>
    tcp_sockets (c_tcp a3) sid = None \<and> tcp_tcpcbs (c_tcp a3) sid = None \<and> tcp_tcpcbs (c_tcp b2) (mirror sid) = Some cb"
proof -
  obtain a1 b1 t u where h: "half_close a ra ca b cb a1 b1" "end_at a1 ra ca sid ma t FIN_WAIT_2" "\<not> close_requested t"
    "snd_una t = snd_nxt t" "half_closed b1 rb cb (mirror sid) mb u" "c_events b1 = []" "in_step t u" "sock_opt u = sock_opt tb"
    "net_kept b b1" "calm H a1" "c_now_ns a1 = c_now_ns a"
    by (rule half_close_works [OF assms(1-3,5)])
  have so: "sock_opt u (SOL_SOCKET, SO_LINGER) \<noteq> Some SO_LINGER_ON" using assms(4) h(8) by simp
  obtain a2 b2 t' k where f: "full_close b1 rb cb a1 ca b2 a2" "conn_at a2 ra ca sid ma t'" "net_kept b1 b2"
    "sole H (ms (c_now_ns a1) + TIME_WAIT_TIMEOUT * 1000) k (RemoveTcpcb ca) (c_timer a2)"
    by (rule full_close_works [OF h(2-7) so h(10)])
  have due: "ms (c_now_ns a1) + TIME_WAIT_TIMEOUT * 1000 \<le> ms T" using assms(6) h(11) by simp
  obtain a3 where a3: "timer_loop_pass (a2\<lparr>c_now_ns := T\<rparr>) = Some (Inr (), a3)" "tcp_sockets (c_tcp a3) sid = None" "tcp_tcpcbs (c_tcp a3) sid = None"
    by (rule time_wait_over [OF f(2,4) due assms(7)])
  have u: "conn_at b1 rb cb (mirror sid) mb u" "state u = CLOSE_WAIT" using h(5) by (simp_all add: half_closed_def)
  have rc: "\<forall>n got m. socket_recv rb n got m b1 = Some (Inr [], b1)"
    by (auto intro!: recv_after_fin [OF conn_atD(5) [OF u(1)]] simp: u(2) NON_RECEIVABLE_STATES_def)
  have "tcp_tcpcbs (c_tcp b2) (mirror sid) = Some cb"
    using conn_atD(1) [OF u(1)] f(3) by (simp add: wired_def net_kept_def)
  then show ?thesis using h(1) f(1) a3 rc by blast
qed

theorem orderly_close_witness:
  "\<exists>a1 b1 a2 b2 a3. half_close (end_core sid_example (end_tcb sid_example 101 501)) 0 1
       (end_core (mirror sid_example) (end_tcb (mirror sid_example) 501 101)) 1 a1 b1 \<and> full_close b1 0 1 a1 1 b2 a2 \<and>
     timer_loop_pass (a2\<lparr>c_now_ns := 40000000000\<rparr>) = Some (Inr (), a3) \<and> tcp_tcpcbs (c_tcp a3) sid_example = None"
proof -
  let ?ta = "end_tcb sid_example 101 501" and ?tb = "end_tcb (mirror sid_example) 501 101" and ?T = "40000000000 :: int"
  let ?a = "end_core sid_example ?ta"
  have s: "sock_opt ?tb (SOL_SOCKET, SO_LINGER) \<noteq> Some SO_LINGER_ON"
    by (simp_all add: end_tcb_def tcpcb_init_def)
  have c: "calm 50000 ?a" by (simp add: calm_def quiet_def end_core_def core_example_def) (simp add: timer_init_def)
  have t: "ms (c_now_ns ?a) + TIME_WAIT_TIMEOUT * 1000 \<le> ms ?T" "ms ?T \<le> 50000"
    by (simp_all add: end_core_def core_example_def ms_def TIME_WAIT_TIMEOUT_def)
  show ?thesis using orderly_close [OF end_pair_at_rest s c t] by blast
qed

end
