(* ===== verification/Ip_Frag.thy ===== *)
theory Ip_Frag
  imports Ip_Header
begin

text \<open>
  The class \<^verbatim>\<open>IPFragBuilder\<close> of \<^verbatim>\<open>ip/builder.py\<close>, method by method. The body of a class turns a name such as \<^verbatim>\<open>self.__ihl\<close>
  into \<^verbatim>\<open>self._IPFragBuilder__ihl\<close>, so that \<^verbatim>\<open>_ihl\<close> and \<^verbatim>\<open>__ihl\<close> are two attributes, and so are \<^verbatim>\<open>_total_len\<close> and
  \<^verbatim>\<open>__total_len\<close>. An attribute that may be missing is an option here, and reading a missing one is an \<^verbatim>\<open>AttributeError\<close>.
  The methods are those of any object of the class, not only of one that its constructor has made.
\<close>

section \<open>Attributes\<close>

record frag_attrs =
  fa_payload :: bytes
  fa_id :: int
  fa_offset :: int
  fa_df :: bool
  fa_mf :: bool
  fa_ttl :: sockopt
  fa_protocol :: int
  fa_options :: "ip_opt list"
  fa_ihl :: nat
  fa_ihl_private :: "nat option"
  fa_total_len :: "nat option"
  fa_total_len_private :: "nat option"
  fa_src :: int
  fa_dst :: int

text \<open>The fragments an object has made are objects of the class.\<close>

datatype frag_builder = FragBuilder (fb_attrs: frag_attrs) (fb_frags: "frag_builder list")

definition attr :: "'a option \<Rightarrow> 'a result" where
  "attr a = (case a of None \<Rightarrow> Inl AttributeError | Some x \<Rightarrow> Inr x)"

lemma attr_simps [simp]: "attr None = Inl AttributeError" "attr (Some x) = Inr x"
  by (simp_all add: attr_def)

section \<open>Methods\<close>

text \<open>The constructor runs on an object that has none of the private attributes; the assignments are in the order of the source.\<close>

definition frag_init ::
    "bytes \<Rightarrow> int \<Rightarrow> sockopt \<Rightarrow> int \<Rightarrow> int \<Rightarrow> bool \<Rightarrow> bool \<Rightarrow> int \<Rightarrow> int \<Rightarrow> ip_opt list \<Rightarrow> frag_builder result" where
  "frag_init pl ident ttl protocol offset flag_df flag_mf src dst options =
     bind_r (ip_ihl_of options) (\<lambda>ihl.
       let self = \<lparr>fa_payload = pl, fa_id = ident, fa_offset = offset, fa_df = flag_df, fa_mf = flag_mf, fa_ttl = ttl,
             fa_protocol = protocol, fa_options = options, fa_ihl = ihl, fa_ihl_private = None, fa_total_len = None,
             fa_total_len_private = None, fa_src = src, fa_dst = dst\<rparr>
       in bind_r (attr (fa_ihl_private self)) (\<lambda>h.
            Inr (FragBuilder (self\<lparr>fa_total_len := Some (h * 4 + length (fa_payload self))\<rparr>) [])))"

definition create_frags :: "bytes \<Rightarrow> int \<Rightarrow> bool \<Rightarrow> ip_opt list \<Rightarrow> frag_builder \<Rightarrow> frag_builder result" where
  "create_frags data_portion offset flag_mf options self =
     (let a = fb_attrs self
      in bind_r (frag_init data_portion (fa_id a) (fa_ttl a) (fa_protocol a) offset False flag_mf (fa_src a) (fa_dst a) options)
           (\<lambda>frag. Inr (FragBuilder a (fb_frags self @ [frag]))))"

fun copy_flag :: "ip_opt \<Rightarrow> bool" where
  "copy_flag (IPOptEOL a) = False"
| "copy_flag (IPOptNOP a) = False"
| "copy_flag (IPOptLSRR opt start stop) = True"
| "copy_flag (IPOptUnknown opt start stop) = False"

text \<open>The fields that the loop of \<^verbatim>\<open>_fragment\<close> resets after a fragment of \<open>nfb\<close> units of 8 bytes.\<close>

definition reset_options :: "frag_attrs \<Rightarrow> frag_attrs result" where
  "reset_options a =
     (if fa_options a = [] then Inr a
      else bind_r (ip_opt_padding (filter copy_flag (fa_options a))) (\<lambda>options.
           bind_r (ip_ihl_of options) (\<lambda>h. Inr (a\<lparr>fa_options := options, fa_ihl_private := Some h\<rparr>))))"

definition reset_fields :: "int \<Rightarrow> frag_attrs \<Rightarrow> frag_attrs result" where
  "reset_fields nfb a =
     bind_r (reset_options (a\<lparr>fa_payload := py_from (fa_payload a) (nfb * 8)\<rparr>)) (\<lambda>a1.
     bind_r (attr (fa_ihl_private a1)) (\<lambda>h.
       Inr (a1\<lparr>fa_total_len_private := Some (h * 4 + length (fa_payload a1))\<rparr>)))"

definition frag_last :: "int \<Rightarrow> frag_builder \<Rightarrow> frag_builder result" where
  "frag_last offset self =
     bind_r (attr (fa_ihl_private (fb_attrs self))) (\<lambda>h.
       create_frags (fa_payload (fb_attrs self)) offset False (fa_options (fb_attrs self)) self)"

text \<open>The loop tests \<^verbatim>\<open>_total_len\<close>, which it does not change.\<close>

partial_function (option) frag_while :: "int \<Rightarrow> frag_builder \<Rightarrow> frag_builder result option" where
  "frag_while offset self =
     (case attr (fa_total_len (fb_attrs self)) of
        Inl e \<Rightarrow> Some (Inl e)
      | Inr total_len \<Rightarrow>
          if total_len > MTU then
            (let a = fb_attrs self; nfb = (int MTU - int (fa_ihl a) * 4) div 8
             in case bind_r (create_frags (py_upto (fa_payload a) (nfb * 8)) offset True (fa_options a) self) (\<lambda>s1.
                     bind_r (reset_fields nfb (fb_attrs s1)) (\<lambda>a1. Inr (FragBuilder a1 (fb_frags s1)))) of
                  Inl e \<Rightarrow> Some (Inl e)
                | Inr s2 \<Rightarrow> frag_while (offset + nfb) s2)
          else Some (frag_last offset self))"

definition fragment :: "frag_builder \<Rightarrow> frag_builder result option" where
  "fragment self = frag_while 0 self"

definition get_frags :: "frag_builder \<Rightarrow> frag_builder list result option" where
  "get_frags self = map_option (map_sum id fb_frags) (fragment self)"

definition frag_len :: "frag_attrs \<Rightarrow> nat result" where
  "frag_len a = bind_r (attr (fa_ihl_private a)) (\<lambda>h. Inr (h * 4 + length (fa_payload a)))"

definition frag_build :: "frag_attrs \<Rightarrow> bytes \<Rightarrow> bytes result" where
  "frag_build a frame =
     bind_r (attr (fa_ihl_private a)) (\<lambda>h.
     bind_r (attr (fa_total_len a)) (\<lambda>total_len.
       (case fa_ttl a of
          OptBytes _ \<Rightarrow> Inl StructError
        | OptInt ttl \<Rightarrow>
            bind_r (pack_into
              [(1, push_bit 4 IP_VERSION OR int h), (1, 0), (2, int total_len), (2, fa_id a),
               (2, push_bit 14 (of_bool (fa_df a)) OR push_bit 13 (of_bool (fa_mf a)) OR fa_offset a),
               (1, ttl), (1, fa_protocol a), (2, 0), (4, fa_src a), (4, fa_dst a)] frame 0) (\<lambda>f1.
            bind_r (ip_opts_build (fa_options a) f1 20) (\<lambda>f2.
            bind_r (pack_into [(2, inet_csum_little f2 0)] f2 10) (\<lambda>f3.
              pack_str_into (length (fa_payload a)) (fa_payload a) f3 (h * 4)))))))"

section \<open>Fragmentation always raises\<close>

text \<open>The constructor raises whatever its arguments: it reads \<^verbatim>\<open>__ihl\<close>, which no line has set. \<^verbatim>\<open>tx_ip\<close> uses this short form of it.\<close>

lemma frag_init_raises:
  "frag_init pl ident ttl protocol offset flag_df flag_mf src dst options = ip_frag_builder_init options"
  by (simp add: frag_init_def ip_frag_builder_init_def Let_def)

lemma frag_init_Inl: "\<exists>e\<in>{AttributeError, TypeError}. frag_init pl ident ttl protocol offset flag_df flag_mf src dst options = Inl e"
proof -
  have len: "ip_opts_len os \<in> insert (Inl TypeError) (range Inr)" for os
  proof (induction os)
    case (Cons o1 os)
    then show ?case by (cases o1 rule: ip_opt_len.cases) (auto simp: image_iff)
  qed auto
  show ?thesis
    using len [of options]
    by (cases "ip_opts_len options") (auto simp: frag_init_raises ip_frag_builder_init_def ip_ihl_of_def)
qed

lemma create_frags_Inl: "\<exists>e\<in>{AttributeError, TypeError}. create_frags data offset mf options self = Inl e"
  using frag_init_Inl [of data "fa_id (fb_attrs self)" "fa_ttl (fb_attrs self)" "fa_protocol (fb_attrs self)" offset False mf
      "fa_src (fb_attrs self)" "fa_dst (fb_attrs self)" options]
  by (auto simp: create_frags_def Let_def)

text \<open>No object of the class is ever cut into fragments, also one whose attributes are all there: the loop ends, and it ends
  with an exception before the first fragment is appended.\<close>

lemma get_frags_raises: "\<exists>e\<in>{AttributeError, TypeError}. get_frags self = Some (Inl e)"
proof -
  have "\<exists>e\<in>{AttributeError, TypeError}. frag_last offset self = Inl e" for offset
    using create_frags_Inl [of "fa_payload (fb_attrs self)" offset False "fa_options (fb_attrs self)" self]
    by (cases "fa_ihl_private (fb_attrs self)") (auto simp: frag_last_def)
  then have "\<exists>e\<in>{AttributeError, TypeError}. frag_while 0 self = Some (Inl e)"
    using create_frags_Inl [of "py_upto (fa_payload (fb_attrs self)) ((int MTU - int (fa_ihl (fb_attrs self)) * 4) div 8 * 8)"
        0 True "fa_options (fb_attrs self)" self]
    by (subst frag_while.simps) (cases "fa_total_len (fb_attrs self)"; fastforce simp: Let_def)
  then show ?thesis by (auto simp: get_frags_def fragment_def)
qed

section \<open>A fragment is written as the datagram it is\<close>

text \<open>An object with all its attributes writes the header and the bytes that an \<^verbatim>\<open>IPBuilder\<close> with the same fields writes for a
  payload of bytes; the two differ in the exception when the frame is too short.\<close>

definition datagram_of :: "frag_attrs \<Rightarrow> ip_builder" where
  "datagram_of a =
     \<lparr>ipb_payload = PRaw (fa_payload a), ipb_id = fa_id a, ipb_offset = fa_offset a, ipb_df = fa_df a, ipb_mf = fa_mf a,
      ipb_ttl = fa_ttl a, ipb_protocol = fa_protocol a, ipb_options = fa_options a, ipb_ihl = fa_ihl a,
      ipb_total_len = the (fa_total_len a), ipb_src = fa_src a, ipb_dst = fa_dst a\<rparr>"

lemma pack_str_build_at:
  assumes "off \<le> length frame"
  shows "pack_str_into (length d) d frame off = Inr f \<longleftrightarrow> build_at off frame (raw_build d) = Inr f"
  using assms
  by (auto simp: pack_str_into_def build_at_def raw_build_def mv_assign_def slice_assign_def bind_r_Inr_iff add.commute)

lemma bind_r_cong_Inr:
  assumes "\<And>x. r = Inr x \<Longrightarrow> f x = Inr y \<longleftrightarrow> g x = Inr y"
  shows "bind_r r f = Inr y \<longleftrightarrow> bind_r r g = Inr y"
  using assms by (cases r) simp_all

lemma frag_build_datagram:
  assumes "fa_ihl_private a = Some (fa_ihl a)" "fa_total_len a = Some n" "fa_protocol a \<notin> NEED_P_HDR_SUM"
    and "fa_ihl a * 4 \<le> length frame"
  shows "frag_build a frame = Inr f \<longleftrightarrow> ip_build (datagram_of a) frame = Inr f"
proof -
  have opt: "length f = length g" if "ip_opt_build opt g off = Inr f" for opt g off f
    using that
    by (cases "(opt, g, off)" rule: ip_opt_build.cases)
      (auto simp: pack_str_into_def slice_assign_def pack_into_def bind_r_Inr_iff split: if_splits)
  have opts: "length f = length g" if "ip_opts_build opts g off = Inr f" for opts g off f
    using that
    by (induction opts g off rule: ip_opts_build.induct) (auto simp: bind_r_Inr_iff dest!: opt)
  have pk: "length f = length g" if "pack_into fs g off = Inr f" for fs g off f
    using that by (auto simp: pack_into_def slice_assign_def bind_r_Inr_iff split: if_splits)
  have raw: "payload_build (PRaw d) None = raw_build d" for d by (simp add: fun_eq_iff)
  have h: "fa_protocol a \<notin> NEED_P_HDR_SUM" "fa_ihl a * 4 \<le> length frame" by (rule assms(3), rule assms(4))
  show ?thesis
  proof (cases "fa_ttl a")
    case (OptInt ttl)
    then show ?thesis
      using h
      by (simp add: frag_build_def ip_build_def datagram_of_def ip_fields_def ip_flags_word_def assms(1,2) raw)
        (intro conjI impI bind_r_cong_Inr pack_str_build_at; auto dest!: pk opts)
  qed (simp add: frag_build_def ip_build_def datagram_of_def assms(1,2))
qed

text \<open>A second fragment of 4 bytes, with the options of the first dropped.\<close>

definition frag_example :: frag_attrs where
  "frag_example =
     \<lparr>fa_payload = [1, 2, 3, 4], fa_id = 7, fa_offset = 185, fa_df = False, fa_mf = False, fa_ttl = OptInt 64, fa_protocol = 1,
      fa_options = [], fa_ihl = 5, fa_ihl_private = Some 5, fa_total_len = Some 24, fa_total_len_private = Some 24,
      fa_src = 0xC0A802C8, fa_dst = 0xC0A80201\<rparr>"

lemma frag_build_datagram_witness:
  "frag_build frag_example (replicate 30 0) = Inr f \<longleftrightarrow> ip_build (datagram_of frag_example) (replicate 30 0) = Inr f"
  by (rule frag_build_datagram) (simp_all add: frag_example_def NEED_P_HDR_SUM_def IP_PROTO_TCP_def IP_PROTO_UDP_def)

end
