(* ===== verification/Ping.thy ===== *)
theory Ping
  imports Core_Paths Sock_Calls
begin

text \<open>
  The program \<^verbatim>\<open>example/ping.py\<close>: its own checksum, its builder and parser of ICMP messages, and its loop over a raw
  socket. The text it prints and the interruption by the keyboard are not modelled.
\<close>

section \<open>The Internet checksum of the example\<close>

text \<open>The loop over pairs of bytes; the data have an even length.\<close>

fun ping_csum_loop :: "bytes \<Rightarrow> nat \<Rightarrow> nat" where
  "ping_csum_loop (a # b # data) tot =
     (let t = tot + (push_bit 8 (unat a) + unat b)
      in ping_csum_loop data ((t AND 0xffff) + drop_bit 16 t))"
| "ping_csum_loop _ tot = tot"

definition ping_csum :: "bytes \<Rightarrow> int" where
  "ping_csum data =
     (let data1 = (if length data mod 2 \<noteq> 0 then data @ [0] else data)
      in NOT (int (ping_csum_loop data1 0)) AND 0xffff)"

section \<open>Messages\<close>

definition PACKET_DATA :: bytes where
  "PACKET_DATA = map (\<lambda>c. of_char c) ''abcdefghijklmnopqrstuvwabcdefghi''"

record ping =
  pg_sock :: nat
  pg_icmp_id :: int

definition build_echo_req :: "ping \<Rightarrow> int \<Rightarrow> bytes \<Rightarrow> bytes result" where
  "build_echo_req p sequence payload =
     bind_r (pack_fields [(1, 8), (1, 0), (2, 0), (2, pg_icmp_id p), (2, sequence)]) (\<lambda>header.
     bind_r (pack_fields [(1, 8), (1, 0), (2, ping_csum (header @ payload)), (2, pg_icmp_id p), (2, sequence)]) (\<lambda>header1.
       Inr (header1 @ payload)))"

record reply_info =
  ri_type :: int
  ri_code :: int
  ri_checksum :: int
  ri_id :: int
  ri_seq :: int
  ri_payload :: bytes

definition parse_reply :: "bytes \<Rightarrow> reply_info option result" where
  "parse_reply raw_data =
     (if length raw_data < 8 then Inr None
      else
        bind_r (byte_at raw_data 0) (\<lambda>ty.
        bind_r (byte_at raw_data 1) (\<lambda>code.
        bind_r (unpack_be 2 raw_data 2) (\<lambda>csum.
        bind_r (unpack_be 2 raw_data 4) (\<lambda>pid.
        bind_r (unpack_be 2 raw_data 6) (\<lambda>seqn.
          Inr (Some \<lparr>ri_type = ty, ri_code = code, ri_checksum = csum, ri_id = pid, ri_seq = seqn,
            ri_payload = drop 8 raw_data\<rparr>)))))))"

section \<open>The program\<close>

text \<open>\<^verbatim>\<open>IPPROTO_ICMP\<close> is 1; \<open>pid\<close> is what \<^verbatim>\<open>os.getpid()\<close> returns.\<close>

definition ping_init :: "string \<Rightarrow> int \<Rightarrow> ping op" where
  "ping_init remote_host pid =
     bind_op (py_socket AF_INET SOCK_RAW 1) (\<lambda>so. case so of
       None \<Rightarrow> raise AttributeError
     | Some ref \<Rightarrow>
         then_op (ripsocket_connect ref (remote_host, 0))
        (then_op (setsockopt ref IPPROTO_IP IPPROTO_TTL (OptInt 128))
        (ret \<lparr>pg_sock = ref, pg_icmp_id = pid AND 0xFFFF\<rparr>)))"

definition ping_close :: "ping \<Rightarrow> unit op" where
  "ping_close p = ripsocket_close (pg_sock p)"

datatype ping_outcome = EchoReply | Mismatched | UnexpectedType "int option" | RequestTimeout

definition ping_judge :: "ping \<Rightarrow> int \<Rightarrow> reply_info option \<Rightarrow> ping_outcome" where
  "ping_judge p seqn info =
     (case info of
        None \<Rightarrow> UnexpectedType None
      | Some r \<Rightarrow>
          if ri_type r = 0 then
            if ri_id r = pg_icmp_id p \<and> ri_seq r = seqn then EchoReply else Mismatched
          else UnexpectedType (Some (ri_type r)))"

text \<open>\<^verbatim>\<open>except TimeoutError\<close>\<close>

definition catch_timeout :: "'a op \<Rightarrow> 'a \<Rightarrow> 'a op" where
  "catch_timeout m x c =
     (case m c of Some (Inl (SocketError ETIMEDOUT), c1) \<Rightarrow> Some (Inr x, c1) | r \<Rightarrow> r)"

text \<open>
  One round of the loop: \<open>got\<close> says whether the wait of \<^verbatim>\<open>recv\<close> was notified in time, \<open>meanwhile\<close> what
  happened during it.
\<close>

definition ping_round :: "ping \<Rightarrow> int \<Rightarrow> bool \<Rightarrow> (core \<Rightarrow> core) \<Rightarrow> ping_outcome op" where
  "ping_round p seqn got meanwhile =
     bind_op (lift (build_echo_req p seqn PACKET_DATA)) (\<lambda>icmp_packet.
     bind_op (ripsocket_send (pg_sock p) icmp_packet) (\<lambda>_.
       catch_timeout
         (then_op (settimeout (pg_sock p) (Some 2))
          (bind_op (ripsocket_recv (pg_sock p) 128 got meanwhile) (\<lambda>raw_reply.
           bind_op (lift (parse_reply raw_reply)) (\<lambda>info. ret (ping_judge p seqn info)))))
         RequestTimeout))"

text \<open>The rounds, with what happens during the sleep after each, and the numbers of requests and of replies.\<close>

fun ping_rounds :: "ping \<Rightarrow> int \<Rightarrow> (bool \<times> (core \<Rightarrow> core) \<times> (core \<Rightarrow> core)) list \<Rightarrow> nat \<times> nat \<Rightarrow> (nat \<times> nat) op" where
  "ping_rounds p seqn [] counts = ret counts"
| "ping_rounds p seqn ((got, meanwhile, nap) # rounds) (n_sent, n_received) =
     bind_op (ping_round p seqn got meanwhile) (\<lambda>outcome.
     then_op (upd nap)
       (ping_rounds p (seqn + 1) rounds (Suc n_sent, if outcome = EchoReply then Suc n_received else n_received)))"

definition ping_loss :: "nat \<times> nat \<Rightarrow> rat" where
  "ping_loss counts =
     (case counts of (n_sent, n_received) \<Rightarrow> if n_sent \<noteq> 0 then (1 - of_nat n_received / of_nat n_sent) * 100 else 0)"

section \<open>The checksum is that of RFC 1071\<close>

lemma ping_csum_loop_ones:
  "even (length data) \<Longrightarrow> tot \<le> 65535 \<Longrightarrow> ping_csum_loop data tot = ones_norm (tot + be16_sum data)"
proof (induction data tot rule: ping_csum_loop.induct)
  case (1 a b data tot)
  let ?t = "tot + (256 * unat a + unat b)"
  have ab: "unat a < 256" "unat b < 256" using unsigned_less [where w = a] unsigned_less [where w = b] by simp_all
  have s: "?t = (?t mod 65536 + ?t div 65536) + ?t div 65536 * 65535" using div_mult_mod_eq [of ?t 65536] by linarith
  have le: "?t mod 65536 + ?t div 65536 \<le> 65535"
  proof (cases "?t < 65536")
    case False
    then have "?t div 65536 = 1" "?t mod 65536 = ?t - 65536" using ab 1(3) by (auto simp: mod_if div_if)
    then show ?thesis using ab 1(3) by linarith
  qed simp
  obtain u where u: "u = ?t mod 65536 + ?t div 65536" by blast
  have "?t mod 65535 = (u + ?t div 65536 * 65535) mod 65535" using s u by simp
  then have "u mod 65535 = ?t mod 65535" by simp
  then have "(?t mod 65536 + ?t div 65536 + be16_sum data) mod 65535 = (?t + be16_sum data) mod 65535"
    unfolding u [symmetric] by (rule mod_add_cong [OF _ refl])
  moreover have "?t mod 65536 + ?t div 65536 + be16_sum data = 0 \<longleftrightarrow> ?t + be16_sum data = 0"
    using s by (metis add_is_0 div_0 mod_0 mult_is_0)
  ultimately have "ones_norm (?t mod 65536 + ?t div 65536 + be16_sum data) = ones_norm (?t + be16_sum data)"
    by (rule ones_norm_cong)
  moreover have "ping_csum_loop (a # b # data) tot = ping_csum_loop data (?t mod 65536 + ?t div 65536)"
    by (simp add: Let_def and_ffff drop16 push_bit_eq_mult mult.commute)
  ultimately show ?case
    using 1(1) [OF refl] 1(2) le by (simp add: Let_def and_ffff drop16 push_bit_eq_mult mult.commute add.assoc)
qed (auto intro: ones_norm_unique)

lemma be16_sum_pad: "be16_sum (data @ [0]) = be16_sum data"
  by (induction data rule: be16_sum.induct) simp_all

lemma ping_csum_rfc1071: "ping_csum data = rfc1071 data"
proof -
  have "ping_csum_loop (if length data mod 2 \<noteq> 0 then data @ [0] else data) 0 = ones_norm (be16_sum data)"
    by (auto simp: ping_csum_loop_ones be16_sum_pad mod2_eq_if)
  then show ?thesis
    using ones_norm_range [of "be16_sum data"] by (simp add: ping_csum_def rfc1071_def complement16)
qed


section \<open>Its messages are those of the stack\<close>

definition echo_req :: "ping \<Rightarrow> int \<Rightarrow> bytes \<Rightarrow> icmp_builder" where
  "echo_req p sequence payload =
     \<lparr>ib_type = ECHO_REQUEST, ib_code = 0, ib_data = payload, ib_echo_id = Some (pg_icmp_id p), ib_echo_seq = Some sequence\<rparr>"

definition ids_ok :: "ping \<Rightarrow> int \<Rightarrow> bool" where
  "ids_ok p sequence \<longleftrightarrow> 0 \<le> pg_icmp_id p \<and> pg_icmp_id p < 65536 \<and> 0 \<le> sequence \<and> sequence < 65536"

lemma ping_csum_little: "ping_csum data = inet_csum_little data 0"
  using csum_little_eq [of 0 "[]" data] by (simp add: ping_csum_rfc1071)

lemma echo_req_ok: "ids_ok p sequence \<Longrightarrow> icmp_ok (echo_req p sequence payload)"
  by (simp add: icmp_ok_def echo_req_def ids_ok_def icmp_consts)

lemma build_echo_req_bytes:
  "build_echo_req p sequence payload =
     (if ids_ok p sequence then Inr (icmp_bytes (echo_req p sequence payload)) else Inl StructError)"
proof (cases "ids_ok p sequence")
  case True
  let ?h = "\<lambda>c. [(1, 8), (1, 0), (2, c), (2, pg_icmp_id p), (2, sequence)] :: (nat \<times> int) list"
  have ok: "list_all field_ok (?h c)" if "0 \<le> c" "c < 65536" for c
    using True that by (simp add: ids_ok_def)
  have "build_echo_req p sequence payload = Inr (enc (?h (ping_csum (enc (?h 0) @ payload))) @ payload)"
    using pack_fields_ok [OF ok, of 0] pack_fields_ok [OF ok, of "inet_csum_little (enc (?h 0) @ payload) 0"]
    unfolding build_echo_req_def ping_csum_little by (simp del: enc_simps pack_fields.simps One_nat_def)
  then show ?thesis
    using True by (simp add: icmp_bytes_def seal_def echo_req_def icmp_rest_def icmp_consts ping_csum_little)
next
  case False
  then have "\<not> list_all field_ok [(1, 8), (1, 0), (2, 0), (2, pg_icmp_id p), (2, sequence)]" by (auto simp: ids_ok_def)
  then show ?thesis using False pack_fields_Inl by (simp add: build_echo_req_def del: pack_fields.simps)
qed

lemma parse_reply_bytes:
  assumes "ids_ok p sequence"
  shows "\<exists>c. parse_reply (icmp_bytes ((echo_req p sequence payload)\<lparr>ib_type := ECHO_REPLY\<rparr>)) =
    Inr (Some \<lparr>ri_type = 0, ri_code = 0, ri_checksum = c, ri_id = pg_icmp_id p, ri_seq = sequence, ri_payload = payload\<rparr>)"
proof -
  let ?q = "(echo_req p sequence payload)\<lparr>ib_type := ECHO_REPLY\<rparr>"
  let ?c = "inet_csum_little (enc [(1, 0), (1, 0)] @ be_bytes 2 0 @ enc (icmp_rest ?q) @ payload) 0"
  let ?h = "[(1, 0), (1, 0), (2, ?c), (2, pg_icmp_id p), (2, sequence)] :: (nat \<times> int) list"
  have f: "icmp_bytes ?q = enc ?h @ payload"
    by (simp add: icmp_bytes_def seal_def echo_req_def icmp_rest_def icmp_consts)
  have r: "byte_at (enc ?h @ payload) 0 = Inr 0" "byte_at (enc ?h @ payload) 1 = Inr 0"
    "unpack_be 2 (enc ?h @ payload) 2 = Inr ?c" "unpack_be 2 (enc ?h @ payload) 4 = Inr (pg_icmp_id p)"
    "unpack_be 2 (enc ?h @ payload) 6 = Inr sequence"
    using assms read_byte [of 0 ?h 0 0 payload] read_byte [of 1 ?h 0 1 payload] read_field [of 2 ?h 2 ?c 2 payload]
      read_field [of 3 ?h 2 "pg_icmp_id p" 4 payload] read_field [of 4 ?h 2 sequence 6 payload]
    by (simp_all add: ids_ok_def del: enc_simps)
  have l: "length (enc ?h) = 8" by simp
  show ?thesis unfolding f parse_reply_def r bind_r_simps using l by (simp del: enc_simps)
qed

end
