(* ===== verification/Ping_Props.thy ===== *)
theory Ping_Props
  imports Ping Sock_Props
begin

text \<open>
  A round of \<^verbatim>\<open>example/ping.py\<close> between two stacks, through the raw socket, the layers of both and the wire. This rests
  on the checksum and the messages of the example being those of the stack, shown in theory \<open>Ping\<close>.
\<close>

section \<open>The request on the wire\<close>

text \<open>A message that the application built itself gives the frame that the stack's builder would give.\<close>

lemma raw_icmp_frame:
  assumes "icmp_ok q" "icmp_len q \<le> 1480" "addr_ok src" "addr_ok dst" "0 \<le> i" "i < 65536" "mac_ok mac" "mac_ok (c_unicast_mac c)"
  shows "tx_frame_bytes (ip_frame c mac (dgram (PRaw (icmp_bytes q)) i 1 src dst)) =
    tx_frame_bytes (ip_frame c mac (dgram (PIcmp q) i 1 src dst))"
    "ether_ok (ip_frame c mac (dgram (PIcmp q) i 1 src dst))" "ip_ok (dgram (PIcmp q) i 1 src dst)"
proof -
  let ?r = "dgram (PRaw (icmp_bytes q)) i 1 src dst" and ?d = "dgram (PIcmp q) i 1 src dst"
  have ok: "ip_ok ?r" "ip_ok ?d"
    using assms by (auto intro!: dgram_ok simp: proto_consts)
  then show "ip_ok ?d" by simp
  have e: "ether_ok (ip_frame c mac ?r)" "ether_ok (ip_frame c mac ?d)"
    using assms by (auto intro!: ip_frame_ok ok simp: MTU_def)
  then show "ether_ok (ip_frame c mac ?d)" by simp
  have "ip_bytes ?r = ip_bytes ?d"
    by (simp add: ip_bytes_def ip_ph_def ip_hdr_bytes_def ip_pre_def ip_flags_word_def ip_ttl_of_def dgram_def)
  then show "tx_frame_bytes (ip_frame c mac ?r) = tx_frame_bytes (ip_frame c mac ?d)"
    unfolding tx_frame_bytes_eq [OF e(1)] tx_frame_bytes_eq [OF e(2)]
    by (simp add: ip_frame_def ether_fields_def ether_payload_bytes_def)
qed


section \<open>The reply\<close>

lemma echo_reply_delivered:
  assumes "ether_ok b" "eb_payload b = EtherIp d" "eb_type b = 0x0800" "deliverable c d" "c_rx_ip_enabled c"
    "ipb_protocol d = 1" "ipb_payload d = PIcmp q" "ib_type q = ECHO_REPLY" "ib_code q = 0" "tx_frame_bytes b = Inr f"
    "rip_sockets (c_rip c) (ipb_dst d, 1, ipb_src d) = Some ref"
  shows "handle_packet f c = get_data ref (icmp_bytes q) c"
proof -
  have ok: "ip_ok d" "icmp_ok q" using assms(1,2,4,7) by (simp_all add: ether_ok_def ip_ok_def)
  obtain h where h: "icmp_parse (icmp_bytes q) = Inr h" "ih_type h = ECHO_REPLY" "ih_code h = 0"
    using icmp_parse_bytes [OF ok(2)] assms(8,9) by auto
  note p = ip_parse_bytes [OF ok(1), of _ "[]", simplified, OF refl]
  have "handle_packet f c = rx_icmp (ip_bytes d) (icmp_bytes q) c"
    using handle_packet_next_layer [OF assms(1-5) _ assms(10), of rx_icmp] assms(6,7) by (simp add: ip_protocol_map_def)
  also have "\<dots> = h_icmp_echo_rep (ip_bytes d) (icmp_bytes q) c"
    using h(2,3) by (simp add: rx_icmp_def icmp_len_def h(1) icmp_verifies icmp_consts)
  finally show ?thesis using assms(6,11) by (simp add: h_icmp_echo_rep_def p)
qed

text \<open>The socket of the program is connected, with nothing queued, on a stack that is up; so is the peer.\<close>

definition ping_ready :: "ping \<Rightarrow> sock \<Rightarrow> core \<Rightarrow> bool" where
  "ping_ready p s c \<longleftrightarrow> c_socks c (pg_sock p) = Some s \<and> s_proto s = 1 \<and> s_queue s = [] \<and> s_remote_ip s \<noteq> 0 \<and>
     rip_sockets (c_rip c) (s_local_ip s, 1, s_remote_ip s) = Some (pg_sock p)"

definition host_up :: "int \<Rightarrow> core \<Rightarrow> bool" where
  "host_up ip c \<longleftrightarrow> c_unicast_ip c = Some ip \<and> c_rx_ip_enabled c \<and> addr_ok ip \<and> \<not> ip_is_broadcast ip \<and> \<not> ip_is_multicast ip \<and>
     mac_ok (c_unicast_mac c)"

lemma packet_data_len: "length PACKET_DATA = 32"
  by (simp add: PACKET_DATA_def)

lemma ping_send:
  assumes "ping_ready p s c" "ids_ok p sequence" "ip_route (s_remote_ip s) c = (Some mac, nh)"
  shows "ripsocket_send (pg_sock p) (icmp_bytes (echo_req p sequence PACKET_DATA)) c = Some (Inr (Some 40),
    c\<lparr>c_drawn := Suc (c_drawn c), c_tx_ring := c_tx_ring c @
      [ip_frame c mac (dgram (PRaw (icmp_bytes (echo_req p sequence PACKET_DATA))) (next_ident c) 1 (s_local_ip s) (s_remote_ip s))]\<rparr>)"
proof -
  have l: "length (icmp_bytes (echo_req p sequence PACKET_DATA)) = 40"
    by (simp add: icmp_len_def echo_req_def packet_data_len)
  show ?thesis
    using assms l
    by (simp add: ripsocket_send_def raw_send_def ping_ready_def get_sock_def tx_raw_def tx_ip_eq Let_def then_op_bind bind_op_def)
qed


lemma ping_recv:
  assumes "c_socks c (pg_sock p) = Some t" "s_queue t = [icmp_bytes ((echo_req p sequence PACKET_DATA)\<lparr>ib_type := ECHO_REPLY\<rparr>)]"
    "ids_ok p sequence"
  shows "bind_op (ripsocket_recv (pg_sock p) 128 True (\<lambda>_. c)) (\<lambda>raw_reply. bind_op (lift (parse_reply raw_reply))
      (\<lambda>info. ret (ping_judge p sequence info))) c0 =
    Some (Inr EchoReply, c\<lparr>c_socks := (c_socks c)(pg_sock p \<mapsto> t\<lparr>s_queue := []\<rparr>)\<rparr>)"
proof -
  let ?b = "icmp_bytes ((echo_req p sequence PACKET_DATA)\<lparr>ib_type := ECHO_REPLY\<rparr>)"
  have "length ?b = 40" by (simp add: icmp_len_def echo_req_def packet_data_len)
  then have u: "py_upto ?b 128 = ?b" by (simp add: py_upto_def py_index_def)
  obtain k where k: "parse_reply ?b = Inr (Some \<lparr>ri_type = 0, ri_code = 0, ri_checksum = k, ri_id = pg_icmp_id p,
      ri_seq = sequence, ri_payload = PACKET_DATA\<rparr>)"
    using parse_reply_bytes [OF assms(3)] by blast
  show ?thesis
    using assms(1,2) u k
    by (simp add: ripsocket_recv_def raw_recv_def dgram_recv_def get_sock_def upd_sock_def then_op_bind bind_op_def
        ping_judge_def)
qed

text \<open>C19. A round of the ping program between two stacks whose neighbours are resolved. The echo request that the program builds
  itself is sent in one frame; the peer takes it for a correct request and answers with one frame; and when that frame
  arrives, the reply reaches the program's socket, and the program recognises it as the reply to its request, with
  its identifier and sequence number, and counts it.\<close>

theorem ping_answered:
  assumes "ping_ready p s c" "ids_ok p sequence" "host_up (s_local_ip s) c" "host_up (s_remote_ip s) peer"
    "ip_route (s_remote_ip s) c = (Some mac, nh)" "mac_ok mac"
    "ip_route (s_local_ip s) peer = (Some mac2, nh2)" "mac_ok mac2"
  shows "\<exists>fr f1 c1 peer1 fr2 f2 c2 c3.
    ripsocket_send (pg_sock p) (icmp_bytes (echo_req p sequence PACKET_DATA)) c = Some (Inr (Some 40), c1) \<and>
    c_tx_ring c1 = c_tx_ring c @ [fr] \<and> tx_frame_bytes fr = Inr f1 \<and>
    handle_packet f1 peer = Some (Inr (), peer1) \<and> c_tx_ring peer1 = c_tx_ring peer @ [fr2] \<and> tx_frame_bytes fr2 = Inr f2 \<and>
    handle_packet f2 (c1\<lparr>c_socks := (c_socks c1)(pg_sock p \<mapsto> s\<lparr>s_timeout := Some 2\<rparr>)\<rparr>) = Some (Inr (), c2) \<and>
    SockCond (pg_sock p) \<in> set (c_notified c2) \<and> ping_round p sequence True (\<lambda>_. c2) c = Some (Inr EchoReply, c3)"
proof -
  let ?q = "echo_req p sequence PACKET_DATA" and ?A = "s_local_ip s" and ?B = "s_remote_ip s"
  let ?r = "?q\<lparr>ib_type := ECHO_REPLY\<rparr>"
  have q: "icmp_ok ?q" "icmp_ok ?r" "icmp_len ?q \<le> 1480" "icmp_len ?r \<le> 1480"
    using echo_req_ok [OF assms(2)] assms(2) by (auto simp: icmp_ok_def echo_req_def icmp_len_def packet_data_len ids_ok_def icmp_consts)
  have up: "addr_ok ?A" "addr_ok ?B" "c_unicast_ip c = Some ?A" "c_unicast_ip peer = Some ?B" "c_rx_ip_enabled c" "c_rx_ip_enabled peer"
    "\<not> ip_is_broadcast ?A" "\<not> ip_is_broadcast ?B" "\<not> ip_is_multicast ?A" "\<not> ip_is_multicast ?B"
    "mac_ok (c_unicast_mac c)" "mac_ok (c_unicast_mac peer)"
    using assms(3,4) by (simp_all add: host_up_def)
  let ?fr = "ip_frame c mac (dgram (PRaw (icmp_bytes ?q)) (next_ident c) 1 ?A ?B)"
  let ?c1 = "c\<lparr>c_drawn := Suc (c_drawn c), c_tx_ring := c_tx_ring c @ [?fr]\<rparr>"
  let ?d = "dgram (PIcmp ?q) (next_ident c) 1 ?A ?B" and ?d2 = "dgram (PIcmp ?r) (next_ident peer) 1 ?B ?A"
  note 1 = ping_send [OF assms(1,2,5)]
  note w = raw_icmp_frame [OF q(1,3) up(1,2) next_ident_range [of c] assms(6) up(11)]
  note w2 = raw_icmp_frame [OF q(2,4) up(2,1) next_ident_range [of peer] assms(8) up(12)]
  obtain f1 where f1: "tx_frame_bytes (ip_frame c mac ?d) = Inr f1" using tx_frame_bytes_eq [OF w(2)] by blast
  let ?fr2 = "ip_frame peer mac2 ?d2"
  let ?p1 = "peer\<lparr>c_drawn := Suc (c_drawn peer), c_tx_ring := c_tx_ring peer @ [?fr2]\<rparr>"
  have d: "deliverable peer ?d" using w(3) up by (simp add: deliverable_def dgram_def ip_ttl_of_def)
  have 2: "handle_packet f1 peer = Some (Inr (), ?p1)"
    using echo_reply [OF w(2) _ _ d up(6) _ _ _ _ _ f1, of ?q mac2 nh2] assms(7)
    by (simp add: ip_frame_def echo_req_def icmp_consts)
  obtain f2 where f2: "tx_frame_bytes ?fr2 = Inr f2" using tx_frame_bytes_eq [OF w2(2)] by blast
  let ?t = "s\<lparr>s_timeout := Some 2\<rparr>"
  let ?c1t = "?c1\<lparr>c_socks := (c_socks ?c1)(pg_sock p \<mapsto> ?t)\<rparr>"
  let ?c2 = "?c1t\<lparr>c_socks := (c_socks ?c1)(pg_sock p \<mapsto> ?t\<lparr>s_queue := [icmp_bytes ?r]\<rparr>),
    c_notified := c_notified c @ [SockCond (pg_sock p)]\<rparr>"
  have d2: "deliverable ?c1t ?d2" using w2(3) up by (simp add: deliverable_def dgram_def ip_ttl_of_def)
  have s: "c_socks c (pg_sock p) = Some s" "s_queue s = []" "rip_sockets (c_rip c) (?A, 1, ?B) = Some (pg_sock p)"
    using assms(1) by (simp_all add: ping_ready_def)
  have 3: "handle_packet f2 ?c1t = Some (Inr (), ?c2)"
    using echo_reply_delivered [OF w2(2) _ _ d2 _ _ _ _ _ f2, of ?r "pg_sock p"] s up(5)
    by (simp add: ip_frame_def echo_req_def icmp_consts get_data_def core_notify_def then_op_bind bind_op_def)
  have "ping_round p sequence True (\<lambda>_. ?c2) c =
      Some (Inr EchoReply, ?c2\<lparr>c_socks := (c_socks ?c2)(pg_sock p \<mapsto> ?t\<lparr>s_queue := []\<rparr>)\<rparr>)"
    using 1 assms(2) s(1) ping_recv [of ?c2 p "?t\<lparr>s_queue := [icmp_bytes ?r]\<rparr>" sequence ?c1t]
    by (simp add: ping_round_def build_echo_req_bytes catch_timeout_def settimeout_def upd_sock_def then_op_bind bind_op_def)
  then show ?thesis using 1 2 3 f1 f2 w(1) by fastforce
qed


text \<open>The example core pings the example neighbour.\<close>

definition pinging :: core where
  "pinging = (arp_example 0xC0A80205)\<lparr>c_socks := [0 \<mapsto> (sock_init RIPSocket 1)\<lparr>s_local_ip := 0xC0A802C8, s_remote_ip := 0xC0A80205\<rparr>],
     c_rip := \<lparr>rip_sockets = [(0xC0A802C8, 1, 0xC0A80205) \<mapsto> 0]\<rparr>\<rparr>"

theorem ping_answered_witness:
  "\<exists>c2 c3. ping_round \<lparr>pg_sock = 0, pg_icmp_id = 7\<rparr> 5 True (\<lambda>_. c2) pinging = Some (Inr EchoReply, c3)"
proof -
  let ?p = "\<lparr>pg_sock = 0, pg_icmp_id = 7\<rparr>" and ?s = "(sock_init RIPSocket 1)\<lparr>s_local_ip := 0xC0A802C8, s_remote_ip := 0xC0A80205\<rparr>"
  let ?peer = "(arp_example 0xC0A802C8)\<lparr>c_unicast_ip := Some 0xC0A80205\<rparr>"
  have r: "ping_ready ?p ?s pinging" "ids_ok ?p 5"
    by (simp_all add: ping_ready_def pinging_def sock_init_def ids_ok_def)
  have up: "host_up (s_local_ip ?s) pinging" "host_up (s_remote_ip ?s) ?peer" "mac_ok 0x020000000005"
    by (simp_all add: host_up_def pinging_def arp_example_def core_example_def addr_ok_def ip_is_broadcast_def ip_is_multicast_def mac_ok_def)
  have "ip_route (s_remote_ip ?s) pinging = (Some 0x020000000005, 0xC0A80205)"
    "ip_route (s_local_ip ?s) ?peer = (Some 0x020000000005, 0xC0A802C8)"
    by (simp_all add: pinging_def arp_example_def core_example_def route_eval)
  from ping_answered [OF r up(1,2) this(1) up(3) this(2) up(3)] show ?thesis by blast
qed

text \<open>
  \<^verbatim>\<open>raw_recv\<close> and \<^verbatim>\<open>udp_recv\<close> wait without looking into the queue. A reply that arrives before the call is not
  returned by it: the call times out, and the next notification delivers the old reply.
\<close>

lemma queued_datagram_times_out:
  assumes "c_socks c (pg_sock p) = Some s" "s_queue s = packet # q"
  shows "ripsocket_recv (pg_sock p) n False (\<lambda>c. c) c = Some (Inl (SocketError ETIMEDOUT),
    c\<lparr>c_so_error := (c_so_error c)(pg_sock p := ETIMEDOUT)\<rparr>)"
  using assms
  by (simp add: ripsocket_recv_def raw_recv_def dgram_recv_def fail_def set_error_def raise_exception_def then_op_bind bind_op_def)

end
