(* ===== verification/Resolver.thy ===== *)
theory Resolver
  imports Core_Paths Sock_Calls
begin

text \<open>
  The program \<^verbatim>\<open>example/resolver.py\<close>, a DNS client: its query, its parser of the answer, and the lookup over a UDP socket.
  The parser is compared with answers in the format of RFC 1035.
\<close>

section \<open>The query\<close>

text \<open>\<^verbatim>\<open>domain.encode('utf-8').split(b'.')\<close>, for the encoded domain.\<close>

fun split_labels :: "bytes \<Rightarrow> bytes list" where
  "split_labels [] = [[]]"
| "split_labels (x # xs) =
     (if x = 0x2E then [] # split_labels xs
      else case split_labels xs of [] \<Rightarrow> [[x]] | w # ws \<Rightarrow> (x # w) # ws)"

text \<open>\<^verbatim>\<open>bytes([len(part)])\<close> raises \<^verbatim>\<open>ValueError\<close> for a length above 255.\<close>

fun qname_of :: "bytes list \<Rightarrow> bytes result" where
  "qname_of [] = Inr [0]"
| "qname_of (part # parts) =
     (if 255 < length part then Inl ValueError
      else bind_r (qname_of parts) (\<lambda>rest. Inr (word_of_nat (length part) # part @ rest)))"

definition build_query :: "bytes \<Rightarrow> bytes result" where
  "build_query domain =
     bind_r (pack_fields [(2, 0x1234), (2, 0x0100), (2, 1), (2, 0), (2, 0), (2, 0)]) (\<lambda>header.
     bind_r (qname_of (split_labels domain)) (\<lambda>qname.
     bind_r (pack_fields [(2, 1), (2, 1)]) (\<lambda>question. Inr (header @ qname @ question))))"

section \<open>The answer\<close>

text \<open>\<^verbatim>\<open>while response[pos] != 0: pos += response[pos] + 1\<close>\<close>

function skip_name :: "bytes \<Rightarrow> nat \<Rightarrow> nat result" where
  "skip_name response pos =
     (if pos < length response then
        if response ! pos \<noteq> 0 then skip_name response (pos + (unat (response ! pos) + 1)) else Inr pos
      else Inl IndexError)"
  by pat_completeness auto
termination by (relation "measure (\<lambda>(response, pos). length response - pos)") auto

declare skip_name.simps [simp del]

fun skip_questions :: "nat \<Rightarrow> bytes \<Rightarrow> nat \<Rightarrow> nat result" where
  "skip_questions 0 response pos = Inr pos"
| "skip_questions (Suc qdcount) response pos =
     bind_r (skip_name response pos) (\<lambda>p. skip_questions qdcount response (p + 5))"

text \<open>\<^verbatim>\<open>socket.inet_ntoa\<close> of Python's own \<^verbatim>\<open>socket\<close> module.\<close>

definition inet_ntoa :: "bytes \<Rightarrow> string result" where
  "inet_ntoa b = (if length b = 4 then Inr (dotted (int (be_val b))) else Inl OSError)"

text \<open>The name of an answer: a pointer of two bytes, or labels up to a zero.\<close>

definition skip_owner :: "bytes \<Rightarrow> nat \<Rightarrow> nat result" where
  "skip_owner response pos =
     bind_r (byte_at response pos) (\<lambda>b.
       if b AND 0xC0 = 0xC0 then Inr (pos + 2)
       else bind_r (skip_name response pos) (\<lambda>p. Inr (p + 1)))"

fun parse_answers :: "nat \<Rightarrow> bytes \<Rightarrow> nat \<Rightarrow> string list \<Rightarrow> string list result" where
  "parse_answers 0 response pos ip_addresses = Inr ip_addresses"
| "parse_answers (Suc ancount) response pos ip_addresses =
     bind_r (skip_owner response pos) (\<lambda>pos1.
       let rr = slice response pos1 (pos1 + 10)
       in bind_r (unpack_be 2 rr 0) (\<lambda>ty.
          bind_r (unpack_be 2 rr 2) (\<lambda>cls.
          bind_r (unpack_be 4 rr 4) (\<lambda>ttl.
          bind_r (unpack_be 2 rr 8) (\<lambda>rdlength.
          bind_r (if ty = 1 \<and> cls = 1 \<and> rdlength = 4
                  then bind_r (inet_ntoa (slice response (pos1 + 10) (pos1 + 14))) (\<lambda>ip. Inr (ip_addresses @ [ip]))
                  else Inr ip_addresses) (\<lambda>ips.
            parse_answers ancount response (pos1 + 10 + nat rdlength) ips))))))"

definition parse_query :: "bytes \<Rightarrow> string list result" where
  "parse_query response =
     (let header = take 12 response
      in bind_r (unpack_be 2 header 10) (\<lambda>arcount.
         bind_r (unpack_be 2 header 4) (\<lambda>qdcount.
         bind_r (unpack_be 2 header 6) (\<lambda>ancount.
         bind_r (skip_questions (nat qdcount) response 12) (\<lambda>pos.
           parse_answers (nat ancount) response pos [])))))"

section \<open>The lookup\<close>

text \<open>\<open>pick\<close>: the ephemeral port; \<open>got\<close> and \<open>meanwhile\<close>: the wait of \<^verbatim>\<open>recv\<close>.\<close>

definition dns_lookup :: "(int set \<Rightarrow> int) \<Rightarrow> bytes \<Rightarrow> bool \<Rightarrow> (core \<Rightarrow> core) \<Rightarrow> string list op" where
  "dns_lookup pick domain got meanwhile =
     bind_op (lift (build_query domain)) (\<lambda>query.
     bind_op (py_socket AF_INET SOCK_DGRAM 0) (\<lambda>so. case so of
       None \<Rightarrow> raise AttributeError
     | Some ref \<Rightarrow>
         then_op (udpsocket_connect pick ref (''192.168.2.1'', 53))
        (then_op (settimeout ref (Some 5))
        (bind_op (udpsocket_send ref query) (\<lambda>_.
         bind_op (udpsocket_recv ref 512 got meanwhile) (\<lambda>response.
         bind_op (lift (parse_query response)) (\<lambda>ips.
         then_op (udpsocket_close ref) (ret ips))))))))"

section \<open>Names\<close>

text \<open>The labels of a name in the format of RFC 1035: at least one, of 1 to 255 bytes.\<close>

definition labels_ok :: "bytes list \<Rightarrow> bool" where
  "labels_ok parts \<longleftrightarrow> (\<forall>part\<in>set parts. part \<noteq> [] \<and> length part \<le> 255)"

fun name_bytes :: "bytes list \<Rightarrow> bytes" where
  "name_bytes [] = [0]"
| "name_bytes (part # parts) = word_of_nat (length part) # part @ name_bytes parts"

lemma qname_of_ok: "labels_ok parts \<Longrightarrow> qname_of parts = Inr (name_bytes parts)"
  by (induction parts) (auto simp: labels_ok_def)

lemma skip_name_bytes:
  "labels_ok parts \<Longrightarrow> skip_name (pre @ name_bytes parts @ zs) (length pre) = Inr (length pre + length (name_bytes parts) - 1)"
proof (induction parts arbitrary: pre)
  case Nil
  then show ?case by (simp add: skip_name.simps)
next
  case (Cons part parts)
  have p: "part \<noteq> []" "length part \<le> 255" and ok: "labels_ok parts" using Cons.prems by (auto simp: labels_ok_def)
  have u: "unat (word_of_nat (length part) :: byte) = length part" using p(2) by (simp add: unat_of_nat take_bit_eq_mod)
  have "(word_of_nat (length part) :: byte) \<noteq> 0" using p(1) u by auto
  moreover let ?pre = "pre @ word_of_nat (length part) # part"
  have "pre @ name_bytes (part # parts) @ zs = ?pre @ name_bytes parts @ zs" by simp
  moreover have "length ?pre = length pre + (length part + 1)" by simp
  ultimately have "skip_name (pre @ name_bytes (part # parts) @ zs) (length pre) = skip_name (?pre @ name_bytes parts @ zs) (length ?pre)"
    by (subst skip_name.simps) (simp add: nth_append u)
  moreover have "name_bytes parts \<noteq> []" by (cases parts) simp_all
  then have "0 < length (name_bytes parts)" by simp
  ultimately show ?case using Cons.IH [OF ok, of ?pre] by simp
qed


section \<open>Answers in the format of RFC 1035\<close>

text \<open>The name of a resource record: a pointer, or all its labels. A name may also be labels followed by a pointer.\<close>

datatype owner = Pointer nat | Labels "bytes list"

record dns_rr =
  rr_owner :: owner
  rr_type :: int
  rr_class :: int
  rr_ttl :: int
  rr_data :: bytes

fun owner_bytes :: "owner \<Rightarrow> bytes" where
  "owner_bytes (Pointer n) = be_bytes 2 (0xC000 + int n)"
| "owner_bytes (Labels parts) = name_bytes parts"

fun owner_ok :: "owner \<Rightarrow> bool" where
  "owner_ok (Pointer n) \<longleftrightarrow> n < 0x4000"
| "owner_ok (Labels parts) \<longleftrightarrow> labels_ok parts \<and> (\<forall>part\<in>set parts. length part \<le> 63)"

definition rr_bytes :: "dns_rr \<Rightarrow> bytes" where
  "rr_bytes r = owner_bytes (rr_owner r) @
     enc [(2, rr_type r), (2, rr_class r), (4, rr_ttl r), (2, int (length (rr_data r)))] @ rr_data r"

definition rr_ok :: "dns_rr \<Rightarrow> bool" where
  "rr_ok r \<longleftrightarrow> owner_ok (rr_owner r) \<and> 0 \<le> rr_type r \<and> rr_type r < 65536 \<and> 0 \<le> rr_class r \<and> rr_class r < 65536 \<and>
     0 \<le> rr_ttl r \<and> rr_ttl r < 4294967296 \<and> length (rr_data r) < 65536"

definition is_a_record :: "dns_rr \<Rightarrow> bool" where
  "is_a_record r \<longleftrightarrow> rr_type r = 1 \<and> rr_class r = 1 \<and> length (rr_data r) = 4"

lemma byte_at_mid: "byte_at (pre @ b # zs) (length pre) = Inr (uint b)"
  by (simp add: byte_at_def)

lemma uint_byte: "0 \<le> v \<Longrightarrow> v < 256 \<Longrightarrow> uint (word_of_int v :: byte) = v"
  by (simp add: uint_word_of_int)

lemma word_and_mask:
  "0 \<le> v \<Longrightarrow> v < 256 \<Longrightarrow> (v::int) AND 0xC0 = 0xC0 \<longleftrightarrow> 0xC0 \<le> v"
proof -
  assume v: "0 \<le> v" "v < 256"
  have "\<forall>v\<in>{0..<256::int}. (v AND 0xC0 = 0xC0) = (0xC0 \<le> v)" by code_simp
  then show ?thesis using v by simp
qed

lemma skip_owner_bytes:
  assumes "owner_ok own"
  shows "skip_owner (pre @ owner_bytes own @ zs) (length pre) = Inr (length pre + length (owner_bytes own))"
proof (cases own)
  case (Pointer n)
  then have n: "n < 0x4000" using assms by simp
  have d: "(0xC000 + int n) div 256 = 0xC0 + int n div 256" by simp
  have q: "0 \<le> int n div 256" "int n div 256 < 64" using n by auto
  have u: "uint (word_of_int ((0xC000 + int n) div 256) :: byte) = 0xC0 + int n div 256"
    unfolding d by (rule uint_byte) (use q in simp_all)
  have b: "owner_bytes own = [word_of_int ((0xC000 + int n) div 256), word_of_int (0xC000 + int n)]"
    using Pointer by (simp add: be_bytes_2 be16_def)
  have "(0xC0 + int n div 256) AND 0xC0 = 0xC0" using word_and_mask [of "0xC0 + int n div 256"] q by simp
  then show ?thesis unfolding skip_owner_def b by (simp add: byte_at_mid u)
next
  case (Labels parts)
  then have ok: "labels_ok parts" "\<forall>part\<in>set parts. length part \<le> 63" using assms by auto
  have ne: "name_bytes parts \<noteq> []" by (cases parts) simp_all
  obtain b bs where nb: "name_bytes parts = b # bs" using ne by (cases "name_bytes parts") auto
  have "unat b \<le> 63"
  proof (cases parts)
    case (Cons part ps)
    then have "length part \<le> 63" "b = word_of_nat (length part)" using ok nb by auto
    then show ?thesis by (simp add: unat_of_nat take_bit_eq_mod)
  qed (use nb in simp)
  moreover have "uint b = int (unat b)" by (metis int_nat_eq uint_ge_0 unat_eq_nat_uint)
  ultimately have v: "0 \<le> uint b" "uint b < 256" "\<not> 0xC0 \<le> uint b" by linarith+
  have "uint b AND 0xC0 \<noteq> 0xC0" using word_and_mask [OF v(1,2)] v(3) by blast
  then have "skip_owner (pre @ name_bytes parts @ zs) (length pre) =
      bind_r (skip_name (pre @ name_bytes parts @ zs) (length pre)) (\<lambda>p. Inr (p + 1))"
    using byte_at_mid [of pre b "bs @ zs"] by (simp add: skip_owner_def nb)
  then show ?thesis using skip_name_bytes [OF ok(1), of pre zs] Labels nb by simp
qed


lemma rr_fields:
  assumes "rr_ok r"
  defines "rr \<equiv> enc [(2, rr_type r), (2, rr_class r), (4, rr_ttl r), (2, int (length (rr_data r)))]"
  shows "unpack_be 2 rr 0 = Inr (rr_type r)" "unpack_be 2 rr 2 = Inr (rr_class r)" "unpack_be 4 rr 4 = Inr (rr_ttl r)"
    "unpack_be 2 rr 8 = Inr (int (length (rr_data r)))"
proof -
  let ?fs = "[(2, rr_type r), (2, rr_class r), (4, rr_ttl r), (2, int (length (rr_data r)))] :: (nat \<times> int) list"
  have f: "unpack_be k rr off = Inr v" if "i < 4" "?fs ! i = (k, v)" "field_ok (k, v)" "off = sum_list (map fst (take i ?fs))" for i k v off
    using read_field [of i ?fs k v off "[]"] that unfolding rr_def by (simp del: enc_simps)
  show "unpack_be 2 rr 0 = Inr (rr_type r)" by (rule f [of 0]) (use assms(1) in \<open>simp_all add: rr_ok_def\<close>)
  show "unpack_be 2 rr 2 = Inr (rr_class r)" by (rule f [of 1]) (use assms(1) in \<open>simp_all add: rr_ok_def\<close>)
  show "unpack_be 4 rr 4 = Inr (rr_ttl r)" by (rule f [of 2]) (use assms(1) in \<open>simp_all add: rr_ok_def\<close>)
  show "unpack_be 2 rr 8 = Inr (int (length (rr_data r)))" by (rule f [of 3]) (use assms(1) in \<open>simp_all add: rr_ok_def\<close>)
qed

lemma parse_answers_bytes:
  "\<forall>r\<in>set rs. rr_ok r \<Longrightarrow> parse_answers (length rs) (pre @ concat (map rr_bytes rs) @ zs) (length pre) ips =
    Inr (ips @ map (\<lambda>r. dotted (int (be_val (rr_data r)))) (filter is_a_record rs))"
proof (induction rs arbitrary: pre ips)
  case Nil
  then show ?case by simp
next
  case (Cons r rs)
  then have ok: "rr_ok r" and oks: "\<forall>r\<in>set rs. rr_ok r" by simp_all
  let ?own = "owner_bytes (rr_owner r)" and ?rest = "concat (map rr_bytes rs) @ zs"
  let ?rr = "enc [(2, rr_type r), (2, rr_class r), (4, rr_ttl r), (2, int (length (rr_data r)))]"
  let ?all = "pre @ concat (map rr_bytes (r # rs)) @ zs" and ?p1 = "length pre + length ?own"
  let ?pre = "pre @ rr_bytes r"
  have all: "?all = pre @ ?own @ ?rr @ rr_data r @ ?rest" by (simp add: rr_bytes_def)
  have own: "skip_owner ?all (length pre) = Inr ?p1"
    unfolding all using ok by (intro skip_owner_bytes) (simp add: rr_ok_def)
  have l: "length ?rr = 10" by simp
  have rr: "slice ?all ?p1 (?p1 + 10) = ?rr"
    unfolding all slice_def using l by (simp del: enc_simps)
  have data: "slice ?all (?p1 + 10) (?p1 + 14) = take 4 (rr_data r @ ?rest)"
    unfolding all slice_def using l by (simp del: enc_simps)
  have pos: "?p1 + 10 + nat (int (length (rr_data r))) = length ?pre" by (simp add: rr_bytes_def)
  have all2: "?all = ?pre @ concat (map rr_bytes rs) @ zs" by simp
  obtain xs where xs: "xs = ?all" by blast
  have "parse_answers (Suc (length rs)) xs (length pre) ips =
      parse_answers (length rs) xs (length ?pre) (ips @ (if is_a_record r then [dotted (int (be_val (rr_data r)))] else []))"
    unfolding parse_answers.simps own [folded xs] bind_r_simps Let_def rr [folded xs] rr_fields [OF ok] data [folded xs] pos
    by (simp add: is_a_record_def inet_ntoa_def)
  then show ?case using Cons.IH [OF oks, of ?pre] unfolding xs all2 by simp
qed

text \<open>A question: a name, a type and a class.\<close>

definition question_bytes :: "bytes list \<times> int \<times> int \<Rightarrow> bytes" where
  "question_bytes q = (case q of (parts, ty, cls) \<Rightarrow> name_bytes parts @ enc [(2, ty), (2, cls)])"

lemma skip_questions_bytes:
  "\<forall>q\<in>set qs. labels_ok (fst q) \<Longrightarrow> skip_questions (length qs) (pre @ concat (map question_bytes qs) @ zs) (length pre) =
    Inr (length pre + length (concat (map question_bytes qs)))"
proof (induction qs arbitrary: pre)
  case Nil
  then show ?case by simp
next
  case (Cons q qs)
  obtain parts ty cls where q: "q = (parts, ty, cls)" by (cases q) auto
  have ok: "labels_ok parts" "\<forall>q\<in>set qs. labels_ok (fst q)" using Cons.prems q by simp_all
  have ne: "0 < length (name_bytes parts)" by (cases parts) simp_all
  let ?pre = "pre @ question_bytes q"
  have "skip_name (pre @ concat (map question_bytes (q # qs)) @ zs) (length pre) = Inr (length pre + length (name_bytes parts) - 1)"
    using skip_name_bytes [OF ok(1), of pre "enc [(2, ty), (2, cls)] @ concat (map question_bytes qs) @ zs"]
    by (simp add: question_bytes_def q)
  moreover have "length pre + length (name_bytes parts) - 1 + 5 = length ?pre" using ne by (simp add: question_bytes_def q)
  ultimately show ?case using Cons.IH [OF ok(2), of ?pre] by simp
qed


lemma build_query_bytes:
  assumes "labels_ok (split_labels domain)"
  shows "build_query domain = Inr (enc [(2, 0x1234), (2, 0x0100), (2, 1), (2, 0), (2, 0), (2, 0)] @
    question_bytes (split_labels domain, 1, 1))"
  using qname_of_ok [OF assms]
  by (simp add: build_query_def pack_fields_ok question_bytes_def del: pack_fields.simps)

lemma header_counts:
  fixes i flags ns :: int
  assumes "0 \<le> qd" "qd < 65536" "0 \<le> an" "an < 65536" "0 \<le> ar" "ar < 65536"
  defines "h \<equiv> enc [(2, i), (2, flags), (2, qd), (2, an), (2, ns), (2, ar)]"
  shows "unpack_be 2 h 4 = Inr qd" "unpack_be 2 h 6 = Inr an" "unpack_be 2 h 10 = Inr ar" "length h = 12"
proof -
  let ?fs = "[(2, i), (2, flags), (2, qd), (2, an), (2, ns), (2, ar)] :: (nat \<times> int) list"
  have f: "unpack_be 2 h off = Inr v" if "k < 6" "?fs ! k = (2, v)" "field_ok (2, v)" "off = sum_list (map fst (take k ?fs))" for k v off
    using read_field [of k ?fs 2 v off "[]"] that unfolding h_def by (simp del: enc_simps)
  show "unpack_be 2 h 4 = Inr qd" by (rule f [of 2]) (use assms in simp_all)
  show "unpack_be 2 h 6 = Inr an" by (rule f [of 3]) (use assms in simp_all)
  show "unpack_be 2 h 10 = Inr ar" by (rule f [of 5]) (use assms in simp_all)
  show "length h = 12" by (simp add: h_def)
qed

section \<open>The lookup reads the addresses of the answer\<close>

text \<open>C21. The resolver reads the answer to its query. For a name with labels of 1 to 255 bytes the query is built; and if a
  server answers with the question of the query and any resource records in the format of RFC 1035, whose names are
  pointers or are written out, then the parser returns the addresses of the A records, all of them and in order, and skips
  the others, whatever follows them.\<close>

theorem dns_answer_parsed:
  assumes "labels_ok (split_labels domain)" "\<forall>r\<in>set rs. rr_ok r" "length rs < 65536" "0 \<le> ar" "ar < 65536"
  shows "\<exists>query. build_query domain = Inr query \<and>
    parse_query (enc [(2, 0x1234), (2, flags), (2, 1), (2, int (length rs)), (2, ns), (2, ar)] @ drop 12 query @
        concat (map rr_bytes rs) @ extra) =
      Inr (map (\<lambda>r. dotted (int (be_val (rr_data r)))) (filter is_a_record rs))"
proof -
  let ?h = "enc [(2, 0x1234), (2, flags), (2, 1), (2, int (length rs)), (2, ns), (2, ar)]"
  let ?q = "question_bytes (split_labels domain, 1, 1)"
  let ?qs = "[(split_labels domain, 1, 1)]"
  obtain query where q: "build_query domain = Inr query" "drop 12 query = ?q" using build_query_bytes [OF assms(1)] by simp
  obtain h where h: "h = ?h" by blast
  note c = header_counts [where qd = 1 and an = "int (length rs)" and ar = ar and i = "0x1234" and flags = flags and ns = ns, folded h]
  have c': "unpack_be 2 h 4 = Inr 1" "unpack_be 2 h 6 = Inr (int (length rs))" "unpack_be 2 h 10 = Inr ar" "length h = 12"
    using c assms(3-5) by simp_all
  let ?z = "concat (map rr_bytes rs) @ extra"
  have s: "skip_questions 1 (h @ ?q @ ?z) 12 = Inr (12 + length ?q)"
    using skip_questions_bytes [of ?qs h ?z] assms(1) c'(4) by simp
  have a: "parse_answers (length rs) (h @ ?q @ ?z) (12 + length ?q) [] =
      Inr (map (\<lambda>r. dotted (int (be_val (rr_data r)))) (filter is_a_record rs))"
    using parse_answers_bytes [OF assms(2), of "h @ ?q" extra "[]"] c'(4) by simp
  have t: "take 12 (h @ ?q @ ?z) = h" using c'(4) by simp
  have "nat (int (length rs)) = length rs" "nat 1 = 1" by simp_all
  then have "parse_query (h @ ?q @ ?z) = Inr (map (\<lambda>r. dotted (int (be_val (rr_data r)))) (filter is_a_record rs))"
    unfolding parse_query_def Let_def t c'(1-3) bind_r_simps by (simp only: s a bind_r_simps)
  then show ?thesis using q h by auto
qed

theorem dns_answer_parsed_witness:
  "\<exists>query. build_query [0x61, 0x62, 0x2E, 0x63] = Inr query \<and>
     parse_query (enc [(2, 0x1234), (2, 0x8180), (2, 1), (2, 2), (2, 0), (2, 0)] @ drop 12 query @
       [0xC0, 12, 0, 5, 0, 1, 0, 0, 0, 60, 0, 3, 1, 0x64, 0] @ [0xC0, 12, 0, 1, 0, 1, 0, 0, 0, 60, 0, 4, 10, 0, 0, 7]) =
     Inr [dotted 0x0A000007]"
proof -
  let ?rs = "[\<lparr>rr_owner = Pointer 12, rr_type = 5, rr_class = 1, rr_ttl = 60, rr_data = [1, 0x64, 0]\<rparr>,
    \<lparr>rr_owner = Pointer 12, rr_type = 1, rr_class = 1, rr_ttl = 60, rr_data = [10, 0, 0, 7]\<rparr>]"
  have l: "labels_ok (split_labels [0x61, 0x62, 0x2E, 0x63])" by (simp add: labels_ok_def)
  have r: "\<forall>r\<in>set ?rs. rr_ok r" by (simp add: rr_ok_def)
  have b: "concat (map rr_bytes ?rs) @ [] =
      [0xC0, 12, 0, 5, 0, 1, 0, 0, 0, 60, 0, 3, 1, 0x64, 0] @ [0xC0, 12, 0, 1, 0, 1, 0, 0, 0, 60, 0, 4, 10, 0, 0, 7]"
    by code_simp
  have v: "map (\<lambda>r. dotted (int (be_val (rr_data r)))) (filter is_a_record ?rs) = [dotted 0x0A000007]"
    by (simp add: is_a_record_def be_val_def)
  from dns_answer_parsed [OF l r, of 0 "0x8180" 0 "[]"] show ?thesis unfolding b v by simp
qed

text \<open>
  RFC 1035, 4.1.4 also allows a name that is labels followed by a pointer. The parser takes such a pointer for the length of
  a label and runs out of the message.
\<close>

lemma compressed_suffix_raises:
  "parse_query (enc [(2, 0x1234), (2, 0x8180), (2, 0), (2, 1), (2, 0), (2, 0)] @
     [1, 0x61, 0xC0, 12] @ [0, 1, 0, 1, 0, 0, 0, 60, 0, 4, 10, 0, 0, 7]) = Inl IndexError"
  by code_simp

end
