(* ===== verification/Tracker.thy ===== *)
theory Tracker
  imports Inet Complex_Main
begin

text \<open>
  The serial numbers of \<^verbatim>\<open>lib/tracker.py\<close>, which the log uses to follow a packet through the stack: one counter for frames
  received and one for frames sent, both of 16 bits, as attributes of the class.
\<close>

section \<open>Definitions\<close>

record tracker_class =
  serial_rx :: nat
  serial_tx :: nat

text \<open>The serial is missing when the constructor is called with another prefix and without a serial.\<close>

datatype tracker = Tracker (echo_tracker: "tracker option") (tk_timestamp: rat) (tk_serial: "string option")

definition hex_upper :: "nat \<Rightarrow> char" where
  "hex_upper d = ''0123456789ABCDEF'' ! (d mod 16)"

text \<open>\<^verbatim>\<open>f'{n:0>4x}'.upper()\<close> for a number below 65536.\<close>

definition hex4 :: "nat \<Rightarrow> string" where
  "hex4 n = map hex_upper [n div 4096, n div 256, n div 16, n]"

text \<open>For both prefixes the number printed is \<^verbatim>\<open>self.serial_rx\<close>.\<close>

definition tracker_init :: "string \<Rightarrow> tracker option \<Rightarrow> string option \<Rightarrow> rat \<Rightarrow> tracker_class \<Rightarrow> tracker \<times> tracker_class" where
  "tracker_init prefix echo ser now cls =
     (if ser \<noteq> None \<and> ser \<noteq> Some [] then (Tracker echo now ser, cls)
      else if prefix = ''rx'' then
        (Tracker echo now (Some (''RX'' @ hex4 (serial_rx cls))), cls\<lparr>serial_rx := (serial_rx cls + 1) AND 0xFFFF\<rparr>)
      else if prefix = ''tx'' then
        (Tracker echo now (Some (''TX'' @ hex4 (serial_rx cls))), cls\<lparr>serial_tx := (serial_tx cls + 1) AND 0xFFFF\<rparr>)
      else (Tracker echo now None, cls))"

text \<open>\<^verbatim>\<open>__str__\<close>\<close>

fun tracker_str :: "tracker \<Rightarrow> string result" where
  "tracker_str (Tracker echo t ser) =
     (case ser of
        None \<Rightarrow> Inl AttributeError
      | Some s \<Rightarrow>
          (case echo of
             None \<Rightarrow> Inr s
           | Some e \<Rightarrow> (case tracker_str e of Inl x \<Rightarrow> Inl x | Inr es \<Rightarrow> Inr (s @ '' -> '' @ es))))"

text \<open>The milliseconds that \<^verbatim>\<open>latency\<close> prints.\<close>

definition tracker_latency :: "tracker \<Rightarrow> rat \<Rightarrow> rat option" where
  "tracker_latency tk now = map_option (\<lambda>e. (now - tk_timestamp e) * 1000) (echo_tracker tk)"

section \<open>Serial numbers\<close>

lemma hex_upper_inj: "hex_upper a = hex_upper b \<Longrightarrow> a mod 16 = b mod 16"
proof -
  have d: "distinct ''0123456789ABCDEF''" by simp
  have "a mod 16 < length ''0123456789ABCDEF''" "b mod 16 < length ''0123456789ABCDEF''" by simp_all
  then show "hex_upper a = hex_upper b \<Longrightarrow> ?thesis" using nth_eq_iff_index_eq [OF d] unfolding hex_upper_def by blast
qed

lemma mod_add_left_cancel_int: "(s + i) mod 65536 = (s + j) mod 65536 \<Longrightarrow> i mod 65536 = j mod (65536::int)"
  by (simp add: mod_eq_dvd_iff)

lemma hex4_inj: "a < 65536 \<Longrightarrow> b < 65536 \<Longrightarrow> hex4 a = hex4 b \<Longrightarrow> a = b"
proof -
  assume ab: "a < 65536" "b < 65536" and "hex4 a = hex4 b"
  then have d: "a mod 16 = b mod 16" "a div 16 mod 16 = b div 16 mod 16" "a div 256 mod 16 = b div 256 mod 16"
    "a div 4096 mod 16 = b div 4096 mod 16"
    by (auto simp: hex4_def dest: hex_upper_inj)
  have s: "n = n mod 16 + 16 * (n div 16 mod 16) + 256 * (n div 256 mod 16) + 4096 * (n div 4096 mod 16)" if "n < 65536" for n :: nat
  proof -
    have "n div 4096 < 16" using that by (simp add: div_less_iff_less_mult)
    then have "n div 4096 mod 16 = n div 4096" by simp
    moreover have "n div 256 = 16 * (n div 4096) + n div 256 mod 16"
      using mult_div_mod_eq [of 16 "n div 256"] by (simp add: div_mult2_eq [symmetric])
    moreover have "n div 16 = 16 * (n div 256) + n div 16 mod 16"
      using mult_div_mod_eq [of 16 "n div 16"] by (simp add: div_mult2_eq [symmetric])
    moreover have "n = 16 * (n div 16) + n mod 16" by simp
    ultimately show ?thesis by linarith
  qed
  show "a = b" using s [OF ab(1)] s [OF ab(2)] d by argo
qed

text \<open>The class after \<open>n\<close> frames have been received, and their serials.\<close>

fun rx_trackers :: "nat \<Rightarrow> tracker_class \<Rightarrow> string list \<times> tracker_class" where
  "rx_trackers 0 cls = ([], cls)"
| "rx_trackers (Suc n) cls =
     (let (tk, cls1) = tracker_init ''rx'' None None 0 cls; (sers, cls2) = rx_trackers n cls1
      in (the (tk_serial tk) # sers, cls2))"

lemma rx_trackers_eq:
  "serial_rx cls < 65536 \<Longrightarrow> fst (rx_trackers n cls) = map (\<lambda>i. ''RX'' @ hex4 ((serial_rx cls + i) mod 65536)) [0..<n]"
proof (induction n arbitrary: cls)
  case (Suc n)
  let ?cls = "cls\<lparr>serial_rx := (serial_rx cls + 1) mod 65536\<rparr>"
  have "fst (rx_trackers n ?cls) = map (\<lambda>i. ''RX'' @ hex4 ((serial_rx ?cls + i) mod 65536)) [0..<n]"
    by (rule Suc.IH) simp
  then have IH: "fst (rx_trackers n ?cls) = map (\<lambda>i. ''RX'' @ hex4 ((serial_rx cls + i) mod 65536)) (map Suc [0..<n])"
    by (simp add: mod_simps)
  have "fst (rx_trackers (Suc n) cls) = (''RX'' @ hex4 (serial_rx cls)) # fst (rx_trackers n ?cls)"
    by (simp add: tracker_init_def split_def and_ffff Let_def del: One_nat_def)
  moreover have "[0..<Suc n] = 0 # map Suc [0..<n]" by (simp add: upt_conv_Cons map_Suc_upt del: upt_Suc)
  ultimately show ?case using Suc.prems unfolding IH by (simp del: upt_Suc)
qed simp

text \<open>65536 frames in a row have different serials.\<close>

lemma rx_serials_distinct: "serial_rx cls < 65536 \<Longrightarrow> n \<le> 65536 \<Longrightarrow> distinct (fst (rx_trackers n cls))"
proof -
  assume c: "serial_rx cls < 65536" "n \<le> 65536"
  have "i = j" if "i < n" "j < n" "hex4 ((serial_rx cls + i) mod 65536) = hex4 ((serial_rx cls + j) mod 65536)" for i j
  proof -
    have "(serial_rx cls + i) mod 65536 = (serial_rx cls + j) mod 65536" by (rule hex4_inj [OF _ _ that(3)]) simp_all
    then have "int ((serial_rx cls + i) mod 65536) = int ((serial_rx cls + j) mod 65536)" by (rule arg_cong)
    then have "int i mod 65536 = int j mod 65536" unfolding zmod_int of_nat_add of_nat_numeral by (rule mod_add_left_cancel_int)
    then show ?thesis using that c by simp
  qed
  then show ?thesis using c by (auto simp: rx_trackers_eq distinct_map inj_on_def)
qed

text \<open>Frames sent between two received frames all have the same serial, and often that of another frame.\<close>

lemma tx_serials_repeat:
  assumes "tracker_init ''tx'' e1 None t1 cls = (a, cls1)" "tracker_init ''tx'' e2 None t2 cls1 = (b, cls2)"
  shows "tk_serial a = tk_serial b" "serial_tx cls2 = (serial_tx cls + 2) mod 65536"
proof -
  show "tk_serial a = tk_serial b" "serial_tx cls2 = (serial_tx cls + 2) mod 65536"
    using assms by (auto simp: tracker_init_def and_ffff mod_simps)
qed

end
