(* ===== verification/Spec2Isabelle.thy ===== *)
theory Spec2Isabelle
  imports Buffer_Props Arp_Props Reass_Props Stack_Props Stack_Repeat Stack_Close Ip_Frag Ping_Props Resolver Tracker
begin

text \<open>
  A verification library for tipy, a user-space TCP/IP stack in Python (\<^verbatim>\<open>src/tipy\<close>) on a TAP device.

  \<^bold>\<open>The program.\<close> An application calls sockets (\<^verbatim>\<open>lib/socket.py\<close>, \<^verbatim>\<open>*_usrreq.py\<close>). A call of a TCP socket works on
  the buffers of a control block (\<^verbatim>\<open>tcp/tcpcb.py\<close>) and queues events; one thread (\<^verbatim>\<open>components/tcp_events.py\<close>) takes
  the events and runs the handlers of the state machine (\<^verbatim>\<open>tcp/tcp_fsm.py\<close>), which send segments
  (\<^verbatim>\<open>tcp/tx.py\<close>) through IP, ARP and Ethernet into a queue of frames. A second thread writes these frames to the device,
  a third reads frames from it and runs the input path (\<^verbatim>\<open>core.handle_packet\<close>) up to UDP and raw sockets or to the
  queue of TCP events, and a fourth runs timers (\<^verbatim>\<open>components/timer.py\<close>): retransmission, TIME-WAIT, ARP and reassembly.

  \<^bold>\<open>The theories.\<close> Python's integers are \<open>int\<close> (\<open>nat\<close> for lengths and offsets), bytes are \<open>8 word\<close>,
  exceptions are values of \<open>exn\<close> in the left of a sum, together with the state they leave behind where there is one,
  floats of the timers are \<open>rat\<close>.
  \<^item> \<open>Prelude\<close>, \<open>Pack\<close>, \<open>Wire\<close>: slices, errors, \<^verbatim>\<open>struct\<close> and \<^verbatim>\<open>memoryview\<close>, shared lemmas and rule collections.
  \<^item> \<open>Buffer\<close>, \<open>Buffer_Spec\<close>, \<open>Buffer_Props\<close>: \<^verbatim>\<open>lib/buffer.py\<close>. The locales \<open>fifo_buffer\<close> and \<open>rewindable_buffer\<close> are the contracts the
    TCP code relies on; both buffers are interpretations of them.
  \<^item> \<open>Csum\<close>: \<^verbatim>\<open>lib/csum.py\<close>, against RFC 1071. \<open>Inet\<close>: \<^verbatim>\<open>lib/inet.py\<close> and \<^verbatim>\<open>lib/ethernet.py\<close>.
  \<^item> \<open>Sockets_Table\<close>: \<^verbatim>\<open>components/sockets_table.py\<close>, with the locale \<open>socket_table\<close>. \<open>Timer\<close>: \<^verbatim>\<open>components/timer.py\<close>.
  \<^item> \<open>Tcp_Seq\<close>, \<open>Tcp_Types\<close>, \<open>Tcpcb\<close>, \<open>Tcp_Timer\<close>, \<open>Tcp_Fsm\<close>: \<^verbatim>\<open>tcp/tcp_seq.py\<close>, \<^verbatim>\<open>tcp/tcp.py\<close> with \<^verbatim>\<open>tcp/parser.py\<close>,
    \<^verbatim>\<open>tcp/tcpcb.py\<close>, \<^verbatim>\<open>tcp/tcp_timer.py\<close> and \<^verbatim>\<open>tcp/tcp_fsm.py\<close>, one definition per function. The state \<open>fsm\<close> is a control block with
    the parts of the core its handlers reach; \<open>tx_log\<close> are the segments it has sent. A handler that raises leaves what it has done so
    far (\<open>outcome\<close>): one reason is a segment over the MTU, for which \<^verbatim>\<open>core.tx_tcp\<close> raises (\<open>seg_fits\<close>), as the source takes any
    segment size from the peer; another is a cut option of a SYN-ACK.
  \<^item> \<open>Transport\<close>, \<open>Ip_Header\<close>, \<open>Ether_Arp\<close>: the builders and parsers of UDP, ICMP, TCP, IP, ARP and Ethernet. \<open>Ip_Frag\<close>: the class
    \<^verbatim>\<open>IPFragBuilder\<close>, whose objects never give a fragment.
  \<^item> \<open>Core_State\<close>: the core as a record, ARP and IP caches and the output path (\<^verbatim>\<open>components/core.py\<close>, \<^verbatim>\<open>arp_cache.py\<close>,
    \<^verbatim>\<open>ip_cache.py\<close>, \<^verbatim>\<open>ip/tx.py\<close>, \<^verbatim>\<open>arp/tx.py\<close>, \<^verbatim>\<open>tcp/tx.py\<close>). An operation maps a core to \<open>None\<close> (it does not return) or
    to its result or exception and the core it leaves.
  \<^item> \<open>Core_Rx\<close>: the input path (\<^verbatim>\<open>*/rx.py\<close>), reassembly, and the calls of the timer thread.
  \<^item> \<open>Sock_Api\<close>: user requests, the event thread, the acquisition of the address. \<open>Sock_Calls\<close>: the methods of the
    three socket classes (\<^verbatim>\<open>udp/socket.py\<close>, \<^verbatim>\<open>tcp/socket.py\<close>, \<^verbatim>\<open>raw/socket.py\<close>) and their dispatch.
  \<^item> \<open>Stack\<close>: the threads of \<^verbatim>\<open>rx_ring.py\<close>, \<^verbatim>\<open>tx_ring.py\<close>, \<^verbatim>\<open>timer.py\<close> and \<^verbatim>\<open>tcp_events.py\<close>, starting and stopping (\<^verbatim>\<open>core.py\<close>)
    and the configuration (\<^verbatim>\<open>config/config.py\<close>). A thread is at the test of its loop, past it and about to take the lock of its
    condition, before the second wait of the timer loop, waits, or has ended; a shutdown can come at each of these points.
  \<^item> \<open>Ping\<close>, \<open>Resolver\<close>: the programs \<^verbatim>\<open>example/ping.py\<close> and \<^verbatim>\<open>example/resolver.py\<close>. \<open>Tracker\<close>: \<^verbatim>\<open>lib/tracker.py\<close>.

  \<^bold>\<open>What is shown.\<close>
  \<^item> \<open>Tcp_Accept\<close>: which acknowledgments and segments are accepted, and how that compares with the table of RFC 9293. \<open>Tcp_Frame\<close>: what each helper leaves alone, as
    locales with an interpretation per helper. \<open>Tcp_Output\<close>: the send loop returns and cuts the data into segments
    when the segment size is between 1 and 1460 bytes; when it does not, and what it then leaves.
  \<^item> \<open>Tcp_Receive\<close>, \<open>Tcp_Conn\<close>: a connection as a transition system; its states follow the state diagram, and the receive
    window is well formed in every reachable state, those that an exception leaves included. \<open>Tcp_Stream\<close>: every data segment, sent or retransmitted, carries the bytes that
    were written at the place its sequence number says. \<open>Tcp_Delivery\<close>: what reaches the receive buffer.
  \<^item> \<open>Tcp_Open\<close>, \<open>Tcp_Close\<close>, \<open>Tcp_Live\<close>: the handshake, the ways a connection ends, timers and rate limits.
  \<^item> \<open>Packet_Props\<close>: builders and parsers are inverse. \<open>Core_Frame\<close>: what a received frame can change, through the locale
    \<open>packet_frame\<close>. \<open>Core_Paths\<close>: a segment from one stack to another, resets, echo replies, and datagrams that
    do not get through. \<open>Arp_Props\<close>: resolution of addresses. \<open>Reass_Props\<close>: reassembly.
  \<^item> \<open>Sock_Props\<close>, \<open>Sock_Connect\<close>: the calls of an application, and the opening of a connection through all layers.
  \<^item> \<open>Tcp_Exchange\<close>, \<open>Tcp_Transfer\<close>, \<open>Stack_Pair\<close>: the transfer of data between two stacks, first as steps of the state machine, then as events
    and frames of one core, then as a conversation of two applications that never gets stuck. \<open>Stack_Loss\<close>: frames that are lost are sent again after
    the timeout, however often, until they get through. \<open>Stack_Repeat\<close>: a lost acknowledgment; what arrives twice is delivered once.
    \<open>Tcp_Teardown\<close>, \<open>Stack_Close\<close>: the orderly end of the connection on both stacks. The
    second stack stands for a peer that behaves as this code does: the code has no passive open, so a connection is opened towards another
    implementation (\<open>Sock_Connect\<close>).
  \<^item> \<open>Tcp_Own\<close>: what a handler does to the timers, tables and events it shares with other connections, through the locales
    \<open>own_op\<close> and \<open>own_timer_op\<close>. \<open>Core_Wf\<close>, \<open>Core_Calls\<close>: the type invariant of the core, kept by frames, events, timers and calls.
    \<open>Core_System\<close>: the core as a transition system; in every reachable state all references lead to objects of the right kind, every control
    block is a reachable state of the transition system of a single connection, and an event touches its own connection only.
  \<^item> \<open>Stack_Props\<close>: runs of the threads and the application. They are runs of the core; frames are written in the order in which
    they are queued; an exception ends reception; starting waits for the probe and acquires the address; which threads stopping
    ends, and which miss its notification.
  \<^item> \<open>Ping_Props\<close>: an echo request of the example from one stack to another and back. \<open>Resolver\<close>: the answer of a DNS
    server is read as RFC 1035 says, against a specification of its format.

  Several theorems show that the code does not do what it means to: data that is acknowledged and lost, a call that sends
  data twice, threads that end with an exception or loop. They are stated of the code as it is.

  \<^bold>\<open>Bounds and loops.\<close> Loops are structural or have a termination proof, with four exceptions. The send loop
  (\<open>tx_while\<close>) and the loop over IP options (\<open>ip_opt_parse\<close>) may run for ever in the source; they are partial functions into
  \<open>option\<close>, and it is proved when the send loop returns and when it does not. The loop of \<^verbatim>\<open>_fragment\<close> (\<open>frag_while\<close>) tests a field
  that it never changes; it is proved that it always ends, with an exception. \<open>tcp_send\<close> takes one argument per wait
  of the loop, what happens during it; it is \<open>None\<close> when the waits are used up. Sequence numbers are masked to 32 bits where the source masks them.

  \<^bold>\<open>Environment.\<close> The clock, \<^verbatim>\<open>randint\<close> and what happens while a call waits are parts of the state or parameters;
  \<^verbatim>\<open>set.pop\<close> chooses through a parameter. The host is little-endian where the code casts to native words.

  \<^bold>\<open>Not modelled.\<close> Log output (\<^verbatim>\<open>lib/logger.py\<close>, \<^verbatim>\<open>__str__\<close>) and the opening of the device; the interleaving of threads inside
  a pass of a loop and locks: a handler runs without interruption, and its segments are sent when it has returned or raised; the
  \<^verbatim>\<open>memoryview\<close> of the send ring that a queued TCP frame holds (\<^verbatim>\<open>tcp_fsm.py\<close>, \<^verbatim>\<open>generate_segment_payload\<close>): the payload of a
  frame is the bytes it showed when it was queued, while the source reads them when the frame is built, so that bytes
  written to that place of the ring in between would be sent instead; a second start
  of a stack that was stopped; the lines of \<^verbatim>\<open>tx_ip\<close> behind the constructor of \<^verbatim>\<open>IPFragBuilder\<close>, which always
  raises; \<^verbatim>\<open>listen\<close>, which is empty in the source; what the examples print, and the interruption by the keyboard.
\<close>

end
